(* ===== verification/Prelude.thy ===== *)
theory Prelude
  imports Main "HOL-Library.List_Lexorder" "HOL-Library.Product_Lexorder"
    "HOL-Library.Option_ord" "HOL-Library.Multiset"
begin

text \<open>
  Shared vocabulary of the development: Rust's \<open>str\<close> and the parts of its standard library that
  the program uses on it (ASCII and Unicode classification, trimming, splitting, joining, decimal
  formatting, UTF-8), results with errors, and the generic list lemmas the components share.

  A Rust string is a list of Unicode scalar values (\<open>chars()\<close>), a byte string is the list of the
  byte values.  \<open>String::len\<close> counts the bytes of the UTF-8 encoding and is \<open>byte_len\<close> here;
  \<open>chars().count()\<close> is \<open>length\<close>.  The order of Rust strings (bytewise) is the lexicographic order
  of the scalar values.
\<close>

named_theorems str_simps "evaluation of the string library on concrete strings"
named_theorems gate_defs "definitions of the guards of fallible operations"

type_synonym uchar = nat
type_synonym str = "uchar list"
type_synonym byte = nat
type_synonym bytes = "byte list"

section \<open>String literals\<close>

text \<open>An ASCII literal of the source.  Non-ASCII characters of a literal are written as numbers.\<close>

definition lit :: "string \<Rightarrow> str" where
  "lit s = map of_char s"

text \<open>\<open>writeln!\<close>: the text and a line feed.\<close>

definition text_line :: "str \<Rightarrow> str" where
  "text_line s = s @ [10]"

text \<open>The dash of a rendered list, spaces included.\<close>

definition long_dash :: str where
  "long_dash = [32, 8212, 32]"

lemma inj_of_char: "inj (of_char :: char \<Rightarrow> nat)"
  by (rule injI) (metis char_of_nat nat_of_char of_char_eq_iff)

lemma lit_eq_iff [simp, str_simps]: "lit s = lit t \<longleftrightarrow> s = t"
  by (simp add: lit_def inj_map_eq_map [OF inj_of_char])

lemma lit_Nil [simp, str_simps]: "lit [] = []"
  by (simp add: lit_def)

lemma lit_eq_Nil [simp]: "lit s = [] \<longleftrightarrow> s = []" "[] = lit s \<longleftrightarrow> s = []"
  by (auto simp: lit_def)

lemma length_lit [simp, str_simps]: "length (lit s) = length s"
  by (simp add: lit_def)

lemma lit_append: "lit (s @ t) = lit s @ lit t"
  by (simp add: lit_def)

section \<open>Character classes\<close>

definition is_digit :: "uchar \<Rightarrow> bool" where
  "is_digit c \<longleftrightarrow> 48 \<le> c \<and> c \<le> 57"

definition is_upper :: "uchar \<Rightarrow> bool" where
  "is_upper c \<longleftrightarrow> 65 \<le> c \<and> c \<le> 90"

definition is_lower :: "uchar \<Rightarrow> bool" where
  "is_lower c \<longleftrightarrow> 97 \<le> c \<and> c \<le> 122"

definition is_alnum :: "uchar \<Rightarrow> bool" where
  "is_alnum c \<longleftrightarrow> is_digit c \<or> is_upper c \<or> is_lower c"

definition is_hexdigit :: "uchar \<Rightarrow> bool" where
  "is_hexdigit c \<longleftrightarrow> is_digit c \<or> (65 \<le> c \<and> c \<le> 70) \<or> (97 \<le> c \<and> c \<le> 102)"

text \<open>The Unicode property \<open>White_Space\<close>, which \<open>trim\<close> and \<open>split_whitespace\<close> test.\<close>

definition is_ws :: "uchar \<Rightarrow> bool" where
  "is_ws c \<longleftrightarrow> (9 \<le> c \<and> c \<le> 13) \<or> c = 32 \<or> c = 133 \<or> c = 160 \<or> c = 5760 \<or>
     (8192 \<le> c \<and> c \<le> 8202) \<or> c = 8232 \<or> c = 8233 \<or> c = 8239 \<or> c = 8287 \<or> c = 12288"

lemmas char_class_defs = is_digit_def is_upper_def is_lower_def is_alnum_def is_hexdigit_def is_ws_def

definition to_upper :: "uchar \<Rightarrow> uchar" where
  "to_upper c = (if is_lower c then c - 32 else c)"

definition to_lower :: "uchar \<Rightarrow> uchar" where
  "to_lower c = (if is_upper c then c + 32 else c)"

lemma to_upper_idem [simp]: "to_upper (to_upper c) = to_upper c"
  by (auto simp: to_upper_def char_class_defs)

lemma is_alnum_to_upper [simp]: "is_alnum (to_upper c) = is_alnum c"
  by (auto simp: to_upper_def char_class_defs)

lemma is_alnum_not_ws: "is_alnum c \<Longrightarrow> \<not> is_ws c"
  by (auto simp: char_class_defs)

lemma is_digit_not_ws: "is_digit c \<Longrightarrow> \<not> is_ws c"
  by (auto simp: char_class_defs)

abbreviation to_ascii_uppercase :: "str \<Rightarrow> str" where
  "to_ascii_uppercase \<equiv> map to_upper"

abbreviation to_ascii_lowercase :: "str \<Rightarrow> str" where
  "to_ascii_lowercase \<equiv> map to_lower"

definition eq_ignore_ascii_case :: "str \<Rightarrow> str \<Rightarrow> bool" where
  "eq_ignore_ascii_case a b \<longleftrightarrow> to_ascii_lowercase a = to_ascii_lowercase b"

section \<open>Trimming, splitting and joining\<close>

definition trim_start_by :: "(uchar \<Rightarrow> bool) \<Rightarrow> str \<Rightarrow> str" where
  "trim_start_by p s = dropWhile p s"

definition trim_end_by :: "(uchar \<Rightarrow> bool) \<Rightarrow> str \<Rightarrow> str" where
  "trim_end_by p s = rev (dropWhile p (rev s))"

definition trim_by :: "(uchar \<Rightarrow> bool) \<Rightarrow> str \<Rightarrow> str" where
  "trim_by p s = trim_end_by p (trim_start_by p s)"

abbreviation trim :: "str \<Rightarrow> str" where
  "trim \<equiv> trim_by is_ws"

fun cons_head :: "uchar \<Rightarrow> str list \<Rightarrow> str list" where
  "cons_head c [] = [[c]]"
| "cons_head c (w # ws) = (c # w) # ws"

text \<open>\<open>str::split\<close> with a character predicate: never the empty list of pieces.\<close>

fun split_by :: "(uchar \<Rightarrow> bool) \<Rightarrow> str \<Rightarrow> str list" where
  "split_by p [] = [[]]"
| "split_by p (c # cs) = (if p c then [] # split_by p cs else cons_head c (split_by p cs))"

definition split_whitespace :: "str \<Rightarrow> str list" where
  "split_whitespace s = filter (\<lambda>w. w \<noteq> []) (split_by is_ws s)"

text \<open>\<open>str::split\<close> with the pattern of two line feeds, leftmost matches first.\<close>

fun split_nn :: "str \<Rightarrow> str list" where
  "split_nn [] = [[]]"
| "split_nn [c] = [[c]]"
| "split_nn (c # d # cs) =
     (if c = 10 \<and> d = 10 then [] # split_nn cs else cons_head c (split_nn (d # cs)))"

fun join :: "str \<Rightarrow> str list \<Rightarrow> str" where
  "join sep [] = []"
| "join sep [w] = w"
| "join sep (w # v # ws) = w @ sep @ join sep (v # ws)"

text \<open>\<open>str::contains\<close> and \<open>str::starts_with\<close> with a string pattern.\<close>

fun starts_with :: "str \<Rightarrow> str \<Rightarrow> bool" where
  "starts_with s [] = True"
| "starts_with [] (p # ps) = False"
| "starts_with (c # cs) (p # ps) = (c = p \<and> starts_with cs ps)"

fun str_contains :: "str \<Rightarrow> str \<Rightarrow> bool" where
  "str_contains [] p = (p = [])"
| "str_contains (c # cs) p = (starts_with (c # cs) p \<or> str_contains cs p)"

fun show_nat :: "nat \<Rightarrow> str" where
  "show_nat n = (if n < 10 then [48 + n] else show_nat (n div 10) @ [48 + n mod 10])"

declare show_nat.simps [simp del]

lemma cons_head_ne [simp]: "cons_head c ws \<noteq> []"
  by (cases ws) auto

lemma split_by_ne [simp]: "split_by p s \<noteq> []"
  by (cases s) auto

lemma split_by_no_sep: "list_all (\<lambda>c. \<not> p c) s \<Longrightarrow> split_by p s = [s]"
  by (induction s) simp_all

lemma split_nn_ne [simp]: "split_nn s \<noteq> []"
  by (induction s rule: split_nn.induct) auto

lemma starts_with_iff: "starts_with s p \<longleftrightarrow> (\<exists>t. s = p @ t)"
  by (induction s p rule: starts_with.induct) auto

lemma str_contains_iff: "str_contains s p \<longleftrightarrow> (\<exists>a b. s = a @ p @ b)"
proof (induction s)
  case Nil
  then show ?case by auto
next
  case (Cons c cs)
  have "(\<exists>a b. c # cs = a @ p @ b) \<longleftrightarrow> (\<exists>b. c # cs = p @ b) \<or> (\<exists>a b. cs = a @ p @ b)"
    by (metis append_Cons append_Nil append_eq_Cons_conv)
  with Cons show ?case by (simp add: starts_with_iff)
qed

lemma show_nat_ne [simp]: "show_nat n \<noteq> []"
  by (subst show_nat.simps) auto

lemma show_nat_digits: "list_all is_digit (show_nat n)"
proof (induction n rule: show_nat.induct)
  case (1 n)
  then show ?case
    by (cases "n < 10") (auto simp: show_nat.simps [of n] is_digit_def)
qed

lemma show_nat_length_le: "0 < k \<Longrightarrow> n < 10 ^ k \<Longrightarrow> length (show_nat n) \<le> k"
proof (induction k arbitrary: n)
  case 0
  then show ?case by simp
next
  case (Suc k)
  show ?case
  proof (cases "n < 10")
    case True
    then show ?thesis by (simp add: show_nat.simps [of n])
  next
    case False
    with Suc.prems have "n div 10 < 10 ^ k" and "0 < k"
      by (auto simp: less_mult_imp_div_less mult.commute) (metis False One_nat_def gr0I mult.right_neutral power_0)
    with Suc.IH False show ?thesis by (simp add: show_nat.simps [of n])
  qed
qed

section \<open>UTF-8\<close>

definition utf8 :: "uchar \<Rightarrow> bytes" where
  "utf8 c =
     (if c < 128 then [c]
      else if c < 2048 then [192 + c div 64, 128 + c mod 64]
      else if c < 65536 then [224 + c div 4096, 128 + c div 64 mod 64, 128 + c mod 64]
      else [240 + c div 262144, 128 + c div 4096 mod 64, 128 + c div 64 mod 64, 128 + c mod 64])"

definition as_bytes :: "str \<Rightarrow> bytes" where
  "as_bytes s = concat (map utf8 s)"

definition byte_len :: "str \<Rightarrow> nat" where
  "byte_len s = length (as_bytes s)"

lemma as_bytes_simps [simp]:
  "as_bytes [] = []" "as_bytes (c # cs) = utf8 c @ as_bytes cs"
  "as_bytes (s @ t) = as_bytes s @ as_bytes t"
  by (simp_all add: as_bytes_def)

text \<open>
  The first byte fixes the number of bytes, and the bytes together fix the character: no encoding
  is a proper prefix of another, so the encoding of strings is injective.
\<close>

lemma utf8_ne [simp]: "utf8 c \<noteq> []"
  by (simp add: utf8_def)

lemma utf8_hd_length:
  "length (utf8 c) =
     (if hd (utf8 c) < 128 then 1 else if hd (utf8 c) < 224 then 2
      else if hd (utf8 c) < 240 then 3 else 4)"
  by (auto simp: utf8_def)

lemma utf8_inj:
  assumes "utf8 c = utf8 d"
  shows "c = d"
proof -
  have split64: "x = 64 * (x div 64) + x mod 64" for x :: nat by simp
  have len: "length (utf8 c) = length (utf8 d)" using assms by simp
  have div2: "x div 4096 = x div 64 div 64" "x div 262144 = x div 64 div 64 div 64" for x :: nat
    by (simp_all add: div_mult2_eq [symmetric])
  from assms len show ?thesis
    unfolding utf8_def div2
    by (simp split: if_splits) (metis split64)+
qed

lemma utf8_prefix_free:
  assumes "utf8 c @ xs = utf8 d @ ys"
  shows "c = d \<and> xs = ys"
proof -
  have "hd (utf8 c) = hd (utf8 d)" using assms by (metis hd_append2 utf8_ne)
  then have "length (utf8 c) = length (utf8 d)" by (simp add: utf8_hd_length)
  with assms have "utf8 c = utf8 d" and "xs = ys" by auto
  then show ?thesis by (auto dest: utf8_inj)
qed

lemma as_bytes_inj [simp]: "as_bytes s = as_bytes t \<longleftrightarrow> s = t"
proof
  show "as_bytes s = as_bytes t \<Longrightarrow> s = t"
  proof (induction s arbitrary: t)
    case Nil
    then show ?case by (cases t) auto
  next
    case (Cons c cs)
    then obtain d ds where t: "t = d # ds" by (cases t) auto
    with Cons.prems have "c = d" and "as_bytes cs = as_bytes ds"
      using utf8_prefix_free [of c "as_bytes cs" d "as_bytes ds"] by auto
    with Cons.IH t show ?case by auto
  qed
qed simp

text \<open>A byte below 128 occurs in an encoding exactly where that ASCII character does.\<close>

lemma ascii_in_utf8: "b < 128 \<Longrightarrow> b \<in> set (utf8 c) \<longleftrightarrow> c = b"
  by (auto simp: utf8_def)

lemma ascii_in_as_bytes: "b < 128 \<Longrightarrow> b \<in> set (as_bytes s) \<longleftrightarrow> b \<in> set s"
  by (induction s) (auto simp: ascii_in_utf8)

lemma as_bytes_ascii: "list_all (\<lambda>c. c < 128) s \<Longrightarrow> as_bytes s = s"
  by (induction s) (auto simp: utf8_def)

lemma byte_len_ascii: "list_all (\<lambda>c. c < 128) s \<Longrightarrow> byte_len s = length s"
  by (simp add: byte_len_def as_bytes_ascii)

section \<open>Sorting\<close>

lemma sort_eq_iff_mset: "sort xs = sort ys \<longleftrightarrow> mset xs = mset ys"
  by (metis mset_sort properties_for_sort sorted_sort)

section \<open>Little-endian lengths\<close>

text \<open>\<open>u64::to_le_bytes\<close> of a length.\<close>

definition le64 :: "nat \<Rightarrow> bytes" where
  "le64 n = map (\<lambda>i. n div 256 ^ i mod 256) [0..<8]"

lemma length_le64 [simp]: "length (le64 n) = 8"
  by (simp add: le64_def)

fun le_value :: "bytes \<Rightarrow> nat" where
  "le_value [] = 0"
| "le_value (b # bs) = b + 256 * le_value bs"

lemma le_value_digits: "le_value (map (\<lambda>i. n div 256 ^ i mod 256) [0..<k]) = n mod 256 ^ k"
proof (induction k arbitrary: n)
  case 0
  then show ?case by simp
next
  case (Suc k)
  have "map (\<lambda>i. n div 256 ^ i mod 256) [0..<Suc k] =
        (n mod 256) # map (\<lambda>i. n div 256 div 256 ^ i mod 256) [0..<k]"
    by (simp add: upt_conv_Cons map_Suc_upt [symmetric] div_mult2_eq del: upt_Suc)
  then have "le_value (map (\<lambda>i. n div 256 ^ i mod 256) [0..<Suc k]) =
        n mod 256 + 256 * (n div 256 mod 256 ^ k)"
    by (simp only: le_value.simps Suc.IH)
  then show ?case by (simp add: mod_mult2_eq)
qed

lemma le64_inj: "m < 2 ^ 64 \<Longrightarrow> n < 2 ^ 64 \<Longrightarrow> le64 m = le64 n \<Longrightarrow> m = n"
proof -
  assume b: "m < 2 ^ 64" "n < 2 ^ 64" and e: "le64 m = le64 n"
  have "le_value (le64 k) = k mod 2 ^ 64" for k
    using le_value_digits [of k 8] by (simp add: le64_def)
  with e have "m mod 2 ^ 64 = n mod 2 ^ 64" by metis
  with b show "m = n" by simp
qed

lemma set_map_filter: "set (List.map_filter f xs) = {y. \<exists>x \<in> set xs. f x = Some y}"
  by (induction xs) (auto simp: List.map_filter_simps split: option.splits)

end
