(* ===== verification/Digest.thy ===== *)
theory Digest
  imports Prelude
begin

text \<open>
  Content digests and domain-separated identifiers (\<open>sha256_hex\<close>, \<open>stable_id\<close> of
  \<open>pnull-core/src/lib.rs\<close>).  The hash function itself is the crate \<open>sha2\<close> followed by
  \<open>hex::encode\<close>; it is the parameter \<open>sha\<close> of every definition that uses it.  Its documented
  output format (64 lowercase hexadecimal digits) is \<open>hex_output\<close>; collision resistance, where a
  statement needs it, is injectivity on the exact byte strings that are compared.
\<close>

type_synonym hash = "bytes \<Rightarrow> str"

definition lower_hex :: "uchar \<Rightarrow> bool" where
  "lower_hex c \<longleftrightarrow> is_digit c \<or> (97 \<le> c \<and> c \<le> 102)"

definition hex_output :: "hash \<Rightarrow> bool" where
  "hex_output sha \<longleftrightarrow> (\<forall>b. length (sha b) = 64 \<and> list_all lower_hex (sha b))"

definition sha256_hex :: "hash \<Rightarrow> bytes \<Rightarrow> str" where
  "sha256_hex sha b = sha b"

text \<open>The byte stream that \<open>stable_id\<close> feeds to the hasher.\<close>

definition stable_preimage :: "str \<Rightarrow> str list \<Rightarrow> bytes" where
  "stable_preimage namespace parts =
     as_bytes namespace @ concat (map (\<lambda>part. 0 # as_bytes part) parts)"

definition stable_id :: "hash \<Rightarrow> str \<Rightarrow> str list \<Rightarrow> str" where
  "stable_id sha namespace parts =
     namespace @ lit '':'' @ sha (stable_preimage namespace parts)"

definition evidence_id :: "hash \<Rightarrow> str \<Rightarrow> str \<Rightarrow> str \<Rightarrow> str" where
  "evidence_id sha jurisdiction source_url digest =
     stable_id sha (lit ''evidence'') [jurisdiction, source_url, digest]"

text \<open>A well-formed digest as the program tests it: 64 bytes, all hexadecimal, either case.\<close>

definition is_hex64 :: "str \<Rightarrow> bool" where
  "is_hex64 digest \<longleftrightarrow> byte_len digest = 64 \<and> list_all is_hexdigit digest"

definition nul_free :: "str \<Rightarrow> bool" where
  "nul_free s \<longleftrightarrow> 0 \<notin> set s"

lemma lower_hex_is_hexdigit: "lower_hex c \<Longrightarrow> is_hexdigit c"
  by (auto simp: lower_hex_def char_class_defs)

lemma is_hexdigit_ascii: "is_hexdigit c \<Longrightarrow> c < 128"
  by (auto simp: char_class_defs)

lemma is_hex64_iff_length: "is_hex64 d \<longleftrightarrow> length d = 64 \<and> list_all is_hexdigit d"
proof -
  have "list_all is_hexdigit d \<Longrightarrow> byte_len d = length d"
    by (rule byte_len_ascii) (auto simp: list_all_iff dest: is_hexdigit_ascii)
  then show ?thesis by (auto simp: is_hex64_def)
qed

lemma hex_output_is_hex64: "hex_output sha \<Longrightarrow> is_hex64 (sha b)"
  unfolding is_hex64_iff_length hex_output_def list_all_iff
  by (auto dest: lower_hex_is_hexdigit)

section \<open>The identifier preimage is injective on NUL-free parts\<close>

lemma nul_free_bytes: "nul_free s \<Longrightarrow> 0 \<notin> set (as_bytes s)"
  by (simp add: nul_free_def ascii_in_as_bytes)

lemma nul_separated_inj:
  assumes "0 \<notin> set a" "0 \<notin> set b"
    and "(a :: bytes) @ r = b @ s" "r = [] \<or> hd r = 0" "s = [] \<or> hd s = 0"
  shows "a = b \<and> r = s"
  using assms
proof (induction a arbitrary: b)
  case Nil
  then show ?case by (cases b) auto
next
  case (Cons x xs)
  then show ?case by (cases b) auto
qed

lemma nul_parts_hd: "concat (map (\<lambda>p. 0 # as_bytes p) ps) = [] \<or> hd (concat (map (\<lambda>p. 0 # as_bytes p) ps)) = 0"
  by (cases ps) auto

lemma nul_parts_inj:
  assumes "list_all nul_free ps" "list_all nul_free qs"
    and "concat (map (\<lambda>p. 0 # as_bytes p) ps) = concat (map (\<lambda>p. 0 # as_bytes p) qs)"
  shows "ps = qs"
  using assms
proof (induction ps arbitrary: qs)
  case Nil
  then show ?case by (cases qs) auto
next
  case (Cons p ps)
  from Cons.prems obtain q qs' where qs: "qs = q # qs'" by (cases qs) auto
  let ?rest = "\<lambda>xs. concat (map (\<lambda>p. 0 # as_bytes p) xs)"
  from Cons.prems qs have "as_bytes p @ ?rest ps = as_bytes q @ ?rest qs'" by simp
  moreover from Cons.prems qs have "0 \<notin> set (as_bytes p)" "0 \<notin> set (as_bytes q)"
    by (simp_all add: nul_free_bytes)
  ultimately have "as_bytes p = as_bytes q \<and> ?rest ps = ?rest qs'"
    using nul_parts_hd by (intro nul_separated_inj) auto
  with Cons.IH [of qs'] Cons.prems qs show ?case by simp
qed

lemma stable_preimage_inj:
  assumes "nul_free n" "nul_free m" "list_all nul_free ps" "list_all nul_free qs"
    and "stable_preimage n ps = stable_preimage m qs"
  shows "n = m \<and> ps = qs"
proof -
  have "as_bytes n = as_bytes m \<and>
      concat (map (\<lambda>p. 0 # as_bytes p) ps) = concat (map (\<lambda>p. 0 # as_bytes p) qs)"
    using assms nul_parts_hd unfolding stable_preimage_def
    by (intro nul_separated_inj) (auto simp: nul_free_bytes)
  with assms nul_parts_inj [of ps qs] show ?thesis by simp
qed

lemma stable_id_eq_sha:
  "stable_id sha n ps = stable_id sha n qs \<longleftrightarrow> sha (stable_preimage n ps) = sha (stable_preimage n qs)"
  by (simp add: stable_id_def)

lemma nul_free_lit [simp]: "nul_free (lit s) \<longleftrightarrow> CHR 0x00 \<notin> set s"
proof -
  have "(of_char (CHR 0x00) :: nat) \<in> of_char ` set s \<longleftrightarrow> CHR 0x00 \<in> set s"
    by (rule inj_image_mem_iff [OF inj_of_char])
  then show ?thesis by (simp add: nul_free_def lit_def)
qed

lemma stable_id_eq_iff:
  assumes "nul_free n" "list_all nul_free ps" "list_all nul_free qs"
    and "inj_on sha {stable_preimage n ps, stable_preimage n qs}"
  shows "stable_id sha n ps = stable_id sha n qs \<longleftrightarrow> ps = qs"
proof
  assume "stable_id sha n ps = stable_id sha n qs"
  then have "sha (stable_preimage n ps) = sha (stable_preimage n qs)"
    by (simp add: stable_id_eq_sha)
  with assms(4) have "stable_preimage n ps = stable_preimage n qs"
    by (rule inj_onD) simp_all
  then show "ps = qs"
    using stable_preimage_inj [OF assms(1,1,2,3)] by blast
qed simp

section \<open>Properties\<close>

text \<open>
  Two identifiers made by \<open>stable_id\<close> in one namespace from NUL-free parts are equal exactly
  when the parts are equal, as long as the hash does not collide on the two exact preimages: the
  NUL separators make the preimage unambiguous, so a record's identity is its list of parts.
\<close>

theorem stable_id_identity:
  assumes "nul_free n" "list_all nul_free ps" "list_all nul_free qs"
    and "inj_on sha {stable_preimage n ps, stable_preimage n qs}"
  shows "stable_id sha n ps = stable_id sha n qs \<longleftrightarrow> ps = qs"
  using assms by (rule stable_id_eq_iff)

theorem stable_id_identity_witness:
  "stable_id (\<lambda>b. b) (lit ''evidence'') [lit ''a'', lit ''bc''] \<noteq>
   stable_id (\<lambda>b. b) (lit ''evidence'') [lit ''ab'', lit ''c'']"
  using stable_id_identity [of "lit ''evidence''" "[lit ''a'', lit ''bc'']" "[lit ''ab'', lit ''c'']" "\<lambda>b. b"]
  by (simp add: nul_free_def lit_def inj_on_def)

section \<open>A hash for evaluation\<close>

text \<open>For evaluation, the hash is instantiated by the identity, which has no collisions.\<close>

definition id_hash :: hash where
  "id_hash b = b"

lemma inj_id_hash [simp]: "inj_on id_hash A"
  by (simp add: inj_on_def id_hash_def)

end
