(* ===== verification/CoreTypes.thy ===== *)
theory CoreTypes
  imports Digest "HOL-Library.Word"
begin

text \<open>
  The evidence-side data of \<open>pnull-core/src/lib.rs\<close> and \<open>pnull-core/src/types.rs\<close>: enums as
  datatypes with the source's constructors, structs as records (each field carries a prefix, since
  Isabelle record fields share one name space), the \<open>label\<close> and \<open>id_for\<close> functions, and the
  binding digest of a human review.
\<close>

section \<open>Evidence, findings and alerts (lib.rs)\<close>

datatype SourceType = OfficialApi | Agenda | Contract | Amendment | HtmlPage | PlainText | Pdf

datatype ExtractionStatus = Complete | CompleteWithOcr | Failed | Rejected

record Locator =
  loc_kind :: str
  loc_start :: "32 word"
  loc_end :: "32 word"
  loc_label :: str

record Citation =
  cit_evidence_id :: str
  cit_source_url :: str
  cit_locator :: Locator
  cit_quote :: str

record StructuredError =
  err_code :: str
  err_message :: str

record EvidenceRecord =
  evr_id :: str
  evr_jurisdiction :: str
  evr_source_url :: str
  evr_source_type :: SourceType
  evr_document_title :: str
  evr_publication_date :: "str option"
  evr_retrieval_timestamp :: str
  evr_mime_type :: str
  evr_sha256 :: str
  evr_original_filename :: str
  evr_extraction_method :: str
  evr_extraction_status :: ExtractionStatus
  evr_extraction_error :: "StructuredError option"
  evr_locators :: "Locator list"
  evr_matched_rule_ids :: "str list"
  evr_quoted_source_spans :: "Citation list"
  evr_supersedes :: "str option"
  evr_processing_version :: str

datatype FindingState =
  MentionDetected | Proposal | PublicHearingScheduled | VoteScheduled | Approved | Rejected
  | ContractExecuted | RenewalOrExpansion | DeploymentReported | PolicyChange | Unknown

fun finding_state_label :: "FindingState \<Rightarrow> str" where
  "finding_state_label MentionDetected = lit ''Mention detected''"
| "finding_state_label Proposal = lit ''Proposal''"
| "finding_state_label PublicHearingScheduled = lit ''Public hearing scheduled''"
| "finding_state_label VoteScheduled = lit ''Vote scheduled''"
| "finding_state_label Approved = lit ''Approved''"
| "finding_state_label FindingState.Rejected = lit ''Rejected''"
| "finding_state_label ContractExecuted = lit ''Contract executed''"
| "finding_state_label RenewalOrExpansion = lit ''Renewal or expansion''"
| "finding_state_label DeploymentReported = lit ''Deployment reported''"
| "finding_state_label PolicyChange = lit ''Policy change''"
| "finding_state_label Unknown = lit ''Unknown''"

record Finding =
  fnd_id :: str
  fnd_evidence_id :: str
  fnd_jurisdiction :: str
  fnd_state :: FindingState
  fnd_classification_reason :: str
  fnd_rules_version :: "32 word"
  fnd_rules_digest :: str
  fnd_matched_rule_ids :: "str list"
  fnd_citations :: "Citation list"

record DiffChange =
  dch_kind :: str
  dch_summary :: str
  dch_before :: "Citation option"
  dch_after :: "Citation option"

record EvidenceDiff =
  edf_old_evidence_id :: str
  edf_new_evidence_id :: str
  edf_old_source_url :: str
  edf_new_source_url :: str
  edf_changes :: "DiffChange list"
  edf_unified_text :: str

record Alert =
  alt_id :: str
  alt_jurisdiction :: str
  alt_evidence_id :: str
  alt_previous_evidence_id :: "str option"
  alt_title :: str
  alt_state :: FindingState
  alt_summary :: str
  alt_publication_date :: str
  alt_rule_ids :: "str list"
  alt_rules_version :: "32 word"
  alt_rules_digest :: str
  alt_citations :: "Citation list"
  alt_diff :: "EvidenceDiff option"

section \<open>Subjects, actions and matters (types.rs)\<close>

datatype SubjectKind =
  Ordinance | Policy | Solicitation | Contract | Amendment | Vendor | SurveillanceTechnology
  | Program | BudgetItem | Other | Unknown

fun subject_kind_label :: "SubjectKind \<Rightarrow> str" where
  "subject_kind_label Ordinance = lit ''Ordinance''"
| "subject_kind_label Policy = lit ''Policy''"
| "subject_kind_label Solicitation = lit ''Solicitation''"
| "subject_kind_label SubjectKind.Contract = lit ''Contract''"
| "subject_kind_label SubjectKind.Amendment = lit ''Amendment''"
| "subject_kind_label Vendor = lit ''Vendor''"
| "subject_kind_label SurveillanceTechnology = lit ''Surveillance technology''"
| "subject_kind_label Program = lit ''Program''"
| "subject_kind_label BudgetItem = lit ''Budget item''"
| "subject_kind_label Other = lit ''Other''"
| "subject_kind_label SubjectKind.Unknown = lit ''Unknown''"

text \<open>The \<open>snake_case\<close> form serde writes, which the subject query sorts by.\<close>

fun subject_kind_json :: "SubjectKind \<Rightarrow> str" where
  "subject_kind_json Ordinance = lit ''ordinance''"
| "subject_kind_json Policy = lit ''policy''"
| "subject_kind_json Solicitation = lit ''solicitation''"
| "subject_kind_json SubjectKind.Contract = lit ''contract''"
| "subject_kind_json SubjectKind.Amendment = lit ''amendment''"
| "subject_kind_json Vendor = lit ''vendor''"
| "subject_kind_json SurveillanceTechnology = lit ''surveillance_technology''"
| "subject_kind_json Program = lit ''program''"
| "subject_kind_json BudgetItem = lit ''budget_item''"
| "subject_kind_json Other = lit ''other''"
| "subject_kind_json SubjectKind.Unknown = lit ''unknown''"

datatype ActionKind =
  Mentioned | Proposed | HearingScheduled | VoteScheduled | Approved | Rejected | Awarded
  | Executed | Amended | Renewed | Expanded | DeploymentReported | PolicyChanged | Unknown

fun action_kind_label :: "ActionKind \<Rightarrow> str" where
  "action_kind_label Mentioned = lit ''Mentioned''"
| "action_kind_label Proposed = lit ''Proposed''"
| "action_kind_label HearingScheduled = lit ''Hearing scheduled''"
| "action_kind_label ActionKind.VoteScheduled = lit ''Vote scheduled''"
| "action_kind_label ActionKind.Approved = lit ''Approved''"
| "action_kind_label ActionKind.Rejected = lit ''Rejected''"
| "action_kind_label Awarded = lit ''Awarded''"
| "action_kind_label Executed = lit ''Executed''"
| "action_kind_label Amended = lit ''Amended''"
| "action_kind_label Renewed = lit ''Renewed''"
| "action_kind_label Expanded = lit ''Expanded''"
| "action_kind_label ActionKind.DeploymentReported = lit ''Deployment reported''"
| "action_kind_label PolicyChanged = lit ''Policy changed''"
| "action_kind_label ActionKind.Unknown = lit ''Unknown''"

datatype DocumentRole =
  Agenda | Minutes | Ordinance | Policy | Solicitation | Award | Contract | Amendment
  | StaffReport | Presentation | Other

fun document_role_label :: "DocumentRole \<Rightarrow> str" where
  "document_role_label DocumentRole.Agenda = lit ''Agenda''"
| "document_role_label Minutes = lit ''Minutes''"
| "document_role_label DocumentRole.Ordinance = lit ''Ordinance''"
| "document_role_label DocumentRole.Policy = lit ''Policy''"
| "document_role_label DocumentRole.Solicitation = lit ''Solicitation''"
| "document_role_label Award = lit ''Award''"
| "document_role_label DocumentRole.Contract = lit ''Contract''"
| "document_role_label DocumentRole.Amendment = lit ''Amendment''"
| "document_role_label StaffReport = lit ''Staff report''"
| "document_role_label Presentation = lit ''Presentation''"
| "document_role_label DocumentRole.Other = lit ''Other''"

record Subject =
  sub_id :: str
  sub_matter_id :: str
  sub_kind :: SubjectKind
  sub_name :: str
  sub_detail :: str
  sub_citations :: "str list"
  sub_known :: bool

definition subject_id_for :: "hash \<Rightarrow> str \<Rightarrow> str \<Rightarrow> str" where
  "subject_id_for sha matter_id name = stable_id sha (lit ''subject'') [matter_id, name]"

record Action =
  act_id :: str
  act_matter_id :: str
  act_subject_id :: str
  act_kind :: ActionKind
  act_summary :: str
  act_citations :: "str list"
  act_known :: bool

definition action_id_for :: "hash \<Rightarrow> str \<Rightarrow> str \<Rightarrow> ActionKind \<Rightarrow> str \<Rightarrow> str" where
  "action_id_for sha matter_id subject_id kind summary =
     stable_id sha (lit ''action'') [matter_id, subject_id, action_kind_label kind, summary]"

record Matter =
  mat_id :: str
  mat_source_id :: str
  mat_official_matter_id :: str
  mat_title :: str
  mat_status :: str
  mat_url :: str
  mat_document_role :: DocumentRole

record MatterAttachment =
  att_id :: str
  att_matter_id :: str
  att_official_id :: str
  att_name :: str
  att_url :: str
  att_evidence_id :: "str option"

section \<open>Reviews, allowlists and fetch observations (types.rs)\<close>

datatype ReviewState = Pending | Approved | Rejected | NeedsContext | Superseded

fun review_state_label :: "ReviewState \<Rightarrow> str" where
  "review_state_label Pending = lit ''Pending''"
| "review_state_label ReviewState.Approved = lit ''Approved''"
| "review_state_label ReviewState.Rejected = lit ''Rejected''"
| "review_state_label NeedsContext = lit ''Needs context''"
| "review_state_label Superseded = lit ''Superseded''"

record ReviewDecision =
  rev_id :: str
  rev_citation_id :: str
  rev_state :: ReviewState
  rev_reviewer :: str
  rev_note :: str
  rev_bound_digest :: str
  rev_decision_digest :: str
  rev_decided_at :: str
  rev_supersedes :: "str option"

definition review_id_for :: "hash \<Rightarrow> str \<Rightarrow> str \<Rightarrow> str" where
  "review_id_for sha citation_id decided_at =
     stable_id sha (lit ''review'') [citation_id, decided_at]"

record ReviewBinding =
  rb_evidence_id :: str
  rb_source_digest :: str
  rb_locator_or_geometry :: str
  rb_quote :: str
  rb_quote_digest :: str
  rb_rule_digest :: str
  rb_processing_artifact_digest :: str
  rb_proposed_public_fields :: str

text \<open>The eight bound values, in the order of the struct.\<close>

definition binding_parts :: "ReviewBinding \<Rightarrow> str list" where
  "binding_parts b =
     [rb_evidence_id b, rb_source_digest b, rb_locator_or_geometry b, rb_quote b,
      rb_quote_digest b, rb_rule_digest b, rb_processing_artifact_digest b,
      rb_proposed_public_fields b]"

text \<open>\<open>ReviewBinding::digest\<close>: the parts are sorted before they are hashed.\<close>

definition binding_digest :: "hash \<Rightarrow> ReviewBinding \<Rightarrow> str" where
  "binding_digest sha b = stable_id sha (lit ''review-binding'') (sort (binding_parts b))"

record SourceReview =
  srv_id :: str
  srv_source_id :: str
  srv_source_config_digest :: str
  srv_reviewed_hosts :: "str list"
  srv_endpoint_patterns :: "str list"
  srv_robots_url :: str
  srv_robots_snapshot_digest :: str
  srv_robots_provenance :: "str option"
  srv_terms_urls :: "str list"
  srv_terms_snapshot_digests :: "str list"
  srv_reviewer :: str
  srv_note :: str
  srv_reviewed_at :: str
  srv_expires_at :: str
  srv_minimum_interval_seconds :: "64 word"
  srv_restrictions :: "str list"
  srv_supersedes :: "str option"

definition source_review_id_for :: "hash \<Rightarrow> str \<Rightarrow> str \<Rightarrow> str" where
  "source_review_id_for sha source_id reviewed_at =
     stable_id sha (lit ''source-review'') [source_id, reviewed_at]"

record FetchObservation =
  obs_id :: str
  obs_source_id :: "str option"
  obs_requested_url :: str
  obs_resolved_ips :: "str list"
  obs_retrieved_at :: str
  obs_method :: str
  obs_status_code :: "16 word"
  obs_redirect_target :: "str option"
  obs_final_url :: str
  obs_allowlisted_headers :: "(str \<times> str) list"
  obs_content_type :: "str option"
  obs_content_length :: "64 word option"
  obs_etag :: "str option"
  obs_last_modified :: "str option"
  obs_body_digest :: "str option"
  obs_error :: "StructuredError option"

definition fetch_observation_id_for :: "hash \<Rightarrow> str \<Rightarrow> str \<Rightarrow> 16 word \<Rightarrow> str" where
  "fetch_observation_id_for sha requested_url retrieved_at status =
     stable_id sha (lit ''fetch'') [requested_url, retrieved_at, show_nat (unat status)]"

record ConditionalResult =
  cnd_observation :: FetchObservation
  cnd_unchanged :: bool
  cnd_prior_evidence_id :: "str option"
  cnd_new_evidence_id :: "str option"

record PublicationAllowlist =
  pal_id :: str
  pal_field_categories :: "str list"
  pal_created_at :: str
  pal_note :: str

section \<open>Page geometry and processing runs (types.rs)\<close>

text \<open>An \<open>f64\<close> is stored here as its bit pattern; JSON keeps every finite value.\<close>

type_synonym f64 = "64 word"

record BoundingRect =
  rect_x_min :: f64
  rect_y_min :: f64
  rect_x_max :: f64
  rect_y_max :: f64

record MapWord =
  mw_text :: str
  mw_rect :: BoundingRect

record TextMap =
  tm_id :: str
  tm_evidence_id :: str
  tm_page_number :: "32 word"
  tm_page_width :: f64
  tm_page_height :: f64
  tm_page_rotation :: int
  tm_coordinate_system :: str
  tm_words :: "MapWord list"
  tm_extractor :: str
  tm_extractor_version :: str
  tm_digest :: str
  tm_source_digest :: str

definition text_map_id_for :: "hash \<Rightarrow> str \<Rightarrow> 32 word \<Rightarrow> str \<Rightarrow> str" where
  "text_map_id_for sha evidence page_number digest =
     stable_id sha (lit ''textmap'') [evidence, show_nat (unat page_number), digest]"

record LocatorRange =
  lr_start :: "32 word"
  lr_end :: "32 word"

record PageCitation =
  pc_id :: str
  pc_evidence_id :: str
  pc_quote :: str
  pc_quote_digest :: str
  pc_page_number :: "32 word"
  pc_rects :: "BoundingRect list"
  pc_normalized_range :: LocatorRange
  pc_text_map_digest :: str
  pc_evidence_digest :: str
  pc_ocr_confidence :: "f64 option"

definition page_citation_id_for :: "hash \<Rightarrow> str \<Rightarrow> str \<Rightarrow> 32 word \<Rightarrow> str" where
  "page_citation_id_for sha evidence quote_digest page =
     stable_id sha (lit ''page_citation'') [evidence, quote_digest, show_nat (unat page)]"

text \<open>The free-form JSON values of a run are kept as their text.\<close>

record NativeTool =
  nt_name :: str
  nt_version :: str

record OutputArtifact =
  oa_kind :: str
  oa_id :: str
  oa_digest :: str

record ProcessingRun =
  run_id :: str
  run_schema_version :: "32 word"
  run_pnull_version :: str
  run_source_revision :: str
  run_rules_digest :: str
  run_state_config_digest :: str
  run_input_evidence_ids :: "str list"
  run_native_tools :: "NativeTool list"
  run_sandbox_backend :: str
  run_sandbox_version :: str
  run_resource_budgets :: str
  run_resource_consumption :: str
  run_started_at :: str
  run_completed_at :: str
  run_outcome :: str
  run_errors :: "StructuredError list"
  run_output_artifacts :: "OutputArtifact list"

section \<open>Posting attempts (types.rs)\<close>

record XSegment =
  seg_index :: "32 word"
  seg_remote_id :: "str option"
  seg_state :: str

record XAttempt =
  xa_id :: str
  xa_alert_id :: str
  xa_draft_digest :: str
  xa_started_at :: str
  xa_status :: str
  xa_segments :: "XSegment list"

record XReconciliation =
  xr_id :: str
  xr_attempt_id :: str
  xr_decision :: str
  xr_remote_id :: "str option"
  xr_note :: str
  xr_operator :: str
  xr_decided_at :: str

section \<open>What a review binding distinguishes\<close>

lemma binding_digest_eq_iff:
  assumes "list_all nul_free (binding_parts b)" "list_all nul_free (binding_parts c)"
    and "inj_on sha {stable_preimage (lit ''review-binding'') (sort (binding_parts b)),
                     stable_preimage (lit ''review-binding'') (sort (binding_parts c))}"
  shows "binding_digest sha b = binding_digest sha c \<longleftrightarrow>
         mset (binding_parts b) = mset (binding_parts c)"
proof -
  have "binding_digest sha b = binding_digest sha c \<longleftrightarrow>
        sort (binding_parts b) = sort (binding_parts c)"
    unfolding binding_digest_def using assms
    by (intro stable_id_eq_iff) (auto simp: list_all_iff)
  then show ?thesis by (simp only: sort_eq_iff_mset)
qed

text \<open>
  The digest a reviewer approves identifies the eight bound values only as a multiset: bindings
  with NUL-free values have equal digests exactly when their values agree up to order (given no
  collision of the hash on the two preimages).  So changing the collection of values always voids
  an approval, but exchanging two values between fields never does.
\<close>

theorem binding_digest_multiset:
  assumes "list_all nul_free (binding_parts b)" "list_all nul_free (binding_parts c)"
    and "inj_on sha {stable_preimage (lit ''review-binding'') (sort (binding_parts b)),
                     stable_preimage (lit ''review-binding'') (sort (binding_parts c))}"
  shows "binding_digest sha b = binding_digest sha c \<longleftrightarrow>
         mset (binding_parts b) = mset (binding_parts c)"
  using assms by (rule binding_digest_eq_iff)

text \<open>The binding of a citation whose cited quote is \<open>q\<close> and whose locator label is \<open>l\<close>.\<close>

definition sample_binding :: "str \<Rightarrow> str \<Rightarrow> ReviewBinding" where
  "sample_binding l q =
     \<lparr>rb_evidence_id = lit ''evidence:1'', rb_source_digest = lit ''d0'',
      rb_locator_or_geometry = l, rb_quote = q, rb_quote_digest = lit ''d1'',
      rb_rule_digest = [], rb_processing_artifact_digest = [],
      rb_proposed_public_fields = lit ''quote,locator''\<rparr>"

theorem binding_digest_multiset_witness:
  "binding_digest (\<lambda>b. b) (sample_binding (lit ''line 1'') (lit ''line 2'')) =
   binding_digest (\<lambda>b. b) (sample_binding (lit ''line 2'') (lit ''line 1''))"
proof -
  let ?b = "sample_binding (lit ''line 1'') (lit ''line 2'')"
  let ?c = "sample_binding (lit ''line 2'') (lit ''line 1'')"
  have "list_all nul_free (binding_parts ?b)" "list_all nul_free (binding_parts ?c)"
    by (simp_all add: binding_parts_def sample_binding_def) (simp_all add: nul_free_def)
  then show ?thesis
    using binding_digest_multiset [of ?b ?c "\<lambda>b. b"]
    by (simp add: binding_parts_def sample_binding_def inj_on_def)
qed

end
