(* ===== verification/ProcTypes.thy ===== *)
theory ProcTypes
  imports CoreTypes
begin

text \<open>
  The procurement domain model of \<open>pnull-core/src/procurement.rs\<close>: enums with their labels (and
  the \<open>snake_case\<close> names serde writes where a query sorts by them), structs as records, the
  identifier functions, and the row-set digest of a stored snapshot.  Money parsing and identifier
  normalisation have theories of their own.
\<close>

section \<open>Sources and coverage\<close>

datatype SourceAuthority =
  AuthoritativeProcurementRecord | OfficialInformationalMirror | OfficialFinancialExport |
  OfficialMeetingOrLegislative | OperatorSuppliedPublicRecord | Unreviewed |
  RestrictedOrInaccessible

fun authority_label :: "SourceAuthority \<Rightarrow> str" where
  "authority_label SourceAuthority.AuthoritativeProcurementRecord = lit ''Authoritative procurement record''"
| "authority_label SourceAuthority.OfficialInformationalMirror = lit ''Official informational mirror''"
| "authority_label SourceAuthority.OfficialFinancialExport = lit ''Official financial export''"
| "authority_label SourceAuthority.OfficialMeetingOrLegislative = lit ''Official meeting or legislative record''"
| "authority_label SourceAuthority.OperatorSuppliedPublicRecord = lit ''Operator-supplied public record''"
| "authority_label SourceAuthority.Unreviewed = lit ''Unreviewed source''"
| "authority_label SourceAuthority.RestrictedOrInaccessible = lit ''Restricted or inaccessible source''"

datatype CoverageState =
  Complete | Partial | InformationalOnly | AccessBlocked | TermsUnreviewed | SchemaChanged
  | Unknown

fun coverage_label :: "CoverageState \<Rightarrow> str" where
  "coverage_label CoverageState.Complete = lit ''complete''"
| "coverage_label CoverageState.Partial = lit ''partial''"
| "coverage_label CoverageState.InformationalOnly = lit ''informational only''"
| "coverage_label CoverageState.AccessBlocked = lit ''access blocked''"
| "coverage_label CoverageState.TermsUnreviewed = lit ''terms unreviewed''"
| "coverage_label CoverageState.SchemaChanged = lit ''schema changed''"
| "coverage_label CoverageState.Unknown = lit ''unknown''"

record CoverageEntry =
  cov_id :: str
  cov_source_id :: str
  cov_source_url :: str
  cov_authority :: SourceAuthority
  cov_state :: CoverageState
  cov_retrieved_at :: str
  cov_persisted_digest :: "str option"
  cov_http_status :: "16 word option"
  cov_etag :: "str option"
  cov_last_modified :: "str option"
  cov_final_url :: "str option"
  cov_parser_version :: "str option"
  cov_schema_version :: "32 word option"
  cov_claimed_date_range :: "(str option \<times> str option) option"
  cov_record_count :: "64 word option"
  cov_pagination_complete :: "bool option"
  cov_access_errors :: "str list"
  cov_human_review_state :: str
  cov_note :: str

definition coverage_id_for :: "hash \<Rightarrow> str \<Rightarrow> str \<Rightarrow> str" where
  "coverage_id_for sha source_id retrieved_at =
     stable_id sha (lit ''coverage'') [source_id, retrieved_at]"

section \<open>Money, identifiers, organizations\<close>

datatype MoneyState =
  Exact | Zero | NotApplicable | Various | IdiqCeiling | Unknown | Unparseable

fun money_label :: "MoneyState \<Rightarrow> str" where
  "money_label MoneyState.Exact = lit ''exact''"
| "money_label MoneyState.Zero = lit ''zero''"
| "money_label MoneyState.NotApplicable = lit ''not applicable''"
| "money_label MoneyState.Various = lit ''various''"
| "money_label MoneyState.IdiqCeiling = lit ''IDIQ/ceiling''"
| "money_label MoneyState.Unknown = lit ''unknown''"
| "money_label MoneyState.Unparseable = lit ''unparseable''"

record MoneyValue =
  money_raw :: str
  money_state :: MoneyState
  money_cents :: "int option"

datatype IdentifierKind =
  SolicitationNumber | Rfp | Rfq | Ifb | QuoteNumber | ContractNumber | PurchaseOrder |
  Invoice | LegislativeMatter | Other | Unknown

fun identifier_kind_label :: "IdentifierKind \<Rightarrow> str" where
  "identifier_kind_label IdentifierKind.SolicitationNumber = lit ''solicitation number''"
| "identifier_kind_label IdentifierKind.Rfp = lit ''RFP''"
| "identifier_kind_label IdentifierKind.Rfq = lit ''RFQ''"
| "identifier_kind_label IdentifierKind.Ifb = lit ''IFB''"
| "identifier_kind_label IdentifierKind.QuoteNumber = lit ''quote number''"
| "identifier_kind_label IdentifierKind.ContractNumber = lit ''contract number''"
| "identifier_kind_label IdentifierKind.PurchaseOrder = lit ''purchase order''"
| "identifier_kind_label IdentifierKind.Invoice = lit ''invoice''"
| "identifier_kind_label IdentifierKind.LegislativeMatter = lit ''legislative matter''"
| "identifier_kind_label IdentifierKind.Other = lit ''other''"
| "identifier_kind_label IdentifierKind.Unknown = lit ''unknown''"

fun identifier_kind_json :: "IdentifierKind \<Rightarrow> str" where
  "identifier_kind_json IdentifierKind.SolicitationNumber = lit ''solicitation_number''"
| "identifier_kind_json IdentifierKind.Rfp = lit ''rfp''"
| "identifier_kind_json IdentifierKind.Rfq = lit ''rfq''"
| "identifier_kind_json IdentifierKind.Ifb = lit ''ifb''"
| "identifier_kind_json IdentifierKind.QuoteNumber = lit ''quote_number''"
| "identifier_kind_json IdentifierKind.ContractNumber = lit ''contract_number''"
| "identifier_kind_json IdentifierKind.PurchaseOrder = lit ''purchase_order''"
| "identifier_kind_json IdentifierKind.Invoice = lit ''invoice''"
| "identifier_kind_json IdentifierKind.LegislativeMatter = lit ''legislative_matter''"
| "identifier_kind_json IdentifierKind.Other = lit ''other''"
| "identifier_kind_json IdentifierKind.Unknown = lit ''unknown''"

record ProcurementIdentifier =
  pid_id :: str
  pid_matter_id :: str
  pid_kind :: IdentifierKind
  pid_raw :: str
  pid_source_id :: str
  pid_normalized :: "str option"
  pid_normalization_rule :: "str option"
  pid_known :: bool

definition identifier_id_for :: "hash \<Rightarrow> str \<Rightarrow> IdentifierKind \<Rightarrow> str \<Rightarrow> str" where
  "identifier_id_for sha matter_id kind raw =
     stable_id sha (lit ''proc-id'') [matter_id, identifier_kind_label kind, raw]"

datatype OrganizationRole =
  Requester | AwardedContractor | Subcontractor | JointVentureMember | Vendor |
  GovernmentDepartment | Other | Unknown

fun role_label :: "OrganizationRole \<Rightarrow> str" where
  "role_label OrganizationRole.Requester = lit ''requester''"
| "role_label OrganizationRole.AwardedContractor = lit ''awarded contractor''"
| "role_label OrganizationRole.Subcontractor = lit ''subcontractor''"
| "role_label OrganizationRole.JointVentureMember = lit ''joint venture member''"
| "role_label OrganizationRole.Vendor = lit ''vendor''"
| "role_label OrganizationRole.GovernmentDepartment = lit ''government department''"
| "role_label OrganizationRole.Other = lit ''other''"
| "role_label OrganizationRole.Unknown = lit ''unknown''"

fun role_json :: "OrganizationRole \<Rightarrow> str" where
  "role_json OrganizationRole.Requester = lit ''requester''"
| "role_json OrganizationRole.AwardedContractor = lit ''awarded_contractor''"
| "role_json OrganizationRole.Subcontractor = lit ''subcontractor''"
| "role_json OrganizationRole.JointVentureMember = lit ''joint_venture_member''"
| "role_json OrganizationRole.Vendor = lit ''vendor''"
| "role_json OrganizationRole.GovernmentDepartment = lit ''government_department''"
| "role_json OrganizationRole.Other = lit ''other''"
| "role_json OrganizationRole.Unknown = lit ''unknown''"

record ProcurementOrganization =
  org_id :: str
  org_matter_id :: str
  org_role :: OrganizationRole
  org_raw_name :: str
  org_source_id :: str
  org_normalized_alias :: "str option"
  org_alias_reviewed :: bool

definition organization_id_for :: "hash \<Rightarrow> str \<Rightarrow> OrganizationRole \<Rightarrow> str \<Rightarrow> str" where
  "organization_id_for sha matter_id role raw_name =
     stable_id sha (lit ''proc-org'') [matter_id, role_label role, raw_name]"

section \<open>Events and matters\<close>

datatype ProcurementEventKind =
  SolicitationPublished | AmendmentPublished | QuestionsAndAnswersPublished |
  SubmissionDeadlineChanged | AwardAnnounced | ContractExecuted | ContractAmended |
  ExpenditureReported | RecordCorrected | RecordRemoved | Unknown

fun event_kind_label :: "ProcurementEventKind \<Rightarrow> str" where
  "event_kind_label ProcurementEventKind.SolicitationPublished = lit ''solicitation published''"
| "event_kind_label ProcurementEventKind.AmendmentPublished = lit ''amendment or addendum published''"
| "event_kind_label ProcurementEventKind.QuestionsAndAnswersPublished = lit ''questions and answers published''"
| "event_kind_label ProcurementEventKind.SubmissionDeadlineChanged = lit ''submission deadline changed''"
| "event_kind_label ProcurementEventKind.AwardAnnounced = lit ''award announced''"
| "event_kind_label ProcurementEventKind.ContractExecuted = lit ''contract executed''"
| "event_kind_label ProcurementEventKind.ContractAmended = lit ''contract amended''"
| "event_kind_label ProcurementEventKind.ExpenditureReported = lit ''expenditure reported''"
| "event_kind_label ProcurementEventKind.RecordCorrected = lit ''record corrected''"
| "event_kind_label ProcurementEventKind.RecordRemoved = lit ''record removed''"
| "event_kind_label ProcurementEventKind.Unknown = lit ''unknown''"

record ProcurementEvent =
  ev_id :: str
  ev_matter_id :: str
  ev_kind :: ProcurementEventKind
  ev_date :: "str option"
  ev_summary :: str
  ev_identifier_ids :: "str list"
  ev_evidence_ids :: "str list"
  ev_source_id :: str

definition event_id_for :: "hash \<Rightarrow> str \<Rightarrow> ProcurementEventKind \<Rightarrow> str \<Rightarrow> str \<Rightarrow> str" where
  "event_id_for sha matter_id kind date summary =
     stable_id sha (lit ''proc-event'') [matter_id, event_kind_label kind, date, summary]"

record ProcurementMatter =
  pm_id :: str
  pm_jurisdiction :: str
  pm_title :: str
  pm_review_state :: str
  pm_publication_state :: str

definition matter_id_for :: "hash \<Rightarrow> str \<Rightarrow> str \<Rightarrow> str" where
  "matter_id_for sha jurisdiction title =
     stable_id sha (lit ''proc-matter'') [jurisdiction, title]"

section \<open>Snapshots and their rows\<close>

record SourceSnapshot =
  snap_id :: str
  snap_source_id :: str
  snap_source_url :: str
  snap_retrieved_at :: str
  snap_persisted_digest :: str
  snap_content_type :: "str option"
  snap_etag :: "str option"
  snap_last_modified :: "str option"
  snap_final_url :: str
  snap_redirect_history :: "str list"
  snap_parser_version :: str
  snap_schema_version :: "32 word"
  snap_record_count :: "64 word option"
  snap_pagination_complete :: "bool option"
  snap_coverage_state :: CoverageState
  snap_supersedes :: "str option"

definition snapshot_id_for :: "hash \<Rightarrow> str \<Rightarrow> str \<Rightarrow> str" where
  "snapshot_id_for sha source_id persisted_digest =
     stable_id sha (lit ''snapshot'') [source_id, persisted_digest]"

record SnapshotRow =
  row_key :: str
  row_canonical :: str
  row_digest :: str
  row_raw_json :: str

record SnapshotRowSet =
  rset_snapshot_id :: str
  rset_expected_count :: "64 word"
  rset_digest :: str
  rset_parser_version :: str
  rset_schema_version :: "32 word"

record SnapshotRevision =
  srev_id :: str
  srev_snapshot_id :: str
  srev_supersedes :: "str option"
  srev_superseded_by :: "str option"
  srev_reason :: str
  srev_recorded_at :: str

definition revision_id_for :: "hash \<Rightarrow> str \<Rightarrow> str \<Rightarrow> str" where
  "revision_id_for sha snapshot_id recorded_at =
     stable_id sha (lit ''snapshot-rev'') [snapshot_id, recorded_at]"

record RecordChange =
  chg_kind :: str
  chg_row_key :: str
  chg_summary :: str

record SnapshotDiff =
  sdiff_id :: str
  sdiff_old_snapshot_id :: str
  sdiff_new_snapshot_id :: str
  sdiff_source_id :: str
  sdiff_changes :: "RecordChange list"
  sdiff_produced_at :: str

definition diff_id_for :: "hash \<Rightarrow> str \<Rightarrow> str \<Rightarrow> str" where
  "diff_id_for sha old_snapshot_id new_snapshot_id =
     stable_id sha (lit ''snapshot-diff'') [old_snapshot_id, new_snapshot_id]"

section \<open>Reconciliation, case files, records requests\<close>

datatype ReconciliationKind =
  CandidateIdentifierMatch | VendorAlias | ConflictingAwardAmount | ConflictingDate |
  DuplicateOrRevisedRow | MissingDocument | VanishedRecord | Other

fun reconciliation_label :: "ReconciliationKind \<Rightarrow> str" where
  "reconciliation_label ReconciliationKind.CandidateIdentifierMatch = lit ''candidate identifier match''"
| "reconciliation_label ReconciliationKind.VendorAlias = lit ''vendor alias''"
| "reconciliation_label ReconciliationKind.ConflictingAwardAmount = lit ''conflicting award amount''"
| "reconciliation_label ReconciliationKind.ConflictingDate = lit ''conflicting date''"
| "reconciliation_label ReconciliationKind.DuplicateOrRevisedRow = lit ''duplicate or revised row''"
| "reconciliation_label ReconciliationKind.MissingDocument = lit ''missing document''"
| "reconciliation_label ReconciliationKind.VanishedRecord = lit ''vanished record''"
| "reconciliation_label ReconciliationKind.Other = lit ''other''"

record ReconciliationItem =
  ri_id :: str
  ri_matter_id :: str
  ri_kind :: ReconciliationKind
  ri_summary :: str
  ri_record_refs :: "str list"
  ri_state :: str
  ri_created_at :: str

definition item_id_for :: "hash \<Rightarrow> str \<Rightarrow> ReconciliationKind \<Rightarrow> str \<Rightarrow> str" where
  "item_id_for sha matter_id kind summary =
     stable_id sha (lit ''reconcile'') [matter_id, reconciliation_label kind, summary]"

record ReconciliationDecision =
  dec_id :: str
  dec_item_id :: str
  dec_decision :: str
  dec_operator :: str
  dec_note :: str
  dec_decided_at :: str

definition decision_id_for :: "hash \<Rightarrow> str \<Rightarrow> str \<Rightarrow> str" where
  "decision_id_for sha item_id decided_at =
     stable_id sha (lit ''reconcile-decision'') [item_id, decided_at]"

datatype CaseFileState =
  Draft | Reviewed | Published

fun case_file_label :: "CaseFileState \<Rightarrow> str" where
  "case_file_label CaseFileState.Draft = lit ''draft''"
| "case_file_label CaseFileState.Reviewed = lit ''reviewed''"
| "case_file_label CaseFileState.Published = lit ''published''"

record CaseFile =
  cf_id :: str
  cf_matter_id :: str
  cf_state :: CaseFileState
  cf_json_digest :: str
  cf_markdown_digest :: str
  cf_sha256_manifest :: "(str \<times> str) list"
  cf_built_at :: str

definition case_file_id_for :: "hash \<Rightarrow> str \<Rightarrow> str \<Rightarrow> str" where
  "case_file_id_for sha matter_id built_at =
     stable_id sha (lit ''case-file'') [matter_id, built_at]"

record CoraDraft =
  cd_id :: str
  cd_matter_id :: str
  cd_institution :: str
  cd_identifiers :: "str list"
  cd_missing_record_types :: "str list"
  cd_date_range :: "(str option \<times> str option) option"
  cd_vendor_or_project :: "str option"
  cd_sources_checked :: "str list"
  cd_markdown :: str
  cd_created_at :: str

definition cora_draft_id_for :: "hash \<Rightarrow> str \<Rightarrow> str \<Rightarrow> str" where
  "cora_draft_id_for sha matter_id created_at =
     stable_id sha (lit ''cora'') [matter_id, created_at]"

datatype CoraRequestState =
  Drafted | Submitted | ResponseReceived | GapResolved | StillUnresolved

fun cora_label :: "CoraRequestState \<Rightarrow> str" where
  "cora_label CoraRequestState.Drafted = lit ''drafted''"
| "cora_label CoraRequestState.Submitted = lit ''submitted''"
| "cora_label CoraRequestState.ResponseReceived = lit ''response_received''"
| "cora_label CoraRequestState.GapResolved = lit ''gap_resolved''"
| "cora_label CoraRequestState.StillUnresolved = lit ''still_unresolved''"

record CoraRequestEvent =
  ce_id :: str
  ce_request_id :: str
  ce_state :: CoraRequestState
  ce_operator :: str
  ce_timestamp :: str
  ce_note :: str

record CoraRequest =
  cr_id :: str
  cr_matter_id :: str
  cr_state :: CoraRequestState
  cr_gap_set_digest :: str
  cr_created_at :: str
  cr_institution :: str
  cr_identifiers :: "str list"
  cr_missing_record_types :: "str list"
  cr_date_range :: "(str option \<times> str option) option"
  cr_vendor_or_project :: "str option"
  cr_sources_checked :: "str list"
  cr_draft_text :: str
  cr_draft_digest :: str
  cr_events :: "CoraRequestEvent list"

definition cora_request_id_for :: "hash \<Rightarrow> str \<Rightarrow> str \<Rightarrow> str \<Rightarrow> str" where
  "cora_request_id_for sha matter_id gap_set_digest created_at =
     stable_id sha (lit ''cora-req'') [matter_id, gap_set_digest, created_at]"

section \<open>Change alerts and official relationships\<close>

datatype ProcurementChangeKind =
  RecordAdded | RecordModified | RecordRemoved

fun change_label :: "ProcurementChangeKind \<Rightarrow> str" where
  "change_label ProcurementChangeKind.RecordAdded = lit ''record_added''"
| "change_label ProcurementChangeKind.RecordModified = lit ''record_modified''"
| "change_label ProcurementChangeKind.RecordRemoved = lit ''record_removed''"

record FieldDiff =
  fd_field :: str
  fd_old_raw :: str
  fd_new_raw :: str

record ProcurementRecordChange =
  prc_change_kind :: ProcurementChangeKind
  prc_row_identity :: str
  prc_field_diffs :: "FieldDiff list"
  prc_old_snapshot_id :: str
  prc_old_snapshot_digest :: str
  prc_new_snapshot_id :: str
  prc_new_snapshot_digest :: str
  prc_summary :: str

record ProcurementAlert =
  pa_id :: str
  pa_source_id :: str
  pa_surface :: str
  pa_old_snapshot_id :: str
  pa_old_snapshot_digest :: str
  pa_new_snapshot_id :: str
  pa_new_snapshot_digest :: str
  pa_changes :: "ProcurementRecordChange list"
  pa_retrieved_at :: str
  pa_coverage_state :: CoverageState
  pa_matter_ids :: "str list"
  pa_identifier_ids :: "str list"
  pa_taxonomy_matches :: "str list"
  pa_summary :: str

definition procurement_alert_id_for :: "hash \<Rightarrow> str \<Rightarrow> str \<Rightarrow> str \<Rightarrow> ProcurementChangeKind \<Rightarrow> str \<Rightarrow> str \<Rightarrow> str" where
  "procurement_alert_id_for sha source_id surface row_identity change_kind old_snapshot_id new_snapshot_id =
     stable_id sha (lit ''proc-alert'') [source_id, surface, row_identity, change_label change_kind, old_snapshot_id, new_snapshot_id]"

datatype OfficialRelationshipKind = OfficialRelationshipLink

record OfficialRelationship =
  rel_id :: str
  rel_kind :: OfficialRelationshipKind
  rel_source_record_id :: str
  rel_source_snapshot_id :: str
  rel_source_snapshot_digest :: str
  rel_target_identifier :: str
  rel_target_matter_id :: str
  rel_reference_field :: str
  rel_quote :: str
  rel_locator :: str
  rel_citations :: "str list"
  rel_reviewed :: bool

definition relationship_id_for :: "hash \<Rightarrow> str \<Rightarrow> str \<Rightarrow> str \<Rightarrow> str \<Rightarrow> str" where
  "relationship_id_for sha source_record_id reference_field target_identifier source_snapshot_id =
     stable_id sha (lit ''official-rel'') [source_record_id, reference_field, target_identifier, source_snapshot_id]"

text \<open>The labels of an enum are distinct, so an identifier fixes the kind it was made for.\<close>

lemma event_kind_label_inj [simp]: "event_kind_label k = event_kind_label l \<longleftrightarrow> k = l"
  by (cases k; cases l; simp)

lemma identifier_kind_label_inj [simp]: "identifier_kind_label k = identifier_kind_label l \<longleftrightarrow> k = l"
  by (cases k; cases l; simp)

lemma change_label_inj [simp]: "change_label k = change_label l \<longleftrightarrow> k = l"
  by (cases k; cases l; simp)

lemma cora_label_inj [simp]: "cora_label k = cora_label l \<longleftrightarrow> k = l"
  by (cases k; cases l; simp)

lemma change_label_nul_free [simp]: "nul_free (change_label k)"
  by (cases k) simp_all

lemma cora_label_nul_free [simp]: "nul_free (cora_label k)"
  by (cases k) simp_all

section \<open>The row-set digest\<close>

text \<open>What a row contributes: its identity key and its canonical text.\<close>

abbreviation row_pair :: "SnapshotRow \<Rightarrow> str \<times> str" where
  "row_pair r \<equiv> (row_key r, row_canonical r)"

text \<open>One row of the stream: both strings, each preceded by its byte length.\<close>

definition row_chunk :: "str \<times> str \<Rightarrow> bytes" where
  "row_chunk kc =
     le64 (byte_len (fst kc)) @ as_bytes (fst kc) @ le64 (byte_len (snd kc)) @ as_bytes (snd kc)"

definition row_set_stream :: "SnapshotRow list \<Rightarrow> bytes" where
  "row_set_stream rows = concat (map (row_chunk \<circ> row_pair) (sort_key row_pair rows))"

definition row_set_digest :: "hash \<Rightarrow> SnapshotRow list \<Rightarrow> str" where
  "row_set_digest sha rows = sha (row_set_stream rows)"

text \<open>\<open>(s.len() as u64)\<close> is exact for every string that fits in memory.\<close>

definition small_row :: "SnapshotRow \<Rightarrow> bool" where
  "small_row r \<longleftrightarrow> byte_len (row_key r) < 2 ^ 64 \<and> byte_len (row_canonical r) < 2 ^ 64"

lemma map_pair_sort: "map row_pair (sort_key row_pair rows) = sort (map row_pair rows)"
  by (rule properties_for_sort [symmetric]) (simp_all add: mset_map [symmetric] del: mset_map, simp add: mset_map)

lemma row_set_stream_sorted: "row_set_stream rows = concat (map row_chunk (sort (map row_pair rows)))"
  unfolding row_set_stream_def map_pair_sort [symmetric] by simp

lemma length_prefixed_inj:
  assumes "byte_len a < 2 ^ 64" "byte_len b < 2 ^ 64"
    and "le64 (byte_len a) @ as_bytes a @ r = le64 (byte_len b) @ as_bytes b @ s"
  shows "a = b \<and> r = s"
proof -
  from assms(3) have "le64 (byte_len a) = le64 (byte_len b)" and rest: "as_bytes a @ r = as_bytes b @ s"
    by (simp_all add: append_eq_append_conv)
  then have "byte_len a = byte_len b" using assms(1,2) by (blast intro: le64_inj)
  with rest show ?thesis by (simp add: byte_len_def append_eq_append_conv)
qed

lemma row_chunk_inj:
  assumes "byte_len (fst x) < 2 ^ 64" "byte_len (snd x) < 2 ^ 64"
    and "byte_len (fst y) < 2 ^ 64" "byte_len (snd y) < 2 ^ 64"
    and "row_chunk x @ r = row_chunk y @ s"
  shows "x = y \<and> r = s"
proof -
  from assms(5) have eq: "le64 (byte_len (fst x)) @ as_bytes (fst x) @ le64 (byte_len (snd x)) @ as_bytes (snd x) @ r =
        le64 (byte_len (fst y)) @ as_bytes (fst y) @ le64 (byte_len (snd y)) @ as_bytes (snd y) @ s"
    by (simp add: row_chunk_def)
  from length_prefixed_inj [OF assms(1,3) eq] have "fst x = fst y"
    and eq2: "le64 (byte_len (snd x)) @ as_bytes (snd x) @ r = le64 (byte_len (snd y)) @ as_bytes (snd y) @ s"
    by blast+
  moreover from length_prefixed_inj [OF assms(2,4) eq2] have "snd x = snd y" "r = s" by blast+
  ultimately show ?thesis by (simp add: prod_eq_iff)
qed

lemma row_chunks_inj:
  assumes "\<forall>x \<in> set xs. byte_len (fst x) < 2 ^ 64 \<and> byte_len (snd x) < 2 ^ 64"
    and "\<forall>y \<in> set ys. byte_len (fst y) < 2 ^ 64 \<and> byte_len (snd y) < 2 ^ 64"
    and "concat (map row_chunk xs) = concat (map row_chunk ys)"
  shows "xs = ys"
  using assms
proof (induction xs arbitrary: ys)
  case Nil
  then show ?case by (cases ys) (auto simp: row_chunk_def le64_def)
next
  case (Cons x xs)
  from Cons.prems obtain y ys' where ys: "ys = y # ys'"
    by (cases ys) (auto simp: row_chunk_def le64_def)
  with Cons.prems have "x = y \<and> concat (map row_chunk xs) = concat (map row_chunk ys')"
    by (intro row_chunk_inj) auto
  with Cons.IH [of ys'] Cons.prems ys show ?case by simp
qed

lemma row_set_stream_eq_iff:
  assumes "list_all small_row xs" "list_all small_row ys"
  shows "row_set_stream xs = row_set_stream ys \<longleftrightarrow> mset (map row_pair xs) = mset (map row_pair ys)"
proof -
  have "row_set_stream xs = row_set_stream ys \<longleftrightarrow> sort (map row_pair xs) = sort (map row_pair ys)"
  proof
    assume "row_set_stream xs = row_set_stream ys"
    then show "sort (map row_pair xs) = sort (map row_pair ys)"
      unfolding row_set_stream_sorted using assms
      by (intro row_chunks_inj) (auto simp: list_all_iff small_row_def)
  qed (simp add: row_set_stream_sorted)
  also have "\<dots> \<longleftrightarrow> mset (map row_pair xs) = mset (map row_pair ys)"
    by (rule sort_eq_iff_mset)
  finally show ?thesis .
qed

lemma row_set_digest_cong:
  assumes "mset (map row_pair xs) = mset (map row_pair ys)"
  shows "row_set_digest sha xs = row_set_digest sha ys"
proof -
  have "sort (map row_pair xs) = sort (map row_pair ys)"
    using assms by (simp only: sort_eq_iff_mset)
  then show ?thesis by (simp add: row_set_digest_def row_set_stream_sorted)
qed

lemma row_set_digest_iff:
  assumes "list_all small_row xs" "list_all small_row ys"
    and "inj_on sha {row_set_stream xs, row_set_stream ys}"
  shows "row_set_digest sha xs = row_set_digest sha ys \<longleftrightarrow>
         mset (map row_pair xs) = mset (map row_pair ys)"
  unfolding row_set_digest_def row_set_stream_eq_iff [OF assms(1,2), symmetric]
  by (rule inj_on_eq_iff [OF assms(3)]) simp_all

text \<open>
  The row-set digest of a snapshot identifies its rows as a multiset of (key, canonical) pairs:
  it ignores their order, keeps duplicates, and no other rows have the same digest unless the hash
  collides on the two exact streams (the length prefixes make the stream unambiguous).
\<close>

theorem row_set_digest_multiset:
  assumes "list_all small_row xs" "list_all small_row ys"
    and "inj_on sha {row_set_stream xs, row_set_stream ys}"
  shows "row_set_digest sha xs = row_set_digest sha ys \<longleftrightarrow>
         mset (map row_pair xs) = mset (map row_pair ys)"
  using assms by (rule row_set_digest_iff)

definition sample_row :: "string \<Rightarrow> string \<Rightarrow> SnapshotRow" where
  "sample_row k c = \<lparr>row_key = lit k, row_canonical = lit c, row_digest = [], row_raw_json = []\<rparr>"

lemma small_sample_row [simp]: "small_row (sample_row [x] [y])"
proof -
  have "length (utf8 c) \<le> 4" for c by (simp add: utf8_def)
  then have "byte_len (lit [z]) \<le> 4" for z by (simp add: byte_len_def lit_def)
  moreover have "(4 :: nat) < 2 ^ 64" by simp
  ultimately have "byte_len (lit [z]) < 2 ^ 64" for z by (rule order_le_less_trans)
  then show ?thesis unfolding small_row_def sample_row_def SnapshotRow.simps by blast
qed

theorem row_set_digest_multiset_witness:
  "row_set_digest (\<lambda>b. b) [sample_row ''K'' ''a'', sample_row ''K'' ''b''] =
     row_set_digest (\<lambda>b. b) [sample_row ''K'' ''b'', sample_row ''K'' ''a''] \<and>
   row_set_digest (\<lambda>b. b) [sample_row ''K'' ''a'', sample_row ''K'' ''a''] \<noteq>
     row_set_digest (\<lambda>b. b) [sample_row ''K'' ''a'']"
proof -
  have "list_all small_row [sample_row ''K'' ''a'', sample_row ''K'' ''b'']"
    and "list_all small_row [sample_row ''K'' ''b'', sample_row ''K'' ''a'']"
    and "list_all small_row [sample_row ''K'' ''a'', sample_row ''K'' ''a'']"
    and "list_all small_row [sample_row ''K'' ''a'']" by simp_all
  note l = this
  have i: "inj_on (\<lambda>b :: bytes. b) A" for A by simp
  show ?thesis
    unfolding row_set_digest_multiset [OF l(1,2) i] row_set_digest_multiset [OF l(3,4) i]
    by (simp add: sample_row_def)
qed

end
