(* ===== verification/Money.thy ===== *)
theory Money
  imports ProcTypes
begin

text \<open>
  Amounts (\<open>parse_money\<close>, \<open>parse_cents\<close>, \<open>MoneyValue::display\<close> of
  \<open>pnull-core/src/procurement.rs\<close>).  Cents are \<open>i64\<close> in the source: they are \<open>int\<close> here, and
  every operation that can leave the range is the checked one, as in the source.
\<close>

section \<open>64-bit signed arithmetic and decimal parsing\<close>

definition i64_max :: int where
  "i64_max = 2 ^ 63 - 1"

definition i64_checked :: "int \<Rightarrow> int option" where
  "i64_checked x = (if - (2 ^ 63) \<le> x \<and> x \<le> i64_max then Some x else None)"

definition digits_value :: "str \<Rightarrow> nat" where
  "digits_value s = foldl (\<lambda>v c. 10 * v + (c - 48)) 0 s"

text \<open>\<open>parse::<i64>\<close> of a string that holds only ASCII digits: the empty string is an error.\<close>

definition parse_i64_digits :: "str \<Rightarrow> int option" where
  "parse_i64_digits s = (if s = [] then None else i64_checked (int (digits_value s)))"

definition split_once_dot :: "str \<Rightarrow> str \<times> str" where
  "split_once_dot s =
     (if 46 \<in> set s then (takeWhile (\<lambda>c. c \<noteq> 46) s, tl (dropWhile (\<lambda>c. c \<noteq> 46) s)) else (s, []))"

definition parse_cents :: "str \<Rightarrow> int option" where
  "parse_cents cleaned =
     (let compact = filter (\<lambda>c. is_digit c \<or> c = 46 \<or> c = 45) cleaned in
      if compact = [] then None
      else
        let negative = starts_with compact (lit ''-'');
            unsigned = trim_start_by (\<lambda>c. c = 45) compact in
        if unsigned = [] then None
        else
          let (whole, frac0) = split_once_dot unsigned in
          if \<not> list_all is_digit whole then None
          else
            let frac = trim_end_by (\<lambda>c. c = 48) frac0 in
            if byte_len frac > 2 \<or> \<not> list_all is_digit frac then None
            else
              case parse_i64_digits whole of None \<Rightarrow> None
              | Some whole_int \<Rightarrow>
                  (case (if frac = [] then Some 0
                         else parse_i64_digits (if byte_len frac = 1 then frac @ lit ''0'' else frac))
                   of None \<Rightarrow> None
                   | Some frac_val \<Rightarrow>
                       (case i64_checked (whole_int * 100) of None \<Rightarrow> None
                        | Some hundreds \<Rightarrow>
                            (case i64_checked (hundreds + frac_val) of None \<Rightarrow> None
                             | Some cents \<Rightarrow> Some (if negative then - cents else cents)))))"

definition money_char :: "uchar \<Rightarrow> bool" where
  "money_char c \<longleftrightarrow> is_digit c \<or> c \<in> {46, 45, 36, 44, 32, 160}"

definition parse_money :: "str \<Rightarrow> MoneyValue" where
  "parse_money raw =
     (let trimmed = trim raw in
      if trimmed = [] then \<lparr>money_raw = raw, money_state = MoneyState.Unknown, money_cents = None\<rparr>
      else
        let lower = to_ascii_lowercase trimmed in
        if lower \<in> {lit ''n/a'', lit ''na'', lit ''-''}
        then \<lparr>money_raw = raw, money_state = NotApplicable, money_cents = None\<rparr>
        else if str_contains lower (lit ''various'')
        then \<lparr>money_raw = raw, money_state = Various, money_cents = None\<rparr>
        else if str_contains lower (lit ''idiq'') \<or> str_contains lower (lit ''ceiling'')
        then \<lparr>money_raw = raw, money_state = IdiqCeiling, money_cents = parse_cents lower\<rparr>
        else
          case parse_cents (filter money_char trimmed) of
            Some cents \<Rightarrow>
              if cents = 0 then \<lparr>money_raw = raw, money_state = Zero, money_cents = Some 0\<rparr>
              else \<lparr>money_raw = raw, money_state = Exact, money_cents = Some cents\<rparr>
          | None \<Rightarrow> \<lparr>money_raw = raw, money_state = Unparseable, money_cents = None\<rparr>)"

section \<open>Display\<close>

definition show_int :: "int \<Rightarrow> str" where
  "show_int i = (if i < 0 then 45 # show_nat (nat (- i)) else show_nat (nat i))"

definition pad2 :: "nat \<Rightarrow> str" where
  "pad2 n = (if n < 10 then 48 # show_nat n else show_nat n)"

text \<open>Rust's \<open>/\<close> on signed integers truncates towards zero.\<close>

definition trunc_div :: "int \<Rightarrow> int \<Rightarrow> int" where
  "trunc_div a b = sgn a * sgn b * (\<bar>a\<bar> div \<bar>b\<bar>)"

definition trunc_rem :: "int \<Rightarrow> int \<Rightarrow> int" where
  "trunc_rem a b = a - b * trunc_div a b"

definition money_display :: "MoneyValue \<Rightarrow> str" where
  "money_display v =
     (case money_state v of
        Exact \<Rightarrow>
          (case money_cents v of
             Some cents \<Rightarrow> lit ''$'' @ show_int (trunc_div cents 100) @ lit ''.'' @
               pad2 (nat \<bar>trunc_rem cents 100\<bar>)
           | None \<Rightarrow> money_raw v)
      | s \<Rightarrow> money_label s)"

section \<open>Lemmas on decimal strings\<close>

lemma digits_value_snoc: "digits_value (s @ [c]) = 10 * digits_value s + (c - 48)"
  by (simp add: digits_value_def)

lemma digits_value_show_nat [simp]: "digits_value (show_nat n) = n"
proof (induction n rule: show_nat.induct)
  case (1 n)
  show ?case
  proof (cases "n < 10")
    case True
    then show ?thesis by (simp add: show_nat.simps [of n] digits_value_def)
  next
    case False
    with 1 show ?thesis by (simp add: show_nat.simps [of n] digits_value_snoc)
  qed
qed

lemma show_nat_set: "c \<in> set (show_nat n) \<Longrightarrow> is_digit c"
  using show_nat_digits [of n] by (simp add: list_all_iff)

lemma show_nat_small: "n < 10 \<Longrightarrow> show_nat n = [48 + n]"
  by (simp add: show_nat.simps [of n])

lemma show_nat_two: "10 \<le> n \<Longrightarrow> n < 100 \<Longrightarrow> show_nat n = [48 + n div 10, 48 + n mod 10]"
  by (simp add: show_nat.simps [of n] show_nat_small)

lemma pad2_two: "n < 100 \<Longrightarrow> pad2 n = [48 + n div 10, 48 + n mod 10]"
  by (cases "n < 10") (simp_all add: pad2_def show_nat_small show_nat_two)

lemma trunc_div_pos: "0 \<le> c \<Longrightarrow> trunc_div c 100 = c div 100"
  by (cases "c = 0") (simp_all add: trunc_div_def)

lemma trunc_rem_pos: "0 \<le> c \<Longrightarrow> trunc_rem c 100 = c mod 100"
  by (simp add: trunc_rem_def trunc_div_pos minus_mult_div_eq_mod)

lemma i64_checked_Some: "i64_checked x = Some y \<longleftrightarrow> y = x \<and> - (2 ^ 63) \<le> x \<and> x \<le> i64_max"
  by (auto simp: i64_checked_def)

lemma parse_i64_digits_show_nat: "int n \<le> i64_max \<Longrightarrow> parse_i64_digits (show_nat n) = Some (int n)"
  by (simp add: parse_i64_digits_def i64_checked_def)

lemma filter_digits: "list_all is_digit s \<Longrightarrow> filter (\<lambda>c. is_digit c \<or> P c) s = s"
  by (simp add: filter_id_conv list_all_iff)

text \<open>The fraction as printed, trimmed and padded again by the parser.\<close>

lemma frac_roundtrip:
  assumes "f < 100"
  shows "trim_end_by (\<lambda>c. c = 48) (pad2 f) =
      (if f = 0 then [] else if f mod 10 = 0 then [48 + f div 10] else pad2 f)"
  using assms by (auto simp: trim_end_by_def pad2_two)

lemma two_digits_value: "digits_value [48 + a, 48 + b] = 10 * a + b"
  by (simp add: digits_value_def)

lemma parse_cents_printed:
  assumes "100 * w + f \<le> nat i64_max" "f < 100"
  shows "parse_cents (show_nat w @ lit ''.'' @ pad2 f) = Some (int (100 * w + f))"
proof -
  let ?s = "show_nat w @ lit ''.'' @ pad2 f"
  have dot: "lit ''.'' = [46]" by (simp add: lit_def)
  have digs: "list_all is_digit (show_nat w)" by (rule show_nat_digits)
  have fd: "is_digit (48 + f div 10)" "is_digit (48 + f mod 10)"
    using assms(2) by (simp_all add: is_digit_def)
  have compact: "filter (\<lambda>c. is_digit c \<or> c = 46 \<or> c = 45) ?s = ?s"
    using filter_digits [OF digs] fd assms(2) by (simp add: dot pad2_two)
  obtain d ds where sw: "show_nat w = d # ds" by (cases "show_nat w") auto
  with digs have d: "is_digit d" by simp
  then have nodash: "d \<noteq> 45" by (auto simp: is_digit_def)
  have dash: "lit ''-'' = [45]" by (simp add: lit_def)
  have nodot: "\<forall>c \<in> set (show_nat w). c \<noteq> 46"
    by (auto simp: is_digit_def dest: show_nat_set)
  then have tw: "takeWhile (\<lambda>c. c \<noteq> 46) ?s = show_nat w"
    and dw: "dropWhile (\<lambda>c. c \<noteq> 46) ?s = 46 # pad2 f"
    by (simp_all add: dot takeWhile_append2 dropWhile_append2)
  have split: "split_once_dot ?s = (show_nat w, pad2 f)"
    unfolding split_once_dot_def tw dw by (simp add: dot)
  have "int (100 * w + f) \<le> i64_max" using assms(1) by (simp add: i64_max_def)
  then have ranges: "int w \<le> i64_max" "int w * 100 \<le> i64_max" "int w * 100 + int f \<le> i64_max"
    by simp_all
  let ?frac = "trim_end_by (\<lambda>c. c = 48) (pad2 f)"
  have ascii: "is_digit c \<Longrightarrow> utf8 c = [c]" for c by (simp add: is_digit_def utf8_def)
  have fr: "byte_len ?frac \<le> 2 \<and> list_all is_digit ?frac \<and>
     (if ?frac = [] then Some 0
      else parse_i64_digits (if byte_len ?frac = 1 then ?frac @ lit ''0'' else ?frac)) = Some (int f)"
  proof -
    consider "f = 0" | "f \<noteq> 0" "f mod 10 = 0" | "f mod 10 \<noteq> 0" by auto
    then show ?thesis
    proof cases
      case 1
      then show ?thesis by (simp add: frac_roundtrip byte_len_def)
    next
      case 2
      have fr1: "?frac = [48 + f div 10]" using 2 assms(2) by (simp add: frac_roundtrip)
      have z: "lit ''0'' = [48 + 0]" by (simp add: lit_def)
      have f: "10 * (f div 10) + 0 = f" using 2 by presburger
      have p: "parse_i64_digits [48 + f div 10, 48 + 0] = Some (int f)"
        unfolding parse_i64_digits_def two_digits_value f
        using assms(2) by (simp add: i64_checked_def i64_max_def)
      show ?thesis unfolding fr1 z using fd ascii [OF fd(1)] p by (simp add: byte_len_def)
    next
      case 3
      then have "f \<noteq> 0" by auto
      have fr2: "?frac = [48 + f div 10, 48 + f mod 10]"
        unfolding pad2_two [OF assms(2)] trim_end_by_def using 3 by simp
      have f: "10 * (f div 10) + f mod 10 = f" by presburger
      have p: "parse_i64_digits [48 + f div 10, 48 + f mod 10] = Some (int f)"
        unfolding parse_i64_digits_def two_digits_value f
        using assms(2) by (simp add: i64_checked_def i64_max_def)
      show ?thesis unfolding fr2 using fd ascii [OF fd(1)] ascii [OF fd(2)] p
        by (simp add: byte_len_def)
    qed
  qed
  have steps: "i64_checked (int w * 100) = Some (int w * 100)"
    "i64_checked (int w * 100 + int f) = Some (int w * 100 + int f)"
    using ranges by (simp_all add: i64_checked_Some)
  have no_sign: "starts_with ?s (lit ''-'') = False" "trim_start_by (\<lambda>c. c = 45) ?s = ?s"
    using nodash by (simp_all add: sw dash trim_start_by_def)
  have ne: "?s \<noteq> []" by (simp add: dot)
  note fr3 = fr [THEN conjunct2, THEN conjunct2]
  have fr1: "(byte_len ?frac > 2 \<or> \<not> list_all is_digit ?frac) = False"
    using fr by auto
  show ?thesis
    unfolding parse_cents_def compact Let_def no_sign split prod.case fr1 fr3
      parse_i64_digits_show_nat [OF ranges(1)] option.case steps
    using ne digs by simp
qed

text \<open>A sign in front of digits negates what they stand for.\<close>

lemma parse_cents_negated:
  assumes "is_digit d"
  shows "parse_cents (45 # d # ds) = map_option uminus (parse_cents (d # ds))"
proof -
  have d: "d \<noteq> 45" "\<not> is_digit 45" using assms by (auto simp: is_digit_def)
  let ?t = "filter (\<lambda>c. is_digit c \<or> c = 46 \<or> c = 45) ds"
  have sign: "starts_with (45 # d # ?t) (lit ''-'') = True" "starts_with (d # ?t) (lit ''-'') = False"
    using d(1) by (simp_all add: lit_def)
  have rest: "trim_start_by (\<lambda>c. c = 45) (45 # d # ?t) = d # ?t" "trim_start_by (\<lambda>c. c = 45) (d # ?t) = d # ?t"
    using d(1) by (simp_all add: trim_start_by_def)
  obtain whole fr where sp: "split_once_dot (d # ?t) = (whole, fr)" by fastforce
  have "filter (\<lambda>c. is_digit c \<or> c = 46 \<or> c = 45) (45 # d # ds) = 45 # d # ?t"
    "filter (\<lambda>c. is_digit c \<or> c = 46 \<or> c = 45) (d # ds) = d # ?t"
    using assms by simp_all
  then show ?thesis
    unfolding parse_cents_def by (simp add: Let_def sign rest sp split: option.split)
qed

lemma money_char_digit: "is_digit c \<Longrightarrow> money_char c"
  by (simp add: money_char_def)

lemma digit_lower: "is_digit c \<Longrightarrow> to_lower c = c"
  by (simp add: to_lower_def char_class_defs)

text \<open>A printed amount survives trimming and cleaning, and is none of the special words.\<close>

definition printed :: "bool \<Rightarrow> nat \<Rightarrow> nat \<Rightarrow> str" where
  "printed neg w f = 36 # (if neg then [45] else []) @ show_nat w @ 46 # pad2 f"

lemma printed_chars: "f < 100 \<Longrightarrow> c \<in> set (printed neg w f) \<Longrightarrow> is_digit c \<or> c \<in> {36, 45, 46}"
  by (auto simp: printed_def pad2_two is_digit_def dest: show_nat_set split: if_splits)

lemma trim_printed: "f < 100 \<Longrightarrow> trim (printed neg w f) = printed neg w f"
proof -
  assume f: "f < 100"
  then have l: "printed neg w f = (36 # (if neg then [45] else []) @ show_nat w @ [46, 48 + f div 10]) @ [48 + f mod 10]"
    by (simp add: printed_def pad2_two)
  have "\<not> is_ws (48 + f mod 10)" by (rule is_digit_not_ws) (simp add: is_digit_def)
  moreover have "\<not> is_ws 36" by (simp add: is_ws_def)
  ultimately show ?thesis
    unfolding trim_by_def trim_end_by_def trim_start_by_def l by simp
qed

lemma contains_set: "str_contains s p \<Longrightarrow> c \<in> set p \<Longrightarrow> c \<in> set s"
  by (auto simp: str_contains_iff)

lemma lit_mem: "c \<in> set s \<Longrightarrow> of_char c \<in> set (lit s)"
  by (simp add: lit_def)

lemma printed_lower: "f < 100 \<Longrightarrow> to_ascii_lowercase (printed neg w f) = printed neg w f"
proof -
  assume f: "f < 100"
  have "to_lower c = c" if "c \<in> set (printed neg w f)" for c
    using printed_chars [OF f that] by (auto simp: digit_lower to_lower_def is_upper_def is_digit_def)
  then show ?thesis by (simp add: map_idI)
qed

lemma printed_no_i: "f < 100 \<Longrightarrow> 105 \<notin> set (printed neg w f)"
  by (auto simp: is_digit_def dest!: printed_chars)

lemma printed_not_word: "f < 100 \<Longrightarrow> 105 \<in> set p \<Longrightarrow> \<not> str_contains (printed neg w f) p"
  using contains_set printed_no_i by blast

lemma parse_money_printed:
  assumes "100 * w + f \<le> nat i64_max" "f < 100" "0 < 100 * w + f"
  shows "parse_money (printed neg w f) = \<lparr>money_raw = printed neg w f, money_state = Exact,
     money_cents = Some (if neg then - int (100 * w + f) else int (100 * w + f))\<rparr>"
proof -
  have words: "105 \<in> set (lit ''various'')" "105 \<in> set (lit ''idiq'')" "105 \<in> set (lit ''ceiling'')"
    by (simp_all add: lit_def)
  have ne: "printed neg w f \<notin> {lit ''n/a'', lit ''na'', lit ''-''}"
    by (simp add: printed_def lit_def)
  have clean: "filter money_char (printed neg w f) = printed neg w f"
    using printed_chars [OF assms(2)] by (auto simp: filter_id_conv money_char_def)
  let ?body = "show_nat w @ lit ''.'' @ pad2 f"
  have "filter (\<lambda>c. is_digit c \<or> c = 46 \<or> c = 45) (printed neg w f) =
        filter (\<lambda>c. is_digit c \<or> c = 46 \<or> c = 45) ((if neg then [45] else []) @ ?body)"
    by (simp add: printed_def is_digit_def lit_def)
  then have "parse_cents (printed neg w f) = parse_cents ((if neg then [45] else []) @ ?body)"
    by (simp only: parse_cents_def)
  moreover obtain d ds where "show_nat w = d # ds" "is_digit d"
    using show_nat_digits [of w] by (cases "show_nat w") auto
  ultimately have pc: "parse_cents (printed neg w f) = Some (if neg then - int (100 * w + f) else int (100 * w + f))"
    using parse_cents_printed [OF assms(1,2)] by (cases neg) (simp_all add: parse_cents_negated)
  have nz: "printed neg w f \<noteq> []" by (simp add: printed_def)
  have "int (100 * w + f) \<noteq> 0" using assms(3) by linarith
  then have c0: "(if neg then - int (100 * w + f) else int (100 * w + f)) \<noteq> 0" by (cases neg) simp_all
  have nw: "\<not> str_contains (printed neg w f) (lit ''various'')" "\<not> str_contains (printed neg w f) (lit ''idiq'')"
    "\<not> str_contains (printed neg w f) (lit ''ceiling'')"
    using assms(2) words by (simp_all add: printed_not_word)
  show ?thesis
    unfolding parse_money_def Let_def trim_printed [OF assms(2)] printed_lower [OF assms(2)] clean pc
    using ne nz nw c0 by (simp only: option.case if_False if_True simp_thms)
qed

text \<open>What an amount is printed as: the sign is that of the whole part, which is not there below one.\<close>

lemma money_display_exact:
  "money_display \<lparr>money_raw = r, money_state = Exact, money_cents = Some c\<rparr> =
     printed (c \<le> - 100) (nat \<bar>c\<bar> div 100) (nat \<bar>c\<bar> mod 100)"
proof -
  have div_lt: "\<bar>c\<bar> div 100 = 0 \<longleftrightarrow> \<bar>c\<bar> < 100" by (auto simp: zdiv_eq_0_iff)
  have rem: "\<bar>trunc_rem c 100\<bar> = \<bar>c\<bar> mod 100"
  proof (cases "0 \<le> c")
    case False
    then have "trunc_rem c 100 = - (\<bar>c\<bar> mod 100)"
      by (simp add: trunc_rem_def trunc_div_def minus_mult_div_eq_mod [symmetric])
    then show ?thesis by simp
  qed (simp add: trunc_rem_pos)
  have quot: "show_int (trunc_div c 100) = (if c \<le> - 100 then [45] else []) @ show_nat (nat (\<bar>c\<bar> div 100))"
    using div_lt by (cases c "0 :: int" rule: linorder_cases) (auto simp: show_int_def trunc_div_def)
  show ?thesis by (simp add: money_display_def printed_def rem quot lit_def nat_div_distrib nat_mod_distrib)
qed

section \<open>Properties\<close>

lemma parse_i64_digits_nonneg: "parse_i64_digits s = Some v \<Longrightarrow> 0 \<le> v"
  by (auto simp: parse_i64_digits_def i64_checked_Some split: if_splits)

lemma cents_steps_bounds:
  assumes "0 \<le> w" "0 \<le> f" "i64_checked (w * 100) = Some h" "i64_checked (h + f) = Some c"
  shows "\<bar>if negative then - c else c\<bar> \<le> i64_max"
  using assms by (auto simp: i64_checked_Some)

lemma parse_cents_bounds:
  assumes "parse_cents s = Some c"
  shows "\<bar>c\<bar> \<le> i64_max"
proof -
  let ?t = "filter (\<lambda>c. is_digit c \<or> c = 46 \<or> c = 45) s"
  obtain whole fr where sp: "split_once_dot (trim_start_by (\<lambda>c. c = 45) ?t) = (whole, fr)" by fastforce
  define frac where "frac = trim_end_by (\<lambda>c. c = 48) fr"
  from assms obtain w f h d where
    w: "parse_i64_digits whole = Some w"
    and f: "(if frac = [] then Some 0
             else parse_i64_digits (if byte_len frac = 1 then frac @ lit ''0'' else frac)) = Some f"
    and h: "i64_checked (w * 100) = Some h" and d: "i64_checked (h + f) = Some d"
    and c: "c = (if starts_with ?t (lit ''-'') then - d else d)"
    unfolding parse_cents_def Let_def sp prod.case frac_def [symmetric]
    by (simp split: if_split_asm option.split_asm)
  have "0 \<le> f" using f parse_i64_digits_nonneg by (simp split: if_split_asm)
  then show ?thesis
    unfolding c using parse_i64_digits_nonneg [OF w] cents_steps_bounds h d by blast
qed

text \<open>
  What a parsed amount claims is consistent: the raw text is kept; an exact amount has non-zero
  cents that fit an \<open>i64\<close> (and so does its negation, which makes the unary minus safe); zero is zero;
  and unknown, not-applicable, various and unparseable amounts carry no number at all.
\<close>

lemma exact_amount:
  assumes "money_state (parse_money s) = Exact" "money_cents (parse_money s) = Some c"
  shows "c \<noteq> 0 \<and> \<bar>c\<bar> \<le> i64_max"
  using assms parse_cents_bounds
  unfolding parse_money_def Let_def by (auto split: if_splits option.splits)

theorem parse_money_consistent:
  "money_raw (parse_money s) = s \<and>
   (case money_state (parse_money s) of
      Exact \<Rightarrow> (\<exists>c. money_cents (parse_money s) = Some c \<and> c \<noteq> 0 \<and> \<bar>c\<bar> \<le> i64_max)
    | Zero \<Rightarrow> money_cents (parse_money s) = Some 0
    | IdiqCeiling \<Rightarrow> (case money_cents (parse_money s) of None \<Rightarrow> True | Some c \<Rightarrow> \<bar>c\<bar> \<le> i64_max)
    | _ \<Rightarrow> money_cents (parse_money s) = None)"
proof -
  have b: "parse_cents t = Some c \<Longrightarrow> \<bar>c\<bar> \<le> i64_max" for t c
    by (rule parse_cents_bounds)
  show ?thesis
    unfolding parse_money_def Let_def
    by (simp split: option.split add: b)
qed

text \<open>
  C33: Every exact amount the parser can read is printed so that it reads back: the amount printed is exact
  again and has the same cents, negative amounts included, except for a negative amount of less than one
  dollar, which is printed without its sign and reads back as its opposite.
\<close>

theorem money_roundtrip:
  assumes "money_state (parse_money s) = Exact" "money_cents (parse_money s) = Some c"
  shows "let shown = money_display (parse_money s) in
    parse_money shown = \<lparr>money_raw = shown, money_state = Exact,
      money_cents = Some (if - 100 < c \<and> c < 0 then - c else c)\<rparr>"
proof -
  have c: "c \<noteq> 0" "\<bar>c\<bar> \<le> i64_max" using exact_amount [OF assms] by simp_all
  define n where "n = nat \<bar>c\<bar>"
  have n: "n \<le> nat i64_max" "0 < n" "int n = \<bar>c\<bar>" using c by (simp_all add: n_def)
  have sum: "100 * (n div 100) + n mod 100 = n" by simp
  have bounds: "100 * (n div 100) + n mod 100 \<le> nat i64_max" "n mod 100 < 100" "0 < 100 * (n div 100) + n mod 100"
    unfolding sum using n by simp_all
  have "parse_money s = \<lparr>money_raw = money_raw (parse_money s), money_state = Exact, money_cents = Some c\<rparr>"
    using assms by (cases "parse_money s") simp
  then have shown: "money_display (parse_money s) = printed (c \<le> - 100) (n div 100) (n mod 100)"
    unfolding n_def by (metis money_display_exact)
  have "(if c \<le> - 100 then - int n else int n) = (if - 100 < c \<and> c < 0 then - c else c)"
    unfolding n(3) by simp
  then show ?thesis
    unfolding Let_def shown parse_money_printed [OF bounds] sum by simp
qed

text \<open>So a debit of less than one dollar is printed like a payment.\<close>

lemma small_debit_loses_sign:
  assumes "- 100 < c" "c < 0"
  shows "money_display \<lparr>money_raw = r, money_state = Exact, money_cents = Some c\<rparr> =
    money_display \<lparr>money_raw = r, money_state = Exact, money_cents = Some (- c)\<rparr>"
  using assms by (simp add: money_display_exact)

text \<open>
  A range is read as one exact amount: the parser keeps every digit of \<open>10 to 20\<close> and reports
  the exact amount 1020.00 instead of an unparseable cell.
\<close>

theorem money_range_reads_as_amount:
  "parse_money (lit ''$10 to $20'') =
     \<lparr>money_raw = lit ''$10 to $20'', money_state = Exact, money_cents = Some 102000\<rparr>"
proof -
  let ?s = "lit ''$10 to $20''"
  have s: "?s = [36, 49, 48, 32, 116, 111, 32, 36, 50, 48]" by (simp add: lit_def)
  have t: "trim ?s = ?s" unfolding s by (simp add: trim_by_def trim_end_by_def trim_start_by_def is_ws_def)
  have l: "to_ascii_lowercase ?s = ?s" unfolding s by (simp add: to_lower_def is_upper_def)
  have nw: "\<not> str_contains ?s (lit ''various'')" "\<not> str_contains ?s (lit ''idiq'')"
    "\<not> str_contains ?s (lit ''ceiling'')"
    using contains_set [of ?s _ 105] unfolding s by (auto simp: lit_def)
  have ne: "?s \<notin> {lit ''n/a'', lit ''na'', lit ''-''}" by simp
  have f: "filter money_char ?s = [36, 49, 48, 32, 32, 36, 50, 48]"
    unfolding s by (simp add: money_char_def is_digit_def)
  have c: "parse_cents [36, 49, 48, 32, 32, 36, 50, 48] = Some 102000"
    by (simp add: parse_cents_def is_digit_def lit_def trim_start_by_def trim_end_by_def split_once_dot_def
        byte_len_def parse_i64_digits_def digits_value_def i64_checked_def i64_max_def)
  show ?thesis
    unfolding parse_money_def Let_def t l f c using nw ne by (simp add: s)
qed

theorem money_roundtrip_witness:
  "money_cents (parse_money (money_display (parse_money (lit ''$-1234.05'')))) = Some (- 123405)"
proof -
  have "printed True 1234 5 = lit ''$-1234.05''"
    by (simp add: printed_def lit_def pad2_def show_nat.simps)
  then have "parse_money (lit ''$-1234.05'') = \<lparr>money_raw = lit ''$-1234.05'', money_state = Exact, money_cents = Some (- 123405)\<rparr>"
    using parse_money_printed [of 1234 5 True] by (simp add: i64_max_def)
  then show ?thesis using money_roundtrip [of "lit ''$-1234.05''" "- 123405"] by (simp add: Let_def)
qed

end
