(* ===== verification/Tables.thy ===== *)
theory Tables
  imports Prelude
begin

text \<open>
  Append-only keyed tables, the pattern behind almost every table of the store: \<open>INSERT OR IGNORE\<close>
  keeps the first row of a key, and \<open>SELECT\<close> reads rows back by key or in the order of a column.  The
  locale \<open>keyed_table\<close> is the interface the store's tables satisfy (each is an interpretation in
  theory Store); its lemmas are what the procurement components rely on.
\<close>

section \<open>Statements\<close>

text \<open>\<open>INSERT OR IGNORE\<close>: whether a row was added, and the table.\<close>

definition insert_or_ignore :: "('r \<Rightarrow> 'k) \<Rightarrow> 'r \<Rightarrow> 'r list \<Rightarrow> bool \<times> 'r list" where
  "insert_or_ignore key r t = (if key r \<in> key ` set t then (False, t) else (True, t @ [r]))"

text \<open>\<open>SELECT ... WHERE key = k\<close> of at most one row.\<close>

definition select_by :: "('r \<Rightarrow> 'k) \<Rightarrow> 'k \<Rightarrow> 'r list \<Rightarrow> 'r option" where
  "select_by key k t = find (\<lambda>r. key r = k) t"

text \<open>
  \<open>SELECT ... WHERE p ORDER BY k\<close>: ascending, ties in insertion order.  Text columns compare as in
  SQLite's binary collation, that is by Unicode scalars; a NULL comes first.
\<close>

definition select_where :: "('r \<Rightarrow> bool) \<Rightarrow> ('r \<Rightarrow> 'o::linorder) \<Rightarrow> 'r list \<Rightarrow> 'r list" where
  "select_where p k t = sort_key k (filter p t)"

definition last_option :: "'r list \<Rightarrow> 'r option" where
  "last_option xs = (if xs = [] then None else Some (last xs))"

text \<open>\<open>UPDATE ... WHERE key = k\<close> with a whole new row.\<close>

definition update_by :: "('r \<Rightarrow> 'k) \<Rightarrow> 'r \<Rightarrow> 'r list \<Rightarrow> 'r list" where
  "update_by key r t = map (\<lambda>q. if key q = key r then r else q) t"

section \<open>Lemmas\<close>

lemma select_by_Some_iff:
  "distinct (map key t) \<Longrightarrow> select_by key k t = Some r \<longleftrightarrow> r \<in> set t \<and> key r = k"
  unfolding select_by_def
  by (induction t) (auto simp: find_None_iff image_iff)

lemma select_by_None_iff: "select_by key k t = None \<longleftrightarrow> k \<notin> key ` set t"
  unfolding select_by_def by (auto simp: find_None_iff)

lemma select_by_append:
  "select_by key k (t @ u) = (case select_by key k t of None \<Rightarrow> select_by key k u | Some r \<Rightarrow> Some r)"
  unfolding select_by_def by (induction t) auto

lemma select_by_simps [simp]:
  "select_by key k [] = None"
  "select_by key k [r] = (if key r = k then Some r else None)"
  by (simp_all add: select_by_def)

lemma select_by_SomeD: "select_by key k t = Some r \<Longrightarrow> r \<in> set t \<and> key r = k"
  unfolding select_by_def by (auto simp: find_Some_iff)

lemma set_select_where [simp]: "set (select_where p k t) = {r \<in> set t. p r}"
  by (simp add: select_where_def)

lemma mset_select_where [simp]: "mset (select_where p k t) = filter_mset p (mset t)"
  by (simp add: select_where_def)

lemma sorted_select_where: "sorted (map k (select_where p k t))"
  by (simp add: select_where_def)

lemma distinct_select_where: "distinct (map key t) \<Longrightarrow> distinct (map key (select_where p k t))"
  unfolding select_where_def
  by (metis distinct_map_filter mset_map mset_sort distinct_count_atmost_1 mset_eq_imp_distinct_iff)

lemma last_option_in: "last_option xs = Some x \<Longrightarrow> x \<in> set xs"
  by (auto simp: last_option_def split: if_splits)

lemma length_update_by [simp]: "length (update_by key r t) = length t"
  by (simp add: update_by_def)

lemma map_key_update_by [simp]: "map key (update_by key r t) = map key t"
  by (simp add: update_by_def)

lemma update_by_other: "key q \<noteq> key r \<Longrightarrow> q \<in> set t \<Longrightarrow> q \<in> set (update_by key r t)"
  by (force simp: update_by_def)

lemma update_by_absent: "key r \<notin> key ` set t \<Longrightarrow> update_by key r t = t"
  unfolding update_by_def by (rule map_idI) (metis imageI)

section \<open>The interface of an append-only keyed table\<close>

text \<open>
  \<open>tbl\<close> reads the table of a state and \<open>ins\<close> is the method that adds a row: it says whether it added
  one, adds it at the end only if the key is new, and otherwise leaves the table alone.
\<close>

locale keyed_table =
  fixes key :: "'r \<Rightarrow> 'k" and tbl :: "'s \<Rightarrow> 'r list" and ins :: "'r \<Rightarrow> 's \<Rightarrow> 'e + (bool \<times> 's)"
  assumes ins_added: "ins r s = Inr (b, s') \<Longrightarrow> b \<longleftrightarrow> key r \<notin> key ` set (tbl s)"
    and ins_tbl: "ins r s = Inr (b, s') \<Longrightarrow> tbl s' = (if b then tbl s @ [r] else tbl s)"
begin

lemma keeps_unique: "ins r s = Inr (b, s') \<Longrightarrow> distinct (map key (tbl s)) \<Longrightarrow> distinct (map key (tbl s'))"
  using ins_added [of r s b s'] ins_tbl [of r s b s'] by auto

lemma never_forgets: "ins r s = Inr (b, s') \<Longrightarrow> \<exists>more. tbl s' = tbl s @ more"
  using ins_tbl [of r s b s'] by (cases b) auto

lemma key_present: "ins r s = Inr (b, s') \<Longrightarrow> key r \<in> key ` set (tbl s')"
  using ins_added [of r s b s'] ins_tbl [of r s b s'] by auto

lemma first_row_wins:
  assumes "ins r s = Inr (b, s')" "select_by key k (tbl s) = Some q"
  shows "select_by key k (tbl s') = Some q"
  using ins_tbl [OF assms(1)] assms(2) by (cases b) (simp_all add: select_by_append)

lemma read_back:
  assumes "ins r s = Inr (True, s')"
  shows "select_by key (key r) (tbl s') = Some r"
proof -
  have "select_by key (key r) (tbl s) = None"
    using ins_added [OF assms] by (simp add: select_by_None_iff)
  then show ?thesis
    using ins_tbl [OF assms] by (simp add: select_by_append)
qed

lemma insert_twice:
  assumes "ins r s = Inr (b, s')" "key q = key r" "ins q s' = Inr (c, s'')"
  shows "\<not> c \<and> tbl s'' = tbl s'"
proof -
  have "\<not> c" using ins_added [OF assms(3)] key_present [OF assms(1)] assms(2) by simp
  then show ?thesis using ins_tbl [OF assms(3)] by simp
qed

end

end
