(* ===== verification/Store.thy ===== *)
theory Store
  imports Tables Money
begin

text \<open>
  The state of a data directory (\<open>Store\<close> of \<open>pnull-core/src/lib.rs\<close>, tables of
  \<open>migrate.rs\<close>): one list of records per SQLite table, in insertion order, plus the content-addressed
  evidence files and the canonical record files.  Each Store method is one definition; methods that
  write return the new state.  A row's JSON column is modelled by the record itself (serde writes and
  reads these structs without loss), and a column that repeats a JSON field is read off the record.
  Failures of the file system, of the disk or of SQLite itself are not modelled; the constraint
  violations the schema can raise are.
\<close>

section \<open>Errors and results\<close>

datatype SqliteError = ForeignKeyViolation | PrimaryKeyViolation

datatype MigrationError = UnsupportedVersion "32 word"

datatype CoreError =
  Sqlite SqliteError
| Io
| NotFound str
| InvalidDigest str
| DigestMismatch str str str
| Migration MigrationError
| SnapshotRowSetConflict str
| SnapshotRowIntegrity str str

type_synonym 'a core_result = "CoreError + 'a"

section \<open>The state\<close>

record Approval =
  app_alert_id :: str
  app_draft_digest :: str
  app_approved_at :: str

record Post =
  post_alert_id :: str
  post_remote_ids :: "str list"
  post_posted_at :: str

record PostSegment =
  pseg_alert_id :: str
  pseg_index :: nat
  pseg_remote_id :: str

record SuppliedRecordRow =
  sup_id :: str
  sup_observed_digest :: str
  sup_record_json :: str

record StoredRow =
  srow_snapshot_id :: str
  srow_seq :: nat
  srow_row :: SnapshotRow

record store =
  st_content :: "str \<rightharpoonup> bytes"
  st_record_files :: "str \<rightharpoonup> EvidenceRecord"
  st_evidence :: "(EvidenceRecord \<times> str) list"
  st_approvals :: "Approval list"
  st_posts :: "Post list"
  st_source_fetches :: "(str \<times> int) list"
  st_post_segments :: "PostSegment list"
  st_findings :: "Finding list"
  st_alerts :: "Alert list"
  st_matters :: "Matter list"
  st_attachments :: "MatterAttachment list"
  st_subjects :: "Subject list"
  st_actions :: "Action list"
  st_text_maps :: "TextMap list"
  st_page_citations :: "PageCitation list"
  st_reviews :: "ReviewDecision list"
  st_runs :: "ProcessingRun list"
  st_source_reviews :: "SourceReview list"
  st_observations :: "FetchObservation list"
  st_x_attempts :: "XAttempt list"
  st_x_reconciliations :: "XReconciliation list"
  st_allowlists :: "PublicationAllowlist list"
  st_proc_matters :: "ProcurementMatter list"
  st_proc_events :: "ProcurementEvent list"
  st_proc_identifiers :: "ProcurementIdentifier list"
  st_proc_organizations :: "ProcurementOrganization list"
  st_coverage :: "CoverageEntry list"
  st_snapshots :: "SourceSnapshot list"
  st_revisions :: "SnapshotRevision list"
  st_diffs :: "SnapshotDiff list"
  st_recon_items :: "ReconciliationItem list"
  st_recon_decisions :: "ReconciliationDecision list"
  st_case_files :: "CaseFile list"
  st_cora_drafts :: "CoraDraft list"
  st_proc_alerts :: "ProcurementAlert list"
  st_cora_requests :: "CoraRequest list"
  st_relationships :: "OfficialRelationship list"
  st_supplied_records :: "SuppliedRecordRow list"
  st_snapshot_rows :: "StoredRow list"
  st_row_sets :: "SnapshotRowSet list"

definition empty_store :: store where
  "empty_store =
     \<lparr>st_content = Map.empty, st_record_files = Map.empty, st_evidence = [], st_approvals = [],
      st_posts = [], st_source_fetches = [], st_post_segments = [],
      st_findings = [], st_alerts = [], st_matters = [], st_attachments = [], st_subjects = [],
      st_actions = [], st_text_maps = [], st_page_citations = [], st_reviews = [],
      st_runs = [], st_source_reviews = [], st_observations = [], st_x_attempts = [],
      st_x_reconciliations = [], st_allowlists = [], st_proc_matters = [], st_proc_events = [],
      st_proc_identifiers = [], st_proc_organizations = [], st_coverage = [],
      st_snapshots = [], st_revisions = [], st_diffs = [], st_recon_items = [],
      st_recon_decisions = [], st_case_files = [], st_cora_drafts = [], st_proc_alerts = [],
      st_cora_requests = [], st_relationships = [],
      st_supplied_records = [], st_snapshot_rows = [], st_row_sets = []\<rparr>"

section \<open>INSERT OR IGNORE methods\<close>

text \<open>
  One definition per method: a row with a known primary key is ignored (the method returns false),
  a row whose foreign key names no row is an error, any other row is added.
\<close>

definition insert_finding :: "Finding \<Rightarrow> store \<Rightarrow> (bool \<times> store) core_result" where
  "insert_finding r s =
     (if fnd_id r \<notin> fnd_id ` set (st_findings s) \<and> fnd_evidence_id r \<notin> (evr_id \<circ> fst) ` set (st_evidence s) then Inl (Sqlite ForeignKeyViolation)
      else let (added, t) = insert_or_ignore fnd_id r (st_findings s) in Inr (added, s\<lparr>st_findings := t\<rparr>))"

definition insert_alert :: "Alert \<Rightarrow> store \<Rightarrow> (bool \<times> store) core_result" where
  "insert_alert r s =
     (if alt_id r \<notin> alt_id ` set (st_alerts s) \<and> alt_evidence_id r \<notin> (evr_id \<circ> fst) ` set (st_evidence s) then Inl (Sqlite ForeignKeyViolation)
      else let (added, t) = insert_or_ignore alt_id r (st_alerts s) in Inr (added, s\<lparr>st_alerts := t\<rparr>))"

definition insert_matter :: "Matter \<Rightarrow> store \<Rightarrow> (bool \<times> store) core_result" where
  "insert_matter r s =
     (let (added, t) = insert_or_ignore mat_id r (st_matters s) in Inr (added, s\<lparr>st_matters := t\<rparr>))"

definition insert_attachment :: "MatterAttachment \<Rightarrow> store \<Rightarrow> (bool \<times> store) core_result" where
  "insert_attachment r s =
     (if att_id r \<notin> att_id ` set (st_attachments s) \<and> att_matter_id r \<notin> mat_id ` set (st_matters s) then Inl (Sqlite ForeignKeyViolation)
      else let (added, t) = insert_or_ignore att_id r (st_attachments s) in Inr (added, s\<lparr>st_attachments := t\<rparr>))"

definition insert_subject :: "Subject \<Rightarrow> store \<Rightarrow> (bool \<times> store) core_result" where
  "insert_subject r s =
     (let (added, t) = insert_or_ignore sub_id r (st_subjects s) in Inr (added, s\<lparr>st_subjects := t\<rparr>))"

definition insert_action :: "Action \<Rightarrow> store \<Rightarrow> (bool \<times> store) core_result" where
  "insert_action r s =
     (let (added, t) = insert_or_ignore act_id r (st_actions s) in Inr (added, s\<lparr>st_actions := t\<rparr>))"

definition insert_text_map :: "TextMap \<Rightarrow> store \<Rightarrow> (bool \<times> store) core_result" where
  "insert_text_map r s =
     (if tm_id r \<notin> tm_id ` set (st_text_maps s) \<and> tm_evidence_id r \<notin> (evr_id \<circ> fst) ` set (st_evidence s) then Inl (Sqlite ForeignKeyViolation)
      else let (added, t) = insert_or_ignore tm_id r (st_text_maps s) in Inr (added, s\<lparr>st_text_maps := t\<rparr>))"

definition insert_page_citation :: "PageCitation \<Rightarrow> store \<Rightarrow> (bool \<times> store) core_result" where
  "insert_page_citation r s =
     (if pc_id r \<notin> pc_id ` set (st_page_citations s) \<and> pc_evidence_id r \<notin> (evr_id \<circ> fst) ` set (st_evidence s) then Inl (Sqlite ForeignKeyViolation)
      else let (added, t) = insert_or_ignore pc_id r (st_page_citations s) in Inr (added, s\<lparr>st_page_citations := t\<rparr>))"

definition insert_review :: "ReviewDecision \<Rightarrow> store \<Rightarrow> (bool \<times> store) core_result" where
  "insert_review r s =
     (let (added, t) = insert_or_ignore rev_id r (st_reviews s) in Inr (added, s\<lparr>st_reviews := t\<rparr>))"

definition insert_processing_run :: "ProcessingRun \<Rightarrow> store \<Rightarrow> (bool \<times> store) core_result" where
  "insert_processing_run r s =
     (let (added, t) = insert_or_ignore run_id r (st_runs s) in Inr (added, s\<lparr>st_runs := t\<rparr>))"

definition insert_source_review :: "SourceReview \<Rightarrow> store \<Rightarrow> (bool \<times> store) core_result" where
  "insert_source_review r s =
     (let (added, t) = insert_or_ignore srv_id r (st_source_reviews s) in Inr (added, s\<lparr>st_source_reviews := t\<rparr>))"

definition insert_fetch_observation :: "FetchObservation \<Rightarrow> store \<Rightarrow> (bool \<times> store) core_result" where
  "insert_fetch_observation r s =
     (let (added, t) = insert_or_ignore obs_id r (st_observations s) in Inr (added, s\<lparr>st_observations := t\<rparr>))"

definition insert_x_attempt :: "XAttempt \<Rightarrow> store \<Rightarrow> (bool \<times> store) core_result" where
  "insert_x_attempt r s =
     (if xa_id r \<notin> xa_id ` set (st_x_attempts s) \<and> xa_alert_id r \<notin> alt_id ` set (st_alerts s) then Inl (Sqlite ForeignKeyViolation)
      else let (added, t) = insert_or_ignore xa_id r (st_x_attempts s) in Inr (added, s\<lparr>st_x_attempts := t\<rparr>))"

definition insert_x_reconciliation :: "XReconciliation \<Rightarrow> store \<Rightarrow> (bool \<times> store) core_result" where
  "insert_x_reconciliation r s =
     (if xr_id r \<notin> xr_id ` set (st_x_reconciliations s) \<and> xr_attempt_id r \<notin> xa_id ` set (st_x_attempts s) then Inl (Sqlite ForeignKeyViolation)
      else let (added, t) = insert_or_ignore xr_id r (st_x_reconciliations s) in Inr (added, s\<lparr>st_x_reconciliations := t\<rparr>))"

definition insert_publication_allowlist :: "PublicationAllowlist \<Rightarrow> store \<Rightarrow> (bool \<times> store) core_result" where
  "insert_publication_allowlist r s =
     (let (added, t) = insert_or_ignore pal_id r (st_allowlists s) in Inr (added, s\<lparr>st_allowlists := t\<rparr>))"

definition insert_procurement_matter :: "ProcurementMatter \<Rightarrow> store \<Rightarrow> (bool \<times> store) core_result" where
  "insert_procurement_matter r s =
     (let (added, t) = insert_or_ignore pm_id r (st_proc_matters s) in Inr (added, s\<lparr>st_proc_matters := t\<rparr>))"

definition insert_procurement_event :: "ProcurementEvent \<Rightarrow> store \<Rightarrow> (bool \<times> store) core_result" where
  "insert_procurement_event r s =
     (let (added, t) = insert_or_ignore ev_id r (st_proc_events s) in Inr (added, s\<lparr>st_proc_events := t\<rparr>))"

definition insert_procurement_identifier :: "ProcurementIdentifier \<Rightarrow> store \<Rightarrow> (bool \<times> store) core_result" where
  "insert_procurement_identifier r s =
     (let (added, t) = insert_or_ignore pid_id r (st_proc_identifiers s) in Inr (added, s\<lparr>st_proc_identifiers := t\<rparr>))"

definition insert_procurement_organization :: "ProcurementOrganization \<Rightarrow> store \<Rightarrow> (bool \<times> store) core_result" where
  "insert_procurement_organization r s =
     (let (added, t) = insert_or_ignore org_id r (st_proc_organizations s) in Inr (added, s\<lparr>st_proc_organizations := t\<rparr>))"

definition insert_coverage_entry :: "CoverageEntry \<Rightarrow> store \<Rightarrow> (bool \<times> store) core_result" where
  "insert_coverage_entry r s =
     (let (added, t) = insert_or_ignore cov_id r (st_coverage s) in Inr (added, s\<lparr>st_coverage := t\<rparr>))"

definition insert_source_snapshot :: "SourceSnapshot \<Rightarrow> store \<Rightarrow> (bool \<times> store) core_result" where
  "insert_source_snapshot r s =
     (let (added, t) = insert_or_ignore snap_id r (st_snapshots s) in Inr (added, s\<lparr>st_snapshots := t\<rparr>))"

definition insert_snapshot_revision :: "SnapshotRevision \<Rightarrow> store \<Rightarrow> (bool \<times> store) core_result" where
  "insert_snapshot_revision r s =
     (let (added, t) = insert_or_ignore srev_id r (st_revisions s) in Inr (added, s\<lparr>st_revisions := t\<rparr>))"

definition insert_snapshot_diff :: "SnapshotDiff \<Rightarrow> store \<Rightarrow> (bool \<times> store) core_result" where
  "insert_snapshot_diff r s =
     (let (added, t) = insert_or_ignore sdiff_id r (st_diffs s) in Inr (added, s\<lparr>st_diffs := t\<rparr>))"

definition insert_reconciliation_item :: "ReconciliationItem \<Rightarrow> store \<Rightarrow> (bool \<times> store) core_result" where
  "insert_reconciliation_item r s =
     (let (added, t) = insert_or_ignore ri_id r (st_recon_items s) in Inr (added, s\<lparr>st_recon_items := t\<rparr>))"

definition insert_reconciliation_decision :: "ReconciliationDecision \<Rightarrow> store \<Rightarrow> (bool \<times> store) core_result" where
  "insert_reconciliation_decision r s =
     (let (added, t) = insert_or_ignore dec_id r (st_recon_decisions s) in Inr (added, s\<lparr>st_recon_decisions := t\<rparr>))"

definition insert_case_file :: "CaseFile \<Rightarrow> store \<Rightarrow> (bool \<times> store) core_result" where
  "insert_case_file r s =
     (let (added, t) = insert_or_ignore cf_id r (st_case_files s) in Inr (added, s\<lparr>st_case_files := t\<rparr>))"

definition insert_cora_draft :: "CoraDraft \<Rightarrow> store \<Rightarrow> (bool \<times> store) core_result" where
  "insert_cora_draft r s =
     (let (added, t) = insert_or_ignore cd_id r (st_cora_drafts s) in Inr (added, s\<lparr>st_cora_drafts := t\<rparr>))"

definition insert_procurement_alert :: "ProcurementAlert \<Rightarrow> store \<Rightarrow> (bool \<times> store) core_result" where
  "insert_procurement_alert r s =
     (let (added, t) = insert_or_ignore pa_id r (st_proc_alerts s) in Inr (added, s\<lparr>st_proc_alerts := t\<rparr>))"

definition insert_cora_request :: "CoraRequest \<Rightarrow> store \<Rightarrow> (bool \<times> store) core_result" where
  "insert_cora_request r s =
     (let (added, t) = insert_or_ignore cr_id r (st_cora_requests s) in Inr (added, s\<lparr>st_cora_requests := t\<rparr>))"

definition insert_official_relationship :: "OfficialRelationship \<Rightarrow> store \<Rightarrow> (bool \<times> store) core_result" where
  "insert_official_relationship r s =
     (let (added, t) = insert_or_ignore rel_id r (st_relationships s) in Inr (added, s\<lparr>st_relationships := t\<rparr>))"

definition insert_supplied_record_json :: "str \<Rightarrow> str \<Rightarrow> str \<Rightarrow> store \<Rightarrow> (bool \<times> store) core_result" where
  "insert_supplied_record_json sid digest body s =
     (let (added, t) = insert_or_ignore sup_id
        \<lparr>sup_id = sid, sup_observed_digest = digest, sup_record_json = body\<rparr> (st_supplied_records s)
      in Inr (added, s\<lparr>st_supplied_records := t\<rparr>))"

lemmas plain_insert_defs =
  insert_matter_def
  insert_subject_def
  insert_action_def
  insert_review_def
  insert_processing_run_def
  insert_source_review_def
  insert_fetch_observation_def
  insert_publication_allowlist_def
  insert_procurement_matter_def
  insert_procurement_event_def
  insert_procurement_identifier_def
  insert_procurement_organization_def
  insert_coverage_entry_def
  insert_source_snapshot_def
  insert_snapshot_revision_def
  insert_snapshot_diff_def
  insert_reconciliation_item_def
  insert_reconciliation_decision_def
  insert_case_file_def
  insert_cora_draft_def
  insert_procurement_alert_def
  insert_cora_request_def
  insert_official_relationship_def

lemmas fk_insert_defs =
  insert_finding_def
  insert_alert_def
  insert_attachment_def
  insert_text_map_def
  insert_page_citation_def
  insert_x_attempt_def
  insert_x_reconciliation_def
section \<open>Evidence\<close>

text \<open>\<open>Store::content_path\<close>: the name under which the bytes of a digest are kept.\<close>

definition content_path :: "str \<Rightarrow> str core_result" where
  "content_path digest = (if is_hex64 digest then Inr digest else Inl (InvalidDigest digest))"

text \<open>\<open>Store::record_path\<close>: only a well-formed evidence identifier names a record file.\<close>

definition strip_prefix :: "str \<Rightarrow> str \<Rightarrow> str option" where
  "strip_prefix p s = (if starts_with s p then Some (drop (length p) s) else None)"

definition record_path :: "str \<Rightarrow> str core_result" where
  "record_path eid =
     (if \<not> starts_with eid (lit ''evidence:'') \<or>
         \<not> (case strip_prefix (lit ''evidence:'') eid of None \<Rightarrow> False | Some digest \<Rightarrow> is_hex64 digest)
      then Inl (NotFound eid) else Inr eid)"

definition insert_evidence :: "EvidenceRecord \<Rightarrow> str \<Rightarrow> store \<Rightarrow> (bool \<times> store) core_result" where
  "insert_evidence record extracted_text s =
     (if evr_id record \<in> (evr_id \<circ> fst) ` set (st_evidence s) then Inr (False, s)
      else
        case record_path (evr_id record) of
          Inl e \<Rightarrow> Inl e
        | Inr path \<Rightarrow>
            Inr (True, s\<lparr>st_record_files := (st_record_files s)(path \<mapsto> record),
                          st_evidence := st_evidence s @ [(record, extracted_text)]\<rparr>))"

definition evidence :: "str \<Rightarrow> store \<Rightarrow> (EvidenceRecord \<times> str) core_result" where
  "evidence eid s =
     (case select_by (evr_id \<circ> fst) eid (st_evidence s) of
        None \<Rightarrow> Inl (NotFound eid) | Some row \<Rightarrow> Inr row)"

definition update_evidence_annotations :: "EvidenceRecord \<Rightarrow> str \<Rightarrow> store \<Rightarrow> store core_result" where
  "update_evidence_annotations record extracted_text s =
     (case evidence (evr_id record) s of
        Inl e \<Rightarrow> Inl e
      | Inr _ \<Rightarrow>
          (case record_path (evr_id record) of
             Inl e \<Rightarrow> Inl e
           | Inr path \<Rightarrow>
               Inr (s\<lparr>st_record_files := (st_record_files s)(path \<mapsto> record),
                      st_evidence := update_by (evr_id \<circ> fst) (record, extracted_text) (st_evidence s)\<rparr>)))"

definition all_evidence :: "store \<Rightarrow> (EvidenceRecord \<times> str) list" where
  "all_evidence s = sort_key (evr_id \<circ> fst) (st_evidence s)"

text \<open>\<open>Store::verify\<close>: recompute the digest of the preserved bytes of an evidence record.\<close>

definition verify :: "hash \<Rightarrow> str \<Rightarrow> store \<Rightarrow> unit core_result" where
  "verify sha eid s =
     (case evidence eid s of
        Inl e \<Rightarrow> Inl e
      | Inr (record, _) \<Rightarrow>
          (case content_path (evr_sha256 record) of
             Inl e \<Rightarrow> Inl e
           | Inr path \<Rightarrow>
               (case st_content s path of
                  None \<Rightarrow> Inl Io
                | Some bytes \<Rightarrow>
                    let observed = sha256_hex sha bytes in
                    if observed = evr_sha256 record then Inr ()
                    else Inl (DigestMismatch eid (evr_sha256 record) observed))))"

section \<open>Alerts, approvals and fetch times\<close>

definition alert :: "str \<Rightarrow> store \<Rightarrow> Alert core_result" where
  "alert aid s =
     (case select_by alt_id aid (st_alerts s) of None \<Rightarrow> Inl (NotFound aid) | Some a \<Rightarrow> Inr a)"

text \<open>\<open>ORDER BY publication_date DESC, id\<close>.\<close>

definition alerts :: "store \<Rightarrow> Alert list" where
  "alerts s = rev (sort_key alt_publication_date (rev (sort_key alt_id (st_alerts s))))"

definition findings :: "store \<Rightarrow> Finding list" where
  "findings s = sort_key fnd_id (st_findings s)"

definition approve :: "str \<Rightarrow> str \<Rightarrow> str \<Rightarrow> store \<Rightarrow> (bool \<times> store) core_result" where
  "approve alert_id draft_digest approved_at s =
     (case alert alert_id s of
        Inl e \<Rightarrow> Inl e
      | Inr _ \<Rightarrow>
          (let (added, t) = insert_or_ignore app_alert_id
                 \<lparr>app_alert_id = alert_id, app_draft_digest = draft_digest, app_approved_at = approved_at\<rparr>
                 (st_approvals s)
           in Inr (added, s\<lparr>st_approvals := t\<rparr>)))"

definition approved_draft_digest :: "str \<Rightarrow> store \<Rightarrow> str option" where
  "approved_draft_digest alert_id s =
     map_option app_draft_digest (select_by app_alert_id alert_id (st_approvals s))"

text \<open>\<open>i64::saturating_sub\<close>, and \<open>i64::try_from\<close> of a \<open>u64\<close> with \<open>i64::MAX\<close> as the fallback.\<close>

definition i64_saturating_sub :: "int \<Rightarrow> int \<Rightarrow> int" where
  "i64_saturating_sub a b = max (- (2 ^ 63)) (min i64_max (a - b))"

definition i64_of_u64 :: "64 word \<Rightarrow> int" where
  "i64_of_u64 w = min i64_max (uint w)"

definition u64_of_i64 :: "int \<Rightarrow> 64 word" where
  "u64_of_i64 i = (if 0 \<le> i then word_of_int i else - 1)"

definition source_fetch_allowed :: "str \<Rightarrow> 64 word \<Rightarrow> int \<Rightarrow> store \<Rightarrow> bool" where
  "source_fetch_allowed source_id minimum_interval_seconds now_unix s =
     (case select_by fst source_id (st_source_fetches s) of
        None \<Rightarrow> True
      | Some (_, lst) \<Rightarrow> i64_of_u64 minimum_interval_seconds \<le> i64_saturating_sub now_unix lst)"

text \<open>\<open>INSERT ... ON CONFLICT DO UPDATE\<close>.\<close>

definition record_source_fetch :: "str \<Rightarrow> int \<Rightarrow> store \<Rightarrow> store" where
  "record_source_fetch source_id now_unix s =
     s\<lparr>st_source_fetches :=
         (if source_id \<in> fst ` set (st_source_fetches s)
          then update_by fst (source_id, now_unix) (st_source_fetches s)
          else st_source_fetches s @ [(source_id, now_unix)])\<rparr>"

section \<open>Posts and their segments\<close>

definition is_posted :: "str \<Rightarrow> store \<Rightarrow> bool" where
  "is_posted alert_id s \<longleftrightarrow> alert_id \<in> post_alert_id ` set (st_posts s)"

definition in_progress :: str where
  "in_progress = lit ''IN_PROGRESS''"

definition reserve_post :: "str \<Rightarrow> store \<Rightarrow> (bool \<times> store) core_result" where
  "reserve_post alert_id s =
     (if is_posted alert_id s then Inr (False, s)
      else if alert_id \<notin> alt_id ` set (st_alerts s) then Inl (Sqlite ForeignKeyViolation)
      else Inr (True, s\<lparr>st_posts := st_posts s @
        [\<lparr>post_alert_id = alert_id, post_remote_ids = [], post_posted_at = in_progress\<rparr>]\<rparr>))"

text \<open>A plain \<open>INSERT\<close>: a second segment with the same index is an error.\<close>

definition record_post_segment :: "str \<Rightarrow> nat \<Rightarrow> str \<Rightarrow> store \<Rightarrow> store core_result" where
  "record_post_segment alert_id segment_index remote_id s =
     (if (alert_id, segment_index) \<in> (\<lambda>g. (pseg_alert_id g, pseg_index g)) ` set (st_post_segments s)
      then Inl (Sqlite PrimaryKeyViolation)
      else if \<not> is_posted alert_id s then Inl (Sqlite ForeignKeyViolation)
      else Inr (s\<lparr>st_post_segments := st_post_segments s @
        [\<lparr>pseg_alert_id = alert_id, pseg_index = segment_index, pseg_remote_id = remote_id\<rparr>]\<rparr>))"

definition post_segments :: "str \<Rightarrow> store \<Rightarrow> str list" where
  "post_segments alert_id s =
     map pseg_remote_id (select_where (\<lambda>g. pseg_alert_id g = alert_id) pseg_index (st_post_segments s))"

definition mark_posted :: "str \<Rightarrow> str list \<Rightarrow> str \<Rightarrow> store \<Rightarrow> store" where
  "mark_posted alert_id remote_ids posted_at s =
     s\<lparr>st_posts := update_by post_alert_id
         \<lparr>post_alert_id = alert_id, post_remote_ids = remote_ids, post_posted_at = posted_at\<rparr>
         (st_posts s)\<rparr>"

text \<open>\<open>persist_attempt\<close> and \<open>clear_in_progress_reservation\<close> of \<open>pnull-x/src/lib.rs\<close>.\<close>

definition persist_attempt :: "XAttempt \<Rightarrow> store \<Rightarrow> store" where
  "persist_attempt attempt s = s\<lparr>st_x_attempts := update_by xa_id attempt (st_x_attempts s)\<rparr>"

definition clear_in_progress_reservation :: "str \<Rightarrow> store \<Rightarrow> store" where
  "clear_in_progress_reservation alert_id s =
     s\<lparr>st_post_segments := filter (\<lambda>g. pseg_alert_id g \<noteq> alert_id) (st_post_segments s),
       st_posts := filter (\<lambda>p. \<not> (post_alert_id p = alert_id \<and> post_posted_at p = in_progress))
         (st_posts s)\<rparr>"

section \<open>Reading methods\<close>

definition read_row :: "('r \<Rightarrow> str) \<Rightarrow> str \<Rightarrow> 'r list \<Rightarrow> 'r core_result" where
  "read_row key k t =
     (case select_by key k t of None \<Rightarrow> Inl (NotFound (lit ''record'')) | Some r \<Rightarrow> Inr r)"

definition matter :: "str \<Rightarrow> store \<Rightarrow> Matter core_result" where
  "matter k s = read_row mat_id k (st_matters s)"

definition matters :: "store \<Rightarrow> Matter list" where
  "matters s = sort_key mat_official_matter_id (st_matters s)"

definition attachments :: "str \<Rightarrow> store \<Rightarrow> MatterAttachment list" where
  "attachments m s = select_where (\<lambda>r. att_matter_id r = m) att_name (st_attachments s)"

definition subjects :: "str \<Rightarrow> store \<Rightarrow> Subject list" where
  "subjects m s =
     select_where (\<lambda>r. sub_matter_id r = m) (\<lambda>r. (subject_kind_json (sub_kind r), sub_name r)) (st_subjects s)"

definition actions :: "str \<Rightarrow> store \<Rightarrow> Action list" where
  "actions m s = select_where (\<lambda>r. act_matter_id r = m) act_id (st_actions s)"

definition text_maps :: "str \<Rightarrow> store \<Rightarrow> TextMap list" where
  "text_maps e s = select_where (\<lambda>r. tm_evidence_id r = e) (\<lambda>r. unat (tm_page_number r)) (st_text_maps s)"

definition text_map :: "str \<Rightarrow> store \<Rightarrow> TextMap core_result" where
  "text_map k s = read_row tm_id k (st_text_maps s)"

definition page_citations :: "str \<Rightarrow> store \<Rightarrow> PageCitation list" where
  "page_citations e s =
     select_where (\<lambda>r. pc_evidence_id r = e) (\<lambda>r. (unat (pc_page_number r), pc_id r)) (st_page_citations s)"

definition page_citation :: "str \<Rightarrow> store \<Rightarrow> PageCitation core_result" where
  "page_citation k s = read_row pc_id k (st_page_citations s)"

definition reviews_for_citation :: "str \<Rightarrow> store \<Rightarrow> ReviewDecision list" where
  "reviews_for_citation c s = select_where (\<lambda>r. rev_citation_id r = c) rev_id (st_reviews s)"

definition all_reviews :: "store \<Rightarrow> ReviewDecision list" where
  "all_reviews s = sort_key rev_id (st_reviews s)"

text \<open>The last review in the order of the identifiers, which are hashes.\<close>

definition current_review :: "str \<Rightarrow> store \<Rightarrow> ReviewDecision option" where
  "current_review c s = last_option (reviews_for_citation c s)"

definition processing_runs :: "store \<Rightarrow> ProcessingRun list" where
  "processing_runs s = sort_key run_started_at (st_runs s)"

definition source_reviews :: "str \<Rightarrow> store \<Rightarrow> SourceReview list" where
  "source_reviews src s = select_where (\<lambda>r. srv_source_id r = src) srv_reviewed_at (st_source_reviews s)"

definition current_source_review :: "str \<Rightarrow> store \<Rightarrow> SourceReview option" where
  "current_source_review src s = last_option (source_reviews src s)"

definition fetch_observations :: "str \<Rightarrow> store \<Rightarrow> FetchObservation list" where
  "fetch_observations src s =
     select_where (\<lambda>r. obs_source_id r = Some src) obs_retrieved_at (st_observations s)"

definition x_attempt :: "str \<Rightarrow> store \<Rightarrow> XAttempt core_result" where
  "x_attempt k s = read_row xa_id k (st_x_attempts s)"

definition x_attempts :: "store \<Rightarrow> XAttempt list" where
  "x_attempts s = sort_key xa_started_at (st_x_attempts s)"

definition x_attempts_for_alert :: "str \<Rightarrow> store \<Rightarrow> XAttempt list" where
  "x_attempts_for_alert a s = select_where (\<lambda>r. xa_alert_id r = a) xa_started_at (st_x_attempts s)"

definition x_reconciliations :: "str \<Rightarrow> store \<Rightarrow> XReconciliation list" where
  "x_reconciliations a s = select_where (\<lambda>r. xr_attempt_id r = a) xr_decided_at (st_x_reconciliations s)"

definition publication_allowlists :: "store \<Rightarrow> PublicationAllowlist list" where
  "publication_allowlists s = sort_key pal_id (st_allowlists s)"

definition procurement_matter :: "str \<Rightarrow> store \<Rightarrow> ProcurementMatter core_result" where
  "procurement_matter k s = read_row pm_id k (st_proc_matters s)"

definition procurement_matters :: "store \<Rightarrow> ProcurementMatter list" where
  "procurement_matters s = sort_key pm_id (st_proc_matters s)"

definition procurement_events :: "str \<Rightarrow> store \<Rightarrow> ProcurementEvent list" where
  "procurement_events m s = select_where (\<lambda>r. ev_matter_id r = m) (\<lambda>r. (ev_date r, ev_id r)) (st_proc_events s)"

definition procurement_identifiers :: "str \<Rightarrow> store \<Rightarrow> ProcurementIdentifier list" where
  "procurement_identifiers m s =
     select_where (\<lambda>r. pid_matter_id r = m) (\<lambda>r. (identifier_kind_json (pid_kind r), pid_id r))
       (st_proc_identifiers s)"

definition procurement_organizations :: "str \<Rightarrow> store \<Rightarrow> ProcurementOrganization list" where
  "procurement_organizations m s =
     select_where (\<lambda>r. org_matter_id r = m) (\<lambda>r. (role_json (org_role r), org_id r))
       (st_proc_organizations s)"

definition coverage_entries :: "str \<Rightarrow> store \<Rightarrow> CoverageEntry list" where
  "coverage_entries src s = select_where (\<lambda>r. cov_source_id r = src) cov_retrieved_at (st_coverage s)"

definition all_coverage_entries :: "store \<Rightarrow> CoverageEntry list" where
  "all_coverage_entries s = sort_key (\<lambda>r. (cov_retrieved_at r, cov_source_id r)) (st_coverage s)"

definition source_snapshot :: "str \<Rightarrow> store \<Rightarrow> SourceSnapshot core_result" where
  "source_snapshot k s = read_row snap_id k (st_snapshots s)"

definition source_snapshots :: "str \<Rightarrow> store \<Rightarrow> SourceSnapshot list" where
  "source_snapshots src s = select_where (\<lambda>r. snap_source_id r = src) snap_retrieved_at (st_snapshots s)"

definition snapshot_revisions :: "str \<Rightarrow> store \<Rightarrow> SnapshotRevision list" where
  "snapshot_revisions k s = select_where (\<lambda>r. srev_snapshot_id r = k) srev_recorded_at (st_revisions s)"

definition snapshot_diff :: "str \<Rightarrow> str \<Rightarrow> store \<Rightarrow> SnapshotDiff option" where
  "snapshot_diff old_id new_id s =
     find (\<lambda>r. sdiff_old_snapshot_id r = old_id \<and> sdiff_new_snapshot_id r = new_id) (st_diffs s)"

definition reconciliation_items :: "str \<Rightarrow> store \<Rightarrow> ReconciliationItem list" where
  "reconciliation_items m s =
     select_where (\<lambda>r. ri_matter_id r = m) (\<lambda>r. (ri_created_at r, ri_id r)) (st_recon_items s)"

definition all_reconciliation_items :: "store \<Rightarrow> ReconciliationItem list" where
  "all_reconciliation_items s = sort_key (\<lambda>r. (ri_created_at r, ri_matter_id r)) (st_recon_items s)"

definition reconciliation_decisions :: "str \<Rightarrow> store \<Rightarrow> ReconciliationDecision list" where
  "reconciliation_decisions i s = select_where (\<lambda>r. dec_item_id r = i) dec_decided_at (st_recon_decisions s)"

definition current_reconciliation_decision :: "str \<Rightarrow> store \<Rightarrow> ReconciliationDecision option" where
  "current_reconciliation_decision i s = last_option (reconciliation_decisions i s)"

definition case_files :: "str \<Rightarrow> store \<Rightarrow> CaseFile list" where
  "case_files m s = select_where (\<lambda>r. cf_matter_id r = m) cf_built_at (st_case_files s)"

definition cora_drafts :: "str \<Rightarrow> store \<Rightarrow> CoraDraft list" where
  "cora_drafts m s = select_where (\<lambda>r. cd_matter_id r = m) cd_created_at (st_cora_drafts s)"

definition procurement_alerts :: "str \<Rightarrow> store \<Rightarrow> ProcurementAlert list" where
  "procurement_alerts src s =
     select_where (\<lambda>r. pa_source_id r = src) (\<lambda>r. (pa_retrieved_at r, pa_id r)) (st_proc_alerts s)"

definition all_procurement_alerts :: "store \<Rightarrow> ProcurementAlert list" where
  "all_procurement_alerts s = sort_key (\<lambda>r. (pa_retrieved_at r, pa_source_id r, pa_id r)) (st_proc_alerts s)"

definition cora_requests :: "str \<Rightarrow> store \<Rightarrow> CoraRequest list" where
  "cora_requests m s = select_where (\<lambda>r. cr_matter_id r = m) (\<lambda>r. (cr_created_at r, cr_id r)) (st_cora_requests s)"

definition cora_request :: "str \<Rightarrow> store \<Rightarrow> CoraRequest core_result" where
  "cora_request k s = read_row cr_id k (st_cora_requests s)"

definition all_cora_requests :: "store \<Rightarrow> CoraRequest list" where
  "all_cora_requests s = sort_key (\<lambda>r. (cr_created_at r, cr_matter_id r, cr_id r)) (st_cora_requests s)"

definition update_cora_request :: "CoraRequest \<Rightarrow> store \<Rightarrow> store" where
  "update_cora_request request s = s\<lparr>st_cora_requests := update_by cr_id request (st_cora_requests s)\<rparr>"

definition all_official_relationships :: "store \<Rightarrow> OfficialRelationship list" where
  "all_official_relationships s = sort_key (\<lambda>r. (rel_source_snapshot_id r, rel_id r)) (st_relationships s)"

definition supplied_record_json :: "str \<Rightarrow> store \<Rightarrow> str option" where
  "supplied_record_json k s = map_option sup_record_json (select_by sup_id k (st_supplied_records s))"

definition supplied_record_digest :: "str \<Rightarrow> store \<Rightarrow> str option" where
  "supplied_record_digest k s = map_option sup_observed_digest (select_by sup_id k (st_supplied_records s))"

section \<open>Row sets of snapshots\<close>

text \<open>
  \<open>snapshot_row_set\<close> reads the completion metadata back through \<open>i64\<close> columns, so an expected count
  above \<open>i64::MAX\<close> comes back as \<open>i64::MAX\<close>.
\<close>

definition snapshot_row_set :: "str \<Rightarrow> store \<Rightarrow> SnapshotRowSet option" where
  "snapshot_row_set k s = select_by rset_snapshot_id k (st_row_sets s)"

definition stored_row_set :: "SnapshotRowSet \<Rightarrow> SnapshotRowSet" where
  "stored_row_set meta = meta\<lparr>rset_expected_count := u64_of_i64 (i64_of_u64 (rset_expected_count meta))\<rparr>"

definition snapshot_rows_raw :: "str \<Rightarrow> store \<Rightarrow> SnapshotRow list" where
  "snapshot_rows_raw k s =
     map srow_row (select_where (\<lambda>r. srow_snapshot_id r = k) srow_seq (st_snapshot_rows s))"

text \<open>The insert loop over the rows, each a plain \<open>INSERT\<close> with the constraints of the table.\<close>

fun insert_row_loop :: "str \<Rightarrow> nat \<Rightarrow> SnapshotRow list \<Rightarrow> store \<Rightarrow> store core_result" where
  "insert_row_loop k i [] s = Inr s"
| "insert_row_loop k i (r # rs) s =
     (if (k, i) \<in> (\<lambda>q. (srow_snapshot_id q, srow_seq q)) ` set (st_snapshot_rows s)
      then Inl (Sqlite PrimaryKeyViolation)
      else if k \<notin> snap_id ` set (st_snapshots s) then Inl (Sqlite ForeignKeyViolation)
      else insert_row_loop k (Suc i) rs
        (s\<lparr>st_snapshot_rows := st_snapshot_rows s @
             [\<lparr>srow_snapshot_id = k, srow_seq = i, srow_row = r\<rparr>]\<rparr>))"

text \<open>The whole method runs in one transaction: an error leaves the state as it was.\<close>

definition insert_snapshot_row_set_with_rows ::
  "hash \<Rightarrow> SnapshotRowSet \<Rightarrow> SnapshotRow list \<Rightarrow> store \<Rightarrow> store core_result" where
  "insert_snapshot_row_set_with_rows sha meta rows s =
     (let k = rset_snapshot_id meta;
          existing_meta = snapshot_row_set k s;
          existing_rows = snapshot_rows_raw k s in
      if existing_meta \<noteq> None \<or> existing_rows \<noteq> [] then
        let identical_rows = row_set_digest sha existing_rows = rset_digest meta;
            identical_meta =
              (case existing_meta of None \<Rightarrow> False
               | Some m \<Rightarrow> rset_expected_count m = rset_expected_count meta \<and>
                   rset_digest m = rset_digest meta \<and>
                   rset_parser_version m = rset_parser_version meta \<and>
                   rset_schema_version m = rset_schema_version meta) in
        if identical_rows \<and> identical_meta then Inr s else Inl (SnapshotRowSetConflict k)
      else
        case insert_row_loop k 0 rows s of
          Inl e \<Rightarrow> Inl e
        | Inr s' \<Rightarrow>
            if k \<notin> snap_id ` set (st_snapshots s') then Inl (Sqlite ForeignKeyViolation)
            else Inr (s'\<lparr>st_row_sets := st_row_sets s' @ [stored_row_set meta]\<rparr>))"

section \<open>The tables as keyed tables\<close>

text \<open>Every such table of the store satisfies the interface of \<open>keyed_table\<close>.\<close>

interpretation findings_table: keyed_table fnd_id st_findings insert_finding
  by (rule keyed_table.intro) (simp_all add: insert_finding_def insert_or_ignore_def split: if_splits)

interpretation alerts_table: keyed_table alt_id st_alerts insert_alert
  by (rule keyed_table.intro) (simp_all add: insert_alert_def insert_or_ignore_def split: if_splits)

interpretation matters_table: keyed_table mat_id st_matters insert_matter
  by (rule keyed_table.intro) (simp_all add: insert_matter_def insert_or_ignore_def split: if_splits)

interpretation attachments_table: keyed_table att_id st_attachments insert_attachment
  by (rule keyed_table.intro) (simp_all add: insert_attachment_def insert_or_ignore_def split: if_splits)

interpretation subjects_table: keyed_table sub_id st_subjects insert_subject
  by (rule keyed_table.intro) (simp_all add: insert_subject_def insert_or_ignore_def split: if_splits)

interpretation actions_table: keyed_table act_id st_actions insert_action
  by (rule keyed_table.intro) (simp_all add: insert_action_def insert_or_ignore_def split: if_splits)

interpretation text_maps_table: keyed_table tm_id st_text_maps insert_text_map
  by (rule keyed_table.intro) (simp_all add: insert_text_map_def insert_or_ignore_def split: if_splits)

interpretation page_citations_table: keyed_table pc_id st_page_citations insert_page_citation
  by (rule keyed_table.intro) (simp_all add: insert_page_citation_def insert_or_ignore_def split: if_splits)

interpretation reviews_table: keyed_table rev_id st_reviews insert_review
  by (rule keyed_table.intro) (simp_all add: insert_review_def insert_or_ignore_def split: if_splits)

interpretation runs_table: keyed_table run_id st_runs insert_processing_run
  by (rule keyed_table.intro) (simp_all add: insert_processing_run_def insert_or_ignore_def split: if_splits)

interpretation source_reviews_table: keyed_table srv_id st_source_reviews insert_source_review
  by (rule keyed_table.intro) (simp_all add: insert_source_review_def insert_or_ignore_def split: if_splits)

interpretation observations_table: keyed_table obs_id st_observations insert_fetch_observation
  by (rule keyed_table.intro) (simp_all add: insert_fetch_observation_def insert_or_ignore_def split: if_splits)

interpretation x_attempts_table: keyed_table xa_id st_x_attempts insert_x_attempt
  by (rule keyed_table.intro) (simp_all add: insert_x_attempt_def insert_or_ignore_def split: if_splits)

interpretation x_reconciliations_table: keyed_table xr_id st_x_reconciliations insert_x_reconciliation
  by (rule keyed_table.intro) (simp_all add: insert_x_reconciliation_def insert_or_ignore_def split: if_splits)

interpretation allowlists_table: keyed_table pal_id st_allowlists insert_publication_allowlist
  by (rule keyed_table.intro) (simp_all add: insert_publication_allowlist_def insert_or_ignore_def split: if_splits)

interpretation proc_matters_table: keyed_table pm_id st_proc_matters insert_procurement_matter
  by (rule keyed_table.intro) (simp_all add: insert_procurement_matter_def insert_or_ignore_def split: if_splits)

interpretation proc_events_table: keyed_table ev_id st_proc_events insert_procurement_event
  by (rule keyed_table.intro) (simp_all add: insert_procurement_event_def insert_or_ignore_def split: if_splits)

interpretation proc_identifiers_table: keyed_table pid_id st_proc_identifiers insert_procurement_identifier
  by (rule keyed_table.intro) (simp_all add: insert_procurement_identifier_def insert_or_ignore_def split: if_splits)

interpretation proc_organizations_table: keyed_table org_id st_proc_organizations insert_procurement_organization
  by (rule keyed_table.intro) (simp_all add: insert_procurement_organization_def insert_or_ignore_def split: if_splits)

interpretation coverage_table: keyed_table cov_id st_coverage insert_coverage_entry
  by (rule keyed_table.intro) (simp_all add: insert_coverage_entry_def insert_or_ignore_def split: if_splits)

interpretation snapshots_table: keyed_table snap_id st_snapshots insert_source_snapshot
  by (rule keyed_table.intro) (simp_all add: insert_source_snapshot_def insert_or_ignore_def split: if_splits)

interpretation revisions_table: keyed_table srev_id st_revisions insert_snapshot_revision
  by (rule keyed_table.intro) (simp_all add: insert_snapshot_revision_def insert_or_ignore_def split: if_splits)

interpretation diffs_table: keyed_table sdiff_id st_diffs insert_snapshot_diff
  by (rule keyed_table.intro) (simp_all add: insert_snapshot_diff_def insert_or_ignore_def split: if_splits)

interpretation recon_items_table: keyed_table ri_id st_recon_items insert_reconciliation_item
  by (rule keyed_table.intro) (simp_all add: insert_reconciliation_item_def insert_or_ignore_def split: if_splits)

interpretation recon_decisions_table: keyed_table dec_id st_recon_decisions insert_reconciliation_decision
  by (rule keyed_table.intro) (simp_all add: insert_reconciliation_decision_def insert_or_ignore_def split: if_splits)

interpretation case_files_table: keyed_table cf_id st_case_files insert_case_file
  by (rule keyed_table.intro) (simp_all add: insert_case_file_def insert_or_ignore_def split: if_splits)

interpretation cora_drafts_table: keyed_table cd_id st_cora_drafts insert_cora_draft
  by (rule keyed_table.intro) (simp_all add: insert_cora_draft_def insert_or_ignore_def split: if_splits)

interpretation proc_alerts_table: keyed_table pa_id st_proc_alerts insert_procurement_alert
  by (rule keyed_table.intro) (simp_all add: insert_procurement_alert_def insert_or_ignore_def split: if_splits)

interpretation cora_requests_table: keyed_table cr_id st_cora_requests insert_cora_request
  by (rule keyed_table.intro) (simp_all add: insert_cora_request_def insert_or_ignore_def split: if_splits)

interpretation relationships_table: keyed_table rel_id st_relationships insert_official_relationship
  by (rule keyed_table.intro) (simp_all add: insert_official_relationship_def insert_or_ignore_def split: if_splits)
end
