(* ===== verification/StoreSteps.thy ===== *)
theory StoreSteps
  imports Store
begin

text \<open>
  What every operation of the store preserves: the step relation has one rule per writing method of
  \<open>Store\<close> (and the two statements \<open>pnull-x\<close> runs through \<open>Store::transaction\<close>), an invariant states
  the primary and foreign keys of the schema, and \<open>history\<close> relates a state to a later one whose
  append-only tables extend the earlier ones.
\<close>

section \<open>Steps\<close>

text \<open>
  An attempt is rewritten with the alert it was recorded for: the code changes only the status and
  the segments of an attempt it has inserted or loaded.
\<close>

definition same_alert :: "XAttempt \<Rightarrow> store \<Rightarrow> bool" where
  "same_alert x s \<longleftrightarrow>
     list_all (\<lambda>q. xa_id q = xa_id x \<longrightarrow> xa_alert_id q = xa_alert_id x) (st_x_attempts s)"

inductive store_step :: "store \<Rightarrow> store \<Rightarrow> bool" where
   step_evidence: "insert_evidence r txt s = Inr (b, s') \<Longrightarrow> store_step s s'"
| step_annotate: "update_evidence_annotations r txt s = Inr s' \<Longrightarrow> store_step s s'"
| step_approve: "approve a d at s = Inr (b, s') \<Longrightarrow> store_step s s'"
| step_fetched: "s' = record_source_fetch src now s \<Longrightarrow> store_step s s'"
| step_reserve: "reserve_post a s = Inr (b, s') \<Longrightarrow> store_step s s'"
| step_segment: "record_post_segment a i rid s = Inr s' \<Longrightarrow> store_step s s'"
| step_posted: "s' = mark_posted a rids at s \<Longrightarrow> store_step s s'"
| step_attempt_update: "s' = persist_attempt x s \<Longrightarrow> same_alert x s \<Longrightarrow> store_step s s'"
| step_clear: "s' = clear_in_progress_reservation a s \<Longrightarrow> store_step s s'"
| step_row_set: "insert_snapshot_row_set_with_rows sha meta rows s = Inr s' \<Longrightarrow> store_step s s'"
| step_cora_update: "s' = update_cora_request q s \<Longrightarrow> store_step s s'"
| step_supplied: "insert_supplied_record_json i d body s = Inr (b, s') \<Longrightarrow> store_step s s'"
| step_findings: "insert_finding r s = Inr (b, s') \<Longrightarrow> store_step s s'"
| step_alerts: "insert_alert r s = Inr (b, s') \<Longrightarrow> store_step s s'"
| step_matters: "insert_matter r s = Inr (b, s') \<Longrightarrow> store_step s s'"
| step_attachments: "insert_attachment r s = Inr (b, s') \<Longrightarrow> store_step s s'"
| step_subjects: "insert_subject r s = Inr (b, s') \<Longrightarrow> store_step s s'"
| step_actions: "insert_action r s = Inr (b, s') \<Longrightarrow> store_step s s'"
| step_text_maps: "insert_text_map r s = Inr (b, s') \<Longrightarrow> store_step s s'"
| step_page_citations: "insert_page_citation r s = Inr (b, s') \<Longrightarrow> store_step s s'"
| step_reviews: "insert_review r s = Inr (b, s') \<Longrightarrow> store_step s s'"
| step_runs: "insert_processing_run r s = Inr (b, s') \<Longrightarrow> store_step s s'"
| step_source_reviews: "insert_source_review r s = Inr (b, s') \<Longrightarrow> store_step s s'"
| step_observations: "insert_fetch_observation r s = Inr (b, s') \<Longrightarrow> store_step s s'"
| step_x_attempts: "insert_x_attempt r s = Inr (b, s') \<Longrightarrow> store_step s s'"
| step_x_reconciliations: "insert_x_reconciliation r s = Inr (b, s') \<Longrightarrow> store_step s s'"
| step_allowlists: "insert_publication_allowlist r s = Inr (b, s') \<Longrightarrow> store_step s s'"
| step_proc_matters: "insert_procurement_matter r s = Inr (b, s') \<Longrightarrow> store_step s s'"
| step_proc_events: "insert_procurement_event r s = Inr (b, s') \<Longrightarrow> store_step s s'"
| step_proc_identifiers: "insert_procurement_identifier r s = Inr (b, s') \<Longrightarrow> store_step s s'"
| step_proc_organizations: "insert_procurement_organization r s = Inr (b, s') \<Longrightarrow> store_step s s'"
| step_coverage: "insert_coverage_entry r s = Inr (b, s') \<Longrightarrow> store_step s s'"
| step_snapshots: "insert_source_snapshot r s = Inr (b, s') \<Longrightarrow> store_step s s'"
| step_revisions: "insert_snapshot_revision r s = Inr (b, s') \<Longrightarrow> store_step s s'"
| step_diffs: "insert_snapshot_diff r s = Inr (b, s') \<Longrightarrow> store_step s s'"
| step_recon_items: "insert_reconciliation_item r s = Inr (b, s') \<Longrightarrow> store_step s s'"
| step_recon_decisions: "insert_reconciliation_decision r s = Inr (b, s') \<Longrightarrow> store_step s s'"
| step_case_files: "insert_case_file r s = Inr (b, s') \<Longrightarrow> store_step s s'"
| step_cora_drafts: "insert_cora_draft r s = Inr (b, s') \<Longrightarrow> store_step s s'"
| step_proc_alerts: "insert_procurement_alert r s = Inr (b, s') \<Longrightarrow> store_step s s'"
| step_cora_requests: "insert_cora_request r s = Inr (b, s') \<Longrightarrow> store_step s s'"
| step_relationships: "insert_official_relationship r s = Inr (b, s') \<Longrightarrow> store_step s s'"

inductive_cases store_stepE: "store_step s s'"

section \<open>Schema invariant\<close>

text \<open>Primary keys are unique in every table.\<close>

definition unique_by :: "('r \<Rightarrow> 'k) \<Rightarrow> 'r list \<Rightarrow> bool" where
  "unique_by key t \<longleftrightarrow> distinct (map key t)"

definition primary_keys :: "store \<Rightarrow> bool" where
  "primary_keys s \<longleftrightarrow>
     unique_by (evr_id \<circ> fst) (st_evidence s) \<and>
     unique_by app_alert_id (st_approvals s) \<and>
     unique_by post_alert_id (st_posts s) \<and>
     unique_by fst (st_source_fetches s) \<and>
     unique_by (\<lambda>g. (pseg_alert_id g, pseg_index g)) (st_post_segments s) \<and>
     unique_by sup_id (st_supplied_records s) \<and>
     unique_by (\<lambda>q. (srow_snapshot_id q, srow_seq q)) (st_snapshot_rows s) \<and>
     unique_by rset_snapshot_id (st_row_sets s) \<and>
     unique_by fnd_id (st_findings s) \<and>
     unique_by alt_id (st_alerts s) \<and>
     unique_by mat_id (st_matters s) \<and>
     unique_by att_id (st_attachments s) \<and>
     unique_by sub_id (st_subjects s) \<and>
     unique_by act_id (st_actions s) \<and>
     unique_by tm_id (st_text_maps s) \<and>
     unique_by pc_id (st_page_citations s) \<and>
     unique_by rev_id (st_reviews s) \<and>
     unique_by run_id (st_runs s) \<and>
     unique_by srv_id (st_source_reviews s) \<and>
     unique_by obs_id (st_observations s) \<and>
     unique_by xa_id (st_x_attempts s) \<and>
     unique_by xr_id (st_x_reconciliations s) \<and>
     unique_by pal_id (st_allowlists s) \<and>
     unique_by pm_id (st_proc_matters s) \<and>
     unique_by ev_id (st_proc_events s) \<and>
     unique_by pid_id (st_proc_identifiers s) \<and>
     unique_by org_id (st_proc_organizations s) \<and>
     unique_by cov_id (st_coverage s) \<and>
     unique_by snap_id (st_snapshots s) \<and>
     unique_by srev_id (st_revisions s) \<and>
     unique_by sdiff_id (st_diffs s) \<and>
     unique_by ri_id (st_recon_items s) \<and>
     unique_by dec_id (st_recon_decisions s) \<and>
     unique_by cf_id (st_case_files s) \<and>
     unique_by cd_id (st_cora_drafts s) \<and>
     unique_by pa_id (st_proc_alerts s) \<and>
     unique_by cr_id (st_cora_requests s) \<and>
     unique_by rel_id (st_relationships s)"

text \<open>Every foreign key names a row.\<close>

definition refers :: "('r \<Rightarrow> 'k) \<Rightarrow> 'r list \<Rightarrow> ('q \<Rightarrow> 'k) \<Rightarrow> 'q list \<Rightarrow> bool" where
  "refers ref t key u \<longleftrightarrow> ref ` set t \<subseteq> key ` set u"

definition foreign_keys :: "store \<Rightarrow> bool" where
  "foreign_keys s \<longleftrightarrow>
     refers app_alert_id (st_approvals s) alt_id (st_alerts s) \<and>
     refers post_alert_id (st_posts s) alt_id (st_alerts s) \<and>
     refers pseg_alert_id (st_post_segments s) post_alert_id (st_posts s) \<and>
     refers srow_snapshot_id (st_snapshot_rows s) snap_id (st_snapshots s) \<and>
     refers rset_snapshot_id (st_row_sets s) snap_id (st_snapshots s) \<and>
     refers fnd_evidence_id (st_findings s) (evr_id \<circ> fst) (st_evidence s) \<and>
     refers alt_evidence_id (st_alerts s) (evr_id \<circ> fst) (st_evidence s) \<and>
     refers att_matter_id (st_attachments s) mat_id (st_matters s) \<and>
     refers tm_evidence_id (st_text_maps s) (evr_id \<circ> fst) (st_evidence s) \<and>
     refers pc_evidence_id (st_page_citations s) (evr_id \<circ> fst) (st_evidence s) \<and>
     refers xa_alert_id (st_x_attempts s) alt_id (st_alerts s) \<and>
     refers xr_attempt_id (st_x_reconciliations s) xa_id (st_x_attempts s)"

section \<open>History\<close>

definition extends :: "'r list \<Rightarrow> 'r list \<Rightarrow> bool" where
  "extends t t' \<longleftrightarrow> take (length t) t' = t"

text \<open>
  Nothing recorded disappears or changes: every table is extended at its end.  Evidence annotations,
  posting attempts and records requests may be rewritten, but their identifiers stay, in order.
\<close>

definition history :: "store \<Rightarrow> store \<Rightarrow> bool" where
  "history s s' \<longleftrightarrow>
     extends (map (evr_id \<circ> fst) (st_evidence s)) (map (evr_id \<circ> fst) (st_evidence s')) \<and>
     extends (st_approvals s) (st_approvals s') \<and>
     extends (st_supplied_records s) (st_supplied_records s') \<and>
     extends (st_snapshot_rows s) (st_snapshot_rows s') \<and>
     extends (st_row_sets s) (st_row_sets s') \<and>
     extends (st_findings s) (st_findings s') \<and>
     extends (st_alerts s) (st_alerts s') \<and>
     extends (st_matters s) (st_matters s') \<and>
     extends (st_attachments s) (st_attachments s') \<and>
     extends (st_subjects s) (st_subjects s') \<and>
     extends (st_actions s) (st_actions s') \<and>
     extends (st_text_maps s) (st_text_maps s') \<and>
     extends (st_page_citations s) (st_page_citations s') \<and>
     extends (st_reviews s) (st_reviews s') \<and>
     extends (st_runs s) (st_runs s') \<and>
     extends (st_source_reviews s) (st_source_reviews s') \<and>
     extends (st_observations s) (st_observations s') \<and>
     extends (map xa_id (st_x_attempts s)) (map xa_id (st_x_attempts s')) \<and>
     extends (st_x_reconciliations s) (st_x_reconciliations s') \<and>
     extends (st_allowlists s) (st_allowlists s') \<and>
     extends (st_proc_matters s) (st_proc_matters s') \<and>
     extends (st_proc_events s) (st_proc_events s') \<and>
     extends (st_proc_identifiers s) (st_proc_identifiers s') \<and>
     extends (st_proc_organizations s) (st_proc_organizations s') \<and>
     extends (st_coverage s) (st_coverage s') \<and>
     extends (st_snapshots s) (st_snapshots s') \<and>
     extends (st_revisions s) (st_revisions s') \<and>
     extends (st_diffs s) (st_diffs s') \<and>
     extends (st_recon_items s) (st_recon_items s') \<and>
     extends (st_recon_decisions s) (st_recon_decisions s') \<and>
     extends (st_case_files s) (st_case_files s') \<and>
     extends (st_cora_drafts s) (st_cora_drafts s') \<and>
     extends (st_proc_alerts s) (st_proc_alerts s') \<and>
     extends (map cr_id (st_cora_requests s)) (map cr_id (st_cora_requests s')) \<and>
     extends (st_relationships s) (st_relationships s')"

section \<open>Lemmas\<close>

lemma unique_by_Nil [simp]: "unique_by key []"
  by (simp add: unique_by_def)

lemma unique_by_snoc [simp]:
  "unique_by key (t @ [r]) \<longleftrightarrow> unique_by key t \<and> key r \<notin> key ` set t"
  by (auto simp: unique_by_def)

lemma unique_by_update [simp]: "unique_by key (update_by key r t) = unique_by key t"
  by (simp add: unique_by_def)

lemma unique_by_filter: "unique_by key t \<Longrightarrow> unique_by key (filter p t)"
  by (simp add: unique_by_def distinct_map_filter)

lemma refers_Nil [simp]: "refers ref [] key u"
  by (simp add: refers_def)

lemma refers_snoc [simp]:
  "refers ref (t @ [r]) key u \<longleftrightarrow> refers ref t key u \<and> ref r \<in> key ` set u"
  by (auto simp: refers_def)

lemma refers_grow: "refers ref t key u \<Longrightarrow> refers ref t key (u @ v)"
  by (auto simp: refers_def)

lemma refers_update_target: "refers ref t key u \<Longrightarrow> refers ref t key (update_by key r u)"
proof -
  have "key ` set (update_by key r u) = key ` set u"
    by (metis map_key_update_by list.set_map)
  then show "refers ref t key u \<Longrightarrow> ?thesis" by (simp add: refers_def)
qed

lemma refers_update_self: "refers key t k u \<Longrightarrow> refers key (update_by key r t) k u"
  unfolding refers_def by (metis map_key_update_by list.set_map)

lemma refers_attempt_update:
  "refers xa_alert_id (st_x_attempts s) k u \<Longrightarrow> same_alert x s \<Longrightarrow>
     refers xa_alert_id (update_by xa_id x (st_x_attempts s)) k u"
  by (auto simp: refers_def same_alert_def update_by_def list_all_iff split: if_splits)

lemma extends_refl [simp]: "extends t t"
  by (simp add: extends_def)

lemma extends_append [simp]: "extends t (t @ u)"
  by (simp add: extends_def)

lemma extends_iff: "extends t t' \<longleftrightarrow> (\<exists>u. t' = t @ u)"
  by (auto simp: extends_def) (metis append_take_drop_id)

lemma extends_trans: "extends t u \<Longrightarrow> extends u v \<Longrightarrow> extends t v"
  by (auto simp: extends_iff)

lemma history_refl: "history s s"
  by (simp add: history_def)

lemma history_trans: "history s t \<Longrightarrow> history t u \<Longrightarrow> history s u"
  unfolding history_def by (elim conjE) (intro conjI; erule (1) extends_trans)

lemmas step_defs =
  plain_insert_defs fk_insert_defs insert_or_ignore_def insert_evidence_def approve_def
  update_evidence_annotations_def record_source_fetch_def reserve_post_def record_post_segment_def
  mark_posted_def persist_attempt_def clear_in_progress_reservation_def update_cora_request_def
  insert_supplied_record_json_def
text \<open>The row loop touches only the table of rows, and appends to it.\<close>

lemma insert_row_loop_spec:
  "insert_row_loop k i rs s = Inr s' \<Longrightarrow>
     s' = s\<lparr>st_snapshot_rows := st_snapshot_rows s @
       map (\<lambda>(j, r). \<lparr>srow_snapshot_id = k, srow_seq = j, srow_row = r\<rparr>) (enumerate i rs)\<rparr>"
  by (induction k i rs s rule: insert_row_loop.induct) (auto split: if_splits)

lemma insert_row_loop_keys:
  "insert_row_loop k i rs s = Inr s' \<Longrightarrow>
     unique_by (\<lambda>q. (srow_snapshot_id q, srow_seq q)) (st_snapshot_rows s) \<Longrightarrow>
     unique_by (\<lambda>q. (srow_snapshot_id q, srow_seq q)) (st_snapshot_rows s')"
  by (induction k i rs s rule: insert_row_loop.induct) (auto split: if_splits)

lemma insert_row_loop_refs:
  "insert_row_loop k i rs s = Inr s' \<Longrightarrow>
     refers srow_snapshot_id (st_snapshot_rows s) snap_id (st_snapshots s) \<Longrightarrow>
     refers srow_snapshot_id (st_snapshot_rows s') snap_id (st_snapshots s')"
  by (induction k i rs s rule: insert_row_loop.induct) (auto split: if_splits)

lemma row_set_cases:
  assumes "insert_snapshot_row_set_with_rows sha meta rows s = Inr s'"
  obtains "s' = s"
  | t where "insert_row_loop (rset_snapshot_id meta) 0 rows s = Inr t"
      "snapshot_row_set (rset_snapshot_id meta) s = None"
      "snapshot_rows_raw (rset_snapshot_id meta) s = []"
      "rset_snapshot_id meta \<in> snap_id ` set (st_snapshots t)"
      "s' = t\<lparr>st_row_sets := st_row_sets t @ [stored_row_set meta]\<rparr>"
  using assms unfolding insert_snapshot_row_set_with_rows_def Let_def
  by (auto split: if_splits sum.splits)

lemma history_step: "store_step s s' \<Longrightarrow> history s s'"
proof (induction rule: store_step.induct)
  case (step_row_set sha meta rows s s')
  then show ?case
    by (rule row_set_cases) (auto simp: history_def dest!: insert_row_loop_spec)
qed (auto simp: history_def step_defs evidence_def split: if_splits sum.splits option.splits)

lemma select_by_absent: "select_by key k t = None \<Longrightarrow> r \<in> set t \<Longrightarrow> key r \<noteq> k"
  by (auto simp: select_by_None_iff)

lemma primary_keys_step:
  assumes "store_step s s'" "primary_keys s"
  shows "primary_keys s'"
  using assms
proof (induction rule: store_step.induct)
  case (step_row_set sha meta rows s s')
  from step_row_set.hyps show ?case
  proof (rule row_set_cases)
    assume "s' = s"
    then show ?thesis using step_row_set.prems by simp
  next
    fix t
    assume loop: "insert_row_loop (rset_snapshot_id meta) 0 rows s = Inr t"
      and none: "snapshot_row_set (rset_snapshot_id meta) s = None"
      and s': "s' = t\<lparr>st_row_sets := st_row_sets t @ [stored_row_set meta]\<rparr>"
    have "unique_by (\<lambda>q. (srow_snapshot_id q, srow_seq q)) (st_snapshot_rows t)"
      using insert_row_loop_keys [OF loop] step_row_set.prems by (simp add: primary_keys_def)
    moreover have "rset_snapshot_id meta \<notin> rset_snapshot_id ` set (st_row_sets s)"
      using none by (simp add: snapshot_row_set_def select_by_None_iff)
    ultimately show ?thesis
      using step_row_set.prems insert_row_loop_spec [OF loop]
      by (simp add: primary_keys_def s' stored_row_set_def)
  qed
qed (auto simp: primary_keys_def step_defs evidence_def unique_by_filter is_posted_def
       split: if_splits sum.splits option.splits)

lemma foreign_keys_step:
  assumes "store_step s s'" "foreign_keys s"
  shows "foreign_keys s'"
  using assms
proof (induction rule: store_step.induct)
  case (step_row_set sha meta rows s s')
  from step_row_set.hyps show ?case
  proof (rule row_set_cases)
    assume "s' = s"
    then show ?thesis using step_row_set.prems by simp
  next
    fix t
    assume loop: "insert_row_loop (rset_snapshot_id meta) 0 rows s = Inr t"
      and fk: "rset_snapshot_id meta \<in> snap_id ` set (st_snapshots t)"
      and s': "s' = t\<lparr>st_row_sets := st_row_sets t @ [stored_row_set meta]\<rparr>"
    have "refers srow_snapshot_id (st_snapshot_rows t) snap_id (st_snapshots t)"
      using insert_row_loop_refs [OF loop] step_row_set.prems by (simp add: foreign_keys_def)
    then show ?thesis
      using step_row_set.prems insert_row_loop_spec [OF loop] fk
      by (simp add: foreign_keys_def s' stored_row_set_def)
  qed
next
  case (step_clear s' a s)
  then show ?case
    by (auto simp: foreign_keys_def clear_in_progress_reservation_def refers_def)
qed (auto simp: foreign_keys_def step_defs evidence_def refers_grow refers_update_target refers_update_self
       refers_attempt_update is_posted_def alert_def
       select_by_None_iff dest: select_by_SomeD split: if_splits sum.splits option.splits)

lemma empty_store_keys: "primary_keys empty_store" "foreign_keys empty_store"
  by (simp_all add: primary_keys_def foreign_keys_def empty_store_def)

lemma schema_steps:
  "store_step\<^sup>*\<^sup>* s s' \<Longrightarrow> primary_keys s \<Longrightarrow> foreign_keys s \<Longrightarrow> primary_keys s' \<and> foreign_keys s'"
  by (induction rule: rtranclp_induct) (auto intro: primary_keys_step foreign_keys_step)

lemma history_steps: "store_step\<^sup>*\<^sup>* s s' \<Longrightarrow> history s s'"
  by (induction rule: rtranclp_induct) (auto intro: history_refl history_trans history_step)

section \<open>Properties\<close>

text \<open>
  C4: Every store reachable from the empty one by the writing methods, in any order and with any
  arguments, has unique primary keys in all its tables and no dangling foreign key.
\<close>

theorem store_schema_invariant:
  assumes "store_step\<^sup>*\<^sup>* empty_store s"
  shows "primary_keys s \<and> foreign_keys s"
  using schema_steps [OF assms empty_store_keys] .

text \<open>
  C5: No sequence of writes rewrites recorded history: every table that is meant to be append-only
  keeps all its rows, in order, and identifiers of evidence, posting attempts and records requests are
  never dropped.
\<close>

theorem store_history_append_only:
  assumes "store_step\<^sup>*\<^sup>* s s'"
  shows "history s s'"
  using assms by (rule history_steps)

definition sample_matter :: ProcurementMatter where
  "sample_matter = \<lparr>pm_id = lit ''m1'', pm_jurisdiction = [], pm_title = [], pm_review_state = [],
     pm_publication_state = []\<rparr>"

definition one_matter_store :: store where
  "one_matter_store = empty_store\<lparr>st_proc_matters := [sample_matter]\<rparr>"

lemma one_matter_step: "store_step empty_store one_matter_store"
proof (rule step_proc_matters)
  have "st_proc_matters empty_store = []" by (simp add: empty_store_def)
  then show "insert_procurement_matter sample_matter empty_store = Inr (True, one_matter_store)"
    by (simp add: insert_procurement_matter_def insert_or_ignore_def one_matter_store_def)
qed

theorem store_schema_invariant_witness: "primary_keys one_matter_store \<and> foreign_keys one_matter_store"
  by (rule store_schema_invariant) (rule r_into_rtranclp, rule one_matter_step)

theorem store_history_append_only_witness: "history empty_store one_matter_store"
  by (rule store_history_append_only) (rule r_into_rtranclp, rule one_matter_step)

text \<open>
  The first approval of an alert is final: approving again, with whatever digest, changes
  neither the approved digest of that alert nor that of any other.
\<close>

theorem first_approval_wins:
  assumes "approve a d at s = Inr (b, s')"
  shows "approved_draft_digest a' s' =
     (if a' = a \<and> approved_draft_digest a s = None then Some d else approved_draft_digest a' s)"
proof -
  have "st_approvals s' = snd (insert_or_ignore app_alert_id
      \<lparr>app_alert_id = a, app_draft_digest = d, app_approved_at = at\<rparr> (st_approvals s))"
    using assms by (auto simp: approve_def split: sum.splits prod.splits)
  moreover have "a \<in> app_alert_id ` set (st_approvals s) \<longleftrightarrow> approved_draft_digest a s \<noteq> None"
    by (simp add: approved_draft_digest_def select_by_None_iff)
  ultimately show ?thesis
    by (auto simp: approved_draft_digest_def insert_or_ignore_def select_by_append split: option.split)
qed

definition sample_alert :: Alert where
  "sample_alert = \<lparr>alt_id = lit ''a1'', alt_jurisdiction = [], alt_evidence_id = [], alt_previous_evidence_id = None,
     alt_title = [], alt_state = FindingState.Unknown, alt_summary = [], alt_publication_date = [],
     alt_rule_ids = [], alt_rules_version = 1, alt_rules_digest = [], alt_citations = [], alt_diff = None\<rparr>"

theorem first_approval_wins_witness:
  "\<exists>b s. approve (lit ''a1'') (lit ''d1'') [] (empty_store\<lparr>st_alerts := [sample_alert]\<rparr>) = Inr (b, s) \<and>
     approved_draft_digest (lit ''a1'') s = Some (lit ''d1'')"
proof -
  have ap: "approved_draft_digest (lit ''a1'') (empty_store\<lparr>st_alerts := [sample_alert]\<rparr>) = None"
    by (simp add: approved_draft_digest_def empty_store_def select_by_def)
  have "alert (lit ''a1'') (empty_store\<lparr>st_alerts := [sample_alert]\<rparr>) = Inr sample_alert"
    by (simp add: alert_def select_by_def sample_alert_def)
  then obtain b s where run: "approve (lit ''a1'') (lit ''d1'') [] (empty_store\<lparr>st_alerts := [sample_alert]\<rparr>) = Inr (b, s)"
    by (cases "insert_or_ignore app_alert_id \<lparr>app_alert_id = lit ''a1'', app_draft_digest = lit ''d1'',
        app_approved_at = []\<rparr> (st_approvals (empty_store\<lparr>st_alerts := [sample_alert]\<rparr>))")
      (auto simp: approve_def)
  then show ?thesis using first_approval_wins [OF run, of "lit ''a1''"] ap by auto
qed

text \<open>
  After a fetch, the source is allowed again exactly when the (saturating) time since then has
  reached the minimum interval; a clock that went back never allows an early fetch, and other sources
  are unaffected.
\<close>

theorem fetch_interval_respected:
  "source_fetch_allowed src' m later (record_source_fetch src now s) \<longleftrightarrow>
     (if src' = src then i64_of_u64 m \<le> i64_saturating_sub later now
      else source_fetch_allowed src' m later s)"
proof -
  have upd: "select_by fst k (update_by fst (src, now) t) =
      (if k = src then map_option (\<lambda>_. (src, now)) (select_by fst k t) else select_by fst k t)" for k t
    by (induction t) (auto simp: select_by_def update_by_def)
  have none: "src \<notin> fst ` set t \<Longrightarrow> select_by fst src t = None" for t
    by (simp add: select_by_None_iff)
  show ?thesis
  proof (cases "src \<in> fst ` set (st_source_fetches s)")
    case True
    then obtain r where "select_by fst src (st_source_fetches s) = Some r"
      using select_by_None_iff [of fst src] by (metis option.exhaust)
    then show ?thesis using True by (simp add: source_fetch_allowed_def record_source_fetch_def upd)
  next
    case False
    then show ?thesis
      by (auto simp: source_fetch_allowed_def record_source_fetch_def select_by_append none
          split: option.split)
  qed
qed

text \<open>
  The review that counts for a citation is the one whose identifier, a hash, sorts last: no
  decision time enters, so an older approval can outrank a newer rejection.
\<close>

theorem current_review_has_greatest_id:
  assumes "r \<in> set (st_reviews s)" "rev_citation_id r = c"
    and "\<And>q. q \<in> set (st_reviews s) \<Longrightarrow> rev_citation_id q = c \<Longrightarrow> q \<noteq> r \<Longrightarrow> rev_id q < rev_id r"
  shows "current_review c s = Some r"
proof -
  let ?l = "reviews_for_citation c s"
  have r: "r \<in> set ?l" using assms(1,2) by (simp add: reviews_for_citation_def)
  have s: "sorted (map rev_id ?l)" by (simp add: reviews_for_citation_def sorted_select_where)
  obtain xs x where l: "?l = xs @ [x]" using r by (cases ?l rule: rev_cases) auto
  have x: "x \<in> set (st_reviews s)" "rev_citation_id x = c"
    using l by (metis (mono_tags, lifting) in_set_conv_decomp reviews_for_citation_def set_select_where mem_Collect_eq)+
  have "rev_id r \<le> rev_id x" using s r l by (auto simp: sorted_append)
  then have "x = r" using assms(3) [OF x] by (metis leD)
  then show ?thesis by (simp add: current_review_def last_option_def l)
qed

definition sample_review :: "string \<Rightarrow> ReviewState \<Rightarrow> string \<Rightarrow> ReviewDecision" where
  "sample_review i st at = \<lparr>rev_id = lit i, rev_citation_id = [], rev_state = st, rev_reviewer = [],
     rev_note = [], rev_bound_digest = [], rev_decision_digest = [], rev_decided_at = lit at,
     rev_supersedes = None\<rparr>"

theorem current_review_has_greatest_id_witness:
  "current_review [] (empty_store\<lparr>st_reviews :=
      [sample_review ''review:9'' ReviewState.Approved ''2026-01-01'',
       sample_review ''review:1'' ReviewState.Rejected ''2026-02-01'']\<rparr>) =
   Some (sample_review ''review:9'' ReviewState.Approved ''2026-01-01'')"
  by (rule current_review_has_greatest_id) (auto simp: sample_review_def lit_def)

end
