(* ===== verification/Ops.thy ===== *)
theory Ops
  imports StoreSteps
begin

text \<open>
  Functions that make several store calls, as operations that return a result or an error together
  with the state, and the fact that every such operation is a sequence of store steps.
\<close>

section \<open>Fallible operations on the store\<close>

text \<open>
  A function that makes several store calls keeps what the calls before a failure wrote, so it
  returns the state with its error.  \<open>stmt\<close> lifts one store method (atomic: an error leaves the state
  alone), \<open>bind_op\<close> is the \<open>?\<close> operator.
\<close>

type_synonym ('e, 'a) op = "store \<Rightarrow> ('e + 'a) \<times> store"

definition return_op :: "'a \<Rightarrow> ('e, 'a) op" where
  "return_op a s = (Inr a, s)"

definition fail_op :: "'e \<Rightarrow> ('e, 'a) op" where
  "fail_op e s = (Inl e, s)"

definition bind_op :: "('e, 'a) op \<Rightarrow> ('a \<Rightarrow> ('e, 'b) op) \<Rightarrow> ('e, 'b) op" where
  "bind_op m f s = (case m s of (Inl e, s') \<Rightarrow> (Inl e, s') | (Inr a, s') \<Rightarrow> f a s')"

definition stmt :: "(CoreError \<Rightarrow> 'e) \<Rightarrow> (store \<Rightarrow> ('a \<times> store) core_result) \<Rightarrow> ('e, 'a) op" where
  "stmt err m s = (case m s of Inl e \<Rightarrow> (Inl (err e), s) | Inr (a, s') \<Rightarrow> (Inr a, s'))"

text \<open>A store method without a result.\<close>

definition unit_stmt :: "(CoreError \<Rightarrow> 'e) \<Rightarrow> (store \<Rightarrow> store core_result) \<Rightarrow> ('e, unit) op" where
  "unit_stmt err m s = (case m s of Inl e \<Rightarrow> (Inl (err e), s) | Inr s' \<Rightarrow> (Inr (), s'))"

text \<open>A read, fallible or not.\<close>

definition read_op :: "(store \<Rightarrow> 'e + 'a) \<Rightarrow> ('e, 'a) op" where
  "read_op f s = (f s, s)"

text \<open>\<open>map_err\<close>.\<close>

definition map_err :: "('e \<Rightarrow> 'f) \<Rightarrow> ('e, 'a) op \<Rightarrow> ('f, 'a) op" where
  "map_err g m s = (case m s of (Inl e, s') \<Rightarrow> (Inl (g e), s') | (Inr a, s') \<Rightarrow> (Inr a, s'))"

lemmas op_defs = return_op_def fail_op_def bind_op_def stmt_def unit_stmt_def read_op_def map_err_def

section \<open>Operations as sequences of store steps\<close>

lemma bind_op_Inr: "bind_op m f s = (Inr b, s') \<longleftrightarrow> (\<exists>a t. m s = (Inr a, t) \<and> f a t = (Inr b, s'))"
  by (auto simp: bind_op_def split: prod.splits sum.splits)

lemma stmt_Inr: "stmt err m s = (Inr a, s') \<longleftrightarrow> m s = Inr (a, s')"
  by (auto simp: stmt_def split: sum.splits prod.splits)

lemma unit_stmt_Inr: "unit_stmt err m s = (Inr a, s') \<longleftrightarrow> m s = Inr s'"
  by (auto simp: unit_stmt_def split: sum.splits)

lemma read_op_Inr: "read_op f s = (Inr a, s') \<longleftrightarrow> f s = Inr a \<and> s' = s"
  by (auto simp: read_op_def)

lemma return_op_Inr: "return_op b s = (Inr a, s') \<longleftrightarrow> a = b \<and> s' = s"
  by (auto simp: return_op_def)

lemma map_err_Inr: "map_err g m s = (Inr a, s') \<longleftrightarrow> m s = (Inr a, s')"
  by (auto simp: map_err_def split: prod.splits sum.splits)

lemma fail_op_Inr: "fail_op e s = (Inr a, s') \<longleftrightarrow> False"
  by (simp add: fail_op_def)

lemmas op_Inr = bind_op_Inr stmt_Inr unit_stmt_Inr read_op_Inr return_op_Inr map_err_Inr fail_op_Inr

text \<open>Whatever an operation returns, it got there by steps of the store.\<close>

definition op_steps :: "('e, 'a) op \<Rightarrow> bool" where
  "op_steps m \<longleftrightarrow> (\<forall>s. store_step\<^sup>*\<^sup>* s (snd (m s)))"

lemma op_stepsD: "op_steps m \<Longrightarrow> m s = (r, s') \<Longrightarrow> store_step\<^sup>*\<^sup>* s s'"
  unfolding op_steps_def by (metis snd_conv)

lemma op_steps_return [intro]: "op_steps (return_op a)"
  by (simp add: op_steps_def return_op_def)

lemma op_steps_fail [intro]: "op_steps (fail_op a)"
  by (simp add: op_steps_def fail_op_def)

lemma op_steps_read [intro]: "op_steps (read_op f)"
  by (simp add: op_steps_def read_op_def)

lemma op_steps_map_err [intro]: "op_steps m \<Longrightarrow> op_steps (map_err g m)"
  by (auto simp: op_steps_def map_err_def split: prod.split sum.split dest: spec)
    (metis snd_conv)+

lemma op_steps_bind [intro]:
  assumes "op_steps m" "\<And>a. op_steps (f a)"
  shows "op_steps (bind_op m f)"
  unfolding op_steps_def
proof
  fix s
  show "store_step\<^sup>*\<^sup>* s (snd (bind_op m f s))"
  proof (cases "m s")
    case (Pair r t)
    then have 1: "store_step\<^sup>*\<^sup>* s t" using assms(1) by (rule op_stepsD [rotated])
    show ?thesis
    proof (cases r)
      case (Inl e)
      then show ?thesis using 1 Pair by (simp add: bind_op_def)
    next
      case (Inr a)
      have "store_step\<^sup>*\<^sup>* t (snd (f a t))" using assms(2) by (simp add: op_steps_def)
      then show ?thesis using 1 Pair Inr by (simp add: bind_op_def)
    qed
  qed
qed

lemma op_steps_stmt:
  assumes "\<And>s a s'. m s = Inr (a, s') \<Longrightarrow> store_step s s'"
  shows "op_steps (stmt err m)"
  using assms by (auto simp: op_steps_def stmt_def split: sum.split)

lemma op_steps_unit_stmt:
  assumes "\<And>s s'. m s = Inr s' \<Longrightarrow> store_step s s'"
  shows "op_steps (unit_stmt err m)"
  using assms by (auto simp: op_steps_def unit_stmt_def split: sum.split)

lemma op_steps_if [intro]: "op_steps m \<Longrightarrow> op_steps n \<Longrightarrow> op_steps (if b then m else n)"
  by simp

lemma op_steps_option [intro]:
  "op_steps m \<Longrightarrow> (\<And>a. op_steps (f a)) \<Longrightarrow> op_steps (case x of None \<Rightarrow> m | Some a \<Rightarrow> f a)"
  by (cases x) simp_all

section \<open>What an operation leaves alone\<close>

text \<open>A part of the state that an operation does not change, whatever it returns.\<close>

definition op_keeps :: "(store \<Rightarrow> 'f) \<Rightarrow> ('e, 'a) op \<Rightarrow> bool" where
  "op_keeps f m \<longleftrightarrow> (\<forall>s. f (snd (m s)) = f s)"

lemma op_keepsD: "op_keeps f m \<Longrightarrow> m s = (r, s') \<Longrightarrow> f s' = f s"
  unfolding op_keeps_def by (metis snd_conv)

lemma op_keeps_base [intro]:
  "op_keeps f (return_op a)" "op_keeps f (fail_op e)" "op_keeps f (read_op g)"
  by (simp_all add: op_keeps_def return_op_def fail_op_def read_op_def)

lemma op_keeps_bind [intro]:
  assumes "op_keeps f m" "\<And>a. op_keeps f (g a)"
  shows "op_keeps f (bind_op m g)"
  unfolding op_keeps_def
proof
  fix s
  obtain r t where m: "m s = (r, t)" by fastforce
  then have "f t = f s" using assms(1) by (rule op_keepsD [rotated])
  then show "f (snd (bind_op m g s)) = f s"
    using assms(2) m by (cases r) (simp_all add: bind_op_def op_keeps_def)
qed

lemma op_keeps_map_err [intro]: "op_keeps f m \<Longrightarrow> op_keeps f (map_err g m)"
  by (simp add: op_keeps_def map_err_def split: prod.split sum.split) (metis snd_conv)

lemma op_keeps_stmt:
  assumes "\<And>s a s'. m s = Inr (a, s') \<Longrightarrow> f s' = f s"
  shows "op_keeps f (stmt err m)"
  using assms by (auto simp: op_keeps_def stmt_def split: sum.split)

lemma op_keeps_unit_stmt:
  assumes "\<And>s s'. m s = Inr s' \<Longrightarrow> f s' = f s"
  shows "op_keeps f (unit_stmt err m)"
  using assms by (auto simp: op_keeps_def unit_stmt_def split: sum.split)

lemma op_keeps_if [intro]: "op_keeps f m \<Longrightarrow> op_keeps f n \<Longrightarrow> op_keeps f (if b then m else n)"
  by simp

lemma op_keeps_option [intro]:
  "op_keeps f m \<Longrightarrow> (\<And>a. op_keeps f (g a)) \<Longrightarrow> op_keeps f (case x of None \<Rightarrow> m | Some a \<Rightarrow> g a)"
  by (cases x) simp_all

section \<open>Loops\<close>

text \<open>A loop over a list whose body makes store calls and updates a local result, with \<open>?\<close> inside.\<close>

fun for_op :: "('x \<Rightarrow> 'acc \<Rightarrow> ('e, 'acc) op) \<Rightarrow> 'x list \<Rightarrow> 'acc \<Rightarrow> ('e, 'acc) op" where
  "for_op f [] acc = return_op acc"
| "for_op f (x # xs) acc = bind_op (f x acc) (for_op f xs)"

lemma op_steps_for_op [intro]: "(\<And>x acc. op_steps (f x acc)) \<Longrightarrow> op_steps (for_op f xs acc)"
  by (induction f xs acc rule: for_op.induct) auto

lemma op_keeps_for_op [intro]: "(\<And>x acc. op_keeps f (g x acc)) \<Longrightarrow> op_keeps f (for_op g xs acc)"
  by (induction g xs acc rule: for_op.induct) auto

text \<open>What every round keeps holds after the loop.\<close>

lemma for_op_invariant:
  assumes "for_op f xs acc s = (Inr acc', s')" "I acc s"
    and "\<And>x acc s acc' s'. x \<in> set xs \<Longrightarrow> I acc s \<Longrightarrow> f x acc s = (Inr acc', s') \<Longrightarrow> I acc' s'"
  shows "I acc' s'"
  using assms
proof (induction f xs acc arbitrary: s rule: for_op.induct)
  case (2 f x xs acc)
  obtain a t where step: "f x acc s = (Inr a, t)" "for_op f xs a t = (Inr acc', s')"
    using 2(2) by (auto simp: bind_op_Inr)
  have "I a t" using 2(4) [OF _ 2(3) step(1)] by simp
  from 2(1) [OF step(2) this] show ?case by (meson 2(4) list.set_intros(2))
qed (simp add: return_op_Inr)

end
