(* ===== verification/PublishGate.thy ===== *)
theory PublishGate
  imports StoreSteps
begin

text \<open>
  The publication gates of \<open>pnull-publish/src/lib.rs\<close>: which citations may be published (a current
  approval bound to the cited content), the field allowlist, the reference check, and the privacy
  gate \<open>validate_public_text\<close> that every published text passes.
\<close>

section \<open>The citation gate\<close>

datatype PublishError =
  Core CoreError
| Io
| Sensitive str
| BrokenReference str
| Review str
| Procurement str

definition citation_id :: "hash \<Rightarrow> Citation \<Rightarrow> str" where
  "citation_id sha c =
     stable_id sha (lit ''citation'') [cit_evidence_id c, cit_quote c, loc_label (cit_locator c)]"

definition citation_review_binding :: "hash \<Rightarrow> Citation \<Rightarrow> ReviewBinding" where
  "citation_review_binding sha c =
     \<lparr>rb_evidence_id = cit_evidence_id c,
      rb_source_digest = sha256_hex sha (as_bytes (cit_source_url c)),
      rb_locator_or_geometry = loc_label (cit_locator c), rb_quote = cit_quote c,
      rb_quote_digest = sha256_hex sha (as_bytes (cit_quote c)), rb_rule_digest = [],
      rb_processing_artifact_digest = [], rb_proposed_public_fields = lit ''quote,locator''\<rparr>"

text \<open>The derived \<open>Debug\<close> text of a review state is the name of its constructor.\<close>

fun review_state_debug :: "ReviewState \<Rightarrow> str" where
  "review_state_debug Pending = lit ''Pending''"
| "review_state_debug ReviewState.Approved = lit ''Approved''"
| "review_state_debug ReviewState.Rejected = lit ''Rejected''"
| "review_state_debug NeedsContext = lit ''NeedsContext''"
| "review_state_debug Superseded = lit ''Superseded''"

fun assert_citations_approved :: "hash \<Rightarrow> store \<Rightarrow> Citation list \<Rightarrow> PublishError + unit" where
  "assert_citations_approved sha s [] = Inr ()"
| "assert_citations_approved sha s (c # cs) =
     (let cid = citation_id sha c in
      case current_review cid s of
        None \<Rightarrow> Inl (Review (lit ''citation '' @ cid @ lit '' has no review decision''))
      | Some decision \<Rightarrow>
          if rev_state decision \<noteq> ReviewState.Approved then
            Inl (Review (lit ''citation '' @ cid @ lit '' review state is '' @
              review_state_debug (rev_state decision) @ lit '', not Approved''))
          else if rev_bound_digest decision \<noteq> binding_digest sha (citation_review_binding sha c) then
            Inl (Review (lit ''citation '' @ cid @
              lit '' approval is stale: bound digest no longer matches content''))
          else assert_citations_approved sha s cs)"

definition publication_allowlist_allows :: "store \<Rightarrow> str \<Rightarrow> bool" where
  "publication_allowlist_allows s category \<longleftrightarrow>
     list_ex (\<lambda>a. list_ex (\<lambda>i. i = category) (pal_field_categories a)) (publication_allowlists s)"

definition citation_id_approved :: "store \<Rightarrow> str \<Rightarrow> bool" where
  "citation_id_approved s cid =
     (case current_review cid s of
        Some decision \<Rightarrow> rev_state decision = ReviewState.Approved | None \<Rightarrow> False)"

definition approved_page_citations :: "store \<Rightarrow> str \<Rightarrow> PageCitation list" where
  "approved_page_citations s eid = filter (\<lambda>c. citation_id_approved s (pc_id c)) (page_citations eid s)"

definition matters_for_evidence :: "store \<Rightarrow> str \<Rightarrow> Matter list" where
  "matters_for_evidence s eid =
     filter (\<lambda>m. list_ex (\<lambda>a. att_evidence_id a = Some eid) (attachments (mat_id m) s)) (matters s)"

text \<open>\<open>validate_references\<close>: the evidence loop, then the loop over alerts and their citations.\<close>

fun first_error :: "('a \<Rightarrow> 'e option) \<Rightarrow> 'a list \<Rightarrow> 'e option" where
  "first_error f [] = None"
| "first_error f (x # xs) = (case f x of Some e \<Rightarrow> Some e | None \<Rightarrow> first_error f xs)"

definition broken_reference :: "str list \<Rightarrow> str \<Rightarrow> PublishError option" where
  "broken_reference ids i = (if i \<in> set ids then None else Some (BrokenReference i))"

definition validate_references ::
  "Alert list \<Rightarrow> (EvidenceRecord \<times> str) list \<Rightarrow> PublishError + unit" where
  "validate_references alert_list evidence_list =
     (let ids = map (\<lambda>(r, _). evr_id r) evidence_list in
      case first_error (\<lambda>(r, _). case evr_supersedes r of None \<Rightarrow> None | Some i \<Rightarrow> broken_reference ids i)
             evidence_list of
        Some e \<Rightarrow> Inl e
      | None \<Rightarrow>
          (case first_error (\<lambda>a. case broken_reference ids (alt_evidence_id a) of
                 Some e \<Rightarrow> Some e
               | None \<Rightarrow> first_error (\<lambda>c. broken_reference ids (cit_evidence_id c)) (alt_citations a))
               alert_list of
             Some e \<Rightarrow> Inl e
           | None \<Rightarrow> Inr ()))"

section \<open>The privacy gate\<close>

text \<open>
  \<open>str::to_uppercase\<close> maps every character to one or more; the Unicode table is the argument
  \<open>upper\<close>.  What is used of it is its behaviour on ASCII.
\<close>

type_synonym upper_table = "uchar \<Rightarrow> str"

definition ascii_upper :: "upper_table \<Rightarrow> bool" where
  "ascii_upper upper \<longleftrightarrow> (\<forall>c < 128. upper c = [to_upper c])"

definition to_uppercase :: "upper_table \<Rightarrow> str \<Rightarrow> str" where
  "to_uppercase upper s = concat (map upper s)"

definition ends_with :: "str \<Rightarrow> str \<Rightarrow> bool" where
  "ends_with s t \<longleftrightarrow> starts_with (rev s) (rev t)"

definition local_char :: "uchar \<Rightarrow> bool" where
  "local_char c \<longleftrightarrow> is_alnum c \<or> c \<in> {46, 95, 37, 43, 45}"

definition domain_char :: "uchar \<Rightarrow> bool" where
  "domain_char c \<longleftrightarrow> is_alnum c \<or> c \<in> {46, 45}"

text \<open>The text before the sign is kept reversed, as \<open>chars().rev()\<close> reads it.\<close>

fun email_scan :: "str \<Rightarrow> str \<Rightarrow> bool" where
  "email_scan before [] = False"
| "email_scan before (c # cs) =
     ((c = 64 \<and> takeWhile local_char before \<noteq> [] \<and>
        (let domain = takeWhile domain_char cs in
         46 \<in> set domain \<and> \<not> ends_with domain (lit ''example.invalid'') \<and>
         \<not> starts_with domain (lit ''.''))) \<or>
      email_scan (c # before) cs)"

definition contains_email :: "str \<Rightarrow> bool" where
  "contains_email text = email_scan [] text"

text \<open>\<open>parse::<u32>\<close> of a string whose first and last character, if any, are digits.\<close>

definition parses_u32 :: "str \<Rightarrow> bool" where
  "parses_u32 s \<longleftrightarrow> s \<noteq> [] \<and> list_all is_digit s \<and> digits_value s < 2 ^ 32"

definition is_alphabetic :: "uchar \<Rightarrow> bool" where
  "is_alphabetic c \<longleftrightarrow> is_upper c \<or> is_lower c"

definition street_words :: "str list" where
  "street_words = map lit [''street'', ''st'', ''avenue'', ''ave'', ''road'', ''rd'', ''boulevard'', ''blvd'']"

fun address_windows :: "str list \<Rightarrow> bool" where
  "address_windows (a # b # c # rest) =
     ((parses_u32 (trim_by (\<lambda>x. \<not> is_digit x) a) \<and>
       to_ascii_lowercase (trim_by (\<lambda>x. \<not> is_alphabetic x) c) \<in> set street_words) \<or>
      address_windows (b # c # rest))"
| "address_windows _ = False"

definition contains_street_address :: "str \<Rightarrow> bool" where
  "contains_street_address text = address_windows (split_whitespace text)"

definition person_markers :: "str list" where
  "person_markers = map lit [''SOCIAL SECURITY NUMBER:'', ''PHONE NUMBER:'', ''HOME ADDRESS:'',
     ''MOVEMENT LOG:'', ''LOCATION HISTORY:'', ''LATITUDE:'', ''LONGITUDE:'']"

definition ssn_token :: "str \<Rightarrow> bool" where
  "ssn_token token =
     (let groups = split_by (\<lambda>c. c = 45) (trim_by (\<lambda>c. \<not> is_alnum c \<and> c \<noteq> 45) token) in
      map byte_len groups = [3, 2, 4] \<and> list_all (list_all is_digit) groups)"

definition contains_person_identifier :: "upper_table \<Rightarrow> str \<Rightarrow> bool" where
  "contains_person_identifier upper text \<longleftrightarrow>
     list_ex (str_contains (to_uppercase upper text)) person_markers \<or>
     list_ex ssn_token (split_whitespace text)"

definition label_markers :: "str list" where
  "label_markers = map lit [''PLATE:'', ''PLATE NUMBER:'', ''LICENSE PLATE NUMBER:'', ''SSN:'']"

definition validate_public_text :: "upper_table \<Rightarrow> str \<Rightarrow> PublishError + unit" where
  "validate_public_text upper text =
     (case find (str_contains (to_uppercase upper text)) label_markers of
        Some marker \<Rightarrow> Inl (Sensitive (lit ''disallowed identifier label '' @ marker))
      | None \<Rightarrow>
          if contains_email text then Inl (Sensitive (lit ''email-like private identifier''))
          else if contains_street_address text then Inl (Sensitive (lit ''street-address-like value''))
          else if contains_person_identifier upper text then
            Inl (Sensitive (lit ''person-level identifier or movement record''))
          else Inr ())"

section \<open>Lemmas\<close>

lemma assert_citations_approved_iff:
  "assert_citations_approved sha s cs = Inr () \<longleftrightarrow>
   (\<forall>c \<in> set cs. \<exists>d. current_review (citation_id sha c) s = Some d \<and>
      rev_state d = ReviewState.Approved \<and>
      rev_bound_digest d = binding_digest sha (citation_review_binding sha c))"
  by (induction cs) (auto simp: Let_def split: option.splits)

lemma email_scan_found:
  "takeWhile local_char (rev a @ before) \<noteq> [] \<Longrightarrow> 46 \<in> set (takeWhile domain_char b) \<Longrightarrow>
   \<not> ends_with (takeWhile domain_char b) (lit ''example.invalid'') \<Longrightarrow>
   \<not> starts_with (takeWhile domain_char b) (lit ''.'') \<Longrightarrow> email_scan before (a @ 64 # b)"
  by (induction a arbitrary: before) (auto simp: Let_def)

lemma address_windows_found:
  "address_windows (p @ a # b # c # q)" if
  "parses_u32 (trim_by (\<lambda>x. \<not> is_digit x) a)"
  "to_ascii_lowercase (trim_by (\<lambda>x. \<not> is_alphabetic x) c) \<in> set street_words"
proof (induction p)
  case (Cons x p)
  then show ?case by (cases p; cases "tl p") auto
qed (use that in simp)

lemma first_error_None: "first_error f xs = None \<longleftrightarrow> (\<forall>x \<in> set xs. f x = None)"
  by (induction xs) (auto split: option.splits)

lemma ends_with_split: "ends_with s t \<Longrightarrow> \<exists>a. s = a @ t"
  by (auto simp: ends_with_def starts_with_iff) (metis rev_append rev_rev_ident)

lemma starts_with_hd: "s \<noteq> [] \<Longrightarrow> starts_with s (lit ''.'') \<longleftrightarrow> hd s = 46"
  by (cases s) (auto simp: starts_with_iff lit_def)

lemma takeWhile_block: "list_all p d \<Longrightarrow> b = [] \<or> \<not> p (hd b) \<Longrightarrow> takeWhile p (d @ b) = d"
  by (induction d) (auto simp: takeWhile_eq_Nil_iff)

lemma to_uppercase_ascii:
  assumes "ascii_upper upper" "list_all (\<lambda>c. c < 128) w"
  shows "to_uppercase upper w = to_ascii_uppercase w"
  using assms(2) by (induction w) (use assms(1) in \<open>auto simp: to_uppercase_def ascii_upper_def\<close>)

lemma to_uppercase_append: "to_uppercase upper (a @ b) = to_uppercase upper a @ to_uppercase upper b"
  by (simp add: to_uppercase_def)

lemma markers_ascii: "m \<in> set (label_markers @ person_markers) \<Longrightarrow> list_all (\<lambda>c. c < 128) m"
  by (auto simp: label_markers_def person_markers_def lit_def)

lemma upper_ascii_back: "list_all (\<lambda>c. c < 128) (to_ascii_uppercase w) \<Longrightarrow> list_all (\<lambda>c. c < 128) w"
  by (auto simp: list_all_iff to_upper_def is_lower_def split: if_splits)

lemma marker_contained:
  assumes "ascii_upper upper" "to_ascii_uppercase w = m" "list_all (\<lambda>c. c < 128) m"
  shows "str_contains (to_uppercase upper (a @ w @ b)) m"
proof -
  have "to_uppercase upper w = m"
    using assms to_uppercase_ascii upper_ascii_back by metis
  then show ?thesis unfolding str_contains_iff to_uppercase_append by blast
qed

lemma clean_text:
  assumes "validate_public_text upper text = Inr ()"
  shows "m \<in> set (label_markers @ person_markers) \<Longrightarrow> \<not> str_contains (to_uppercase upper text) m"
    and "\<not> contains_email text" "\<not> contains_street_address text"
    and "w \<in> set (split_whitespace text) \<Longrightarrow> \<not> ssn_token w"
  using assms
  by (auto simp: validate_public_text_def contains_person_identifier_def find_None_iff list_ex_iff
      split: option.splits if_splits)

lemma trim_by_core:
  assumes "list_all p x" "list_all p y" "w \<noteq> []" "\<not> p (hd w)" "\<not> p (last w)"
  shows "trim_by p (x @ w @ y) = w"
proof -
  have "dropWhile p (x @ w @ y) = w @ y"
    using assms(1,3,4) by (cases w) (auto simp: dropWhile_append2 list_all_iff)
  moreover have "dropWhile p (rev y @ rev w) = rev w"
  proof -
    obtain v c where "w = v @ [c]" "\<not> p c" using assms(3,5) by (cases w rule: rev_cases) auto
    moreover have "dropWhile p (rev y @ c # rev v) = dropWhile p (c # rev v)"
      using assms(2) by (intro dropWhile_append2) (simp add: list_all_iff)
    ultimately show ?thesis by simp
  qed
  ultimately show ?thesis by (simp add: trim_by_def trim_start_by_def trim_end_by_def)
qed

lemma digits_value_bound: "list_all is_digit s \<Longrightarrow> digits_value s < 10 ^ length s"
proof (induction s rule: rev_induct)
  case (snoc c s)
  then have "c - 48 \<le> 9" "digits_value s + 1 \<le> 10 ^ length s" by (auto simp: is_digit_def)
  then show ?case by (simp add: digits_value_snoc)
qed (simp add: digits_value_def)

lemma short_number_parses: "list_all is_digit n \<Longrightarrow> n \<noteq> [] \<Longrightarrow> length n \<le> 9 \<Longrightarrow> parses_u32 n"
proof -
  assume n: "list_all is_digit n" "n \<noteq> []" "length n \<le> 9"
  have "(10 :: nat) ^ length n \<le> 10 ^ 9" using n(3) by (rule power_increasing) simp
  then show ?thesis using digits_value_bound [OF n(1)] n by (simp add: parses_u32_def)
qed

lemma number_word: "list_all is_digit n \<Longrightarrow> n \<noteq> [] \<Longrightarrow> list_all (\<lambda>c. \<not> is_digit c) x \<Longrightarrow>
    list_all (\<lambda>c. \<not> is_digit c) y \<Longrightarrow> trim_by (\<lambda>c. \<not> is_digit c) (x @ n @ y) = n"
  by (rule trim_by_core) (auto simp: list_all_iff)

lemma letter_word: "list_all (\<lambda>c. is_upper c \<or> is_lower c) w \<Longrightarrow> w \<noteq> [] \<Longrightarrow>
    list_all (\<lambda>c. \<not> is_upper c \<and> \<not> is_lower c) x \<Longrightarrow> list_all (\<lambda>c. \<not> is_upper c \<and> \<not> is_lower c) y \<Longrightarrow>
    trim_by (\<lambda>c. \<not> is_alphabetic c) (x @ w @ y) = w"
  by (rule trim_by_core) (auto simp: list_all_iff is_alphabetic_def)

lemma split_by_block: "list_all (\<lambda>c. \<not> p c) a \<Longrightarrow> p c \<Longrightarrow> split_by p (a @ c # b) = a # split_by p b"
  by (induction a) simp_all

lemma split_by_none: "list_all (\<lambda>c. \<not> p c) a \<Longrightarrow> split_by p a = [a]"
  by (induction a) simp_all

lemma digits_no_dash: "list_all is_digit a \<Longrightarrow> list_all (\<lambda>c. c \<noteq> 45) a"
  by (auto simp: list_all_iff is_digit_def)

lemma digits_byte_len: "list_all is_digit a \<Longrightarrow> byte_len a = length a"
  by (induction a) (auto simp: byte_len_def utf8_def is_digit_def)

lemma ssn_token_found:
  assumes "list_all is_digit (d3 @ d2 @ d4)" "length d3 = 3" "length d2 = 2" "length d4 = 4"
    and "list_all (\<lambda>c. \<not> is_alnum c \<and> c \<noteq> 45) (x @ y)"
  shows "ssn_token (x @ (d3 @ 45 # d2 @ 45 # d4) @ y)"
proof -
  let ?w = "d3 @ 45 # d2 @ 45 # d4"
  have d: "list_all is_digit d3" "list_all is_digit d2" "list_all is_digit d4" using assms(1) by simp_all
  have ends: "hd ?w \<in> set d3" "last ?w \<in> set d4" using assms(2,4) by (cases d3; cases d4; simp)+
  then have "\<not> (\<not> is_alnum (hd ?w) \<and> hd ?w \<noteq> 45)" "\<not> (\<not> is_alnum (last ?w) \<and> last ?w \<noteq> 45)"
    using d by (auto simp: list_all_iff is_alnum_def)
  then have "trim_by (\<lambda>c. \<not> is_alnum c \<and> c \<noteq> 45) (x @ ?w @ y) = ?w"
    using assms(5) by (intro trim_by_core) simp_all
  moreover have "split_by (\<lambda>c. c = 45) ?w = [d3, d2, d4]"
    using d by (simp add: split_by_block split_by_none digits_no_dash)
  ultimately show ?thesis using d assms(2-4) by (simp add: ssn_token_def digits_byte_len)
qed

section \<open>Properties\<close>

text \<open>
  C23: What a text that passes the privacy gate does not contain.  It has none of the eleven disallowed
  labels, in no capitalisation.  Every mail address in it lies in the reserved domain \<open>example.invalid\<close>.  No three
  consecutive words are a number of up to nine digits, any word, and one of the eight street words, whatever
  marks surround the number and the street word.  No word is a social security number, three, two and four digits
  with dashes between, whatever marks surround it.  An address with another number of words between the number
  and the street word is not excluded.
\<close>

theorem published_text_is_clean:
  assumes "ascii_upper upper" "validate_public_text upper text = Inr ()"
  shows "(\<forall>m \<in> {''PLATE:'', ''PLATE NUMBER:'', ''LICENSE PLATE NUMBER:'', ''SSN:'', ''SOCIAL SECURITY NUMBER:'',
              ''PHONE NUMBER:'', ''HOME ADDRESS:'', ''MOVEMENT LOG:'', ''LOCATION HISTORY:'', ''LATITUDE:'', ''LONGITUDE:''}.
            \<forall>a w b. text = a @ w @ b \<longrightarrow> to_ascii_uppercase w \<noteq> lit m) \<and>
         (\<forall>a l d b. text = a @ [l, 64] @ d @ b \<longrightarrow> is_alnum l \<or> l \<in> set (lit ''._%+-'') \<longrightarrow>
            list_all (\<lambda>c. is_alnum c \<or> c \<in> set (lit ''.-'')) d \<longrightarrow>
            b = [] \<or> \<not> (is_alnum (hd b) \<or> hd b \<in> set (lit ''.-'')) \<longrightarrow> 46 \<in> set d \<longrightarrow> hd d \<noteq> 46 \<longrightarrow>
            (\<exists>d'. d = d' @ lit ''example.invalid'')) \<and>
         (\<forall>p x n y b v w z q. split_whitespace text = p @ [x @ n @ y, b, v @ w @ z] @ q \<longrightarrow>
            list_all is_digit n \<longrightarrow> 1 \<le> length n \<and> length n \<le> 9 \<longrightarrow> list_all (\<lambda>c. \<not> is_digit c) (x @ y) \<longrightarrow>
            list_all (\<lambda>c. is_upper c \<or> is_lower c) w \<longrightarrow> list_all (\<lambda>c. \<not> is_upper c \<and> \<not> is_lower c) (v @ z) \<longrightarrow>
            to_ascii_lowercase w \<notin>
              lit ` {''street'', ''st'', ''avenue'', ''ave'', ''road'', ''rd'', ''boulevard'', ''blvd''}) \<and>
         (\<forall>x d3 d2 d4 y. list_all is_digit (d3 @ d2 @ d4) \<longrightarrow> length d3 = 3 \<longrightarrow> length d2 = 2 \<longrightarrow> length d4 = 4 \<longrightarrow>
            list_all (\<lambda>c. \<not> is_alnum c \<and> c \<noteq> 45) (x @ y) \<longrightarrow>
            x @ (d3 @ [45] @ d2 @ [45] @ d4) @ y \<notin> set (split_whitespace text))"
proof (intro conjI ballI allI impI)
  fix m a w b
  assume "m \<in> {''PLATE:'', ''PLATE NUMBER:'', ''LICENSE PLATE NUMBER:'', ''SSN:'', ''SOCIAL SECURITY NUMBER:'',
      ''PHONE NUMBER:'', ''HOME ADDRESS:'', ''MOVEMENT LOG:'', ''LOCATION HISTORY:'', ''LATITUDE:'', ''LONGITUDE:''}"
    and t: "text = a @ w @ b"
  then have "lit m \<in> set (label_markers @ person_markers)"
    by (auto simp: label_markers_def person_markers_def)
  then show "to_ascii_uppercase w \<noteq> lit m"
    using clean_text(1) [OF assms(2)] marker_contained [OF assms(1)] markers_ascii t by blast
next
  fix a l d b
  assume t: "text = a @ [l, 64] @ d @ b" and l: "is_alnum l \<or> l \<in> set (lit ''._%+-'')"
    and d: "list_all (\<lambda>c. is_alnum c \<or> c \<in> set (lit ''.-'')) d"
    "b = [] \<or> \<not> (is_alnum (hd b) \<or> hd b \<in> set (lit ''.-''))" "46 \<in> set d" "hd d \<noteq> 46"
  have block: "list_all domain_char d" "b = [] \<or> \<not> domain_char (hd b)" and l: "local_char l"
    using d(1,2) l by (simp_all add: domain_char_def [abs_def] local_char_def lit_def)
  have tw: "takeWhile domain_char (d @ b) = d" using block by (rule takeWhile_block)
  have "d \<noteq> []" using d(3) by auto
  then have nd: "\<not> starts_with d (lit ''.'')" using d(4) by (simp add: starts_with_hd)
  have "ends_with d (lit ''example.invalid'')"
  proof (rule ccontr)
    assume "\<not> ends_with d (lit ''example.invalid'')"
    then have "email_scan [] ((a @ [l]) @ 64 # (d @ b))"
      using d(3) nd l tw by (intro email_scan_found) simp_all
    then show False using clean_text(2) [OF assms(2)] t by (simp add: contains_email_def)
  qed
  then show "\<exists>d'. d = d' @ lit ''example.invalid''" by (rule ends_with_split)
next
  fix p x n y b v w z q
  assume words: "split_whitespace text = p @ [x @ n @ y, b, v @ w @ z] @ q" and n: "list_all is_digit n"
    "1 \<le> length n \<and> length n \<le> 9" "list_all (\<lambda>c. \<not> is_digit c) (x @ y)"
    and w: "list_all (\<lambda>c. is_upper c \<or> is_lower c) w" "list_all (\<lambda>c. \<not> is_upper c \<and> \<not> is_lower c) (v @ z)"
  have "n \<noteq> []" using n(2) by auto
  then have "parses_u32 (trim_by (\<lambda>c. \<not> is_digit c) (x @ n @ y))"
    using n short_number_parses [of n] number_word [of n x y] by auto
  then have "to_ascii_lowercase (trim_by (\<lambda>c. \<not> is_alphabetic c) (v @ w @ z)) \<notin> set street_words"
    using clean_text(3) [OF assms(2)] address_windows_found [of "x @ n @ y" "v @ w @ z" p b q] words
    by (auto simp: contains_street_address_def)
  then show "to_ascii_lowercase w \<notin>
      lit ` {''street'', ''st'', ''avenue'', ''ave'', ''road'', ''rd'', ''boulevard'', ''blvd''}"
    using w letter_word [of w v z] by (cases "w = []") (auto simp: street_words_def lit_def)
next
  fix x d3 d2 d4 y
  assume "list_all is_digit (d3 @ d2 @ d4)" "length d3 = 3" "length d2 = 2" "length d4 = 4"
    "list_all (\<lambda>c. \<not> is_alnum c \<and> c \<noteq> 45) (x @ y)"
  from ssn_token_found [OF this] show "x @ (d3 @ [45] @ d2 @ [45] @ d4) @ y \<notin> set (split_whitespace text)"
    using clean_text(4) [OF assms(2)] by auto
qed

definition ascii_table :: upper_table where
  "ascii_table c = [to_upper c]"

lemma ascii_table_ok [simp]: "ascii_upper ascii_table"
  by (simp add: ascii_upper_def ascii_table_def)

theorem published_text_is_clean_witness:
  "validate_public_text ascii_table (lit ''a b'') = Inr () \<and>
   lit ''123-45-6789'' \<notin> set (split_whitespace (lit ''a b''))"
proof -
  have l: "str_contains t m \<Longrightarrow> length m \<le> length t" for t m
    by (auto simp: str_contains_iff)
  have len: "length (to_uppercase ascii_table (lit ''a b'')) = 3"
    by (simp add: to_uppercase_def ascii_table_def lit_def)
  have "\<not> str_contains (to_uppercase ascii_table (lit ''a b'')) m"
    if "m \<in> set (label_markers @ person_markers)" for m
    using that l [of "to_uppercase ascii_table (lit ''a b'')" m]
    unfolding len by (auto simp: label_markers_def person_markers_def)
  then have "find (str_contains (to_uppercase ascii_table (lit ''a b''))) label_markers = None"
    "\<not> list_ex (str_contains (to_uppercase ascii_table (lit ''a b''))) person_markers"
    by (auto simp: find_None_iff list_ex_iff)
  moreover have "split_whitespace (lit ''a b'') = [[97], [98]]"
    by (simp add: split_whitespace_def lit_def is_ws_def)
  moreover have "\<not> ssn_token [97]" "\<not> ssn_token [98]"
    by (simp_all add: ssn_token_def trim_by_def trim_start_by_def trim_end_by_def char_class_defs byte_len_def utf8_def)
  moreover have "\<not> contains_email (lit ''a b'')" by (simp add: contains_email_def lit_def)
  ultimately have "validate_public_text ascii_table (lit ''a b'') = Inr ()"
    by (simp add: validate_public_text_def contains_street_address_def contains_person_identifier_def)
  moreover have "lit ''123-45-6789'' = [] @ ([49, 50, 51] @ [45] @ [52, 53] @ [45] @ [54, 55, 56, 57]) @ []"
    "list_all is_digit ([49, 50, 51] @ [52, 53] @ [54, 55, 56, 57])"
    by (simp_all add: lit_def is_digit_def)
  ultimately show ?thesis
    using published_text_is_clean [OF ascii_table_ok, THEN conjunct2, THEN conjunct2, THEN conjunct2, rule_format,
        of "lit ''a b''" "[49, 50, 51]" "[52, 53]" "[54, 55, 56, 57]" "[]" "[]"] by simp
qed

text \<open>
  A street of two names, or with a direction, is not seen: the street word has to be the second word after the
  number.
\<close>

lemma address_with_direction_accepted:
  "\<not> contains_street_address (lit ''123 North Main Street'')" "contains_street_address (lit ''123 Main Street'')"
proof -
  have "split_whitespace (lit ''123 North Main Street'') =
      [[49, 50, 51], [78, 111, 114, 116, 104], [77, 97, 105, 110], [83, 116, 114, 101, 101, 116]]"
    "split_whitespace (lit ''123 Main Street'') = [[49, 50, 51], [77, 97, 105, 110], [83, 116, 114, 101, 101, 116]]"
    by (simp_all add: split_whitespace_def lit_def is_ws_def)
  then show "\<not> contains_street_address (lit ''123 North Main Street'')" "contains_street_address (lit ''123 Main Street'')"
    by (simp_all add: contains_street_address_def trim_by_def trim_start_by_def trim_end_by_def parses_u32_def
        char_class_defs is_alphabetic_def street_words_def lit_def to_lower_def digits_value_def)
qed

text \<open>
  The reference check accepts a site exactly when every evidence record that an evidence record
  supersedes, an alert rests on or an alert cites is part of the site.
\<close>

theorem references_resolved_iff:
  "validate_references alert_list evidence_list = Inr () \<longleftrightarrow>
   {i. Some i \<in> (evr_supersedes \<circ> fst) ` set evidence_list} \<union> alt_evidence_id ` set alert_list \<union>
     (\<Union>a \<in> set alert_list. cit_evidence_id ` set (alt_citations a))
   \<subseteq> (evr_id \<circ> fst) ` set evidence_list"
proof -
  let ?ids = "map (\<lambda>(r, _). evr_id r) evidence_list"
  have ids: "set ?ids = (evr_id \<circ> fst) ` set evidence_list" by (auto simp: case_prod_beta)
  have b: "broken_reference ?ids i = None \<longleftrightarrow> i \<in> (evr_id \<circ> fst) ` set evidence_list" for i
    unfolding broken_reference_def ids by simp
  have e: "first_error (\<lambda>(r, _). case evr_supersedes r of None \<Rightarrow> None | Some i \<Rightarrow> broken_reference ?ids i)
      evidence_list = None \<longleftrightarrow>
      (\<forall>(r, _) \<in> set evidence_list. \<forall>i. evr_supersedes r = Some i \<longrightarrow> i \<in> (evr_id \<circ> fst) ` set evidence_list)"
    unfolding first_error_None by (auto simp: b split: option.splits)
  have a: "first_error (\<lambda>a. case broken_reference ?ids (alt_evidence_id a) of
        Some e \<Rightarrow> Some e | None \<Rightarrow> first_error (\<lambda>c. broken_reference ?ids (cit_evidence_id c)) (alt_citations a))
      alert_list = None \<longleftrightarrow>
      (\<forall>a \<in> set alert_list. alt_evidence_id a \<in> (evr_id \<circ> fst) ` set evidence_list \<and>
       (\<forall>c \<in> set (alt_citations a). cit_evidence_id c \<in> (evr_id \<circ> fst) ` set evidence_list))"
    unfolding first_error_None by (auto simp: b first_error_None split: option.splits)
  have "{i. Some i \<in> (evr_supersedes \<circ> fst) ` set evidence_list} \<subseteq> (evr_id \<circ> fst) ` set evidence_list \<longleftrightarrow>
      (\<forall>(r, _) \<in> set evidence_list. \<forall>i. evr_supersedes r = Some i \<longrightarrow> i \<in> (evr_id \<circ> fst) ` set evidence_list)"
    unfolding subset_iff by (force simp: image_iff)
  then show ?thesis
    unfolding Un_subset_iff UN_subset_iff image_subset_iff
    unfolding validate_references_def Let_def e [symmetric] a [unfolded ball_conj_distrib, symmetric]
    using e a by (auto split: option.split)
qed

text \<open>
  C12: A citation is published only under an approval of its own content: when the gate lets a citation
  through, there is a review decision that counts for it, that decision is an approval, it is bound to the digest
  of the citation as it is now, and whatever content was reviewed under that digest has the same multiset of bound
  values as the published citation, unless the hash collides on the two.
\<close>

theorem publication_needs_approval_of_content:
  assumes "assert_citations_approved sha s cs = Inr ()" "c \<in> set cs"
  shows "\<exists>d. current_review (citation_id sha c) s = Some d \<and> rev_state d = ReviewState.Approved \<and>
    rev_bound_digest d = binding_digest sha (citation_review_binding sha c) \<and>
    (\<forall>reviewed. rev_bound_digest d = binding_digest sha reviewed \<longrightarrow>
       list_all nul_free (binding_parts reviewed) \<longrightarrow>
       list_all nul_free (binding_parts (citation_review_binding sha c)) \<longrightarrow>
       inj_on sha {stable_preimage (lit ''review-binding'') (sort (binding_parts reviewed)),
         stable_preimage (lit ''review-binding'') (sort (binding_parts (citation_review_binding sha c)))} \<longrightarrow>
       mset (binding_parts reviewed) = mset (binding_parts (citation_review_binding sha c)))"
proof -
  obtain d where d: "current_review (citation_id sha c) s = Some d" "rev_state d = ReviewState.Approved"
    "rev_bound_digest d = binding_digest sha (citation_review_binding sha c)"
    using assms by (auto simp: assert_citations_approved_iff)
  then show ?thesis using binding_digest_eq_iff [where sha = sha] by fastforce
qed

definition sample_citation :: Citation where
  "sample_citation = \<lparr>cit_evidence_id = lit ''e'', cit_source_url = lit ''u'',
     cit_locator = \<lparr>loc_kind = [], loc_start = 0, loc_end = 0, loc_label = lit ''line 1''\<rparr>, cit_quote = lit ''q''\<rparr>"

definition approving_review :: ReviewDecision where
  "approving_review = \<lparr>rev_id = [], rev_citation_id = citation_id id_hash sample_citation,
     rev_state = ReviewState.Approved, rev_reviewer = [], rev_note = [],
     rev_bound_digest = binding_digest id_hash (citation_review_binding id_hash sample_citation),
     rev_decision_digest = [], rev_decided_at = [], rev_supersedes = None\<rparr>"

theorem publication_needs_approval_of_content_witness:
  "assert_citations_approved id_hash (empty_store\<lparr>st_reviews := [approving_review]\<rparr>) [sample_citation] = Inr () \<and>
   rev_state approving_review = ReviewState.Approved"
proof -
  let ?s = "empty_store\<lparr>st_reviews := [approving_review]\<rparr>"
  have cur: "current_review (citation_id id_hash sample_citation) ?s = Some approving_review"
    by (simp add: current_review_def reviews_for_citation_def select_where_def last_option_def
        approving_review_def)
  have ok: "assert_citations_approved id_hash ?s [sample_citation] = Inr ()"
    unfolding assert_citations_approved_iff using cur by (simp add: approving_review_def)
  have nf: "list_all nul_free (binding_parts (citation_review_binding id_hash sample_citation))"
    by (simp add: binding_parts_def citation_review_binding_def sample_citation_def sha256_hex_def id_hash_def)
      (simp add: nul_free_def lit_def utf8_def)
  show ?thesis
    using publication_needs_approval_of_content [OF ok, of sample_citation] ok cur nf by auto
qed

end
