(* ===== verification/Posting.thy ===== *)
theory Posting
  imports Ops PublishGate
begin

text \<open>
  Posting to X (\<open>pnull-x/src/lib.rs\<close>): drafts and their split into a thread, the posting protocol
  (explicit confirmation, approval of the exact draft, no blind retry, reservation before the first
  call) and the operator's reconciliation of uncertain attempts.
\<close>

section \<open>Drafts\<close>

definition X_CHARACTER_LIMIT :: nat where "X_CHARACTER_LIMIT = 280"
definition CHUNK_TARGET :: nat where "CHUNK_TARGET = 270"

record Draft =
  dr_alert_id :: str
  dr_posts :: "str list"

definition draft_digest :: "hash \<Rightarrow> Draft \<Rightarrow> str" where
  "draft_digest sha d = stable_id sha (lit ''x-draft'') (dr_alert_id d # dr_posts d)"

datatype XError =
  MissingCitation | SensitiveData | CharacterLimit | NotApproved | NotConfirmed | AlreadyPosted
| UncertainAttempt | UnsupportedDecision str | CredentialsMissing | SecretPermissions | Transport
| Core CoreError | SecretRead

text \<open>\<open>split_words\<close>: the words of a long paragraph, greedily packed; \<open>current\<close> is the open chunk.\<close>

fun split_words_loop :: "nat \<Rightarrow> str list \<Rightarrow> str \<Rightarrow> str list \<Rightarrow> XError + str list" where
  "split_words_loop target [] current output =
     Inr (if current \<noteq> [] then output @ [current] else output)"
| "split_words_loop target (word # words) current output =
     (if length word > target then Inl CharacterLimit
      else if length current + (length word + (if current \<noteq> [] then 1 else 0)) > target
      then split_words_loop target words word (output @ [current])
      else split_words_loop target words
        (if current \<noteq> [] then current @ lit '' '' @ word else word) output)"

definition split_words :: "str \<Rightarrow> nat \<Rightarrow> str list \<Rightarrow> XError + str list" where
  "split_words paragraph target output = split_words_loop target (split_whitespace paragraph) [] output"

fun thread_loop :: "str list \<Rightarrow> str list \<Rightarrow> str \<Rightarrow> XError + str list" where
  "thread_loop [] chunks current = Inr (if current \<noteq> [] then chunks @ [current] else chunks)"
| "thread_loop (p # ps) chunks current =
     (if length current + (length p + (if current \<noteq> [] then 2 else 0)) \<le> CHUNK_TARGET
      then thread_loop ps chunks (if current \<noteq> [] then current @ [10, 10] @ p else p)
      else
        let chunks' = (if current \<noteq> [] then chunks @ [current] else chunks) in
        if length p \<le> CHUNK_TARGET then thread_loop ps chunks' p
        else
          case split_words p CHUNK_TARGET chunks' of
            Inl e \<Rightarrow> Inl e
          | Inr chunks'' \<Rightarrow> thread_loop ps chunks'' [])"

definition number_chunk :: "nat \<Rightarrow> nat \<times> str \<Rightarrow> str" where
  "number_chunk n ic =
     snd ic @ [10, 10] @ lit ''('' @ show_nat (fst ic + 1) @ lit ''/'' @ show_nat n @ lit '')''"

definition split_thread :: "str \<Rightarrow> XError + str list" where
  "split_thread text =
     (if length text \<le> X_CHARACTER_LIMIT then Inr [text]
      else
        case thread_loop (split_nn text) [] [] of
          Inl e \<Rightarrow> Inl e
        | Inr chunks \<Rightarrow>
            if length chunks > 8 \<or> chunks = [] then Inl CharacterLimit
            else
              let numbered = map (number_chunk (length chunks)) (enumerate 0 chunks) in
              if list_ex (\<lambda>post. length post > X_CHARACTER_LIMIT) numbered then Inl CharacterLimit
              else Inr numbered)"

definition safe_id :: "str \<Rightarrow> str" where
  "safe_id i = map (\<lambda>c. if is_alnum c \<or> c = 45 then c else 95) i"

text \<open>The middle dot and the em dash of the fixed texts.\<close>

definition mid_dot :: str where "mid_dot = [183]"
definition em_dash :: str where "em_dash = [8212]"

definition alert_text :: "Alert \<Rightarrow> str \<Rightarrow> str" where
  "alert_text a alert_url =
     lit ''COLORADO SURVEILLANCE ALERT '' @ mid_dot @ lit '' AUTOMATED'' @ [10, 10] @
     alt_jurisdiction a @ lit '' '' @ em_dash @ lit '' monitored matter: '' @ alt_title a @ [10, 10] @
     lit ''Current public-record state: '' @ finding_state_label (alt_state a) @
     lit ''. This state does not by itself establish a vendor purchase.'' @ [10, 10] @
     lit ''Detected change: '' @ alt_summary a @ [10, 10] @
     lit ''Source documents, archived hashes, and exact citations:'' @ [10] @ alert_url @ [10, 10] @
     lit ''Public power must remain publicly visible.''"

definition finish_draft :: "upper_table \<Rightarrow> str \<Rightarrow> str \<Rightarrow> XError + Draft" where
  "finish_draft upper alert_id text =
     (case validate_public_text upper text of Inl _ \<Rightarrow> Inl SensitiveData
      | Inr _ \<Rightarrow>
          (case split_thread text of Inl e \<Rightarrow> Inl e
           | Inr posts \<Rightarrow>
               if list_ex (\<lambda>post. length post > X_CHARACTER_LIMIT) posts then Inl CharacterLimit
               else Inr \<lparr>dr_alert_id = alert_id, dr_posts = posts\<rparr>))"

definition draft :: "upper_table \<Rightarrow> Alert \<Rightarrow> str \<Rightarrow> XError + Draft" where
  "draft upper a canonical_base_url =
     (if alt_citations a = [] \<or> list_ex (\<lambda>c. trim (cit_quote c) = []) (alt_citations a)
      then Inl MissingCitation
      else if validate_public_text upper (alt_summary a) \<noteq> Inr () then Inl SensitiveData
      else if validate_public_text upper (alt_title a) \<noteq> Inr () then Inl SensitiveData
      else finish_draft upper (alt_id a)
        (alert_text a (trim_end_by (\<lambda>c. c = 47) canonical_base_url @ lit ''/alerts/'' @
           safe_id (alt_id a) @ lit ''.html'')))"

definition procurement_text :: "ProcurementAlert \<Rightarrow> str \<Rightarrow> str \<Rightarrow> str \<Rightarrow> str \<Rightarrow> str" where
  "procurement_text a jurisdiction matter_label kind case_page =
     lit ''AUTOMATED PUBLIC-RECORD CHANGE NOTICE '' @ mid_dot @ lit '' procurement'' @ [10, 10] @
     jurisdiction @ lit '' '' @ em_dash @ lit '' matter/identifier: '' @ matter_label @ [10, 10] @
     lit ''Observed change ('' @ kind @ lit ''): '' @ pa_summary a @
     lit ''. This reports a change in the public record; it is not proof of absence or of wrongdoing.'' @
     [10, 10] @ lit ''Case-file page: '' @ case_page @ [10, 10] @
     lit ''Public record; not proof of absence.''"

definition draft_procurement ::
  "upper_table \<Rightarrow> ProcurementAlert \<Rightarrow> str \<Rightarrow> str \<Rightarrow> str \<Rightarrow> XError + Draft" where
  "draft_procurement upper a canonical_base_url jurisdiction matter_label =
     (if validate_public_text upper (pa_summary a) \<noteq> Inr () then Inl SensitiveData
      else
        case pa_changes a of
          [] \<Rightarrow> Inl MissingCitation
        | first # _ \<Rightarrow>
            let base = trim_end_by (\<lambda>c. c = 47) canonical_base_url;
                change_page = base @ lit ''/procurement/change-alerts/'' @ safe_id (pa_id a) @ lit ''.html'';
                case_page =
                  (case pa_matter_ids a of
                     [] \<Rightarrow> change_page
                   | m # _ \<Rightarrow> if m \<noteq> [] then base @ lit ''/procurement/'' @ safe_id m @ lit ''/index.html''
                              else change_page) in
            finish_draft upper (pa_id a)
              (procurement_text a jurisdiction matter_label (change_label (prc_change_kind first)) case_page))"

section \<open>The posting protocol\<close>

text \<open>
  The transport is outside the program: its answer is a function of all the calls made so far, the
  present one last.  A call is the text and the post it replies to.
\<close>

type_synonym call = "str \<times> str option"
type_synonym transport = "call list \<Rightarrow> XError + str"

definition attempts_for_alert :: "str \<Rightarrow> store \<Rightarrow> XAttempt list" where
  "attempts_for_alert alert_id s = x_attempts_for_alert alert_id s"

definition guard_against_blind_retry :: "str \<Rightarrow> store \<Rightarrow> XError + unit" where
  "guard_against_blind_retry alert_id s =
     (case last_option (attempts_for_alert alert_id s) of
        None \<Rightarrow> Inr ()
      | Some latest \<Rightarrow>
          if xa_status latest \<in> {lit ''uncertain'', lit ''in_progress''} then Inl UncertainAttempt
          else Inr ())"

definition u32_of_index :: "nat \<Rightarrow> 32 word" where
  "u32_of_index i = (if i < 2 ^ 32 then of_nat i else - 1)"

definition new_attempt :: "hash \<Rightarrow> Draft \<Rightarrow> str \<Rightarrow> XAttempt" where
  "new_attempt sha d posted_at =
     \<lparr>xa_id = stable_id sha (lit ''x-attempt'') [dr_alert_id d, posted_at],
      xa_alert_id = dr_alert_id d, xa_draft_digest = draft_digest sha d, xa_started_at = posted_at,
      xa_status = lit ''in_progress'',
      xa_segments = map (\<lambda>(i, _). \<lparr>seg_index = u32_of_index i, seg_remote_id = None,
        seg_state = lit ''pending''\<rparr>) (enumerate 0 (dr_posts d))\<rparr>"

text \<open>\<open>iter_mut().find(p)\<close> followed by an update of what it found.\<close>

fun update_first :: "('a \<Rightarrow> bool) \<Rightarrow> ('a \<Rightarrow> 'a) \<Rightarrow> 'a list \<Rightarrow> 'a list" where
  "update_first p f [] = []"
| "update_first p f (x # xs) = (if p x then f x # xs else x # update_first p f xs)"

definition mark_segment :: "nat \<Rightarrow> str \<Rightarrow> XAttempt \<Rightarrow> XAttempt" where
  "mark_segment i remote_id attempt =
     attempt\<lparr>xa_segments := update_first (\<lambda>g. unat (seg_index g) = i)
       (\<lambda>g. g\<lparr>seg_remote_id := Some remote_id, seg_state := lit ''posted''\<rparr>) (xa_segments attempt)\<rparr>"

text \<open>
  The loop over the posts.  It ends with the attempt, the identifiers received and the transport
  error that stopped it, if any; an error of the store returns at once.
\<close>

fun post_loop ::
  "transport \<Rightarrow> str \<Rightarrow> nat \<Rightarrow> str list \<Rightarrow> XAttempt \<Rightarrow> str list \<Rightarrow> store \<Rightarrow> call list \<Rightarrow>
   (XError + (XAttempt \<times> str list \<times> XError option)) \<times> store \<times> call list" where
  "post_loop submit alert_id i [] attempt remote_ids s log = (Inr (attempt, remote_ids, None), s, log)"
| "post_loop submit alert_id i (post # posts) attempt remote_ids s log =
     (let log' = log @ [(post, last_option remote_ids)] in
      case submit log' of
        Inl e \<Rightarrow> (Inr (attempt, remote_ids, Some e), s, log')
      | Inr remote_id \<Rightarrow>
          (case record_post_segment alert_id i remote_id s of
             Inl e \<Rightarrow> (Inl (Core e), s, log')
           | Inr s1 \<Rightarrow>
               let attempt' = mark_segment i remote_id attempt in
               post_loop submit alert_id (Suc i) posts attempt' (remote_ids @ [remote_id])
                 (persist_attempt attempt' s1) log'))"

definition post_with_attempt ::
  "hash \<Rightarrow> transport \<Rightarrow> Draft \<Rightarrow> bool \<Rightarrow> str \<Rightarrow> store \<Rightarrow> call list \<Rightarrow>
   (XError + str list) \<times> store \<times> call list" where
  "post_with_attempt sha submit d confirmed posted_at s log =
     (if \<not> confirmed then (Inl NotConfirmed, s, log)
      else if approved_draft_digest (dr_alert_id d) s \<noteq> Some (draft_digest sha d)
      then (Inl NotApproved, s, log)
      else
        case guard_against_blind_retry (dr_alert_id d) s of
          Inl e \<Rightarrow> (Inl e, s, log)
        | Inr _ \<Rightarrow>
            if is_posted (dr_alert_id d) s then (Inl AlreadyPosted, s, log)
            else
              let attempt = new_attempt sha d posted_at in
              case insert_x_attempt attempt s of
                Inl e \<Rightarrow> (Inl (Core e), s, log)
              | Inr (_, s1) \<Rightarrow>
                  (case reserve_post (dr_alert_id d) s1 of
                     Inl e \<Rightarrow> (Inl (Core e), s1, log)
                   | Inr (False, s2) \<Rightarrow> (Inl AlreadyPosted, s2, log)
                   | Inr (True, s2) \<Rightarrow>
                       (case post_loop submit (dr_alert_id d) 0 (dr_posts d) attempt [] s2 log of
                          (Inl e, s3, log') \<Rightarrow> (Inl e, s3, log')
                        | (Inr (a, remote_ids, Some e), s3, log') \<Rightarrow>
                            (Inl e, persist_attempt (a\<lparr>xa_status := lit ''uncertain''\<rparr>) s3, log')
                        | (Inr (a, remote_ids, None), s3, log') \<Rightarrow>
                            (Inr remote_ids,
                             mark_posted (dr_alert_id d) remote_ids posted_at
                               (persist_attempt (a\<lparr>xa_status := lit ''complete''\<rparr>) s3),
                             log'))))"

section \<open>Reconciliation\<close>

definition reconciliation_of ::
  "hash \<Rightarrow> str \<Rightarrow> str \<Rightarrow> str option \<Rightarrow> str \<Rightarrow> str \<Rightarrow> str \<Rightarrow> XReconciliation" where
  "reconciliation_of sha attempt_id decision remote_id operator note_text decided_at =
     \<lparr>xr_id = stable_id sha (lit ''x-reconcile'') [attempt_id, decided_at], xr_attempt_id = attempt_id,
      xr_decision = decision, xr_remote_id = remote_id, xr_note = note_text, xr_operator = operator,
      xr_decided_at = decided_at\<rparr>"

text \<open>The branch for \<open>confirm_posted\<close>: the first segment without an identifier receives the given one.\<close>

definition confirm_posted :: "str option \<Rightarrow> XAttempt \<Rightarrow> str \<Rightarrow> (XError, XAttempt) op" where
  "confirm_posted remote_id attempt decided_at =
     bind_op
       (case (remote_id, find (\<lambda>g. seg_remote_id g = None) (xa_segments attempt)) of
          (Some rid, Some segment) \<Rightarrow>
            bind_op (unit_stmt Core (record_post_segment (xa_alert_id attempt) (unat (seg_index segment)) rid))
              (\<lambda>_. return_op (attempt\<lparr>xa_segments := update_first (\<lambda>g. seg_remote_id g = None)
                 (\<lambda>g. g\<lparr>seg_remote_id := Some rid\<rparr>) (xa_segments attempt)\<rparr>))
        | _ \<Rightarrow> return_op attempt)
       (\<lambda>a. let a' = a\<lparr>xa_segments := map (\<lambda>g. g\<lparr>seg_state := lit ''posted''\<rparr>) (xa_segments a),
                       xa_status := lit ''reconciled''\<rparr> in
            bind_op (unit_stmt Core (\<lambda>s. Inr (if \<not> is_posted (xa_alert_id a') s
                then mark_posted (xa_alert_id a') (List.map_filter seg_remote_id (xa_segments a')) decided_at s
                else s)))
              (\<lambda>_. return_op a'))"

definition clear_op :: "str \<Rightarrow> (XError, unit) op" where
  "clear_op alert_id = unit_stmt Core (\<lambda>s. Inr (clear_in_progress_reservation alert_id s))"

definition reconcile ::
  "hash \<Rightarrow> str \<Rightarrow> str \<Rightarrow> str option \<Rightarrow> str \<Rightarrow> str \<Rightarrow> str \<Rightarrow> (XError, XReconciliation) op" where
  "reconcile sha attempt_id decision remote_id operator note_text decided_at =
     bind_op (read_op (\<lambda>s. case x_attempt attempt_id s of Inl e \<Rightarrow> Inl (Core e) | Inr a \<Rightarrow> Inr a)) (\<lambda>attempt.
     let item = reconciliation_of sha attempt_id decision remote_id operator note_text decided_at in
     bind_op (stmt Core (insert_x_reconciliation item)) (\<lambda>_.
     bind_op
       (if decision = lit ''confirm_posted'' then confirm_posted remote_id attempt decided_at
        else if decision = lit ''confirm_none_posted'' then
          bind_op (clear_op (xa_alert_id attempt)) (\<lambda>_. return_op (attempt\<lparr>xa_status := lit ''reconciled''\<rparr>))
        else if decision = lit ''partial'' then
          bind_op (clear_op (xa_alert_id attempt)) (\<lambda>_. return_op (attempt\<lparr>xa_status := lit ''partial''\<rparr>))
        else if decision = lit ''abandon'' then return_op (attempt\<lparr>xa_status := lit ''abandoned''\<rparr>)
        else fail_op (UnsupportedDecision decision)) (\<lambda>a.
     bind_op (unit_stmt Core (\<lambda>s. Inr (persist_attempt a s))) (\<lambda>_. return_op item))))"

section \<open>Summaries\<close>

definition attempt_summary :: "XAttempt \<Rightarrow> str" where
  "attempt_summary a =
     join [10]
       ((lit ''attempt '' @ xa_id a @ lit '' '' @ mid_dot @ lit '' alert '' @ xa_alert_id a @ lit '' '' @
         mid_dot @ lit '' status '' @ xa_status a) #
        map (\<lambda>g. lit ''  segment '' @ show_nat (unat (seg_index g)) @ lit '' '' @ mid_dot @ lit '' '' @
          seg_state g @ lit '' '' @ mid_dot @ lit '' remote '' @
          (case seg_remote_id g of None \<Rightarrow> lit ''-'' | Some r \<Rightarrow> r)) (xa_segments a))"

definition attempt_status :: "str \<Rightarrow> store \<Rightarrow> XError + str" where
  "attempt_status attempt_id s =
     (case x_attempt attempt_id s of Inl e \<Rightarrow> Inl (Core e) | Inr a \<Rightarrow> Inr (attempt_summary a))"

section \<open>The loop: lemmas\<close>

lemma record_post_segment_fields:
  "record_post_segment a i rid s = Inr s' \<Longrightarrow>
     st_posts s' = st_posts s \<and> st_approvals s' = st_approvals s \<and> st_alerts s' = st_alerts s"
  by (auto simp: record_post_segment_def split: if_splits)

lemma persist_attempt_fields [simp]:
  "st_posts (persist_attempt x s) = st_posts s" "st_approvals (persist_attempt x s) = st_approvals s"
  by (simp_all add: persist_attempt_def)

lemma post_loop_posts:
  "post_loop submit a i posts att rids s log = (r, s', log') \<Longrightarrow> st_posts s' = st_posts s"
proof (induction posts arbitrary: i att rids s log)
  case (Cons p posts)
  then show ?case
    by (auto simp: Let_def split: sum.splits dest!: record_post_segment_fields)
qed simp

text \<open>The calls of a run are texts of the draft, in order and each once.\<close>

lemma post_loop_calls:
  "post_loop submit a i posts att rids s log = (r, s', log') \<Longrightarrow>
     \<exists>calls. log' = log @ calls \<and> map fst calls = take (length calls) posts"
proof (induction posts arbitrary: i att rids s log)
  case (Cons p posts)
  let ?log = "log @ [(p, last_option rids)]"
  show ?case
  proof (cases "submit ?log")
    case (Inl e)
    then show ?thesis using Cons.prems by (intro exI [of _ "[(p, last_option rids)]"]) (auto simp: Let_def)
  next
    case (Inr rid)
    show ?thesis
    proof (cases "record_post_segment a i rid s")
      case (Inl e)
      then show ?thesis using Cons.prems Inr
        by (intro exI [of _ "[(p, last_option rids)]"]) (auto simp: Let_def)
    next
      case (Inr s1)
      then have "post_loop submit a (Suc i) posts (mark_segment i rid att) (rids @ [rid])
          (persist_attempt (mark_segment i rid att) s1) ?log = (r, s', log')"
        using Cons.prems \<open>submit ?log = Inr rid\<close> by (simp add: Let_def)
      then obtain calls where "log' = ?log @ calls" "map fst calls = take (length calls) posts"
        using Cons.IH by blast
      then show ?thesis by (intro exI [of _ "(p, last_option rids) # calls"]) simp
    qed
  qed
qed simp

text \<open>A run without a transport error made every call, each replying to the post before it.\<close>

lemma post_loop_complete:
  "post_loop submit a i posts att rids s log = (Inr (att', rids', None), s', log') \<Longrightarrow>
     \<exists>calls new. log' = log @ calls \<and> rids' = rids @ new \<and> length calls = length posts \<and>
       length new = length posts \<and>
       (\<forall>k < length posts. calls ! k = (posts ! k, last_option (rids @ take k new)) \<and>
          submit (log @ take (Suc k) calls) = Inr (new ! k))"
proof (induction posts arbitrary: i att rids s log)
  case (Cons p posts)
  let ?log = "log @ [(p, last_option rids)]"
  from Cons.prems obtain rid s1 where rid: "submit ?log = Inr rid" "record_post_segment a i rid s = Inr s1"
    and rest: "post_loop submit a (Suc i) posts (mark_segment i rid att) (rids @ [rid])
          (persist_attempt (mark_segment i rid att) s1) ?log = (Inr (att', rids', None), s', log')"
    by (auto simp: Let_def split: sum.splits)
  from Cons.IH [OF rest] obtain calls new where c: "log' = ?log @ calls" "rids' = (rids @ [rid]) @ new"
    "length calls = length posts" "length new = length posts"
    "\<forall>k < length posts. calls ! k = (posts ! k, last_option ((rids @ [rid]) @ take k new)) \<and>
          submit (?log @ take (Suc k) calls) = Inr (new ! k)" by blast
  show ?case
  proof (intro exI conjI)
    show "log' = log @ ((p, last_option rids) # calls)" "rids' = rids @ (rid # new)"
      "length ((p, last_option rids) # calls) = length (p # posts)" "length (rid # new) = length (p # posts)"
      using c by simp_all
    show "\<forall>k < length (p # posts).
        ((p, last_option rids) # calls) ! k = ((p # posts) ! k, last_option (rids @ take k (rid # new))) \<and>
        submit (log @ take (Suc k) ((p, last_option rids) # calls)) = Inr ((rid # new) ! k)"
    proof (intro allI impI)
      fix k assume "k < length (p # posts)"
      then show "((p, last_option rids) # calls) ! k = ((p # posts) ! k, last_option (rids @ take k (rid # new))) \<and>
        submit (log @ take (Suc k) ((p, last_option rids) # calls)) = Inr ((rid # new) ! k)"
        using c(5) rid(1) by (cases k) simp_all
    qed
  qed
qed simp

lemma reserve_post_True:
  "reserve_post a s = Inr (True, s') \<Longrightarrow> \<not> is_posted a s \<and> is_posted a s' \<and>
     st_posts s' = st_posts s @ [\<lparr>post_alert_id = a, post_remote_ids = [], post_posted_at = in_progress\<rparr>]"
  by (auto simp: reserve_post_def is_posted_def split: if_splits)

lemma insert_x_attempt_fields:
  "insert_x_attempt x s = Inr (b, s') \<Longrightarrow> st_posts s' = st_posts s \<and> st_approvals s' = st_approvals s"
  by (auto simp: insert_x_attempt_def insert_or_ignore_def split: if_splits)

lemma is_posted_posts: "st_posts s' = st_posts s \<Longrightarrow> is_posted a s' = is_posted a s"
  by (simp add: is_posted_def)

lemma keys_update_by: "key ` set (update_by key r t) = key ` set t"
  by (metis map_key_update_by list.set_map)

lemma is_posted_mark [simp]: "is_posted b (mark_posted a rids at s) = is_posted b s"
  by (simp add: is_posted_def mark_posted_def keys_update_by)

text \<open>A run either makes no call and stops with an error, or goes through the reservation.\<close>

lemma post_with_attempt_cases:
  assumes "post_with_attempt sha submit d confirmed posted_at s log = (r, s', log')"
  obtains e where "r = Inl e" "log' = log" "st_posts s' = st_posts s"
  | b s1 s2 q s3 where "confirmed" "approved_draft_digest (dr_alert_id d) s = Some (draft_digest sha d)"
      "guard_against_blind_retry (dr_alert_id d) s = Inr ()" "\<not> is_posted (dr_alert_id d) s"
      "insert_x_attempt (new_attempt sha d posted_at) s = Inr (b, s1)"
      "reserve_post (dr_alert_id d) s1 = Inr (True, s2)"
      "post_loop submit (dr_alert_id d) 0 (dr_posts d) (new_attempt sha d posted_at) [] s2 log = (q, s3, log')"
      "(r, s') = (case q of Inl e \<Rightarrow> (Inl e, s3)
         | Inr (a, remote_ids, Some e) \<Rightarrow> (Inl e, persist_attempt (a\<lparr>xa_status := lit ''uncertain''\<rparr>) s3)
         | Inr (a, remote_ids, None) \<Rightarrow> (Inr remote_ids, mark_posted (dr_alert_id d) remote_ids posted_at
             (persist_attempt (a\<lparr>xa_status := lit ''complete''\<rparr>) s3)))"
proof -
  let ?a = "dr_alert_id d" and ?x = "new_attempt sha d posted_at"
  note run = assms [unfolded post_with_attempt_def Let_def]
  show thesis
  proof (cases "confirmed \<and> approved_draft_digest ?a s = Some (draft_digest sha d) \<and>
      guard_against_blind_retry ?a s = Inr () \<and> \<not> is_posted ?a s")
    case False
    then have "\<exists>e. r = Inl e \<and> log' = log \<and> s' = s"
      using run by (auto split: if_splits sum.splits)
    then show thesis using that(1) by blast
  next
    case True
    show thesis
    proof (cases "insert_x_attempt ?x s")
      case (Inl e)
      then show thesis using run True that(1) by auto
    next
      case (Inr bs)
      obtain b s1 where bs: "bs = (b, s1)" by fastforce
      have p1: "st_posts s1 = st_posts s" using insert_x_attempt_fields Inr bs by blast
      show thesis
      proof (cases "reserve_post ?a s1")
        case (Inl e)
        then show thesis using run True Inr bs p1 that(1) by auto
      next
        case res: (Inr cs)
        obtain c s2 where cs: "cs = (c, s2)" by fastforce
        show thesis
        proof (cases c)
          case False
          then have "s2 = s1" using res cs by (auto simp: reserve_post_def split: if_splits)
          then show thesis using run True Inr bs res cs False p1 that(1) by auto
        next
          case c: True
          obtain q s3 l3 where loop: "post_loop submit ?a 0 (dr_posts d) ?x [] s2 log = (q, s3, l3)"
            by (metis prod_cases3)
          have "l3 = log' \<and> (r, s') = (case q of Inl e \<Rightarrow> (Inl e, s3)
         | Inr (a, remote_ids, Some e) \<Rightarrow> (Inl e, persist_attempt (a\<lparr>xa_status := lit ''uncertain''\<rparr>) s3)
         | Inr (a, remote_ids, None) \<Rightarrow> (Inr remote_ids, mark_posted ?a remote_ids posted_at
             (persist_attempt (a\<lparr>xa_status := lit ''complete''\<rparr>) s3)))"
            using run True Inr bs res cs c loop
            by (cases q) (auto split: prod.splits option.splits)
          then have l: "l3 = log'" and e: "(r, s') = (case q of Inl e \<Rightarrow> (Inl e, s3)
         | Inr (a, remote_ids, Some e) \<Rightarrow> (Inl e, persist_attempt (a\<lparr>xa_status := lit ''uncertain''\<rparr>) s3)
         | Inr (a, remote_ids, None) \<Rightarrow> (Inr remote_ids, mark_posted ?a remote_ids posted_at
             (persist_attempt (a\<lparr>xa_status := lit ''complete''\<rparr>) s3)))" by blast+
          show thesis
          proof (rule that(2))
            show "confirmed" "approved_draft_digest ?a s = Some (draft_digest sha d)"
              "guard_against_blind_retry ?a s = Inr ()" "\<not> is_posted ?a s" using True by auto
            show "insert_x_attempt ?x s = Inr (b, s1)" using Inr bs by simp
            show "reserve_post ?a s1 = Inr (True, s2)" using res cs c by simp
            show "post_loop submit ?a 0 (dr_posts d) ?x [] s2 log = (q, s3, log')" using loop l by simp
          qed (rule e)
        qed
      qed
    qed
  qed
qed

lemma run_posts:
  assumes "post_loop submit a 0 posts att [] s2 log = (q, s3, log')"
    and "(r, s') = (case q of Inl e \<Rightarrow> (Inl e, s3)
         | Inr (x, remote_ids, Some e) \<Rightarrow> (Inl e, persist_attempt (x\<lparr>xa_status := lit ''uncertain''\<rparr>) s3)
         | Inr (x, remote_ids, None) \<Rightarrow> (Inr remote_ids, mark_posted a remote_ids posted_at
             (persist_attempt (x\<lparr>xa_status := lit ''complete''\<rparr>) s3)))"
  shows "is_posted b s' = is_posted b s2"
proof -
  have p: "st_posts s3 = st_posts s2" using assms(1) by (rule post_loop_posts)
  have 1: "is_posted b s3 = is_posted b s2" "is_posted b (persist_attempt x s3) = is_posted b s2" for x
    using p by (simp_all add: is_posted_def)
  show ?thesis
  proof (cases q)
    case (Inl e)
    then show ?thesis using assms(2) 1 by simp
  next
    case (Inr y)
    obtain x ids f where "y = (x, ids, f)" by (metis prod_cases3)
    then show ?thesis using assms(2) 1 Inr by (cases f) simp_all
  qed
qed

section \<open>Properties of posting\<close>

lemma calls_cleared:
  assumes "post_with_attempt sha submit d confirmed posted_at s log = (r, s', log')" "log' \<noteq> log"
  shows "confirmed \<and> approved_draft_digest (dr_alert_id d) s = Some (draft_digest sha d) \<and>
    guard_against_blind_retry (dr_alert_id d) s = Inr () \<and>
    \<not> is_posted (dr_alert_id d) s \<and> is_posted (dr_alert_id d) s' \<and>
    (\<exists>calls. log' = log @ calls \<and> map fst calls = take (length calls) (dr_posts d))"
  using assms(1)
proof (rule post_with_attempt_cases)
  assume "log' = log"
  then show ?thesis using assms(2) by simp
next
  fix b s1 s2 q s3
  assume clear: "confirmed" "approved_draft_digest (dr_alert_id d) s = Some (draft_digest sha d)"
      "guard_against_blind_retry (dr_alert_id d) s = Inr ()" "\<not> is_posted (dr_alert_id d) s"
    and res: "reserve_post (dr_alert_id d) s1 = Inr (True, s2)"
    and loop: "post_loop submit (dr_alert_id d) 0 (dr_posts d) (new_attempt sha d posted_at) [] s2 log = (q, s3, log')"
    and out: "(r, s') = (case q of Inl e \<Rightarrow> (Inl e, s3)
         | Inr (a, remote_ids, Some e) \<Rightarrow> (Inl e, persist_attempt (a\<lparr>xa_status := lit ''uncertain''\<rparr>) s3)
         | Inr (a, remote_ids, None) \<Rightarrow> (Inr remote_ids, mark_posted (dr_alert_id d) remote_ids posted_at
             (persist_attempt (a\<lparr>xa_status := lit ''complete''\<rparr>) s3)))"
  have "is_posted (dr_alert_id d) s'"
    using run_posts [OF loop out] reserve_post_True [OF res] by blast
  then show ?thesis using clear post_loop_calls [OF loop] by blast
qed

text \<open>
  C1: Nothing is sent without clearance: if a run makes any call at all, then the operator confirmed,
  the approval on record is for exactly this draft, the last attempt was resolved and nothing was
  posted before; the alert is reserved from then on, whatever happens; and the calls carry a prefix of
  the draft's posts, in order and each once.
\<close>

theorem calls_need_clearance:
  assumes "post_with_attempt sha submit d confirmed posted_at s log = (r, s', log')" "log' \<noteq> log"
  shows "confirmed \<and> approved_draft_digest (dr_alert_id d) s = Some (draft_digest sha d) \<and>
    guard_against_blind_retry (dr_alert_id d) s = Inr () \<and>
    \<not> is_posted (dr_alert_id d) s \<and> is_posted (dr_alert_id d) s' \<and>
    (\<exists>calls. log' = log @ calls \<and> map fst calls = take (length calls) (dr_posts d))"
  using assms by (rule calls_cleared)

text \<open>
  Steps of the store other than clearing the reservation of one alert: every other write, and the
  clearing of any other alert's reservation, is such a step.
\<close>

definition quiet_step :: "str \<Rightarrow> store \<Rightarrow> store \<Rightarrow> bool" where
  "quiet_step alert_id s s' \<longleftrightarrow> store_step s s' \<and> s' \<noteq> clear_in_progress_reservation alert_id s"

definition same_posts :: "store \<Rightarrow> store \<Rightarrow> bool" where
  "same_posts s s' \<longleftrightarrow> post_alert_id ` set (st_posts s) \<subseteq> post_alert_id ` set (st_posts s')"

lemma store_step_posts:
  "store_step s s' \<Longrightarrow> same_posts s s' \<or> (\<exists>a. s' = clear_in_progress_reservation a s)"
proof (induction rule: store_step.induct)
  case (step_row_set sha meta rows s s')
  then show ?case by (rule row_set_cases) (auto simp: same_posts_def dest!: insert_row_loop_spec)
next
  case (step_posted s' a rids at s)
  then show ?case by (simp add: same_posts_def mark_posted_def keys_update_by)
next
  case (step_clear s' a s)
  then show ?case by blast
qed (rule disjI1, auto simp: same_posts_def plain_insert_defs fk_insert_defs insert_or_ignore_def
    insert_evidence_def approve_def update_evidence_annotations_def record_source_fetch_def reserve_post_def
    record_post_segment_def persist_attempt_def update_cora_request_def insert_supplied_record_json_def
    split: if_splits sum.splits)

lemma clear_keeps_others:
  "b \<noteq> a \<Longrightarrow> is_posted a (clear_in_progress_reservation b s) = is_posted a s"
  by (auto simp: is_posted_def clear_in_progress_reservation_def image_iff)

lemma quiet_step_posted: "quiet_step a s s' \<Longrightarrow> is_posted a s \<Longrightarrow> is_posted a s'"
proof -
  assume quiet: "quiet_step a s s'" and posted: "is_posted a s"
  then consider "same_posts s s'" | b where "s' = clear_in_progress_reservation b s"
    using store_step_posts [of s s'] by (auto simp: quiet_step_def)
  then show "is_posted a s'"
  proof cases
    case 1
    then show ?thesis using posted by (auto simp: is_posted_def same_posts_def)
  next
    case (2 b)
    then have "b \<noteq> a" using quiet by (auto simp: quiet_step_def)
    then show ?thesis using 2 posted by (simp add: clear_keeps_others)
  qed
qed

lemma posted_stays:
  "(quiet_step a)\<^sup>*\<^sup>* s s' \<Longrightarrow> is_posted a s \<Longrightarrow> is_posted a s'"
  by (induction rule: rtranclp_induct) (auto intro: quiet_step_posted)

lemma no_call_if_posted:
  assumes "is_posted (dr_alert_id d) s"
  shows "\<exists>e. post_with_attempt sha submit d confirmed posted_at s log = (Inl e, s, log)"
  using assms by (auto simp: post_with_attempt_def split: sum.split)

text \<open>
  C2: At most one run per alert ever reaches the transport: once a run has made a call, however it
  ended, every later run for that alert, with any draft and any confirmation, is refused without a
  call and without a write, until an operator's reconciliation clears this alert's reservation.
  In between the store may take any other step, the clearing of other alerts' reservations included.
\<close>

theorem at_most_one_posting_run:
  assumes "post_with_attempt sha submit d confirmed posted_at s log = (r, s1, log1)" "log1 \<noteq> log"
    and "(quiet_step (dr_alert_id d))\<^sup>*\<^sup>* s1 s2" "dr_alert_id d' = dr_alert_id d"
  shows "\<exists>e. post_with_attempt sha' submit' d' confirmed' posted_at' s2 log2 = (Inl e, s2, log2)"
proof -
  have "is_posted (dr_alert_id d) s1"
    using assms(1)
  proof (rule post_with_attempt_cases)
    fix b s1' s2' q s3
    assume res: "reserve_post (dr_alert_id d) s1' = Inr (True, s2')"
      and loop: "post_loop submit (dr_alert_id d) 0 (dr_posts d) (new_attempt sha d posted_at) [] s2' log = (q, s3, log1)"
      and out: "(r, s1) = (case q of Inl e \<Rightarrow> (Inl e, s3)
         | Inr (a, remote_ids, Some e) \<Rightarrow> (Inl e, persist_attempt (a\<lparr>xa_status := lit ''uncertain''\<rparr>) s3)
         | Inr (a, remote_ids, None) \<Rightarrow> (Inr remote_ids, mark_posted (dr_alert_id d) remote_ids posted_at
             (persist_attempt (a\<lparr>xa_status := lit ''complete''\<rparr>) s3)))"
    show ?thesis using run_posts [OF loop out] reserve_post_True [OF res] by blast
  qed (use assms(2) in simp)
  then have "is_posted (dr_alert_id d') s2" using posted_stays [OF assms(3)] assms(4) by simp
  then show ?thesis by (rule no_call_if_posted)
qed

lemma successful_run:
  assumes "post_with_attempt sha submit d confirmed posted_at s log = (Inr ids, s', log')"
  shows "\<exists>calls. log' = log @ calls \<and> length calls = length (dr_posts d) \<and>
      length ids = length (dr_posts d) \<and>
      (\<forall>k < length (dr_posts d). calls ! k = (dr_posts d ! k, last_option (take k ids)) \<and>
         submit (log @ take (Suc k) calls) = Inr (ids ! k)) \<and>
      \<lparr>post_alert_id = dr_alert_id d, post_remote_ids = ids, post_posted_at = posted_at\<rparr> \<in> set (st_posts s')"
  using assms
proof (rule post_with_attempt_cases)
  fix b s1 s2 q s3
  assume res: "reserve_post (dr_alert_id d) s1 = Inr (True, s2)"
    and loop: "post_loop submit (dr_alert_id d) 0 (dr_posts d) (new_attempt sha d posted_at) [] s2 log = (q, s3, log')"
    and out: "(Inr ids, s') = (case q of Inl e \<Rightarrow> (Inl e, s3)
         | Inr (a, remote_ids, Some e) \<Rightarrow> (Inl e, persist_attempt (a\<lparr>xa_status := lit ''uncertain''\<rparr>) s3)
         | Inr (a, remote_ids, None) \<Rightarrow> (Inr remote_ids, mark_posted (dr_alert_id d) remote_ids posted_at
             (persist_attempt (a\<lparr>xa_status := lit ''complete''\<rparr>) s3)))"
  from out obtain a where q: "q = Inr (a, ids, None)"
    and s': "s' = mark_posted (dr_alert_id d) ids posted_at (persist_attempt (a\<lparr>xa_status := lit ''complete''\<rparr>) s3)"
    by (auto split: sum.splits option.splits)
  have posts: "st_posts s3 = st_posts s1 @
      [\<lparr>post_alert_id = dr_alert_id d, post_remote_ids = [], post_posted_at = in_progress\<rparr>]"
    using post_loop_posts [OF loop] reserve_post_True [OF res] by simp
  have row: "\<lparr>post_alert_id = dr_alert_id d, post_remote_ids = ids, post_posted_at = posted_at\<rparr> \<in> set (st_posts s')"
    by (simp add: s' mark_posted_def update_by_def posts)
  show ?thesis
    using post_loop_complete [OF loop [unfolded q]] row by auto
qed simp

text \<open>
  A successful run posted the whole draft as one reply chain: every post was sent once, in order,
  each as a reply to the one before; the result lists exactly the identifiers the transport answered
  with; and the post row holds them with the time of posting.
\<close>

theorem successful_run_posts_thread:
  assumes "post_with_attempt sha submit d confirmed posted_at s log = (Inr ids, s', log')"
  shows "\<exists>calls. log' = log @ calls \<and> length calls = length (dr_posts d) \<and>
      length ids = length (dr_posts d) \<and>
      (\<forall>k < length (dr_posts d). calls ! k = (dr_posts d ! k, last_option (take k ids)) \<and>
         submit (log @ take (Suc k) calls) = Inr (ids ! k)) \<and>
      \<lparr>post_alert_id = dr_alert_id d, post_remote_ids = ids, post_posted_at = posted_at\<rparr> \<in> set (st_posts s')"
  using assms by (rule successful_run)

section \<open>Properties of reconciliation\<close>

lemma confirm_posted_posts:
  assumes "confirm_posted remote_id attempt at s = (Inr a, s')"
  shows "st_posts s' = st_posts s"
proof -
  have mark: "\<not> is_posted b t \<Longrightarrow> mark_posted b ids at t = t" for b ids t
    by (simp add: mark_posted_def is_posted_def update_by_absent)
  show ?thesis
    using assms
    by (auto simp: confirm_posted_def op_Inr Let_def mark split: option.splits if_splits
        dest!: record_post_segment_fields)
qed

text \<open>
  Confirming that an uncertain attempt was posted never finalises the post: whatever the
  operator reports, the table of posts is unchanged, so the reservation stays in progress and the
  remote identifiers never reach it.
\<close>

theorem confirm_posted_leaves_reservation:
  assumes "reconcile sha attempt_id (lit ''confirm_posted'') remote_id op_name note_text at s = (Inr item, s')"
  shows "st_posts s' = st_posts s"
proof -
  have "insert_x_reconciliation x t = Inr (b, u) \<Longrightarrow> st_posts u = st_posts t" for x t b u
    by (auto simp: insert_x_reconciliation_def insert_or_ignore_def split: if_splits)
  then show ?thesis
    using assms
    by (auto simp: reconcile_def op_Inr Let_def split: sum.splits dest!: confirm_posted_posts)
qed

text \<open>
  Reporting that nothing, or only a part, was posted erases what was recorded of the posting: no
  segment row of the alert is left (not even those of posts that went out) and the reservation is gone.
\<close>

theorem partial_erases_segments:
  assumes "x_attempt attempt_id s = Inr attempt"
    and "decision \<in> {lit ''confirm_none_posted'', lit ''partial''}"
    and "reconcile sha attempt_id decision remote_id op_name note_text at s = (Inr item, s')"
  shows "post_segments (xa_alert_id attempt) s' = [] \<and>
    (\<forall>p \<in> set (st_posts s'). post_alert_id p = xa_alert_id attempt \<longrightarrow> post_posted_at p \<noteq> in_progress)"
proof -
  let ?clear = "clear_in_progress_reservation (xa_alert_id attempt)"
  from assms obtain t where t: "st_post_segments s' = st_post_segments (?clear t)" "st_posts s' = st_posts (?clear t)"
    by (auto simp: reconcile_def clear_op_def op_Inr Let_def persist_attempt_def)
  have "filter (\<lambda>g. pseg_alert_id g = xa_alert_id attempt) (st_post_segments (?clear t)) = []"
    by (simp add: clear_in_progress_reservation_def filter_empty_conv)
  then show ?thesis
    by (auto simp: post_segments_def select_where_def t clear_in_progress_reservation_def)
qed

section \<open>A run that is cleared succeeds\<close>

lemma post_loop_succeeds:
  assumes "\<forall>l. \<exists>rid. submit l = Inr rid" "is_posted a s"
    and "\<forall>g \<in> set (st_post_segments s). pseg_alert_id g = a \<longrightarrow> pseg_index g < i"
  shows "\<exists>att' ids s' log'. post_loop submit a i posts att rids s log = (Inr (att', ids, None), s', log')"
  using assms(2,3)
proof (induction posts arbitrary: i att rids s log)
  case (Cons p posts)
  let ?log = "log @ [(p, last_option rids)]"
  obtain rid where rid: "submit ?log = Inr rid" using assms(1) by blast
  let ?s1 = "s\<lparr>st_post_segments := st_post_segments s @
        [\<lparr>pseg_alert_id = a, pseg_index = i, pseg_remote_id = rid\<rparr>]\<rparr>"
  have "(a, i) \<notin> (\<lambda>g. (pseg_alert_id g, pseg_index g)) ` set (st_post_segments s)"
    using Cons.prems(2) by auto
  then have rec: "record_post_segment a i rid s = Inr ?s1"
    using Cons.prems(1) by (simp add: record_post_segment_def)
  let ?s2 = "persist_attempt (mark_segment i rid att) ?s1"
  have "is_posted a ?s2" using Cons.prems(1) by (simp add: is_posted_def)
  moreover have "\<forall>g \<in> set (st_post_segments ?s2). pseg_alert_id g = a \<longrightarrow> pseg_index g < Suc i"
    using Cons.prems(2) by (auto simp: persist_attempt_def less_SucI)
  ultimately show ?case using Cons.IH [of ?s2 "Suc i"] rid rec by (simp add: Let_def)
qed simp

lemma insert_x_attempt_ok:
  assumes "xa_alert_id x \<in> alt_id ` set (st_alerts s)"
  shows "\<exists>b s1. insert_x_attempt x s = Inr (b, s1) \<and> st_posts s1 = st_posts s \<and>
    st_alerts s1 = st_alerts s \<and> st_post_segments s1 = st_post_segments s"
  using assms by (cases "xa_id x \<in> xa_id ` set (st_x_attempts s)")
    (auto simp: insert_x_attempt_def insert_or_ignore_def)

lemma cleared_run:
  assumes "approved_draft_digest (dr_alert_id d) s = Some (draft_digest sha d)"
    and "guard_against_blind_retry (dr_alert_id d) s = Inr ()" "\<not> is_posted (dr_alert_id d) s"
    and "dr_alert_id d \<in> alt_id ` set (st_alerts s)"
    and "refers pseg_alert_id (st_post_segments s) post_alert_id (st_posts s)"
    and "\<forall>l. \<exists>rid. submit l = Inr rid"
  shows "\<exists>ids s' log'. post_with_attempt sha submit d True posted_at s log = (Inr ids, s', log')"
proof -
  let ?a = "dr_alert_id d" and ?x = "new_attempt sha d posted_at"
  obtain b s1 where ins: "insert_x_attempt ?x s = Inr (b, s1)"
    and s1: "st_posts s1 = st_posts s" "st_alerts s1 = st_alerts s" "st_post_segments s1 = st_post_segments s"
    using insert_x_attempt_ok [of ?x s] assms(4) by (auto simp: new_attempt_def)
  let ?s2 = "s1\<lparr>st_posts := st_posts s1 @
        [\<lparr>post_alert_id = ?a, post_remote_ids = [], post_posted_at = in_progress\<rparr>]\<rparr>"
  have res: "reserve_post ?a s1 = Inr (True, ?s2)"
    using assms(3,4) s1 by (simp add: reserve_post_def is_posted_def)
  have "\<forall>g \<in> set (st_post_segments s). pseg_alert_id g \<noteq> ?a"
    using assms(3,5) unfolding refers_def is_posted_def by (metis imageI subsetD)
  then have seg: "\<forall>g \<in> set (st_post_segments ?s2). pseg_alert_id g = ?a \<longrightarrow> pseg_index g < 0"
    using s1 by auto
  have "is_posted ?a ?s2" by (simp add: is_posted_def)
  from post_loop_succeeds [OF assms(6) this seg]
  obtain att ids s3 log' where "post_loop submit ?a 0 (dr_posts d) ?x [] ?s2 log = (Inr (att, ids, None), s3, log')"
    by blast
  then show ?thesis using assms(1-3) ins res by (simp add: post_with_attempt_def Let_def)
qed

text \<open>
  C29: With clearance, a recorded alert and a transport that answers, a run succeeds: no state the
  protocol itself can reach makes it refuse or stop half way.
\<close>

theorem cleared_run_succeeds:
  assumes "approved_draft_digest (dr_alert_id d) s = Some (draft_digest sha d)"
    and "guard_against_blind_retry (dr_alert_id d) s = Inr ()" "\<not> is_posted (dr_alert_id d) s"
    and "dr_alert_id d \<in> alt_id ` set (st_alerts s)"
    and "refers pseg_alert_id (st_post_segments s) post_alert_id (st_posts s)"
    and "\<forall>l. \<exists>rid. submit l = Inr rid"
  shows "\<exists>ids s' log'. post_with_attempt sha submit d True posted_at s log = (Inr ids, s', log')"
  using assms by (rule cleared_run)

definition sample_draft :: Draft where
  "sample_draft = \<lparr>dr_alert_id = lit ''a1'', dr_posts = [lit ''first'', lit ''second'']\<rparr>"

definition echo :: transport where
  "echo l = Inr (show_nat (length l))"

definition cleared_store :: store where
  "cleared_store = empty_store\<lparr>st_alerts := [sample_alert],
     st_approvals := [\<lparr>app_alert_id = lit ''a1'', app_draft_digest = draft_digest id_hash sample_draft,
       app_approved_at = []\<rparr>]\<rparr>"

lemma cleared_store_clear:
  "approved_draft_digest (dr_alert_id sample_draft) cleared_store = Some (draft_digest id_hash sample_draft)"
  "guard_against_blind_retry (dr_alert_id sample_draft) cleared_store = Inr ()"
  "\<not> is_posted (dr_alert_id sample_draft) cleared_store"
  "dr_alert_id sample_draft \<in> alt_id ` set (st_alerts cleared_store)"
  "refers pseg_alert_id (st_post_segments cleared_store) post_alert_id (st_posts cleared_store)"
proof -
  have f: "st_approvals cleared_store = [\<lparr>app_alert_id = lit ''a1'', app_draft_digest = draft_digest id_hash sample_draft,
       app_approved_at = []\<rparr>]" "st_x_attempts cleared_store = []" "st_posts cleared_store = []"
    "st_alerts cleared_store = [sample_alert]" "st_post_segments cleared_store = []"
    by (simp_all add: cleared_store_def empty_store_def)
  have a: "dr_alert_id sample_draft = lit ''a1''" "alt_id sample_alert = lit ''a1''"
    by (simp_all add: sample_draft_def sample_alert_def)
  show "approved_draft_digest (dr_alert_id sample_draft) cleared_store = Some (draft_digest id_hash sample_draft)"
    by (simp add: approved_draft_digest_def f a)
  show "guard_against_blind_retry (dr_alert_id sample_draft) cleared_store = Inr ()"
    by (simp add: guard_against_blind_retry_def attempts_for_alert_def x_attempts_for_alert_def f
        select_where_def last_option_def)
  show "\<not> is_posted (dr_alert_id sample_draft) cleared_store" by (simp add: is_posted_def f)
  show "dr_alert_id sample_draft \<in> alt_id ` set (st_alerts cleared_store)" by (simp add: f a)
  show "refers pseg_alert_id (st_post_segments cleared_store) post_alert_id (st_posts cleared_store)"
    by (simp add: f)
qed

lemma echo_answers: "\<forall>l. \<exists>rid. echo l = Inr rid"
  by (simp add: echo_def)

theorem cleared_run_succeeds_witness:
  "\<exists>ids s' log'. post_with_attempt id_hash echo sample_draft True (lit ''t'') cleared_store [] = (Inr ids, s', log')"
  by (rule cleared_run_succeeds) (rule cleared_store_clear echo_answers)+

text \<open>The same run, for the other witnesses.\<close>

definition sample_run :: "(XError + str list) \<times> store \<times> call list" where
  "sample_run = post_with_attempt id_hash echo sample_draft True (lit ''t'') cleared_store []"

lemma sample_run_calls:
  obtains ids s' log' where "sample_run = (Inr ids, s', log')" "log' \<noteq> []" "is_posted (lit ''a1'') s'"
proof -
  obtain ids s' log' where run: "sample_run = (Inr ids, s', log')"
    using cleared_run [OF cleared_store_clear echo_answers] unfolding sample_run_def by blast
  have "length (dr_posts sample_draft) = 2" by (simp add: sample_draft_def)
  moreover have "\<exists>calls. log' = calls \<and> length calls = length (dr_posts sample_draft)"
    using successful_run [OF run [unfolded sample_run_def]] by auto
  ultimately have "log' \<noteq> []" by auto
  moreover have "is_posted (lit ''a1'') s'"
    using calls_cleared [OF run [unfolded sample_run_def] \<open>log' \<noteq> []\<close>] by (simp add: sample_draft_def)
  ultimately show thesis using run that by blast
qed

theorem calls_need_clearance_witness:
  "\<exists>r s' log'. sample_run = (r, s', log') \<and> log' \<noteq> [] \<and> is_posted (lit ''a1'') s'"
proof -
  obtain ids s' log' where run: "sample_run = (Inr ids, s', log')" "log' \<noteq> []" by (rule sample_run_calls)
  have "dr_alert_id sample_draft = lit ''a1''" by (simp add: sample_draft_def)
  then have "is_posted (lit ''a1'') s'"
    using calls_need_clearance [OF run(1) [unfolded sample_run_def] run(2)] by simp
  then show ?thesis using run by blast
qed

lemma fetch_recorded: "(src, now) \<in> set (st_source_fetches (record_source_fetch src now s))"
proof (cases "src \<in> fst ` set (st_source_fetches s)")
  case True
  then obtain t where "(src, t) \<in> set (st_source_fetches s)" by force
  then show ?thesis using True by (force simp: record_source_fetch_def update_by_def)
qed (simp add: record_source_fetch_def)

lemma fetched_is_quiet:
  assumes "st_source_fetches (record_source_fetch src now s) \<noteq> st_source_fetches s"
  shows "quiet_step a s (record_source_fetch src now s)"
proof -
  have "store_step s (record_source_fetch src now s)" by (rule step_fetched) (rule refl)
  moreover have "st_source_fetches (clear_in_progress_reservation a s) = st_source_fetches s"
    by (simp add: clear_in_progress_reservation_def)
  ultimately show ?thesis using assms by (metis quiet_step_def)
qed

theorem at_most_one_posting_run_witness:
  "\<exists>r s1 s2 log1 now e. sample_run = (r, s1, log1) \<and> log1 \<noteq> [] \<and>
     s2 = record_source_fetch (lit ''legistar'') now s1 \<and> s2 \<noteq> s1 \<and>
     post_with_attempt id_hash echo sample_draft True (lit ''later'') s2 log1 = (Inl e, s2, log1)"
proof -
  obtain ids s1 log1 where run: "sample_run = (Inr ids, s1, log1)" "log1 \<noteq> []" by (rule sample_run_calls)
  obtain now where now: "now \<notin> snd ` set (st_source_fetches s1)"
    using ex_new_if_finite [of "snd ` set (st_source_fetches s1)"] by auto
  define s2 where "s2 = record_source_fetch (lit ''legistar'') now s1"
  have "(lit ''legistar'', now) \<in> set (st_source_fetches s2)"
    unfolding s2_def by (rule fetch_recorded)
  then have new: "st_source_fetches s2 \<noteq> st_source_fetches s1" using now by force
  then have "quiet_step (dr_alert_id sample_draft) s1 s2"
    using fetched_is_quiet [of "lit ''legistar''" now s1] by (simp add: s2_def)
  then have quiet: "(quiet_step (dr_alert_id sample_draft))\<^sup>*\<^sup>* s1 s2" by (rule r_into_rtranclp)
  obtain e where "post_with_attempt id_hash echo sample_draft True (lit ''later'') s2 log1 = (Inl e, s2, log1)"
    using at_most_one_posting_run [OF run(1) [unfolded sample_run_def] run(2) quiet refl] by (rule exE)
  moreover have "s2 \<noteq> s1" using new by (rule contrapos_nn) simp
  ultimately show ?thesis using run s2_def
    by (intro exI [of _ "Inr ids"] exI [of _ s1] exI [of _ s2] exI [of _ log1] exI [of _ now] exI [of _ e] conjI)
qed

theorem successful_run_posts_thread_witness:
  "\<exists>ids s' log'. sample_run = (Inr ids, s', log') \<and> length ids = 2 \<and> map fst log' = dr_posts sample_draft"
proof -
  obtain ids s' log' where run: "sample_run = (Inr ids, s', log')" by (rule sample_run_calls)
  have two: "length (dr_posts sample_draft) = 2" by (simp add: sample_draft_def)
  from successful_run_posts_thread [OF run [unfolded sample_run_def]]
  have "length log' = 2" "length ids = 2" "\<forall>k < 2. fst (log' ! k) = dr_posts sample_draft ! k"
    using two by auto
  moreover from this have "map fst log' = dr_posts sample_draft"
    using two by (intro nth_equalityI) simp_all
  ultimately show ?thesis using run by blast
qed

section \<open>A reconciliation of the sample attempt\<close>

definition stuck_attempt :: XAttempt where
  "stuck_attempt = \<lparr>xa_id = lit ''x1'', xa_alert_id = lit ''a1'', xa_draft_digest = [], xa_started_at = [],
     xa_status = lit ''uncertain'', xa_segments = []\<rparr>"

definition stuck_store :: store where
  "stuck_store = cleared_store\<lparr>st_x_attempts := [stuck_attempt],
     st_posts := [\<lparr>post_alert_id = lit ''a1'', post_remote_ids = [], post_posted_at = in_progress\<rparr>]\<rparr>"

lemma stuck_facts:
  "x_attempt (lit ''x1'') stuck_store = Inr stuck_attempt"
  "\<exists>t. insert_x_reconciliation (reconciliation_of id_hash (lit ''x1'') dec None [] [] []) stuck_store = Inr (True, t)"
proof -
  show "x_attempt (lit ''x1'') stuck_store = Inr stuck_attempt"
    by (simp add: x_attempt_def read_row_def stuck_store_def stuck_attempt_def)
  have "st_x_reconciliations stuck_store = []" "st_x_attempts stuck_store = [stuck_attempt]"
    by (simp_all add: stuck_store_def cleared_store_def empty_store_def)
  then show "\<exists>t. insert_x_reconciliation (reconciliation_of id_hash (lit ''x1'') dec None [] [] []) stuck_store = Inr (True, t)"
    by (simp add: insert_x_reconciliation_def insert_or_ignore_def reconciliation_of_def stuck_attempt_def)
qed

lemma stuck_confirm:
  "\<exists>s'. reconcile id_hash (lit ''x1'') (lit ''confirm_posted'') None [] [] [] stuck_store =
     (Inr (reconciliation_of id_hash (lit ''x1'') (lit ''confirm_posted'') None [] [] []), s')"
proof -
  obtain t where t: "insert_x_reconciliation (reconciliation_of id_hash (lit ''x1'') (lit ''confirm_posted'') None [] [] [])
      stuck_store = Inr (True, t)" using stuck_facts(2) by blast
  show ?thesis
    by (simp add: reconcile_def bind_op_def read_op_def stmt_def unit_stmt_def return_op_def stuck_facts(1) t
        confirm_posted_def Let_def)
qed

lemma stuck_partial:
  "\<exists>s'. reconcile id_hash (lit ''x1'') (lit ''partial'') None [] [] [] stuck_store =
     (Inr (reconciliation_of id_hash (lit ''x1'') (lit ''partial'') None [] [] []), s')"
proof -
  obtain t where t: "insert_x_reconciliation (reconciliation_of id_hash (lit ''x1'') (lit ''partial'') None [] [] [])
      stuck_store = Inr (True, t)" using stuck_facts(2) by blast
  show ?thesis
    by (simp add: reconcile_def bind_op_def read_op_def stmt_def unit_stmt_def return_op_def stuck_facts(1) t
        clear_op_def Let_def)
qed

theorem confirm_posted_leaves_reservation_witness:
  "\<exists>item s'. reconcile id_hash (lit ''x1'') (lit ''confirm_posted'') None [] [] [] stuck_store = (Inr item, s') \<and>
     map post_posted_at (st_posts s') = [in_progress]"
proof -
  obtain s' where run: "reconcile id_hash (lit ''x1'') (lit ''confirm_posted'') None [] [] [] stuck_store =
     (Inr (reconciliation_of id_hash (lit ''x1'') (lit ''confirm_posted'') None [] [] []), s')"
    using stuck_confirm by blast
  from confirm_posted_leaves_reservation [OF run] have "map post_posted_at (st_posts s') = [in_progress]"
    by (simp add: stuck_store_def)
  with run show ?thesis by (intro exI conjI)
qed

theorem partial_erases_segments_witness:
  "\<exists>item s'. reconcile id_hash (lit ''x1'') (lit ''partial'') None [] [] [] stuck_store = (Inr item, s') \<and>
     post_segments (lit ''a1'') s' = []"
proof -
  obtain s' where run: "reconcile id_hash (lit ''x1'') (lit ''partial'') None [] [] [] stuck_store =
     (Inr (reconciliation_of id_hash (lit ''x1'') (lit ''partial'') None [] [] []), s')"
    using stuck_partial by blast
  have "lit ''partial'' \<in> {lit ''confirm_none_posted'', lit ''partial''}" by simp
  from partial_erases_segments [OF stuck_facts(1) this run] have "post_segments (lit ''a1'') s' = []"
    by (simp add: stuck_attempt_def)
  with run show ?thesis by (intro exI conjI)
qed

end
