(* ===== verification/Threads.thy ===== *)
theory Threads
  imports Posting
begin

text \<open>
  What \<open>split_thread\<close> of \<open>pnull-x/src/lib.rs\<close> guarantees: the limits of a thread and that no word of
  the text is lost, added or moved.
\<close>

section \<open>Words of a text\<close>

lemma split_by_append:
  "p c \<Longrightarrow> split_by p (a @ c # b) = split_by p a @ split_by p b"
proof (induction a)
  case (Cons x a)
  have "cons_head x (ws @ vs) = cons_head x ws @ vs" if "ws \<noteq> []" for ws vs
    using that by (cases ws) simp_all
  then show ?case using Cons by simp
qed simp

lemma split_by_pieces: "w \<in> set (split_by p s) \<Longrightarrow> list_all (\<lambda>c. \<not> p c) w"
proof (induction s arbitrary: w)
  case (Cons c s)
  show ?case
  proof (cases "p c")
    case False
    then show ?thesis using Cons by (cases "split_by p s") auto
  qed (use Cons in auto)
qed simp

lemma words_sep [simp]: "is_ws c \<Longrightarrow> split_whitespace (a @ c # b) = split_whitespace a @ split_whitespace b"
  by (simp add: split_whitespace_def split_by_append)

lemma words_Nil [simp]: "split_whitespace [] = []"
  by (simp add: split_whitespace_def)

definition plain_word :: "str \<Rightarrow> bool" where
  "plain_word w \<longleftrightarrow> w \<noteq> [] \<and> list_all (\<lambda>c. \<not> is_ws c) w"

lemma words_plain: "list_all plain_word (split_whitespace s)"
  by (auto simp: split_whitespace_def list_all_iff plain_word_def dest: split_by_pieces)

lemma words_word: "plain_word w \<Longrightarrow> split_whitespace w = [w]"
  by (simp add: plain_word_def split_whitespace_def split_by_no_sep)

lemma newline_ws [simp]: "is_ws 10" "is_ws 32"
  by (simp_all add: is_ws_def)

lemma words_sep_left: "is_ws c \<Longrightarrow> split_whitespace (c # b) = split_whitespace b"
  using words_sep [of c "[]" b] by simp

lemma space_lit: "lit '' '' = [32]"
  by (simp add: lit_def)

section \<open>The chunks keep the words\<close>

definition words_of :: "str list \<Rightarrow> str list" where
  "words_of chunks = concat (map split_whitespace chunks)"

lemma words_of_simps [simp]:
  "words_of [] = []" "words_of (c # cs) = split_whitespace c @ words_of cs"
  "words_of (cs @ ds) = words_of cs @ words_of ds"
  by (simp_all add: words_of_def)

lemma split_words_loop_words:
  "split_words_loop t ws cur out = Inr chunks \<Longrightarrow> list_all plain_word ws \<Longrightarrow>
     words_of chunks = words_of out @ split_whitespace cur @ ws"
proof (induction t ws cur out rule: split_words_loop.induct)
  case (2 t w ws cur out)
  have w: "split_whitespace w = [w]" using 2(4) by (simp add: words_word)
  then show ?case
    using 2 by (auto simp: space_lit words_sep_left split: if_splits)
qed (auto split: if_splits)

lemma thread_loop_words:
  "thread_loop ps chunks cur = Inr out \<Longrightarrow>
     words_of out = words_of chunks @ split_whitespace cur @ words_of ps"
proof (induction ps chunks cur rule: thread_loop.induct)
  case (2 p ps chunks cur)
  show ?case
  proof (cases "length cur + (length p + (if cur \<noteq> [] then 2 else 0)) \<le> CHUNK_TARGET")
    case True
    then show ?thesis using 2(1) [OF True] 2(4) by (cases "cur = []") (simp_all add: words_sep_left)
  next
    case big: False
    let ?c = "if cur \<noteq> [] then chunks @ [cur] else chunks"
    have c: "words_of ?c = words_of chunks @ split_whitespace cur" by simp
    show ?thesis
    proof (cases "length p \<le> CHUNK_TARGET")
      case True
      then show ?thesis using 2(2) [OF big refl True] 2(4) big c by (simp add: Let_def del: words_of_simps(3))
    next
      case False
      then obtain mid where mid: "split_words p CHUNK_TARGET ?c = Inr mid" "thread_loop ps mid [] = Inr out"
        using 2(4) big by (auto simp: Let_def split: sum.splits)
      have "words_of mid = words_of ?c @ split_whitespace p"
        using split_words_loop_words [OF mid(1) [unfolded split_words_def]] words_plain by simp
      then show ?thesis using 2(3) [OF big refl False mid(1) mid(2)] c by simp
    qed
  qed
qed (auto split: if_splits)

lemma join_split_nn: "join [10, 10] (split_nn s) = s"
proof (induction s rule: split_nn.induct)
  case (3 c d cs)
  have head: "join [10, 10] (cons_head c ws) = c # join [10, 10] ws" if "ws \<noteq> []" for ws
    using that by (cases ws rule: join.cases [of "([10, 10], ws)" for ws]) auto
  show ?case
  proof (cases "c = 10 \<and> d = 10")
    case True
    have "join [10, 10] ([] # split_nn cs) = 10 # 10 # join [10, 10] (split_nn cs)"
      by (cases "split_nn cs") simp_all
    then show ?thesis using 3(1) True by simp
  next
    case False
    then have "split_nn (c # d # cs) = cons_head c (split_nn (d # cs))" by auto
    then show ?thesis using 3(2) [OF False] head by simp
  qed
qed simp_all

lemma words_join: "split_whitespace (join [10, 10] ps) = words_of ps"
proof (induction "[10, 10] :: str" ps rule: join.induct)
  case (3 w v ws)
  then show ?case by (simp add: words_sep_left)
qed simp_all

lemma words_split_nn: "words_of (split_nn s) = split_whitespace s"
  using words_join [of "split_nn s"] by (simp add: join_split_nn)

section \<open>Properties\<close>

text \<open>
  C30: A thread respects the limits and loses nothing: it has between one and eight posts of at most
  280 characters; and, the part counters aside, its posts carry exactly the words of the text, in
  order.
\<close>

theorem split_thread_keeps_words:
  assumes "split_thread text = Inr posts"
  shows "posts \<noteq> [] \<and> length posts \<le> 8 \<and> (\<forall>post \<in> set posts. length post \<le> 280) \<and>
    (\<exists>chunks. words_of chunks = split_whitespace text \<and>
       (posts = chunks \<or> posts = map (number_chunk (length chunks)) (enumerate 0 chunks)))"
proof (cases "length text \<le> X_CHARACTER_LIMIT")
  case True
  then show ?thesis using assms by (auto simp: split_thread_def X_CHARACTER_LIMIT_def intro!: exI [of _ "[text]"])
next
  case False
  then obtain chunks where loop: "thread_loop (split_nn text) [] [] = Inr chunks"
    and n: "length chunks \<le> 8" "chunks \<noteq> []"
    and posts: "posts = map (number_chunk (length chunks)) (enumerate 0 chunks)"
    and len: "\<not> list_ex (\<lambda>post. length post > X_CHARACTER_LIMIT) posts"
    using assms by (auto simp: split_thread_def Let_def split: sum.splits if_splits)
  have "words_of chunks = split_whitespace text"
    using thread_loop_words [OF loop] by (simp add: words_split_nn)
  moreover have "length posts = length chunks" by (simp add: posts)
  then have "posts \<noteq> []" "length posts \<le> 8" using n by auto
  moreover note this
  moreover have "\<forall>post \<in> set posts. length post \<le> 280"
    using len by (auto simp: list_ex_iff X_CHARACTER_LIMIT_def not_less)
  ultimately show ?thesis using posts by blast
qed

theorem split_thread_keeps_words_witness:
  "split_thread (lit ''one  two'') = Inr [lit ''one  two''] \<and>
   list_all (\<lambda>post. length post \<le> 280) [lit ''one  two'']"
proof -
  have "split_thread (lit ''one  two'') = Inr [lit ''one  two'']"
    by (simp add: split_thread_def X_CHARACTER_LIMIT_def)
  then show ?thesis using split_thread_keeps_words unfolding list_all_iff by blast
qed

end
