(* ===== verification/Budget.thy ===== *)
theory Budget
  imports Prelude "HOL-Library.Word"
begin

text \<open>
  The aggregate budgets of an ingestion job (\<open>pnull-ingest/src/budget.rs\<close>): eight counters that add
  with saturation and refuse when they exceed their limits.
\<close>

section \<open>Counters\<close>

text \<open>\<open>saturating_add\<close> on \<open>u32\<close> and \<open>u64\<close>.\<close>

definition saturating_add :: "'a::len word \<Rightarrow> 'a word \<Rightarrow> 'a word" where
  "saturating_add a b = (if unat a + unat b < 2 ^ LENGTH('a) then a + b else - 1)"

datatype BudgetError =
  DownloadedBytes "64 word" "64 word"
| Attachments "32 word"
| PdfPages "32 word"
| OcrPages "32 word"
| ExtractedBytes "64 word" "64 word"
| ChildProcesses "32 word"
| CpuSeconds "64 word"
| WallSeconds "64 word"

record JobBudgets =
  max_total_downloaded_bytes :: "64 word"
  max_total_attachments :: "32 word"
  max_total_pdf_pages :: "32 word"
  max_total_ocr_pages :: "32 word"
  max_total_extracted_bytes :: "64 word"
  max_total_child_processes :: "32 word"
  max_total_cpu_seconds :: "64 word"
  max_total_wall_seconds :: "64 word"

definition default_budgets :: JobBudgets where
  "default_budgets =
     \<lparr>max_total_downloaded_bytes = 200 * 1024 * 1024,
      max_total_attachments = 200,
      max_total_pdf_pages = 2000,
      max_total_ocr_pages = 50,
      max_total_extracted_bytes = 50 * 1024 * 1024,
      max_total_child_processes = 2000,
      max_total_cpu_seconds = 600,
      max_total_wall_seconds = 600\<rparr>"

record JobBudgetTracker =
  jt_budgets :: JobBudgets
  jt_downloaded_bytes :: "64 word"
  jt_attachments :: "32 word"
  jt_pdf_pages :: "32 word"
  jt_ocr_pages :: "32 word"
  jt_extracted_bytes :: "64 word"
  jt_child_processes :: "32 word"
  jt_cpu_seconds :: "64 word"
  jt_wall_seconds :: "64 word"

definition new_tracker :: "JobBudgets \<Rightarrow> JobBudgetTracker" where
  "new_tracker budgets =
     \<lparr>jt_budgets = budgets, jt_downloaded_bytes = 0, jt_attachments = 0, jt_pdf_pages = 0,
      jt_ocr_pages = 0, jt_extracted_bytes = 0, jt_child_processes = 0,
      jt_cpu_seconds = 0, jt_wall_seconds = 0\<rparr>"

type_synonym charged = "(BudgetError + unit) \<times> JobBudgetTracker"

definition add_downloaded_bytes :: "64 word \<Rightarrow> JobBudgetTracker \<Rightarrow> charged" where
  "add_downloaded_bytes amount t =
     (let observed = saturating_add (jt_downloaded_bytes t) amount; t' = t\<lparr>jt_downloaded_bytes := observed\<rparr> in
      if observed > max_total_downloaded_bytes (jt_budgets t) then (Inl (DownloadedBytes (max_total_downloaded_bytes (jt_budgets t)) observed), t')
      else (Inr (), t'))"

definition add_attachment :: "JobBudgetTracker \<Rightarrow> charged" where
  "add_attachment t =
     (let observed = saturating_add (jt_attachments t) 1; t' = t\<lparr>jt_attachments := observed\<rparr> in
      if observed > max_total_attachments (jt_budgets t) then (Inl (Attachments (max_total_attachments (jt_budgets t))), t')
      else (Inr (), t'))"

definition add_pdf_pages :: "32 word \<Rightarrow> JobBudgetTracker \<Rightarrow> charged" where
  "add_pdf_pages amount t =
     (let observed = saturating_add (jt_pdf_pages t) amount; t' = t\<lparr>jt_pdf_pages := observed\<rparr> in
      if observed > max_total_pdf_pages (jt_budgets t) then (Inl (PdfPages (max_total_pdf_pages (jt_budgets t))), t')
      else (Inr (), t'))"

definition add_ocr_pages :: "32 word \<Rightarrow> JobBudgetTracker \<Rightarrow> charged" where
  "add_ocr_pages amount t =
     (let observed = saturating_add (jt_ocr_pages t) amount; t' = t\<lparr>jt_ocr_pages := observed\<rparr> in
      if observed > max_total_ocr_pages (jt_budgets t) then (Inl (OcrPages (max_total_ocr_pages (jt_budgets t))), t')
      else (Inr (), t'))"

definition add_extracted_bytes :: "64 word \<Rightarrow> JobBudgetTracker \<Rightarrow> charged" where
  "add_extracted_bytes amount t =
     (let observed = saturating_add (jt_extracted_bytes t) amount; t' = t\<lparr>jt_extracted_bytes := observed\<rparr> in
      if observed > max_total_extracted_bytes (jt_budgets t) then (Inl (ExtractedBytes (max_total_extracted_bytes (jt_budgets t)) observed), t')
      else (Inr (), t'))"

definition add_child_process :: "JobBudgetTracker \<Rightarrow> charged" where
  "add_child_process t =
     (let observed = saturating_add (jt_child_processes t) 1; t' = t\<lparr>jt_child_processes := observed\<rparr> in
      if observed > max_total_child_processes (jt_budgets t) then (Inl (ChildProcesses (max_total_child_processes (jt_budgets t))), t')
      else (Inr (), t'))"

definition add_cpu_seconds :: "64 word \<Rightarrow> JobBudgetTracker \<Rightarrow> charged" where
  "add_cpu_seconds amount t =
     (let observed = saturating_add (jt_cpu_seconds t) amount; t' = t\<lparr>jt_cpu_seconds := observed\<rparr> in
      if observed > max_total_cpu_seconds (jt_budgets t) then (Inl (CpuSeconds (max_total_cpu_seconds (jt_budgets t))), t')
      else (Inr (), t'))"

definition add_wall_seconds :: "64 word \<Rightarrow> JobBudgetTracker \<Rightarrow> charged" where
  "add_wall_seconds amount t =
     (let observed = saturating_add (jt_wall_seconds t) amount; t' = t\<lparr>jt_wall_seconds := observed\<rparr> in
      if observed > max_total_wall_seconds (jt_budgets t) then (Inl (WallSeconds (max_total_wall_seconds (jt_budgets t))), t')
      else (Inr (), t'))"

section \<open>One counter\<close>

text \<open>
  What every counter promises: it holds the sum of what was charged, cut at the largest value its width
  holds; the limits and the other counters stay; and a charge is accepted exactly when the counter ends
  up within its limit.
\<close>

locale budget_counter =
  fixes count :: "JobBudgetTracker \<Rightarrow> nat"
    and limit :: "JobBudgets \<Rightarrow> nat"
    and cap :: nat
    and amount :: "'c \<Rightarrow> nat"
    and charge :: "'c \<Rightarrow> JobBudgetTracker \<Rightarrow> charged"
  assumes count_charge: "count (snd (charge c t)) = min (count t + amount c) cap"
    and budgets_charge: "jt_budgets (snd (charge c t)) = jt_budgets t"
    and accepted: "fst (charge c t) = Inr () \<longleftrightarrow> count (snd (charge c t)) \<le> limit (jt_budgets t)"
    and limit_cap: "limit b \<le> cap"
begin

lemma accepted_total:
  "fst (charge c t) = Inr () \<longleftrightarrow>
     (count t + amount c \<le> limit (jt_budgets t) \<or> limit (jt_budgets t) = cap)"
  using limit_cap [of "jt_budgets t"] by (auto simp: accepted count_charge)

end

lemma unat_saturating_add:
  "unat (saturating_add a b) = min (unat a + unat b) (2 ^ LENGTH('a) - 1)"
  for a b :: "'a::len word"
proof (cases "unat a + unat b < 2 ^ LENGTH('a)")
  case True
  then have "unat (a + b) = unat a + unat b" by (simp add: unat_word_ariths)
  with True show ?thesis by (simp add: saturating_add_def)
next
  case False
  then show ?thesis
    by (simp add: saturating_add_def unsigned_minus_1_eq_mask mask_eq_exp_minus_1)
qed

lemma unat_le_max: "unat (w :: 'a::len word) \<le> 2 ^ LENGTH('a) - 1"
  using unsigned_less [of w, where 'a = nat] by arith

interpretation downloaded_bytes: budget_counter "\<lambda>t. unat (jt_downloaded_bytes t)" "\<lambda>b. unat (max_total_downloaded_bytes b)" "2 ^ 64 - 1"
    "unat" add_downloaded_bytes
proof
  show "unat (max_total_downloaded_bytes b) \<le> 2 ^ 64 - 1" for b
    using unat_le_max [of "max_total_downloaded_bytes b"] by simp
qed (auto simp: add_downloaded_bytes_def Let_def unat_saturating_add word_less_nat_alt not_less min_def)

interpretation attachments: budget_counter "\<lambda>t. unat (jt_attachments t)" "\<lambda>b. unat (max_total_attachments b)" "2 ^ 32 - 1"
    "\<lambda>_ :: unit. 1" "\<lambda>_. add_attachment"
proof
  show "unat (max_total_attachments b) \<le> 2 ^ 32 - 1" for b
    using unat_le_max [of "max_total_attachments b"] by simp
qed (auto simp: add_attachment_def Let_def unat_saturating_add word_less_nat_alt not_less min_def)

interpretation pdf_pages: budget_counter "\<lambda>t. unat (jt_pdf_pages t)" "\<lambda>b. unat (max_total_pdf_pages b)" "2 ^ 32 - 1"
    "unat" add_pdf_pages
proof
  show "unat (max_total_pdf_pages b) \<le> 2 ^ 32 - 1" for b
    using unat_le_max [of "max_total_pdf_pages b"] by simp
qed (auto simp: add_pdf_pages_def Let_def unat_saturating_add word_less_nat_alt not_less min_def)

interpretation ocr_pages: budget_counter "\<lambda>t. unat (jt_ocr_pages t)" "\<lambda>b. unat (max_total_ocr_pages b)" "2 ^ 32 - 1"
    "unat" add_ocr_pages
proof
  show "unat (max_total_ocr_pages b) \<le> 2 ^ 32 - 1" for b
    using unat_le_max [of "max_total_ocr_pages b"] by simp
qed (auto simp: add_ocr_pages_def Let_def unat_saturating_add word_less_nat_alt not_less min_def)

interpretation extracted_bytes: budget_counter "\<lambda>t. unat (jt_extracted_bytes t)" "\<lambda>b. unat (max_total_extracted_bytes b)" "2 ^ 64 - 1"
    "unat" add_extracted_bytes
proof
  show "unat (max_total_extracted_bytes b) \<le> 2 ^ 64 - 1" for b
    using unat_le_max [of "max_total_extracted_bytes b"] by simp
qed (auto simp: add_extracted_bytes_def Let_def unat_saturating_add word_less_nat_alt not_less min_def)

interpretation child_processes: budget_counter "\<lambda>t. unat (jt_child_processes t)" "\<lambda>b. unat (max_total_child_processes b)" "2 ^ 32 - 1"
    "\<lambda>_ :: unit. 1" "\<lambda>_. add_child_process"
proof
  show "unat (max_total_child_processes b) \<le> 2 ^ 32 - 1" for b
    using unat_le_max [of "max_total_child_processes b"] by simp
qed (auto simp: add_child_process_def Let_def unat_saturating_add word_less_nat_alt not_less min_def)

interpretation cpu_seconds: budget_counter "\<lambda>t. unat (jt_cpu_seconds t)" "\<lambda>b. unat (max_total_cpu_seconds b)" "2 ^ 64 - 1"
    "unat" add_cpu_seconds
proof
  show "unat (max_total_cpu_seconds b) \<le> 2 ^ 64 - 1" for b
    using unat_le_max [of "max_total_cpu_seconds b"] by simp
qed (auto simp: add_cpu_seconds_def Let_def unat_saturating_add word_less_nat_alt not_less min_def)

interpretation wall_seconds: budget_counter "\<lambda>t. unat (jt_wall_seconds t)" "\<lambda>b. unat (max_total_wall_seconds b)" "2 ^ 64 - 1"
    "unat" add_wall_seconds
proof
  show "unat (max_total_wall_seconds b) \<le> 2 ^ 64 - 1" for b
    using unat_le_max [of "max_total_wall_seconds b"] by simp
qed (auto simp: add_wall_seconds_def Let_def unat_saturating_add word_less_nat_alt not_less min_def)

section \<open>A job\<close>

text \<open>The charges of a job, in any order over all counters.\<close>

datatype Charge =
  Downloaded "64 word"
| AttachmentAdded
| PdfPagesRead "32 word"
| OcrPagesRead "32 word"
| Extracted "64 word"
| ChildProcess
| CpuUsed "64 word"
| WallUsed "64 word"

fun apply_charge :: "Charge \<Rightarrow> JobBudgetTracker \<Rightarrow> charged" where
  "apply_charge (Downloaded n) = add_downloaded_bytes n"
| "apply_charge AttachmentAdded = add_attachment"
| "apply_charge (PdfPagesRead n) = add_pdf_pages n"
| "apply_charge (OcrPagesRead n) = add_ocr_pages n"
| "apply_charge (Extracted n) = add_extracted_bytes n"
| "apply_charge ChildProcess = add_child_process"
| "apply_charge (CpuUsed n) = add_cpu_seconds n"
| "apply_charge (WallUsed n) = add_wall_seconds n"

fun run_job :: "Charge list \<Rightarrow> JobBudgetTracker \<Rightarrow> (BudgetError + unit) list \<times> JobBudgetTracker" where
  "run_job [] t = ([], t)"
| "run_job (c # cs) t =
     (let (r, t1) = apply_charge c t; (rs, t2) = run_job cs t1 in (r # rs, t2))"

datatype Resource =
  R_downloaded_bytes | R_attachments | R_pdf_pages | R_ocr_pages |
  R_extracted_bytes | R_child_processes | R_cpu_seconds | R_wall_seconds

fun resource_of :: "Charge \<Rightarrow> Resource" where
  "resource_of (Downloaded n) = R_downloaded_bytes"
| "resource_of AttachmentAdded = R_attachments"
| "resource_of (PdfPagesRead n) = R_pdf_pages"
| "resource_of (OcrPagesRead n) = R_ocr_pages"
| "resource_of (Extracted n) = R_extracted_bytes"
| "resource_of ChildProcess = R_child_processes"
| "resource_of (CpuUsed n) = R_cpu_seconds"
| "resource_of (WallUsed n) = R_wall_seconds"

fun amount_of :: "Charge \<Rightarrow> nat" where
  "amount_of (Downloaded n) = unat n"
| "amount_of AttachmentAdded = 1"
| "amount_of (PdfPagesRead n) = unat n"
| "amount_of (OcrPagesRead n) = unat n"
| "amount_of (Extracted n) = unat n"
| "amount_of ChildProcess = 1"
| "amount_of (CpuUsed n) = unat n"
| "amount_of (WallUsed n) = unat n"

fun used :: "Resource \<Rightarrow> JobBudgetTracker \<Rightarrow> nat" where
  "used R_downloaded_bytes t = unat (jt_downloaded_bytes t)"
| "used R_attachments t = unat (jt_attachments t)"
| "used R_pdf_pages t = unat (jt_pdf_pages t)"
| "used R_ocr_pages t = unat (jt_ocr_pages t)"
| "used R_extracted_bytes t = unat (jt_extracted_bytes t)"
| "used R_child_processes t = unat (jt_child_processes t)"
| "used R_cpu_seconds t = unat (jt_cpu_seconds t)"
| "used R_wall_seconds t = unat (jt_wall_seconds t)"

fun limit_of :: "Resource \<Rightarrow> JobBudgets \<Rightarrow> nat" where
  "limit_of R_downloaded_bytes b = unat (max_total_downloaded_bytes b)"
| "limit_of R_attachments b = unat (max_total_attachments b)"
| "limit_of R_pdf_pages b = unat (max_total_pdf_pages b)"
| "limit_of R_ocr_pages b = unat (max_total_ocr_pages b)"
| "limit_of R_extracted_bytes b = unat (max_total_extracted_bytes b)"
| "limit_of R_child_processes b = unat (max_total_child_processes b)"
| "limit_of R_cpu_seconds b = unat (max_total_cpu_seconds b)"
| "limit_of R_wall_seconds b = unat (max_total_wall_seconds b)"

fun cap_of :: "Resource \<Rightarrow> nat" where
  "cap_of R_downloaded_bytes = 2 ^ 64 - 1"
| "cap_of R_attachments = 2 ^ 32 - 1"
| "cap_of R_pdf_pages = 2 ^ 32 - 1"
| "cap_of R_ocr_pages = 2 ^ 32 - 1"
| "cap_of R_extracted_bytes = 2 ^ 64 - 1"
| "cap_of R_child_processes = 2 ^ 32 - 1"
| "cap_of R_cpu_seconds = 2 ^ 64 - 1"
| "cap_of R_wall_seconds = 2 ^ 64 - 1"

lemmas count_charges =
  downloaded_bytes.count_charge attachments.count_charge pdf_pages.count_charge ocr_pages.count_charge extracted_bytes.count_charge child_processes.count_charge cpu_seconds.count_charge wall_seconds.count_charge

lemmas budgets_charges =
  downloaded_bytes.budgets_charge attachments.budgets_charge pdf_pages.budgets_charge ocr_pages.budgets_charge extracted_bytes.budgets_charge child_processes.budgets_charge cpu_seconds.budgets_charge wall_seconds.budgets_charge

lemmas accepted_charges =
  downloaded_bytes.accepted_total attachments.accepted_total pdf_pages.accepted_total ocr_pages.accepted_total extracted_bytes.accepted_total child_processes.accepted_total cpu_seconds.accepted_total wall_seconds.accepted_total

lemma apply_charge_used:
  "used (resource_of c) (snd (apply_charge c t)) = min (used (resource_of c) t + amount_of c) (cap_of (resource_of c))"
  by (cases c) (simp_all only: resource_of.simps used.simps amount_of.simps cap_of.simps apply_charge.simps count_charges)

lemma apply_charge_others:
  "r \<noteq> resource_of c \<Longrightarrow> used r (snd (apply_charge c t)) = used r t"
  by (cases c; cases r) (simp_all add: Let_def add_downloaded_bytes_def add_attachment_def add_pdf_pages_def add_ocr_pages_def add_extracted_bytes_def add_child_process_def add_cpu_seconds_def add_wall_seconds_def)

lemma apply_charge_budgets: "jt_budgets (snd (apply_charge c t)) = jt_budgets t"
  by (cases c) (simp_all only: apply_charge.simps budgets_charges)

lemma apply_charge_accepted:
  "fst (apply_charge c t) = Inr () \<longleftrightarrow>
     used (resource_of c) t + amount_of c \<le> limit_of (resource_of c) (jt_budgets t) \<or>
     limit_of (resource_of c) (jt_budgets t) = cap_of (resource_of c)"
  by (cases c) (simp_all only: resource_of.simps used.simps amount_of.simps cap_of.simps limit_of.simps
      apply_charge.simps accepted_charges)

lemma limit_of_cap: "limit_of r b \<le> cap_of r"
  using unat_le_max [where 'a = 64] unat_le_max [where 'a = 32] by (cases r) simp_all

text \<open>What a list of charges asks of one resource, without any saturation.\<close>

definition charged_total :: "Resource \<Rightarrow> Charge list \<Rightarrow> nat" where
  "charged_total r cs = sum_list (map amount_of (filter (\<lambda>c. resource_of c = r) cs))"

lemma charged_total_simps [simp]:
  "charged_total r [] = 0"
  "charged_total r (c # cs) = (if resource_of c = r then amount_of c else 0) + charged_total r cs"
  by (simp_all add: charged_total_def)

lemma run_job_results:
  "run_job cs t = (rs, t') \<Longrightarrow> k < length cs \<Longrightarrow>
     rs ! k = Inr () \<longleftrightarrow>
       used (resource_of (cs ! k)) t + charged_total (resource_of (cs ! k)) (take (Suc k) cs) \<le>
         limit_of (resource_of (cs ! k)) (jt_budgets t) \<or>
       limit_of (resource_of (cs ! k)) (jt_budgets t) = cap_of (resource_of (cs ! k))"
proof (induction cs arbitrary: t rs k)
  case (Cons c cs)
  obtain x t1 where c: "apply_charge c t = (x, t1)" by fastforce
  obtain rs' where rest: "run_job cs t1 = (rs', t')" "rs = x # rs'"
    using Cons.prems c by (auto split: prod.splits)
  have b: "jt_budgets t1 = jt_budgets t" using apply_charge_budgets [of c t] c by simp
  show ?case
  proof (cases k)
    case 0
    then show ?thesis using apply_charge_accepted [of c t] c rest(2) by simp
  next
    case (Suc j)
    define r where "r = resource_of (cs ! j)"
    have "rs ! k = Inr () \<longleftrightarrow>
        used r t1 + charged_total r (take (Suc j) cs) \<le> limit_of r (jt_budgets t) \<or> limit_of r (jt_budgets t) = cap_of r"
      using Cons.IH [OF rest(1), of j] Cons.prems(2) rest(2) b Suc by (simp add: r_def)
    moreover have "used r t1 = (if resource_of c = r then min (used r t + amount_of c) (cap_of r) else used r t)"
      using apply_charge_used [of c t] apply_charge_others [of r c t] c by auto
    ultimately show ?thesis
      using Suc limit_of_cap [of r "jt_budgets t"] by (auto simp: r_def min_def)
  qed
qed simp

section \<open>Properties\<close>

text \<open>
  C32: The budgets span the whole job: in any sequence of charges over all counters, a charge is accepted
  exactly when the true total asked of its resource so far, added without overflow, is within the limit.
  No number of small charges adds up to more than a limit, counters do not disturb each other, and the
  saturating addition never turns an excess into an accepted charge, except where the limit is the
  largest value of its type, which is no limit.
\<close>

theorem charge_accepted_iff_within_limit:
  assumes "run_job cs (new_tracker budgets) = (rs, t)" "k < length cs"
  shows "rs ! k = Inr () \<longleftrightarrow>
    charged_total (resource_of (cs ! k)) (take (Suc k) cs) \<le> limit_of (resource_of (cs ! k)) budgets \<or>
    limit_of (resource_of (cs ! k)) budgets = cap_of (resource_of (cs ! k))"
proof -
  have "used r (new_tracker budgets) = 0" for r by (cases r) (simp_all add: new_tracker_def)
  moreover have "jt_budgets (new_tracker budgets) = budgets" by (simp add: new_tracker_def)
  ultimately show ?thesis using run_job_results [OF assms] by simp
qed

theorem charge_accepted_iff_within_limit_witness:
  "\<exists>rs t. run_job [OcrPagesRead 40, AttachmentAdded, OcrPagesRead 11] (new_tracker default_budgets) = (rs, t) \<and>
    rs ! 0 = Inr () \<and> rs ! 2 \<noteq> Inr ()"
proof -
  obtain rs t where run: "run_job [OcrPagesRead 40, AttachmentAdded, OcrPagesRead 11] (new_tracker default_budgets) = (rs, t)"
    by fastforce
  from charge_accepted_iff_within_limit [OF run, of 0] charge_accepted_iff_within_limit [OF run, of 2] run
  show ?thesis by (auto simp: default_budgets_def)
qed

end
