(* ===== verification/Identifiers.thy ===== *)
theory Identifiers
  imports Ops
begin

text \<open>
  Identifier normalisation and organization names (\<open>pnull-core/src/procurement.rs\<close>), the exact-match
  rule and the human review queue (\<open>pnull-procurement/src/reconcile.rs\<close>), and the phrasing of
  absences (\<open>pnull-procurement/src/coverage.rs\<close>).
\<close>

section \<open>Normalised identifiers\<close>

definition normalize_identifier :: "str \<Rightarrow> (str \<times> str) option" where
  "normalize_identifier raw =
     (let trimmed = trim raw in
      if trimmed = [] then None
      else
        let compact = to_ascii_uppercase (filter is_alnum trimmed) in
        if compact = [] then None else Some (compact, lit ''uppercase-alphanumeric-compact''))"

definition identifier_match_key :: "str \<Rightarrow> str option" where
  "identifier_match_key raw = map_option fst (normalize_identifier raw)"

definition corporate_suffixes :: "str list" where
  "corporate_suffixes =
     map lit [''inc'', ''llc'', ''corp'', ''corporation'', ''co'', ''ltd'', ''limited'', ''company'']"

text \<open>\<open>strip_suffix\<close>, and the loop that strips the first suffix that leaves something.\<close>

definition strip_suffix :: "str \<Rightarrow> str \<Rightarrow> str option" where
  "strip_suffix suffix s = map_option rev (strip_prefix (rev suffix) (rev s))"

fun strip_first_suffix :: "str list \<Rightarrow> str \<Rightarrow> str" where
  "strip_first_suffix [] s = s"
| "strip_first_suffix (x # xs) s =
     (case strip_suffix x s of
        Some t \<Rightarrow> if t \<noteq> [] then t else strip_first_suffix xs s
      | None \<Rightarrow> strip_first_suffix xs s)"

definition organization_alias_candidate :: "str \<Rightarrow> str option" where
  "organization_alias_candidate raw =
     (let trimmed = trim raw in
      if trimmed = [] then None
      else
        let compact = to_ascii_lowercase (filter is_alnum trimmed) in
        if compact = [] then None else Some (strip_first_suffix corporate_suffixes compact))"

definition organization_exact_match :: "str \<Rightarrow> str \<Rightarrow> bool" where
  "organization_exact_match left right \<longleftrightarrow>
     organization_alias_candidate left = organization_alias_candidate right \<and> trim left = trim right"

section \<open>The review queue\<close>

datatype ReconcileError = NotExactMatch | NoRule

definition exact_identifier_match ::
  "ProcurementIdentifier \<Rightarrow> ProcurementIdentifier \<Rightarrow> ReconcileError + bool" where
  "exact_identifier_match left right =
     (case (pid_normalized left, pid_normalized right) of
        (Some l, Some r) \<Rightarrow> if l = r then Inr True else Inl NotExactMatch
      | _ \<Rightarrow> Inl NotExactMatch)"

definition review_item ::
  "hash \<Rightarrow> str \<Rightarrow> ReconciliationKind \<Rightarrow> str \<Rightarrow> str list \<Rightarrow> ReconciliationItem" where
  "review_item sha matter_id kind summary refs =
     \<lparr>ri_id = item_id_for sha matter_id kind summary, ri_matter_id = matter_id, ri_kind = kind,
      ri_summary = summary, ri_record_refs = refs, ri_state = lit ''pending'',
      ri_created_at = lit ''deterministic''\<rparr>"

definition candidate_identifier_item :: "hash \<Rightarrow> str \<Rightarrow> str \<Rightarrow> str \<Rightarrow> ReconciliationItem" where
  "candidate_identifier_item sha matter_id left_raw right_raw =
     review_item sha matter_id ReconciliationKind.CandidateIdentifierMatch
       (lit ''candidate identifier match: '' @ left_raw @ lit '' vs '' @ right_raw) [left_raw, right_raw]"

definition vendor_alias_item :: "hash \<Rightarrow> str \<Rightarrow> str \<Rightarrow> str \<Rightarrow> ReconciliationItem" where
  "vendor_alias_item sha matter_id name_a name_b =
     review_item sha matter_id ReconciliationKind.VendorAlias
       (lit ''vendor alias candidate: '' @ name_a @ lit '' vs '' @ name_b) [name_a, name_b]"

definition amount_conflict_item :: "hash \<Rightarrow> str \<Rightarrow> str \<Rightarrow> str \<Rightarrow> str \<Rightarrow> ReconciliationItem" where
  "amount_conflict_item sha matter_id record_key left_raw right_raw =
     review_item sha matter_id ReconciliationKind.ConflictingAwardAmount
       (lit ''conflicting award amount for '' @ record_key @ lit '': '' @ left_raw @ lit '' vs '' @ right_raw)
       [record_key]"

definition vanished_record_item :: "hash \<Rightarrow> str \<Rightarrow> str \<Rightarrow> ReconciliationItem" where
  "vanished_record_item sha matter_id record_key =
     review_item sha matter_id ReconciliationKind.VanishedRecord
       (lit ''record '' @ record_key @ lit '' vanished from a later snapshot'') [record_key]"

definition missing_document_item :: "hash \<Rightarrow> str \<Rightarrow> str \<Rightarrow> ReconciliationItem" where
  "missing_document_item sha matter_id description =
     review_item sha matter_id ReconciliationKind.MissingDocument
       (lit ''missing document: '' @ description) [description]"

definition record_decision ::
  "hash \<Rightarrow> str \<Rightarrow> str \<Rightarrow> str \<Rightarrow> str \<Rightarrow> str \<Rightarrow> (CoreError, ReconciliationDecision) op" where
  "record_decision sha item decision operator note_text decided_at =
     (let d = \<lparr>dec_id = decision_id_for sha item decided_at, dec_item_id = item, dec_decision = decision,
               dec_operator = operator, dec_note = note_text, dec_decided_at = decided_at\<rparr> in
      bind_op (stmt id (insert_reconciliation_decision d)) (\<lambda>_. return_op d))"

definition reconciliation_binding_digest :: "hash \<Rightarrow> ReconciliationItem \<Rightarrow> str" where
  "reconciliation_binding_digest sha item =
     sha256_hex sha (as_bytes (ri_id item @ [0] @ reconciliation_label (ri_kind item) @ [0] @ ri_summary item))"

section \<open>Coverage\<close>

definition NOT_OBSERVED_PHRASING :: str where
  "NOT_OBSERVED_PHRASING = lit ''Not observed in the checked sources.''"

definition absence_phrasing :: str where
  "absence_phrasing = NOT_OBSERVED_PHRASING"

definition can_support_negative_claim :: "CoverageState \<Rightarrow> bool" where
  "can_support_negative_claim st \<longleftrightarrow> st = CoverageState.Complete"

record CoverageSummary =
  csum_source_id :: str
  csum_latest_state :: CoverageState
  csum_entry_count :: nat
  csum_latest_retrieved_at :: "str option"
  csum_latest_digest :: "str option"

definition summarize :: "CoverageEntry list \<Rightarrow> CoverageSummary" where
  "summarize entries =
     (case last_option entries of
        None \<Rightarrow> \<lparr>csum_source_id = [], csum_latest_state = CoverageState.Unknown,
          csum_entry_count = length entries, csum_latest_retrieved_at = None, csum_latest_digest = None\<rparr>
      | Some e \<Rightarrow> \<lparr>csum_source_id = cov_source_id e, csum_latest_state = cov_state e,
          csum_entry_count = length entries, csum_latest_retrieved_at = Some (cov_retrieved_at e),
          csum_latest_digest = cov_persisted_digest e\<rparr>)"

definition default_state :: CoverageState where
  "default_state = CoverageState.Unknown"

section \<open>Lemmas\<close>

lemma filter_alnum_dropWhile: "filter is_alnum (dropWhile is_ws s) = filter is_alnum s"
  by (induction s) (auto dest: is_alnum_not_ws)

lemma filter_alnum_trim: "filter is_alnum (trim s) = filter is_alnum s"
  by (simp add: trim_by_def trim_start_by_def trim_end_by_def filter_alnum_dropWhile flip: rev_filter)

lemma match_key_eq:
  "identifier_match_key raw =
     (if filter is_alnum raw = [] then None else Some (to_ascii_uppercase (filter is_alnum raw)))"
proof -
  have "trim raw = [] \<Longrightarrow> filter is_alnum raw = []"
    using filter_alnum_trim [of raw] by simp
  then show ?thesis
    by (auto simp: identifier_match_key_def normalize_identifier_def Let_def filter_alnum_trim)
qed

section \<open>Properties\<close>

text \<open>
  The match key of an identifier is canonical: it keeps the ASCII letters and digits in order,
  upper-cased, and nothing else; so it is its own key, and two identifiers have the same key exactly
  when they agree on letters and digits up to case, however they are punctuated or spaced.
\<close>

theorem match_key_canonical:
  "(case identifier_match_key raw of
      None \<Rightarrow> filter is_alnum raw = []
    | Some key \<Rightarrow> key = to_ascii_uppercase (filter is_alnum raw) \<and> identifier_match_key key = Some key) \<and>
   (identifier_match_key raw = identifier_match_key other \<longleftrightarrow>
      to_ascii_uppercase (filter is_alnum raw) = to_ascii_uppercase (filter is_alnum other))"
proof -
  have "filter is_alnum (to_ascii_uppercase (filter is_alnum s)) = to_ascii_uppercase (filter is_alnum s)" for s
    by (rule filter_True) simp
  then show ?thesis
    by (auto simp: match_key_eq comp_def)
qed

text \<open>
  The key forgets where the separators stood, so different official numbers can share one: moving
  a separator between digits does not change the key.
\<close>

theorem match_key_conflates_separators:
  assumes "\<not> is_alnum c"
  shows "identifier_match_key (a @ b @ c # d) = identifier_match_key (a @ c # b @ d)"
  using assms by (simp add: match_key_eq)

theorem match_key_conflates_separators_witness:
  "identifier_match_key (lit ''PO12-3'') = identifier_match_key (lit ''PO1-23'')"
  using match_key_conflates_separators [of 45 "lit ''PO1''" "lit ''2''" "lit ''3''"]
  by (simp add: lit_def is_alnum_def is_digit_def is_upper_def is_lower_def)

text \<open>
  Two organization names match exactly only if they are the same text up to surrounding white
  space: the alias candidate, which drops punctuation and corporate suffixes, never merges two names.
\<close>

theorem organization_match_is_identity:
  "organization_exact_match left right \<longleftrightarrow> trim left = trim right"
  by (auto simp: organization_exact_match_def organization_alias_candidate_def)

text \<open>
  A negative claim rests on complete coverage of the latest entry: the summary of a source
  supports one only if the source has an entry and its last one is complete; with no entry, with the
  default state, it never does.
\<close>

theorem negative_claim_needs_complete_entry:
  "can_support_negative_claim (csum_latest_state (summarize entries)) \<longleftrightarrow>
     (entries \<noteq> [] \<and> cov_state (last entries) = CoverageState.Complete)"
  by (simp add: can_support_negative_claim_def summarize_def last_option_def split: option.split)

end
