(* ===== verification/Relationships.thy ===== *)
theory Relationships
  imports Identifiers
begin

text \<open>
  Official relationships (\<open>pnull-procurement/src/relationships.rs\<close>): declared reference fields of preserved
  records are scanned for identifiers of other matters; exact matches whose two ends are bound to stored
  snapshots become links, near misses go to the review queue.
\<close>

section \<open>Declared fields and candidates\<close>

record ReferenceField =
  rf_field :: str
  rf_locator :: str

definition reference_fields :: "str \<Rightarrow> ReferenceField list" where
  "reference_fields source_id =
     (if source_id = lit ''colorado-springs-contract-awards'' then
        [\<lparr>rf_field = lit ''notes'', rf_locator = lit ''contract-award row notes column''\<rparr>]
      else if source_id = lit ''colorado-springs-solicitation-mirror'' then
        [\<lparr>rf_field = lit ''linked_documents'', rf_locator = lit ''solicitation linked-documents list''\<rparr>]
      else [])"

record RecordReference =
  rec_source_id :: str
  rec_source_record_id :: str
  rec_matter_id :: str
  rec_snapshot_id :: str
  rec_snapshot_digest :: str
  rec_reference_field :: str
  rec_reference_text :: str

record LinkDetectionOutcome =
  ldo_links :: "OfficialRelationship list"
  ldo_candidates :: "ReconciliationItem list"

datatype RelationshipError = Store CoreError

record StoredIdentifier =
  si_raw :: str
  si_matter_id :: str
  si_kind :: IdentifierKind

definition valid_digest :: "str \<Rightarrow> bool" where
  "valid_digest digest \<longleftrightarrow> byte_len digest = 64 \<and> list_all is_hexdigit digest"

definition tokenize_identifiers :: "str \<Rightarrow> str list" where
  "tokenize_identifiers t =
     map to_ascii_uppercase
       (filter (\<lambda>trimmed. length (filter is_alnum trimmed) \<ge> 3)
         (map (trim_by (\<lambda>c. \<not> is_alnum c)) (split_whitespace t)))"

section \<open>The index of stored identifiers\<close>

definition identifier_key :: "ProcurementIdentifier \<Rightarrow> str option" where
  "identifier_key i =
     (case pid_normalized i of Some n \<Rightarrow> Some n | None \<Rightarrow> identifier_match_key (pid_raw i))"

definition stored_identifier :: "ProcurementIdentifier \<Rightarrow> StoredIdentifier" where
  "stored_identifier i = \<lparr>si_raw = pid_raw i, si_matter_id = pid_matter_id i, si_kind = pid_kind i\<rparr>"

text \<open>The entries of \<open>identifiers_by_key\<close> in the order they are pushed.\<close>

definition identifier_index :: "store \<Rightarrow> (str \<times> StoredIdentifier) list" where
  "identifier_index s =
     concat (map (\<lambda>m. List.map_filter (\<lambda>i. map_option (\<lambda>k. (k, stored_identifier i)) (identifier_key i))
         (procurement_identifiers (pm_id m) s)) (procurement_matters s))"

definition lookup_key :: "(str \<times> StoredIdentifier) list \<Rightarrow> str \<Rightarrow> StoredIdentifier list" where
  "lookup_key index k = map snd (filter (\<lambda>e. fst e = k) index)"

definition near_miss_target :: "str \<Rightarrow> (str \<times> StoredIdentifier) list \<Rightarrow> StoredIdentifier option" where
  "near_miss_target k index =
     (if byte_len k < 3 then None
      else
        last_option (List.map_filter
          (\<lambda>candidate_key.
             if byte_len candidate_key = byte_len k \<and> starts_with candidate_key (butlast k) \<and> candidate_key \<noteq> k
             then (case lookup_key index candidate_key of [] \<Rightarrow> None | target # _ \<Rightarrow> Some target)
             else None)
          (sort (remdups (map fst index)))))"

section \<open>Detection\<close>

definition event_has_valid_snapshot :: "store \<Rightarrow> ProcurementEvent \<Rightarrow> bool" where
  "event_has_valid_snapshot s e \<longleftrightarrow>
     list_ex (\<lambda>i. case source_snapshot i s of
        Inl _ \<Rightarrow> False | Inr snapshot \<Rightarrow> valid_digest (snap_persisted_digest snapshot)) (ev_evidence_ids e)"

definition matter_resolves_to_valid_snapshot :: "store \<Rightarrow> str \<Rightarrow> bool" where
  "matter_resolves_to_valid_snapshot s m \<longleftrightarrow>
     (case procurement_matter m s of
        Inl _ \<Rightarrow> False | Inr _ \<Rightarrow> list_ex (event_has_valid_snapshot s) (procurement_events m s))"

definition link_of :: "hash \<Rightarrow> RecordReference \<Rightarrow> str \<Rightarrow> StoredIdentifier \<Rightarrow> OfficialRelationship" where
  "link_of sha r candidate target =
     \<lparr>rel_id = relationship_id_for sha (rec_source_record_id r) (rec_reference_field r) (si_raw target) (rec_snapshot_id r),
      rel_kind = OfficialRelationshipLink, rel_source_record_id = rec_source_record_id r,
      rel_source_snapshot_id = rec_snapshot_id r, rel_source_snapshot_digest = rec_snapshot_digest r,
      rel_target_identifier = si_raw target, rel_target_matter_id = si_matter_id target,
      rel_reference_field = rec_reference_field r, rel_quote = candidate,
      rel_locator = (case find (\<lambda>f. rf_field f = rec_reference_field r) (reference_fields (rec_source_id r)) of
                       None \<Rightarrow> rec_reference_field r | Some f \<Rightarrow> rf_locator f),
      rel_citations =
        [lit ''record '' @ rec_source_record_id r @ lit '' in snapshot '' @ rec_snapshot_id r @ lit '' (digest '' @
           rec_snapshot_digest r @ lit '')'',
         lit ''matter '' @ si_matter_id target @ lit '' identifier '' @ si_raw target @ lit '' (kind '' @
           identifier_kind_label (si_kind target) @ lit '')''],
      rel_reviewed = True\<rparr>"

definition near_miss_item :: "hash \<Rightarrow> RecordReference \<Rightarrow> str \<Rightarrow> StoredIdentifier \<Rightarrow> ReconciliationItem" where
  "near_miss_item sha r candidate target =
     (let summary = lit ''candidate reference '' @ [39] @ candidate @ [39] @ lit '' in '' @ rec_reference_field r @
            lit '' ('' @ rec_source_record_id r @ lit ''): near-miss of '' @ [39] @ si_raw target @ [39] @
            lit '' in matter '' @ si_matter_id target in
      \<lparr>ri_id = item_id_for sha (rec_matter_id r) CandidateIdentifierMatch summary,
       ri_matter_id = rec_matter_id r, ri_kind = CandidateIdentifierMatch, ri_summary = summary,
       ri_record_refs = [rec_source_record_id r], ri_state = lit ''candidate'',
       ri_created_at = lit ''deterministic''\<rparr>)"

text \<open>The loop over the targets of one candidate; the flag says whether one matched.\<close>

definition link_target ::
  "hash \<Rightarrow> RecordReference \<Rightarrow> str \<Rightarrow> StoredIdentifier \<Rightarrow> bool \<times> LinkDetectionOutcome \<Rightarrow>
   (RelationshipError, bool \<times> LinkDetectionOutcome) op" where
  "link_target sha r candidate target acc s =
     (if si_matter_id target = rec_matter_id r \<and> eq_ignore_ascii_case (si_raw target) candidate then (Inr acc, s)
      else if \<not> matter_resolves_to_valid_snapshot s (si_matter_id target) then (Inr acc, s)
      else
        bind_op (stmt Store (insert_official_relationship (link_of sha r candidate target))) (\<lambda>added.
          return_op (True,
            if added then (snd acc)\<lparr>ldo_links := ldo_links (snd acc) @ [link_of sha r candidate target]\<rparr>
            else snd acc)) s)"

definition scan_candidate ::
  "hash \<Rightarrow> (str \<times> StoredIdentifier) list \<Rightarrow> RecordReference \<Rightarrow> str \<Rightarrow> LinkDetectionOutcome \<Rightarrow>
   (RelationshipError, LinkDetectionOutcome) op" where
  "scan_candidate sha index r candidate outcome =
     (case identifier_match_key candidate of
        None \<Rightarrow> return_op outcome
      | Some k \<Rightarrow>
          bind_op (for_op (link_target sha r candidate) (lookup_key index k) (False, outcome)) (\<lambda>(matched, outcome).
            if matched then return_op outcome
            else
              case near_miss_target k index of
                None \<Rightarrow> return_op outcome
              | Some target \<Rightarrow>
                  bind_op (stmt Store (insert_reconciliation_item (near_miss_item sha r candidate target))) (\<lambda>added.
                    return_op (if added then outcome\<lparr>ldo_candidates :=
                      ldo_candidates outcome @ [near_miss_item sha r candidate target]\<rparr> else outcome))))"

definition scan_record ::
  "hash \<Rightarrow> (str \<times> StoredIdentifier) list \<Rightarrow> RecordReference \<Rightarrow> LinkDetectionOutcome \<Rightarrow>
   (RelationshipError, LinkDetectionOutcome) op" where
  "scan_record sha index r outcome s =
     (if \<not> list_ex (\<lambda>f. rf_field f = rec_reference_field r) (reference_fields (rec_source_id r))
      then (Inr outcome, s)
      else
        case source_snapshot (rec_snapshot_id r) s of
          Inl _ \<Rightarrow> (Inr outcome, s)
        | Inr snapshot \<Rightarrow>
            if \<not> valid_digest (rec_snapshot_digest r) \<or> snap_persisted_digest snapshot \<noteq> rec_snapshot_digest r
            then (Inr outcome, s)
            else for_op (scan_candidate sha index r) (tokenize_identifiers (rec_reference_text r)) outcome s)"

definition detect_official_relationships ::
  "hash \<Rightarrow> RecordReference list \<Rightarrow> (RelationshipError, LinkDetectionOutcome) op" where
  "detect_official_relationships sha records s =
     for_op (scan_record sha (identifier_index s)) records \<lparr>ldo_links = [], ldo_candidates = []\<rparr> s"

section \<open>What detection leaves alone\<close>

text \<open>The tables that detection reads are those it never writes.\<close>

definition same_sources :: "store \<Rightarrow> store \<Rightarrow> bool" where
  "same_sources s t \<longleftrightarrow>
     st_proc_matters t = st_proc_matters s \<and> st_proc_events t = st_proc_events s \<and>
     st_snapshots t = st_snapshots s \<and> st_proc_identifiers t = st_proc_identifiers s"

lemma same_sources_reads:
  assumes "same_sources s t"
  shows "source_snapshot i t = source_snapshot i s"
    "matter_resolves_to_valid_snapshot t m = matter_resolves_to_valid_snapshot s m"
proof -
  show 1: "source_snapshot i t = source_snapshot i s" for i
    using assms by (simp add: same_sources_def source_snapshot_def)
  have "event_has_valid_snapshot t = event_has_valid_snapshot s"
    by (simp add: event_has_valid_snapshot_def 1 fun_eq_iff)
  then show "matter_resolves_to_valid_snapshot t m = matter_resolves_to_valid_snapshot s m"
    using assms by (simp add: same_sources_def matter_resolves_to_valid_snapshot_def procurement_matter_def
        procurement_events_def cong: sum.case_cong)
qed

lemma insert_relationship_sources:
  "insert_official_relationship l s = Inr (b, t) \<Longrightarrow> same_sources s t \<and>
     st_relationships t = st_relationships s @ (if b then [l] else [])"
  by (auto simp: insert_official_relationship_def insert_or_ignore_def same_sources_def split: if_splits)

lemma insert_item_sources:
  "insert_reconciliation_item l s = Inr (b, t) \<Longrightarrow> same_sources s t \<and> st_relationships t = st_relationships s"
  by (auto simp: insert_reconciliation_item_def insert_or_ignore_def same_sources_def split: if_splits)

lemma same_sources_trans: "same_sources a b \<Longrightarrow> same_sources b c \<Longrightarrow> same_sources a c"
  by (simp add: same_sources_def)

section \<open>Soundness of links\<close>

text \<open>The grounds on which a link may be recorded, over the store that detection started from.\<close>

definition link_grounds ::
  "hash \<Rightarrow> store \<Rightarrow> RecordReference list \<Rightarrow> OfficialRelationship \<Rightarrow> bool" where
  "link_grounds sha s records l \<longleftrightarrow>
     (\<exists>r candidate k target. r \<in> set records \<and>
        list_ex (\<lambda>f. rf_field f = rec_reference_field r) (reference_fields (rec_source_id r)) \<and>
        (\<exists>snapshot. source_snapshot (rec_snapshot_id r) s = Inr snapshot \<and>
           snap_persisted_digest snapshot = rec_snapshot_digest r) \<and> valid_digest (rec_snapshot_digest r) \<and>
        candidate \<in> set (tokenize_identifiers (rec_reference_text r)) \<and>
        identifier_match_key candidate = Some k \<and> (k, target) \<in> set (identifier_index s) \<and>
        matter_resolves_to_valid_snapshot s (si_matter_id target) \<and> l = link_of sha r candidate target)"

definition detection_ok ::
  "hash \<Rightarrow> store \<Rightarrow> RecordReference list \<Rightarrow> LinkDetectionOutcome \<Rightarrow> store \<Rightarrow> bool" where
  "detection_ok sha s0 records outcome s \<longleftrightarrow>
     same_sources s0 s \<and> st_relationships s = st_relationships s0 @ ldo_links outcome \<and>
     list_all (link_grounds sha s0 records) (ldo_links outcome)"

lemma lookup_key_in: "target \<in> set (lookup_key index k) \<longleftrightarrow> (k, target) \<in> set index"
  by (force simp: lookup_key_def)

lemma link_target_ok:
  assumes "link_target sha r candidate target acc s = (Inr acc', s')" "detection_ok sha s0 records (snd acc) s"
    and "matter_resolves_to_valid_snapshot s0 (si_matter_id target) \<Longrightarrow>
      link_grounds sha s0 records (link_of sha r candidate target)"
  shows "detection_ok sha s0 records (snd acc') s'"
proof (cases "si_matter_id target = rec_matter_id r \<and> eq_ignore_ascii_case (si_raw target) candidate \<or>
    \<not> matter_resolves_to_valid_snapshot s (si_matter_id target)")
  case True
  then show ?thesis using assms(1,2) by (auto simp: link_target_def split: if_splits)
next
  case False
  have "link_grounds sha s0 records (link_of sha r candidate target)"
    using False assms(3) same_sources_reads(2) assms(2) by (auto simp: detection_ok_def)
  moreover obtain b where "insert_official_relationship (link_of sha r candidate target) s = Inr (b, s')"
    "snd acc' = (if b then (snd acc)\<lparr>ldo_links := ldo_links (snd acc) @ [link_of sha r candidate target]\<rparr> else snd acc)"
    using assms(1) False by (auto simp: link_target_def op_Inr)
  ultimately show ?thesis
    using insert_relationship_sources assms(2) same_sources_trans unfolding detection_ok_def
    by (cases b) fastforce+
qed

lemma scan_candidate_ok:
  assumes "scan_candidate sha (identifier_index s0) r candidate outcome s = (Inr outcome', s')"
    "detection_ok sha s0 records outcome s"
    and "\<And>k target. identifier_match_key candidate = Some k \<Longrightarrow> (k, target) \<in> set (identifier_index s0) \<Longrightarrow>
      matter_resolves_to_valid_snapshot s0 (si_matter_id target) \<Longrightarrow>
      link_grounds sha s0 records (link_of sha r candidate target)"
  shows "detection_ok sha s0 records outcome' s'"
proof (cases "identifier_match_key candidate")
  case None
  then show ?thesis using assms(1,2) by (simp add: scan_candidate_def op_Inr)
next
  case (Some k)
  then obtain acc t where loop: "for_op (link_target sha r candidate) (lookup_key (identifier_index s0) k) (False, outcome) s =
      (Inr acc, t)"
    and rest: "(if fst acc then return_op (snd acc)
       else case near_miss_target k (identifier_index s0) of
          None \<Rightarrow> return_op (snd acc)
        | Some target \<Rightarrow>
            bind_op (stmt Store (insert_reconciliation_item (near_miss_item sha r candidate target))) (\<lambda>added.
              return_op (if added then (snd acc)\<lparr>ldo_candidates :=
                ldo_candidates (snd acc) @ [near_miss_item sha r candidate target]\<rparr> else snd acc))) t = (Inr outcome', s')"
    using assms(1) by (auto simp: scan_candidate_def bind_op_Inr case_prod_beta)
  have acc: "detection_ok sha s0 records (snd acc) t"
    using for_op_invariant [OF loop, where I = "\<lambda>acc s. detection_ok sha s0 records (snd acc) s"] assms(2)
      link_target_ok assms(3) [OF Some] by (simp add: lookup_key_in)
  show ?thesis
  proof (cases "fst acc \<or> near_miss_target k (identifier_index s0) = None")
    case True
    then have "outcome' = snd acc \<and> s' = t" using rest by (cases "fst acc") (auto simp: return_op_def)
    then show ?thesis using acc by simp
  next
    case False
    then obtain target b where "insert_reconciliation_item (near_miss_item sha r candidate target) t = Inr (b, s')"
      "ldo_links outcome' = ldo_links (snd acc)"
      using rest by (auto simp: op_Inr)
    then show ?thesis using insert_item_sources acc same_sources_trans unfolding detection_ok_def by metis
  qed
qed

lemma scan_record_ok:
  assumes "scan_record sha (identifier_index s0) r outcome s = (Inr outcome', s')"
    "detection_ok sha s0 records outcome s" "r \<in> set records"
  shows "detection_ok sha s0 records outcome' s'"
proof (cases "list_ex (\<lambda>f. rf_field f = rec_reference_field r) (reference_fields (rec_source_id r)) \<and>
    (\<exists>snapshot. source_snapshot (rec_snapshot_id r) s = Inr snapshot \<and>
       snap_persisted_digest snapshot = rec_snapshot_digest r) \<and> valid_digest (rec_snapshot_digest r)")
  case False
  then have "outcome' = outcome \<and> s' = s"
    using assms(1) by (auto simp: scan_record_def split: sum.splits if_splits)
  then show ?thesis using assms(2) by simp
next
  case True
  then have loop: "for_op (scan_candidate sha (identifier_index s0) r) (tokenize_identifiers (rec_reference_text r)) outcome s =
      (Inr outcome', s')"
    using assms(1) by (auto simp: scan_record_def)
  have snap: "\<exists>snapshot. source_snapshot (rec_snapshot_id r) s0 = Inr snapshot \<and>
       snap_persisted_digest snapshot = rec_snapshot_digest r"
    using True same_sources_reads(1) assms(2) unfolding detection_ok_def by metis
  show ?thesis
  proof (rule for_op_invariant [OF loop, where I = "detection_ok sha s0 records"])
    show "detection_ok sha s0 records outcome s" by (rule assms(2))
    fix candidate out t out' t'
    assume c: "candidate \<in> set (tokenize_identifiers (rec_reference_text r))"
      and ok: "detection_ok sha s0 records out t"
      and run: "scan_candidate sha (identifier_index s0) r candidate out t = (Inr out', t')"
    show "detection_ok sha s0 records out' t'"
      using run ok
    proof (rule scan_candidate_ok)
      fix k target
      assume "identifier_match_key candidate = Some k" "(k, target) \<in> set (identifier_index s0)"
        "matter_resolves_to_valid_snapshot s0 (si_matter_id target)"
      then show "link_grounds sha s0 records (link_of sha r candidate target)"
        unfolding link_grounds_def using c True snap assms(3) by blast
    qed
  qed
qed

lemma detect_ok:
  assumes "detect_official_relationships sha records s = (Inr outcome, s')"
  shows "detection_ok sha s records outcome s'"
proof (rule for_op_invariant [OF assms [unfolded detect_official_relationships_def], where I = "detection_ok sha s records"])
  show "detection_ok sha s records \<lparr>ldo_links = [], ldo_candidates = []\<rparr> s"
    by (simp add: detection_ok_def same_sources_def)
qed (rule scan_record_ok)

lemma identifier_index_in:
  "(k, target) \<in> set (identifier_index s) \<longleftrightarrow>
     (\<exists>m i. m \<in> set (procurement_matters s) \<and> i \<in> set (procurement_identifiers (pm_id m) s) \<and>
        identifier_key i = Some k \<and> target = stored_identifier i)"
  by (auto simp: identifier_index_def set_map_filter)

section \<open>A sample run\<close>

definition valid_sample_digest :: str where
  "valid_sample_digest = replicate 64 48"

text \<open>A matter whose identifier is written \<open>AB-1\<close>, and an award note of that same matter that writes \<open>ab.1\<close>.\<close>

definition self_store :: store where
  "self_store = empty_store\<lparr>
     st_proc_matters := [\<lparr>pm_id = [109], pm_jurisdiction = [], pm_title = [], pm_review_state = [],
       pm_publication_state = []\<rparr>],
     st_proc_identifiers := [\<lparr>pid_id = [105], pid_matter_id = [109], pid_kind = ContractNumber,
       pid_raw = [65, 66, 45, 49], pid_source_id = [], pid_normalized = Some [65, 66, 49],
       pid_normalization_rule = None, pid_known = True\<rparr>],
     st_proc_events := [\<lparr>ev_id = [101], ev_matter_id = [109], ev_kind = AwardAnnounced, ev_date = None,
       ev_summary = [], ev_identifier_ids = [], ev_evidence_ids = [[115]], ev_source_id = []\<rparr>],
     st_snapshots := [\<lparr>snap_id = [115], snap_source_id = [], snap_source_url = [], snap_retrieved_at = [],
       snap_persisted_digest = valid_sample_digest, snap_content_type = None, snap_etag = None,
       snap_last_modified = None, snap_final_url = [], snap_redirect_history = [], snap_parser_version = [],
       snap_schema_version = 1, snap_record_count = None, snap_pagination_complete = None,
       snap_coverage_state = CoverageState.Complete, snap_supersedes = None\<rparr>]\<rparr>"

definition self_note :: RecordReference where
  "self_note = \<lparr>rec_source_id = lit ''colorado-springs-contract-awards'', rec_source_record_id = [114],
     rec_matter_id = [109], rec_snapshot_id = [115], rec_snapshot_digest = valid_sample_digest,
     rec_reference_field = lit ''notes'', rec_reference_text = [97, 98, 46, 49]\<rparr>"

definition self_target :: StoredIdentifier where
  "self_target = \<lparr>si_raw = [65, 66, 45, 49], si_matter_id = [109], si_kind = ContractNumber\<rparr>"

lemma self_run:
  "\<exists>s'. detect_official_relationships id_hash [self_note] self_store =
     (Inr \<lparr>ldo_links = [link_of id_hash self_note [65, 66, 46, 49] self_target], ldo_candidates = []\<rparr>, s')"
proof -
  have index: "identifier_index self_store = [([65, 66, 49], self_target)]"
    by (simp add: identifier_index_def procurement_matters_def procurement_identifiers_def select_where_def
        self_store_def identifier_key_def stored_identifier_def self_target_def List.map_filter_simps)
  have tokens: "tokenize_identifiers (rec_reference_text self_note) = [[65, 66, 46, 49]]"
    by (simp add: tokenize_identifiers_def self_note_def split_whitespace_def is_ws_def trim_by_def
        trim_start_by_def trim_end_by_def is_alnum_def is_digit_def is_upper_def is_lower_def to_upper_def)
  have key: "identifier_match_key [65, 66, 46, 49] = Some [65, 66, 49]"
    by (simp add: identifier_match_key_def normalize_identifier_def trim_by_def trim_start_by_def trim_end_by_def
        is_ws_def is_alnum_def is_digit_def is_upper_def is_lower_def to_upper_def)
  have digest: "valid_digest valid_sample_digest"
    by (simp add: valid_digest_def valid_sample_digest_def byte_len_ascii list_all_iff is_hexdigit_def is_digit_def)
  have snap: "\<exists>snapshot. source_snapshot [115] self_store = Inr snapshot \<and> snap_persisted_digest snapshot = valid_sample_digest"
    by (simp add: source_snapshot_def read_row_def self_store_def)
  have resolves: "matter_resolves_to_valid_snapshot self_store [109]"
    using snap digest
    by (auto simp: matter_resolves_to_valid_snapshot_def event_has_valid_snapshot_def procurement_matter_def
        read_row_def procurement_events_def select_where_def self_store_def)
  have target: "\<exists>s'. link_target id_hash self_note [65, 66, 46, 49] self_target (False, out) self_store =
      (Inr (True, out\<lparr>ldo_links := ldo_links out @ [link_of id_hash self_note [65, 66, 46, 49] self_target]\<rparr>), s')" for out
  proof -
    have "\<not> eq_ignore_ascii_case (si_raw self_target) [65, 66, 46, 49]"
      by (simp add: self_target_def eq_ignore_ascii_case_def to_lower_def is_upper_def)
    then show ?thesis
      using resolves by (simp add: link_target_def self_target_def op_defs insert_official_relationship_def
          insert_or_ignore_def self_store_def empty_store_def)
  qed
  obtain s' where "link_target id_hash self_note [65, 66, 46, 49] self_target
      (False, \<lparr>ldo_links = [], ldo_candidates = []\<rparr>) self_store =
      (Inr (True, \<lparr>ldo_links = [link_of id_hash self_note [65, 66, 46, 49] self_target], ldo_candidates = []\<rparr>), s')"
    using target [of "\<lparr>ldo_links = [], ldo_candidates = []\<rparr>"] by auto
  then have "scan_candidate id_hash [([65, 66, 49], self_target)] self_note [65, 66, 46, 49]
      \<lparr>ldo_links = [], ldo_candidates = []\<rparr> self_store =
      (Inr \<lparr>ldo_links = [link_of id_hash self_note [65, 66, 46, 49] self_target], ldo_candidates = []\<rparr>, s')"
    by (simp add: scan_candidate_def key lookup_key_def bind_op_def return_op_def)
  moreover have "list_ex (\<lambda>f. rf_field f = rec_reference_field self_note) (reference_fields (rec_source_id self_note))"
    by (simp add: self_note_def reference_fields_def)
  moreover obtain snapshot where "source_snapshot (rec_snapshot_id self_note) self_store = Inr snapshot"
    "snap_persisted_digest snapshot = rec_snapshot_digest self_note"
    using snap by (auto simp: self_note_def)
  moreover have "valid_digest (rec_snapshot_digest self_note)" using digest by (simp add: self_note_def)
  ultimately have "scan_record id_hash [([65, 66, 49], self_target)] self_note
      \<lparr>ldo_links = [], ldo_candidates = []\<rparr> self_store =
      (Inr \<lparr>ldo_links = [link_of id_hash self_note [65, 66, 46, 49] self_target], ldo_candidates = []\<rparr>, s')"
    by (simp add: scan_record_def tokens bind_op_def return_op_def)
  then show ?thesis
    by (simp add: detect_official_relationships_def index bind_op_def return_op_def)
qed

section \<open>Properties\<close>

text \<open>
  C31: No link is invented: every official relationship that detection records comes from a declared
  reference field of one of the records, whose snapshot is stored with exactly the stated, well-formed
  digest; its quote is a token of that field's text with the same match key as the identifier it points
  to, which is stored for a recorded matter; that matter has an event bound to a snapshot with a
  well-formed digest; and the links returned are exactly those added to the table.
\<close>

theorem relationships_have_grounds:
  assumes "detect_official_relationships sha records s = (Inr outcome, s')"
  shows "st_relationships s' = st_relationships s @ ldo_links outcome \<and>
    list_all (\<lambda>l. \<exists>r i m k. r \<in> set records \<and>
      list_ex (\<lambda>f. rf_field f = rel_reference_field l) (reference_fields (rec_source_id r)) \<and>
      rel_quote l \<in> set (tokenize_identifiers (rec_reference_text r)) \<and>
      (\<exists>snapshot. source_snapshot (rel_source_snapshot_id l) s = Inr snapshot \<and>
         snap_persisted_digest snapshot = rel_source_snapshot_digest l) \<and> valid_digest (rel_source_snapshot_digest l) \<and>
      m \<in> set (procurement_matters s) \<and> i \<in> set (procurement_identifiers (pm_id m) s) \<and>
      pid_raw i = rel_target_identifier l \<and> pid_matter_id i = rel_target_matter_id l \<and>
      identifier_match_key (rel_quote l) = Some k \<and> identifier_key i = Some k \<and>
      matter_resolves_to_valid_snapshot s (rel_target_matter_id l)) (ldo_links outcome)"
proof -
  have ok: "detection_ok sha s records outcome s'" using assms by (rule detect_ok)
  have "\<exists>r i m k. r \<in> set records \<and>
      list_ex (\<lambda>f. rf_field f = rel_reference_field l) (reference_fields (rec_source_id r)) \<and>
      rel_quote l \<in> set (tokenize_identifiers (rec_reference_text r)) \<and>
      (\<exists>snapshot. source_snapshot (rel_source_snapshot_id l) s = Inr snapshot \<and>
         snap_persisted_digest snapshot = rel_source_snapshot_digest l) \<and> valid_digest (rel_source_snapshot_digest l) \<and>
      m \<in> set (procurement_matters s) \<and> i \<in> set (procurement_identifiers (pm_id m) s) \<and>
      pid_raw i = rel_target_identifier l \<and> pid_matter_id i = rel_target_matter_id l \<and>
      identifier_match_key (rel_quote l) = Some k \<and> identifier_key i = Some k \<and>
      matter_resolves_to_valid_snapshot s (rel_target_matter_id l)" if "l \<in> set (ldo_links outcome)" for l
  proof -
    have "link_grounds sha s records l" using ok that by (auto simp: detection_ok_def list_all_iff)
    then obtain r candidate k target where g: "r \<in> set records"
      "list_ex (\<lambda>f. rf_field f = rec_reference_field r) (reference_fields (rec_source_id r))"
      "\<exists>snapshot. source_snapshot (rec_snapshot_id r) s = Inr snapshot \<and>
         snap_persisted_digest snapshot = rec_snapshot_digest r" "valid_digest (rec_snapshot_digest r)"
      "candidate \<in> set (tokenize_identifiers (rec_reference_text r))" "identifier_match_key candidate = Some k"
      "(k, target) \<in> set (identifier_index s)" "matter_resolves_to_valid_snapshot s (si_matter_id target)"
      "l = link_of sha r candidate target"
      unfolding link_grounds_def by blast
    from g(7) obtain m i where "m \<in> set (procurement_matters s)" "i \<in> set (procurement_identifiers (pm_id m) s)"
      "identifier_key i = Some k" "target = stored_identifier i"
      unfolding identifier_index_in by blast
    with g show ?thesis
      by (intro exI [of _ r] exI [of _ i] exI [of _ m] exI [of _ k]) (simp add: link_of_def stored_identifier_def)
  qed
  then show ?thesis using ok by (simp add: detection_ok_def list_all_iff)
qed

theorem relationships_have_grounds_witness:
  "\<exists>l s'. detect_official_relationships id_hash [self_note] self_store =
      (Inr \<lparr>ldo_links = [l], ldo_candidates = []\<rparr>, s') \<and>
    st_relationships s' = [l] \<and> matter_resolves_to_valid_snapshot self_store (rel_target_matter_id l)"
proof -
  obtain s' where run: "detect_official_relationships id_hash [self_note] self_store =
     (Inr \<lparr>ldo_links = [link_of id_hash self_note [65, 66, 46, 49] self_target], ldo_candidates = []\<rparr>, s')"
    using self_run by blast
  have "st_relationships self_store = []" by (simp add: self_store_def empty_store_def)
  with relationships_have_grounds [OF run] run show ?thesis by auto
qed

text \<open>
  A record can be linked to itself: the guard against self-reference compares raw texts, so a record
  whose field cites its own matter's identifier in another punctuation becomes an official relationship
  of the matter with itself, marked as reviewed although nobody reviewed it.
\<close>

theorem self_reference_is_linked:
  "\<exists>records s outcome s' l. detect_official_relationships id_hash records s = (Inr outcome, s') \<and>
     l \<in> set (ldo_links outcome) \<and> list_all (\<lambda>r. rec_matter_id r = rel_target_matter_id l) records \<and>
     rel_reviewed l"
proof -
  obtain s' where "detect_official_relationships id_hash [self_note] self_store =
     (Inr \<lparr>ldo_links = [link_of id_hash self_note [65, 66, 46, 49] self_target], ldo_candidates = []\<rparr>, s')"
    using self_run by blast
  moreover have "rec_matter_id self_note = rel_target_matter_id (link_of id_hash self_note [65, 66, 46, 49] self_target)"
    "rel_reviewed (link_of id_hash self_note [65, 66, 46, 49] self_target)"
    by (simp_all add: self_note_def link_of_def self_target_def)
  ultimately show ?thesis
    by (intro exI [of _ "[self_note]"] exI [of _ self_store]
        exI [of _ "\<lparr>ldo_links = [link_of id_hash self_note [65, 66, 46, 49] self_target], ldo_candidates = []\<rparr>"]
        exI [of _ s'] exI [of _ "link_of id_hash self_note [65, 66, 46, 49] self_target"]) simp
qed

end
