(* ===== verification/Lines.thy ===== *)
theory Lines
  imports Prelude "HOL-Library.Multiset"
begin

text \<open>
  Lines of a text and the searches the detectors share: \<open>str::lines\<close>, the line at a byte offset
  (\<open>line_index_at\<close> of \<open>pnull-detect/src/lib.rs\<close>), \<open>Iterator::position\<close>, the first answer of a search,
  and the two ways the code removes repetitions (\<open>dedup_by_key\<close>, \<open>dedupe_by_id\<close>).
\<close>

section \<open>Lines\<close>

text \<open>
  \<open>str::lines\<close>: the terminator is a line feed, with the carriage return right before it; the last
  line may go without one, and then keeps its carriage return.
\<close>

fun lines :: "str \<Rightarrow> str list" where
  "lines [] = []"
| "lines (c # s) =
     (if c = 10 then [] # lines s
      else if c = 13 \<and> s \<noteq> [] \<and> hd s = 10 then lines s
      else case lines s of [] \<Rightarrow> [[c]] | l # ls \<Rightarrow> (c # l) # ls)"

text \<open>\<open>text.lines().nth(i).unwrap_or_default()\<close>.\<close>

definition line_at :: "str \<Rightarrow> nat \<Rightarrow> str" where
  "line_at s i = (if i < length (lines s) then lines s ! i else [])"

text \<open>The number of line feeds before a byte offset; the offset of a match is a character boundary.\<close>

definition line_index_at :: "str \<Rightarrow> nat \<Rightarrow> nat" where
  "line_index_at s byte_index = count_list (take (min byte_index (byte_len s)) (as_bytes s)) 10"

lemma lines_eq_Nil_iff [simp]: "lines s = [] \<longleftrightarrow> s = []"
  by (induction s) (auto split: list.splits)

lemma line_has_no_newline: "l \<in> set (lines s) \<Longrightarrow> 10 \<notin> set l"
  by (induction s arbitrary: l) (auto split: if_splits list.splits)

lemma line_at_no_newline: "10 \<notin> set (line_at s i)"
  by (auto simp: line_at_def dest: nth_mem line_has_no_newline)

text \<open>The text after a line feed has its own lines; a text without one is a single line.\<close>

lemma lines_append_newline: "\<exists>ls. lines (p @ 10 # s) = ls @ lines s \<and> length ls = Suc (count_list p 10)"
proof (induction p)
  case Nil
  then show ?case by simp
next
  case (Cons c p)
  then obtain ls where ls: "lines (p @ 10 # s) = ls @ lines s" "length ls = Suc (count_list p 10)" by blast
  then obtain l ls' where l: "ls = l # ls'" by (cases ls) auto
  show ?case
  proof (cases "c = 10 \<or> c = 13 \<and> hd (p @ 10 # s) = 10")
    case True
    then show ?thesis
      using ls l by (cases "c = 10") (auto intro: exI [of _ "[] # ls"] exI [of _ ls])
  next
    case False
    then show ?thesis
      using ls l by (auto intro!: exI [of _ "(c # l) # ls'"])
  qed
qed

lemma lines_single: "10 \<notin> set s \<Longrightarrow> s \<noteq> [] \<Longrightarrow> lines s = [s]"
proof (induction s)
  case (Cons c s)
  show ?case
  proof (cases "s = []")
    case False
    then have "lines s = [s]" "hd s \<noteq> 10" using Cons by (auto simp: hd_in_set dest: hd_in_set)
    then show ?thesis using Cons.prems by simp
  qed (use Cons.prems in simp)
qed simp

lemma first_line_of_prefix:
  assumes "10 \<notin> set v" "v \<noteq> []" "last v \<noteq> 13"
  shows "\<exists>w ls. lines (v @ s) = (v @ w) # ls"
  using assms
proof (induction v)
  case Nil
  then show ?case by simp
next
  case (Cons c v)
  show ?case
  proof (cases "v = []")
    case True
    then show ?thesis using Cons.prems by (auto split: list.splits)
  next
    case False
    then obtain w ls where "lines (v @ s) = (v @ w) # ls" using Cons by auto
    moreover have "hd (v @ s) \<noteq> 10" using False Cons.prems by (cases v) auto
    ultimately show ?thesis using Cons.prems False by auto
  qed
qed

text \<open>A part of one line that starts at a byte offset is in the line found for that offset.\<close>

lemma split_last_newline:
  "(\<exists>p' q. p = p' @ 10 # q \<and> 10 \<notin> set q) \<or> 10 \<notin> set (p :: str)"
  by (meson split_list_last)

lemma line_holds_part:
  assumes "10 \<notin> set v" "v \<noteq> []" "last v \<noteq> 13"
  shows "str_contains (line_at (p @ v @ s) (count_list p 10)) v"
proof -
  have main: "\<exists>w ls. lines (q @ v @ s) = (q @ v @ w) # ls" if "10 \<notin> set q" for q
    using first_line_of_prefix [of "q @ v" s] that assms by auto
  from split_last_newline [of p] show ?thesis
  proof
    assume "\<exists>p' q. p = p' @ 10 # q \<and> 10 \<notin> set q"
    then obtain p' q where p: "p = p' @ 10 # q" "10 \<notin> set q" by blast
    obtain ls where ls: "lines (p' @ 10 # q @ v @ s) = ls @ lines (q @ v @ s)"
      "length ls = Suc (count_list p' 10)"
      using lines_append_newline by blast
    obtain w ls' where w: "lines (q @ v @ s) = (q @ v @ w) # ls'" using main p(2) by blast
    have "count_list p 10 = length ls" using p ls(2) by (simp add: count_list_0_iff)
    then have "line_at (p @ v @ s) (count_list p 10) = q @ v @ w"
      using ls(1) w p(1) by (simp add: line_at_def)
    then show ?thesis by (auto simp: str_contains_iff)
  next
    assume p: "10 \<notin> set p"
    obtain w ls' where w: "lines (p @ v @ s) = (p @ v @ w) # ls'" using main p by blast
    have "count_list p 10 = 0" using p by (simp add: count_list_0_iff)
    then have "line_at (p @ v @ s) (count_list p 10) = p @ v @ w" using w by (simp add: line_at_def)
    then show ?thesis by (auto simp: str_contains_iff)
  qed
qed

lemma line_index_lt: "s \<noteq> [] \<Longrightarrow> count_list p 10 < length (lines (p @ s))"
proof (induction p)
  case (Cons c p)
  then show ?case by (cases "lines (p @ s)") (auto split: if_splits)
qed simp

lemma count_newline_utf8: "count_list (utf8 c) 10 = (if c = 10 then 1 else 0)"
  by (auto simp: utf8_def)

lemma count_newline_as_bytes: "count_list (as_bytes s) 10 = count_list s 10"
  by (induction s) (auto simp: count_newline_utf8)

lemma line_index_at_prefix: "line_index_at (p @ s) (byte_len p) = count_list p 10"
  by (simp add: line_index_at_def byte_len_def count_newline_as_bytes)

section \<open>Searches\<close>

fun position :: "('a \<Rightarrow> bool) \<Rightarrow> 'a list \<Rightarrow> nat option" where
  "position p [] = None"
| "position p (x # xs) = (if p x then Some 0 else map_option Suc (position p xs))"

lemma position_SomeD: "position p xs = Some i \<Longrightarrow> i < length xs \<and> p (xs ! i)"
  by (induction xs arbitrary: i) (auto split: if_splits)

lemma position_None_iff [simp]: "position p xs = None \<longleftrightarrow> (\<forall>x \<in> set xs. \<not> p x)"
  by (induction xs) auto

fun first_some :: "('a \<Rightarrow> 'b option) \<Rightarrow> 'a list \<Rightarrow> 'b option" where
  "first_some f [] = None"
| "first_some f (x # xs) = (case f x of Some y \<Rightarrow> Some y | None \<Rightarrow> first_some f xs)"

lemma first_some_None_iff [simp]: "first_some f xs = None \<longleftrightarrow> (\<forall>x \<in> set xs. f x = None)"
  by (induction xs) (auto split: option.splits)

lemma first_some_SomeD: "first_some f xs = Some y \<Longrightarrow> \<exists>x \<in> set xs. f x = Some y"
  by (induction xs) (auto split: option.splits)

lemma find_SomeD: "find p xs = Some x \<Longrightarrow> x \<in> set xs \<and> p x"
  by (auto simp: find_Some_iff)

section \<open>Removing repetitions\<close>

text \<open>\<open>Vec::dedup_by_key\<close>: of consecutive elements with one key the first stays.\<close>

fun dedup_by_key :: "('a \<Rightarrow> 'k) \<Rightarrow> 'a list \<Rightarrow> 'a list" where
  "dedup_by_key k [] = []"
| "dedup_by_key k [x] = [x]"
| "dedup_by_key k (x # y # ys) = (if k y = k x then dedup_by_key k (x # ys) else x # dedup_by_key k (y # ys))"

lemma dedup_by_key_subset: "set (dedup_by_key k xs) \<subseteq> set xs"
  by (induction k xs rule: dedup_by_key.induct) auto

lemma dedup_by_key_keys [simp]: "k ` set (dedup_by_key k xs) = k ` set xs"
  by (induction k xs rule: dedup_by_key.induct) auto

lemma dedup_by_key_Nil_iff [simp]: "dedup_by_key k xs = [] \<longleftrightarrow> xs = []"
  by (induction k xs rule: dedup_by_key.induct) auto

lemma hd_dedup_by_key [simp]: "xs \<noteq> [] \<Longrightarrow> hd (dedup_by_key k xs) = hd xs"
  by (induction k xs rule: dedup_by_key.induct) auto

lemma last_key_dedup_by_key: "xs \<noteq> [] \<Longrightarrow> k (last (dedup_by_key k xs)) = k (last xs)"
  by (induction k xs rule: dedup_by_key.induct) auto

lemma sorted_dedup_by_key:
  fixes f :: "'a \<Rightarrow> 'b::linorder"
  shows "sorted (map f xs) \<Longrightarrow> sorted (map f (dedup_by_key k xs))"
proof (induction k xs rule: dedup_by_key.induct)
  case (3 k x y ys)
  then show ?case
    using dedup_by_key_subset [of k "y # ys"] by (fastforce simp: image_iff)
qed auto

text \<open>The retain of \<open>dedupe_by_id\<close>: the first element of every key stays.\<close>

fun dedupe_by_id :: "('a \<Rightarrow> str) \<Rightarrow> str list \<Rightarrow> 'a list \<Rightarrow> 'a list" where
  "dedupe_by_id k seen [] = []"
| "dedupe_by_id k seen (x # xs) =
     (if k x \<in> set seen then dedupe_by_id k seen xs else x # dedupe_by_id k (k x # seen) xs)"

lemma dedupe_by_id_subset: "set (dedupe_by_id k seen xs) \<subseteq> set xs"
proof (induction xs arbitrary: seen)
  case (Cons x xs)
  then show ?case by (auto dest: subsetD [OF Cons.IH])
qed simp

lemma dedupe_by_id_keys: "k ` set (dedupe_by_id k seen xs) = k ` set xs - set seen"
  by (induction xs arbitrary: seen) auto

lemma dedupe_by_id_distinct: "distinct (map k (dedupe_by_id k seen xs))"
  by (induction xs arbitrary: seen) (auto simp: dedupe_by_id_keys image_iff [symmetric])

text \<open>\<open>dedup\<close> after \<open>sort\<close> leaves no repetition.\<close>

lemma sorted_distinct_remdups_adj:
  fixes xs :: "'a::linorder list"
  shows "sorted xs \<Longrightarrow> sorted (remdups_adj xs) \<and> distinct (remdups_adj xs)"
proof (induction xs rule: remdups_adj.induct)
  case (3 x y ys)
  then show ?case by (cases "x = y") (auto dest: order_antisym)
qed simp_all

section \<open>Sorting by a comparison\<close>

text \<open>\<open>slice::sort_by\<close>, stable; every stable sort gives the result of this one.\<close>

fun insert_by :: "('a \<Rightarrow> 'a \<Rightarrow> bool) \<Rightarrow> 'a \<Rightarrow> 'a list \<Rightarrow> 'a list" where
  "insert_by le x [] = [x]"
| "insert_by le x (y # ys) = (if le x y then x # y # ys else y # insert_by le x ys)"

definition sort_by :: "('a \<Rightarrow> 'a \<Rightarrow> bool) \<Rightarrow> 'a list \<Rightarrow> 'a list" where
  "sort_by le xs = foldr (insert_by le) xs []"

lemma mset_insert_by [simp]: "mset (insert_by le x ys) = add_mset x (mset ys)"
  by (induction ys) auto

lemma mset_sort_by [simp]: "mset (sort_by le xs) = mset xs"
  by (induction xs) (simp_all add: sort_by_def)

lemma set_sort_by [simp]: "set (sort_by le xs) = set xs"
  by (metis mset_sort_by set_mset_mset)

text \<open>The entries of a \<open>BTreeMap\<close> from keys to the vectors of their values.\<close>

definition grouped_by :: "('a \<Rightarrow> str) \<Rightarrow> 'a list \<Rightarrow> (str \<times> 'a list) list" where
  "grouped_by k xs = map (\<lambda>u. (u, filter (\<lambda>x. k x = u) xs)) (sort (remdups (map k xs)))"

end
