(* ===== verification/Detect.thy ===== *)
theory Detect
  imports CoreTypes Lines
begin

text \<open>
  The rule scan and the state classifier of \<open>pnull-detect/src/lib.rs\<close>.  The crate \<open>regex\<close>, the Unicode
  tables of the standard library and \<open>serde_yaml\<close> are arguments; the patterns handed to \<open>regex\<close> are
  built here as the code builds them.
\<close>

section \<open>The libraries the detector relies on\<close>

text \<open>
  \<open>rx_find_iter\<close> gives byte offset and text of every match, \<open>rx_compiles\<close> tells whether \<open>Regex::new\<close>
  succeeds.
\<close>

record text_lib =
  rx_escape :: "str \<Rightarrow> str"
  rx_compiles :: "str \<Rightarrow> bool"
  rx_is_match :: "str \<Rightarrow> str \<Rightarrow> bool"
  rx_find_iter :: "str \<Rightarrow> str \<Rightarrow> (nat \<times> str) list"
  to_lowercase :: "str \<Rightarrow> str"
  is_alphanumeric :: "uchar \<Rightarrow> bool"

text \<open>\<open>Regex::find\<close> is the first match.\<close>

definition regex_find :: "text_lib \<Rightarrow> str \<Rightarrow> str \<Rightarrow> (nat \<times> str) option" where
  "regex_find L pattern content =
     (case rx_find_iter L pattern content of [] \<Rightarrow> None | x # _ \<Rightarrow> Some x)"

section \<open>Rules\<close>

record Rule =
  rule_id :: str
  rule_label :: str
  rule_category :: str
  rule_terms :: "str list"
  rule_false_positive_phrases :: "str list"
  rule_rationale :: str

record RuleSet =
  rs_version :: "32 word"
  rs_rules :: "Rule list"

datatype DetectError = Io | Yaml | InvalidRules str

fun check_rules :: "str list \<Rightarrow> Rule list \<Rightarrow> DetectError + unit" where
  "check_rules ids [] = Inr ()"
| "check_rules ids (r # rs) =
     (if trim (rule_id r) = [] \<or> rule_terms r = []
      then Inl (InvalidRules (lit ''every rule requires an identifier and terms''))
      else if rule_id r \<in> set ids
      then Inl (InvalidRules (lit ''duplicate rule identifier: '' @ rule_id r))
      else check_rules (rule_id r # ids) rs)"

definition validate_rules :: "RuleSet \<Rightarrow> DetectError + unit" where
  "validate_rules rules =
     (if rs_version rules = 0 \<or> rs_rules rules = []
      then Inl (InvalidRules (lit ''version must be positive and at least one rule is required''))
      else check_rules [] (rs_rules rules))"

text \<open>\<open>file\<close> is what \<open>fs::read\<close> answers; \<open>from_slice\<close> is that of \<open>serde_yaml\<close>.\<close>

definition load_rules :: "(bytes \<Rightarrow> RuleSet option) \<Rightarrow> bytes option \<Rightarrow> DetectError + RuleSet" where
  "load_rules from_slice file =
     (case file of
        None \<Rightarrow> Inl Io
      | Some content \<Rightarrow>
          (case from_slice content of
             None \<Rightarrow> Inl Yaml
           | Some rules \<Rightarrow> (case validate_rules rules of Inl e \<Rightarrow> Inl e | Inr _ \<Rightarrow> Inr rules)))"

text \<open>\<open>to_yaml\<close> is \<open>serde_yaml::to_string\<close>.\<close>

definition rules_digest :: "hash \<Rightarrow> (RuleSet \<Rightarrow> str option) \<Rightarrow> RuleSet \<Rightarrow> str" where
  "rules_digest sha to_yaml rules =
     sha256_hex sha (as_bytes (case to_yaml rules of None \<Rightarrow> [] | Some y \<Rightarrow> y))"

section \<open>Lines that hold a term\<close>

definition word_boundary :: "text_lib \<Rightarrow> uchar option \<Rightarrow> str" where
  "word_boundary L edge = (case edge of Some c \<Rightarrow> if is_alphanumeric L c then [92, 98] else [] | None \<Rightarrow> [])"

definition term_pattern :: "text_lib \<Rightarrow> str \<Rightarrow> str" where
  "term_pattern L trm =
     lit ''(?i)'' @ word_boundary L (if trm = [] then None else Some (hd trm)) @ rx_escape L trm @
     word_boundary L (if trm = [] then None else Some (last trm))"

definition term_regex :: "text_lib \<Rightarrow> str \<Rightarrow> str option" where
  "term_regex L trm = (if rx_compiles L (term_pattern L trm) then Some (term_pattern L trm) else None)"

definition find_term_lines :: "text_lib \<Rightarrow> str \<Rightarrow> str \<Rightarrow> nat list" where
  "find_term_lines L content trm =
     (case term_regex L trm of
        None \<Rightarrow> []
      | Some regex \<Rightarrow> filter (\<lambda>i. rx_is_match L regex (lines content ! i)) [0..<length (lines content)])"

definition find_term_line :: "text_lib \<Rightarrow> str \<Rightarrow> str \<Rightarrow> nat option" where
  "find_term_line L content trm =
     (case find_term_lines L content trm of [] \<Rightarrow> None | i # _ \<Rightarrow> Some i)"

definition is_false_positive :: "text_lib \<Rightarrow> Rule \<Rightarrow> str \<Rightarrow> bool" where
  "is_false_positive L r line =
     list_ex (\<lambda>phrase. str_contains (to_lowercase L line) (to_lowercase L phrase)) (rule_false_positive_phrases r)"

definition citation :: "EvidenceRecord \<Rightarrow> str \<Rightarrow> nat \<Rightarrow> Citation" where
  "citation r content i =
     (let line_number = (if Suc i < 2 ^ 32 then word_of_nat (Suc i) else - 1 :: 32 word) in
      \<lparr>cit_evidence_id = evr_id r, cit_source_url = evr_source_url r,
       cit_locator = \<lparr>loc_kind = lit ''line'', loc_start = line_number, loc_end = line_number,
         loc_label = lit ''line '' @ show_nat (unat line_number)\<rparr>,
       cit_quote = line_at content i\<rparr>)"

section \<open>The state classifier\<close>

definition is_negated_or_conditional :: "text_lib \<Rightarrow> str \<Rightarrow> str \<Rightarrow> bool" where
  "is_negated_or_conditional L line phrase =
     (let line = to_lowercase L line; phrase = to_lowercase L phrase in
      list_ex (\<lambda>w. str_contains line (lit w @ phrase)) [''not '', ''no '', ''never '', ''if '', ''unless ''] \<or>
      phrase = lit ''approved'' \<and> str_contains line (lit ''subject to approval''))"

definition PATTERNS :: "(FindingState \<times> str list \<times> str) list" where
  "PATTERNS =
     [(FindingState.ContractExecuted,
         map lit [''contract executed'', ''signed a'', ''entered into a contract''],
         lit ''The source explicitly describes an executed or signed contract.''),
      (FindingState.RenewalOrExpansion,
         map lit [''renewal'', ''renewed'', ''expansion'', ''expanded'', ''additional technology''],
         lit ''The source explicitly describes a renewal, expansion, or additional system scope.''),
      (FindingState.Approved,
         map lit [''finally passed'', ''approved'', ''adopted'', ''authorized''],
         lit ''The source records an approval, adoption, authorization, or final passage.''),
      (FindingState.Rejected,
         map lit [''rejected'', ''denied'', ''failed by a vote''],
         lit ''The source records rejection, denial, or a failed vote.''),
      (FindingState.PublicHearingScheduled,
         map lit [''public hearing scheduled'', ''public hearing on''],
         lit ''The source explicitly schedules a public hearing.''),
      (FindingState.VoteScheduled,
         map lit [''vote scheduled'', ''will vote'', ''second reading''],
         lit ''The source explicitly schedules a vote or later reading.''),
      (FindingState.PolicyChange,
         map lit [''policy change'', ''policy amended'', ''policy revised''],
         lit ''The source explicitly describes a policy change.''),
      (FindingState.DeploymentReported,
         map lit [''deployed'', ''in operation'', ''currently using'', ''implemented''],
         lit ''The source explicitly reports deployment or current operation.''),
      (FindingState.Proposal,
         map lit [''proposal'', ''proposed'', ''seeks to'', ''request for information'', ''referred''],
         lit ''The source describes a proposal, request, or referral, not a completed purchase.'')]"

text \<open>The state phrases on accepted lines, in the order of the patterns.\<close>

definition state_candidates ::
  "text_lib \<Rightarrow> str \<Rightarrow> (nat \<Rightarrow> bool) \<Rightarrow> (FindingState \<times> str \<times> nat) list" where
  "state_candidates L content accepts =
     concat (map (\<lambda>(state, phrases, reason).
       concat (map (\<lambda>phrase.
         map (\<lambda>i. (state, reason, i))
           (filter (\<lambda>i. accepts i \<and> \<not> is_negated_or_conditional L (line_at content i) phrase)
              (find_term_lines L content phrase))) phrases)) PATTERNS)"

definition classify_with_filter ::
  "text_lib \<Rightarrow> EvidenceRecord \<Rightarrow> str \<Rightarrow> (nat \<Rightarrow> bool) \<Rightarrow> FindingState \<times> str \<times> Citation option" where
  "classify_with_filter L r content accepts =
     (let candidates = dedup_by_key (\<lambda>(state, _, i). (state, i))
            (sort_key (\<lambda>(_, _, i). i) (state_candidates L content accepts));
          distinct_labels = remdups (map (\<lambda>(state, _, _). finding_state_label state) candidates) in
      if length distinct_labels > 1 then
        (FindingState.Unknown,
         lit ''The source contains multiple potentially conflicting state phrases; no stronger state is asserted without human review.'',
         Some (citation r content (snd (snd (last candidates)))))
      else if candidates \<noteq> [] then
        (fst (last candidates), fst (snd (last candidates)),
         Some (citation r content (snd (snd (last candidates)))))
      else
        (MentionDetected,
         lit ''A taxonomy term appears, but the source span does not establish proposal, approval, purchase, deployment, or another stronger state.'',
         None))"

definition classify_document ::
  "text_lib \<Rightarrow> EvidenceRecord \<Rightarrow> str \<Rightarrow> FindingState \<times> str \<times> Citation option" where
  "classify_document L r content = classify_with_filter L r content (\<lambda>_. True)"

definition abs_diff :: "nat \<Rightarrow> nat \<Rightarrow> nat" where
  "abs_diff a b = (if a < b then b - a else a - b)"

definition near :: "str \<Rightarrow> Citation list \<Rightarrow> nat \<Rightarrow> bool" where
  "near content term_citations i \<longleftrightarrow>
     i < length (lines content) \<and> starts_with (lines content ! i) (lit ''Action:'') \<or>
     list_ex (\<lambda>c. abs_diff (unat (loc_start (cit_locator c))) (i + 1) \<le> 3) term_citations"

definition classify_near ::
  "text_lib \<Rightarrow> EvidenceRecord \<Rightarrow> str \<Rightarrow> Citation list \<Rightarrow> FindingState \<times> str \<times> Citation option" where
  "classify_near L r content term_citations = classify_with_filter L r content (near content term_citations)"

section \<open>The scan\<close>

text \<open>The line a rule cites: the first good line of its first term that has one.\<close>

definition rule_line :: "text_lib \<Rightarrow> str \<Rightarrow> Rule \<Rightarrow> nat option" where
  "rule_line L content r =
     first_some (\<lambda>trm. find (\<lambda>i. \<not> is_false_positive L r (line_at content i)) (find_term_lines L content trm))
       (rule_terms r)"

definition scan_hits :: "text_lib \<Rightarrow> str \<Rightarrow> RuleSet \<Rightarrow> (str \<times> nat) list" where
  "scan_hits L content rules =
     List.map_filter (\<lambda>r. map_option (Pair (rule_id r)) (rule_line L content r)) (rs_rules rules)"

definition term_citations :: "EvidenceRecord \<Rightarrow> str \<Rightarrow> nat list \<Rightarrow> Citation list" where
  "term_citations r content is =
     dedup_by_key (\<lambda>c. (cit_evidence_id c, loc_start (cit_locator c)))
       (sort_key (loc_start \<circ> cit_locator) (map (citation r content) is))"

definition scan ::
  "text_lib \<Rightarrow> hash \<Rightarrow> (RuleSet \<Rightarrow> str option) \<Rightarrow> EvidenceRecord \<Rightarrow> str \<Rightarrow> RuleSet \<Rightarrow> Finding option" where
  "scan L sha to_yaml r content rules =
     (let hits = scan_hits L content rules in
      if hits = [] then None
      else
        let cites = term_citations r content (map snd hits);
            (state, reason, state_citation) = classify_near L r content cites;
            matched_rule_ids = sort (remdups (map fst hits));
            digest = rules_digest sha to_yaml rules in
        Some \<lparr>fnd_id = stable_id sha (lit ''finding'')
                [evr_id r, finding_state_label state, join (lit '','') matched_rule_ids,
                 show_nat (unat (rs_version rules)), digest],
              fnd_evidence_id = evr_id r, fnd_jurisdiction = evr_jurisdiction r, fnd_state = state,
              fnd_classification_reason = reason, fnd_rules_version = rs_version rules,
              fnd_rules_digest = digest, fnd_matched_rule_ids = matched_rule_ids,
              fnd_citations = cites @ (case state_citation of None \<Rightarrow> [] | Some c \<Rightarrow> [c])\<rparr>)"

definition rule_matches :: "text_lib \<Rightarrow> Rule \<Rightarrow> str \<Rightarrow> bool" where
  "rule_matches L r content =
     list_ex (\<lambda>trm. list_ex (\<lambda>i. \<not> is_false_positive L r (line_at content i)) (find_term_lines L content trm))
       (rule_terms r)"

section \<open>Rule files\<close>

lemma check_rules_iff:
  "check_rules ids rs = Inr () \<longleftrightarrow>
     list_all (\<lambda>r. trim (rule_id r) \<noteq> [] \<and> rule_terms r \<noteq> []) rs \<and>
     distinct (map rule_id rs) \<and> set (map rule_id rs) \<inter> set ids = {}"
  by (induction rs arbitrary: ids) auto

lemma validate_rules_iff:
  "validate_rules rules = Inr () \<longleftrightarrow>
     rs_version rules \<noteq> 0 \<and> rs_rules rules \<noteq> [] \<and> distinct (map rule_id (rs_rules rules)) \<and>
     list_all (\<lambda>r. trim (rule_id r) \<noteq> [] \<and> rule_terms r \<noteq> []) (rs_rules rules)"
  by (auto simp: validate_rules_def check_rules_iff)

text \<open>
  The rules that are loaded are exactly the well-formed ones: a file is accepted when it reads,
  parses, has a positive version and at least one rule, every rule has terms and an identifier that is
  not blank, and no identifier is used twice; what is returned is what was parsed.
\<close>

theorem load_rules_accepts_iff:
  "load_rules from_slice file = Inr rules \<longleftrightarrow>
     Option.bind file from_slice = Some rules \<and>
     rs_version rules \<noteq> 0 \<and> rs_rules rules \<noteq> [] \<and> distinct (map rule_id (rs_rules rules)) \<and>
     list_all (\<lambda>r. trim (rule_id r) \<noteq> [] \<and> rule_terms r \<noteq> []) (rs_rules rules)"
  using validate_rules_iff [of rules]
  by (auto simp: load_rules_def split: option.splits sum.splits)

section \<open>Citations\<close>

lemma find_term_lines_lt: "i \<in> set (find_term_lines L content trm) \<Longrightarrow> i < length (lines content)"
  by (auto simp: find_term_lines_def split: option.splits)

definition line_holds :: "text_lib \<Rightarrow> str \<Rightarrow> str \<Rightarrow> bool" where
  "line_holds L trm line \<longleftrightarrow> rx_compiles L (term_pattern L trm) \<and> rx_is_match L (term_pattern L trm) line"

lemma find_term_lines_iff:
  "i \<in> set (find_term_lines L content trm) \<longleftrightarrow>
     i < length (lines content) \<and> line_holds L trm (lines content ! i)"
  by (auto simp: find_term_lines_def term_regex_def line_holds_def split: option.splits if_splits)

text \<open>A citation that quotes, verbatim, the line its locator names.\<close>

definition cites_line :: "EvidenceRecord \<Rightarrow> str \<Rightarrow> Citation \<Rightarrow> bool" where
  "cites_line r content c \<longleftrightarrow>
     cit_evidence_id c = evr_id r \<and> cit_source_url c = evr_source_url r \<and>
     loc_kind (cit_locator c) = lit ''line'' \<and> loc_end (cit_locator c) = loc_start (cit_locator c) \<and>
     loc_label (cit_locator c) = lit ''line '' @ show_nat (unat (loc_start (cit_locator c))) \<and>
     0 < unat (loc_start (cit_locator c)) \<and> unat (loc_start (cit_locator c)) \<le> length (lines content) \<and>
     cit_quote c = lines content ! (unat (loc_start (cit_locator c)) - 1)"

lemma unat_start_citation:
  "Suc i < 2 ^ 32 \<Longrightarrow> unat (loc_start (cit_locator (citation r content i))) = Suc i"
  by (simp add: citation_def Let_def unat_of_nat take_bit_nat_eq_self del: of_nat_Suc)

lemma citation_cites_line:
  assumes "length (lines content) < 2 ^ 32" "i < length (lines content)"
  shows "cites_line r content (citation r content i)"
proof -
  have start: "unat (loc_start (cit_locator (citation r content i))) = Suc i"
    using assms by (intro unat_start_citation) simp
  have "loc_label (cit_locator (citation r content i)) =
      lit ''line '' @ show_nat (unat (loc_start (cit_locator (citation r content i))))"
    "loc_end (cit_locator (citation r content i)) = loc_start (cit_locator (citation r content i))"
    by (simp_all add: citation_def Let_def)
  then show ?thesis
    unfolding cites_line_def start using assms(2) by (simp add: citation_def line_at_def Let_def)
qed

section \<open>What the classifier asserts\<close>

text \<open>A phrase of the state stands, neither negated nor conditional, on an accepted line.\<close>

definition state_ground :: "text_lib \<Rightarrow> str \<Rightarrow> (nat \<Rightarrow> bool) \<Rightarrow> FindingState \<Rightarrow> nat \<Rightarrow> bool" where
  "state_ground L content accepts state i \<longleftrightarrow>
     (\<exists>phrases reason phrase. (state, phrases, reason) \<in> set PATTERNS \<and> phrase \<in> set phrases \<and>
        i < length (lines content) \<and> line_holds L phrase (lines content ! i) \<and> accepts i \<and>
        \<not> is_negated_or_conditional L (lines content ! i) phrase)"

definition grounded_states :: "text_lib \<Rightarrow> str \<Rightarrow> (nat \<Rightarrow> bool) \<Rightarrow> FindingState set" where
  "grounded_states L content accepts = {state. \<exists>i. state_ground L content accepts state i}"

lemma state_candidates_iff:
  "(\<exists>reason. (state, reason, i) \<in> set (state_candidates L content accepts)) \<longleftrightarrow>
   state_ground L content accepts state i"
  unfolding state_candidates_def state_ground_def
  by (fastforce simp: find_term_lines_iff line_at_def)

definition final_candidates :: "text_lib \<Rightarrow> str \<Rightarrow> (nat \<Rightarrow> bool) \<Rightarrow> (FindingState \<times> str \<times> nat) list" where
  "final_candidates L content accepts =
     dedup_by_key (\<lambda>(state, _, i). (state, i)) (sort_key (\<lambda>(_, _, i). i) (state_candidates L content accepts))"

lemma final_candidates_iff:
  "(\<exists>reason. (state, reason, i) \<in> set (final_candidates L content accepts)) \<longleftrightarrow>
   state_ground L content accepts state i"
proof -
  have key: "(\<exists>reason. (state, reason, i) \<in> set xs) \<longleftrightarrow> (state, i) \<in> (\<lambda>(state, _, i). (state, i)) ` set xs"
    for xs :: "(FindingState \<times> str \<times> nat) list"
    by force
  show ?thesis
    unfolding key final_candidates_def dedup_by_key_keys set_sort
    unfolding key [symmetric] by (rule state_candidates_iff)
qed

lemma fst_final_candidates: "fst ` set (final_candidates L content accepts) = grounded_states L content accepts"
proof -
  have "state \<in> fst ` set (final_candidates L content accepts) \<longleftrightarrow>
      (\<exists>i reason. (state, reason, i) \<in> set (final_candidates L content accepts))" for state
    by force
  then show ?thesis
    by (intro set_eqI) (simp only: grounded_states_def mem_Collect_eq final_candidates_iff [symmetric])
qed

lemma inj_finding_state_label: "inj finding_state_label"
proof (rule injI)
  show "finding_state_label a = finding_state_label b \<Longrightarrow> a = b" for a b
    by (cases a; cases b) simp_all
qed

lemma more_than_one_label_iff:
  "length (remdups (map (\<lambda>(state, _, _). finding_state_label state) xs)) > 1 \<longleftrightarrow>
   (\<exists>a \<in> fst ` set xs. \<exists>b \<in> fst ` set xs. a \<noteq> b)" (is "?l > 1 \<longleftrightarrow> _")
proof -
  have "?l = card (finding_state_label ` (fst ` set xs))"
    by (simp add: length_remdups_card_conv image_image case_prod_unfold)
  also have "\<dots> = card (fst ` set xs)"
    by (rule card_image) (rule inj_on_subset [OF inj_finding_state_label subset_UNIV])
  finally have "?l = card (fst ` set xs)" .
  then show ?thesis
    by (metis One_nat_def List.finite_set card_le_Suc0_iff_eq finite_imageI not_le)
qed

lemma classify_with_filter_eq:
  "classify_with_filter L r content accepts =
     (let candidates = final_candidates L content accepts in
      if \<exists>a \<in> grounded_states L content accepts. \<exists>b \<in> grounded_states L content accepts. a \<noteq> b then
        (FindingState.Unknown,
         lit ''The source contains multiple potentially conflicting state phrases; no stronger state is asserted without human review.'',
         Some (citation r content (snd (snd (last candidates)))))
      else if candidates \<noteq> [] then
        (fst (last candidates), fst (snd (last candidates)),
         Some (citation r content (snd (snd (last candidates)))))
      else
        (MentionDetected,
         lit ''A taxonomy term appears, but the source span does not establish proposal, approval, purchase, deployment, or another stronger state.'',
         None))"
  unfolding classify_with_filter_def Let_def more_than_one_label_iff final_candidates_def [symmetric]
    fst_final_candidates ..

lemma final_candidates_Nil_iff: "final_candidates L content accepts = [] \<longleftrightarrow> grounded_states L content accepts = {}"
  unfolding fst_final_candidates [symmetric] by simp

lemma fst_last_final_candidates:
  "final_candidates L content accepts \<noteq> [] \<Longrightarrow>
   fst (last (final_candidates L content accepts)) \<in> grounded_states L content accepts"
  unfolding fst_final_candidates [symmetric] by (metis imageI last_in_set)

lemma last_final_candidate_ground:
  "final_candidates L content accepts \<noteq> [] \<Longrightarrow>
   state_ground L content accepts (fst (last (final_candidates L content accepts)))
     (snd (snd (last (final_candidates L content accepts))))"
  by (metis final_candidates_iff last_in_set prod.collapse)

lemma grounded_states_strong: "grounded_states L content accepts \<inter> {MentionDetected, FindingState.Unknown} = {}"
  by (auto simp: grounded_states_def state_ground_def PATTERNS_def)

text \<open>
  The classifier asserts a state exactly when the accepted lines speak of that state only: with no
  state phrase on them, neither negated nor conditional, the state is a mere mention; with phrases of
  one state it is that state; with phrases of several it is unknown, whichever comes last.
\<close>

theorem classifier_asserts_single_state:
  "fst (classify_with_filter L r content accepts) =
     (let states = grounded_states L content accepts in
      if states = {} then MentionDetected
      else if is_singleton states then the_elem states else FindingState.Unknown)"
proof -
  let ?G = "grounded_states L content accepts"
  consider "?G = {}" | a where "?G = {a}" | a b where "a \<in> ?G" "b \<in> ?G" "a \<noteq> b" by blast
  then show ?thesis
  proof cases
    case 1
    then show ?thesis by (simp add: classify_with_filter_eq final_candidates_Nil_iff Let_def)
  next
    case (2 a)
    then show ?thesis
      using fst_last_final_candidates [of L content accepts]
      by (simp add: classify_with_filter_eq final_candidates_Nil_iff Let_def)
  next
    case (3 a b)
    then have "\<not> is_singleton ?G" by (auto simp: is_singleton_def)
    with 3 show ?thesis by (auto simp: classify_with_filter_eq Let_def)
  qed
qed

lemma classify_citation:
  assumes "classify_with_filter L r content accepts = (state, reason, Some c)"
  shows "\<exists>i st. c = citation r content i \<and> state_ground L content accepts st i"
  using assms last_final_candidate_ground [of L content accepts]
  by (auto simp: classify_with_filter_eq Let_def final_candidates_Nil_iff split: if_splits)

lemma state_candidates_filter:
  "state_candidates L content accepts = filter (\<lambda>(_, _, i). accepts i) (state_candidates L content (\<lambda>_. True))"
  unfolding state_candidates_def
  by (simp add: filter_concat comp_def case_prod_unfold filter_map conj_commute)

section \<open>What the scan reports\<close>

lemma rule_lineD:
  assumes "rule_line L content r = Some i"
  shows "i < length (lines content) \<and> (\<exists>trm \<in> set (rule_terms r). line_holds L trm (lines content ! i)) \<and>
    \<not> is_false_positive L r (lines content ! i)"
proof -
  from assms obtain trm where "trm \<in> set (rule_terms r)"
    "find (\<lambda>i. \<not> is_false_positive L r (line_at content i)) (find_term_lines L content trm) = Some i"
    by (auto simp: rule_line_def dest: first_some_SomeD)
  then have "i \<in> set (find_term_lines L content trm) \<and> \<not> is_false_positive L r (line_at content i)"
    by (auto simp: find_Some_iff dest: nth_mem)
  then show ?thesis using \<open>trm \<in> set (rule_terms r)\<close> by (auto simp: find_term_lines_iff line_at_def)
qed

lemma rule_line_None_iff: "rule_line L content r = None \<longleftrightarrow> \<not> rule_matches L r content"
  by (auto simp: rule_line_def rule_matches_def find_None_iff list_ex_iff)

lemma rule_matches_iff:
  "rule_matches L r content \<longleftrightarrow> list_ex (\<lambda>line. list_ex (\<lambda>trm. line_holds L trm line) (rule_terms r) \<and>
     \<not> is_false_positive L r line) (lines content)"
proof -
  have "(\<exists>i \<in> set (find_term_lines L content trm). \<not> is_false_positive L r (line_at content i)) \<longleftrightarrow>
      (\<exists>line \<in> set (lines content). line_holds L trm line \<and> \<not> is_false_positive L r line)" for trm
    unfolding Bex_def find_term_lines_iff line_at_def in_set_conv_nth [of _ "lines content"] by auto
  then show ?thesis by (auto simp: rule_matches_def list_ex_iff)
qed

lemma scan_hits_set:
  "set (scan_hits L content rules) =
     {(rule_id r, i) | r i. r \<in> set (rs_rules rules) \<and> rule_line L content r = Some i}"
  by (auto simp: scan_hits_def set_map_filter)

lemma fst_scan_hits:
  "fst ` set (scan_hits L content rules) = rule_id ` {r \<in> set (rs_rules rules). rule_matches L r content}"
proof -
  have "rule_matches L r content \<longleftrightarrow> (\<exists>i. rule_line L content r = Some i)" for r
    using rule_line_None_iff [of L content r] by auto
  then show ?thesis unfolding scan_hits_set by (auto simp: image_iff) blast
qed

lemma scan_hits_Nil_iff: "scan_hits L content rules = [] \<longleftrightarrow> \<not> list_ex (\<lambda>r. rule_matches L r content) (rs_rules rules)"
proof -
  have "scan_hits L content rules = [] \<longleftrightarrow> fst ` set (scan_hits L content rules) = {}" by simp
  then show ?thesis unfolding fst_scan_hits by (auto simp: list_ex_iff)
qed

lemma scan_None_iff: "scan L sha to_yaml r content rules = None \<longleftrightarrow> \<not> list_ex (\<lambda>r. rule_matches L r content) (rs_rules rules)"
  by (simp add: scan_def Let_def scan_hits_Nil_iff split: prod.split)

lemma scan_SomeD:
  assumes "scan L sha to_yaml r content rules = Some f"
  shows "\<exists>state reason state_citation.
    classify_near L r content (term_citations r content (map snd (scan_hits L content rules))) =
      (state, reason, state_citation) \<and> scan_hits L content rules \<noteq> [] \<and>
    fnd_state f = state \<and> fnd_evidence_id f = evr_id r \<and>
    fnd_matched_rule_ids f = sort (remdups (map fst (scan_hits L content rules))) \<and>
    fnd_citations f = term_citations r content (map snd (scan_hits L content rules)) @
      (case state_citation of None \<Rightarrow> [] | Some c \<Rightarrow> [c])"
  using assms by (auto simp: scan_def Let_def split: if_splits prod.splits)

lemma term_citations_subset: "set (term_citations r content is) \<subseteq> citation r content ` set is"
  unfolding term_citations_def by (rule order_trans [OF dedup_by_key_subset]) auto

lemma term_citations_Nil_iff [simp]: "term_citations r content is = [] \<longleftrightarrow> is = []"
  unfolding term_citations_def dedup_by_key_Nil_iff by (metis length_0_conv length_map length_sort)

text \<open>Of the citations of one line number one stays, and the line number determines the rest.\<close>

lemma citation_eqI:
  assumes "loc_start (cit_locator (citation r content i)) = loc_start (cit_locator (citation r content j))"
    "Suc i < 2 ^ 32" "Suc j < 2 ^ 32"
  shows "citation r content i = citation r content j"
proof -
  have "Suc i = Suc j"
    using assms(1) unat_start_citation [OF assms(2), of r content] unat_start_citation [OF assms(3), of r content]
    by metis
  then show ?thesis by simp
qed

lemma term_citations_complete:
  assumes "i \<in> set is" "\<forall>i \<in> set is. Suc i < 2 ^ 32"
  shows "citation r content i \<in> set (term_citations r content is)"
proof -
  let ?k = "\<lambda>c. (cit_evidence_id c, loc_start (cit_locator c))"
  have "?k ` set (term_citations r content is) = ?k ` citation r content ` set is"
    unfolding term_citations_def dedup_by_key_keys by simp
  then obtain c where c: "c \<in> set (term_citations r content is)" "?k c = ?k (citation r content i)"
    using assms(1) by (metis (no_types, lifting) imageE imageI)
  then obtain j where j: "j \<in> set is" "c = citation r content j" using term_citations_subset by blast
  have "c = citation r content i"
    using citation_eqI [of r content j i] assms j c(2) by auto
  with c show ?thesis by simp
qed

lemma scan_cited:
  assumes "scan L sha to_yaml r content rules = Some f" "length (lines content) < 2 ^ 32 - 1"
  shows "list_all (cites_line r content) (fnd_citations f) \<and> fnd_evidence_id f = evr_id r"
proof -
  obtain state reason sc where f: "classify_near L r content (term_citations r content (map snd (scan_hits L content rules))) =
      (state, reason, sc)" "fnd_evidence_id f = evr_id r"
    "fnd_citations f = term_citations r content (map snd (scan_hits L content rules)) @ (case sc of None \<Rightarrow> [] | Some c \<Rightarrow> [c])"
    using scan_SomeD [OF assms(1)] by blast
  have len: "length (lines content) < 2 ^ 32" using assms(2) by simp
  have "cites_line r content c" if c: "c \<in> set (term_citations r content (map snd (scan_hits L content rules)))" for c
  proof -
    obtain i where "i \<in> snd ` set (scan_hits L content rules)" "c = citation r content i"
      using subsetD [OF term_citations_subset c] by auto
    moreover from this(1) have "i < length (lines content)"
      unfolding scan_hits_set using rule_lineD by fastforce
    ultimately show ?thesis using citation_cites_line [OF len] by simp
  qed
  moreover have "cites_line r content c" if sc: "sc = Some c" for c
  proof -
    obtain i st accepts where "c = citation r content i" "state_ground L content accepts st i"
      using classify_citation f(1) sc unfolding classify_near_def by metis
    then show ?thesis using citation_cites_line [OF len] by (auto simp: state_ground_def)
  qed
  ultimately show ?thesis using f by (auto simp: list_all_iff split: option.splits)
qed

text \<open>
  Every citation of a finding quotes the text verbatim: it names the record and a line of the text,
  counted from one, and its quote is exactly that line.
\<close>

theorem scan_cites_verbatim:
  assumes "scan L sha to_yaml r content rules = Some f" "length (lines content) < 2 ^ 32 - 1"
  shows "list_all (cites_line r content) (fnd_citations f) \<and> fnd_evidence_id f = evr_id r"
  by (rule scan_cited [OF assms])

text \<open>
  C24: A scan finds exactly the rules that match: there is no finding exactly when no line of the text
  holds a term of a rule without one of its false-positive phrases; a finding lists the identifiers of
  all matching rules, in order and without repetition, and for each of them cites a line that holds a
  term of the rule and none of its false-positive phrases.
\<close>

theorem scan_reports_matching_rules:
  assumes "length (lines content) < 2 ^ 32 - 1"
  shows "case scan L sha to_yaml r content rules of
      None \<Rightarrow> \<not> list_ex (\<lambda>u. rule_matches L u content) (rs_rules rules)
    | Some f \<Rightarrow>
        fnd_matched_rule_ids f = sorted_list_of_set (rule_id ` {u \<in> set (rs_rules rules). rule_matches L u content}) \<and>
        list_ex (\<lambda>u. rule_matches L u content) (rs_rules rules) \<and>
        (\<forall>u \<in> set (rs_rules rules). rule_matches L u content \<longrightarrow>
           (\<exists>c \<in> set (fnd_citations f). list_ex (\<lambda>trm. line_holds L trm (cit_quote c)) (rule_terms u) \<and>
              \<not> is_false_positive L u (cit_quote c)))"
proof (cases "scan L sha to_yaml r content rules")
  case None
  then have "\<not> list_ex (\<lambda>u. rule_matches L u content) (rs_rules rules)" using scan_None_iff by metis
  with None show ?thesis by simp
next
  case (Some f)
  let ?is = "map snd (scan_hits L content rules)"
  obtain sc where f: "scan_hits L content rules \<noteq> []"
    "fnd_matched_rule_ids f = sort (remdups (map fst (scan_hits L content rules)))"
    "fnd_citations f = term_citations r content ?is @ (case sc of None \<Rightarrow> [] | Some c \<Rightarrow> [c])"
    using scan_SomeD [OF Some] by blast
  have ids: "fnd_matched_rule_ids f = sorted_list_of_set (rule_id ` {u \<in> set (rs_rules rules). rule_matches L u content})"
    unfolding f(2) fst_scan_hits [symmetric] set_map [symmetric]
    by (rule sorted_list_of_set_sort_remdups [symmetric])
  have "\<exists>c \<in> set (fnd_citations f). list_ex (\<lambda>trm. line_holds L trm (cit_quote c)) (rule_terms u) \<and>
      \<not> is_false_positive L u (cit_quote c)" if u: "u \<in> set (rs_rules rules)" "rule_matches L u content" for u
  proof -
    obtain i where i: "rule_line L content u = Some i" using u(2) rule_line_None_iff [of L content u] by auto
    then have "i \<in> set ?is" using u(1) by (force simp: scan_hits_set)
    moreover have "\<forall>i \<in> set ?is. Suc i < 2 ^ 32" using assms by (auto simp: scan_hits_set dest!: rule_lineD)
    ultimately have "citation r content i \<in> set (fnd_citations f)"
      unfolding f(3) by (simp add: term_citations_complete)
    moreover have "cit_quote (citation r content i) = lines content ! i"
      using rule_lineD [OF i] by (simp add: citation_def line_at_def Let_def)
    ultimately show ?thesis
      using rule_lineD [OF i] by (intro bexI [of _ "citation r content i"]) (auto simp: list_ex_iff)
  qed
  then show ?thesis using Some ids f(1) scan_hits_Nil_iff by auto
qed

text \<open>
  C26: A finding asserts a state only on grounds near a match: any state other than a mere mention or
  unknown has a phrase of that state, neither negated nor conditional, on a line that is an action line
  or within three lines of a cited match; that line is the last citation; and no line accepted so has a
  phrase of another state.
\<close>

theorem scan_state_has_ground:
  assumes "scan L sha to_yaml r content rules = Some f" "fnd_state f \<notin> {MentionDetected, FindingState.Unknown}"
  shows "\<exists>i cites. fnd_citations f = cites @ [citation r content i] \<and>
    state_ground L content (near content cites) (fnd_state f) i \<and>
    grounded_states L content (near content cites) = {fnd_state f}"
proof -
  let ?cites = "term_citations r content (map snd (scan_hits L content rules))"
  let ?G = "grounded_states L content (near content ?cites)"
  let ?C = "final_candidates L content (near content ?cites)"
  obtain reason sc where c: "classify_with_filter L r content (near content ?cites) = (fnd_state f, reason, sc)"
    "fnd_citations f = ?cites @ (case sc of None \<Rightarrow> [] | Some c \<Rightarrow> [c])"
    using scan_SomeD [OF assms(1)] unfolding classify_near_def by blast
  have C: "?C \<noteq> []" "sc = Some (citation r content (snd (snd (last ?C))))" "fnd_state f = fst (last ?C)"
    "\<not> (\<exists>a \<in> ?G. \<exists>b \<in> ?G. a \<noteq> b)"
    using c(1) assms(2) by (auto simp: classify_with_filter_eq Let_def split: if_splits)
  have ground: "state_ground L content (near content ?cites) (fst (last ?C)) (snd (snd (last ?C)))"
    by (rule last_final_candidate_ground [OF C(1)])
  then have "fst (last ?C) \<in> ?G" by (auto simp: grounded_states_def)
  with C(4) have "?G = {fst (last ?C)}" by blast
  then show ?thesis using c(2) C(2,3) ground by auto
qed

section \<open>A concrete library and a concrete text\<close>

text \<open>Matching that ignores ASCII case, with no word boundaries.\<close>

definition plain_lib :: text_lib where
  "plain_lib = \<lparr>rx_escape = (\<lambda>s. s), rx_compiles = (\<lambda>_. True),
     rx_is_match = (\<lambda>p l. str_contains (to_ascii_lowercase l) (drop 4 p)),
     rx_find_iter = (\<lambda>_ _. []), to_lowercase = (\<lambda>s. to_ascii_lowercase s), is_alphanumeric = (\<lambda>_. False)\<rparr>"

definition sample_record :: EvidenceRecord where
  "sample_record = \<lparr>evr_id = lit ''evidence:1'', evr_jurisdiction = lit ''Colorado Springs'',
     evr_source_url = lit ''https://example.org/a'', evr_source_type = SourceType.Agenda,
     evr_document_title = lit ''Agenda'', evr_publication_date = None,
     evr_retrieval_timestamp = lit ''2026-08-17T00:00:00Z'', evr_mime_type = lit ''text/plain'',
     evr_sha256 = [], evr_original_filename = [], evr_extraction_method = [],
     evr_extraction_status = ExtractionStatus.Complete, evr_extraction_error = None, evr_locators = [],
     evr_matched_rule_ids = [], evr_quoted_source_spans = [], evr_supersedes = None, evr_processing_version = []\<rparr>"

definition drone_rule :: Rule where
  "drone_rule = \<lparr>rule_id = lit ''drone'', rule_label = lit ''Drone'', rule_category = lit ''technology'',
     rule_terms = [lit ''drone''], rule_false_positive_phrases = [lit ''drone bee''], rule_rationale = []\<rparr>"

definition sample_rules :: RuleSet where
  "sample_rules = \<lparr>rs_version = 1, rs_rules = [drone_rule]\<rparr>"

text \<open>The second line matches, the third approves, the first is about bees.\<close>

definition sample_text :: str where
  "sample_text = text_line (lit ''A drone bee'') @ text_line (lit ''A drone'') @ lit ''approved''"

lemmas sample_defs = plain_lib_def sample_record_def drone_rule_def sample_rules_def sample_text_def

lemma sample_lines: "lines sample_text = [lit ''A drone bee'', lit ''A drone'', lit ''approved'']"
  by code_simp

lemma sample_hits: "scan_hits plain_lib sample_text sample_rules = [(lit ''drone'', 1)]"
  by code_simp

lemma sample_candidates:
  "map (\<lambda>(state, _, i). (state, i)) (state_candidates plain_lib sample_text (\<lambda>_. True)) = [(FindingState.Approved, 2)]"
  by code_simp

lemma term_citations_single [simp]: "term_citations r content [i] = [citation r content i]"
  by (simp add: term_citations_def)

lemma sample_near: "near sample_text [citation sample_record sample_text 1] 2"
  by (simp add: near_def citation_def abs_diff_def)

lemma sample_state:
  "\<exists>reason. classify_near plain_lib sample_record sample_text [citation sample_record sample_text 1] =
     (FindingState.Approved, reason, Some (citation sample_record sample_text 2))"
proof -
  obtain reason where c: "state_candidates plain_lib sample_text (\<lambda>_. True) = [(FindingState.Approved, reason, 2)]"
    using sample_candidates by (auto simp: map_eq_Cons_conv)
  have "state_candidates plain_lib sample_text (near sample_text [citation sample_record sample_text 1]) =
      [(FindingState.Approved, reason, 2)]"
    unfolding state_candidates_filter [of _ _ "near _ _"] c using sample_near by simp
  then show ?thesis by (simp add: classify_near_def classify_with_filter_def)
qed

definition sample_scan :: "Finding option" where
  "sample_scan = scan plain_lib (\<lambda>_. []) (\<lambda>_. None) sample_record sample_text sample_rules"

lemma sample_scan_eq:
  "\<exists>f. sample_scan = Some f \<and> fnd_state f = FindingState.Approved \<and>
     fnd_citations f = [citation sample_record sample_text 1, citation sample_record sample_text 2]"
  using sample_state unfolding sample_scan_def scan_def sample_hits by (auto simp: Let_def)

theorem scan_cites_verbatim_witness:
  "\<exists>f. sample_scan = Some f \<and> list_all (cites_line sample_record sample_text) (fnd_citations f) \<and>
     length (fnd_citations f) = 2"
proof -
  obtain f where f: "sample_scan = Some f" "length (fnd_citations f) = 2" using sample_scan_eq by auto
  then show ?thesis
    using scan_cites_verbatim [OF f(1) [unfolded sample_scan_def]] by (auto simp: sample_lines)
qed

theorem scan_reports_matching_rules_witness:
  "\<exists>f. sample_scan = Some f \<and> fnd_matched_rule_ids f = [lit ''drone'']"
proof -
  obtain f where f: "sample_scan = Some f" using sample_scan_eq by auto
  have m: "rule_matches plain_lib drone_rule sample_text" by code_simp
  have ids: "rule_id ` {u \<in> set (rs_rules sample_rules). rule_matches plain_lib u sample_text} = {lit ''drone''}"
    using m by (auto simp: sample_rules_def drone_rule_def image_iff)
  have "fnd_matched_rule_ids f =
      sorted_list_of_set (rule_id ` {u \<in> set (rs_rules sample_rules). rule_matches plain_lib u sample_text})"
    using scan_reports_matching_rules [where content = sample_text and L = plain_lib and sha = "\<lambda>_. []"
        and to_yaml = "\<lambda>_. None" and r = sample_record and rules = sample_rules, folded sample_scan_def,
        unfolded f option.case]
    by (simp add: sample_lines)
  then show ?thesis using f unfolding ids by auto
qed

theorem scan_state_has_ground_witness:
  "\<exists>f cites. sample_scan = Some f \<and>
     grounded_states plain_lib sample_text (near sample_text cites) = {FindingState.Approved}"
proof -
  obtain f where f: "sample_scan = Some f" "fnd_state f = FindingState.Approved" using sample_scan_eq by auto
  then show ?thesis
    using scan_state_has_ground [OF f(1) [unfolded sample_scan_def]] by auto
qed

end
