(* ===== verification/Subjects.thy ===== *)
theory Subjects
  imports Detect
begin

text \<open>
  Document roles, subjects and actions of a matter (\<open>pnull-detect/src/lib.rs\<close>): what kind of document a
  record is, the institutional subjects a text is about, and the actions it records on them.
\<close>

section \<open>The role of a document\<close>

definition holds_any :: "str \<Rightarrow> string list \<Rightarrow> bool" where
  "holds_any lower phrases = list_ex (\<lambda>p. str_contains lower (lit p)) phrases"

definition is_presentation :: "text_lib \<Rightarrow> str \<Rightarrow> bool" where
  "is_presentation L content =
     holds_any (to_lowercase L content) [''presentation'', ''slide'', ''work session'', ''informational briefing'']"

definition document_role :: "text_lib \<Rightarrow> EvidenceRecord \<Rightarrow> str \<Rightarrow> DocumentRole" where
  "document_role L r content =
     (let lower = to_lowercase L content in
      if holds_any lower [''be it ordained'', ''ordinance no.'', ''ordained by''] then DocumentRole.Ordinance
      else if is_presentation L content then DocumentRole.Presentation
      else if evr_source_type r = SourceType.Agenda \<or> holds_any lower [''action:''] then DocumentRole.Agenda
      else if holds_any lower [''minutes''] \<and> holds_any lower [''roll call'', ''adopted''] then DocumentRole.Minutes
      else
        case evr_source_type r of
          SourceType.Contract \<Rightarrow> DocumentRole.Contract
        | SourceType.Amendment \<Rightarrow> DocumentRole.Amendment
        | SourceType.OfficialApi \<Rightarrow> DocumentRole.Other
        | SourceType.Agenda \<Rightarrow> DocumentRole.Other
        | _ \<Rightarrow>
            if holds_any lower [''solicitation'', ''request for proposals''] then DocumentRole.Solicitation
            else if holds_any lower [''policy''] then DocumentRole.Policy
            else DocumentRole.Other)"

section \<open>The primary subject\<close>

definition infer_primary_kind :: "text_lib \<Rightarrow> EvidenceRecord \<Rightarrow> str \<Rightarrow> SubjectKind option" where
  "infer_primary_kind L r content =
     (let lower = to_lowercase L content in
      if holds_any lower [''ordinance'', ''be it ordained''] then Some SubjectKind.Ordinance
      else if holds_any lower [''solicitation'', ''request for proposals''] then Some SubjectKind.Solicitation
      else if holds_any lower [''policy''] then Some SubjectKind.Policy
      else if holds_any (to_lowercase L (evr_document_title r)) [''ordinance''] then Some SubjectKind.Ordinance
      else None)"

text \<open>
  The three patterns, 92 being the backslash: the words \<open>ordinance no.\<close>, \<open>resolution no.\<close> or \<open>measure\<close>
  before a number.
\<close>

definition IDENTIFIERS :: "str list" where
  "IDENTIFIERS =
     (let ws = [92] @ lit ''s+''; number = lit ''['' @ [92] @ lit ''w.'' @ [92] @ lit ''-]+'';
          no = ws @ lit ''no'' @ [92] @ lit ''.?'' @ ws in
      [lit ''(?i)ordinance'' @ no @ number, lit ''(?i)resolution'' @ no @ number,
       lit ''(?i)measure'' @ ws @ number])"

definition primary_name :: "text_lib \<Rightarrow> EvidenceRecord \<Rightarrow> str \<Rightarrow> str" where
  "primary_name L r content =
     (case first_some (\<lambda>p. if rx_compiles L p then map_option snd (regex_find L p content) else None) IDENTIFIERS of
        Some found \<Rightarrow> found
      | None \<Rightarrow> if trim (evr_document_title r) \<noteq> [] then trim (evr_document_title r) else lit ''matter'')"

fun role_subject_kind :: "text_lib \<Rightarrow> EvidenceRecord \<Rightarrow> str \<Rightarrow> DocumentRole \<Rightarrow> SubjectKind option" where
  "role_subject_kind L r content DocumentRole.Ordinance = Some SubjectKind.Ordinance"
| "role_subject_kind L r content DocumentRole.Policy = Some SubjectKind.Policy"
| "role_subject_kind L r content DocumentRole.Solicitation = Some SubjectKind.Solicitation"
| "role_subject_kind L r content DocumentRole.Contract = Some SubjectKind.Contract"
| "role_subject_kind L r content DocumentRole.Award = Some SubjectKind.Contract"
| "role_subject_kind L r content DocumentRole.Amendment = Some SubjectKind.Amendment"
| "role_subject_kind L r content DocumentRole.StaffReport = Some SubjectKind.Program"
| "role_subject_kind L r content _ = infer_primary_kind L r content"

definition primary_subject ::
  "text_lib \<Rightarrow> hash \<Rightarrow> str \<Rightarrow> EvidenceRecord \<Rightarrow> str \<Rightarrow> DocumentRole \<Rightarrow> str list \<Rightarrow> Subject option" where
  "primary_subject L sha matter_id r content role citations =
     map_option (\<lambda>kind.
       \<lparr>sub_id = subject_id_for sha matter_id (primary_name L r content), sub_matter_id = matter_id,
        sub_kind = kind, sub_name = primary_name L r content, sub_detail = [], sub_citations = citations,
        sub_known = (kind \<noteq> SubjectKind.Other \<and> kind \<noteq> SubjectKind.Unknown)\<rparr>)
       (role_subject_kind L r content role)"

section \<open>The action on the primary subject\<close>

definition PRIORITY :: "(ActionKind \<times> string list \<times> string) list" where
  "PRIORITY =
     [(ActionKind.Rejected, [''rejected'', ''denied'', ''failed by a vote''],
       ''The source records rejection, denial, or a failed vote of the primary matter.''),
      (ActionKind.Approved, [''finally passed'', ''approved'', ''adopted'', ''authorized''],
       ''The source records final approval, adoption, authorization, or final passage of the primary matter.''),
      (ActionKind.DeploymentReported, [''deployed'', ''in operation'', ''currently using''],
       ''The source reports deployment or current operation of the primary matter.''),
      (ActionKind.PolicyChanged, [''policy change'', ''policy amended'', ''policy revised''],
       ''The source describes a policy change.''),
      (ActionKind.VoteScheduled, [''vote scheduled'', ''will vote'', ''second reading''],
       ''The source schedules a vote on the primary matter.''),
      (ActionKind.HearingScheduled, [''public hearing scheduled'', ''scheduled for hearing'', ''public hearing on''],
       ''The source schedules a public hearing on the primary matter.''),
      (ActionKind.Proposed, [''proposal'', ''proposed'', ''referred'', ''request for information''],
       ''The source describes the primary matter as a proposal or referral.'')]"

definition phrase_asserted :: "text_lib \<Rightarrow> str \<Rightarrow> string \<Rightarrow> bool" where
  "phrase_asserted L content phrase =
     list_ex (\<lambda>i. \<not> is_negated_or_conditional L (line_at content i) (lit phrase))
       (find_term_lines L content (lit phrase))"

definition classify_matter_actions :: "text_lib \<Rightarrow> hash \<Rightarrow> str \<Rightarrow> Subject \<Rightarrow> str \<Rightarrow> Action list" where
  "classify_matter_actions L sha matter_id primary content =
     (let detected = map (\<lambda>(kind, _, summary). (kind, lit summary))
            (filter (\<lambda>(_, phrases, _). list_ex (phrase_asserted L content) phrases) PRIORITY);
          approved = list_ex (\<lambda>(kind, _). kind = ActionKind.Approved) detected;
          rejected = list_ex (\<lambda>(kind, _). kind = ActionKind.Rejected) detected in
      if approved \<and> rejected then []
      else map (\<lambda>(kind, summary).
        \<lparr>act_id = action_id_for sha matter_id (sub_id primary) kind summary, act_matter_id = matter_id,
         act_subject_id = sub_id primary, act_kind = kind, act_summary = summary,
         act_citations = sub_citations primary, act_known = True\<rparr>) (take 1 detected))"

section \<open>Vendors and technologies\<close>

text \<open>Each phrase has one place for the name; it is written as the text before and after it.\<close>

definition CANDIDATES :: "(ActionKind \<times> (string \<times> string) list) list" where
  "CANDIDATES =
     [(ActionKind.Renewed, [(''renewed with '', []), (''renewal of '', []), (''renewed '', '' contract'')]),
      (ActionKind.Expanded, [(''expanded '', []), (''expansion of '', []), (''expanded use of '', [])]),
      (ActionKind.Executed, [(''contract with '', []), (''agreement with '', []),
         (''entered into a contract with '', []), (''signed a contract with '', [])]),
      (ActionKind.Approved, [(''approved purchase of '', []), (''approved the purchase of '', []),
         (''approved a contract with '', [])]),
      (ActionKind.Awarded, [(''awarded to '', []), (''award to '', []), (''contract awarded to '', []),
         (''awarded '', [])])]"

definition binds :: "str \<Rightarrow> str \<Rightarrow> (string \<times> string) list \<Rightarrow> bool" where
  "binds lower name phrases = list_ex (\<lambda>(a, b). str_contains lower (lit a @ name @ lit b)) phrases"

definition vendor_action :: "text_lib \<Rightarrow> str \<Rightarrow> Subject \<Rightarrow> ActionKind \<times> str \<times> bool" where
  "vendor_action L content subj =
     (let lower = to_lowercase L content; name = to_lowercase L (sub_name subj) in
      case find (\<lambda>(_, phrases). binds lower name phrases) CANDIDATES of
        Some (kind, _) \<Rightarrow>
          (kind, lit ''The source explicitly records a '' @ to_lowercase L (action_kind_label kind) @ lit '' of the vendor.'',
           True)
      | None \<Rightarrow>
          (Mentioned,
           lit ''The vendor appears in the source, but no explicit dispositive phrase binds a procurement action to it.'',
           False))"

definition vendor_subject :: "hash \<Rightarrow> str \<Rightarrow> Rule \<Rightarrow> SubjectKind \<Rightarrow> str list \<Rightarrow> Subject" where
  "vendor_subject sha matter_id u kind citations =
     \<lparr>sub_id = subject_id_for sha matter_id (rule_label u), sub_matter_id = matter_id, sub_kind = kind,
      sub_name = rule_label u, sub_detail = [], sub_citations = citations, sub_known = False\<rparr>"

definition rule_subject_kind :: "Rule \<Rightarrow> SubjectKind option" where
  "rule_subject_kind u =
     (if rule_category u = lit ''vendor'' then Some Vendor
      else if rule_category u = lit ''technology'' then Some SurveillanceTechnology else None)"

definition vendor_pair ::
  "text_lib \<Rightarrow> hash \<Rightarrow> str \<Rightarrow> str \<Rightarrow> Subject \<Rightarrow> str list \<Rightarrow> Subject \<times> Action" where
  "vendor_pair L sha matter_id content subj citations =
     (case vendor_action L content subj of
        (action_kind, summary, known) \<Rightarrow>
          (subj,
           \<lparr>act_id = action_id_for sha matter_id (sub_id subj) action_kind summary, act_matter_id = matter_id,
            act_subject_id = sub_id subj, act_kind = action_kind, act_summary = summary,
            act_citations = citations, act_known = known\<rparr>))"

definition vendor_subjects_and_actions ::
  "text_lib \<Rightarrow> hash \<Rightarrow> str \<Rightarrow> str \<Rightarrow> RuleSet \<Rightarrow> str list \<Rightarrow> (Subject \<times> Action) list" where
  "vendor_subjects_and_actions L sha matter_id content rules citations =
     List.map_filter (\<lambda>u.
       case rule_subject_kind u of
         None \<Rightarrow> None
       | Some kind \<Rightarrow>
           if \<not> rule_matches L u content then None
           else Some (vendor_pair L sha matter_id content (vendor_subject sha matter_id u kind citations) citations))
       (rs_rules rules)"

section \<open>All subjects and actions\<close>

definition citation_labels :: "Finding option \<Rightarrow> str \<Rightarrow> str list" where
  "citation_labels finding content =
     (let labels = case finding of None \<Rightarrow> [] | Some f \<Rightarrow> map (loc_label \<circ> cit_locator) (fnd_citations f) in
      if labels \<noteq> [] then labels else if lines content \<noteq> [] then [lit ''document''] else [])"

definition extract_matter_subjects_and_actions ::
  "text_lib \<Rightarrow> hash \<Rightarrow> (RuleSet \<Rightarrow> str option) \<Rightarrow> str \<Rightarrow> EvidenceRecord \<Rightarrow> str \<Rightarrow> RuleSet \<Rightarrow>
   Subject list \<times> Action list" where
  "extract_matter_subjects_and_actions L sha to_yaml matter_id r content rules =
     (let labels = citation_labels (scan L sha to_yaml r content rules) content;
          primary = primary_subject L sha matter_id r content (document_role L r content) labels;
          vendors = vendor_subjects_and_actions L sha matter_id content rules labels in
      (dedupe_by_id sub_id []
         ((case primary of None \<Rightarrow> [] | Some p \<Rightarrow> [p]) @ map fst vendors),
       dedupe_by_id act_id []
         ((case primary of None \<Rightarrow> [] | Some p \<Rightarrow> classify_matter_actions L sha matter_id p content) @
          map snd vendors)))"

section \<open>What is asserted of the primary subject\<close>

lemma map_take_1_filter: "map f (take 1 xs) = (case xs of [] \<Rightarrow> [] | x # _ \<Rightarrow> [f x])"
  by (cases xs) simp_all

definition asserted_kinds :: "text_lib \<Rightarrow> str \<Rightarrow> ActionKind list" where
  "asserted_kinds L content =
     map fst (filter (\<lambda>(_, phrases, _). list_ex (phrase_asserted L content) phrases) PRIORITY)"

text \<open>
  At most one action is asserted of the primary subject: none when the text both approves and
  rejects, otherwise the one of highest priority among the actions that the text asserts on a line that
  neither negates nor conditions it; and it is an action on the primary subject.
\<close>

theorem primary_action_is_strongest:
  "map (\<lambda>a. (act_kind a, act_subject_id a, act_known a)) (classify_matter_actions L sha matter_id primary content) =
     (if {ActionKind.Approved, ActionKind.Rejected} \<subseteq> set (asserted_kinds L content) then []
      else case asserted_kinds L content of [] \<Rightarrow> [] | k # _ \<Rightarrow> [(k, sub_id primary, True)])"
proof -
  let ?F = "filter (\<lambda>(_, phrases, _). list_ex (phrase_asserted L content) phrases) PRIORITY"
  have ex: "list_ex (\<lambda>(kind, _). kind = k) (map (\<lambda>(kind, _, summary). (kind, lit summary)) xs) \<longleftrightarrow> k \<in> set (map fst xs)"
    for k :: ActionKind and xs :: "(ActionKind \<times> string list \<times> string) list"
    by (induction xs) auto
  show ?thesis
    unfolding classify_matter_actions_def Let_def ex asserted_kinds_def map_take_1_filter
    by (cases ?F) (auto split: prod.splits)
qed

section \<open>What is asserted of vendors\<close>

text \<open>Both directions at once: the phrases that decide the action.\<close>

lemma vendor_action_cases:
  obtains (mentioned) summary where "vendor_action L content subj = (Mentioned, summary, False)"
      "\<forall>(kind, phrases) \<in> set CANDIDATES. \<not> binds (to_lowercase L content) (to_lowercase L (sub_name subj)) phrases"
  | (bound) kind phrases summary where "vendor_action L content subj = (kind, summary, True)"
      "(kind, phrases) \<in> set CANDIDATES" "binds (to_lowercase L content) (to_lowercase L (sub_name subj)) phrases"
      "kind \<noteq> Mentioned"
proof (cases "find (\<lambda>(_, phrases). binds (to_lowercase L content) (to_lowercase L (sub_name subj)) phrases) CANDIDATES")
  case None
  with mentioned show thesis by (auto simp: vendor_action_def Let_def find_None_iff)
next
  case (Some c)
  then obtain kind phrases where c: "c = (kind, phrases)" "(kind, phrases) \<in> set CANDIDATES"
    "binds (to_lowercase L content) (to_lowercase L (sub_name subj)) phrases"
    by (cases c) (auto dest: find_SomeD)
  moreover have "kind \<noteq> Mentioned" using c(2) by (auto simp: CANDIDATES_def)
  ultimately show thesis using Some bound by (auto simp: vendor_action_def Let_def)
qed

lemma vendor_entry:
  assumes "(subj, act) \<in> set (vendor_subjects_and_actions L sha matter_id content rules citations)"
  shows "\<exists>u kind. u \<in> set (rs_rules rules) \<and> rule_matches L u content \<and>
    rule_category u \<in> {lit ''vendor'', lit ''technology''} \<and>
    subj = vendor_subject sha matter_id u kind citations \<and> act_subject_id act = sub_id subj \<and>
    act_matter_id act = matter_id \<and> act_citations act = citations \<and>
    vendor_action L content subj = (act_kind act, act_summary act, act_known act)"
proof -
  obtain u kind where u: "u \<in> set (rs_rules rules)" "rule_subject_kind u = Some kind" "rule_matches L u content"
    "(subj, act) = vendor_pair L sha matter_id content (vendor_subject sha matter_id u kind citations) citations"
    using assms by (auto simp: vendor_subjects_and_actions_def set_map_filter split: option.splits if_splits)
  then have "subj = vendor_subject sha matter_id u kind citations"
    "act_subject_id act = sub_id subj" "act_matter_id act = matter_id" "act_citations act = citations"
    "vendor_action L content subj = (act_kind act, act_summary act, act_known act)"
    by (auto simp: vendor_pair_def split: prod.splits)
  moreover have "rule_category u \<in> {lit ''vendor'', lit ''technology''}"
    using u(2) by (auto simp: rule_subject_kind_def split: if_splits)
  ultimately show ?thesis using u(1,3) by blast
qed

text \<open>
  A mention of a vendor never becomes a purchase: each vendor or technology entry belongs to a rule
  of that category that matches the text; its action is more than a mention exactly when the text, in
  lower case, holds a phrase that names the vendor, and then it is an action such a phrase stands for.
\<close>

theorem vendor_action_needs_phrase:
  assumes "(subj, act) \<in> set (vendor_subjects_and_actions L sha matter_id content rules citations)"
  shows "act_subject_id act = sub_id subj \<and>
    list_ex (\<lambda>u. rule_matches L u content \<and> rule_category u \<in> {lit ''vendor'', lit ''technology''} \<and>
      sub_name subj = rule_label u) (rs_rules rules) \<and>
    act_known act = (act_kind act \<noteq> Mentioned) \<and>
    act_known act = list_ex (\<lambda>(_, phrases). binds (to_lowercase L content) (to_lowercase L (sub_name subj)) phrases) CANDIDATES \<and>
    (act_known act \<longrightarrow> list_ex (\<lambda>(kind, phrases). kind = act_kind act \<and>
      binds (to_lowercase L content) (to_lowercase L (sub_name subj)) phrases) CANDIDATES)"
proof -
  obtain u where u: "u \<in> set (rs_rules rules)" "rule_matches L u content"
    "rule_category u \<in> {lit ''vendor'', lit ''technology''}" "sub_name subj = rule_label u"
    "act_subject_id act = sub_id subj" "vendor_action L content subj = (act_kind act, act_summary act, act_known act)"
    using vendor_entry [OF assms] by (auto simp: vendor_subject_def)
  show ?thesis
  proof (cases rule: vendor_action_cases [of L content subj])
    case (mentioned summary)
    then show ?thesis using u by (auto simp: list_ex_iff)
  next
    case (bound kind phrases summary)
    then have "act_known act" "act_kind act = kind" "kind \<noteq> Mentioned" using u(6) by simp_all
    then show ?thesis using u bound(2,3) by (auto simp: list_ex_iff)
  qed
qed

section \<open>The whole extraction\<close>

lemma classify_matter_actions_subject:
  "a \<in> set (classify_matter_actions L sha matter_id primary content) \<Longrightarrow>
     act_subject_id a = sub_id primary \<and> act_matter_id a = matter_id \<and> act_citations a = sub_citations primary"
  by (auto simp: classify_matter_actions_def Let_def split: if_splits)

text \<open>
  What is extracted is closed and unambiguous: subjects and actions have distinct identifiers and
  belong to the matter, every action is on an extracted subject, and all of them cite the locations of
  the finding (or just the document).
\<close>

theorem extraction_closed:
  "let (subjects, actions) = extract_matter_subjects_and_actions L sha to_yaml matter_id r content rules;
       labels = citation_labels (scan L sha to_yaml r content rules) content in
   distinct (map sub_id subjects) \<and> distinct (map act_id actions) \<and>
   act_subject_id ` set actions \<subseteq> sub_id ` set subjects \<and>
   sub_matter_id ` set subjects \<subseteq> {matter_id} \<and> act_matter_id ` set actions \<subseteq> {matter_id} \<and>
   sub_citations ` set subjects \<subseteq> {labels} \<and> act_citations ` set actions \<subseteq> {labels}"
proof -
  define labels where "labels = citation_labels (scan L sha to_yaml r content rules) content"
  define primary where "primary = primary_subject L sha matter_id r content (document_role L r content) labels"
  define vendors where "vendors = vendor_subjects_and_actions L sha matter_id content rules labels"
  define ss where "ss = (case primary of None \<Rightarrow> [] | Some p \<Rightarrow> [p]) @ map fst vendors"
  define as where "as = (case primary of None \<Rightarrow> [] | Some p \<Rightarrow> classify_matter_actions L sha matter_id p content) @ map snd vendors"
  have extracted: "extract_matter_subjects_and_actions L sha to_yaml matter_id r content rules =
      (dedupe_by_id sub_id [] ss, dedupe_by_id act_id [] as)"
    by (simp add: extract_matter_subjects_and_actions_def Let_def labels_def primary_def vendors_def ss_def as_def)
  have p: "sub_matter_id p = matter_id \<and> sub_citations p = labels" if "primary = Some p" for p
    using that by (auto simp: primary_def primary_subject_def)
  have v: "sub_matter_id x = matter_id \<and> sub_citations x = labels \<and> act_matter_id a = matter_id \<and>
      act_citations a = labels \<and> act_subject_id a = sub_id x" if "(x, a) \<in> set vendors" for x a
    using vendor_entry [OF that [unfolded vendors_def]] by (auto simp: vendor_subject_def)
  have ss: "sub_matter_id x = matter_id \<and> sub_citations x = labels" if "x \<in> set ss" for x
    using that p v unfolding ss_def by (auto split: option.splits)
  have as: "act_matter_id a = matter_id \<and> act_citations a = labels \<and> act_subject_id a \<in> sub_id ` set ss"
    if a: "a \<in> set as" for a
  proof -
    from a consider p where "primary = Some p" "a \<in> set (classify_matter_actions L sha matter_id p content)"
      | x where "(x, a) \<in> set vendors"
      unfolding as_def by (force split: option.splits)
    then show ?thesis
    proof cases
      case (1 q)
      then show ?thesis using p [OF 1(1)] classify_matter_actions_subject [OF 1(2)] by (simp add: ss_def)
    next
      case (2 x)
      then have "sub_id x \<in> sub_id ` set ss" unfolding ss_def by force
      then show ?thesis using v [OF 2] by simp
    qed
  qed
  show ?thesis
    unfolding extracted labels_def [symmetric]
    using ss as dedupe_by_id_subset [of sub_id "[]" ss] dedupe_by_id_subset [of act_id "[]" as]
    by (auto simp: dedupe_by_id_distinct dedupe_by_id_keys)
qed

section \<open>Negation is not looked at for vendors\<close>

text \<open>
  A refusal is recorded as an award: unlike the other classifiers, the one for vendors does not ask
  whether the phrase is negated, so wherever the text, in lower case, says that a contract was not
  awarded to the vendor, and holds no phrase of another kind, the vendor has a known award.
\<close>

theorem refusal_recorded_as_award:
  assumes "str_contains (to_lowercase L content) (lit ''not awarded to '' @ to_lowercase L (sub_name subj))"
    "list_all (\<lambda>(kind, phrases). kind \<noteq> Awarded \<longrightarrow>
       \<not> binds (to_lowercase L content) (to_lowercase L (sub_name subj)) phrases) CANDIDATES"
  shows "vendor_action L content subj =
    (Awarded, lit ''The source explicitly records a '' @ to_lowercase L (lit ''Awarded'') @ lit '' of the vendor.'', True)"
proof -
  have "str_contains (to_lowercase L content) (lit ''awarded to '' @ to_lowercase L (sub_name subj))"
    using assms(1) lit_append [of "''not ''" "''awarded to ''"] by (auto simp: str_contains_iff) (metis append_assoc)
  then have "binds (to_lowercase L content) (to_lowercase L (sub_name subj))
      [(''awarded to '', []), (''award to '', []), (''contract awarded to '', []), (''awarded '', [])]"
    by (simp add: binds_def)
  then show ?thesis
    using assms(2) by (simp add: vendor_action_def CANDIDATES_def Let_def)
qed

section \<open>Concrete texts\<close>

definition acme :: Subject where
  "acme = \<lparr>sub_id = [], sub_matter_id = [], sub_kind = Vendor, sub_name = lit ''Acme'', sub_detail = [],
     sub_citations = [], sub_known = False\<rparr>"

theorem refusal_recorded_as_award_witness:
  "fst (vendor_action plain_lib (lit ''Not awarded to Acme'') acme) = Awarded"
proof -
  have a: "str_contains (to_lowercase plain_lib (lit ''Not awarded to Acme''))
      (lit ''not awarded to '' @ to_lowercase plain_lib (sub_name acme))"
    by code_simp
  have b: "list_all (\<lambda>(kind, phrases). kind \<noteq> Awarded \<longrightarrow>
       \<not> binds (to_lowercase plain_lib (lit ''Not awarded to Acme'')) (to_lowercase plain_lib (sub_name acme)) phrases)
       CANDIDATES"
    by code_simp
  show ?thesis using refusal_recorded_as_award [OF a b] by simp
qed

definition drone_text :: str where
  "drone_text = text_line (lit ''Agreement with Drone'')"

theorem vendor_action_needs_phrase_witness:
  "\<exists>subj act. (subj, act) \<in> set (vendor_subjects_and_actions plain_lib (\<lambda>_. []) [] drone_text sample_rules []) \<and>
     act_kind act = Executed \<and> act_known act"
proof -
  have "length (vendor_subjects_and_actions plain_lib (\<lambda>_. []) [] drone_text sample_rules []) = 1"
    by code_simp
  then obtain subj act where e: "vendor_subjects_and_actions plain_lib (\<lambda>_. []) [] drone_text sample_rules [] = [(subj, act)]"
    by (auto simp: length_Suc_conv)
  have "map (act_kind \<circ> snd) (vendor_subjects_and_actions plain_lib (\<lambda>_. []) [] drone_text sample_rules []) = [Executed]"
    by code_simp
  then have "act_kind act = Executed" using e by simp
  then show ?thesis
    using e vendor_action_needs_phrase [of subj act plain_lib "\<lambda>_. []" "[]" drone_text sample_rules "[]"] by auto
qed

end
