(* ===== verification/Compare.thy ===== *)
theory Compare
  imports Detect
begin

text \<open>
  The comparison of two versions of a document and the alert built from a finding
  (\<open>pnull-detect/src/lib.rs\<close>).  A function that pushes a change onto a vector is the list of the
  changes it pushes, here none or one.
\<close>

section \<open>Single comparisons\<close>

definition quoted :: "str \<Rightarrow> str" where
  "quoted s = [8220] @ s @ [8221]"

type_synonym version = "EvidenceRecord \<times> str"

definition cite :: "version \<Rightarrow> nat \<Rightarrow> Citation" where
  "cite v = citation (fst v) (snd v)"

definition field_change :: "str \<Rightarrow> str \<Rightarrow> version \<Rightarrow> version \<Rightarrow> DiffChange list" where
  "field_change kind prefix old_version new_version =
     (let old = position (\<lambda>line. starts_with line prefix) (lines (snd old_version));
          new = position (\<lambda>line. starts_with line prefix) (lines (snd new_version));
          old_line = map_option (line_at (snd old_version)) old;
          new_line = map_option (line_at (snd new_version)) new;
          or_not_stated = (\<lambda>l. case l of None \<Rightarrow> lit ''not stated'' | Some l \<Rightarrow> l) in
      if old_line \<noteq> new_line \<and> (old \<noteq> None \<or> new \<noteq> None) then
        [\<lparr>dch_kind = kind,
          dch_summary = trim_end_by (\<lambda>c. c = 58) prefix @ lit '' changed from '' @ quoted (or_not_stated old_line) @
            lit '' to '' @ quoted (or_not_stated new_line) @ lit ''.'',
          dch_before = map_option (cite old_version) old, dch_after = map_option (cite new_version) new\<rparr>]
      else [])"

definition pattern_values :: "text_lib \<Rightarrow> str \<Rightarrow> str \<Rightarrow> str list" where
  "pattern_values L pattern content = sort (remdups (map snd (rx_find_iter L pattern content)))"

definition cite_match :: "text_lib \<Rightarrow> str \<Rightarrow> version \<Rightarrow> Citation option" where
  "cite_match L pattern v =
     map_option (\<lambda>(start, _). cite v (line_index_at (snd v) start)) (regex_find L pattern (snd v))"

definition compare_pattern :: "text_lib \<Rightarrow> str \<Rightarrow> str \<Rightarrow> version \<Rightarrow> version \<Rightarrow> DiffChange list" where
  "compare_pattern L kind pattern old_version new_version =
     (if \<not> rx_compiles L pattern then []
      else
        let old_values = pattern_values L pattern (snd old_version);
            new_values = pattern_values L pattern (snd new_version) in
        if old_values \<noteq> new_values \<and> (old_values \<noteq> [] \<or> new_values \<noteq> []) then
          [\<lparr>dch_kind = kind,
            dch_summary = lit ''Values changed from ['' @ join (lit '', '') old_values @ lit ''] to ['' @
              join (lit '', '') new_values @ lit ''].'',
            dch_before = cite_match L pattern old_version, dch_after = cite_match L pattern new_version\<rparr>]
        else [])"

definition find_topic_line :: "text_lib \<Rightarrow> str \<Rightarrow> str list \<Rightarrow> nat option" where
  "find_topic_line L content topics =
     position (\<lambda>line. list_ex (\<lambda>topic. str_contains (to_lowercase L line) (to_lowercase L topic)) topics) (lines content)"

definition find_topic_citation :: "text_lib \<Rightarrow> version \<Rightarrow> str list \<Rightarrow> Citation option" where
  "find_topic_citation L v topics = map_option (cite v) (find_topic_line L (snd v) topics)"

definition compare_topic_line :: "text_lib \<Rightarrow> str \<Rightarrow> str list \<Rightarrow> version \<Rightarrow> version \<Rightarrow> DiffChange list" where
  "compare_topic_line L kind topics old_version new_version =
     (case (find_topic_line L (snd old_version) topics, find_topic_line L (snd new_version) topics) of
        (Some old, Some new) \<Rightarrow>
          if line_at (snd old_version) old \<noteq> line_at (snd new_version) new then
            [\<lparr>dch_kind = kind,
              dch_summary = lit ''Relevant language changed from '' @ quoted (line_at (snd old_version) old) @
                lit '' to '' @ quoted (line_at (snd new_version) new) @ lit ''.'',
              dch_before = Some (cite old_version old), dch_after = Some (cite new_version new)\<rparr>]
          else []
      | _ \<Rightarrow> [])"

definition matched_rule_ids :: "text_lib \<Rightarrow> str \<Rightarrow> RuleSet \<Rightarrow> str list" where
  "matched_rule_ids L content rules =
     sort (remdups (map rule_id
       (filter (\<lambda>u. list_ex (\<lambda>trm. find_term_line L content trm \<noteq> None) (rule_terms u)) (rs_rules rules))))"

section \<open>All changes\<close>

text \<open>92 is the backslash.\<close>

definition PRICE_PATTERN :: str where
  "PRICE_PATTERN = lit ''(?i)'' @ [92] @ lit ''$[0-9][0-9,]*(?:'' @ [92] @ lit ''.[0-9]{2})?''"

definition DURATION_PATTERN :: str where
  "DURATION_PATTERN =
     (let b = [92] @ lit ''b''; digits = [92] @ lit ''d+'' in
      lit ''(?i)'' @ b @ digits @ lit ''[- ](?:year|month)s?'' @ b @ lit ''|'' @ b @ digits @ [92] @ lit ''s+(?:years|months)'' @ b)"

definition compare_standard_changes :: "text_lib \<Rightarrow> RuleSet \<Rightarrow> version \<Rightarrow> version \<Rightarrow> DiffChange list" where
  "compare_standard_changes L rules old_version new_version =
     field_change (lit ''changed_vote_date'') (lit ''Meeting date:'') old_version new_version @
     field_change (lit ''changed_procurement_state'') (lit ''Action:'') old_version new_version @
     compare_topic_line L (lit ''changed_vote_date'') [lit ''finally passed:''] old_version new_version @
     compare_pattern L (lit ''changed_price'') PRICE_PATTERN old_version new_version @
     compare_pattern L (lit ''changed_contract_duration'') DURATION_PATTERN old_version new_version @
     compare_topic_line L (lit ''changed_retention_provision'')
       [lit ''retention'', lit ''retain'', lit ''delete after''] old_version new_version @
     compare_topic_line L (lit ''changed_data_sharing_provision'')
       [lit ''data sharing'', lit ''share data'', lit ''third-party access''] old_version new_version @
     compare_topic_line L (lit ''changed_scope_or_quantity'')
       [lit ''camera'', lit ''drone'', lit ''license'', lit ''unit'', lit ''quantity''] old_version new_version @
     compare_topic_line L (lit ''changed_vendor_or_subcontractor'')
       (concat (map rule_terms (filter (\<lambda>u. rule_category u = lit ''vendor'') (rs_rules rules)))) old_version new_version"

definition amendment_change :: "text_lib \<Rightarrow> version \<Rightarrow> version \<Rightarrow> DiffChange list" where
  "amendment_change L old_version new_version =
     (if str_contains (to_lowercase L (snd old_version)) (lit ''amendment'') \<noteq>
         str_contains (to_lowercase L (snd new_version)) (lit ''amendment'') then
        [\<lparr>dch_kind = lit ''new_contract_or_amendment'',
          dch_summary = lit ''The newer document changes whether an amendment is described.'',
          dch_before = find_topic_citation L old_version [lit ''amendment''],
          dch_after = find_topic_citation L new_version [lit ''amendment'']\<rparr>]
      else [])"

definition removed_language_change :: "version \<Rightarrow> str \<Rightarrow> nat \<Rightarrow> DiffChange" where
  "removed_language_change old_version topic i =
     \<lparr>dch_kind = lit ''removed_relevant_language'',
      dch_summary = lit ''The newer document removes language containing '' @ quoted topic @ lit ''.'',
      dch_before = Some (cite old_version i), dch_after = None\<rparr>"

definition removed_topic :: "text_lib \<Rightarrow> version \<Rightarrow> version \<Rightarrow> str \<Rightarrow> DiffChange option" where
  "removed_topic L old_version new_version topic =
     (case find_topic_line L (snd old_version) [topic] of
        Some i \<Rightarrow>
          if find_topic_line L (snd new_version) [topic] = None
          then Some (removed_language_change old_version topic i) else None
      | None \<Rightarrow> None)"

definition removed_topics :: "str list" where
  "removed_topics = [lit ''privacy'', lit ''retention'', lit ''data sharing'', lit ''shall not share'']"

definition removed_language :: "text_lib \<Rightarrow> version \<Rightarrow> version \<Rightarrow> DiffChange list" where
  "removed_language L old_version new_version = List.map_filter (removed_topic L old_version new_version) removed_topics"

definition new_item_change ::
  "text_lib \<Rightarrow> hash \<Rightarrow> (RuleSet \<Rightarrow> str option) \<Rightarrow> RuleSet \<Rightarrow> version \<Rightarrow> version \<Rightarrow> DiffChange list" where
  "new_item_change L sha to_yaml rules old_version new_version =
     (if list_ex (\<lambda>i. i \<notin> set (matched_rule_ids L (snd old_version) rules)) (matched_rule_ids L (snd new_version) rules)
      then
        [\<lparr>dch_kind = lit ''new_surveillance_related_agenda_item'',
          dch_summary = lit ''The newer document introduces a surveillance taxonomy term not present in the earlier version.'',
          dch_before = None,
          dch_after = Option.bind (scan L sha to_yaml (fst new_version) (snd new_version) rules)
            (\<lambda>f. case fnd_citations f of [] \<Rightarrow> None | c # _ \<Rightarrow> Some c)\<rparr>]
      else [])"

definition meaningful_diff :: "DiffChange list \<Rightarrow> str" where
  "meaningful_diff changes =
     (let row = (\<lambda>mark c. case c of None \<Rightarrow> []
            | Some c \<Rightarrow> [mark @ loc_label (cit_locator c) @ lit '': '' @ cit_quote c]) in
      join [10]
        ([lit ''--- earlier evidence'', lit ''+++ newer evidence''] @
         concat (map (\<lambda>c. [lit ''@@ '' @ dch_kind c @ lit '' @@''] @ row (lit ''- '') (dch_before c) @
           row (lit ''+ '') (dch_after c)) changes)))"

definition raw_changes ::
  "text_lib \<Rightarrow> hash \<Rightarrow> (RuleSet \<Rightarrow> str option) \<Rightarrow> RuleSet \<Rightarrow> version \<Rightarrow> version \<Rightarrow> DiffChange list" where
  "raw_changes L sha to_yaml rules old_version new_version =
     compare_standard_changes L rules old_version new_version @ amendment_change L old_version new_version @
     removed_language L old_version new_version @ new_item_change L sha to_yaml rules old_version new_version"

definition compare ::
  "text_lib \<Rightarrow> hash \<Rightarrow> (RuleSet \<Rightarrow> str option) \<Rightarrow> version \<Rightarrow> version \<Rightarrow> RuleSet \<Rightarrow> EvidenceDiff" where
  "compare L sha to_yaml old_version new_version rules =
     (let changes = dedup_by_key (\<lambda>c. (dch_kind c, dch_summary c))
            (sort_key dch_kind (raw_changes L sha to_yaml rules old_version new_version)) in
      \<lparr>edf_old_evidence_id = evr_id (fst old_version), edf_new_evidence_id = evr_id (fst new_version),
       edf_old_source_url = evr_source_url (fst old_version), edf_new_source_url = evr_source_url (fst new_version),
       edf_changes = changes, edf_unified_text = meaningful_diff changes\<rparr>)"

section \<open>Alerts\<close>

definition build_alert :: "hash \<Rightarrow> EvidenceRecord \<Rightarrow> Finding \<Rightarrow> EvidenceDiff option \<Rightarrow> Alert option" where
  "build_alert sha r finding diff =
     (if fnd_citations finding = [] then None
      else
        let previous = map_option edf_old_evidence_id diff in
        Some \<lparr>alt_id = stable_id sha (lit ''alert'')
                [evr_id r, case previous of None \<Rightarrow> [] | Some p \<Rightarrow> p, finding_state_label (fnd_state finding),
                 join (lit '','') (fnd_matched_rule_ids finding), fnd_rules_digest finding],
              alt_jurisdiction = evr_jurisdiction r, alt_evidence_id = evr_id r,
              alt_previous_evidence_id = previous, alt_title = evr_document_title r,
              alt_state = fnd_state finding,
              alt_summary = (case Option.bind diff (\<lambda>d. case edf_changes d of [] \<Rightarrow> None | c # _ \<Rightarrow> Some c) of
                None \<Rightarrow> fnd_classification_reason finding | Some change \<Rightarrow> dch_summary change),
              alt_publication_date = (case evr_publication_date r of Some d \<Rightarrow> d
                | None \<Rightarrow> take 10 (evr_retrieval_timestamp r)),
              alt_rule_ids = fnd_matched_rule_ids finding, alt_rules_version = fnd_rules_version finding,
              alt_rules_digest = fnd_rules_digest finding, alt_citations = fnd_citations finding,
              alt_diff = diff\<rparr>)"

section \<open>A document compared with itself\<close>

lemma removed_topic_SomeD:
  "removed_topic L v w topic = Some c \<Longrightarrow>
     \<exists>i. find_topic_line L (snd v) [topic] = Some i \<and> find_topic_line L (snd w) [topic] = None \<and>
       c = removed_language_change v topic i"
  by (auto simp: removed_topic_def split: option.splits if_splits)

text \<open>
  Comparing a text with itself reports nothing, whatever the rules, and even when the two records
  that carry it differ.
\<close>

theorem compare_same_text:
  "edf_changes (compare L sha to_yaml (old_record, content) (new_record, content) rules) = []"
proof -
  have "removed_language L (old_record, content) (new_record, content) = []"
    by (auto simp: removed_language_def set_map_filter dest: removed_topic_SomeD simp flip: set_empty)
  then have "raw_changes L sha to_yaml rules (old_record, content) (new_record, content) = []"
    by (simp add: raw_changes_def compare_standard_changes_def field_change_def compare_topic_line_def
      compare_pattern_def amendment_change_def new_item_change_def list_ex_iff Let_def split: option.split)
  then show ?thesis by (simp add: compare_def)
qed

section \<open>What a comparison cites\<close>

text \<open>What \<open>regex\<close> documents of the matches of a pattern that no empty text matches.\<close>

definition finds_parts :: "text_lib \<Rightarrow> str \<Rightarrow> bool" where
  "finds_parts L pattern \<longleftrightarrow>
     (\<forall>s i m. (i, m) \<in> set (rx_find_iter L pattern s) \<longrightarrow> m \<noteq> [] \<and> (\<exists>a b. s = a @ m @ b \<and> i = byte_len a))"

definition cited_by :: "version \<Rightarrow> Citation option \<Rightarrow> bool" where
  "cited_by v c = (case c of None \<Rightarrow> True | Some c \<Rightarrow> cites_line (fst v) (snd v) c)"

lemma cited_by_simps [simp]:
  "cited_by v None" "cited_by v (Some c) \<longleftrightarrow> cites_line (fst v) (snd v) c"
  by (simp_all add: cited_by_def)

definition change_cited :: "version \<Rightarrow> version \<Rightarrow> DiffChange \<Rightarrow> bool" where
  "change_cited v w c \<longleftrightarrow> cited_by v (dch_before c) \<and> cited_by w (dch_after c)"

definition short_text :: "version \<Rightarrow> bool" where
  "short_text v \<longleftrightarrow> length (lines (snd v)) < 2 ^ 32 - 1"

lemma cite_cites_line: "short_text v \<Longrightarrow> i < length (lines (snd v)) \<Longrightarrow> cites_line (fst v) (snd v) (cite v i)"
  unfolding cite_def short_text_def by (rule citation_cites_line) simp_all

lemma position_cited: "short_text v \<Longrightarrow> cited_by v (map_option (cite v) (position p (lines (snd v))))"
  by (cases "position p (lines (snd v))") (auto dest!: position_SomeD intro: cite_cites_line simp del: position_None_iff)

lemma topic_cited: "short_text v \<Longrightarrow> find_topic_line L (snd v) topics = Some i \<Longrightarrow> cites_line (fst v) (snd v) (cite v i)"
  unfolding find_topic_line_def by (auto dest!: position_SomeD intro: cite_cites_line)

lemma match_cited:
  assumes "short_text v" "finds_parts L pattern"
  shows "cited_by v (cite_match L pattern v)"
proof (cases "rx_find_iter L pattern (snd v)")
  case Nil
  then show ?thesis by (simp add: cite_match_def regex_find_def)
next
  case (Cons x xs)
  obtain i m where x: "x = (i, m)" by (cases x)
  then obtain a b where "snd v = a @ m @ b" "i = byte_len a" "m \<noteq> []"
    using assms(2) Cons unfolding finds_parts_def by (metis list.set_intros(1))
  then have "line_index_at (snd v) i < length (lines (snd v))"
    by (simp add: line_index_at_prefix line_index_lt)
  then show ?thesis using Cons x assms(1) by (simp add: cite_match_def regex_find_def cite_cites_line)
qed

lemma compare_topic_line_cited:
  "short_text v \<Longrightarrow> short_text w \<Longrightarrow> c \<in> set (compare_topic_line L kind topics v w) \<Longrightarrow> change_cited v w c"
  by (auto simp: compare_topic_line_def change_cited_def topic_cited split: option.splits if_splits)

lemma field_change_cited:
  "short_text v \<Longrightarrow> short_text w \<Longrightarrow> c \<in> set (field_change kind prefix v w) \<Longrightarrow> change_cited v w c"
  by (auto simp: field_change_def change_cited_def position_cited Let_def split: if_splits)

lemma compare_pattern_cited:
  "short_text v \<Longrightarrow> short_text w \<Longrightarrow> finds_parts L pattern \<Longrightarrow> c \<in> set (compare_pattern L kind pattern v w) \<Longrightarrow>
   change_cited v w c"
  by (auto simp: compare_pattern_def change_cited_def match_cited Let_def split: if_splits)

lemma amendment_change_cited:
  "short_text v \<Longrightarrow> short_text w \<Longrightarrow> c \<in> set (amendment_change L v w) \<Longrightarrow> change_cited v w c"
  by (auto simp: amendment_change_def change_cited_def find_topic_citation_def find_topic_line_def position_cited
    split: if_splits)

lemma removed_language_cited:
  "short_text v \<Longrightarrow> c \<in> set (removed_language L v w) \<Longrightarrow> change_cited v w c"
  by (auto simp: removed_language_def set_map_filter removed_language_change_def change_cited_def topic_cited
    dest!: removed_topic_SomeD)

lemma new_item_change_cited:
  assumes "short_text w" "c \<in> set (new_item_change L sha to_yaml rules v w)"
  shows "change_cited v w c"
proof (cases "scan L sha to_yaml (fst w) (snd w) rules")
  case None
  then show ?thesis using assms(2) by (auto simp: new_item_change_def change_cited_def split: if_splits)
next
  case (Some f)
  have "list_all (cites_line (fst w) (snd w)) (fnd_citations f)"
    using scan_cited [OF Some] assms(1) by (simp add: short_text_def)
  then show ?thesis
    using Some assms(2)
    by (auto simp: new_item_change_def change_cited_def split: if_splits list.splits)
qed

lemma raw_changes_cited:
  assumes "short_text v" "short_text w" "finds_parts L PRICE_PATTERN" "finds_parts L DURATION_PATTERN"
    "c \<in> set (raw_changes L sha to_yaml rules v w)"
  shows "change_cited v w c"
  using assms(5) unfolding raw_changes_def compare_standard_changes_def set_append Un_iff
  by (elim disjE)
    (erule field_change_cited [OF assms(1,2)] compare_topic_line_cited [OF assms(1,2)]
      compare_pattern_cited [OF assms(1,2) assms(3)] compare_pattern_cited [OF assms(1,2) assms(4)]
      amendment_change_cited [OF assms(1,2)] removed_language_cited [OF assms(1)] new_item_change_cited [OF assms(2)])+

lemma edf_changes_subset:
  "set (edf_changes (compare L sha to_yaml v w rules)) \<subseteq> set (raw_changes L sha to_yaml rules v w)"
  using dedup_by_key_subset [of _ "sort_key dch_kind (raw_changes L sha to_yaml rules v w)"]
  by (auto simp: compare_def Let_def)

text \<open>
  A comparison reports its changes in order of kind and cites both versions faithfully: the
  citation before a change quotes a line of the earlier version verbatim, the citation after it one of
  the later version; where the code locates a match by its byte offset this rests on the matches being
  non-empty parts of the text at that offset.
\<close>

theorem compare_cites_versions:
  assumes "short_text v" "short_text w" "finds_parts L PRICE_PATTERN" "finds_parts L DURATION_PATTERN"
  shows "let changes = edf_changes (compare L sha to_yaml v w rules) in
    sorted (map dch_kind changes) \<and> list_all (change_cited v w) changes"
proof -
  have "sorted (map dch_kind (edf_changes (compare L sha to_yaml v w rules)))"
    by (simp add: compare_def Let_def sorted_dedup_by_key)
  moreover have "list_all (change_cited v w) (edf_changes (compare L sha to_yaml v w rules))"
    using raw_changes_cited [OF assms] edf_changes_subset unfolding list_all_iff by blast
  ultimately show ?thesis by (simp add: Let_def)
qed

lemma edf_changes_reports:
  "c \<in> set (raw_changes L sha to_yaml rules v w) \<Longrightarrow>
   \<exists>d \<in> set (edf_changes (compare L sha to_yaml v w rules)). dch_kind d = dch_kind c \<and> dch_summary d = dch_summary c"
proof -
  let ?k = "\<lambda>c. (dch_kind c, dch_summary c)"
  assume "c \<in> set (raw_changes L sha to_yaml rules v w)"
  then have "?k c \<in> ?k ` set (edf_changes (compare L sha to_yaml v w rules))"
    by (simp add: compare_def Let_def)
  then show ?thesis by force
qed

section \<open>Removed language\<close>

text \<open>The kinds of the other changes, none of which is that of removed language.\<close>

lemma field_change_kind: "c \<in> set (field_change kind prefix v w) \<Longrightarrow> dch_kind c = kind"
  by (auto simp: field_change_def Let_def split: if_splits)

lemma compare_topic_line_kind: "c \<in> set (compare_topic_line L kind topics v w) \<Longrightarrow> dch_kind c = kind"
  by (auto simp: compare_topic_line_def split: if_splits option.splits)

lemma compare_pattern_kind: "c \<in> set (compare_pattern L kind pattern v w) \<Longrightarrow> dch_kind c = kind"
  by (auto simp: compare_pattern_def Let_def split: if_splits)

lemma amendment_change_kind: "c \<in> set (amendment_change L v w) \<Longrightarrow> dch_kind c = lit ''new_contract_or_amendment''"
  by (auto simp: amendment_change_def split: if_splits)

lemma new_item_change_kind:
  "c \<in> set (new_item_change L sha to_yaml rules v w) \<Longrightarrow> dch_kind c = lit ''new_surveillance_related_agenda_item''"
  by (auto simp: new_item_change_def split: if_splits)

lemma removed_kind_only:
  assumes "c \<in> set (raw_changes L sha to_yaml rules v w)" "dch_kind c = lit ''removed_relevant_language''"
  shows "c \<in> set (removed_language L v w)"
  using assms unfolding raw_changes_def compare_standard_changes_def set_append Un_iff
  by (elim disjE) (simp_all add: field_change_kind compare_topic_line_kind compare_pattern_kind
    amendment_change_kind new_item_change_kind | (drule field_change_kind compare_topic_line_kind compare_pattern_kind
    amendment_change_kind new_item_change_kind, simp))+

text \<open>
  Language that disappears is reported, and only then: the changes of kind
  \<open>removed_relevant_language\<close> are, by their summaries, exactly those of the watched topics that a line of
  the earlier version speaks of and no line of the later one does.
\<close>

theorem removed_language_reported:
  "dch_summary ` {c \<in> set (edf_changes (compare L sha to_yaml v w rules)). dch_kind c = lit ''removed_relevant_language''} =
   (\<lambda>topic. lit ''The newer document removes language containing '' @ quoted topic @ lit ''.'') `
     {topic \<in> set removed_topics. find_topic_line L (snd v) [topic] \<noteq> None \<and> find_topic_line L (snd w) [topic] = None}"
  (is "?A = ?f ` ?T")
proof (intro equalityI subsetI)
  fix x assume "x \<in> ?A"
  then obtain c where c: "c \<in> set (raw_changes L sha to_yaml rules v w)" "dch_kind c = lit ''removed_relevant_language''"
    "x = dch_summary c"
    using edf_changes_subset by blast
  then have "c \<in> set (removed_language L v w)" by (intro removed_kind_only)
  then obtain topic where topic: "topic \<in> set removed_topics" "removed_topic L v w topic = Some c"
    by (auto simp: removed_language_def set_map_filter)
  from removed_topic_SomeD [OF this(2)] have "topic \<in> ?T" "dch_summary c = ?f topic"
    using topic(1) by (auto simp: removed_language_change_def)
  then show "x \<in> ?f ` ?T" using c(3) by simp
next
  fix x assume "x \<in> ?f ` ?T"
  then obtain topic i where t: "topic \<in> set removed_topics" "find_topic_line L (snd v) [topic] = Some i"
    "find_topic_line L (snd w) [topic] = None" "x = ?f topic"
    by auto
  then have "removed_language_change v topic i \<in> set (removed_language L v w)"
    by (auto simp: removed_language_def set_map_filter removed_topic_def intro!: bexI [of _ topic])
  then have "removed_language_change v topic i \<in> set (raw_changes L sha to_yaml rules v w)"
    by (simp add: raw_changes_def)
  from edf_changes_reports [OF this] show "x \<in> ?A"
    using t(4) by (auto simp: removed_language_change_def image_iff)
qed

section \<open>Price changes\<close>

definition price_char :: "uchar \<Rightarrow> bool" where
  "price_char c \<longleftrightarrow> is_digit c \<or> c \<in> {36, 44, 46}"

text \<open>
  A changed price is cited where it stands: when prices are reported as changed, the values found
  in the two versions differ, and the citation of a version that has prices quotes a line that holds one
  of them.  A price is made of digits, dollar signs, commas and points.
\<close>

theorem price_change_cited_in_place:
  assumes "finds_parts L PRICE_PATTERN" "list_all (\<lambda>(_, m). list_all price_char m) (rx_find_iter L PRICE_PATTERN (snd v))"
    "c \<in> set (compare_pattern L (lit ''changed_price'') PRICE_PATTERN v w)"
  shows "pattern_values L PRICE_PATTERN (snd v) \<noteq> pattern_values L PRICE_PATTERN (snd w) \<and>
    (case dch_before c of
       None \<Rightarrow> pattern_values L PRICE_PATTERN (snd v) = []
     | Some b \<Rightarrow> list_ex (str_contains (cit_quote b)) (pattern_values L PRICE_PATTERN (snd v)))"
proof -
  have differ: "pattern_values L PRICE_PATTERN (snd v) \<noteq> pattern_values L PRICE_PATTERN (snd w)"
    and b: "dch_before c = cite_match L PRICE_PATTERN v"
    using assms(3) by (auto simp: compare_pattern_def Let_def split: if_splits)
  show ?thesis
  proof (cases "rx_find_iter L PRICE_PATTERN (snd v)")
    case Nil
    then show ?thesis using differ b by (simp add: cite_match_def regex_find_def pattern_values_def)
  next
    case (Cons x xs)
    obtain i m where x: "x = (i, m)" by (cases x)
    then obtain p q where m: "snd v = p @ m @ q" "i = byte_len p" "m \<noteq> []"
      using assms(1) Cons unfolding finds_parts_def by (metis list.set_intros(1))
    have price: "list_all price_char m" using assms(2) Cons x by simp
    then have "price_char (last m)" using m(3) by (simp add: list_all_iff)
    then have "10 \<notin> set m" "last m \<noteq> 13"
      using price by (auto simp: list_all_iff price_char_def is_digit_def)
    from line_holds_part [OF this(1) m(3) this(2)]
    have "str_contains (line_at (snd v) (line_index_at (snd v) i)) m"
      unfolding m(1,2) line_index_at_prefix .
    moreover have "m \<in> set (pattern_values L PRICE_PATTERN (snd v))" using Cons x by (simp add: pattern_values_def)
    ultimately show ?thesis
      using differ b Cons x
      by (auto simp: cite_match_def regex_find_def list_ex_iff cite_def citation_def Let_def)
  qed
qed

section \<open>False positives in a comparison\<close>

text \<open>
  A false positive is reported as a new item: unlike the scan, the comparison does not look at the
  false-positive phrases of a rule, so when a term of a rule appears in the later version only on such
  lines, a new surveillance item is reported, without a citation on either side.
\<close>

theorem false_positive_reported_as_new_item:
  assumes "\<not> list_ex (\<lambda>u. rule_matches L u (snd w)) (rs_rules rules)"
    "u \<in> set (matched_rule_ids L (snd w) rules)" "u \<notin> set (matched_rule_ids L (snd v) rules)"
  shows "list_ex (\<lambda>c. dch_kind c = lit ''new_surveillance_related_agenda_item'' \<and> dch_before c = None \<and> dch_after c = None)
    (edf_changes (compare L sha to_yaml v w rules))"
proof -
  define change where "change = \<lparr>dch_kind = lit ''new_surveillance_related_agenda_item'',
    dch_summary = lit ''The newer document introduces a surveillance taxonomy term not present in the earlier version.'',
    dch_before = None, dch_after = None\<rparr>"
  have "scan L sha to_yaml (fst w) (snd w) rules = None" using assms(1) scan_None_iff by metis
  then have new: "new_item_change L sha to_yaml rules v w = [change]"
    using assms(2,3) by (auto simp: new_item_change_def list_ex_iff change_def)
  then have "change \<in> set (raw_changes L sha to_yaml rules v w)" by (simp add: raw_changes_def)
  from edf_changes_reports [OF this] obtain d where d: "d \<in> set (edf_changes (compare L sha to_yaml v w rules))"
    "dch_kind d = dch_kind change"
    by blast
  have "d \<in> set (new_item_change L sha to_yaml rules v w)"
    using subsetD [OF edf_changes_subset d(1)] d(2)
    unfolding change_def raw_changes_def compare_standard_changes_def set_append Un_iff removed_language_def
    by (auto simp: set_map_filter removed_language_change_def dest!: removed_topic_SomeD
      dest: field_change_kind compare_topic_line_kind compare_pattern_kind amendment_change_kind)
  then have "change \<in> set (edf_changes (compare L sha to_yaml v w rules))" using new d(1) by simp
  then show ?thesis unfolding list_ex_iff by (intro bexI [of _ change]) (simp_all add: change_def)
qed

section \<open>From a scan to an alert\<close>

text \<open>
  Every finding of a scan can be raised as an alert, and the alert rests on the finding: it names
  the record, carries the finding's state, rules and citations, each a verbatim line of the text, and
  takes its summary from the first change of the comparison, if there is one.
\<close>

theorem scanned_alert_cites_text:
  assumes "scan L sha to_yaml r content rules = Some f" "length (lines content) < 2 ^ 32 - 1"
  shows "case build_alert sha r f diff of
      None \<Rightarrow> False
    | Some a \<Rightarrow> alt_evidence_id a = evr_id r \<and> alt_state a = fnd_state f \<and> alt_rule_ids a = fnd_matched_rule_ids f \<and>
        alt_citations a \<noteq> [] \<and> list_all (cites_line r content) (alt_citations a) \<and>
        alt_summary a = (case diff of
          None \<Rightarrow> fnd_classification_reason f
        | Some d \<Rightarrow> (case edf_changes d of [] \<Rightarrow> fnd_classification_reason f | c # _ \<Rightarrow> dch_summary c))"
proof -
  have "term_citations r content (map snd (scan_hits L content rules)) \<noteq> []"
    using scan_SomeD [OF assms(1)] by auto
  then have "fnd_citations f \<noteq> []" using scan_SomeD [OF assms(1)] by auto
  then show ?thesis
    using scan_cited [OF assms] by (auto simp: build_alert_def Let_def split: option.split list.split)
qed

section \<open>Concrete versions\<close>

text \<open>A library that knows one price.\<close>

fun occurrences :: "str \<Rightarrow> nat \<Rightarrow> str \<Rightarrow> (nat \<times> str) list" where
  "occurrences w i [] = []"
| "occurrences w i (c # s) =
     (if starts_with (c # s) w then [(i, w)] else []) @ occurrences w (i + byte_len [c]) s"

lemma occurrences_part:
  "(i, m) \<in> set (occurrences w n s) \<Longrightarrow> m = w \<and> (\<exists>a b. s = a @ m @ b \<and> i = n + byte_len a)"
proof (induction w n s rule: occurrences.induct)
  case (2 w n c s)
  from "2.prems" consider "starts_with (c # s) w" "i = n" "m = w" | "(i, m) \<in> set (occurrences w (n + byte_len [c]) s)"
    by (auto split: if_splits)
  then show ?case
  proof cases
    case 1
    then obtain t where "c # s = [] @ m @ t" by (auto simp: starts_with_iff)
    moreover have "i = n + byte_len []" using 1 by (simp add: byte_len_def)
    ultimately show ?thesis using 1(3) by blast
  next
    case 2
    from "2.IH" [OF this] obtain a b where "m = w" "s = a @ m @ b" "i = n + byte_len [c] + byte_len a" by auto
    then show ?thesis
      by (intro conjI exI [of _ "c # a"] exI [of _ b]) (simp_all add: byte_len_def)
  qed
qed simp

definition dollar_lib :: text_lib where
  "dollar_lib = plain_lib\<lparr>rx_find_iter :=
     (\<lambda>p s. if p = PRICE_PATTERN then occurrences (lit ''$5'') 0 s else [])\<rparr>"

definition old_offer :: version where
  "old_offer = (sample_record, text_line (lit ''Offer'') @ lit ''Price $5'')"

definition new_offer :: version where
  "new_offer = (sample_record, lit ''No price; a drone bee'')"

lemma dollar_lib_finds: "finds_parts dollar_lib PRICE_PATTERN" "finds_parts dollar_lib DURATION_PATTERN"
proof -
  have "PRICE_PATTERN \<noteq> DURATION_PATTERN" by code_simp
  then show "finds_parts dollar_lib PRICE_PATTERN" "finds_parts dollar_lib DURATION_PATTERN"
    by (auto simp: finds_parts_def dollar_lib_def dest!: occurrences_part)
qed

lemma dollar_lib_prices:
  "list_all (\<lambda>(_, m). list_all price_char m) (rx_find_iter dollar_lib PRICE_PATTERN s)"
proof -
  have "list_all price_char (lit ''$5'')" by code_simp
  then show ?thesis by (auto simp: list_all_iff dollar_lib_def dest!: occurrences_part)
qed

lemma offers_short: "short_text old_offer" "short_text new_offer"
proof -
  have "length (lines (snd old_offer)) = 2" "length (lines (snd new_offer)) = 1" by code_simp+
  then show "short_text old_offer" "short_text new_offer" by (simp_all add: short_text_def)
qed

lemma offer_prices:
  "pattern_values dollar_lib PRICE_PATTERN (snd old_offer) = [lit ''$5'']"
  "pattern_values dollar_lib PRICE_PATTERN (snd new_offer) = []"
  by code_simp+

lemma offer_price_change:
  "\<exists>c. c \<in> set (compare_pattern dollar_lib (lit ''changed_price'') PRICE_PATTERN old_offer new_offer)"
  by (simp add: compare_pattern_def offer_prices) (simp add: dollar_lib_def plain_lib_def)

theorem compare_cites_versions_witness:
  "list_all (change_cited old_offer new_offer)
     (edf_changes (compare dollar_lib (\<lambda>_. []) (\<lambda>_. None) old_offer new_offer sample_rules)) \<and>
   edf_changes (compare dollar_lib (\<lambda>_. []) (\<lambda>_. None) old_offer new_offer sample_rules) \<noteq> []"
proof -
  obtain c where "c \<in> set (compare_pattern dollar_lib (lit ''changed_price'') PRICE_PATTERN old_offer new_offer)"
    using offer_price_change by blast
  then have "c \<in> set (raw_changes dollar_lib (\<lambda>_. []) (\<lambda>_. None) sample_rules old_offer new_offer)"
    by (simp add: raw_changes_def compare_standard_changes_def)
  from edf_changes_reports [OF this] show ?thesis
    using compare_cites_versions [OF offers_short dollar_lib_finds] by (auto simp: Let_def)
qed

theorem price_change_cited_in_place_witness:
  "\<exists>c b. c \<in> set (compare_pattern dollar_lib (lit ''changed_price'') PRICE_PATTERN old_offer new_offer) \<and>
     dch_before c = Some b \<and> list_ex (str_contains (cit_quote b)) [lit ''$5'']"
proof -
  obtain c where c: "c \<in> set (compare_pattern dollar_lib (lit ''changed_price'') PRICE_PATTERN old_offer new_offer)"
    using offer_price_change by blast
  show ?thesis
    using price_change_cited_in_place [OF dollar_lib_finds(1) dollar_lib_prices c] c
    unfolding offer_prices by (auto split: option.splits)
qed

theorem false_positive_reported_as_new_item_witness:
  "list_ex (\<lambda>c. dch_kind c = lit ''new_surveillance_related_agenda_item'' \<and> dch_after c = None)
    (edf_changes (compare dollar_lib (\<lambda>_. []) (\<lambda>_. None) old_offer new_offer sample_rules))"
proof -
  have a: "\<not> list_ex (\<lambda>u. rule_matches dollar_lib u (snd new_offer)) (rs_rules sample_rules)" by code_simp
  have b: "lit ''drone'' \<in> set (matched_rule_ids dollar_lib (snd new_offer) sample_rules)" by code_simp
  have c: "lit ''drone'' \<notin> set (matched_rule_ids dollar_lib (snd old_offer) sample_rules)" by code_simp
  show ?thesis
    using false_positive_reported_as_new_item [OF a b c, of "\<lambda>_. []" "\<lambda>_. None"] by (auto simp: list_ex_iff)
qed

theorem scanned_alert_cites_text_witness:
  "\<exists>f a. sample_scan = Some f \<and> build_alert (\<lambda>_. []) sample_record f None = Some a \<and>
     length (alt_citations a) = 2 \<and> list_all (cites_line sample_record sample_text) (alt_citations a)"
proof -
  obtain f where f: "sample_scan = Some f" "length (fnd_citations f) = 2" using sample_scan_eq by auto
  from scanned_alert_cites_text [OF f(1) [unfolded sample_scan_def], of None] obtain a where
    "build_alert (\<lambda>_. []) sample_record f None = Some a" "list_all (cites_line sample_record sample_text) (alt_citations a)"
    by (auto simp: sample_lines split: option.splits)
  moreover from this have "alt_citations a = fnd_citations f" by (auto simp: build_alert_def Let_def split: if_splits)
  ultimately show ?thesis using f by auto
qed

end
