(* ===== verification/CoraLedger.thy ===== *)
theory CoraLedger
  imports Identifiers
begin

text \<open>
  The ledger of records requests (\<open>pnull-procurement/src/cora_ledger.rs\<close>) and the drafts behind them
  (\<open>cora.rs\<close>): a request is drafted from the gaps of a matter, then moves through its states by events
  that are only ever appended.
\<close>

section \<open>Drafts\<close>

definition REVIEW_REQUIRED :: str where
  "REVIEW_REQUIRED =
     lit ''This is a locally generated draft for operator and legal review. It has not been '' @
     lit ''submitted, and no recipient has been selected. Verify the current law, the correct '' @
     lit ''recipient, and the sufficiency of the request before any use.''"

definition CITY_DEPARTMENT :: str where
  "CITY_DEPARTMENT = lit ''City of Colorado Springs''"

definition OFFLINE_CREATED_AT :: str where
  "OFFLINE_CREATED_AT = lit ''2026-08-17T00:00:00Z''"

type_synonym date_range = "(str option \<times> str option) option"

text \<open>A section body: the items, one a line, or the standard phrase; \<open>writeln\<close> of a text that ends a line leaves an empty one.\<close>

definition md_items :: "str list \<Rightarrow> str" where
  "md_items items =
     (if items = [] then text_line (text_line (lit ''- '' @ NOT_OBSERVED_PHRASING))
      else concat (map (\<lambda>x. text_line (lit ''- '' @ x)) items) @ [10])"

definition md_line :: "str \<Rightarrow> str" where
  "md_line x = text_line (text_line (lit ''- '' @ x))"

definition render_markdown ::
  "ProcurementMatter \<Rightarrow> ProcurementIdentifier list \<Rightarrow> str list \<Rightarrow> date_range \<Rightarrow> str option \<Rightarrow> str list \<Rightarrow> str" where
  "render_markdown mat identifiers missing_record_types date_range vendor_or_project sources_checked =
     text_line (text_line (lit ''# Draft Colorado Open Records Act Request'')) @
     text_line (text_line (lit ''**Status:** local draft only; not submitted.'')) @
     text_line (text_line (lit ''## Requesting institution / department'')) @ md_line CITY_DEPARTMENT @
     text_line (text_line (lit ''## Known solicitation or contract identifiers'')) @
     md_items (map (\<lambda>p. lit ''`'' @ pid_raw p @ lit ''` ('' @ identifier_kind_label (pid_kind p) @ lit '')'') identifiers) @
     text_line (text_line (lit ''## Specific records requested'')) @ md_items missing_record_types @
     text_line (text_line (lit ''## Narrow date range'')) @
     (case date_range of
        Some (Some start, Some end_date) \<Rightarrow> md_line (lit ''From '' @ start @ lit '' to '' @ end_date)
      | Some (Some start, None) \<Rightarrow> md_line (lit ''From '' @ start @ lit '' onward'')
      | Some (None, Some end_date) \<Rightarrow> md_line (lit ''Through '' @ end_date)
      | _ \<Rightarrow> md_line NOT_OBSERVED_PHRASING) @
     text_line (text_line (lit ''## Known vendor or project name'')) @
     (case vendor_or_project of Some n \<Rightarrow> md_line n | None \<Rightarrow> md_line NOT_OBSERVED_PHRASING) @
     text_line (text_line (lit ''## Existing public sources already checked'')) @ md_items sources_checked @
     text_line (text_line (lit ''## Review notice'')) @ text_line (text_line REVIEW_REQUIRED) @
     text_line (lit ''*Matter: '' @ pm_title mat @ lit '' ('' @ pm_jurisdiction mat @ lit '')*'')"

fun first_seen :: "str list \<Rightarrow> str list \<Rightarrow> str list" where
  "first_seen seen [] = []"
| "first_seen seen (x # xs) = (if x \<in> set seen then first_seen seen xs else x # first_seen (x # seen) xs)"

definition build_draft ::
  "hash \<Rightarrow> ProcurementMatter \<Rightarrow> ProcurementIdentifier list \<Rightarrow> str list \<Rightarrow> date_range \<Rightarrow> str option \<Rightarrow>
   str list \<Rightarrow> CoraDraft" where
  "build_draft sha mat identifiers missing_record_types date_range vendor_or_project sources_checked =
     \<lparr>cd_id = cora_draft_id_for sha (pm_id mat) OFFLINE_CREATED_AT, cd_matter_id = pm_id mat,
      cd_institution = CITY_DEPARTMENT, cd_identifiers = first_seen [] (map pid_raw identifiers),
      cd_missing_record_types = missing_record_types, cd_date_range = date_range,
      cd_vendor_or_project = vendor_or_project, cd_sources_checked = sources_checked,
      cd_markdown = render_markdown mat identifiers missing_record_types date_range vendor_or_project sources_checked,
      cd_created_at = OFFLINE_CREATED_AT\<rparr>"

section \<open>The ledger\<close>

datatype CoraLedgerError =
  RequestNotFound str
| AlreadyInState str CoraRequestState
| EvidenceNotFound str
| Store CoreError

definition gap_parts ::
  "str \<Rightarrow> str list \<Rightarrow> str list \<Rightarrow> date_range \<Rightarrow> str option \<Rightarrow> str list \<Rightarrow> str list" where
  "gap_parts institution identifiers missing_record_types date_range vendor_or_project sources_checked =
     [institution] @ identifiers @ missing_record_types @
     (case date_range of
        Some (Some start, Some end_date) \<Rightarrow> [start, end_date]
      | Some (Some start, None) \<Rightarrow> [start]
      | Some (None, Some end_date) \<Rightarrow> [end_date]
      | _ \<Rightarrow> [lit ''<no-range>'']) @
     [case vendor_or_project of Some n \<Rightarrow> n | None \<Rightarrow> []] @ sources_checked"

definition gap_set_digest ::
  "hash \<Rightarrow> str \<Rightarrow> str list \<Rightarrow> str list \<Rightarrow> date_range \<Rightarrow> str option \<Rightarrow> str list \<Rightarrow> str" where
  "gap_set_digest sha institution identifiers missing_record_types date_range vendor_or_project sources_checked =
     sha256_hex sha (as_bytes (join [31]
       (gap_parts institution identifiers missing_record_types date_range vendor_or_project sources_checked)))"

definition cora_event ::
  "hash \<Rightarrow> str \<Rightarrow> CoraRequestState \<Rightarrow> str \<Rightarrow> str \<Rightarrow> str \<Rightarrow> CoraRequestEvent" where
  "cora_event sha request_id state operator timestamp note_text =
     \<lparr>ce_id = stable_id sha (lit ''cora-event'') [request_id, cora_label state, timestamp],
      ce_request_id = request_id, ce_state = state, ce_operator = operator, ce_timestamp = timestamp,
      ce_note = note_text\<rparr>"

definition drafted_request ::
  "hash \<Rightarrow> str \<Rightarrow> str \<Rightarrow> str list \<Rightarrow> str list \<Rightarrow> date_range \<Rightarrow> str option \<Rightarrow> str list \<Rightarrow> str \<Rightarrow> str \<Rightarrow> CoraRequest" where
  "drafted_request sha matter_id institution identifiers missing_record_types date_range vendor_or_project
     sources_checked draft_text created_at =
     (let gap_digest = gap_set_digest sha institution identifiers missing_record_types date_range
            vendor_or_project sources_checked;
          request_id = cora_request_id_for sha matter_id gap_digest created_at in
      \<lparr>cr_id = request_id, cr_matter_id = matter_id, cr_state = CoraRequestState.Drafted,
       cr_gap_set_digest = gap_digest, cr_created_at = created_at, cr_institution = institution,
       cr_identifiers = identifiers, cr_missing_record_types = missing_record_types,
       cr_date_range = date_range, cr_vendor_or_project = vendor_or_project,
       cr_sources_checked = sources_checked, cr_draft_text = draft_text,
       cr_draft_digest = sha256_hex sha (as_bytes draft_text),
       cr_events = [cora_event sha request_id CoraRequestState.Drafted (lit ''draft'') created_at
         (lit ''draft generated'')]\<rparr>)"

definition register_draft ::
  "hash \<Rightarrow> str \<Rightarrow> str \<Rightarrow> str list \<Rightarrow> str list \<Rightarrow> date_range \<Rightarrow> str option \<Rightarrow> str list \<Rightarrow> str \<Rightarrow> str \<Rightarrow>
   (CoraLedgerError, bool) op" where
  "register_draft sha matter_id institution identifiers missing_record_types date_range vendor_or_project
     sources_checked draft_text created_at =
     stmt Store (insert_cora_request (drafted_request sha matter_id institution identifiers
       missing_record_types date_range vendor_or_project sources_checked draft_text created_at))"

definition transition ::
  "hash \<Rightarrow> str \<Rightarrow> CoraRequestState \<Rightarrow> str \<Rightarrow> str \<Rightarrow> str \<Rightarrow> (CoraLedgerError, CoraRequest) op" where
  "transition sha request_id new_state operator timestamp note_text =
     bind_op (read_op (\<lambda>s. case cora_request request_id s of Inl e \<Rightarrow> Inl (Store e) | Inr r \<Rightarrow> Inr r)) (\<lambda>request.
       if cr_state request = new_state then fail_op (AlreadyInState request_id new_state)
       else
         let request' = request\<lparr>cr_state := new_state,
               cr_events := cr_events request @ [cora_event sha request_id new_state operator timestamp note_text]\<rparr> in
         bind_op (unit_stmt Store (\<lambda>s. Inr (update_cora_request request' s))) (\<lambda>_. return_op request'))"

definition submit ::
  "hash \<Rightarrow> str \<Rightarrow> str \<Rightarrow> str \<Rightarrow> str \<Rightarrow> str option \<Rightarrow> (CoraLedgerError, CoraRequest) op" where
  "submit sha request_id operator date tracking recipient_note =
     transition sha request_id CoraRequestState.Submitted operator date
       (lit ''submitted on '' @ date @ lit '' by operator '' @ operator @ lit ''; tracking ref '' @ [39] @
        tracking @ [39] @ (case recipient_note of None \<Rightarrow> [] | Some n \<Rightarrow> lit ''; recipient note: '' @ n))"

definition response_received ::
  "hash \<Rightarrow> str \<Rightarrow> str \<Rightarrow> str option \<Rightarrow> (CoraLedgerError, CoraRequest) op" where
  "response_received sha request_id response_id note_text =
     bind_op (read_op (\<lambda>s. if supplied_record_json response_id s = None
                           then Inl (EvidenceNotFound response_id) else Inr ())) (\<lambda>_.
       transition sha request_id CoraRequestState.ResponseReceived (lit ''response-import'') OFFLINE_CREATED_AT
         (lit ''response evidence '' @ response_id @ lit '' linked'' @
          (case note_text of None \<Rightarrow> [] | Some n \<Rightarrow> lit ''; note: '' @ n)))"

definition gap_resolved :: "hash \<Rightarrow> str \<Rightarrow> str \<Rightarrow> str \<Rightarrow> (CoraLedgerError, CoraRequest) op" where
  "gap_resolved sha request_id operator note_text =
     transition sha request_id CoraRequestState.GapResolved operator OFFLINE_CREATED_AT note_text"

definition still_unresolved :: "hash \<Rightarrow> str \<Rightarrow> str \<Rightarrow> str \<Rightarrow> (CoraLedgerError, CoraRequest) op" where
  "still_unresolved sha request_id operator note_text =
     transition sha request_id CoraRequestState.StillUnresolved operator OFFLINE_CREATED_AT note_text"

definition list_requests :: "str option \<Rightarrow> store \<Rightarrow> CoraRequest list" where
  "list_requests matter_id s =
     (case matter_id of Some m \<Rightarrow> cora_requests m s | None \<Rightarrow> all_cora_requests s)"

definition show_request :: "str \<Rightarrow> store \<Rightarrow> CoraLedgerError + CoraRequest" where
  "show_request request_id s = (case cora_request request_id s of Inl e \<Rightarrow> Inl (Store e) | Inr r \<Rightarrow> Inr r)"

section \<open>One transition\<close>

definition advanced :: "hash \<Rightarrow> CoraRequestState \<Rightarrow> str \<Rightarrow> str \<Rightarrow> str \<Rightarrow> CoraRequest \<Rightarrow> CoraRequest" where
  "advanced sha st operator tm note_text r =
     r\<lparr>cr_state := st, cr_events := cr_events r @ [cora_event sha (cr_id r) st operator tm note_text]\<rparr>"

lemma advanced_fields [simp]:
  "cr_id (advanced sha st operator tm n r) = cr_id r"
  "cr_state (advanced sha st operator tm n r) = st"
  "cr_events (advanced sha st operator tm n r) = cr_events r @ [cora_event sha (cr_id r) st operator tm n]"
  by (simp_all add: advanced_def)

lemma cora_request_Inr: "cora_request k s = Inr r \<longleftrightarrow> select_by cr_id k (st_cora_requests s) = Some r"
  by (auto simp: cora_request_def read_row_def split: option.splits)

lemma select_update_by:
  "select_by key k (update_by key r t) =
     (case select_by key k t of None \<Rightarrow> None | Some q \<Rightarrow> Some (if key q = key r then r else q))"
  by (induction t) (auto simp: update_by_def select_by_def)

lemma transition_eq:
  assumes "cora_request k s = Inr r"
  shows "transition sha k st operator tm n s =
    (if cr_state r = st then (Inl (AlreadyInState k st), s)
     else (Inr (advanced sha st operator tm n r), update_cora_request (advanced sha st operator tm n r) s))"
proof -
  have "cr_id r = k" using assms by (auto simp: cora_request_Inr dest: select_by_SomeD)
  with assms show ?thesis by (simp add: transition_def op_defs advanced_def Let_def)
qed

lemma transition_missing:
  "cora_request k s = Inl e \<Longrightarrow> transition sha k st operator tm n s = (Inl (Store e), s)"
  by (simp add: transition_def op_defs)

lemma cora_request_update:
  assumes "cora_request k s = Inr r" "cr_id r' = cr_id r"
  shows "cora_request j (update_cora_request r' s) = (if j = k then Inr r' else cora_request j s)"
proof -
  have k: "cr_id r = k" using assms(1) by (auto simp: cora_request_Inr dest: select_by_SomeD)
  have "select_by cr_id j (st_cora_requests (update_cora_request r' s)) =
      (if j = k then Some r' else select_by cr_id j (st_cora_requests s))"
    using assms k by (auto simp: update_cora_request_def select_update_by cora_request_Inr
        split: option.split dest: select_by_SomeD)
  then show ?thesis by (simp add: cora_request_def read_row_def)
qed

section \<open>Runs of the ledger\<close>

text \<open>
  A step is a ledger operation that succeeds, or any other write of the store that leaves the table of
  requests alone and forgets no imported record.
\<close>

inductive ledger_step :: "hash \<Rightarrow> store \<Rightarrow> store \<Rightarrow> bool" for sha where
  ledger_register: "register_draft sha m inst ids missing dates vendor sources body tm s = (Inr b, s') \<Longrightarrow>
    ledger_step sha s s'"
| ledger_submit: "submit sha k operator date tracking recipient s = (Inr r, s') \<Longrightarrow> ledger_step sha s s'"
| ledger_response: "response_received sha k i n s = (Inr r, s') \<Longrightarrow> ledger_step sha s s'"
| ledger_resolved: "gap_resolved sha k operator n s = (Inr r, s') \<Longrightarrow> ledger_step sha s s'"
| ledger_unresolved: "still_unresolved sha k operator n s = (Inr r, s') \<Longrightarrow> ledger_step sha s s'"
| ledger_other: "st_cora_requests s' = st_cora_requests s \<Longrightarrow>
    sup_id ` set (st_supplied_records s) \<subseteq> sup_id ` set (st_supplied_records s') \<Longrightarrow> ledger_step sha s s'"

text \<open>What a step does to the table: a fresh draft at the end, one request advanced, or nothing.\<close>

lemma transition_Inr:
  assumes "transition sha k st operator tm n s = (Inr r', s')"
  obtains r where "cora_request k s = Inr r" "cr_state r \<noteq> st" "r' = advanced sha st operator tm n r"
    "s' = update_cora_request r' s"
  using assms transition_eq [of k s _ sha st operator tm n] transition_missing [of k s _ sha st operator tm n]
  by (cases "cora_request k s") (auto split: if_splits)

text \<open>A note that names an imported record of the store.\<close>

definition cites_import :: "store \<Rightarrow> str \<Rightarrow> bool" where
  "cites_import s note_text \<longleftrightarrow>
     (\<exists>i rest. note_text = lit ''response evidence '' @ i @ lit '' linked'' @ rest \<and>
        i \<in> sup_id ` set (st_supplied_records s))"

lemma cites_import_mono:
  "cites_import s n \<Longrightarrow> sup_id ` set (st_supplied_records s) \<subseteq> sup_id ` set (st_supplied_records s') \<Longrightarrow>
     cites_import s' n"
  unfolding cites_import_def by blast

lemma response_received_Inr:
  assumes "response_received sha k i n s = (Inr r', s')"
  obtains note_text where "cites_import s note_text"
    "transition sha k CoraRequestState.ResponseReceived (lit ''response-import'') OFFLINE_CREATED_AT note_text s = (Inr r', s')"
proof -
  have "supplied_record_json i s \<noteq> None"
    using assms by (cases "supplied_record_json i s") (simp_all add: response_received_def op_defs)
  then have "i \<in> sup_id ` set (st_supplied_records s)"
    by (auto simp: supplied_record_json_def dest!: select_by_SomeD)
  with assms that show ?thesis
    by (auto simp: response_received_def op_defs cites_import_def split: if_splits)
qed

lemma register_draft_table:
  "register_draft sha m inst ids missing dates vendor sources body tm s = (Inr b, s') \<Longrightarrow>
   st_cora_requests s' = (if b then st_cora_requests s @
      [drafted_request sha m inst ids missing dates vendor sources body tm] else st_cora_requests s) \<and>
   st_supplied_records s' = st_supplied_records s \<and>
   b = (cr_id (drafted_request sha m inst ids missing dates vendor sources body tm) \<notin> cr_id ` set (st_cora_requests s))"
  by (auto simp: register_draft_def stmt_def insert_cora_request_def insert_or_ignore_def split: if_splits)

lemma ledger_step_cases:
  assumes "ledger_step sha s s'"
  obtains (kept) "st_cora_requests s' = st_cora_requests s"
      "sup_id ` set (st_supplied_records s) \<subseteq> sup_id ` set (st_supplied_records s')"
  | (drafted) m inst ids missing dates vendor sources body tm where
      "cr_id (drafted_request sha m inst ids missing dates vendor sources body tm) \<notin> cr_id ` set (st_cora_requests s)"
      "st_cora_requests s' = st_cora_requests s @
        [drafted_request sha m inst ids missing dates vendor sources body tm]"
      "sup_id ` set (st_supplied_records s') = sup_id ` set (st_supplied_records s)"
  | (moved) k st operator tm n r where "cora_request k s = Inr r" "cr_state r \<noteq> st"
      "st_cora_requests s' = update_by cr_id (advanced sha st operator tm n r) (st_cora_requests s)"
      "sup_id ` set (st_supplied_records s') = sup_id ` set (st_supplied_records s)"
      "st = CoraRequestState.ResponseReceived \<Longrightarrow> cites_import s n"
proof -
  have move: thesis if "transition sha k st operator tm n s = (Inr r', s')"
    "st = CoraRequestState.ResponseReceived \<Longrightarrow> cites_import s n" for k st operator tm n r'
    using that(1) by (rule transition_Inr) (rule moved, auto simp: update_cora_request_def intro: that(2))
  show thesis
    using assms
  proof cases
    case (ledger_register m inst ids missing dates vendor sources body tm b)
    then show ?thesis using register_draft_table [OF ledger_register] kept drafted by (cases b) auto
  next
    case (ledger_submit k operator date tracking recipient r)
    then show ?thesis unfolding submit_def by (rule move) simp
  next
    case (ledger_response k i n r)
    then show ?thesis by (rule response_received_Inr) (rule move)
  next
    case (ledger_resolved k operator n r)
    then show ?thesis unfolding gap_resolved_def by (rule move) simp
  next
    case (ledger_unresolved k operator n r)
    then show ?thesis unfolding still_unresolved_def by (rule move) simp
  next
    case ledger_other
    then show ?thesis by (rule kept)
  qed
qed

section \<open>The ledger invariant\<close>

fun alternating :: "CoraRequestEvent list \<Rightarrow> bool" where
  "alternating (a # b # es) = (ce_state a \<noteq> ce_state b \<and> alternating (b # es))"
| "alternating es = True"

definition well_formed_request :: "hash \<Rightarrow> CoraRequest \<Rightarrow> bool" where
  "well_formed_request sha r \<longleftrightarrow>
     cr_events r \<noteq> [] \<and> ce_state (hd (cr_events r)) = CoraRequestState.Drafted \<and>
     cr_state r = ce_state (last (cr_events r)) \<and> alternating (cr_events r) \<and>
     list_all (\<lambda>e. ce_request_id e = cr_id r \<and>
        ce_id e = stable_id sha (lit ''cora-event'') [cr_id r, cora_label (ce_state e), ce_timestamp e]) (cr_events r) \<and>
     cr_id r = cora_request_id_for sha (cr_matter_id r) (cr_gap_set_digest r) (cr_created_at r) \<and>
     cr_draft_digest r = sha256_hex sha (as_bytes (cr_draft_text r)) \<and>
     cr_gap_set_digest r = gap_set_digest sha (cr_institution r) (cr_identifiers r) (cr_missing_record_types r)
        (cr_date_range r) (cr_vendor_or_project r) (cr_sources_checked r)"

definition ledger_invariant :: "hash \<Rightarrow> store \<Rightarrow> bool" where
  "ledger_invariant sha s \<longleftrightarrow>
     distinct (map cr_id (st_cora_requests s)) \<and> list_all (well_formed_request sha) (st_cora_requests s) \<and>
     list_all (\<lambda>r. list_all (\<lambda>e. ce_state e = CoraRequestState.ResponseReceived \<longrightarrow> cites_import s (ce_note e))
        (cr_events r)) (st_cora_requests s)"

lemma alternating_snoc: "alternating es \<Longrightarrow> es \<noteq> [] \<Longrightarrow> ce_state (last es) \<noteq> ce_state e \<Longrightarrow> alternating (es @ [e])"
  by (induction es rule: alternating.induct) auto

lemma drafted_events:
  "list_all (\<lambda>e. ce_state e = CoraRequestState.Drafted)
     (cr_events (drafted_request sha m inst ids missing dates vendor sources body tm))"
  by (simp add: drafted_request_def cora_event_def Let_def)

lemma drafted_well_formed:
  "well_formed_request sha (drafted_request sha m inst ids missing dates vendor sources body tm)"
  by (simp add: well_formed_request_def drafted_request_def cora_event_def Let_def)

lemma advanced_well_formed:
  assumes "well_formed_request sha r" "cr_state r \<noteq> st"
  shows "well_formed_request sha (advanced sha st operator tm n r)"
  using assms alternating_snoc [of "cr_events r" "cora_event sha (cr_id r) st operator tm n"]
  by (auto simp: well_formed_request_def advanced_def cora_event_def)

lemma update_by_in: "q \<in> set (update_by key r t) \<Longrightarrow> q = r \<or> q \<in> set t"
  by (auto simp: update_by_def split: if_splits)

lemma ledger_step_invariant:
  assumes "ledger_step sha s s'" "ledger_invariant sha s"
  shows "ledger_invariant sha s'"
  using assms(1)
proof (cases rule: ledger_step_cases)
  case kept
  then show ?thesis using assms(2) cites_import_mono [of s _ s'] by (auto simp: ledger_invariant_def list_all_iff)
next
  case (drafted m inst ids missing dates vendor sources body tm)
  let ?d = "drafted_request sha m inst ids missing dates vendor sources body tm"
  have "\<And>e. e \<in> set (cr_events ?d) \<Longrightarrow> ce_state e = CoraRequestState.Drafted"
    using drafted_events by (auto simp: list_all_iff)
  moreover have "\<And>n. cites_import s n \<Longrightarrow> cites_import s' n"
    using cites_import_mono [of s _ s'] drafted(3) by simp
  ultimately show ?thesis
    using assms(2) drafted(1,2) drafted_well_formed by (auto simp: ledger_invariant_def list_all_iff)
next
  case (moved k st operator tm n r)
  have r: "r \<in> set (st_cora_requests s)"
    using moved(1) by (auto simp: cora_request_Inr dest: select_by_SomeD)
  have wf: "well_formed_request sha (advanced sha st operator tm n r)"
    using assms(2) r moved(2) advanced_well_formed by (auto simp: ledger_invariant_def list_all_iff)
  have cites: "ce_state e = CoraRequestState.ResponseReceived \<Longrightarrow> cites_import s (ce_note e)"
    if "e \<in> set (cr_events (advanced sha st operator tm n r))" for e
    using that assms(2) r moved(5) by (auto simp: ledger_invariant_def list_all_iff cora_event_def)
  have q: "q = advanced sha st operator tm n r \<or> q \<in> set (st_cora_requests s)"
    if "q \<in> set (st_cora_requests s')" for q
    using that update_by_in unfolding moved(3) by metis
  have mono: "cites_import s n \<Longrightarrow> cites_import s' n" for n
    using cites_import_mono [of s n s'] moved(4) by simp
  have "distinct (map cr_id (st_cora_requests s'))"
    using assms(2) unfolding moved(3) by (simp add: ledger_invariant_def)
  moreover have "list_all (well_formed_request sha) (st_cora_requests s')"
    using q wf assms(2) by (auto simp: ledger_invariant_def list_all_iff)
  moreover have "list_all (\<lambda>r. list_all (\<lambda>e. ce_state e = CoraRequestState.ResponseReceived \<longrightarrow> cites_import s' (ce_note e))
        (cr_events r)) (st_cora_requests s')"
    using q cites mono assms(2) unfolding list_all_iff ledger_invariant_def by blast
  ultimately show ?thesis by (simp add: ledger_invariant_def)
qed

lemma ledger_reachable_invariant:
  "(ledger_step sha)\<^sup>*\<^sup>* s s' \<Longrightarrow> ledger_invariant sha s \<Longrightarrow> ledger_invariant sha s'"
  by (induction rule: rtranclp_induct) (auto intro: ledger_step_invariant)

text \<open>One request extends another: same facts, more events.\<close>

definition extends_request :: "CoraRequest \<Rightarrow> CoraRequest \<Rightarrow> bool" where
  "extends_request r r' \<longleftrightarrow>
     (\<exists>new. r' = r\<lparr>cr_state := cr_state r', cr_events := cr_events r @ new\<rparr>)"

lemma extends_request_refl: "extends_request r r"
  unfolding extends_request_def by (rule exI [of _ "[]"]) simp

lemma extends_request_trans:
  assumes "extends_request a b" "extends_request b c"
  shows "extends_request a c"
proof -
  obtain x y where x: "b = a\<lparr>cr_state := cr_state b, cr_events := cr_events a @ x\<rparr>"
    and y: "c = b\<lparr>cr_state := cr_state c, cr_events := cr_events b @ y\<rparr>"
    using assms by (auto simp: extends_request_def)
  from x have e: "cr_events b = cr_events a @ x" by (metis CoraRequest.select_convs(14) CoraRequest.surjective CoraRequest.update_convs(14))
  have "c = a\<lparr>cr_state := cr_state c, cr_events := cr_events a @ (x @ y)\<rparr>"
    by (subst y, subst x, simp add: e)
  then show ?thesis by (auto simp: extends_request_def)
qed

lemma extends_advanced: "extends_request r (advanced sha st operator tm n r)"
  unfolding extends_request_def advanced_def by (intro exI) simp

lemma ledger_step_extends:
  assumes "ledger_step sha s s'" "r \<in> set (st_cora_requests s)"
    "distinct (map cr_id (st_cora_requests s))"
  shows "\<exists>r' \<in> set (st_cora_requests s'). extends_request r r'"
  using assms(1)
proof (cases rule: ledger_step_cases)
  case kept
  then show ?thesis using assms(2) extends_request_refl by auto
next
  case drafted
  then have "r \<in> set (st_cora_requests s')" using assms(2) by simp
  then show ?thesis using extends_request_refl by blast
next
  case (moved k st operator tm n q)
  have q: "q \<in> set (st_cora_requests s)" using moved(1) by (auto simp: cora_request_Inr dest: select_by_SomeD)
  show ?thesis
  proof (cases "cr_id r = cr_id q")
    case True
    then have "r = q" using assms(2,3) q by (meson distinct_map inj_onD)
    then have "advanced sha st operator tm n q \<in> set (st_cora_requests s')"
      using assms(2) unfolding moved(3) by (force simp: update_by_def)
    with \<open>r = q\<close> show ?thesis using extends_advanced by blast
  next
    case False
    then have "r \<in> set (st_cora_requests s')" using assms(2) unfolding moved(3) by (intro update_by_other) simp_all
    then show ?thesis using extends_request_refl by blast
  qed
qed

lemma ledger_run_extends:
  assumes "(ledger_step sha)\<^sup>*\<^sup>* s s'" "ledger_invariant sha s" "r \<in> set (st_cora_requests s)"
  shows "\<exists>r' \<in> set (st_cora_requests s'). extends_request r r'"
  using assms
proof (induction rule: rtranclp_induct)
  case base
  then show ?case using extends_request_refl by blast
next
  case (step t u)
  then obtain q where q: "q \<in> set (st_cora_requests t)" "extends_request r q" by blast
  have "distinct (map cr_id (st_cora_requests t))"
    using ledger_reachable_invariant [OF step(1,4)] by (simp add: ledger_invariant_def)
  from ledger_step_extends [OF step(2) q(1) this] q(2) show ?case using extends_request_trans by blast
qed

lemma ledger_invariant_empty: "ledger_invariant sha empty_store"
  by (simp add: ledger_invariant_def empty_store_def)

section \<open>Properties\<close>

text \<open>
  C21: Every ledger reachable from the empty store by ledger operations and unrelated writes is sound:
  request identifiers are unique and made of matter, gap digest and time; the state of a request is that
  of its last event; its events start with the draft, belong to it, and never repeat a state in a row;
  the draft digest is that of the draft text; and a received response names a record that was imported.
\<close>

theorem ledger_sound:
  assumes "(ledger_step sha)\<^sup>*\<^sup>* empty_store s" "r \<in> set (st_cora_requests s)"
  shows "distinct (map cr_id (st_cora_requests s)) \<and> well_formed_request sha r \<and>
    list_all (\<lambda>e. ce_state e \<noteq> CoraRequestState.ResponseReceived \<or> cites_import s (ce_note e)) (cr_events r)"
  using ledger_reachable_invariant [OF assms(1) ledger_invariant_empty] assms(2)
  unfolding ledger_invariant_def list_all_iff by blast

definition sample_request_of :: "hash \<Rightarrow> CoraRequest" where
  "sample_request_of sha = drafted_request sha [109] [] [] [] None None [] [] []"

definition drafted_store :: "hash \<Rightarrow> store" where
  "drafted_store sha = empty_store\<lparr>st_cora_requests := [sample_request_of sha]\<rparr>"

lemma drafted_store_reachable: "(ledger_step sha)\<^sup>*\<^sup>* empty_store (drafted_store sha)"
proof -
  have "register_draft sha [109] [] [] [] None None [] [] [] empty_store = (Inr True, drafted_store sha)"
    by (simp add: register_draft_def stmt_def insert_cora_request_def insert_or_ignore_def drafted_store_def
        sample_request_of_def empty_store_def)
  then show ?thesis by (blast intro: ledger_register)
qed

theorem ledger_sound_witness:
  "well_formed_request id_hash (sample_request_of id_hash)"
  using ledger_sound [OF drafted_store_reachable, of "sample_request_of id_hash" id_hash]
  by (simp add: drafted_store_def)

text \<open>
  The history of a request is never rewritten: whatever happens to the ledger afterwards, a request
  it holds is still there with every fact of its draft, and its events are a prefix of the later ones.
\<close>

theorem requests_only_grow:
  assumes "(ledger_step sha)\<^sup>*\<^sup>* empty_store s" "(ledger_step sha)\<^sup>*\<^sup>* s s'" "r \<in> set (st_cora_requests s)"
  shows "\<exists>r' new. r' \<in> set (st_cora_requests s') \<and>
    r' = r\<lparr>cr_state := cr_state r', cr_events := cr_events r @ new\<rparr>"
  using ledger_run_extends [OF assms(2) ledger_reachable_invariant [OF assms(1) ledger_invariant_empty] assms(3)]
  unfolding extends_request_def by blast

theorem requests_only_grow_witness:
  "\<exists>r' new. r' \<in> set (st_cora_requests (drafted_store id_hash)) \<and>
    r' = (sample_request_of id_hash)\<lparr>cr_state := cr_state r', cr_events := cr_events (sample_request_of id_hash) @ new\<rparr>"
  using requests_only_grow [OF drafted_store_reachable rtranclp.rtrancl_refl, of "sample_request_of id_hash" id_hash]
  by (simp add: drafted_store_def)

text \<open>
  C22: A transition behaves as the abstract machine: on a recorded request it is refused, without a
  write, exactly when the request is in that state already; otherwise the request gets the state and one
  more event at the end, reads back so, and every other request is untouched.
\<close>

theorem transition_refines_machine:
  assumes "cora_request k s = Inr r"
  shows "case transition sha k st operator tm n s of
      (Inl e, s') \<Rightarrow> e = AlreadyInState k (cr_state r) \<and> cr_state r = st \<and> s' = s
    | (Inr r', s') \<Rightarrow> cr_state r \<noteq> st \<and>
        r' = r\<lparr>cr_state := st, cr_events := cr_events r @ [cora_event sha (cr_id r) st operator tm n]\<rparr> \<and>
        (\<forall>j. cora_request j s' = (if j = k then Inr r' else cora_request j s))"
  using cora_request_update [OF assms, of "advanced sha st operator tm n r"]
  by (simp add: transition_eq [OF assms]) (simp add: advanced_def)

theorem transition_refines_machine_witness:
  "\<exists>r s'. transition id_hash (cr_id (sample_request_of id_hash)) CoraRequestState.Submitted [] [] []
      (drafted_store id_hash) = (Inr r, s') \<and> cr_state r = CoraRequestState.Submitted"
proof -
  have "cora_request (cr_id (sample_request_of id_hash)) (drafted_store id_hash) = Inr (sample_request_of id_hash)"
    by (simp add: cora_request_Inr drafted_store_def)
  moreover have "cr_state (sample_request_of id_hash) \<noteq> CoraRequestState.Submitted"
    by (simp add: sample_request_of_def drafted_request_def Let_def)
  ultimately show ?thesis
    using transition_refines_machine [where k = "cr_id (sample_request_of id_hash)" and s = "drafted_store id_hash"
        and r = "sample_request_of id_hash" and sha = id_hash and st = CoraRequestState.Submitted and operator = "[]"
        and tm = "[]" and n = "[]"]
    by (auto split: prod.splits sum.splits)
qed

text \<open>
  No order of the states is enforced: a gap can be marked resolved straight from the draft, with no
  submission, no response and no imported record.
\<close>

theorem gap_resolved_without_response:
  assumes "cora_request k s = Inr r" "cr_state r = CoraRequestState.Drafted"
  shows "\<exists>r' s'. gap_resolved sha k operator n s = (Inr r', s') \<and> cora_request k s' = Inr r' \<and>
    cr_state r' = CoraRequestState.GapResolved"
  using cora_request_update [OF assms(1)] assms(2)
  by (simp add: gap_resolved_def transition_eq [OF assms(1)])

theorem gap_resolved_without_response_witness:
  "\<exists>r' s'. gap_resolved id_hash (cr_id (sample_request_of id_hash)) [] [] (drafted_store id_hash) = (Inr r', s')"
proof -
  have "cora_request (cr_id (sample_request_of id_hash)) (drafted_store id_hash) = Inr (sample_request_of id_hash)"
    by (simp add: cora_request_Inr drafted_store_def)
  moreover have "cr_state (sample_request_of id_hash) = CoraRequestState.Drafted"
    by (simp add: sample_request_of_def drafted_request_def Let_def)
  ultimately show ?thesis using gap_resolved_without_response by blast
qed

lemma gap_digest_conflates_fields:
  "gap_set_digest sha inst (ids @ [x]) missing dates vendor sources =
     gap_set_digest sha inst ids (x # missing) dates vendor sources"
  "gap_set_digest sha inst ids missing (Some (Some d, None)) vendor sources =
     gap_set_digest sha inst ids missing (Some (None, Some d)) vendor sources"
  by (simp_all add: gap_set_digest_def gap_parts_def)

text \<open>
  The gap-set digest does not separate its fields, so a different gap can be dropped: once a request
  for the records from a date on is registered, the request of the same matter and time for the records
  up to that date counts as the same one, and registering it changes nothing.
\<close>

theorem turned_around_gap_is_dropped:
  assumes "register_draft sha m inst ids missing (Some (Some d, None)) vendor sources body tm s = (Inr b, s')"
  shows "register_draft sha m inst ids missing (Some (None, Some d)) vendor sources body' tm s' = (Inr False, s')"
proof -
  let ?r = "\<lambda>dates body. drafted_request sha m inst ids missing dates vendor sources body tm"
  have "cr_id (?r (Some (None, Some d)) body') = cr_id (?r (Some (Some d, None)) body)"
    by (simp add: drafted_request_def Let_def gap_digest_conflates_fields(2))
  moreover have "cr_id (?r (Some (Some d, None)) body) \<in> cr_id ` set (st_cora_requests s')"
    using assms cora_requests_table.key_present by (auto simp: register_draft_def stmt_Inr)
  ultimately show ?thesis
    by (simp add: register_draft_def stmt_def insert_cora_request_def insert_or_ignore_def)
qed

theorem turned_around_gap_is_dropped_witness:
  "\<exists>s'. register_draft id_hash [] [] [] [] (Some (Some [49], None)) None [] [] [] empty_store = (Inr True, s') \<and>
    register_draft id_hash [] [] [] [] (Some (None, Some [49])) None [] [] [] s' = (Inr False, s')"
proof -
  obtain s' where "register_draft id_hash [] [] [] [] (Some (Some [49], None)) None [] [] [] empty_store = (Inr True, s')"
    by (simp add: register_draft_def stmt_def insert_cora_request_def insert_or_ignore_def empty_store_def)
  with turned_around_gap_is_dropped [OF this] show ?thesis by blast
qed

end
