(* ===== verification/Chain.thy ===== *)
theory Chain
  imports Identifiers
begin

text \<open>
  The procurement chain of a matter (\<open>pnull-procurement/src/chain.rs\<close>): its events grouped by stage,
  links between stages that share an exact identifier and whose both ends resolve to a stored
  snapshot, explicit gaps where they do not, and candidates for human review.
\<close>

section \<open>Stages\<close>

datatype ChainStage = Solicitation | Amendment | Award | Contract | Expenditure

definition all_stages :: "ChainStage list" where
  "all_stages = [ChainStage.Solicitation, ChainStage.Amendment, ChainStage.Award, ChainStage.Contract, Expenditure]"

fun stage_index :: "ChainStage \<Rightarrow> nat" where
  "stage_index ChainStage.Solicitation = 0"
| "stage_index ChainStage.Amendment = 1"
| "stage_index ChainStage.Award = 2"
| "stage_index ChainStage.Contract = 3"
| "stage_index Expenditure = 4"

fun stage_label :: "ChainStage \<Rightarrow> str" where
  "stage_label ChainStage.Solicitation = lit ''solicitation''"
| "stage_label ChainStage.Amendment = lit ''amendment''"
| "stage_label ChainStage.Award = lit ''award''"
| "stage_label ChainStage.Contract = lit ''contract''"
| "stage_label Expenditure = lit ''expenditure''"

fun from_event_kind :: "ProcurementEventKind \<Rightarrow> ChainStage option" where
  "from_event_kind SolicitationPublished = Some ChainStage.Solicitation"
| "from_event_kind QuestionsAndAnswersPublished = Some ChainStage.Solicitation"
| "from_event_kind SubmissionDeadlineChanged = Some ChainStage.Solicitation"
| "from_event_kind AmendmentPublished = Some ChainStage.Amendment"
| "from_event_kind AwardAnnounced = Some ChainStage.Award"
| "from_event_kind ProcurementEventKind.ContractExecuted = Some ChainStage.Contract"
| "from_event_kind ContractAmended = Some ChainStage.Contract"
| "from_event_kind ExpenditureReported = Some Expenditure"
| "from_event_kind RecordCorrected = None"
| "from_event_kind ProcurementEventKind.RecordRemoved = None"
| "from_event_kind ProcurementEventKind.Unknown = None"

datatype LinkKind = ExactIdentifier

fun link_kind_label :: "LinkKind \<Rightarrow> str" where
  "link_kind_label ExactIdentifier = lit ''exact identifier match''"

record ChainEvidence =
  che_event_id :: str
  che_source_id :: str
  che_snapshot_id :: str
  che_digest :: str

record ChainLink =
  lnk_from :: ChainStage
  lnk_to :: ChainStage
  lnk_kind :: LinkKind
  lnk_normalized_identifier :: "str option"
  lnk_citation :: str
  lnk_from_evidence :: ChainEvidence
  lnk_to_evidence :: ChainEvidence

record EvidenceGap =
  gap_normalized_identifier :: str
  gap_from_event_id :: str
  gap_to_event_id :: str
  gap_from_has_evidence :: bool
  gap_to_has_evidence :: bool

record ChainStageObservation =
  cso_stage :: ChainStage
  cso_events :: "ProcurementEvent list"

record ChainView =
  cv_matter :: ProcurementMatter
  cv_stages :: "ChainStageObservation list"
  cv_links :: "ChainLink list"
  cv_evidence_gaps :: "EvidenceGap list"
  cv_review_suggestions :: "ReconciliationItem list"
  cv_not_observed :: "ChainStage list"

datatype ChainError = MatterNotFound str | Store CoreError

section \<open>Evidence of an event\<close>

definition is_valid_sha256 :: "str \<Rightarrow> bool" where
  "is_valid_sha256 digest \<longleftrightarrow> byte_len digest = 64 \<and> list_all is_hexdigit digest"

fun resolve_evidence_ids :: "store \<Rightarrow> str \<Rightarrow> str list \<Rightarrow> ChainEvidence option" where
  "resolve_evidence_ids s eid [] = None"
| "resolve_evidence_ids s eid (i # ids) =
     (case source_snapshot i s of
        Inl _ \<Rightarrow> resolve_evidence_ids s eid ids
      | Inr snapshot \<Rightarrow>
          if is_valid_sha256 (snap_persisted_digest snapshot) then
            Some \<lparr>che_event_id = eid, che_source_id = snap_source_id snapshot,
              che_snapshot_id = snap_id snapshot, che_digest = snap_persisted_digest snapshot\<rparr>
          else resolve_evidence_ids s eid ids)"

definition resolve_event_evidence :: "store \<Rightarrow> ProcurementEvent \<Rightarrow> ChainEvidence option" where
  "resolve_event_evidence s e = resolve_evidence_ids s (ev_id e) (ev_evidence_ids e)"

section \<open>Links and gaps\<close>

type_synonym occurrence = "ChainStage \<times> ProcurementEvent"

text \<open>The \<open>BTreeMap\<close> by identifier: among entries with one key, the last inserted stays.\<close>

definition identifier_by_id :: "ProcurementIdentifier list \<Rightarrow> str \<Rightarrow> ProcurementIdentifier option" where
  "identifier_by_id identifiers i = find (\<lambda>p. pid_id p = i) (rev identifiers)"

definition event_occurrences ::
  "ProcurementIdentifier list \<Rightarrow> ProcurementEvent \<Rightarrow> (str \<times> occurrence) list" where
  "event_occurrences identifiers e =
     (case from_event_kind (ev_kind e) of
        None \<Rightarrow> []
      | Some stage \<Rightarrow>
          List.map_filter
            (\<lambda>i. case identifier_by_id identifiers i of
                   None \<Rightarrow> None
                 | Some p \<Rightarrow> map_option (\<lambda>n. (n, stage, e)) (pid_normalized p))
            (ev_identifier_ids e))"

definition by_normalized ::
  "ProcurementIdentifier list \<Rightarrow> ProcurementEvent list \<Rightarrow> (str \<times> occurrence list) list" where
  "by_normalized identifiers events =
     (let occ = concat (map (event_occurrences identifiers) events) in
      map (\<lambda>n. (n, map snd (filter (\<lambda>x. fst x = n) occ))) (sort (remdups (map fst occ))))"

fun pairs_of :: "'a list \<Rightarrow> ('a \<times> 'a) list" where
  "pairs_of [] = []"
| "pairs_of (x # xs) = map (Pair x) xs @ pairs_of xs"

definition ordered_stages :: "ChainStage \<Rightarrow> ChainStage \<Rightarrow> ChainStage \<times> ChainStage" where
  "ordered_stages a b = (if stage_index a \<le> stage_index b then (a, b) else (b, a))"

definition make_link ::
  "str \<Rightarrow> occurrence \<Rightarrow> occurrence \<Rightarrow> ChainEvidence \<Rightarrow> ChainEvidence \<Rightarrow> ChainLink" where
  "make_link normalized from_occ to_occ ev_from ev_to =
     \<lparr>lnk_from = fst (ordered_stages (fst from_occ) (fst to_occ)),
      lnk_to = snd (ordered_stages (fst from_occ) (fst to_occ)), lnk_kind = ExactIdentifier,
      lnk_normalized_identifier = Some normalized,
      lnk_citation = lit ''events '' @ [39] @ ev_summary (snd from_occ) @ [39] @ lit '' (source '' @
        ev_source_id (snd from_occ) @ lit '') and '' @ [39] @ ev_summary (snd to_occ) @ [39] @
        lit '' (source '' @ ev_source_id (snd to_occ) @
        lit '') reference the same normalized identifier '' @ normalized,
      lnk_from_evidence = ev_from, lnk_to_evidence = ev_to\<rparr>"

definition pair_key :: "ProcurementEvent \<Rightarrow> ProcurementEvent \<Rightarrow> str" where
  "pair_key a b = ev_id a @ [0] @ ev_id b"

fun link_loop ::
  "store \<Rightarrow> str list \<Rightarrow> (str \<times> occurrence \<times> occurrence) list \<Rightarrow> ChainLink list \<times> EvidenceGap list" where
  "link_loop s seen [] = ([], [])"
| "link_loop s seen ((n, f, t) # rest) =
     (if fst f = fst t then link_loop s seen rest
      else if pair_key (snd f) (snd t) \<in> set seen then link_loop s seen rest
      else
        let (links, gaps) = link_loop s (pair_key (snd f) (snd t) # seen) rest in
        case (resolve_event_evidence s (snd f), resolve_event_evidence s (snd t)) of
          (Some a, Some b) \<Rightarrow> (make_link n f t a b # links, gaps)
        | (a, b) \<Rightarrow>
            (links, \<lparr>gap_normalized_identifier = n, gap_from_event_id = ev_id (snd f),
               gap_to_event_id = ev_id (snd t), gap_from_has_evidence = (a \<noteq> None),
               gap_to_has_evidence = (b \<noteq> None)\<rparr> # gaps))"

definition candidate_pairs :: "(str \<times> occurrence list) list \<Rightarrow> (str \<times> occurrence \<times> occurrence) list" where
  "candidate_pairs entries = concat (map (\<lambda>(n, occ). map (Pair n) (pairs_of occ)) entries)"

definition build_links_and_gaps ::
  "store \<Rightarrow> (str \<times> occurrence list) list \<Rightarrow> ChainLink list \<times> EvidenceGap list" where
  "build_links_and_gaps s entries =
     (let (links, gaps) = link_loop s [] (candidate_pairs entries) in
      (sort_key (\<lambda>l. (stage_index (lnk_from l), stage_index (lnk_to l), lnk_normalized_identifier l)) links,
       sort_key (\<lambda>g. (gap_normalized_identifier g, gap_from_event_id g, gap_to_event_id g)) gaps))"

section \<open>Similar identifiers\<close>

definition common_prefix_len :: "str \<Rightarrow> str \<Rightarrow> nat" where
  "common_prefix_len left right = length (takeWhile (\<lambda>(a, b). a = b) (zip left right))"

text \<open>
  The tails are cut at a byte index; normalised identifiers hold ASCII letters and digits only, where
  bytes and characters agree.
\<close>

definition similar_norm :: "str \<Rightarrow> str \<Rightarrow> bool" where
  "similar_norm left right =
     (if left = right \<or> left = [] \<or> right = [] then False
      else
        let shared = common_prefix_len left right in
        if shared < 3 then False
        else
          let left_tail = byte_len left - shared; right_tail = byte_len right - shared in
          (left_tail \<le> 3 \<and> right_tail \<le> 3) \<or> (shared \<ge> 5 \<and> (left_tail \<le> 3 \<or> right_tail \<le> 3)))"

fun similar_loop ::
  "hash \<Rightarrow> str \<Rightarrow> str list \<Rightarrow> ((ProcurementIdentifier \<times> str) \<times> (ProcurementIdentifier \<times> str)) list \<Rightarrow>
   ReconciliationItem list" where
  "similar_loop sha m seen [] = []"
| "similar_loop sha m seen (((l, ln), (r, rn)) # rest) =
     (if ln = rn then similar_loop sha m seen rest
      else if similar_norm ln rn then
        let key = (if pid_raw l \<le> pid_raw r then pid_raw l @ [0] @ pid_raw r else pid_raw r @ [0] @ pid_raw l) in
        if key \<in> set seen then similar_loop sha m seen rest
        else candidate_identifier_item sha m (pid_raw l) (pid_raw r) # similar_loop sha m (key # seen) rest
      else similar_loop sha m seen rest)"

definition similar_identifier_candidates ::
  "hash \<Rightarrow> str \<Rightarrow> ProcurementIdentifier list \<Rightarrow> ReconciliationItem list" where
  "similar_identifier_candidates sha m identifiers =
     similar_loop sha m []
       (pairs_of (List.map_filter (\<lambda>i. map_option (Pair i) (pid_normalized i)) identifiers))"

definition linked_by_exact_identifier ::
  "ProcurementIdentifier \<Rightarrow> ProcurementIdentifier \<Rightarrow> str option" where
  "linked_by_exact_identifier left right =
     (if exact_identifier_match left right = Inr True then pid_normalized left else None)"

section \<open>The chain view\<close>

definition observe_stage :: "ProcurementEvent list \<Rightarrow> ChainStage \<Rightarrow> ChainStageObservation" where
  "observe_stage events stage =
     \<lparr>cso_stage = stage,
      cso_events = sort_key (\<lambda>e. (ev_date e, ev_id e))
        (filter (\<lambda>e. from_event_kind (ev_kind e) = Some stage) events)\<rparr>"

definition build_chain :: "hash \<Rightarrow> store \<Rightarrow> str \<Rightarrow> ChainError + ChainView" where
  "build_chain sha s m =
     (case procurement_matter m s of
        Inl _ \<Rightarrow> Inl (MatterNotFound m)
      | Inr mat \<Rightarrow>
          let events = procurement_events m s;
              identifiers = procurement_identifiers m s;
              stages = map (observe_stage events) all_stages;
              (links, gaps) = build_links_and_gaps s (by_normalized identifiers events) in
          Inr \<lparr>cv_matter = mat, cv_stages = stages, cv_links = links, cv_evidence_gaps = gaps,
            cv_review_suggestions = similar_identifier_candidates sha m identifiers,
            cv_not_observed = map cso_stage (filter (\<lambda>x. cso_events x = []) stages)\<rparr>)"

section \<open>Rendering\<close>

definition show_bool :: "bool \<Rightarrow> str" where
  "show_bool b = (if b then lit ''true'' else lit ''false'')"

definition render_stage :: "ChainStageObservation \<Rightarrow> str" where
  "render_stage x =
     text_line (lit ''['' @ stage_label (cso_stage x) @ lit '']'') @
     (if cso_events x = [] then text_line (lit ''    '' @ NOT_OBSERVED_PHRASING)
      else concat (map (\<lambda>e. text_line (lit ''    observed: '' @
        (case ev_date e of None \<Rightarrow> lit ''date unknown'' | Some d \<Rightarrow> d) @ long_dash @ ev_summary e @
        lit '' (source '' @ ev_source_id e @ lit '')'')) (cso_events x)))"

definition render_evidence :: "str \<Rightarrow> ChainEvidence \<Rightarrow> str" where
  "render_evidence lead e =
     text_line (lead @ lit ''event '' @ che_event_id e @ lit '', snapshot '' @ che_snapshot_id e @
       lit '', digest '' @ che_digest e)"

definition render_link :: "ChainLink \<Rightarrow> str" where
  "render_link l =
     text_line (lit ''    '' @ stage_label (lnk_from l) @ lit '' -> '' @ stage_label (lnk_to l) @ lit '' ['' @
       link_kind_label (lnk_kind l) @ lit '']'') @
     (case lnk_normalized_identifier l of None \<Rightarrow> []
      | Some n \<Rightarrow> text_line (lit ''        normalized identifier: '' @ n)) @
     text_line (lit ''        citation: '' @ lnk_citation l) @
     render_evidence (lit ''        from evidence: '') (lnk_from_evidence l) @
     render_evidence (lit ''        to evidence:   '') (lnk_to_evidence l)"

definition render_gap :: "EvidenceGap \<Rightarrow> str" where
  "render_gap g =
     text_line (lit ''    '' @ gap_normalized_identifier g @ long_dash @ lit ''from event '' @ gap_from_event_id g @
       lit '' (has evidence: '' @ show_bool (gap_from_has_evidence g) @ lit ''), to event '' @
       gap_to_event_id g @ lit '' (has evidence: '' @ show_bool (gap_to_has_evidence g) @ lit '')'')"

definition render_chain :: "ChainView \<Rightarrow> str" where
  "render_chain c =
     text_line (lit ''Chain for '' @ pm_id (cv_matter c) @ lit '' ('' @ pm_title (cv_matter c) @ lit '')'') @ [10] @
     concat (map render_stage (cv_stages c)) @ [10] @
     (if cv_links c = [] then
        text_line (lit ''Links:'') @ text_line (lit ''    none established by exact, digest-bound evidence.'')
      else text_line (lit ''Links:'') @ concat (map render_link (cv_links c))) @ [10] @
     (if cv_evidence_gaps c = [] then text_line (lit ''Evidence gaps:'') @ text_line (lit ''    none.'')
      else text_line (lit ''Evidence gaps (links rejected'' @ long_dash @ lit ''missing digest-bound evidence):'') @
        concat (map render_gap (cv_evidence_gaps c))) @ [10] @
     (if cv_review_suggestions c = [] then text_line (lit ''Review suggestions:'') @ text_line (lit ''    none.'')
      else text_line (lit ''Review suggestions (in-memory, not persisted reconciliation items):'') @
        concat (map (\<lambda>i. text_line (lit ''    ['' @ reconciliation_label (ri_kind i) @ lit ''] '' @ ri_summary i))
          (cv_review_suggestions c))) @ [10] @
     text_line (lit ''Unobserved stages (not proof of absence):'') @
     concat (map (\<lambda>st. text_line (lit ''    '' @ stage_label st @ long_dash @ NOT_OBSERVED_PHRASING)) (cv_not_observed c)) @
     (if cv_not_observed c = [] then text_line (lit ''    none'' @ long_dash @ lit ''every stage is observed.'') else [])"

section \<open>Lemmas\<close>

lemma resolve_evidence_ids_Some:
  "resolve_evidence_ids s eid ids = Some ev \<Longrightarrow>
     che_event_id ev = eid \<and> is_valid_sha256 (che_digest ev) \<and>
     (\<exists>i \<in> set ids. \<exists>snapshot. source_snapshot i s = Inr snapshot \<and>
        che_snapshot_id ev = snap_id snapshot \<and> che_digest ev = snap_persisted_digest snapshot \<and>
        che_source_id ev = snap_source_id snapshot)"
  by (induction ids) (auto split: sum.splits if_splits)

lemma pairs_of_in: "(x, y) \<in> set (pairs_of xs) \<Longrightarrow> x \<in> set xs \<and> y \<in> set xs"
  by (induction xs) auto

lemma pairs_of_either:
  "x \<in> set xs \<Longrightarrow> y \<in> set xs \<Longrightarrow> x \<noteq> y \<Longrightarrow> (x, y) \<in> set (pairs_of xs) \<or> (y, x) \<in> set (pairs_of xs)"
  by (induction xs) auto

lemma event_occurrences_in:
  "(n, stage, e') \<in> set (event_occurrences ids e) \<longleftrightarrow>
     e' = e \<and> from_event_kind (ev_kind e) = Some stage \<and>
     (\<exists>i \<in> set (ev_identifier_ids e). \<exists>p. identifier_by_id ids i = Some p \<and> pid_normalized p = Some n)"
proof (cases "from_event_kind (ev_kind e)")
  case (Some st)
  have "(case identifier_by_id ids i of None \<Rightarrow> None
        | Some p \<Rightarrow> map_option (\<lambda>n. (n, st, e)) (pid_normalized p)) = Some (n, stage, e') \<longleftrightarrow>
      (\<exists>p. identifier_by_id ids i = Some p \<and> pid_normalized p = Some n) \<and> stage = st \<and> e' = e" for i
    by (cases "identifier_by_id ids i") auto
  then show ?thesis using Some by (auto simp: event_occurrences_def set_map_filter)
qed (simp add: event_occurrences_def)

lemma by_normalized_in:
  assumes "(n, occ) \<in> set (by_normalized ids events)" "(stage, e) \<in> set occ"
  shows "e \<in> set events \<and> (n, stage, e) \<in> set (event_occurrences ids e)"
proof -
  from assms obtain e0 where "e0 \<in> set events" "(n, stage, e) \<in> set (event_occurrences ids e0)"
    by (auto simp: by_normalized_def Let_def)
  then show ?thesis by (simp add: event_occurrences_in)
qed

lemma by_normalized_has:
  assumes "e \<in> set events" "(n, stage, e) \<in> set (event_occurrences ids e)"
  shows "\<exists>occ. (n, occ) \<in> set (by_normalized ids events) \<and>
    (\<forall>st e'. e' \<in> set events \<longrightarrow> (n, st, e') \<in> set (event_occurrences ids e') \<longrightarrow> (st, e') \<in> set occ)"
proof -
  let ?all = "concat (map (event_occurrences ids) events)"
  have "n \<in> set (map fst ?all)" using assms by force
  then have "(n, map snd (filter (\<lambda>x. fst x = n) ?all)) \<in> set (by_normalized ids events)"
    by (simp add: by_normalized_def Let_def)
  moreover have "(st, e') \<in> set (map snd (filter (\<lambda>x. fst x = n) ?all))"
    if "e' \<in> set events" "(n, st, e') \<in> set (event_occurrences ids e')" for st e'
    using that by force
  ultimately show ?thesis by blast
qed

text \<open>The identifiers an event refers to, in normalised form.\<close>

definition refers_to :: "ProcurementIdentifier list \<Rightarrow> ProcurementEvent \<Rightarrow> str \<Rightarrow> bool" where
  "refers_to ids e n \<longleftrightarrow>
     (\<exists>i \<in> set (ev_identifier_ids e). \<exists>p. identifier_by_id ids i = Some p \<and> pid_normalized p = Some n)"

definition stage_of :: "ProcurementEvent \<Rightarrow> ChainStage option" where
  "stage_of e = from_event_kind (ev_kind e)"

lemma candidate_pairs_in:
  assumes "(n, f, t) \<in> set (candidate_pairs (by_normalized ids events))"
  shows "snd f \<in> set events \<and> snd t \<in> set events \<and> stage_of (snd f) = Some (fst f) \<and>
    stage_of (snd t) = Some (fst t) \<and> refers_to ids (snd f) n \<and> refers_to ids (snd t) n"
proof -
  obtain occ where occ: "(n, occ) \<in> set (by_normalized ids events)" "(f, t) \<in> set (pairs_of occ)"
    using assms by (auto simp: candidate_pairs_def)
  obtain sf ef where f: "f = (sf, ef)" by fastforce
  obtain st et where t: "t = (st, et)" by fastforce
  have "f \<in> set occ" "t \<in> set occ" using pairs_of_in [OF occ(2)] by simp_all
  then show ?thesis
    using by_normalized_in [OF occ(1)] unfolding f t
    by (simp add: event_occurrences_in stage_of_def refers_to_def)
qed

lemma link_loop_links:
  "link_loop s seen ps = (links, gaps) \<Longrightarrow> l \<in> set links \<Longrightarrow>
     \<exists>n f t a b. (n, f, t) \<in> set ps \<and> fst f \<noteq> fst t \<and> l = make_link n f t a b \<and>
       resolve_event_evidence s (snd f) = Some a \<and> resolve_event_evidence s (snd t) = Some b"
  by (induction s seen ps arbitrary: links gaps rule: link_loop.induct)
    (fastforce simp: Let_def split: if_splits prod.splits option.splits)+

lemma link_loop_gaps:
  "link_loop s seen ps = (links, gaps) \<Longrightarrow> g \<in> set gaps \<Longrightarrow>
     \<exists>n f t. (n, f, t) \<in> set ps \<and> fst f \<noteq> fst t \<and> gap_normalized_identifier g = n \<and>
       gap_from_event_id g = ev_id (snd f) \<and> gap_to_event_id g = ev_id (snd t) \<and>
       gap_from_has_evidence g = (resolve_event_evidence s (snd f) \<noteq> None) \<and>
       gap_to_has_evidence g = (resolve_event_evidence s (snd t) \<noteq> None) \<and>
       \<not> (gap_from_has_evidence g \<and> gap_to_has_evidence g)"
  by (induction s seen ps arbitrary: links gaps rule: link_loop.induct)
    (fastforce simp: Let_def split: if_splits prod.splits option.splits)+


text \<open>Two events of the matter are connected when a link or a gap names both of them.\<close>

definition connects :: "ChainLink list \<Rightarrow> EvidenceGap list \<Rightarrow> str \<Rightarrow> str \<Rightarrow> bool" where
  "connects links gaps a b \<longleftrightarrow>
     (\<exists>l \<in> set links. che_event_id (lnk_from_evidence l) = a \<and> che_event_id (lnk_to_evidence l) = b) \<or>
     (\<exists>g \<in> set gaps. gap_from_event_id g = a \<and> gap_to_event_id g = b)"

lemma connects_ConsI:
  "connects links gaps a b \<Longrightarrow> connects (l # links) gaps a b"
  "connects links gaps a b \<Longrightarrow> connects links (g # gaps) a b"
  by (auto simp: connects_def)

lemma connects_set:
  "set links = set links' \<Longrightarrow> set gaps = set gaps' \<Longrightarrow> connects links gaps a b = connects links' gaps' a b"
  by (simp add: connects_def)

lemma event_evidence_id: "resolve_event_evidence s e = Some x \<Longrightarrow> che_event_id x = ev_id e"
  by (auto simp: resolve_event_evidence_def dest: resolve_evidence_ids_Some)

lemma pair_key_inj:
  assumes "nul_free (ev_id a)" "nul_free (ev_id c)" "pair_key a b = pair_key c d"
  shows "ev_id a = ev_id c \<and> ev_id b = ev_id d"
proof -
  have "takeWhile ((\<noteq>) 0) (pair_key x y) = ev_id x" if "nul_free (ev_id x)" for x y
    using that by (subst pair_key_def, subst takeWhile_append2) (auto simp: nul_free_def intro: gr_zeroI)
  with assms have "ev_id a = ev_id c" by metis
  with assms(3) show ?thesis by (simp add: pair_key_def)
qed

lemma link_loop_connects:
  assumes "link_loop s seen ps = (links, gaps)" "(n, f, t) \<in> set ps" "fst f \<noteq> fst t"
    "list_all (\<lambda>(n, f, t). nul_free (ev_id (snd f))) ps"
  shows "pair_key (snd f) (snd t) \<in> set seen \<or> connects links gaps (ev_id (snd f)) (ev_id (snd t))"
  using assms
proof (induction s seen ps arbitrary: links gaps rule: link_loop.induct)
  case (2 s seen n0 f0 t0 rest)
  consider (skip) "fst f0 = fst t0 \<or> pair_key (snd f0) (snd t0) \<in> set seen"
    | (new) "fst f0 \<noteq> fst t0" "pair_key (snd f0) (snd t0) \<notin> set seen" by blast
  then show ?case
  proof cases
    case skip
    then have "link_loop s seen rest = (links, gaps)" using 2 by (auto split: if_splits)
    then show ?thesis using 2 skip by (auto split: if_splits)
  next
    case new
    obtain ls gs where rec: "link_loop s (pair_key (snd f0) (snd t0) # seen) rest = (ls, gs)" by fastforce
    have res: "connects links gaps (ev_id (snd f0)) (ev_id (snd t0)) \<and>
        (connects ls gs a b \<longrightarrow> connects links gaps a b)" for a b
    proof (cases "resolve_event_evidence s (snd f0) \<noteq> None \<and> resolve_event_evidence s (snd t0) \<noteq> None")
      case True
      then obtain x y where xy: "resolve_event_evidence s (snd f0) = Some x" "resolve_event_evidence s (snd t0) = Some y"
        by blast
      then have "links = make_link n0 f0 t0 x y # ls" "gaps = gs" using 2(4) new rec by simp_all
      then show ?thesis using event_evidence_id [OF xy(1)] event_evidence_id [OF xy(2)]
        by (auto simp: connects_def make_link_def)
    next
      case False
      define g where "g = \<lparr>gap_normalized_identifier = n0, gap_from_event_id = ev_id (snd f0),
        gap_to_event_id = ev_id (snd t0), gap_from_has_evidence = (resolve_event_evidence s (snd f0) \<noteq> None),
        gap_to_has_evidence = (resolve_event_evidence s (snd t0) \<noteq> None)\<rparr>"
      have "links = ls \<and> gaps = g # gs"
        using 2(4) new rec False
        by (cases "resolve_event_evidence s (snd f0)"; cases "resolve_event_evidence s (snd t0)")
          (simp_all add: g_def)
      moreover have "gap_from_event_id g = ev_id (snd f0)" "gap_to_event_id g = ev_id (snd t0)"
        by (simp_all add: g_def)
      ultimately have "links = ls" "gaps = g # gs" "gap_from_event_id g = ev_id (snd f0)"
        "gap_to_event_id g = ev_id (snd t0)" by blast+
      then show ?thesis by (auto simp: connects_def)
    qed
    show ?thesis
    proof (cases "(n, f, t) \<in> set rest")
      case True
      then have "pair_key (snd f) (snd t) \<in> set (pair_key (snd f0) (snd t0) # seen) \<or>
          connects ls gs (ev_id (snd f)) (ev_id (snd t))"
        using 2(3) [OF new rec] 2(6,7) by simp
      moreover have "connects links gaps (ev_id (snd f)) (ev_id (snd t))"
        if "pair_key (snd f) (snd t) = pair_key (snd f0) (snd t0)"
        using pair_key_inj [OF _ _ that] res 2(7) True by (auto simp: list_all_iff)
      ultimately show ?thesis using res by auto
    qed (use 2(5) res in auto)
  qed
qed simp

lemma build_links_and_gaps_loop:
  assumes "build_links_and_gaps s entries = (links, gaps)"
  obtains ls gs where "link_loop s [] (candidate_pairs entries) = (ls, gs)" "set links = set ls" "set gaps = set gs"
  using assms by (force simp: build_links_and_gaps_def split: prod.splits)

lemma build_chain_parts:
  assumes "build_chain sha s m = Inr v"
  shows "build_links_and_gaps s (by_normalized (procurement_identifiers m s) (procurement_events m s)) =
      (cv_links v, cv_evidence_gaps v)"
    "cv_not_observed v =
      map cso_stage (filter (\<lambda>x. cso_events x = []) (map (observe_stage (procurement_events m s)) all_stages))"
    "cv_stages v = map (observe_stage (procurement_events m s)) all_stages"
  using assms by (auto simp: build_chain_def Let_def split: sum.splits prod.splits)

lemma candidate_pairs_either:
  assumes "a \<in> set events" "b \<in> set events" "stage_of a = Some sa" "stage_of b = Some sb" "sa \<noteq> sb"
    "refers_to ids a n" "refers_to ids b n"
  shows "(n, (sa, a), (sb, b)) \<in> set (candidate_pairs (by_normalized ids events)) \<or>
    (n, (sb, b), (sa, a)) \<in> set (candidate_pairs (by_normalized ids events))"
proof -
  have occ: "(n, sa, a) \<in> set (event_occurrences ids a)" "(n, sb, b) \<in> set (event_occurrences ids b)"
    using assms by (simp_all add: event_occurrences_in stage_of_def refers_to_def)
  obtain oc where oc: "(n, oc) \<in> set (by_normalized ids events)" "(sa, a) \<in> set oc" "(sb, b) \<in> set oc"
    using by_normalized_has [OF assms(1) occ(1)] assms(1,2) occ by blast
  have "((sa, a), (sb, b)) \<in> set (pairs_of oc) \<or> ((sb, b), (sa, a)) \<in> set (pairs_of oc)"
    using pairs_of_either [OF oc(2,3)] assms(5) by simp
  then show ?thesis using oc(1) by (force simp: candidate_pairs_def)
qed

lemma chain_link_origin:
  assumes "build_chain sha s m = Inr v" "l \<in> set (cv_links v)"
  obtains n f t a b where
    "snd f \<in> set (procurement_events m s)" "snd t \<in> set (procurement_events m s)"
    "stage_of (snd f) = Some (fst f)" "stage_of (snd t) = Some (fst t)" "fst f \<noteq> fst t"
    "refers_to (procurement_identifiers m s) (snd f) n" "refers_to (procurement_identifiers m s) (snd t) n"
    "l = make_link n f t a b"
    "resolve_event_evidence s (snd f) = Some a" "resolve_event_evidence s (snd t) = Some b"
proof -
  obtain ls gs where loop: "link_loop s [] (candidate_pairs
      (by_normalized (procurement_identifiers m s) (procurement_events m s))) = (ls, gs)"
    "set (cv_links v) = set ls"
    using build_links_and_gaps_loop [OF build_chain_parts(1) [OF assms(1)]] by metis
  obtain n f t a b where "(n, f, t) \<in> set (candidate_pairs
      (by_normalized (procurement_identifiers m s) (procurement_events m s)))" "fst f \<noteq> fst t"
    "l = make_link n f t a b"
    "resolve_event_evidence s (snd f) = Some a" "resolve_event_evidence s (snd t) = Some b"
    using link_loop_links [OF loop(1)] assms(2) loop(2) by metis
  then show ?thesis using that candidate_pairs_in by metis
qed

lemma stage_index_inj: "stage_index a = stage_index b \<Longrightarrow> a = b"
  by (cases a; cases b) simp_all

lemma make_link_fields [simp]:
  "lnk_normalized_identifier (make_link n f t a b) = Some n"
  "lnk_from_evidence (make_link n f t a b) = a" "lnk_to_evidence (make_link n f t a b) = b"
  "lnk_from (make_link n f t a b) = fst (ordered_stages (fst f) (fst t))"
  "lnk_to (make_link n f t a b) = snd (ordered_stages (fst f) (fst t))"
  by (simp_all add: make_link_def)

lemma ordered_stages_less:
  "a \<noteq> b \<Longrightarrow> stage_index (fst (ordered_stages a b)) < stage_index (snd (ordered_stages a b)) \<and>
     {fst (ordered_stages a b), snd (ordered_stages a b)} = {a, b}"
  using stage_index_inj [of a b] by (cases a; cases b) (simp_all add: ordered_stages_def insert_commute)

text \<open>An evidence that stands for an event: one of the event's own snapshots, with a valid digest.\<close>

definition backs :: "store \<Rightarrow> ChainEvidence \<Rightarrow> ProcurementEvent \<Rightarrow> bool" where
  "backs s x e \<longleftrightarrow> che_event_id x = ev_id e \<and> is_valid_sha256 (che_digest x) \<and>
     (\<exists>i snapshot. i \<in> set (ev_evidence_ids e) \<and> source_snapshot i s = Inr snapshot \<and>
        che_snapshot_id x = snap_id snapshot \<and> che_digest x = snap_persisted_digest snapshot \<and>
        che_source_id x = snap_source_id snapshot)"

lemma resolve_event_evidence_backs: "resolve_event_evidence s e = Some x \<Longrightarrow> backs s x e"
  by (fastforce simp: backs_def resolve_event_evidence_def dest: resolve_evidence_ids_Some)


section \<open>A sample matter\<close>

definition sample_digest :: str where
  "sample_digest = replicate 64 48"

definition spent_event :: ProcurementEvent where
  "spent_event = \<lparr>ev_id = [97], ev_matter_id = [109], ev_kind = ExpenditureReported, ev_date = Some [49],
     ev_summary = [], ev_identifier_ids = [[105]], ev_evidence_ids = [[115]], ev_source_id = [113]\<rparr>"

definition awarded_event :: ProcurementEvent where
  "awarded_event = \<lparr>ev_id = [98], ev_matter_id = [109], ev_kind = AwardAnnounced, ev_date = Some [50],
     ev_summary = [], ev_identifier_ids = [[105]], ev_evidence_ids = [[115]], ev_source_id = [113]\<rparr>"

definition sample_chain_store :: store where
  "sample_chain_store = empty_store\<lparr>
     st_proc_matters := [\<lparr>pm_id = [109], pm_jurisdiction = [], pm_title = [], pm_review_state = [],
       pm_publication_state = []\<rparr>],
     st_proc_events := [spent_event, awarded_event],
     st_proc_identifiers := [\<lparr>pid_id = [105], pid_matter_id = [109], pid_kind = ContractNumber, pid_raw = [65],
       pid_source_id = [113], pid_normalized = Some [65], pid_normalization_rule = None, pid_known = True\<rparr>],
     st_snapshots := [\<lparr>snap_id = [115], snap_source_id = [113], snap_source_url = [], snap_retrieved_at = [],
       snap_persisted_digest = sample_digest, snap_content_type = None, snap_etag = None,
       snap_last_modified = None, snap_final_url = [], snap_redirect_history = [], snap_parser_version = [],
       snap_schema_version = 1, snap_record_count = None, snap_pagination_complete = None,
       snap_coverage_state = CoverageState.Complete, snap_supersedes = None\<rparr>]\<rparr>"

definition spent_evidence :: ChainEvidence where
  "spent_evidence = \<lparr>che_event_id = [97], che_source_id = [113], che_snapshot_id = [115], che_digest = sample_digest\<rparr>"

definition awarded_evidence :: ChainEvidence where
  "awarded_evidence = \<lparr>che_event_id = [98], che_source_id = [113], che_snapshot_id = [115], che_digest = sample_digest\<rparr>"

definition sample_link :: ChainLink where
  "sample_link = make_link [65] (Expenditure, spent_event) (ChainStage.Award, awarded_event)
     spent_evidence awarded_evidence"

lemma sample_events: "procurement_events [109] sample_chain_store = [spent_event, awarded_event]"
  by (simp add: procurement_events_def select_where_def sample_chain_store_def spent_event_def
      awarded_event_def insort_key_def)

lemma sample_refers:
  "refers_to (procurement_identifiers [109] sample_chain_store) spent_event [65]"
  "refers_to (procurement_identifiers [109] sample_chain_store) awarded_event [65]"
  by (simp_all add: refers_to_def procurement_identifiers_def select_where_def sample_chain_store_def
      spent_event_def awarded_event_def identifier_by_id_def)

lemma sample_digest_valid: "is_valid_sha256 sample_digest"
  by (simp add: is_valid_sha256_def sample_digest_def byte_len_ascii list_all_iff is_hexdigit_def is_digit_def)

lemma sample_evidence:
  "resolve_event_evidence sample_chain_store spent_event = Some spent_evidence"
  "resolve_event_evidence sample_chain_store awarded_event = Some awarded_evidence"
  using sample_digest_valid
  by (simp_all add: resolve_event_evidence_def spent_event_def awarded_event_def source_snapshot_def
      read_row_def sample_chain_store_def spent_evidence_def awarded_evidence_def)

lemma sample_pairs:
  "candidate_pairs (by_normalized (procurement_identifiers [109] sample_chain_store) [spent_event, awarded_event]) =
     [([65], (Expenditure, spent_event), (ChainStage.Award, awarded_event))]"
  by (simp add: candidate_pairs_def by_normalized_def event_occurrences_def procurement_identifiers_def
      select_where_def sample_chain_store_def identifier_by_id_def spent_event_def awarded_event_def
      List.map_filter_simps)

lemma sample_chain:
  obtains v where "build_chain sha sample_chain_store [109] = Inr v" "cv_links v = [sample_link]"
    "cv_evidence_gaps v = []"
proof -
  have "procurement_matter [109] sample_chain_store \<noteq> Inl e" for e
    by (simp add: procurement_matter_def read_row_def sample_chain_store_def)
  then obtain mat where "procurement_matter [109] sample_chain_store = Inr mat"
    by (cases "procurement_matter [109] sample_chain_store") auto
  moreover have "build_links_and_gaps sample_chain_store
      (by_normalized (procurement_identifiers [109] sample_chain_store) [spent_event, awarded_event]) =
      ([sample_link], [])"
    by (simp add: build_links_and_gaps_def sample_pairs sample_evidence sample_link_def)
  ultimately show ?thesis using that by (simp add: build_chain_def sample_events Let_def)
qed

section \<open>Properties\<close>

text \<open>
  C8: A link of the chain is evidence-bound and exact: it joins two recorded events of the matter that
  stand at different stages, points from the earlier stage to the later one, both events refer to the
  identifier it names, and each of its two evidences is one of that event's own stored snapshots with a
  well-formed digest.
\<close>

theorem chain_links_sound:
  assumes "build_chain sha s m = Inr v" "l \<in> set (cv_links v)"
  shows "\<exists>a b n. a \<in> set (procurement_events m s) \<and> b \<in> set (procurement_events m s) \<and>
    {stage_of a, stage_of b} = {Some (lnk_from l), Some (lnk_to l)} \<and>
    stage_index (lnk_from l) < stage_index (lnk_to l) \<and>
    lnk_normalized_identifier l = Some n \<and>
    refers_to (procurement_identifiers m s) a n \<and> refers_to (procurement_identifiers m s) b n \<and>
    backs s (lnk_from_evidence l) a \<and> backs s (lnk_to_evidence l) b"
proof -
  obtain n f t x y where o: "snd f \<in> set (procurement_events m s)" "snd t \<in> set (procurement_events m s)"
    "stage_of (snd f) = Some (fst f)" "stage_of (snd t) = Some (fst t)" "fst f \<noteq> fst t"
    "refers_to (procurement_identifiers m s) (snd f) n" "refers_to (procurement_identifiers m s) (snd t) n"
    "l = make_link n f t x y"
    "resolve_event_evidence s (snd f) = Some x" "resolve_event_evidence s (snd t) = Some y"
    using chain_link_origin [OF assms] by metis
  have "{stage_of (snd f), stage_of (snd t)} = {Some (lnk_from l), Some (lnk_to l)}"
    using ordered_stages_less [OF o(5)] o(3,4,8) by (auto simp: doubleton_eq_iff)
  then show ?thesis
    using o ordered_stages_less [OF o(5)] resolve_event_evidence_backs
    by (intro exI [of _ "snd f"] exI [of _ "snd t"] exI [of _ n]) simp
qed

theorem chain_links_sound_witness:
  "\<exists>v l. build_chain id_hash sample_chain_store [109] = Inr v \<and> l \<in> set (cv_links v) \<and>
    stage_index (lnk_from l) < stage_index (lnk_to l)"
proof -
  obtain v where v: "build_chain id_hash sample_chain_store [109] = Inr v" "cv_links v = [sample_link]"
    by (rule sample_chain)
  then have "sample_link \<in> set (cv_links v)" by simp
  then show ?thesis using chain_links_sound [OF v(1), of sample_link] v by blast
qed

text \<open>
  C9: The chain is complete: whenever two recorded events of a matter stand at different stages and
  refer to the same normalised identifier, the view accounts for the pair, by a link between them or by
  an explicit evidence gap, so no shared identifier is dropped silently.
\<close>

theorem chain_pairs_accounted_for:
  assumes "build_chain sha s m = Inr v"
    and "a \<in> set (procurement_events m s)" "b \<in> set (procurement_events m s)"
    and "stage_of a = Some sa" "stage_of b = Some sb" "sa \<noteq> sb"
    and "refers_to (procurement_identifiers m s) a n" "refers_to (procurement_identifiers m s) b n"
    and nul: "list_all (\<lambda>e. nul_free (ev_id e)) (procurement_events m s)"
  shows "connects (cv_links v) (cv_evidence_gaps v) (ev_id a) (ev_id b) \<or>
    connects (cv_links v) (cv_evidence_gaps v) (ev_id b) (ev_id a)"
proof -
  let ?ps = "candidate_pairs (by_normalized (procurement_identifiers m s) (procurement_events m s))"
  obtain ls gs where loop: "link_loop s [] ?ps = (ls, gs)" "set (cv_links v) = set ls"
      "set (cv_evidence_gaps v) = set gs"
    using build_links_and_gaps_loop [OF build_chain_parts(1) [OF assms(1)]] by metis
  have free: "list_all (\<lambda>(n, f, t). nul_free (ev_id (snd f))) ?ps"
    using nul candidate_pairs_in by (fastforce simp: list_all_iff)
  show ?thesis
    using candidate_pairs_either [OF assms(2-8)] link_loop_connects [OF loop(1) _ _ free] assms(6)
    by (fastforce simp: connects_set [OF loop(2,3)])
qed

theorem chain_pairs_accounted_for_witness:
  "\<exists>v. build_chain id_hash sample_chain_store [109] = Inr v \<and>
    (connects (cv_links v) (cv_evidence_gaps v) (ev_id spent_event) (ev_id awarded_event) \<or>
     connects (cv_links v) (cv_evidence_gaps v) (ev_id awarded_event) (ev_id spent_event))"
proof -
  obtain v where "build_chain id_hash sample_chain_store [109] = Inr v"
    by (rule sample_chain)
  moreover note chain_pairs_accounted_for [OF this, of spent_event awarded_event Expenditure ChainStage.Award "[65]"]
  ultimately show ?thesis
    using sample_refers
    by (simp add: sample_events stage_of_def spent_event_def awarded_event_def nul_free_def)
qed

lemma observe_stage_fields [simp]:
  "cso_stage (observe_stage events st) = st"
  "mset (cso_events (observe_stage events st)) = mset (filter (\<lambda>e. stage_of e = Some st) events)"
  by (simp_all add: observe_stage_def stage_of_def)

lemma observe_stage_empty: "cso_events (observe_stage events st) = [] \<longleftrightarrow> Some st \<notin> stage_of ` set events"
proof -
  have "cso_events (observe_stage events st) = [] \<longleftrightarrow> filter (\<lambda>e. stage_of e = Some st) events = []"
    by (metis mset_zero_iff observe_stage_fields(2))
  also have "\<dots> \<longleftrightarrow> Some st \<notin> stage_of ` set events" by (force simp: filter_empty_conv)
  finally show ?thesis .
qed

lemma set_all_stages: "set all_stages = UNIV"
proof -
  have "st \<in> set all_stages" for st by (cases st) (simp_all add: all_stages_def)
  then show ?thesis by blast
qed

text \<open>
  The stages of a chain partition its staged events: a stage lists exactly the recorded events of
  its kind, and a stage is reported as not observed exactly when the matter has no event of it.
\<close>

theorem stages_partition_events:
  assumes "build_chain sha s m = Inr v"
  shows "map cso_stage (cv_stages v) = all_stages \<and>
    list_all (\<lambda>x. mset (cso_events x) =
      mset (filter (\<lambda>e. stage_of e = Some (cso_stage x)) (procurement_events m s))) (cv_stages v) \<and>
    set (cv_not_observed v) = - {st. Some st \<in> stage_of ` set (procurement_events m s)}"
proof -
  have "cv_not_observed v = filter (\<lambda>st. cso_events (observe_stage (procurement_events m s) st) = []) all_stages"
    by (simp add: build_chain_parts(2) [OF assms] filter_map comp_def)
  then have "set (cv_not_observed v) = - {st. Some st \<in> stage_of ` set (procurement_events m s)}"
    by (auto simp: observe_stage_empty set_all_stages)
  then show ?thesis by (simp add: build_chain_parts(3) [OF assms] list_all_iff comp_def)
qed

theorem stages_partition_events_witness:
  "\<exists>v. build_chain id_hash sample_chain_store [109] = Inr v \<and> map cso_stage (cv_stages v) = all_stages \<and>
    ChainStage.Contract \<in> set (cv_not_observed v)"
proof -
  obtain v where v: "build_chain id_hash sample_chain_store [109] = Inr v"
    by (rule sample_chain)
  from stages_partition_events [OF v] v show ?thesis
    by (auto simp: sample_events stage_of_def spent_event_def awarded_event_def)
qed

text \<open>
  The evidences of a link need not be in stage order: the stages are put in order, the evidences
  stay in event order.  For a matter whose expenditure is dated before its award, the link runs from
  \<open>award\<close> to \<open>expenditure\<close> while its \<open>from_evidence\<close>, documented as the evidence of the earlier-stage
  endpoint, is that of the expenditure.
\<close>

theorem link_evidence_in_event_order:
  "\<exists>s m v l e. build_chain sha s m = Inr v \<and> l \<in> set (cv_links v) \<and> e \<in> set (procurement_events m s) \<and>
    backs s (lnk_from_evidence l) e \<and> stage_of e = Some (lnk_to l) \<and> lnk_to l \<noteq> lnk_from l"
proof -
  obtain v where v: "build_chain sha sample_chain_store [109] = Inr v" "cv_links v = [sample_link]"
    by (rule sample_chain)
  have "backs sample_chain_store spent_evidence spent_event"
    using sample_evidence(1) by (rule resolve_event_evidence_backs)
  with v show ?thesis
    by (intro exI [of _ sample_chain_store] exI [of _ "[109]"] exI [of _ v] exI [of _ sample_link] exI [of _ spent_event])
      (simp add: sample_events sample_link_def stage_of_def ordered_stages_def spent_event_def)
qed

end
