(* ===== verification/CaseFiles.thy ===== *)
theory CaseFiles
  imports CoraLedger Chain Lines
begin

text \<open>
  Case files (\<open>pnull-procurement/src/casefile.rs\<close>): everything the store holds on a matter, gathered
  deterministically, rendered as text, and recorded as a draft under the digests of its renderings.
  The JSON rendering is \<open>serde_json\<close>'s and an argument.
\<close>

section \<open>The content\<close>

datatype CaseFileError = MatterNotFound str | Store CoreError

record CaseFileContent =
  cfc_matter :: ProcurementMatter
  cfc_events :: "ProcurementEvent list"
  cfc_identifiers :: "ProcurementIdentifier list"
  cfc_organizations :: "ProcurementOrganization list"
  cfc_coverage :: "CoverageEntry list"
  cfc_contradictions :: "str list"
  cfc_missing_documents :: "str list"
  cfc_cora_requests :: "CoraRequest list"
  cfc_gap_resolutions :: "str list"
  cfc_citations :: "Citation list"
  cfc_what_changed :: "str list"
  cfc_documented_relationships :: "str list"
  cfc_coverage_summary :: "(str \<times> str) list"
  cfc_provenance :: "str list"
  cfc_limitations :: "str list"

definition or_none :: "str option \<Rightarrow> str" where
  "or_none x = (case x of None \<Rightarrow> lit ''none'' | Some y \<Rightarrow> y)"

subsection \<open>Contradictions and gaps\<close>

definition identifier_contradictions :: "ProcurementIdentifier list \<Rightarrow> str list" where
  "identifier_contradictions identifiers =
     List.map_filter (\<lambda>(k, ids).
       let unique = remdups_adj (sort (map pid_raw ids)) in
       if length unique > 1
       then Some (lit ''Multiple raw forms recorded for identifier '' @ k @ lit '': '' @ join (lit '', '') unique)
       else None)
     (grouped_by (\<lambda>i. case pid_normalized i of Some n \<Rightarrow> n | None \<Rightarrow> pid_raw i) identifiers)"

definition gap_kind :: "ReconciliationKind \<Rightarrow> bool" where
  "gap_kind k \<longleftrightarrow> k \<in> {ConflictingAwardAmount, ConflictingDate, DuplicateOrRevisedRow, VanishedRecord}"

definition item_summaries :: "(ReconciliationKind \<Rightarrow> bool) \<Rightarrow> str \<Rightarrow> store \<Rightarrow> str list" where
  "item_summaries wanted matter_id s =
     remdups_adj (sort (map ri_summary
       (filter (\<lambda>i. ri_matter_id i = matter_id \<and> wanted (ri_kind i)) (all_reconciliation_items s))))"

subsection \<open>Coverage\<close>

definition coverage_line :: "CoverageEntry list \<Rightarrow> str" where
  "coverage_line entries =
     (let summary = summarize entries in
      lit ''state='' @ coverage_label (csum_latest_state summary) @ lit '' entries='' @
      show_nat (csum_entry_count summary) @ lit '' latest='' @ or_none (csum_latest_retrieved_at summary))"

definition provenance_lines :: "CoverageEntry list \<Rightarrow> str list" where
  "provenance_lines coverage =
     concat (map (\<lambda>(source_id, entries).
       map (\<lambda>e. source_id @ lit '': retrieved '' @ cov_retrieved_at e @ lit '' state='' @ coverage_label (cov_state e) @
         lit '' digest='' @ or_none (cov_persisted_digest e)) entries) (grouped_by cov_source_id coverage))"

subsection \<open>Requests\<close>

text \<open>\<open>split_whitespace().nth(2)\<close> of the note.\<close>

definition noted_response :: "CoraRequestEvent \<Rightarrow> str option" where
  "noted_response e =
     (if ce_state e \<noteq> CoraRequestState.ResponseReceived then None
      else if length (split_whitespace (ce_note e)) > 2 then Some (split_whitespace (ce_note e) ! 2) else None)"

definition request_response_digest :: "store \<Rightarrow> CoraRequest \<Rightarrow> str option" where
  "request_response_digest s request =
     Option.bind (first_some noted_response (rev (cr_events request))) (\<lambda>i. supplied_record_digest i s)"

definition gap_line :: "store \<Rightarrow> CoraRequest \<Rightarrow> str option" where
  "gap_line s request =
     (let targets = if cr_missing_record_types request = [] then lit ''the targeted gap''
            else join (lit '', '') (cr_missing_record_types request);
          response_digest = or_none (request_response_digest s request) in
      case cr_state request of
        GapResolved \<Rightarrow>
          Some (lit ''Gap on '' @ targets @ lit '' closed by CORA request '' @ cr_id request @ lit '' (response digest '' @
            response_digest @ lit '')'')
      | StillUnresolved \<Rightarrow>
          Some (lit ''Gap on '' @ targets @ lit '' remains visible; CORA request '' @ cr_id request @
            lit '' response does not cover it (response digest '' @ response_digest @ lit '')'')
      | _ \<Rightarrow> None)"

definition newest_first :: "CoraRequest list \<Rightarrow> CoraRequest list" where
  "newest_first =
     sort_by (\<lambda>a b. cr_created_at b < cr_created_at a \<or> cr_created_at a = cr_created_at b \<and> cr_id a \<le> cr_id b)"

subsection \<open>What changed\<close>

definition supersession_line :: "store \<Rightarrow> SourceSnapshot \<Rightarrow> str option" where
  "supersession_line s snapshot =
     (case snap_supersedes snapshot of
        None \<Rightarrow> None
      | Some old_id \<Rightarrow>
          (case source_snapshot old_id s of
             Inl _ \<Rightarrow> None
           | Inr old \<Rightarrow>
               Some (lit ''Snapshot '' @ snap_id snapshot @ lit '' (digest '' @ snap_persisted_digest snapshot @
                 lit '') supersedes snapshot '' @ snap_id old @ lit '' (digest '' @ snap_persisted_digest old @
                 lit ''); retrieved at '' @ snap_retrieved_at snapshot @ lit ''.'' @
                 (case snapshot_diff old_id (snap_id snapshot) s of
                    None \<Rightarrow> []
                  | Some d \<Rightarrow>
                      if sdiff_changes d = [] then []
                      else lit '' Record-level changes: '' @
                        join (lit ''; '') (map (\<lambda>c. chg_kind c @ lit '': '' @ chg_summary c) (sdiff_changes d))))))"

definition event_sources :: "store \<Rightarrow> ProcurementEvent list \<Rightarrow> str list" where
  "event_sources s events =
     sort (remdups (List.map_filter
       (\<lambda>k. case source_snapshot k s of Inl _ \<Rightarrow> None | Inr snapshot \<Rightarrow> Some (snap_source_id snapshot))
       (concat (map ev_evidence_ids events))))"

definition build_what_changed :: "store \<Rightarrow> ProcurementEvent list \<Rightarrow> str list" where
  "build_what_changed s events =
     sort (concat (map (\<lambda>source_id. List.map_filter (supersession_line s) (source_snapshots source_id s))
       (event_sources s events)))"

subsection \<open>Citations\<close>

definition first_evidence :: "store \<Rightarrow> ProcurementEvent \<Rightarrow> SourceSnapshot option" where
  "first_evidence s e =
     (case ev_evidence_ids e of
        [] \<Rightarrow> None
      | k # _ \<Rightarrow> (case source_snapshot k s of Inl _ \<Rightarrow> None | Inr snapshot \<Rightarrow> Some snapshot))"

definition snapshot_citation :: "SourceSnapshot \<Rightarrow> str \<Rightarrow> Citation" where
  "snapshot_citation snapshot quote =
     \<lparr>cit_evidence_id = snap_id snapshot, cit_source_url = snap_source_url snapshot,
      cit_locator = \<lparr>loc_kind = lit ''procurement-snapshot'', loc_start = 1, loc_end = 1,
        loc_label = snap_source_id snapshot @ lit '' retrieved '' @ snap_retrieved_at snapshot\<rparr>,
      cit_quote = quote\<rparr>"

definition build_citations ::
  "store \<Rightarrow> ProcurementEvent list \<Rightarrow> ProcurementIdentifier list \<Rightarrow> ProcurementOrganization list \<Rightarrow> Citation list" where
  "build_citations s events identifiers organizations =
     sort_key (\<lambda>c. (cit_evidence_id c, loc_label (cit_locator c), cit_quote c))
       (List.map_filter (\<lambda>e. map_option (\<lambda>snapshot. snapshot_citation snapshot (ev_summary e)) (first_evidence s e)) events @
        (case first_some (first_evidence s) events of
           None \<Rightarrow> []
         | Some primary \<Rightarrow>
             map (\<lambda>i. snapshot_citation primary (pid_raw i)) identifiers @
             map (\<lambda>g. snapshot_citation primary (org_raw_name g)) organizations))"

subsection \<open>Relationships and limitations\<close>

definition relationship_line :: "OfficialRelationship \<Rightarrow> str" where
  "relationship_line l =
     lit ''The preserved record '' @ rel_source_record_id l @ lit '' (snapshot '' @ rel_source_snapshot_id l @
     lit '', digest '' @ rel_source_snapshot_digest l @ lit '') references '' @ rel_target_identifier l @
     lit '' in reference field '' @ rel_reference_field l @ lit ''.''"

definition touches :: "str \<Rightarrow> OfficialRelationship \<Rightarrow> bool" where
  "touches matter_id l \<longleftrightarrow>
     starts_with (rel_source_record_id l) (matter_id @ lit '':'') \<or> rel_target_matter_id l = matter_id"

definition default_limitations :: "str list" where
  "default_limitations = map lit
     [''This is not comprehensive procurement coverage.'',
      ''An informational mirror is not an authoritative procurement system.'',
      ''Absence from checked sources is not proof of absence.'',
      ''Vendor appearance is not proof of procurement wrongdoing.'',
      ''A technology purchase is not automatically surveillance.'',
      ''OpenBook may not provide vendor-level payment evidence.'',
      ''Restricted records may require a lawful CORA request.'',
      ''Panopticon Null does not provide legal advice or a legal-compliance guarantee.'']"

section \<open>Gathering the content\<close>

definition build_content :: "str \<Rightarrow> store \<Rightarrow> CaseFileError + CaseFileContent" where
  "build_content matter_id s =
     (case procurement_matter matter_id s of
        Inl _ \<Rightarrow> Inl (MatterNotFound matter_id)
      | Inr m \<Rightarrow>
          let events = procurement_events matter_id s;
              identifiers = procurement_identifiers matter_id s;
              organizations = procurement_organizations matter_id s;
              coverage = all_coverage_entries s;
              requests = newest_first (cora_requests matter_id s) in
          Inr \<lparr>cfc_matter = m, cfc_events = events, cfc_identifiers = identifiers,
            cfc_organizations = organizations, cfc_coverage = coverage,
            cfc_contradictions = identifier_contradictions identifiers @ item_summaries gap_kind matter_id s,
            cfc_missing_documents = item_summaries (\<lambda>k. k = MissingDocument) matter_id s,
            cfc_cora_requests = requests,
            cfc_gap_resolutions = sort (List.map_filter (gap_line s) requests),
            cfc_citations = build_citations s events identifiers organizations,
            cfc_what_changed = build_what_changed s events,
            cfc_documented_relationships =
              remdups_adj (sort (map relationship_line (filter (touches matter_id) (all_official_relationships s)))),
            cfc_coverage_summary = map (\<lambda>(source_id, entries). (source_id, coverage_line entries)) (grouped_by cov_source_id coverage),
            cfc_provenance = provenance_lines coverage, cfc_limitations = default_limitations\<rparr>)"

section \<open>Rendering\<close>

text \<open>A section with its heading; the items are whole lines.\<close>

definition md_section :: "string \<Rightarrow> str \<Rightarrow> str list \<Rightarrow> str" where
  "md_section title when_empty items =
     text_line (text_line (lit ''## '' @ lit title)) @
     (if items = [] then text_line (text_line when_empty) else concat items @ [10])"

definition bullet :: "str \<Rightarrow> str" where
  "bullet s = text_line (lit ''- '' @ s)"

definition in_bold :: "str \<Rightarrow> str" where
  "in_bold s = lit ''**'' @ s @ lit ''**''"

definition request_lines :: "CoraRequest \<Rightarrow> str" where
  "request_lines r =
     bullet (in_bold (cr_id r) @ long_dash @ cora_label (cr_state r) @ lit '' (request '' @ cr_matter_id r @ lit '')'') @
     (if cr_missing_record_types r = [] then []
      else text_line (lit ''  - targeted missing records: '' @ join (lit '', '') (cr_missing_record_types r))) @
     text_line (lit ''  - draft digest: `'' @ cr_draft_digest r @ lit ''`'') @
     concat (map (\<lambda>e. text_line (lit ''  - ['' @ cora_label (ce_state e) @ lit ''] '' @ ce_note e @ lit '' by '' @ ce_operator e))
       (cr_events r))"

definition render_case_file :: "CaseFileContent \<Rightarrow> str" where
  "render_case_file c =
     text_line (text_line (lit ''# Case File: '' @ pm_title (cfc_matter c))) @
     text_line (lit ''**Jurisdiction:** '' @ pm_jurisdiction (cfc_matter c) @ lit ''  '') @
     text_line (lit ''**Review state:** '' @ pm_review_state (cfc_matter c) @ lit ''  '') @
     text_line (text_line (lit ''**Publication state:** '' @ pm_publication_state (cfc_matter c))) @
     md_section ''Identifiers'' NOT_OBSERVED_PHRASING
       (map (\<lambda>i. bullet (lit ''`'' @ pid_raw i @ lit ''` ('' @ identifier_kind_label (pid_kind i) @ lit ''; source '' @
         pid_source_id i @ lit '')'')) (cfc_identifiers c)) @
     md_section ''Organizations'' NOT_OBSERVED_PHRASING
       (map (\<lambda>g. bullet (in_bold (org_raw_name g) @ long_dash @ role_label (org_role g) @ lit '' (source '' @
         org_source_id g @ lit '')'')) (cfc_organizations c)) @
     md_section ''Timeline'' NOT_OBSERVED_PHRASING
       (map (\<lambda>e. bullet (in_bold (case ev_date e of None \<Rightarrow> lit ''date unknown'' | Some d \<Rightarrow> d) @ long_dash @ ev_summary e @
         lit '' ('' @ event_kind_label (ev_kind e) @ lit '')''))
         (sort_key (\<lambda>e. (ev_date e, ev_id e)) (cfc_events c))) @
     md_section ''Reviewed citations'' NOT_OBSERVED_PHRASING
       (map (\<lambda>q. bullet (in_bold (cit_quote q) @ long_dash @ cit_evidence_id q @ lit '' (source '' @ cit_source_url q @
         lit ''; locator '' @ loc_label (cit_locator q) @ lit '')'')) (cfc_citations c)) @
     md_section ''What changed'' (lit ''None observed in the checked sources.'') (map bullet (cfc_what_changed c)) @
     md_section ''Documented relationships''
       (lit ''No preserved record in the checked sources explicitly references another official identifier in a declared reference field.'')
       (map bullet (cfc_documented_relationships c)) @
     md_section ''Contradictions'' (lit ''None observed in the checked sources.'') (map bullet (cfc_contradictions c)) @
     md_section ''Missing expected documents'' NOT_OBSERVED_PHRASING (map bullet (cfc_missing_documents c)) @
     md_section ''Records requests (CORA ledger)'' NOT_OBSERVED_PHRASING (map request_lines (cfc_cora_requests c)) @
     md_section ''Gap resolution status'' (lit ''None.'') (map bullet (cfc_gap_resolutions c)) @
     md_section ''Coverage summary'' NOT_OBSERVED_PHRASING
       (map (\<lambda>(source_id, line). bullet (in_bold source_id @ lit '': '' @ line)) (cfc_coverage_summary c)) @
     md_section ''Retrieval and processing provenance'' NOT_OBSERVED_PHRASING (map bullet (cfc_provenance c)) @
     text_line (text_line (lit ''## Limitations'')) @ concat (map bullet (cfc_limitations c)) @ [10]"

section \<open>Generating a case file\<close>

text \<open>\<open>to_json\<close> is \<open>serde_json::to_string_pretty\<close>; \<open>sha256_manifest\<close> sorts its entries.\<close>

definition sha256_manifest :: "(str \<times> str) list \<Rightarrow> (str \<times> str) list" where
  "sha256_manifest files = sort files"

definition case_file_of :: "hash \<Rightarrow> (CaseFileContent \<Rightarrow> str) \<Rightarrow> str \<Rightarrow> str \<Rightarrow> CaseFileContent \<Rightarrow> CaseFile" where
  "case_file_of sha to_json matter_id built_at content =
     (let json_digest = sha256_hex sha (as_bytes (to_json content));
          markdown_digest = sha256_hex sha (as_bytes (render_case_file content)) in
      \<lparr>cf_id = case_file_id_for sha matter_id built_at, cf_matter_id = matter_id, cf_state = CaseFileState.Draft,
       cf_json_digest = json_digest, cf_markdown_digest = markdown_digest,
       cf_sha256_manifest = sha256_manifest
         [(lit ''case-file.json'', json_digest), (lit ''case-file.md'', markdown_digest)],
       cf_built_at = built_at\<rparr>)"

definition generate ::
  "hash \<Rightarrow> (CaseFileContent \<Rightarrow> str) \<Rightarrow> str \<Rightarrow> str \<Rightarrow> (CaseFileError, CaseFile) op" where
  "generate sha to_json matter_id built_at =
     bind_op (read_op (build_content matter_id)) (\<lambda>content.
       bind_op (stmt Store (insert_case_file (case_file_of sha to_json matter_id built_at content))) (\<lambda>_.
         return_op (case_file_of sha to_json matter_id built_at content)))"

definition has_event_kind :: "CaseFileContent \<Rightarrow> ProcurementEventKind \<Rightarrow> bool" where
  "has_event_kind c kind = list_ex (\<lambda>e. ev_kind e = kind) (cfc_events c)"

section \<open>What a case file rests on\<close>

lemma source_snapshot_key: "source_snapshot k s = Inr snapshot \<Longrightarrow> snap_id snapshot = k"
  by (auto simp: source_snapshot_def read_row_def split: option.splits dest: select_by_SomeD)

lemma first_evidence_stored: "first_evidence s e = Some snapshot \<Longrightarrow> source_snapshot (snap_id snapshot) s = Inr snapshot"
  by (auto simp: first_evidence_def dest: source_snapshot_key split: list.splits sum.splits)

lemma build_content_Inr:
  assumes "build_content m s = Inr c"
  shows "cfc_events c = procurement_events m s" "cfc_identifiers c = procurement_identifiers m s"
    "cfc_organizations c = procurement_organizations m s"
    "cfc_citations c = build_citations s (cfc_events c) (cfc_identifiers c) (cfc_organizations c)"
    "cfc_missing_documents c = item_summaries (\<lambda>k. k = MissingDocument) m s"
    "cfc_contradictions c = identifier_contradictions (cfc_identifiers c) @ item_summaries gap_kind m s"
    "cfc_cora_requests c = newest_first (cora_requests m s)"
    "cfc_gap_resolutions c = sort (List.map_filter (gap_line s) (cfc_cora_requests c))"
  using assms by (auto simp: build_content_def Let_def split: sum.splits)

lemma build_citations_set:
  "set (build_citations s events ids orgs) =
     {snapshot_citation snapshot (ev_summary e) | snapshot e. e \<in> set events \<and> first_evidence s e = Some snapshot} \<union>
     {snapshot_citation primary q | primary q. first_some (first_evidence s) events = Some primary \<and>
        q \<in> pid_raw ` set ids \<union> org_raw_name ` set orgs}"
  by (cases "first_some (first_evidence s) events") (auto simp: build_citations_def set_map_filter simp del: first_some_None_iff)

text \<open>
  C28: Every citation of a case file is backed: it names a stored snapshot, with that snapshot's
  address and retrieval, and quotes the summary of an event of the matter whose first evidence the
  snapshot is, or the raw form of an identifier or organization of the matter, and then the snapshot is
  the first that any event of the matter resolves to; and every event whose first evidence resolves is
  cited.
\<close>

theorem case_file_citations_backed:
  assumes "build_content m s = Inr c"
  shows "list_all (\<lambda>q. \<exists>snapshot. source_snapshot (cit_evidence_id q) s = Inr snapshot \<and>
      q = snapshot_citation snapshot (cit_quote q) \<and>
      (list_ex (\<lambda>e. first_evidence s e = Some snapshot \<and> cit_quote q = ev_summary e) (procurement_events m s) \<or>
       first_some (first_evidence s) (procurement_events m s) = Some snapshot \<and>
         cit_quote q \<in> pid_raw ` set (procurement_identifiers m s) \<union> org_raw_name ` set (procurement_organizations m s)))
      (cfc_citations c) \<and>
    list_all (\<lambda>e. first_evidence s e \<noteq> None \<longrightarrow>
      list_ex (\<lambda>q. cit_quote q = ev_summary e) (cfc_citations c)) (procurement_events m s)"
proof -
  note c = build_content_Inr [OF assms]
  have cites: "set (cfc_citations c) =
     {snapshot_citation snapshot (ev_summary e) | snapshot e. e \<in> set (procurement_events m s) \<and> first_evidence s e = Some snapshot} \<union>
     {snapshot_citation primary q | primary q. first_some (first_evidence s) (procurement_events m s) = Some primary \<and>
        q \<in> pid_raw ` set (procurement_identifiers m s) \<union> org_raw_name ` set (procurement_organizations m s)}"
    unfolding c(4) c(1-3) by (rule build_citations_set)
  have fields: "cit_evidence_id (snapshot_citation p q) = snap_id p" "cit_quote (snapshot_citation p q) = q" for p q
    by (simp_all add: snapshot_citation_def)
  have stored: "source_snapshot (snap_id p) s = Inr p" if "first_some (first_evidence s) (procurement_events m s) = Some p" for p
    using first_some_SomeD [OF that] by (auto dest: first_evidence_stored)
  have "\<exists>snapshot. source_snapshot (cit_evidence_id q) s = Inr snapshot \<and>
      q = snapshot_citation snapshot (cit_quote q) \<and>
      ((\<exists>e \<in> set (procurement_events m s). first_evidence s e = Some snapshot \<and> cit_quote q = ev_summary e) \<or>
       first_some (first_evidence s) (procurement_events m s) = Some snapshot \<and>
         cit_quote q \<in> pid_raw ` set (procurement_identifiers m s) \<union> org_raw_name ` set (procurement_organizations m s))"
    if q: "q \<in> set (cfc_citations c)" for q
  proof -
    from q consider
      (event) p e where "q = snapshot_citation p (ev_summary e)" "e \<in> set (procurement_events m s)" "first_evidence s e = Some p"
    | (primary) p x where "q = snapshot_citation p x" "first_some (first_evidence s) (procurement_events m s) = Some p"
        "x \<in> pid_raw ` set (procurement_identifiers m s) \<union> org_raw_name ` set (procurement_organizations m s)"
      unfolding cites by blast
    then show ?thesis
    proof cases
      case event
      then show ?thesis using first_evidence_stored [OF event(3)] by (intro exI [of _ p]) (auto simp: fields)
    next
      case primary
      then show ?thesis using stored [OF primary(2)] by (intro exI [of _ p]) (auto simp: fields)
    qed
  qed
  moreover have "\<exists>q \<in> set (cfc_citations c). cit_quote q = ev_summary e"
    if "e \<in> set (procurement_events m s)" "first_evidence s e \<noteq> None" for e
    using that unfolding cites by (force simp: fields)
  ultimately show ?thesis unfolding list_all_iff list_ex_iff by blast
qed

text \<open>
  Generating a case file only records a draft: it fails, without a write, exactly when the matter
  is unknown; otherwise it changes nothing but the table of case files, where the draft, under the
  digests of its two renderings, is added at the end unless its identifier is taken.
\<close>

theorem generate_records_draft:
  "case generate sha to_json m built_at s of
     (Inl e, s') \<Rightarrow> e = MatterNotFound m \<and> s' = s \<and> m \<notin> pm_id ` set (st_proc_matters s)
   | (Inr cf, s') \<Rightarrow>
       m \<in> pm_id ` set (st_proc_matters s) \<and> cf_state cf = CaseFileState.Draft \<and> cf_matter_id cf = m \<and>
       Inr (cf_json_digest cf, cf_markdown_digest cf) =
         map_sum id (\<lambda>c. (sha256_hex sha (as_bytes (to_json c)), sha256_hex sha (as_bytes (render_case_file c)))) (build_content m s) \<and>
       s' = s\<lparr>st_case_files := st_case_files s @ (if cf_id cf \<in> cf_id ` set (st_case_files s) then [] else [cf])\<rparr>"
proof (cases "procurement_matter m s")
  case (Inl e)
  then show ?thesis
    by (auto simp: generate_def op_defs build_content_def procurement_matter_def read_row_def select_by_None_iff
        split: option.splits)
next
  case (Inr r)
  then have "m \<in> pm_id ` set (st_proc_matters s)"
    by (auto simp: procurement_matter_def read_row_def split: option.splits dest!: select_by_SomeD)
  moreover obtain c where "build_content m s = Inr c"
    using Inr by (auto simp: build_content_def Let_def)
  ultimately show ?thesis
    by (auto simp: generate_def op_defs insert_case_file_def insert_or_ignore_def case_file_of_def Let_def)
qed

text \<open>
  A regenerated case file may be lost: when the store already holds a case file for the matter and
  time, generating again after the matter has changed returns a file with new digests that is not stored.
\<close>

theorem regenerated_case_file_not_recorded:
  assumes "generate sha to_json m built_at s = (Inr cf, s')" "cf_id cf \<in> cf_id ` set (st_case_files s)"
    "cf \<notin> set (st_case_files s)"
  shows "s' = s \<and> cf \<notin> set (case_files m s')"
  using assms generate_records_draft [where sha = sha and to_json = to_json and m = m and built_at = built_at and s = s]
  by (auto simp: case_files_def)

section \<open>Gaps\<close>

text \<open>
  The gaps of a case file are those of the review queue, no more and no fewer: the missing
  documents are, sorted and without repetition, the summaries of the matter's items of that kind, and
  every conflict, revision or disappearance queued for the matter is among its contradictions.
\<close>

theorem case_file_gaps_from_queue:
  assumes "build_content m s = Inr c"
  shows "cfc_missing_documents c =
      sorted_list_of_set (ri_summary ` {i \<in> set (st_recon_items s). ri_matter_id i = m \<and> ri_kind i = MissingDocument}) \<and>
    ri_summary ` {i \<in> set (st_recon_items s). ri_matter_id i = m \<and> gap_kind (ri_kind i)} \<subseteq> set (cfc_contradictions c)"
proof -
  have summaries: "item_summaries w m s = sorted_list_of_set (ri_summary ` {i \<in> set (st_recon_items s). ri_matter_id i = m \<and> w (ri_kind i)})"
    for w
  proof -
    have "set (item_summaries w m s) = ri_summary ` {i \<in> set (st_recon_items s). ri_matter_id i = m \<and> w (ri_kind i)}"
      by (auto simp: item_summaries_def all_reconciliation_items_def)
    moreover have "sorted (item_summaries w m s) \<and> distinct (item_summaries w m s)"
      unfolding item_summaries_def by (rule sorted_distinct_remdups_adj) simp
    ultimately show ?thesis by (metis sorted_list_of_set.idem_if_sorted_distinct)
  qed
  show ?thesis
    unfolding build_content_Inr(5,6) [OF assms] set_append summaries by simp
qed

section \<open>From the ledger to the case file\<close>

lemma split_by_word: "\<forall>c \<in> set w. \<not> p c \<Longrightarrow> p d \<Longrightarrow> split_by p (w @ d # s) = w # split_by p s"
  by (induction w) auto

lemma split_whitespace_word:
  "\<forall>c \<in> set w. \<not> is_ws c \<Longrightarrow> w \<noteq> [] \<Longrightarrow> is_ws d \<Longrightarrow> split_whitespace (w @ d # s) = w # split_whitespace s"
  by (simp add: split_whitespace_def split_by_word)

lemma noted_words:
  assumes "\<forall>c \<in> set i. \<not> is_ws c" "i \<noteq> []"
  shows "\<exists>ws. split_whitespace (lit ''response evidence '' @ i @ lit '' linked'' @ rest) = lit ''response'' # lit ''evidence'' # i # ws"
proof -
  have note_text: "lit ''response evidence '' @ i @ lit '' linked'' @ rest =
      lit ''response'' @ 32 # (lit ''evidence'' @ 32 # (i @ 32 # (lit ''linked'' @ rest)))"
    by (simp add: lit_def)
  have "\<forall>c \<in> set (lit ''response''). \<not> is_ws c" "\<forall>c \<in> set (lit ''evidence''). \<not> is_ws c"
    by (simp_all add: lit_def is_ws_def)
  then show ?thesis
    unfolding note_text using assms by (simp add: split_whitespace_word is_ws_def)
qed

text \<open>
  The case file finds the response the ledger linked: after a response is registered, the digest
  that the case file shows for the request is that of the imported record, provided the record's
  identifier is one word.
\<close>

theorem linked_response_digest_found:
  assumes "response_received sha k i note_text s = (Inr r, s')" "list_all (\<lambda>c. \<not> is_ws c) i" "i \<noteq> []"
  shows "request_response_digest s' r = supplied_record_digest i s \<and> supplied_record_digest i s \<noteq> None"
proof -
  define body where "body = lit ''response evidence '' @ i @ lit '' linked'' @
     (case note_text of None \<Rightarrow> [] | Some n \<Rightarrow> lit ''; note: '' @ n)"
  have some: "supplied_record_json i s \<noteq> None"
    using assms(1) by (cases "supplied_record_json i s") (simp_all add: response_received_def op_defs)
  then have t: "transition sha k CoraRequestState.ResponseReceived (lit ''response-import'') OFFLINE_CREATED_AT body s = (Inr r, s')"
    using assms(1) by (auto simp: response_received_def op_defs body_def)
  from t obtain q where q: "r = advanced sha CoraRequestState.ResponseReceived (lit ''response-import'') OFFLINE_CREATED_AT body q"
    "s' = update_cora_request r s"
    by (rule transition_Inr) auto
  obtain ws where "split_whitespace body = lit ''response'' # lit ''evidence'' # i # ws"
    using noted_words [of i] assms(2,3) unfolding body_def list_all_iff by blast
  then have "first_some noted_response (rev (cr_events r)) = Some i"
    by (simp add: q(1) advanced_def cora_event_def noted_response_def)
  then show ?thesis
    using some by (simp add: request_response_digest_def q(2) update_cora_request_def supplied_record_digest_def
        supplied_record_json_def)
qed

section \<open>A sample matter\<close>

definition missing_item :: ReconciliationItem where
  "missing_item = \<lparr>ri_id = [114], ri_matter_id = [109], ri_kind = MissingDocument, ri_summary = [77],
     ri_record_refs = [], ri_state = [], ri_created_at = []\<rparr>"

definition case_store :: store where
  "case_store = sample_chain_store\<lparr>st_recon_items := [missing_item],
     st_supplied_records := [\<lparr>sup_id = [120], sup_observed_digest = [100], sup_record_json = []\<rparr>],
     st_cora_requests := [sample_request_of id_hash]\<rparr>"

lemma case_store_content: "\<exists>c. build_content [109] case_store = Inr c"
  by (simp add: build_content_def procurement_matter_def read_row_def case_store_def sample_chain_store_def Let_def)

lemma case_store_snapshot: "\<exists>p. first_evidence case_store spent_event = Some p"
  by (simp add: first_evidence_def spent_event_def source_snapshot_def read_row_def case_store_def sample_chain_store_def)

theorem case_file_citations_backed_witness:
  "\<exists>c. build_content [109] case_store = Inr c \<and> list_ex (\<lambda>q. cit_quote q = ev_summary spent_event) (cfc_citations c)"
proof -
  obtain c where c: "build_content [109] case_store = Inr c" using case_store_content by blast
  have "spent_event \<in> set (procurement_events [109] case_store)"
    by (simp add: procurement_events_def case_store_def sample_chain_store_def spent_event_def)
  then show ?thesis
    using case_file_citations_backed [OF c] c case_store_snapshot unfolding list_all_iff by auto
qed

theorem case_file_gaps_from_queue_witness:
  "\<exists>c. build_content [109] case_store = Inr c \<and> cfc_missing_documents c = [[77]]"
proof -
  obtain c where c: "build_content [109] case_store = Inr c" using case_store_content by blast
  have "{i \<in> set (st_recon_items case_store). ri_matter_id i = [109] \<and> ri_kind i = MissingDocument} = {missing_item}"
    by (auto simp: case_store_def missing_item_def)
  then have "cfc_missing_documents c = [[77]]"
    using case_file_gaps_from_queue [OF c] by (simp add: missing_item_def)
  with c show ?thesis by blast
qed

theorem linked_response_digest_found_witness:
  "\<exists>r s'. response_received id_hash (cr_id (sample_request_of id_hash)) [120] None case_store = (Inr r, s') \<and>
     request_response_digest s' r = Some [100]"
proof -
  have "cora_request (cr_id (sample_request_of id_hash)) case_store = Inr (sample_request_of id_hash)"
    by (simp add: cora_request_Inr case_store_def)
  moreover have "cr_state (sample_request_of id_hash) \<noteq> CoraRequestState.ResponseReceived"
    by (simp add: sample_request_of_def drafted_request_def Let_def)
  moreover have "supplied_record_json [120] case_store = Some []"
    by (simp add: supplied_record_json_def case_store_def)
  ultimately obtain r s' where r: "response_received id_hash (cr_id (sample_request_of id_hash)) [120] None case_store = (Inr r, s')"
    by (auto simp: response_received_def op_defs transition_eq)
  have "supplied_record_digest [120] case_store = Some [100]"
    by (simp add: supplied_record_digest_def case_store_def)
  then show ?thesis
    using linked_response_digest_found [OF r] r by (auto simp: is_ws_def)
qed

theorem regenerated_case_file_not_recorded_witness:
  "\<exists>cf s s'. generate id_hash (\<lambda>_. [1]) [109] [] s = (Inr cf, s') \<and> s' = s \<and> cf \<notin> set (case_files [109] s')"
proof -
  define s where "s = case_store\<lparr>st_case_files :=
    [\<lparr>cf_id = case_file_id_for id_hash [109] [], cf_matter_id = [], cf_state = CaseFileState.Draft, cf_json_digest = [],
      cf_markdown_digest = [], cf_sha256_manifest = [], cf_built_at = []\<rparr>]\<rparr>"
  have "\<exists>c. build_content [109] s = Inr c"
    by (simp add: build_content_def procurement_matter_def read_row_def s_def case_store_def sample_chain_store_def Let_def)
  then obtain cf s' where g: "generate id_hash (\<lambda>_. [1]) [109] [] s = (Inr cf, s')"
    "cf_id cf = case_file_id_for id_hash [109] []" "cf_matter_id cf = [109]"
    by (auto simp: generate_def op_defs insert_case_file_def insert_or_ignore_def s_def case_file_of_def Let_def)
  have "cf_id cf \<in> cf_id ` set (st_case_files s)" "cf \<notin> set (st_case_files s)"
    using g(2,3) by (auto simp: s_def)
  from regenerated_case_file_not_recorded [OF g(1) this] g(1) show ?thesis by blast
qed

end
