(* ===== verification/Html.thy ===== *)
theory Html
  imports Prelude
begin

text \<open>
  The HTML and XML helpers of \<open>pnull-publish/src/lib.rs\<close>: escaping, file names of identifiers and the
  frame of a page, with a reader of character references as the specification of escaping.
\<close>

section \<open>Escaping\<close>

text \<open>\<open>str::replace\<close> of one character.\<close>

definition replace_char :: "uchar \<Rightarrow> str \<Rightarrow> str \<Rightarrow> str" where
  "replace_char c r s = concat (map (\<lambda>x. if x = c then r else [x]) s)"

definition escape :: "str \<Rightarrow> str" where
  "escape s =
     replace_char 39 (lit ''&#39;'') (replace_char 34 (lit ''&quot;'') (replace_char 62 (lit ''&gt;'')
       (replace_char 60 (lit ''&lt;'') (replace_char 38 (lit ''&amp;'') s))))"

definition escape_attr :: "str \<Rightarrow> str" where
  "escape_attr s = escape s"

definition escape_xml :: "str \<Rightarrow> str" where
  "escape_xml s = escape s"

definition safe_id :: "str \<Rightarrow> str" where
  "safe_id i = map (\<lambda>c. if is_alnum c \<or> c = 45 then c else 95) i"

section \<open>Elements\<close>

definition tagged :: "string \<Rightarrow> str \<Rightarrow> str" where
  "tagged t body = lit ''<'' @ lit t @ lit ''>'' @ body @ lit ''</'' @ lit t @ lit ''>''"

definition mid_dot_sep :: str where
  "mid_dot_sep = [32, 183, 32]"

text \<open>A list of lines: the standard text if there is none, else a list item per line.\<close>

definition item_lines :: "str list \<Rightarrow> str" where
  "item_lines items = concat (map (\<lambda>i. text_line (tagged ''li'' i)) items)"

definition html_list :: "str \<Rightarrow> str list \<Rightarrow> str" where
  "html_list none items =
     (if items = [] then none else lit ''<ul>'' @ item_lines items @ lit ''</ul>'')"

definition nav_link :: "str \<Rightarrow> string \<Rightarrow> string \<Rightarrow> str" where
  "nav_link prefix target label =
     lit ''<a href=\"'' @ prefix @ lit target @ lit ''\">'' @ lit label @ lit ''</a>''"

definition page_head :: "str \<Rightarrow> str \<Rightarrow> str" where
  "page_head title prefix =
     text_line (lit ''<!doctype html>'') @
     lit ''<html lang=\"en\"><head><meta charset=\"utf-8\">'' @
     lit ''<meta name=\"viewport\" content=\"width=device-width,initial-scale=1\"><title>'' @ escape title @
     long_dash @ lit ''Panopticon Null</title><link rel=\"stylesheet\" href=\"'' @ prefix @ lit ''style.css\">'' @
     lit ''<link rel=\"alternate\" type=\"application/atom+xml\" href=\"'' @ prefix @ lit ''atom.xml\"></head>''"

definition page_header :: "str \<Rightarrow> str" where
  "page_header prefix =
     lit ''<body><header><a class=\"brand\" href=\"'' @ prefix @ lit ''index.html\">PANOPTICON NULL</a>'' @
     lit ''<p>No human being is born to be indexed.</p><nav>'' @
     nav_link prefix ''index.html'' ''Alerts'' @ nav_link prefix ''history.html'' ''History'' @
     nav_link prefix ''methodology.html'' ''Method'' @ nav_link prefix ''rules.html'' ''Rules'' @
     nav_link prefix ''privacy.html'' ''Privacy'' @ nav_link prefix ''manifesto.html'' ''Manifesto'' @
     nav_link prefix ''legal.html'' ''Boundaries'' @ lit ''</nav></header>''"

definition page_footer :: str where
  "page_footer =
     lit ''<footer><p>We think, therefore we are free. Evidence before rhetoric; institutions, not private people.</p>'' @
     text_line (lit ''</footer></body></html>'')"

definition page :: "str \<Rightarrow> str \<Rightarrow> str \<Rightarrow> str" where
  "page title body prefix =
     page_head title prefix @ page_header prefix @ lit ''<main>'' @ tagged ''h1'' (escape title) @ body @
     lit ''</main>'' @ page_footer"

section \<open>What escaping does\<close>

text \<open>In one pass: what becomes of each character.\<close>

definition escape_char :: "uchar \<Rightarrow> str" where
  "escape_char c =
     (if c = 38 then lit ''&amp;'' else if c = 60 then lit ''&lt;'' else if c = 62 then lit ''&gt;''
      else if c = 34 then lit ''&quot;'' else if c = 39 then lit ''&#39;'' else [c])"

lemma replace_char_append: "replace_char c r (s @ t) = replace_char c r s @ replace_char c r t"
  by (simp add: replace_char_def)

lemma escape_append: "escape (s @ t) = escape s @ escape t"
  by (simp add: escape_def replace_char_append)

lemma escape_one_pass: "escape s = concat (map escape_char s)"
proof (induction s)
  case (Cons c s)
  have "escape (c # s) = escape [c] @ escape s" using escape_append [of "[c]" s] by simp
  also have "escape [c] = escape_char c"
    by (simp add: escape_def escape_char_def replace_char_def lit_def)
  finally show ?case using Cons by simp
qed (simp add: escape_def replace_char_def)

text \<open>The reader: the five character references, everything else as it stands.\<close>

definition char_references :: "(str \<times> uchar) list" where
  "char_references =
     [(lit ''&amp;'', 38), (lit ''&lt;'', 60), (lit ''&gt;'', 62), (lit ''&quot;'', 34), (lit ''&#39;'', 39)]"

function unescape :: "str \<Rightarrow> str" where
  "unescape [] = []"
| "unescape (c # cs) =
     (case find (\<lambda>(e, _). starts_with (c # cs) e) char_references of
        Some (e, d) \<Rightarrow> d # unescape (drop (length e - 1) cs)
      | None \<Rightarrow> c # unescape cs)"
  by pat_completeness auto

termination
  by (relation "measure length") auto

lemma starts_with_append [simp]: "starts_with (p @ t) p"
  by (auto simp: starts_with_iff)

lemma unescape_char: "unescape (escape_char c @ t) = c # unescape t"
proof -
  consider "c = 38" | "c = 60" | "c = 62" | "c = 34" | "c = 39" | "c \<notin> {38, 60, 62, 34, 39}" by blast
  then show ?thesis by cases (simp_all add: escape_char_def char_references_def lit_def)
qed

lemma unescape_escape: "unescape (escape s) = s"
  unfolding escape_one_pass by (induction s) (simp_all add: unescape_char)

lemma escape_clean: "c \<in> {60, 62, 34, 39} \<Longrightarrow> c \<notin> set (escape s)"
proof -
  assume c: "c \<in> {60, 62, 34, 39}"
  have "c \<notin> set (escape_char d)" for d using c by (auto simp: escape_char_def lit_def)
  then show ?thesis unfolding escape_one_pass by simp
qed

section \<open>Properties\<close>

text \<open>
  Escaped text is inert and nothing is lost: it has none of the characters that open or close a tag or an
  attribute value, and a reader of character references gets back exactly the original.
\<close>

theorem escaped_text_is_inert:
  "unescape (escape s) = s \<and> set (escape s) \<inter> {60, 62, 34, 39} = {}"
  using unescape_escape escape_clean by blast

text \<open>
  The file name of an identifier has only letters, digits, hyphens and underscores, so it never leaves its
  directory; but two identifiers may have the same one.
\<close>

lemma safe_id_chars: "list_all (\<lambda>c. is_alnum c \<or> c = 45 \<or> c = 95) (safe_id i)"
  by (auto simp: safe_id_def list_all_iff)

lemma safe_id_collides: "safe_id (lit ''a:b'') = safe_id (lit ''a_b'')"
  by (simp add: safe_id_def lit_def char_class_defs)

end
