(* ===== verification/MatterPages.thy ===== *)
theory MatterPages
  imports CaseFiles PublishGate Html
begin

text \<open>
  The publication of the procurement chain (\<open>pnull-publish/src/procurement.rs\<close>): the gate of a matter, its
  page from the case-file content, the index and the Atom feed.  Paths are relative to the output
  directory; \<open>writable\<close> tells whether writing a path succeeds, \<open>show_error\<close> is the display of a case-file
  error.
\<close>

section \<open>The gate\<close>

definition PROCUREMENT_CASEFILE_CATEGORY :: str where
  "PROCUREMENT_CASEFILE_CATEGORY = lit ''procurement_casefile''"

record PublicationGateReport =
  pgr_matter_id :: str
  pgr_citations_pending :: "str list"
  pgr_citations_rejected :: "str list"
  pgr_citations_stale :: "str list"
  pgr_allowlist_present :: bool
  pgr_privacy_issues :: "str list"
  pgr_withheld :: bool
  pgr_withholds_for :: "str list"

definition all_pending :: "PublicationGateReport \<Rightarrow> bool" where
  "all_pending g \<longleftrightarrow>
     pgr_citations_pending g = [] \<and> pgr_citations_rejected g = [] \<and> pgr_citations_stale g = [] \<and>
     pgr_allowlist_present g \<and> pgr_privacy_issues g = []"

definition bound_to :: "hash \<Rightarrow> ReviewDecision \<Rightarrow> Citation \<Rightarrow> bool" where
  "bound_to sha d c \<longleftrightarrow> rev_bound_digest d = binding_digest sha (citation_review_binding sha c)"

definition pending_citation :: "hash \<Rightarrow> store \<Rightarrow> Citation \<Rightarrow> bool" where
  "pending_citation sha s c \<longleftrightarrow> current_review (citation_id sha c) s = None"

definition rejected_citation :: "hash \<Rightarrow> store \<Rightarrow> Citation \<Rightarrow> bool" where
  "rejected_citation sha s c \<longleftrightarrow>
     (case current_review (citation_id sha c) s of None \<Rightarrow> False | Some d \<Rightarrow> rev_state d \<noteq> ReviewState.Approved)"

definition stale_citation :: "hash \<Rightarrow> store \<Rightarrow> Citation \<Rightarrow> bool" where
  "stale_citation sha s c \<longleftrightarrow>
     (case current_review (citation_id sha c) s of None \<Rightarrow> False
      | Some d \<Rightarrow> rev_state d = ReviewState.Approved \<and> \<not> bound_to sha d c)"

definition privacy_issue :: "upper_table \<Rightarrow> str \<Rightarrow> str option" where
  "privacy_issue upper content =
     (case validate_public_text upper content of Inl (Sensitive issue) \<Rightarrow> Some issue | _ \<Rightarrow> None)"

definition field_issues :: "upper_table \<Rightarrow> str \<Rightarrow> str list \<Rightarrow> str list" where
  "field_issues upper label values =
     List.map_filter (\<lambda>v. map_option (\<lambda>issue. label @ lit '': '' @ issue) (privacy_issue upper v)) values"

section \<open>The page of a matter\<close>

definition not_observed :: str where
  "not_observed = text_line (tagged ''p'' NOT_OBSERVED_PHRASING)"

definition heading :: "string \<Rightarrow> str" where
  "heading t = tagged ''h2'' (lit t)"

definition identifiers_section :: "CaseFileContent \<Rightarrow> str" where
  "identifiers_section c =
     heading ''Identifiers'' @ html_list not_observed
       (map (\<lambda>i. tagged ''code'' (escape (pid_raw i)) @ long_dash @ escape (identifier_kind_label (pid_kind i)) @
          lit '' (source '' @ escape (pid_source_id i) @ lit '')'') (cfc_identifiers c))"

definition organizations_section :: "CaseFileContent \<Rightarrow> str" where
  "organizations_section c =
     heading ''Organizations'' @ html_list not_observed
       (map (\<lambda>p. tagged ''strong'' (escape (org_raw_name p)) @ long_dash @ escape (role_label (org_role p)) @
          lit '' (source '' @ escape (org_source_id p) @ lit '')'') (cfc_organizations c))"

definition timeline_section :: "CaseFileContent \<Rightarrow> str" where
  "timeline_section c =
     heading ''Timeline'' @
     (if cfc_events c = [] then not_observed
      else lit ''<ul class=\"timeline\">'' @
        item_lines (map (\<lambda>e. tagged ''strong'' (escape (case ev_date e of None \<Rightarrow> lit ''date unknown'' | Some d \<Rightarrow> d)) @
            long_dash @ escape (ev_summary e) @ lit '' ('' @ escape (event_kind_label (ev_kind e)) @ lit '')'')
          (sort_key (\<lambda>e. (ev_date e, ev_id e)) (cfc_events c))) @ lit ''</ul>'')"

definition matter_citation :: "Citation \<Rightarrow> str" where
  "matter_citation c =
     tagged ''blockquote'' (escape (cit_quote c)) @ lit ''<p><a rel=\"external nofollow\" href=\"'' @
     escape_attr (cit_source_url c) @ lit ''\">Official source</a>'' @ mid_dot_sep @
     escape (loc_label (cit_locator c)) @ mid_dot_sep @ lit ''<a href=\"../../../../evidence/'' @
     safe_id (cit_evidence_id c) @ lit ''.html\">local hash and provenance</a></p>''"

definition citations_section :: "CaseFileContent \<Rightarrow> str" where
  "citations_section c =
     heading ''Reviewed citations'' @
     (if cfc_citations c = [] then not_observed
      else lit ''<ol class=\"citations\">'' @ item_lines (map matter_citation (cfc_citations c)) @ lit ''</ol>'')"

definition changes_section :: "CaseFileContent \<Rightarrow> str" where
  "changes_section c =
     heading ''What changed'' @
     (if cfc_what_changed c = [] then text_line (tagged ''p'' (lit ''None observed in the checked sources.''))
      else lit ''<ul>'' @ item_lines (map escape (cfc_what_changed c)) @ lit ''</ul>'' @
        tagged ''p'' (lit ''These record changes in the public record. They are comparisons, not legal conclusions.''))"

definition relationships_section :: "CaseFileContent \<Rightarrow> str" where
  "relationships_section c =
     heading ''Documented relationships'' @
     (if cfc_documented_relationships c = []
      then text_line (tagged ''p'' (lit ''No preserved record in the checked sources explicitly references another '' @
        lit ''official identifier in a declared reference field.''))
      else lit ''<ul>'' @ item_lines (map escape (cfc_documented_relationships c)) @ lit ''</ul>'' @
        tagged ''p'' (lit ''These are exact, declared-field matches in the preserved record; '' @
          lit ''they are factual statements about the record, not legal conclusions.''))"

definition contradictions_section :: "CaseFileContent \<Rightarrow> str" where
  "contradictions_section c =
     heading ''Contradictions'' @
     html_list (tagged ''p'' (lit ''None observed in the checked sources.'')) (map escape (cfc_contradictions c))"

definition gaps_section :: "CaseFileContent \<Rightarrow> str" where
  "gaps_section c =
     heading ''Missing documents and coverage gaps'' @
     html_list not_observed (map escape (remdups_adj (sort (cfc_missing_documents c))))"

definition request_event_line :: "CoraRequestEvent \<Rightarrow> str" where
  "request_event_line e =
     text_line (lit ''<p class=\"indent\">['' @ escape (cora_label (ce_state e)) @ lit ''] '' @ escape (ce_note e) @
       lit '' by '' @ escape (ce_operator e) @ lit ''</p>'')"

definition request_item :: "CoraRequest \<Rightarrow> str" where
  "request_item r =
     text_line (lit ''<li>'' @ tagged ''strong'' (escape (cr_id r)) @ long_dash @ escape (cora_label (cr_state r)) @
       mid_dot_sep @ lit ''draft digest '' @ tagged ''code'' (escape (cr_draft_digest r))) @
     concat (map request_event_line (cr_events r)) @ text_line (lit ''</li>'')"

definition requests_section :: "CaseFileContent \<Rightarrow> str" where
  "requests_section c =
     heading ''Records requests (CORA ledger)'' @
     (if cfc_cora_requests c = [] then not_observed
      else lit ''<ul>'' @ concat (map request_item (cfc_cora_requests c)) @ lit ''</ul>'')"

definition resolutions_section :: "CaseFileContent \<Rightarrow> str" where
  "resolutions_section c =
     heading ''Gap resolution status'' @ html_list (tagged ''p'' (lit ''None.'')) (map escape (cfc_gap_resolutions c))"

definition coverage_section :: "CaseFileContent \<Rightarrow> str" where
  "coverage_section c =
     heading ''Coverage summary'' @ html_list not_observed
       (map (\<lambda>(source_id, l). tagged ''strong'' (escape source_id) @ lit '': '' @ escape l) (cfc_coverage_summary c))"

definition provenance_section :: "CaseFileContent \<Rightarrow> str" where
  "provenance_section c =
     heading ''Retrieval and processing provenance'' @ html_list not_observed (map escape (cfc_provenance c))"

definition manifest_section :: "store \<Rightarrow> CaseFileContent \<Rightarrow> str" where
  "manifest_section s c =
     heading ''SHA-256 manifest'' @
     (case last_option (case_files (pm_id (cfc_matter c)) s) of
        None \<Rightarrow> []
      | Some f \<Rightarrow> text_line (lit ''<p>Case-file manifest: '' @
          tagged ''code'' (escape (join (lit ''; '') (map (\<lambda>(n, d). n @ [32] @ d) (cf_sha256_manifest f)))) @ lit ''</p>''))"

definition limitations_section :: "CaseFileContent \<Rightarrow> str" where
  "limitations_section c =
     heading ''Limitations'' @ lit ''<ul>'' @ item_lines (map escape (cfc_limitations c)) @ lit ''</ul>'' @
     lit ''<p><strong>No legal conclusions.</strong> This page reports what the preserved records state. '' @
     lit ''It does not establish legality, corruption, abuse, or malice, and absence from checked sources is '' @
     lit ''not proof of absence.</p>''"

definition render_matter_page :: "store \<Rightarrow> CaseFileContent \<Rightarrow> str" where
  "render_matter_page s c =
     (let m = cfc_matter c in
      page (pm_title m @ long_dash @ lit ''procurement'')
        (text_line (lit ''<p class=\"state\">'' @ escape (pm_review_state m) @ mid_dot_sep @
           escape (pm_publication_state m) @ lit ''</p>'') @
         text_line (lit ''<p><strong>Jurisdiction:</strong> '' @ escape (pm_jurisdiction m) @ lit ''</p>'') @
         identifiers_section c @ organizations_section c @ timeline_section c @ citations_section c @
         changes_section c @ relationships_section c @ contradictions_section c @ gaps_section c @
         requests_section c @ resolutions_section c @ coverage_section c @ provenance_section c @
         manifest_section s c @ limitations_section c)
        (lit ''../../../../''))"

section \<open>Evaluating the gate\<close>

definition privacy_issues :: "upper_table \<Rightarrow> store \<Rightarrow> CaseFileContent \<Rightarrow> str list" where
  "privacy_issues upper s c =
     (case privacy_issue upper (render_matter_page s c) of None \<Rightarrow> [] | Some issue \<Rightarrow> [issue]) @
     field_issues upper (lit ''vendor name'') (map org_raw_name (cfc_organizations c)) @
     field_issues upper (lit ''identifier'') (map pid_raw (cfc_identifiers c)) @
     field_issues upper (lit ''event'') (map ev_summary (cfc_events c))"

definition count_reason :: "str list \<Rightarrow> string \<Rightarrow> str list" where
  "count_reason ids what = (if ids = [] then [] else [show_nat (length ids) @ lit what])"

definition withhold_reasons :: "str list \<Rightarrow> str list \<Rightarrow> str list \<Rightarrow> bool \<Rightarrow> str list \<Rightarrow> str list" where
  "withhold_reasons pending rejected stale allowed issues =
     count_reason pending '' pending citation(s)'' @ count_reason rejected '' rejected citation(s)'' @
     count_reason stale '' stale citation(s)'' @
     (if allowed then [] else [lit ''missing '' @ PROCUREMENT_CASEFILE_CATEGORY @ lit '' allowlist'']) @
     (if issues = [] then [] else [lit ''privacy backstop''])"

definition evaluate_gate :: "hash \<Rightarrow> upper_table \<Rightarrow> store \<Rightarrow> CaseFileContent \<Rightarrow> PublicationGateReport" where
  "evaluate_gate sha upper s c =
     (let pending = map (citation_id sha) (filter (pending_citation sha s) (cfc_citations c));
          rejected = map (citation_id sha) (filter (rejected_citation sha s) (cfc_citations c));
          stale = map (citation_id sha) (filter (stale_citation sha s) (cfc_citations c));
          allowed = publication_allowlist_allows s PROCUREMENT_CASEFILE_CATEGORY;
          issues = privacy_issues upper s c;
          reasons = withhold_reasons pending rejected stale allowed issues in
      \<lparr>pgr_matter_id = pm_id (cfc_matter c), pgr_citations_pending = pending, pgr_citations_rejected = rejected,
       pgr_citations_stale = stale, pgr_allowlist_present = allowed, pgr_privacy_issues = issues,
       pgr_withheld = (reasons \<noteq> []), pgr_withholds_for = reasons\<rparr>)"

definition citation_outcome :: "hash \<Rightarrow> store \<Rightarrow> Citation \<Rightarrow> str" where
  "citation_outcome sha s c =
     (case current_review (citation_id sha c) s of
        None \<Rightarrow> lit ''no review decision (pending)''
      | Some d \<Rightarrow>
          if rev_state d \<noteq> ReviewState.Approved
          then lit ''review state '' @ review_state_debug (rev_state d) @ lit '' (not Approved)''
          else if \<not> bound_to sha d c then lit ''approval stale (digest mismatch)''
          else lit ''approved'')"

definition citation_outcomes :: "hash \<Rightarrow> store \<Rightarrow> CaseFileContent \<Rightarrow> (Citation \<times> str) list" where
  "citation_outcomes sha s c = map (\<lambda>x. (x, citation_outcome sha s x)) (cfc_citations c)"

section \<open>Building the procurement pages\<close>

definition matter_slug :: "str \<Rightarrow> str" where
  "matter_slug matter_id = safe_id matter_id"

definition withheld_page :: "str \<Rightarrow> PublicationGateReport \<Rightarrow> str" where
  "withheld_page title gate =
     page (lit ''Publication withheld'')
       (lit ''<p class=\"state\">Publication withheld pending review.</p>'' @ tagged ''p'' (escape title) @
        tagged ''p'' (lit ''This page is not published because its publication gates have not all passed.'') @
        lit ''<ul>'' @ item_lines (map escape (pgr_withholds_for gate)) @ lit ''</ul>'')
       (lit ''../../../../'')"

text \<open>The last snapshot, in the order of the events and their evidence, gives the coverage state.\<close>

definition latest_coverage_state :: "store \<Rightarrow> CaseFileContent \<Rightarrow> CoverageState" where
  "latest_coverage_state s c =
     (case last_option (List.map_filter (\<lambda>i. case source_snapshot i s of Inl _ \<Rightarrow> None
          | Inr snapshot \<Rightarrow> Some (snap_coverage_state snapshot)) (concat (map ev_evidence_ids (cfc_events c)))) of
        None \<Rightarrow> InformationalOnly | Some state \<Rightarrow> state)"

text \<open>The body of the index; unlike the other pages it is not put into the frame of a page.\<close>

definition render_index :: "(str \<times> str \<times> CoverageState) list \<Rightarrow> str" where
  "render_index published =
     lit ''<p class=\"declaration\">The procurement chain is a verifiable public ledger: every acquisition visible, '' @
     lit ''every promise permanent, every change provable.</p>'' @
     (if published = [] then tagged ''p'' (lit ''No procurement matters are published.'')
      else lit ''<ul>'' @
        item_lines (map (\<lambda>(slug, title, coverage). lit ''<a href=\"'' @ escape slug @ lit ''/index.html\">'' @
          escape title @ lit ''</a>'' @ long_dash @ lit ''coverage '' @ escape (coverage_label coverage)) published) @
        lit ''</ul>'' @ tagged ''p'' (lit ''Absence from a partial or informational source is not proof of absence.''))"

text \<open>\<open>trim_end_matches('/')\<close>.\<close>

definition trim_slashes :: "str \<Rightarrow> str" where
  "trim_slashes url = trim_end_by (\<lambda>c. c = 47) url"

definition alert_title :: "ProcurementAlert \<Rightarrow> str" where
  "alert_title a =
     lit ''Procurement record changed ('' @ join (lit '', '') (map (\<lambda>c. change_label (prc_change_kind c)) (pa_changes a)) @
     lit '')'' @ long_dash @ pa_source_id a"

definition alert_entry :: "str \<Rightarrow> ProcurementAlert \<Rightarrow> str" where
  "alert_entry base a =
     lit ''<entry>'' @ tagged ''id'' (escape_xml (pa_id a)) @ tagged ''title'' (escape_xml (alert_title a)) @
     tagged ''updated'' (escape_xml (pa_retrieved_at a) @ lit ''T00:00:00Z'') @ lit ''<link href=\"'' @
     escape_xml (base @ lit ''/co/procurement/change-alerts/'' @ safe_id (pa_id a) @ lit ''.html'') @ lit ''\"/>'' @
     tagged ''summary'' (escape_xml (pa_summary a)) @ lit ''<category term=\"procurement-change\"/></entry>''"

definition matter_entry :: "str \<Rightarrow> ProcurementMatter \<Rightarrow> str" where
  "matter_entry base m =
     lit ''<entry>'' @ tagged ''id'' (lit ''proc-matter:'' @ escape_xml (pm_id m)) @
     tagged ''title'' (escape_xml (pm_title m)) @ tagged ''updated'' (lit ''1970-01-01T00:00:00Z'') @
     lit ''<link href=\"'' @
     escape_xml (base @ lit ''/co/procurement/'' @ matter_slug (pm_id m) @ lit ''/index.html'') @ lit ''\"/>'' @
     tagged ''summary'' (lit ''Procurement matter for '' @ escape_xml (pm_jurisdiction m) @ lit ''. Not proof of absence.'') @
     lit ''</entry>''"

definition render_procurement_atom :: "store \<Rightarrow> str \<Rightarrow> str" where
  "render_procurement_atom s base_url =
     (let base = trim_slashes base_url in
      text_line (lit ''<?xml version=\"1.0\" encoding=\"utf-8\"?>'') @
      lit ''<feed xmlns=\"http://www.w3.org/2005/Atom\">'' @
      tagged ''id'' (escape_xml base @ lit ''/co/procurement/atom.xml'') @
      tagged ''title'' (lit ''Panopticon Null'' @ long_dash @ lit ''procurement'') @
      tagged ''updated'' (lit ''1970-01-01T00:00:00Z'') @ lit ''<link rel=\"self\" href=\"'' @ escape_xml base @
      lit ''/co/procurement/atom.xml\"/>'' @ tagged ''subtitle'' (lit ''Public procurement ledger; not proof of absence.'') @
      concat (map (alert_entry base) (sort_key pa_id (all_procurement_alerts s))) @
      concat (map (matter_entry base) (sort_key pm_id (procurement_matters s))) @ text_line (lit ''</feed>''))"

definition render_change_alert_page :: "ProcurementAlert \<Rightarrow> str" where
  "render_change_alert_page a =
     page (lit ''Procurement change'' @ long_dash @ pa_source_id a)
       (text_line (lit ''<p><strong>Feed:</strong> automated. <strong>Jurisdiction / matter:</strong> '' @
          escape (pa_source_id a) @ mid_dot_sep @ escape (join (lit '', '') (pa_matter_ids a)) @ lit ''.</p>'') @
        text_line (tagged ''p'' (escape (pa_summary a))) @ heading ''Change details'' @ lit ''<ul>'' @
        item_lines (map (\<lambda>c. escape (change_label (prc_change_kind c)) @ lit '' on row '' @
          tagged ''code'' (escape (prc_row_identity c)) @ lit '': '' @ escape (prc_summary c)) (pa_changes a)) @
        lit ''</ul>'' @
        text_line (lit ''<p>Old snapshot '' @ escape (pa_old_snapshot_id a) @ lit '' (digest '' @
          tagged ''code'' (escape (pa_old_snapshot_digest a)) @ lit '')'' @ mid_dot_sep @ lit ''new snapshot '' @
          escape (pa_new_snapshot_id a) @ lit '' (digest '' @ tagged ''code'' (escape (pa_new_snapshot_digest a)) @
          lit '').</p>'') @
        lit ''<p><strong>This reports a change in the public record. It is a comparison, not a legal conclusion. '' @
        lit ''Absence from checked sources is not proof of absence.</strong></p>'' @
        concat (map (\<lambda>rule. text_line (lit ''<p>Surveillance-related terminology observed, rule '' @
          tagged ''code'' (escape rule) @ long_dash @ lit ''terminology only, not an accusation.</p>''))
          (pa_taxonomy_matches a)))
       (lit ''../../../../'')"

section \<open>Writing\<close>

text \<open>\<open>write_public\<close>: the privacy gate, then the write.\<close>

definition write_public :: "upper_table \<Rightarrow> (str \<Rightarrow> bool) \<Rightarrow> str \<Rightarrow> str \<Rightarrow> PublishError + str \<times> str" where
  "write_public upper writable path content =
     (case validate_public_text upper content of
        Inl e \<Rightarrow> Inl e
      | Inr _ \<Rightarrow> if writable path then Inr (path, content) else Inl Io)"

definition matter_path :: "ProcurementMatter \<Rightarrow> str" where
  "matter_path m = lit ''co/procurement/'' @ matter_slug (pm_id m) @ lit ''/index.html''"

definition matter_page_text :: "hash \<Rightarrow> upper_table \<Rightarrow> store \<Rightarrow> ProcurementMatter \<Rightarrow> CaseFileContent \<Rightarrow> str" where
  "matter_page_text sha upper s m content =
     (let gate = evaluate_gate sha upper s content in
      if pgr_withheld gate then withheld_page (pm_title m) gate else render_matter_page s content)"

text \<open>The loop over the matters: the files written and the entries of the index.\<close>

fun matter_pages ::
  "(CaseFileError \<Rightarrow> str) \<Rightarrow> hash \<Rightarrow> upper_table \<Rightarrow> (str \<Rightarrow> bool) \<Rightarrow> store \<Rightarrow> ProcurementMatter list \<Rightarrow>
   PublishError + (str \<times> str) list \<times> (str \<times> str \<times> CoverageState) list" where
  "matter_pages show_error sha upper writable s [] = Inr ([], [])"
| "matter_pages show_error sha upper writable s (m # ms) =
     (case build_content (pm_id m) s of
        Inl e \<Rightarrow> Inl (Procurement (show_error e))
      | Inr content \<Rightarrow>
          (case write_public upper writable (matter_path m) (matter_page_text sha upper s m content) of
             Inl e \<Rightarrow> Inl e
           | Inr file \<Rightarrow>
               (case matter_pages show_error sha upper writable s ms of
                  Inl e \<Rightarrow> Inl e
                | Inr (files, published) \<Rightarrow>
                    Inr (file # files,
                      (matter_slug (pm_id m), pm_title m, latest_coverage_state s content) # published))))"

definition build_procurement_site ::
  "(CaseFileError \<Rightarrow> str) \<Rightarrow> hash \<Rightarrow> upper_table \<Rightarrow> (str \<Rightarrow> bool) \<Rightarrow> store \<Rightarrow> str \<Rightarrow> PublishError + (str \<times> str) list" where
  "build_procurement_site show_error sha upper writable s canonical_base_url =
     (case matter_pages show_error sha upper writable s (sort_key pm_id (procurement_matters s)) of
        Inl e \<Rightarrow> Inl e
      | Inr (files, published) \<Rightarrow>
          (case write_public upper writable (lit ''co/procurement/index.html'') (render_index published) of
             Inl e \<Rightarrow> Inl e
           | Inr index \<Rightarrow>
               (case write_public upper writable (lit ''co/procurement/atom.xml'')
                   (render_procurement_atom s canonical_base_url) of
                  Inl e \<Rightarrow> Inl e
                | Inr atom \<Rightarrow> Inr (files @ [index, atom]))))"

section \<open>Lemmas\<close>

lemma approved_iff_no_reason:
  "assert_citations_approved sha s cs = Inr () \<longleftrightarrow>
     filter (pending_citation sha s) cs = [] \<and> filter (rejected_citation sha s) cs = [] \<and>
     filter (stale_citation sha s) cs = []"
  by (auto simp: assert_citations_approved_iff filter_empty_conv pending_citation_def rejected_citation_def
      stale_citation_def bound_to_def split: option.splits)

lemma gate_passes_iff:
  "\<not> pgr_withheld (evaluate_gate sha upper s c) \<longleftrightarrow>
     assert_citations_approved sha s (cfc_citations c) = Inr () \<and>
     publication_allowlist_allows s PROCUREMENT_CASEFILE_CATEGORY \<and> privacy_issues upper s c = []"
  by (simp add: evaluate_gate_def Let_def withhold_reasons_def count_reason_def approved_iff_no_reason)

lemma write_public_Inr:
  "write_public upper writable path content = Inr entry \<longleftrightarrow>
     entry = (path, content) \<and> validate_public_text upper content = Inr () \<and> writable path"
  by (auto simp: write_public_def split: sum.splits)

lemma matter_pages_Inr:
  "matter_pages show_error sha upper writable s ms = Inr (files, published) \<Longrightarrow>
     (\<exists>contents. map (\<lambda>m. build_content (pm_id m) s) ms = map Inr contents \<and>
        files = map (\<lambda>(m, content). (matter_path m, matter_page_text sha upper s m content)) (zip ms contents) \<and>
        length contents = length ms) \<and>
     list_all (\<lambda>(path, content). validate_public_text upper content = Inr ()) files \<and>
     map (\<lambda>(slug, title, _). (slug, title)) published = map (\<lambda>m. (matter_slug (pm_id m), pm_title m)) ms"
proof (induction ms arbitrary: files published)
  case (Cons m ms)
  obtain content where content: "build_content (pm_id m) s = Inr content"
    using Cons.prems by (auto split: sum.splits)
  obtain entry where entry: "write_public upper writable (matter_path m) (matter_page_text sha upper s m content) = Inr entry"
    using Cons.prems content by (auto split: sum.splits)
  obtain files' published' where rest: "matter_pages show_error sha upper writable s ms = Inr (files', published')"
    using Cons.prems content entry by (auto split: sum.splits)
  have eq: "files = entry # files'"
    "published = (matter_slug (pm_id m), pm_title m, latest_coverage_state s content) # published'"
    using Cons.prems content entry rest by simp_all
  obtain contents where "map (\<lambda>m. build_content (pm_id m) s) ms = map Inr contents"
    "files' = map (\<lambda>(m, content). (matter_path m, matter_page_text sha upper s m content)) (zip ms contents)"
    "length contents = length ms"
    using Cons.IH [OF rest] by blast
  then have "\<exists>contents. map (\<lambda>m. build_content (pm_id m) s) (m # ms) = map Inr contents \<and>
      files = map (\<lambda>(m, content). (matter_path m, matter_page_text sha upper s m content)) (zip (m # ms) contents) \<and>
      length contents = length (m # ms)"
    using entry eq content by (intro exI [of _ "content # contents"]) (simp add: write_public_Inr)
  then show ?case using Cons.IH [OF rest] entry eq by (simp add: write_public_Inr)
qed simp

text \<open>The page of a matter as the gate decides.\<close>

definition page_as_gated :: "hash \<Rightarrow> upper_table \<Rightarrow> store \<Rightarrow> ProcurementMatter \<Rightarrow> str \<Rightarrow> bool" where
  "page_as_gated sha upper s m content_text \<longleftrightarrow>
     (\<exists>c. build_content (pm_id m) s = Inr c \<and>
        (if assert_citations_approved sha s (cfc_citations c) = Inr () \<and>
            publication_allowlist_allows s PROCUREMENT_CASEFILE_CATEGORY \<and> privacy_issues upper s c = []
         then content_text = render_matter_page s c
         else content_text = withheld_page (pm_title m) (evaluate_gate sha upper s c)))"

lemma procurement_site_files:
  assumes "build_procurement_site show_error sha upper writable s url = Inr files"
  shows "list_all (\<lambda>(path, content). validate_public_text upper content = Inr ()) files \<and>
    (\<exists>pages index atom. files = zip (map matter_path (procurement_matters s)) pages @
        [(lit ''co/procurement/index.html'', index), (lit ''co/procurement/atom.xml'', atom)] \<and>
      list_all2 (page_as_gated sha upper s) (procurement_matters s) pages)"
proof -
  let ?ms = "procurement_matters s"
  have sorted: "sort_key pm_id ?ms = ?ms"
    by (simp add: procurement_matters_def sort_key_id_if_sorted)
  obtain pages published where pages: "matter_pages show_error sha upper writable s ?ms = Inr (pages, published)"
    using assms by (auto simp: build_procurement_site_def sorted split: sum.splits)
  obtain index atom where
    rest: "write_public upper writable (lit ''co/procurement/index.html'') (render_index published) = Inr index"
    "write_public upper writable (lit ''co/procurement/atom.xml'') (render_procurement_atom s url) = Inr atom"
    and files: "files = pages @ [index, atom]"
    using assms pages by (auto simp: build_procurement_site_def sorted split: sum.splits)
  obtain contents where contents: "map (\<lambda>m. build_content (pm_id m) s) ?ms = map Inr contents"
    "pages = map (\<lambda>(m, content). (matter_path m, matter_page_text sha upper s m content)) (zip ?ms contents)"
    "length contents = length ?ms"
    using matter_pages_Inr [OF pages] by blast
  let ?texts = "map (\<lambda>(m, content). matter_page_text sha upper s m content) (zip ?ms contents)"
  have "pages = zip (map matter_path ?ms) ?texts"
    using contents(3) by (auto simp: contents(2) list_eq_iff_nth_eq)
  moreover have "list_all2 (page_as_gated sha upper s) ?ms ?texts"
  proof (rule list_all2_all_nthI)
    show "length ?ms = length ?texts" using contents(3) by simp
  next
    fix i assume i: "i < length ?ms"
    then have "build_content (pm_id (?ms ! i)) s = Inr (contents ! i)"
      using arg_cong [OF contents(1), of "\<lambda>xs. xs ! i"] contents(3) by simp
    then show "page_as_gated sha upper s (?ms ! i) (?texts ! i)"
      using i contents(3) gate_passes_iff [of sha upper s "contents ! i"]
      by (auto simp: page_as_gated_def matter_page_text_def Let_def)
  qed
  ultimately show ?thesis
    using matter_pages_Inr [OF pages] rest files by (auto simp: write_public_Inr)
qed

section \<open>Properties\<close>

text \<open>
  The gate of a matter page is the citation gate of the site together with the allowlist and the privacy
  backstop, and \<open>all_pending\<close> reads the same verdict off the report.
\<close>

theorem matter_gate_is_the_publication_gate:
  "(pgr_withheld (evaluate_gate sha upper s c) \<longleftrightarrow> \<not> all_pending (evaluate_gate sha upper s c)) \<and>
   (all_pending (evaluate_gate sha upper s c) \<longleftrightarrow>
      assert_citations_approved sha s (cfc_citations c) = Inr () \<and>
      publication_allowlist_allows s PROCUREMENT_CASEFILE_CATEGORY \<and> privacy_issues upper s c = [])"
  using gate_passes_iff [of sha upper s c]
  by (simp add: all_pending_def evaluate_gate_def Let_def withhold_reasons_def count_reason_def approved_iff_no_reason)

text \<open>
  C37: Whatever the build writes has passed the privacy gate, and the page of every matter shows the case entry
  only if all its citations are approved, the category is allowed and no field is sensitive: otherwise it
  is the note that publication is withheld.
\<close>

theorem procurement_site_gated:
  assumes "build_procurement_site show_error sha upper writable s url = Inr files"
  shows "list_all (\<lambda>(path, content). validate_public_text upper content = Inr ()) files \<and>
    (\<exists>pages index atom. files = zip (map matter_path (procurement_matters s)) pages @
        [(lit ''co/procurement/index.html'', index), (lit ''co/procurement/atom.xml'', atom)] \<and>
      list_all2 (page_as_gated sha upper s) (procurement_matters s) pages)"
  using assms by (rule procurement_site_files)

text \<open>An empty store gives an index and a feed.\<close>

lemma no_at_no_email: "64 \<notin> set t \<Longrightarrow> \<not> email_scan before t"
  by (induction t arbitrary: before) auto

definition street_word :: "str \<Rightarrow> bool" where
  "street_word w \<longleftrightarrow> to_ascii_lowercase (trim_by (\<lambda>x. \<not> is_alphabetic x) w) \<in> set street_words"

lemma no_street_no_address: "\<not> list_ex street_word ws \<Longrightarrow> \<not> address_windows ws"
  by (induction ws rule: address_windows.induct) (auto simp: street_word_def)

lemma public_textI:
  assumes "64 \<notin> set t" "\<not> list_ex (str_contains (to_uppercase upper t)) (label_markers @ person_markers)"
    and "\<not> list_ex street_word (split_whitespace t)" "\<not> list_ex ssn_token (split_whitespace t)"
  shows "validate_public_text upper t = Inr ()"
proof -
  have "find (str_contains (to_uppercase upper t)) label_markers = None"
    using assms(2) by (auto simp: find_None_iff list_ex_iff)
  then show ?thesis
    using assms no_at_no_email no_street_no_address
    by (simp add: validate_public_text_def contains_email_def contains_person_identifier_def contains_street_address_def)
qed

lemma empty_tables:
  "all_procurement_alerts empty_store = []" "procurement_matters empty_store = []"
  by (simp_all add: all_procurement_alerts_def procurement_matters_def empty_store_def)

lemmas public_text_defs = lit_def tagged_def text_line_def long_dash_def to_uppercase_def ascii_table_def
  to_upper_def label_markers_def person_markers_def split_whitespace_def street_word_def street_words_def
  is_alphabetic_def to_lower_def trim_by_def trim_start_by_def trim_end_by_def ssn_token_def byte_len_def utf8_def char_class_defs

lemma empty_index_public: "validate_public_text ascii_table (render_index []) = Inr ()"
proof (rule public_textI)
  show "64 \<notin> set (render_index [])" by (simp add: render_index_def public_text_defs)
  show "\<not> list_ex (str_contains (to_uppercase ascii_table (render_index []))) (label_markers @ person_markers)"
    by (simp add: render_index_def public_text_defs)
  show "\<not> list_ex street_word (split_whitespace (render_index []))" by (simp add: render_index_def public_text_defs)
  show "\<not> list_ex ssn_token (split_whitespace (render_index []))" by (simp add: render_index_def public_text_defs)
qed

definition empty_feed :: str where
  "empty_feed = render_procurement_atom empty_store []"

lemma empty_feed_text:
  "empty_feed = text_line (lit ''<?xml version=\"1.0\" encoding=\"utf-8\"?>'') @
     lit ''<feed xmlns=\"http://www.w3.org/2005/Atom\"><id>/co/procurement/atom.xml</id><title>Panopticon Null'' @
     long_dash @ lit ''procurement</title><updated>1970-01-01T00:00:00Z</updated><link rel=\"self\" '' @
     lit ''href=\"/co/procurement/atom.xml\"/><subtitle>Public procurement ledger; not proof of absence.</subtitle>'' @
     text_line (lit ''</feed>'')"
  by (simp add: empty_feed_def render_procurement_atom_def empty_tables trim_slashes_def trim_end_by_def escape_xml_def
      escape_one_pass tagged_def lit_def)

lemma empty_feed_public: "validate_public_text ascii_table empty_feed = Inr ()"
proof (rule public_textI)
  show "64 \<notin> set empty_feed" by (simp add: empty_feed_text public_text_defs)
  show "\<not> list_ex (str_contains (to_uppercase ascii_table empty_feed)) (label_markers @ person_markers)"
    by (simp add: empty_feed_text public_text_defs)
  show "\<not> list_ex street_word (split_whitespace empty_feed)" by (simp add: empty_feed_text public_text_defs)
  show "\<not> list_ex ssn_token (split_whitespace empty_feed)" by (simp add: empty_feed_text public_text_defs)
qed

theorem procurement_site_gated_witness:
  "\<exists>files. build_procurement_site (\<lambda>_. []) id_hash ascii_table (\<lambda>_. True) empty_store [] = Inr files \<and>
     map fst files = [lit ''co/procurement/index.html'', lit ''co/procurement/atom.xml''] \<and>
     list_all (\<lambda>(path, content). validate_public_text ascii_table content = Inr ()) files"
proof -
  have "build_procurement_site (\<lambda>_. []) id_hash ascii_table (\<lambda>_. True) empty_store [] =
      Inr [(lit ''co/procurement/index.html'', render_index []), (lit ''co/procurement/atom.xml'', empty_feed)]"
    using empty_index_public empty_feed_public
    by (simp add: build_procurement_site_def empty_tables write_public_def flip: empty_feed_def)
  with procurement_site_gated [OF this] show ?thesis by auto
qed

section \<open>Where the pages do not follow the gates\<close>

text \<open>The feed has an entry for every matter and every change alert, whatever their gates say.\<close>

lemma feed_lists_every_matter:
  assumes "m \<in> set (procurement_matters s)"
  shows "\<exists>before after. render_procurement_atom s url = before @ matter_entry (trim_slashes url) m @ after"
proof -
  obtain ms ns where "sort_key pm_id (procurement_matters s) = ms @ m # ns"
    using assms by (metis set_sort split_list)
  then have "\<exists>before after. concat (map (matter_entry (trim_slashes url)) (sort_key pm_id (procurement_matters s))) =
      before @ matter_entry (trim_slashes url) m @ after"
    by simp blast
  then show ?thesis
    unfolding render_procurement_atom_def Let_def by (metis append.assoc)
qed

lemma feed_lists_every_alert:
  assumes "a \<in> set (all_procurement_alerts s)"
  shows "\<exists>before after. render_procurement_atom s url = before @ alert_entry (trim_slashes url) a @ after"
proof -
  obtain xs ys where "sort_key pa_id (all_procurement_alerts s) = xs @ a # ys"
    using assms by (metis set_sort split_list)
  then have "\<exists>before after. concat (map (alert_entry (trim_slashes url)) (sort_key pa_id (all_procurement_alerts s))) =
      before @ alert_entry (trim_slashes url) a @ after"
    by simp blast
  then show ?thesis
    unfolding render_procurement_atom_def Let_def by (metis append.assoc)
qed

text \<open>One matter whose note cannot be published, because its title is in it, stops the whole build.\<close>

lemma sensitive_title_stops_build:
  assumes "m \<in> set (procurement_matters s)" "build_content (pm_id m) s = Inr c"
    and "validate_public_text upper (matter_page_text sha upper s m c) = Inl e"
  shows "\<exists>e'. build_procurement_site show_error sha upper writable s url = Inl e'"
proof (rule ccontr)
  assume "\<not> ?thesis"
  then obtain files where "build_procurement_site show_error sha upper writable s url = Inr files"
    by (cases "build_procurement_site show_error sha upper writable s url") auto
  then obtain pages published where
    pages: "matter_pages show_error sha upper writable s (sort_key pm_id (procurement_matters s)) = Inr (pages, published)"
    by (auto simp: build_procurement_site_def split: sum.splits)
  have "\<exists>e'. matter_pages show_error sha upper writable s ms = Inl e'" if "m \<in> set ms" for ms
    using that
  proof (induction ms)
    case (Cons n ns)
    show ?case
    proof (cases "n = m")
      case True
      then show ?thesis using assms(2,3) by (simp add: write_public_def)
    next
      case False
      then show ?thesis using Cons by (auto split: sum.split)
    qed
  qed simp
  from this [of "sort_key pm_id (procurement_matters s)"] pages assms(1) show False by simp
qed

end
