(* ===== verification/Site.thy ===== *)
theory Site
  imports MatterPages
begin

text \<open>
  The static site (\<open>pnull-publish/src/lib.rs\<close>): the pages of alerts, diffs and evidence, the index pages,
  the Atom feed and the documents, built into a temporary directory that replaces the published one only
  when every file has passed the privacy gate.  The style sheet is an argument, as is the display of a
  float with one decimal, and so is what the file system answers to the steps of the replacement.
\<close>

section \<open>Documents\<close>

definition METHODOLOGY :: str where
  "METHODOLOGY =
     lit ''<p>Panopticon Null preserves the exact downloaded bytes, hashes them with SHA-256, extracts text under '' @
     lit ''resource limits, applies published rules, and stores exact line citations. Classification is deterministic. '' @
     lit ''A term match creates at most a mention unless a separate cited phrase establishes a stronger state.</p>'' @
     lit ''<h2>Observed, inferred, unknown</h2><ul><li><strong>Observed:</strong> exact text in a linked, hashed public '' @
     lit ''source.</li><li><strong>Inferred:</strong> a deterministic classification whose reason and source span are '' @
     lit ''shown.</li><li><strong>Unknown:</strong> facts the source does not establish, including legality, '' @
     lit ''implementation, effectiveness, or unstated terms.</li></ul><p>Differences are textual findings, not legal '' @
     lit ''conclusions. Possible policy discrepancies require human review.</p>''"

definition PRIVACY :: str where
  "PRIVACY =
     lit ''<p>Public availability does not automatically justify republishing personal data. Raw sensitive logs remain '' @
     lit ''local. Public output contains only what is necessary to establish institutional conduct. Plate numbers, '' @
     lit ''movement histories, home addresses, private identities, and sensitive free text are rejected or omitted.</p>'' @
     lit ''<p>This project monitors institutions and contracts, not private citizens. It creates no dossiers on '' @
     lit ''activists, officers, employees, or residents. It performs no facial recognition and no person-level movement '' @
     lit ''analysis.</p>''"

definition MANIFESTO :: str where
  "MANIFESTO =
     lit ''<blockquote><p>We think, therefore we are free. No corporation or state acquires moral title to the inner '' @
     lit ''life, movements, associations, or ordinary existence of a human person merely because technology makes '' @
     lit ''collection cheap.</p></blockquote><p>Panopticon Null opposes systems that convert ordinary life into permanent '' @
     lit ''dossiers. Surveillance thrives through secrecy, complexity, institutional inertia, and the assumption that '' @
     lit ''resistance is futile. We make it visible, legible, contestable, and politically expensive.</p><p>We do this '' @
     lit ''through lawful public records, reproducible analysis, source-linked evidence, privacy-preserving publication, '' @
     lit ''and free software available to everyone.</p>''"

definition LEGAL :: str where
  "LEGAL =
     lit ''<p>Lawfully dismantle the global surveillance panopticon by making every acquisition visible, every promise '' @
     lit ''permanent, every abuse provable, and every community capable of saying no.</p><ul><li>No unauthorized access, '' @
     lit ''bypass of controls, scraping of private systems, harassment, or doxxing.</li><li>No damaging, disabling, '' @
     lit ''evading, or interfering with equipment.</li><li>No surveillance of private people, facial recognition, or '' @
     lit ''movement analysis.</li><li>No claim that a textual difference is a legal violation.</li><li>No legal '' @
     lit ''conclusion; potential rule or policy discrepancies are for human review.</li></ul><p>The purpose is to '' @
     lit ''constrain the panopticon, not recreate it with different operators.</p>''"

section \<open>Pages\<close>

definition alert_item :: "Alert \<Rightarrow> str" where
  "alert_item a =
     lit ''<p class=\"state\">'' @ escape (finding_state_label (alt_state a)) @ lit ''</p><h2><a href=\"alerts/'' @
     safe_id (alt_id a) @ lit ''.html\">'' @ escape (alt_title a) @ lit ''</a></h2>'' @
     tagged ''p'' (escape (alt_summary a)) @ lit ''<p>'' @ tagged ''time'' (escape (alt_publication_date a)) @
     mid_dot_sep @ escape (alt_jurisdiction a) @ lit ''</p>''"

definition alerts_index :: "Alert list \<Rightarrow> bool \<Rightarrow> str" where
  "alerts_index als whole =
     lit ''<p class=\"declaration\">The machinery of mass surveillance depends on invisibility. '' @
     lit ''This project records what is purchased, what is promised, what changes, and who authorized it.</p>'' @
     (if als = [] then tagged ''p'' (lit ''No evidence-backed alerts have been generated.'')
      else lit ''<ol class=\"alerts\">'' @ item_lines (map alert_item (if whole then als else take 10 als)) @
        lit ''</ol>'')"

definition citations_html :: "Citation list \<Rightarrow> str" where
  "citations_html cs =
     lit ''<ol class=\"citations\">'' @
     item_lines (map (\<lambda>c. tagged ''blockquote'' (escape (cit_quote c)) @
       lit ''<p><a rel=\"external nofollow\" href=\"'' @ escape_attr (cit_source_url c) @ lit ''\">Official source</a>'' @
       mid_dot_sep @ lit ''<a href=\"../evidence/'' @ safe_id (cit_evidence_id c) @
       lit ''.html\">local hash and provenance</a>'' @ mid_dot_sep @ escape (loc_label (cit_locator c)) @ lit ''</p>'') cs) @
     lit ''</ol>''"

definition show_rect :: "(f64 \<Rightarrow> str) \<Rightarrow> BoundingRect \<Rightarrow> str" where
  "show_rect show_f64 r =
     lit ''['' @ show_f64 (rect_x_min r) @ lit '','' @ show_f64 (rect_y_min r) @ [32, 8594, 32] @
     show_f64 (rect_x_max r) @ lit '','' @ show_f64 (rect_y_max r) @ lit '']''"

definition alert_page_citation :: "(f64 \<Rightarrow> str) \<Rightarrow> PageCitation \<Rightarrow> str" where
  "alert_page_citation show_f64 c =
     tagged ''blockquote'' (escape (pc_quote c)) @ tagged ''p'' (lit ''Page '' @ show_nat (unat (pc_page_number c))) @
     tagged ''p'' (lit ''Bounding rects: '' @ escape (join (lit '', '') (map (show_rect show_f64) (pc_rects c)))) @
     lit ''<p>Text-map digest '' @ tagged ''code'' (escape (pc_text_map_digest c)) @ mid_dot_sep @
     lit ''evidence digest '' @ tagged ''code'' (escape (pc_evidence_digest c)) @ lit ''</p>''"

text \<open>The evidence of the alert and of its citations, sorted, each once.\<close>

definition cited_evidence :: "Alert \<Rightarrow> str list" where
  "cited_evidence a =
     (let ids = map cit_evidence_id (alt_citations a) in
      remdups_adj (sort (if alt_evidence_id a \<in> set ids then ids else ids @ [alt_evidence_id a])))"

definition page_citations_section :: "(f64 \<Rightarrow> str) \<Rightarrow> store \<Rightarrow> Alert \<Rightarrow> str" where
  "page_citations_section show_f64 s a =
     concat (map (\<lambda>eid.
       let approved = approved_page_citations s eid in
       if approved = [] then []
       else heading ''Page-accurate citations'' @ lit ''<ol class=\"page-citations\">'' @
         item_lines (map (alert_page_citation show_f64) approved) @ lit ''</ol>'') (cited_evidence a))"

definition citations_approved :: "store \<Rightarrow> str list \<Rightarrow> bool" where
  "citations_approved s ids = list_all (citation_id_approved s) ids"

definition known_label :: "bool \<Rightarrow> str" where
  "known_label known = (if known then lit ''known'' else lit ''unknown'')"

definition subject_line :: "Subject \<Rightarrow> str" where
  "subject_line x =
     text_line (lit ''<p>'' @ tagged ''strong'' (subject_kind_label (sub_kind x)) @ lit '' '' @ escape (sub_name x) @
       long_dash @ escape (sub_detail x) @ lit '' ('' @ known_label (sub_known x) @ lit '')</p>'')"

definition action_line :: "Action \<Rightarrow> str" where
  "action_line x =
     text_line (lit ''<p>'' @ tagged ''strong'' (action_kind_label (act_kind x)) @ lit '' '' @ escape (act_summary x) @
       lit '' ('' @ known_label (act_known x) @ lit '')</p>'')"

definition subjects_actions_section :: "store \<Rightarrow> Alert \<Rightarrow> str" where
  "subjects_actions_section s a =
     (if \<not> publication_allowlist_allows s (lit ''subject_action'') then []
      else
        let ms = matters_for_evidence s (alt_evidence_id a) in
        if ms = [] then []
        else heading ''Subjects and actions'' @
          concat (map (\<lambda>m.
            text_line (tagged ''h3'' (escape (mat_title m))) @
            concat (map subject_line (filter (\<lambda>x. citations_approved s (sub_citations x)) (subjects (mat_id m) s))) @
            concat (map action_line (filter (\<lambda>x. citations_approved s (act_citations x)) (actions (mat_id m) s)))) ms) @
          lit ''<p><em>This reports the subject and action stated in the preserved source; '' @
          lit ''it does not assert legality or an unrecorded relationship.</em></p>'')"

definition alert_page :: "(f64 \<Rightarrow> str) \<Rightarrow> store \<Rightarrow> Alert \<Rightarrow> str" where
  "alert_page show_f64 s a =
     lit ''<p class=\"state\">'' @ escape (finding_state_label (alt_state a)) @ lit ''</p>'' @
     tagged ''p'' (escape (alt_summary a)) @ lit ''<dl><dt>Jurisdiction</dt>'' @
     tagged ''dd'' (escape (alt_jurisdiction a)) @ lit ''<dt>Date</dt>'' @
     tagged ''dd'' (escape (alt_publication_date a)) @ lit ''<dt>Rules</dt>'' @
     tagged ''dd'' (escape (join (lit '', '') (alt_rule_ids a))) @ lit ''<dt>Rule-set provenance</dt>'' @
     tagged ''dd'' (lit ''version '' @ show_nat (unat (alt_rules_version a)) @ mid_dot_sep @
       tagged ''code'' (escape (alt_rules_digest a))) @ lit ''</dl>'' @ heading ''Exact citations'' @
     citations_html (alt_citations a) @
     text_line (lit ''<p><a href=\"../evidence/'' @ safe_id (alt_evidence_id a) @
       lit ''.html\">Evidence metadata and archived digest</a></p>'') @
     (if alt_diff a = None then []
      else text_line (lit ''<p><a href=\"../diffs/'' @ safe_id (alt_id a) @
        lit ''.html\">Human-readable evidence diff</a></p>'')) @
     page_citations_section show_f64 s a @ subjects_actions_section s a @
     lit ''<p><strong>Constraint:</strong> this alert reports what the cited source says. It does not establish '' @
     lit ''legality, implementation beyond the record, or effects not documented by the source.</p>''"

text \<open>The derived \<open>Debug\<close> texts.\<close>

fun source_type_debug :: "SourceType \<Rightarrow> str" where
  "source_type_debug OfficialApi = lit ''OfficialApi''"
| "source_type_debug SourceType.Agenda = lit ''Agenda''"
| "source_type_debug SourceType.Contract = lit ''Contract''"
| "source_type_debug SourceType.Amendment = lit ''Amendment''"
| "source_type_debug HtmlPage = lit ''HtmlPage''"
| "source_type_debug PlainText = lit ''PlainText''"
| "source_type_debug Pdf = lit ''Pdf''"

fun extraction_status_debug :: "ExtractionStatus \<Rightarrow> str" where
  "extraction_status_debug ExtractionStatus.Complete = lit ''Complete''"
| "extraction_status_debug CompleteWithOcr = lit ''CompleteWithOcr''"
| "extraction_status_debug ExtractionStatus.Failed = lit ''Failed''"
| "extraction_status_debug ExtractionStatus.Rejected = lit ''Rejected''"

definition definition_item :: "string \<Rightarrow> str \<Rightarrow> str" where
  "definition_item t d = tagged ''dt'' (lit t) @ tagged ''dd'' d"

definition evidence_page_citation :: "PageCitation \<Rightarrow> str" where
  "evidence_page_citation c =
     tagged ''blockquote'' (escape (pc_quote c)) @ tagged ''p'' (lit ''Page '' @ show_nat (unat (pc_page_number c))) @
     lit ''<p>Text-map digest '' @ tagged ''code'' (escape (pc_text_map_digest c)) @ mid_dot_sep @
     lit ''evidence digest '' @ tagged ''code'' (escape (pc_evidence_digest c)) @ mid_dot_sep @
     lit ''review status: approved</p>''"

definition evidence_page :: "store \<Rightarrow> EvidenceRecord \<Rightarrow> str" where
  "evidence_page s r =
     (let page_cits = approved_page_citations s (evr_id r) in
      lit ''<dl>'' @ definition_item ''Stable evidence identifier'' (tagged ''code'' (escape (evr_id r))) @
      definition_item ''Jurisdiction'' (escape (evr_jurisdiction r)) @
      definition_item ''Official source'' (lit ''<a rel=\"external nofollow\" href=\"'' @ escape_attr (evr_source_url r) @
        lit ''\">'' @ escape (evr_source_url r) @ lit ''</a>'') @
      definition_item ''Source type'' (source_type_debug (evr_source_type r)) @
      definition_item ''Publication date''
        (escape (case evr_publication_date r of None \<Rightarrow> lit ''Not stated'' | Some d \<Rightarrow> d)) @
      definition_item ''Retrieval timestamp'' (escape (evr_retrieval_timestamp r)) @
      definition_item ''MIME type'' (escape (evr_mime_type r)) @
      definition_item ''SHA-256 of original bytes'' (tagged ''code'' (escape (evr_sha256 r))) @
      definition_item ''Original filename'' (escape (evr_original_filename r)) @
      definition_item ''Extraction'' (escape (evr_extraction_method r) @ lit '' ('' @
        extraction_status_debug (evr_extraction_status r) @ lit '')'') @
      definition_item ''Supersedes'' (case evr_supersedes r of None \<Rightarrow> lit ''None''
        | Some i \<Rightarrow> lit ''<a href=\"'' @ safe_id i @ lit ''.html\">'' @ escape i @ lit ''</a>'') @
      definition_item ''Processing version'' (escape (evr_processing_version r)) @ lit ''</dl>'' @
      lit ''<p>The original is retained locally by content digest. Public output omits raw documents when '' @
      lit ''republication would expose unnecessary personal data.</p>'' @
      (if page_cits = [] then []
       else heading ''Page citations'' @ lit ''<ol class=\"page-citations\">'' @
         item_lines (map evidence_page_citation page_cits) @ lit ''</ol>''))"

definition diff_body :: "EvidenceDiff \<Rightarrow> str" where
  "diff_body d =
     text_line (lit ''<p><a href=\"../evidence/'' @ safe_id (edf_old_evidence_id d) @ lit ''.html\">Earlier evidence</a>'' @
       [32, 8594, 32] @ lit ''<a href=\"../evidence/'' @ safe_id (edf_new_evidence_id d) @
       lit ''.html\">Newer evidence</a></p>'') @
     lit ''<ul class=\"changes\">'' @
     item_lines (map (\<lambda>c. tagged ''strong'' (escape (replace_char 95 [32] (dch_kind c))) @ lit '': '' @
       escape (dch_summary c)) (edf_changes d)) @
     lit ''</ul>'' @ heading ''Textual differences'' @ lit ''<pre>'' @ escape (edf_unified_text d) @
     lit ''</pre><p>This records textual differences. It does not assert a legal violation.</p>''"

definition feed_entry :: "str \<Rightarrow> Alert \<Rightarrow> str" where
  "feed_entry base a =
     lit ''<entry>'' @ tagged ''id'' (escape_xml (alt_id a)) @ tagged ''title'' (escape_xml (alt_title a)) @
     tagged ''updated'' (escape_xml (alt_publication_date a) @ lit ''T00:00:00Z'') @ lit ''<link href=\"'' @
     escape_xml (base @ lit ''/alerts/'' @ safe_id (alt_id a) @ lit ''.html'') @ lit ''\"/>'' @
     tagged ''summary'' (escape_xml (alt_summary a)) @ lit ''<category term=\"'' @
     escape_xml (finding_state_label (alt_state a)) @ lit ''\"/></entry>''"

definition atom_feed :: "Alert list \<Rightarrow> str \<Rightarrow> str" where
  "atom_feed als base_url =
     (let base = trim_slashes base_url;
          updated = (case als of [] \<Rightarrow> lit ''1970-01-01'' | a # _ \<Rightarrow> alt_publication_date a) in
      text_line (lit ''<?xml version=\"1.0\" encoding=\"utf-8\"?>'') @
      lit ''<feed xmlns=\"http://www.w3.org/2005/Atom\">'' @ tagged ''id'' (escape_xml base) @
      tagged ''title'' (lit ''Panopticon Null'' @ long_dash @ lit ''Colorado alerts'') @
      tagged ''updated'' (escape_xml updated @ lit ''T00:00:00Z'') @ lit ''<link rel=\"self\" href=\"'' @
      escape_xml base @ lit ''/atom.xml\"/>'' @ tagged ''subtitle'' (lit ''No human being is born to be indexed.'') @
      concat (map (feed_entry base) als) @ text_line (lit ''</feed>''))"

section \<open>The build\<close>

record site_config =
  sc_canonical_base_url :: str
  sc_rules_yaml :: str

definition alert_path :: "Alert \<Rightarrow> str" where
  "alert_path a = lit ''alerts/'' @ safe_id (alt_id a) @ lit ''.html''"

definition diff_path :: "Alert \<Rightarrow> str" where
  "diff_path a = lit ''diffs/'' @ safe_id (alt_id a) @ lit ''.html''"

definition alert_files :: "(f64 \<Rightarrow> str) \<Rightarrow> store \<Rightarrow> Alert \<Rightarrow> (str \<times> str) list" where
  "alert_files show_f64 s a =
     (alert_path a, page (alt_title a) (alert_page show_f64 s a) (lit ''../'')) #
     (case alt_diff a of None \<Rightarrow> []
      | Some d \<Rightarrow> [(diff_path a, page (lit ''Evidence diff'') (diff_body d) (lit ''../''))])"

definition evidence_file :: "store \<Rightarrow> EvidenceRecord \<times> str \<Rightarrow> str \<times> str" where
  "evidence_file s x =
     (lit ''evidence/'' @ safe_id (evr_id (fst x)) @ lit ''.html'',
      page (evr_document_title (fst x)) (evidence_page s (fst x)) (lit ''../''))"

definition root_documents :: "site_config \<Rightarrow> Alert list \<Rightarrow> (str \<times> str) list" where
  "root_documents config als =
     map (\<lambda>(filename, title, body). (lit filename, page (lit title) body []))
       [(''methodology.html'', ''Methodology'', METHODOLOGY), (''privacy.html'', ''Data and privacy policy'', PRIVACY),
        (''manifesto.html'', ''Manifesto'', MANIFESTO), (''legal.html'', ''Legal and ethical boundaries'', LEGAL)] @
     [(lit ''rules.html'', page (lit ''Rule taxonomy'')
         (lit ''<p>Rules are deterministic and reviewable. A keyword alone does not establish a purchase.</p><pre>'' @
          escape (sc_rules_yaml config) @ lit ''</pre>'') []),
      (lit ''atom.xml'', atom_feed als (sc_canonical_base_url config))]"

definition approved_alerts :: "hash \<Rightarrow> store \<Rightarrow> Alert list" where
  "approved_alerts sha s = filter (\<lambda>a. assert_citations_approved sha s (alt_citations a) = Inr ()) (alerts s)"

definition site_files :: "(f64 \<Rightarrow> str) \<Rightarrow> str \<Rightarrow> hash \<Rightarrow> site_config \<Rightarrow> store \<Rightarrow> (str \<times> str) list" where
  "site_files show_f64 style_css sha config s =
     (let approved = approved_alerts sha s in
      [(lit ''style.css'', style_css),
       (lit ''index.html'', page (lit ''Current alerts'') (alerts_index approved False) []),
       (lit ''history.html'', page (lit ''Alert history'') (alerts_index approved True) [])] @
      concat (map (alert_files show_f64 s) approved) @ map (evidence_file s) (all_evidence s) @
      root_documents config approved)"

fun write_files :: "upper_table \<Rightarrow> (str \<Rightarrow> bool) \<Rightarrow> (str \<times> str) list \<Rightarrow> PublishError + (str \<times> str) list" where
  "write_files upper writable [] = Inr []"
| "write_files upper writable ((path, content) # files) =
     (case write_public upper writable path content of
        Inl e \<Rightarrow> Inl e
      | Inr x \<Rightarrow> (case write_files upper writable files of Inl e \<Rightarrow> Inl e | Inr xs \<Rightarrow> Inr (x # xs)))"

definition build_site_in ::
  "(CaseFileError \<Rightarrow> str) \<Rightarrow> (f64 \<Rightarrow> str) \<Rightarrow> str \<Rightarrow> hash \<Rightarrow> upper_table \<Rightarrow> (str \<Rightarrow> bool) \<Rightarrow> site_config \<Rightarrow> store \<Rightarrow>
   PublishError + (str \<times> str) list" where
  "build_site_in show_error show_f64 style_css sha upper writable config s =
     (case validate_references (alerts s) (all_evidence s) of
        Inl e \<Rightarrow> Inl e
      | Inr _ \<Rightarrow>
          (case write_files upper writable (site_files show_f64 style_css sha config s) of
             Inl e \<Rightarrow> Inl e
           | Inr files \<Rightarrow>
               (case build_procurement_site show_error sha upper writable s (sc_canonical_base_url config) of
                  Inl e \<Rightarrow> Inl e
                | Inr procurement_files \<Rightarrow> Inr (files @ procurement_files))))"

text \<open>
  What the file system answers: whether the temporary directory could be cleared and created; how the removal of
  the published directory ends, which when it fails may have removed any part of it (a directory that is not
  there counts as removed); and whether the temporary directory could be renamed.
\<close>

datatype removal = Removed | Remaining "str \<Rightarrow> bool"

record replace_io =
  rio_prepared :: bool
  rio_removal :: removal
  rio_renamed :: bool

text \<open>
  \<open>build_site\<close>: the published directory is a map from path to content.  The new site is written to the temporary
  directory, where a path written twice has the later content; then the published directory is removed, and then
  the temporary one is renamed.  If the removal or the renaming fails the published files are gone, or some of
  them.  What is left in the temporary directory is not modelled: it is cleared first.  The two directories are
  taken to be different, as they are unless the name of the output has the extension \<open>pnull-building\<close> or is missing.
\<close>

definition build_site ::
  "(CaseFileError \<Rightarrow> str) \<Rightarrow> (f64 \<Rightarrow> str) \<Rightarrow> str \<Rightarrow> hash \<Rightarrow> upper_table \<Rightarrow> (str \<Rightarrow> bool) \<Rightarrow> replace_io \<Rightarrow> site_config \<Rightarrow>
   store \<Rightarrow> (str \<rightharpoonup> str) \<Rightarrow> (PublishError + str list) \<times> (str \<rightharpoonup> str)" where
  "build_site show_error show_f64 style_css sha upper writable io config s published =
     (if \<not> rio_prepared io then (Inl PublishError.Io, published)
      else
        case build_site_in show_error show_f64 style_css sha upper writable config s of
          Inl e \<Rightarrow> (Inl e, published)
        | Inr files \<Rightarrow>
            (case rio_removal io of
               Remaining kept \<Rightarrow> (Inl PublishError.Io, \<lambda>path. if kept path then published path else None)
             | Removed \<Rightarrow>
                 if \<not> rio_renamed io then (Inl PublishError.Io, Map.empty)
                 else (Inr (sort (map fst files)), map_of (rev files))))"

section \<open>Lemmas\<close>

definition public_files :: "upper_table \<Rightarrow> (str \<times> str) list \<Rightarrow> bool" where
  "public_files upper files = list_all (\<lambda>(path, content). validate_public_text upper content = Inr ()) files"

lemma write_files_Inr: "write_files upper writable files = Inr xs \<Longrightarrow> xs = files \<and> public_files upper files"
  by (induction files arbitrary: xs)
     (auto simp: write_public_Inr public_files_def split: sum.splits)

lemma build_site_in_Inr:
  assumes "build_site_in show_error show_f64 style_css sha upper writable config s = Inr files"
  obtains procurement_files where
    "files = site_files show_f64 style_css sha config s @ procurement_files"
    "public_files upper files"
    "build_procurement_site show_error sha upper writable s (sc_canonical_base_url config) = Inr procurement_files"
    "validate_references (alerts s) (all_evidence s) = Inr ()"
proof -
  obtain own where own: "write_files upper writable (site_files show_f64 style_css sha config s) = Inr own"
    and refs: "validate_references (alerts s) (all_evidence s) = Inr ()"
    using assms by (auto simp: build_site_in_def split: sum.splits)
  then obtain ps where ps: "build_procurement_site show_error sha upper writable s (sc_canonical_base_url config) = Inr ps"
    and files: "files = own @ ps"
    using assms by (auto simp: build_site_in_def split: sum.splits)
  have "own = site_files show_f64 style_css sha config s \<and> public_files upper own"
    using write_files_Inr [OF own] by blast
  moreover have "public_files upper ps"
    using procurement_site_files [OF ps] by (simp add: public_files_def)
  ultimately have "files = site_files show_f64 style_css sha config s @ ps" "public_files upper files"
    using files by (auto simp: public_files_def)
  then show thesis using ps refs by (rule that)
qed

lemma procurement_path:
  assumes "build_procurement_site show_error sha upper writable s url = Inr files" "(path, content) \<in> set files"
  shows "starts_with path (lit ''co/procurement/'')"
proof -
  have "path \<in> set (map matter_path (procurement_matters s)) \<or>
      path \<in> {lit ''co/procurement/index.html'', lit ''co/procurement/atom.xml''}"
    using procurement_site_files [OF assms(1)] assms(2)
    by (auto simp del: set_map dest!: set_zip_leftD)
  then show ?thesis by (auto simp: matter_path_def lit_def starts_with_iff)
qed

lemma other_paths:
  "\<not> starts_with (diff_path a) (lit ''alerts/'')"
  "\<not> starts_with (fst (evidence_file s x)) (lit ''alerts/'')"
  "starts_with path (lit ''co/procurement/'') \<Longrightarrow> \<not> starts_with path (lit ''alerts/'')"
  by (auto simp: diff_path_def evidence_file_def lit_def starts_with_iff)

lemma alert_files_in:
  "(path, content) \<in> set (site_files show_f64 style_css sha config s) \<Longrightarrow> starts_with path (lit ''alerts/'') \<Longrightarrow>
     \<exists>a \<in> set (approved_alerts sha s). path = alert_path a \<and>
       content = page (alt_title a) (alert_page show_f64 s a) (lit ''../'')"
  using other_paths(1,2)
  by (auto simp: site_files_def alert_files_def root_documents_def Let_def lit_def split: option.splits)
     (metis fst_conv)+

lemma build_site_content:
  assumes "build_site show_error show_f64 style_css sha upper writable io config s published = (Inr paths, site)"
    and "site path = Some content"
  obtains files where "build_site_in show_error show_f64 style_css sha upper writable config s = Inr files"
    "(path, content) \<in> set files"
proof -
  obtain files where files: "build_site_in show_error show_f64 style_css sha upper writable config s = Inr files"
    "site = map_of (rev files)"
    using assms(1) by (auto simp: build_site_def split: sum.splits if_splits removal.splits)
  then have "(path, content) \<in> set files" using assms(2) map_of_SomeD [of "rev files"] by simp
  with files(1) show thesis by (rule that)
qed

text \<open>A build brings no file to the site that has not passed the gate.\<close>

lemma build_site_files:
  assumes "build_site show_error show_f64 style_css sha upper writable io config s published = (r, site)"
    and "site path = Some content"
  shows "published path = Some content \<or> validate_public_text upper content = Inr ()"
proof (cases r)
  case (Inl e)
  then show ?thesis using assms by (auto simp: build_site_def split: if_splits sum.splits removal.splits)
next
  case (Inr paths)
  obtain files where "build_site_in show_error show_f64 style_css sha upper writable config s = Inr files"
    "(path, content) \<in> set files"
    using assms(1) [unfolded Inr] assms(2) by (rule build_site_content)
  moreover from this(1) have "public_files upper files" by (rule build_site_in_Inr)
  ultimately show ?thesis by (auto simp: public_files_def list_all_iff)
qed

section \<open>Properties\<close>

text \<open>
  C38: After a successful build every file of the published site has passed the privacy gate, the paths reported
  are those of the site, and every reference to evidence is resolved.  A build that fails publishes nothing new:
  every file there is was published before.  It leaves the site as it was when it is a reference, the gate or
  the writing of a file that fails; only when the whole new site has passed and the replacement itself fails are
  published files lost: those a failed removal has taken, or all of them when it is the renaming that fails.
\<close>

theorem published_site_is_public:
  "case build_site show_error show_f64 style_css sha upper writable io config s published of
     (Inr paths, site) \<Rightarrow>
       {content. \<exists>path. site path = Some content} \<subseteq> {content. validate_public_text upper content = Inr ()} \<and>
       set paths = dom site \<and> validate_references (alerts s) (all_evidence s) = Inr ()
   | (Inl e, site) \<Rightarrow>
       site \<subseteq>\<^sub>m published \<and>
       (site = published \<or>
        (\<exists>files. build_site_in show_error show_f64 style_css sha upper writable config s = Inr files \<and>
           {content. \<exists>path. (path, content) \<in> set files} \<subseteq> {content. validate_public_text upper content = Inr ()} \<and>
           (case rio_removal io of
              Remaining kept \<Rightarrow> site = published |` {path. kept path}
            | Removed \<Rightarrow> rio_renamed io = False \<and> site = Map.empty)))"
proof (cases "rio_prepared io")
  case prepared: True
  show ?thesis
  proof (cases "build_site_in show_error show_f64 style_css sha upper writable config s")
    case (Inl e)
    then show ?thesis by (simp add: build_site_def)
  next
    case (Inr files)
    then have passed: "public_files upper files" "validate_references (alerts s) (all_evidence s) = Inr ()"
      by (auto elim: build_site_in_Inr)
    have "dom (map_of (rev files)) = fst ` set files" by (simp add: dom_map_of_conv_image_fst)
    then show ?thesis
      using passed by (cases "rio_removal io")
        (auto simp: build_site_def prepared Inr public_files_def list_all_iff map_le_def dom_def restrict_map_def fun_eq_iff
              dest!: map_of_SomeD)
  qed
qed (simp add: build_site_def)

text \<open>
  The published site is removed before the new one takes its place, so when the renaming fails there is none.
\<close>

lemma failed_renaming_loses_site:
  assumes "build_site_in show_error show_f64 style_css sha upper writable config s = Inr files"
    and "rio_prepared io" "rio_removal io = Removed" "\<not> rio_renamed io"
  shows "build_site show_error show_f64 style_css sha upper writable io config s published = (Inl PublishError.Io, Map.empty)"
  using assms by (simp add: build_site_def)

text \<open>
  C39: The page of an alert is written exactly when all its citations pass the citation gate: the files under
  \<open>alerts/\<close> are the pages of the alerts of the store that do.
\<close>

theorem alert_pages_are_approved:
  "Set.filter (\<lambda>f. starts_with (fst f) (lit ''alerts/'')) (set (site_files show_f64 style_css sha config s)) =
     (\<lambda>a. (alert_path a, page (alt_title a) (alert_page show_f64 s a) (lit ''../''))) `
       {a. a \<in> set (alerts s) \<and> assert_citations_approved sha s (alt_citations a) = Inr ()}"
proof (intro equalityI subsetI)
  fix x assume "x \<in> Set.filter (\<lambda>f. starts_with (fst f) (lit ''alerts/'')) (set (site_files show_f64 style_css sha config s))"
  then have "(fst x, snd x) \<in> set (site_files show_f64 style_css sha config s)" "starts_with (fst x) (lit ''alerts/'')"
    by simp_all
  from alert_files_in [OF this] obtain a where "a \<in> set (approved_alerts sha s)"
    "x = (alert_path a, page (alt_title a) (alert_page show_f64 s a) (lit ''../''))"
    by (metis prod.collapse)
  then show "x \<in> (\<lambda>a. (alert_path a, page (alt_title a) (alert_page show_f64 s a) (lit ''../''))) `
       {a. a \<in> set (alerts s) \<and> assert_citations_approved sha s (alt_citations a) = Inr ()}"
    by (auto simp: approved_alerts_def)
next
  fix x assume "x \<in> (\<lambda>a. (alert_path a, page (alt_title a) (alert_page show_f64 s a) (lit ''../''))) `
       {a. a \<in> set (alerts s) \<and> assert_citations_approved sha s (alt_citations a) = Inr ()}"
  then obtain a where a: "a \<in> set (approved_alerts sha s)"
    "x = (alert_path a, page (alt_title a) (alert_page show_f64 s a) (lit ''../''))"
    by (auto simp: approved_alerts_def)
  then have "x \<in> set (site_files show_f64 style_css sha config s)"
    by (auto simp: site_files_def alert_files_def Let_def)
  moreover have "starts_with (fst x) (lit ''alerts/'')" by (simp add: a(2) alert_path_def starts_with_iff)
  ultimately show "x \<in> Set.filter (\<lambda>f. starts_with (fst f) (lit ''alerts/'')) (set (site_files show_f64 style_css sha config s))"
    by simp
qed

text \<open>So on the published site too.\<close>

lemma published_alert_page:
  assumes "build_site show_error show_f64 style_css sha upper writable io config s published = (Inr paths, site)"
    and "site path = Some content" "starts_with path (lit ''alerts/'')"
  shows "\<exists>a \<in> set (alerts s). assert_citations_approved sha s (alt_citations a) = Inr () \<and>
    path = alert_path a \<and> content = page (alt_title a) (alert_page show_f64 s a) (lit ''../'')"
proof -
  obtain files where files: "build_site_in show_error show_f64 style_css sha upper writable config s = Inr files"
    "(path, content) \<in> set files" using assms(1,2) by (rule build_site_content)
  obtain ps where parts: "files = site_files show_f64 style_css sha config s @ ps"
    and ps: "build_procurement_site show_error sha upper writable s (sc_canonical_base_url config) = Inr ps"
    using files(1) by (rule build_site_in_Inr)
  have "(path, content) \<notin> set ps" using procurement_path [OF ps] other_paths(3) assms(3) by blast
  then have "(path, content) \<in> set (site_files show_f64 style_css sha config s)" using files(2) parts by simp
  from alert_files_in [OF this assms(3)] show ?thesis by (auto simp: approved_alerts_def)
qed

text \<open>
  A subject that refers to no citation is shown without any review as soon as the category is allowed: the
  check that all its citations are approved holds vacuously.
\<close>

lemma uncited_subject_is_shown:
  assumes "sub_citations x = []"
  shows "citations_approved s (sub_citations x)"
  using assms by (simp add: citations_approved_def)

text \<open>
  For a page citation or a subject the gate looks at the state of the review only, not at the content it
  was bound to.
\<close>

lemma approval_of_other_content_counts:
  assumes "current_review i s = Some d" "rev_state d = ReviewState.Approved"
  shows "citations_approved s [i]"
  using assms by (simp add: citations_approved_def citation_id_approved_def)

text \<open>Two alerts whose identifiers have the same file name share a page, and the later one wins.\<close>

lemma alert_paths_collide:
  "alt_id a = lit ''alert:x'' \<Longrightarrow> alt_id b = lit ''alert_x'' \<Longrightarrow> alert_path a = alert_path b"
  by (simp add: alert_path_def safe_id_def lit_def char_class_defs)

end
