(* ===== verification/Awards.thy ===== *)
theory Awards
  imports Identifiers
begin

text \<open>
  The contract-award table (\<open>pnull-procurement/src/awards.rs\<close>) and the matters that ingested records are
  attached to (\<open>matters.rs\<close>).  The HTML library is an argument: what is used of it is the rows of the
  first table as lists of cells, each the list of its text nodes.
\<close>

section \<open>The award table\<close>

datatype AwardsError =
  TableNotFound
| UnexpectedColumns str
| UnexpectedCellCount nat nat

record AwardRow =
  aw_row_index :: nat
  aw_solicitation_id :: str
  aw_project_name :: str
  aw_contractor :: str
  aw_raw_amount :: str
  aw_amount :: MoneyValue
  aw_start_date :: str
  aw_notes :: str
  aw_authority :: SourceAuthority
  aw_coverage_state :: CoverageState
  aw_snapshot_digest :: str
  aw_normalized_solicitation_id :: "str option"

type_synonym table_reader = "str \<Rightarrow> str list list list option"

definition normalize_cell_text :: "str \<Rightarrow> str" where
  "normalize_cell_text t = trim (join [32] (split_whitespace t))"

definition award_row_of :: "str \<Rightarrow> nat \<Rightarrow> str list \<Rightarrow> AwardRow" where
  "award_row_of snapshot_digest i cells =
     \<lparr>aw_row_index = i, aw_solicitation_id = cells ! 0, aw_project_name = cells ! 1,
      aw_contractor = cells ! 2, aw_raw_amount = cells ! 3, aw_amount = parse_money (cells ! 3),
      aw_start_date = cells ! 4, aw_notes = cells ! 5, aw_authority = OfficialInformationalMirror,
      aw_coverage_state = InformationalOnly, aw_snapshot_digest = snapshot_digest,
      aw_normalized_solicitation_id = map_option fst (normalize_identifier (cells ! 0))\<rparr>"

fun award_rows :: "str \<Rightarrow> bool \<Rightarrow> nat \<Rightarrow> str list list \<Rightarrow> AwardsError + AwardRow list" where
  "award_rows digest header_seen i [] = Inr []"
| "award_rows digest header_seen i (cells # rest) =
     (if cells = [] then award_rows digest header_seen i rest
      else if \<not> header_seen then
        if \<not> (eq_ignore_ascii_case (cells ! 0) (lit ''RFP/IFB Number'') \<or> str_contains (cells ! 0) (lit ''RFP/IFB'')) \<or>
           length cells \<noteq> 6
        then Inl (UnexpectedColumns (join (lit '' | '') cells))
        else award_rows digest True i rest
      else if length cells < 6 then Inl (UnexpectedCellCount i (length cells))
      else
        case award_rows digest True (Suc i) rest of
          Inl e \<Rightarrow> Inl e
        | Inr rows \<Rightarrow> Inr (award_row_of digest i (take 6 cells) # rows))"

definition parse_awards_table :: "table_reader \<Rightarrow> str \<Rightarrow> str \<Rightarrow> AwardsError + AwardRow list" where
  "parse_awards_table select_rows html snapshot_digest =
     (case select_rows html of
        None \<Rightarrow> Inl TableNotFound
      | Some rows \<Rightarrow>
          award_rows snapshot_digest False 0
            (map (map (\<lambda>nodes. normalize_cell_text (join [32] nodes))) rows))"

definition classify_identifier :: "str \<Rightarrow> IdentifierKind" where
  "classify_identifier raw =
     (let upper = to_ascii_uppercase raw in
      if starts_with upper (lit ''RFP'') then IdentifierKind.Rfp
      else if starts_with upper (lit ''RFQ'') then IdentifierKind.Rfq
      else if starts_with upper (lit ''IFB'') \<or> starts_with upper (lit ''B'') then IdentifierKind.Ifb
      else if starts_with upper (lit ''R'') \<or> starts_with upper (lit ''Q'') then IdentifierKind.SolicitationNumber
      else IdentifierKind.Unknown)"

definition award_source :: str where
  "award_source = lit ''colorado-springs-contract-awards''"

definition award_organization :: "hash \<Rightarrow> str \<Rightarrow> str \<Rightarrow> ProcurementOrganization" where
  "award_organization sha matter_id contractor =
     \<lparr>org_id = organization_id_for sha matter_id OrganizationRole.AwardedContractor contractor,
      org_matter_id = matter_id, org_role = OrganizationRole.AwardedContractor, org_raw_name = contractor,
      org_source_id = award_source, org_normalized_alias = organization_alias_candidate contractor,
      org_alias_reviewed = False\<rparr>"

section \<open>Matters of ingested records\<close>

definition matter_id_for_identifier :: "str \<Rightarrow> str" where
  "matter_id_for_identifier normalized = lit ''proc:matter:co:'' @ to_ascii_lowercase normalized"

definition identifier_for :: "hash \<Rightarrow> str \<Rightarrow> IdentifierKind \<Rightarrow> str \<Rightarrow> str \<Rightarrow> ProcurementIdentifier" where
  "identifier_for sha matter_id kind raw source_id =
     \<lparr>pid_id = identifier_id_for sha matter_id kind raw, pid_matter_id = matter_id, pid_kind = kind,
      pid_raw = raw, pid_source_id = source_id, pid_normalized = map_option fst (normalize_identifier raw),
      pid_normalization_rule = map_option snd (normalize_identifier raw), pid_known = False\<rparr>"

definition award_identifier :: "hash \<Rightarrow> str \<Rightarrow> str \<Rightarrow> ProcurementIdentifier option" where
  "award_identifier sha matter_id solicitation_id =
     (if trim solicitation_id = [] then None
      else Some (identifier_for sha matter_id (classify_identifier solicitation_id) solicitation_id award_source))"

definition JURISDICTION :: str where
  "JURISDICTION = lit ''Colorado Springs''"

definition ensure_matter :: "str \<Rightarrow> str \<Rightarrow> (CoreError, bool) op" where
  "ensure_matter matter_id title =
     stmt id (insert_procurement_matter
       \<lparr>pm_id = matter_id, pm_jurisdiction = JURISDICTION, pm_title = title, pm_review_state = lit ''draft'',
        pm_publication_state = lit ''unpublished''\<rparr>)"

definition award_event ::
  "hash \<Rightarrow> str \<Rightarrow> str \<Rightarrow> str \<Rightarrow> str \<Rightarrow> str \<Rightarrow> str list \<Rightarrow> ProcurementEvent" where
  "award_event sha matter_id identifier_id source_id start_date summary evidence_ids =
     (let date_key = (if trim start_date = [] then lit ''date unknown'' else start_date) in
      \<lparr>ev_id = event_id_for sha matter_id AwardAnnounced date_key summary, ev_matter_id = matter_id,
       ev_kind = AwardAnnounced, ev_date = Some start_date, ev_summary = summary,
       ev_identifier_ids = [identifier_id], ev_evidence_ids = evidence_ids, ev_source_id = source_id\<rparr>)"

definition insert_award_event ::
  "hash \<Rightarrow> str \<Rightarrow> str \<Rightarrow> str \<Rightarrow> str \<Rightarrow> str \<Rightarrow> str list \<Rightarrow> (CoreError, bool) op" where
  "insert_award_event sha matter_id identifier_id source_id start_date summary evidence_ids =
     stmt id (insert_procurement_event
       (award_event sha matter_id identifier_id source_id start_date summary evidence_ids))"

definition solicitation_event :: "hash \<Rightarrow> str \<Rightarrow> str \<Rightarrow> str \<Rightarrow> str \<Rightarrow> str list \<Rightarrow> ProcurementEvent" where
  "solicitation_event sha matter_id identifier_id source_id summary evidence_ids =
     \<lparr>ev_id = event_id_for sha matter_id SolicitationPublished (lit ''date unknown'') summary,
      ev_matter_id = matter_id, ev_kind = SolicitationPublished, ev_date = None, ev_summary = summary,
      ev_identifier_ids = [identifier_id], ev_evidence_ids = evidence_ids, ev_source_id = source_id\<rparr>"

definition insert_solicitation_event ::
  "hash \<Rightarrow> str \<Rightarrow> str \<Rightarrow> str \<Rightarrow> str \<Rightarrow> str list \<Rightarrow> (CoreError, bool) op" where
  "insert_solicitation_event sha matter_id identifier_id source_id summary evidence_ids =
     stmt id (insert_procurement_event
       (solicitation_event sha matter_id identifier_id source_id summary evidence_ids))"

definition insert_awarded_contractor :: "hash \<Rightarrow> str \<Rightarrow> str \<Rightarrow> str \<Rightarrow> (CoreError, bool) op" where
  "insert_awarded_contractor sha matter_id contractor source_id =
     (if trim contractor = [] then return_op False
      else stmt id (insert_procurement_organization
        ((award_organization sha matter_id contractor)\<lparr>org_source_id := source_id\<rparr>)))"

definition award_amount :: "str \<Rightarrow> MoneyValue" where
  "award_amount raw = parse_money raw"

definition award_title :: "AwardRow \<Rightarrow> str" where
  "award_title row =
     (if trim (aw_project_name row) = []
      then aw_solicitation_id row @ [32, 8212, 32] @ lit ''ingested award record''
      else aw_solicitation_id row @ [32, 8212, 32] @ aw_project_name row @ lit '' (ingested award record)'')"

definition award_summary :: "AwardRow \<Rightarrow> str" where
  "award_summary row =
     lit ''Award announced for '' @ aw_solicitation_id row @ lit '' ('' @ aw_project_name row @
     lit ''); raw awarded amount '' @ [39] @ aw_raw_amount row @ [39]"

definition award_matter_id :: "AwardRow \<Rightarrow> str" where
  "award_matter_id row =
     matter_id_for_identifier
       (case aw_normalized_solicitation_id row of
          Some n \<Rightarrow> n
        | None \<Rightarrow> (case normalize_identifier (aw_solicitation_id row) of
                     Some (k, _) \<Rightarrow> k | None \<Rightarrow> aw_solicitation_id row))"

definition attach_award_row :: "hash \<Rightarrow> AwardRow \<Rightarrow> str list \<Rightarrow> (CoreError, str) op" where
  "attach_award_row sha row evidence_ids =
     (let matter_id = award_matter_id row;
          identifier = identifier_for sha matter_id (classify_identifier (aw_solicitation_id row))
            (aw_solicitation_id row) award_source in
      bind_op (ensure_matter matter_id (award_title row)) (\<lambda>_.
      bind_op (stmt id (insert_procurement_identifier identifier)) (\<lambda>_.
      bind_op (if trim (aw_contractor row) \<noteq> []
               then insert_awarded_contractor sha matter_id (aw_contractor row) award_source
               else return_op False) (\<lambda>_.
      bind_op (insert_award_event sha matter_id (pid_id identifier) award_source (aw_start_date row)
                 (award_summary row) evidence_ids) (\<lambda>_.
      return_op matter_id)))))"

record SolicitationRecord =
  sol_title :: str
  sol_identifier :: str
  sol_identifier_kind :: IdentifierKind
  sol_linked_documents :: "str list"
  sol_authority :: SourceAuthority
  sol_coverage_state :: CoverageState
  sol_incompleteness_warning :: str
  sol_snapshot_digest :: str

definition solicitation_source :: str where
  "solicitation_source = lit ''colorado-springs-solicitation-mirror''"

definition attach_solicitation_record ::
  "hash \<Rightarrow> SolicitationRecord \<Rightarrow> str list \<Rightarrow> (CoreError, str option) op" where
  "attach_solicitation_record sha r evidence_ids =
     (if trim (sol_identifier r) = [] then return_op None
      else
        case normalize_identifier (sol_identifier r) of
          None \<Rightarrow> return_op None
        | Some (normalized, _) \<Rightarrow>
            let matter_id = matter_id_for_identifier normalized;
                title = (if trim (sol_title r) = []
                         then sol_identifier r @ [32, 8212, 32] @ lit ''ingested solicitation record''
                         else sol_identifier r @ [32, 8212, 32] @ sol_title r @ lit '' (ingested solicitation record)'');
                identifier = identifier_for sha matter_id (sol_identifier_kind r) (sol_identifier r)
                  solicitation_source in
            bind_op (ensure_matter matter_id title) (\<lambda>_.
            bind_op (stmt id (insert_procurement_identifier identifier)) (\<lambda>_.
            bind_op (insert_solicitation_event sha matter_id (pid_id identifier) solicitation_source
                       (lit ''Solicitation published: '' @ sol_title r) evidence_ids) (\<lambda>_.
            return_op (Some matter_id)))))"

section \<open>Lemmas\<close>

definition row_columns :: "AwardRow \<Rightarrow> str list" where
  "row_columns r = [aw_solicitation_id r, aw_project_name r, aw_contractor r, aw_raw_amount r,
     aw_start_date r, aw_notes r]"

lemma row_columns_of: "length cells = 6 \<Longrightarrow> row_columns (award_row_of d i cells) = cells"
  by (auto simp: row_columns_def award_row_of_def length_Suc_conv eval_nat_numeral)

lemma award_rows_body:
  "award_rows d True i cells = Inr rows \<Longrightarrow>
     list_all (\<lambda>c. 6 \<le> length c) (filter (\<lambda>c. c \<noteq> []) cells) \<and>
     map row_columns rows = map (take 6) (filter (\<lambda>c. c \<noteq> []) cells) \<and>
     map aw_row_index rows = [i..<i + length rows] \<and>
     list_all (\<lambda>r. aw_snapshot_digest r = d \<and> aw_amount r = parse_money (aw_raw_amount r)) rows"
proof (induction cells arbitrary: i rows)
  case (Cons c cells)
  show ?case
  proof (cases "c = []")
    case False
    then obtain rest where rest: "6 \<le> length c" "award_rows d True (Suc i) cells = Inr rest"
      "rows = award_row_of d i (take 6 c) # rest"
      using Cons.prems by (auto split: if_splits sum.splits)
    have "row_columns (award_row_of d i (take 6 c)) = take 6 c" using rest(1) by (intro row_columns_of) simp
    moreover have "aw_row_index (award_row_of d i (take 6 c)) = i \<and>
        aw_snapshot_digest (award_row_of d i (take 6 c)) = d \<and>
        aw_amount (award_row_of d i (take 6 c)) = parse_money (aw_raw_amount (award_row_of d i (take 6 c)))"
      by (simp add: award_row_of_def)
    ultimately show ?thesis using Cons.IH [OF rest(2)] rest(1,3) False
      by (simp add: upt_rec)
  qed (use Cons in simp)
qed simp

lemma award_rows_header:
  "award_rows d False i cells = Inr rows \<Longrightarrow>
     filter (\<lambda>c. c \<noteq> []) cells = [] \<and> rows = [] \<or>
     (\<exists>header body. filter (\<lambda>c. c \<noteq> []) cells = header # filter (\<lambda>c. c \<noteq> []) body \<and> length header = 6 \<and>
        award_rows d True i body = Inr rows)"
proof (induction cells)
  case (Cons c cells)
  then show ?case by (cases "c = []") (auto split: if_splits)
qed simp

section \<open>Properties\<close>

text \<open>
  Columns never shift: when the award table is accepted, either it has no rows, or its first
  non-empty row is a six-column header, and row by row, in order and numbered from zero, the records hold
  the first six cells of the other non-empty rows, each with the digest of the snapshot and the amount
  parsed from its own amount cell.
\<close>

theorem award_table_columns_kept:
  assumes "parse_awards_table reader html digest = Inr rows" "reader html = Some tab"
    and "cells = filter (\<lambda>c. c \<noteq> []) (map (map (\<lambda>nodes. normalize_cell_text (join [32] nodes))) tab)"
  shows "cells = [] \<and> rows = [] \<or>
    length (hd cells) = 6 \<and> list_all (\<lambda>c. 6 \<le> length c) (tl cells) \<and>
    map row_columns rows = map (take 6) (tl cells) \<and> map aw_row_index rows = [0..<length rows] \<and>
    list_all (\<lambda>r. aw_snapshot_digest r = digest \<and> aw_amount r = parse_money (aw_raw_amount r)) rows"
proof -
  let ?cells = "map (map (\<lambda>nodes. normalize_cell_text (join [32] nodes))) tab"
  have "award_rows digest False 0 ?cells = Inr rows"
    using assms(1,2) by (simp add: parse_awards_table_def)
  from award_rows_header [OF this] consider "cells = []" "rows = []"
    | header body where "cells = header # filter (\<lambda>c. c \<noteq> []) body" "length header = 6"
        "award_rows digest True 0 body = Inr rows"
    unfolding assms(3) by blast
  then show ?thesis
  proof cases
    case 2
    from award_rows_body [OF 2(3)] 2(1,2) show ?thesis by simp
  qed simp
qed

text \<open>A reader for concrete runs: a header and one short table row.\<close>

definition one_row_table :: table_reader where
  "one_row_table html = Some
     [[[lit ''RFP/IFB Number''], [], [], [], [], []], [[[66]], [[112]], [[99]], [[36, 53]], [], []]]"

lemma one_row_table_parses: "\<exists>r. parse_awards_table one_row_table html d = Inr [r]"
  by (simp add: parse_awards_table_def one_row_table_def normalize_cell_text_def split_whitespace_def is_ws_def
      trim_by_def trim_start_by_def trim_end_by_def lit_def eq_ignore_ascii_case_def)

theorem award_table_columns_kept_witness:
  "\<exists>r. parse_awards_table one_row_table [] [100] = Inr [r] \<and> row_columns r = [[66], [112], [99], [36, 53], [], []]"
proof -
  have n: "normalize_cell_text [] = []" "normalize_cell_text [66] = [66]" "normalize_cell_text [112] = [112]"
    "normalize_cell_text [99] = [99]" "normalize_cell_text [36, 53] = [36, 53]"
    by (simp_all add: normalize_cell_text_def split_whitespace_def is_ws_def trim_by_def trim_start_by_def
        trim_end_by_def)
  obtain r where r: "parse_awards_table one_row_table [] [100] = Inr [r]" using one_row_table_parses by blast
  have "row_columns r = [[66], [112], [99], [36, 53], [], []]"
    using award_table_columns_kept [OF r one_row_table_def refl] by (simp add: n)
  with r show ?thesis by blast
qed

lemma attach_award_row_Inr:
  assumes "attach_award_row sha row evs s = (Inr m, s')"
  shows "m = award_matter_id row \<and> m \<in> pm_id ` set (st_proc_matters s') \<and>
    (let i = identifier_for sha m (classify_identifier (aw_solicitation_id row)) (aw_solicitation_id row) award_source;
         e = award_event sha m (pid_id i) award_source (aw_start_date row) (award_summary row) evs in
     pid_id i \<in> pid_id ` set (st_proc_identifiers s') \<and>
     (if ev_id e \<in> ev_id ` set (st_proc_events s) then st_proc_events s' = st_proc_events s
      else st_proc_events s' = st_proc_events s @ [e]))"
  using assms
  by (auto simp: attach_award_row_def ensure_matter_def insert_award_event_def insert_awarded_contractor_def
      op_Inr Let_def insert_procurement_matter_def insert_procurement_identifier_def
      insert_procurement_organization_def insert_procurement_event_def insert_or_ignore_def split: if_splits)

text \<open>The event an award row stands for in its matter.\<close>

definition event_of_row :: "hash \<Rightarrow> AwardRow \<Rightarrow> str list \<Rightarrow> ProcurementEvent" where
  "event_of_row sha row evs =
     award_event sha (award_matter_id row)
       (pid_id (identifier_for sha (award_matter_id row) (classify_identifier (aw_solicitation_id row))
          (aw_solicitation_id row) award_source))
       award_source (aw_start_date row) (award_summary row) evs"

lemma attach_award_row_events:
  assumes "attach_award_row sha row evs s = (Inr m, s')"
  shows "m = award_matter_id row" "m \<in> pm_id ` set (st_proc_matters s')"
    "st_proc_events s' = (if ev_id (event_of_row sha row evs) \<in> ev_id ` set (st_proc_events s) then st_proc_events s
       else st_proc_events s @ [event_of_row sha row evs])"
    "set (ev_identifier_ids (event_of_row sha row evs)) \<subseteq> pid_id ` set (st_proc_identifiers s')"
  using attach_award_row_Inr [OF assms] by (auto simp: event_of_row_def Let_def award_event_def)

text \<open>
  An ingested award is reachable: after attaching a row whose event is new, its matter exists, the
  matter's events include the award, bound to exactly the snapshots given, and the identifiers the event
  refers to are recorded.
\<close>

theorem attached_award_reachable:
  assumes "attach_award_row sha row evs s = (Inr m, s')"
    and "ev_id (event_of_row sha row evs) \<notin> ev_id ` set (st_proc_events s)"
  shows "(\<exists>mat. procurement_matter m s' = Inr mat) \<and>
    (\<exists>e. e \<in> set (procurement_events m s') \<and> ev_kind e = AwardAnnounced \<and> ev_evidence_ids e = evs \<and>
       set (ev_identifier_ids e) \<subseteq> pid_id ` set (st_proc_identifiers s'))"
proof -
  note a = attach_award_row_events [OF assms(1)]
  have "select_by pm_id m (st_proc_matters s') \<noteq> None" using a(2) by (simp add: select_by_None_iff)
  then have "\<exists>mat. procurement_matter m s' = Inr mat" by (auto simp: procurement_matter_def read_row_def)
  moreover have "event_of_row sha row evs \<in> set (procurement_events m s')"
    using a(1,3) assms(2) by (simp add: procurement_events_def event_of_row_def award_event_def)
  moreover have "ev_kind (event_of_row sha row evs) = AwardAnnounced" "ev_evidence_ids (event_of_row sha row evs) = evs"
    by (simp_all add: event_of_row_def award_event_def)
  ultimately show ?thesis using a(4) by blast
qed

definition plain_row :: "str \<Rightarrow> str \<Rightarrow> AwardRow" where
  "plain_row solicitation project =
     \<lparr>aw_row_index = 0, aw_solicitation_id = solicitation, aw_project_name = project, aw_contractor = [],
      aw_raw_amount = [], aw_amount = parse_money [], aw_start_date = [], aw_notes = [],
      aw_authority = OfficialInformationalMirror, aw_coverage_state = InformationalOnly,
      aw_snapshot_digest = [], aw_normalized_solicitation_id = None\<rparr>"

lemma attach_award_row_succeeds:
  obtains s' where "attach_award_row sha row evs s = (Inr (award_matter_id row), s')"
proof -
  have "\<exists>s'. attach_award_row sha row evs s = (Inr (award_matter_id row), s')"
    by (simp add: attach_award_row_def ensure_matter_def insert_award_event_def insert_awarded_contractor_def
        op_defs Let_def insert_procurement_matter_def insert_procurement_identifier_def
        insert_procurement_organization_def insert_procurement_event_def insert_or_ignore_def)
  with that show ?thesis by blast
qed

theorem attached_award_reachable_witness:
  "\<exists>m s' mat. attach_award_row id_hash (plain_row [65] [66]) [[115]] empty_store = (Inr m, s') \<and>
    procurement_matter m s' = Inr mat"
proof -
  obtain s' where run: "attach_award_row id_hash (plain_row [65] [66]) [[115]] empty_store =
      (Inr (award_matter_id (plain_row [65] [66])), s')"
    by (rule attach_award_row_succeeds)
  from attached_award_reachable [OF run] run show ?thesis by (auto simp: empty_store_def)
qed

text \<open>
  Rows without an identifier, which the award table may hold, are all attached to one matter, whose
  identifier has an empty end: unrelated awards end up as events of a single matter.
\<close>

theorem unidentified_awards_share_a_matter:
  assumes "attach_award_row sha row evs s = (Inr m, s1)" "attach_award_row sha row' evs' s1 = (Inr m', s2)"
    and "aw_solicitation_id row = []" "aw_normalized_solicitation_id row = None"
    and "aw_solicitation_id row' = []" "aw_normalized_solicitation_id row' = None"
    and "ev_id (event_of_row sha row evs) \<notin> ev_id ` set (st_proc_events s)"
    and "ev_id (event_of_row sha row' evs') \<notin> ev_id ` set (st_proc_events s1)"
  shows "m = lit ''proc:matter:co:'' \<and> m' = m \<and>
    {event_of_row sha row evs, event_of_row sha row' evs'} \<subseteq> set (procurement_events m s2)"
proof -
  have "award_matter_id r = lit ''proc:matter:co:''"
    if "aw_solicitation_id r = []" "aw_normalized_solicitation_id r = None" for r
    using that by (simp add: award_matter_id_def matter_id_for_identifier_def normalize_identifier_def trim_by_def
        trim_start_by_def trim_end_by_def)
  then have m: "award_matter_id row = lit ''proc:matter:co:''" "award_matter_id row' = lit ''proc:matter:co:''"
    using assms(3-6) by simp_all
  note a = attach_award_row_events [OF assms(1)] and b = attach_award_row_events [OF assms(2)]
  have "ev_matter_id (event_of_row sha row evs) = lit ''proc:matter:co:''"
    "ev_matter_id (event_of_row sha row' evs') = lit ''proc:matter:co:''"
    using m by (simp_all add: event_of_row_def award_event_def)
  then show ?thesis
    using a(1,3) b(1,3) m assms(7,8) by (simp add: procurement_events_def)
qed

theorem unidentified_awards_share_a_matter_witness:
  "\<exists>s1 s2. attach_award_row id_hash (plain_row [] [66]) [] empty_store = (Inr (lit ''proc:matter:co:''), s1) \<and>
    attach_award_row id_hash (plain_row [] [67]) [] s1 = (Inr (lit ''proc:matter:co:''), s2) \<and>
    event_of_row id_hash (plain_row [] [66]) [] \<in> set (procurement_events (lit ''proc:matter:co:'') s2)"
proof -
  obtain s1 where r1: "attach_award_row id_hash (plain_row [] [66]) [] empty_store =
      (Inr (award_matter_id (plain_row [] [66])), s1)"
    by (rule attach_award_row_succeeds)
  obtain s2 where r2: "attach_award_row id_hash (plain_row [] [67]) [] s1 =
      (Inr (award_matter_id (plain_row [] [67])), s2)"
    by (rule attach_award_row_succeeds)
  have f1: "ev_id (event_of_row id_hash (plain_row [] [66]) []) \<notin> ev_id ` set (st_proc_events empty_store)"
    by (simp add: empty_store_def)
  have e1: "st_proc_events s1 = [event_of_row id_hash (plain_row [] [66]) []]"
    using attach_award_row_events(3) [OF r1] by (simp add: empty_store_def)
  have m: "award_matter_id (plain_row [] [66]) = award_matter_id (plain_row [] [67])"
    by (simp add: award_matter_id_def plain_row_def split: option.split)
  have ne: "award_summary (plain_row [] [66]) \<noteq> award_summary (plain_row [] [67])"
    by (simp add: award_summary_def plain_row_def)
  have id: "ev_id (event_of_row id_hash (plain_row [] p) []) =
      stable_id id_hash (lit ''proc-event'') [lit ''proc:matter:co:'', event_kind_label AwardAnnounced,
        lit ''date unknown'', award_summary (plain_row [] p)]" for p
    by (simp add: event_of_row_def award_event_def event_id_for_def award_matter_id_def plain_row_def
        matter_id_for_identifier_def normalize_identifier_def trim_by_def trim_start_by_def trim_end_by_def)
  have free: "nul_free (award_summary (plain_row [] p))" if "nul_free p" for p
    using that by (simp add: award_summary_def plain_row_def nul_free_def lit_def)
  have "ev_id (event_of_row id_hash (plain_row [] [67]) []) \<noteq> ev_id (event_of_row id_hash (plain_row [] [66]) [])"
    unfolding id using ne free [of "[66]"] free [of "[67]"]
    by (subst stable_id_eq_iff)
      (simp_all add: nul_free_def [of "[66]"] nul_free_def [of "[67]"] del: inj_on_insert)
  then have f2: "ev_id (event_of_row id_hash (plain_row [] [67]) []) \<notin> ev_id ` set (st_proc_events s1)"
    by (simp add: e1)
  have "aw_solicitation_id (plain_row [] p) = [] \<and> aw_normalized_solicitation_id (plain_row [] p) = None" for p
    by (simp add: plain_row_def)
  with unidentified_awards_share_a_matter [OF r1 r2 _ _ _ _ f1 f2] r1 r2 show ?thesis by auto
qed

end
