(* ===== verification/Snapshots.thy ===== *)
theory Snapshots
  imports Ops
begin

text \<open>
  Immutable source snapshots and record-level change detection
  (\<open>pnull-procurement/src/snapshot.rs\<close>): acquisitions, the multiset diff of two row sets,
  recording a snapshot with its rows, and the verified reader of stored rows.
\<close>

section \<open>Acquisitions\<close>

datatype SnapshotError =
  NotFound str
| DifferentSources str str
| LegacyOrIncomplete str
| RowSetIntegrity str str
| Store CoreError

record Acquisition =
  acq_source_id :: str
  acq_source_url :: str
  acq_retrieved_at :: str
  acq_bytes_digest :: str
  acq_content_type :: "str option"
  acq_etag :: "str option"
  acq_last_modified :: "str option"
  acq_final_url :: str
  acq_redirect_history :: "str list"
  acq_parser_version :: str
  acq_schema_version :: "32 word"
  acq_authority :: SourceAuthority
  acq_coverage_state :: CoverageState
  acq_observations :: "FetchObservation list"

definition acquisition_coverage_entry ::
  "hash \<Rightarrow> Acquisition \<Rightarrow> 64 word option \<Rightarrow> str \<Rightarrow> CoverageEntry" where
  "acquisition_coverage_entry sha a record_count note_text =
     \<lparr>cov_id = coverage_id_for sha (acq_source_id a) (acq_retrieved_at a),
      cov_source_id = acq_source_id a, cov_source_url = acq_source_url a,
      cov_authority = acq_authority a, cov_state = acq_coverage_state a,
      cov_retrieved_at = acq_retrieved_at a, cov_persisted_digest = Some (acq_bytes_digest a),
      cov_http_status = None, cov_etag = acq_etag a, cov_last_modified = acq_last_modified a,
      cov_final_url = Some (acq_final_url a), cov_parser_version = Some (acq_parser_version a),
      cov_schema_version = Some (acq_schema_version a), cov_claimed_date_range = None,
      cov_record_count = record_count, cov_pagination_complete = None, cov_access_errors = [],
      cov_human_review_state = lit ''unreviewed'', cov_note = note_text\<rparr>"

definition acquisition_snapshot ::
  "hash \<Rightarrow> Acquisition \<Rightarrow> 64 word option \<Rightarrow> str option \<Rightarrow> SourceSnapshot" where
  "acquisition_snapshot sha a record_count supersedes =
     \<lparr>snap_id = snapshot_id_for sha (acq_source_id a) (acq_bytes_digest a),
      snap_source_id = acq_source_id a, snap_source_url = acq_source_url a,
      snap_retrieved_at = acq_retrieved_at a, snap_persisted_digest = acq_bytes_digest a,
      snap_content_type = acq_content_type a, snap_etag = acq_etag a,
      snap_last_modified = acq_last_modified a, snap_final_url = acq_final_url a,
      snap_redirect_history = acq_redirect_history a, snap_parser_version = acq_parser_version a,
      snap_schema_version = acq_schema_version a, snap_record_count = record_count,
      snap_pagination_complete = None, snap_coverage_state = acq_coverage_state a,
      snap_supersedes = supersedes\<rparr>"

record RecordRow =
  rr_key :: str
  rr_canonical :: str
  rr_raw_json :: str

definition to_snapshot_row :: "hash \<Rightarrow> RecordRow \<Rightarrow> SnapshotRow" where
  "to_snapshot_row sha r =
     \<lparr>row_key = rr_key r, row_canonical = rr_canonical r,
      row_digest = sha256_hex sha (as_bytes (rr_canonical r)), row_raw_json = rr_raw_json r\<rparr>"

definition of_snapshot_row :: "SnapshotRow \<Rightarrow> RecordRow" where
  "of_snapshot_row r =
     \<lparr>rr_key = row_key r, rr_canonical = row_canonical r, rr_raw_json = row_raw_json r\<rparr>"

section \<open>The record-level diff\<close>

text \<open>\<open>group_by_key\<close>: the \<open>BTreeMap\<close> from key to the sorted canonical texts, in key order.\<close>

definition row_keys :: "RecordRow list \<Rightarrow> str list" where
  "row_keys rows = sort (remdups (map rr_key rows))"

definition key_values :: "RecordRow list \<Rightarrow> str \<Rightarrow> str list" where
  "key_values rows k = sort (map rr_canonical (filter (\<lambda>r. rr_key r = k) rows))"

text \<open>\<open>multiset_difference\<close>: the loop over \<open>a\<close> with the counts of \<open>b\<close> and the matches used so far.\<close>

fun difference_loop :: "(str \<Rightarrow> nat) \<Rightarrow> (str \<Rightarrow> nat) \<Rightarrow> str list \<Rightarrow> str list" where
  "difference_loop b_counts used [] = []"
| "difference_loop b_counts used (v # vs) =
     (if used v < b_counts v then difference_loop b_counts (used(v := Suc (used v))) vs
      else v # difference_loop b_counts used vs)"

definition multiset_difference :: "str list \<Rightarrow> str list \<Rightarrow> str list" where
  "multiset_difference a b = difference_loop (count_list b) (\<lambda>_. 0) a"

definition changed_kind :: str where "changed_kind = lit ''changed''"
definition removed_kind :: str where "removed_kind = lit ''removed''"
definition added_kind :: str where "added_kind = lit ''added''"

definition changed_record :: "str \<Rightarrow> RecordChange" where
  "changed_record k = \<lparr>chg_kind = changed_kind, chg_row_key = k,
     chg_summary = lit ''record '' @ k @ lit '' changed between snapshots''\<rparr>"

definition removed_record :: "str \<Rightarrow> RecordChange" where
  "removed_record k = \<lparr>chg_kind = removed_kind, chg_row_key = k,
     chg_summary = lit ''record '' @ k @ lit '' disappeared from the later snapshot''\<rparr>"

definition added_record :: "str \<Rightarrow> RecordChange" where
  "added_record k = \<lparr>chg_kind = added_kind, chg_row_key = k,
     chg_summary = lit ''record '' @ k @ lit '' appeared in the later snapshot''\<rparr>"

definition changes_of_key :: "RecordRow list \<Rightarrow> RecordRow list \<Rightarrow> str \<Rightarrow> RecordChange list" where
  "changes_of_key old_rows new_rows k =
     (let removed = multiset_difference (key_values old_rows k) (key_values new_rows k);
          added = multiset_difference (key_values new_rows k) (key_values old_rows k);
          overlap = min (length removed) (length added) in
      replicate overlap (changed_record k) @
      replicate (length removed - overlap) (removed_record k) @
      replicate (length added - overlap) (added_record k))"

definition record_changes :: "RecordRow list \<Rightarrow> RecordRow list \<Rightarrow> RecordChange list" where
  "record_changes old_rows new_rows =
     sort_key (\<lambda>c. (chg_row_key c, chg_kind c))
       (concat (map (changes_of_key old_rows new_rows) (row_keys old_rows)) @
        concat (map (\<lambda>k. replicate (length (key_values new_rows k)) (added_record k))
          (filter (\<lambda>k. k \<notin> set (row_keys old_rows)) (row_keys new_rows))))"

definition record_diff ::
  "hash \<Rightarrow> str \<Rightarrow> str \<Rightarrow> str \<Rightarrow> RecordRow list \<Rightarrow> RecordRow list \<Rightarrow> SnapshotDiff" where
  "record_diff sha old_snapshot_id new_snapshot_id source_id old_rows new_rows =
     \<lparr>sdiff_id = diff_id_for sha old_snapshot_id new_snapshot_id,
      sdiff_old_snapshot_id = old_snapshot_id, sdiff_new_snapshot_id = new_snapshot_id,
      sdiff_source_id = source_id, sdiff_changes = record_changes old_rows new_rows,
      sdiff_produced_at = lit ''deterministic''\<rparr>"

section \<open>Reading stored rows\<close>

definition snapshot_rows :: "hash \<Rightarrow> str \<Rightarrow> store \<Rightarrow> SnapshotError + RecordRow list" where
  "snapshot_rows sha k s =
     (case snapshot_row_set k s of
        None \<Rightarrow> Inl (LegacyOrIncomplete k)
      | Some meta \<Rightarrow>
          let raw = snapshot_rows_raw k s in
          case find (\<lambda>r. row_digest r \<noteq> sha256_hex sha (as_bytes (row_canonical r))) raw of
            Some r \<Rightarrow> Inl (RowSetIntegrity k
              (lit ''row key '' @ row_key r @ lit '' has a corrupted per-row digest''))
          | None \<Rightarrow>
              if rset_expected_count meta = 0 then
                if raw = [] then Inr []
                else Inl (RowSetIntegrity k
                  (lit ''completion metadata declares 0 rows but stored rows exist''))
              else if of_nat (length raw) \<noteq> rset_expected_count meta then
                Inl (RowSetIntegrity k
                  (lit ''completion metadata declares '' @ show_nat (unat (rset_expected_count meta)) @
                   lit '' rows but '' @ show_nat (length raw) @ lit '' rows are stored''))
              else if row_set_digest sha raw \<noteq> rset_digest meta then
                Inl (RowSetIntegrity k
                  (lit ''stored row-set digest disagrees with completion metadata''))
              else Inr (map of_snapshot_row raw))"

definition latest_snapshot :: "str \<Rightarrow> store \<Rightarrow> SourceSnapshot option" where
  "latest_snapshot source_id s = last_option (source_snapshots source_id s)"

section \<open>Recording a snapshot\<close>

definition snapshot_revision_of :: "hash \<Rightarrow> Acquisition \<Rightarrow> SourceSnapshot \<Rightarrow> SnapshotRevision" where
  "snapshot_revision_of sha a snapshot =
     \<lparr>srev_id = revision_id_for sha (snap_id snapshot) (acq_retrieved_at a),
      srev_snapshot_id = snap_id snapshot, srev_supersedes = snap_supersedes snapshot,
      srev_superseded_by = None, srev_reason = lit ''new bytes observed for the same official URL'',
      srev_recorded_at = acq_retrieved_at a\<rparr>"

definition row_set_meta :: "hash \<Rightarrow> Acquisition \<Rightarrow> str \<Rightarrow> RecordRow list \<Rightarrow> SnapshotRowSet" where
  "row_set_meta sha a k new_rows =
     \<lparr>rset_snapshot_id = k, rset_expected_count = of_nat (length new_rows),
      rset_digest = row_set_digest sha (map (to_snapshot_row sha) new_rows),
      rset_parser_version = acq_parser_version a, rset_schema_version = acq_schema_version a\<rparr>"

text \<open>The diff against the prior snapshot, from its stored rows.\<close>

definition prior_diff ::
  "hash \<Rightarrow> SourceSnapshot option \<Rightarrow> SourceSnapshot \<Rightarrow> RecordRow list \<Rightarrow> store \<Rightarrow>
   SnapshotError + SnapshotDiff option" where
  "prior_diff sha prior_snapshot snapshot new_rows s =
     (case prior_snapshot of
        None \<Rightarrow> Inr None
      | Some prior \<Rightarrow>
          if snap_persisted_digest prior = snap_persisted_digest snapshot then Inr None
          else
            case snapshot_rows sha (snap_id prior) s of
              Inr prior_rows \<Rightarrow>
                if prior_rows = [] then Inr None
                else Inr (Some (record_diff sha (snap_id prior) (snap_id snapshot)
                  (snap_source_id snapshot) prior_rows new_rows))
            | Inl (LegacyOrIncomplete _) \<Rightarrow> Inr None
            | Inl e \<Rightarrow> Inl e)"

definition record_snapshot ::
  "hash \<Rightarrow> Acquisition \<Rightarrow> SourceSnapshot option \<Rightarrow> 64 word option \<Rightarrow> RecordRow list \<Rightarrow>
   RecordRow list \<Rightarrow> (SnapshotError, SourceSnapshot \<times> SnapshotDiff option) op" where
  "record_snapshot sha a prior_snapshot record_count old_rows new_rows =
     (let snapshot = acquisition_snapshot sha a record_count (map_option snap_id prior_snapshot) in
      bind_op (stmt SnapshotError.Store (insert_source_snapshot snapshot)) (\<lambda>inserted.
      bind_op (if inserted \<and> snap_supersedes snapshot \<noteq> None
               then stmt SnapshotError.Store (insert_snapshot_revision (snapshot_revision_of sha a snapshot))
               else return_op False) (\<lambda>_.
      bind_op (unit_stmt SnapshotError.Store (insert_snapshot_row_set_with_rows sha
                 (row_set_meta sha a (snap_id snapshot) new_rows) (map (to_snapshot_row sha) new_rows))) (\<lambda>_.
      bind_op (stmt SnapshotError.Store
                (insert_coverage_entry (acquisition_coverage_entry sha a record_count (lit ''snapshot captured'')))) (\<lambda>_.
      bind_op (read_op (prior_diff sha prior_snapshot snapshot new_rows)) (\<lambda>diff.
      bind_op (case diff of None \<Rightarrow> return_op False
               | Some d \<Rightarrow> stmt SnapshotError.Store (insert_snapshot_diff d)) (\<lambda>_.
      return_op (snapshot, diff))))))))"

text \<open>A 304: only a coverage entry is written, and its state is complete whatever the acquisition says.\<close>

definition unchanged_entry :: "hash \<Rightarrow> Acquisition \<Rightarrow> SourceSnapshot \<Rightarrow> CoverageEntry" where
  "unchanged_entry sha a existing =
     (acquisition_coverage_entry sha a (snap_record_count existing)
        (lit ''304 Not Modified: artifact unchanged; no duplicate snapshot created''))
       \<lparr>cov_state := CoverageState.Complete,
        cov_persisted_digest := Some (snap_persisted_digest existing),
        cov_http_status := Some 304\<rparr>"

definition record_unchanged ::
  "hash \<Rightarrow> Acquisition \<Rightarrow> SourceSnapshot \<Rightarrow> (SnapshotError, bool) op" where
  "record_unchanged sha a existing =
     bind_op (stmt SnapshotError.Store (insert_coverage_entry (unchanged_entry sha a existing)))
       (\<lambda>_. return_op True)"

section \<open>Row sets: lemmas\<close>

definition loop_rows :: "str \<Rightarrow> nat \<Rightarrow> SnapshotRow list \<Rightarrow> StoredRow list" where
  "loop_rows k i rows =
     map (\<lambda>(j, r). \<lparr>srow_snapshot_id = k, srow_seq = j, srow_row = r\<rparr>) (enumerate i rows)"

lemma loop_rows_simps [simp]:
  "loop_rows k i [] = []"
  "loop_rows k i (r # rs) = \<lparr>srow_snapshot_id = k, srow_seq = i, srow_row = r\<rparr> # loop_rows k (Suc i) rs"
  by (simp_all add: loop_rows_def)

lemma loop_rows_in: "q \<in> set (loop_rows k i rs) \<Longrightarrow> srow_snapshot_id q = k \<and> i \<le> srow_seq q"
  by (auto simp: loop_rows_def in_set_enumerate_eq)

lemma loop_rows_read [simp]: "map srow_row (loop_rows k i rs) = rs"
  by (induction rs arbitrary: i) simp_all

lemma loop_rows_sorted: "sort_key srow_seq (loop_rows k i rs) = loop_rows k i rs"
proof (rule sort_key_id_if_sorted)
  show "sorted (map srow_seq (loop_rows k i rs))"
    by (induction rs arbitrary: i) (auto dest: loop_rows_in)
qed

lemma loop_rows_filter:
  "filter (\<lambda>q. srow_snapshot_id q = j) (loop_rows k i rs) = (if j = k then loop_rows k i rs else [])"
  by (cases "j = k") (auto simp: filter_id_conv filter_empty_conv dest: loop_rows_in)

text \<open>The loop succeeds on an existing snapshot that has no rows yet.\<close>

lemma insert_row_loop_succeeds:
  assumes "k \<in> snap_id ` set (st_snapshots s)"
    and "\<forall>q \<in> set (st_snapshot_rows s). srow_snapshot_id q = k \<longrightarrow> srow_seq q < i"
  shows "insert_row_loop k i rs s = Inr (s\<lparr>st_snapshot_rows := st_snapshot_rows s @ loop_rows k i rs\<rparr>)"
  using assms
proof (induction rs arbitrary: i s)
  case (Cons r rs)
  have "(k, i) \<notin> (\<lambda>q. (srow_snapshot_id q, srow_seq q)) ` set (st_snapshot_rows s)"
    using Cons.prems(2) by auto
  moreover have "insert_row_loop k (Suc i) rs
      (s\<lparr>st_snapshot_rows := st_snapshot_rows s @ [\<lparr>srow_snapshot_id = k, srow_seq = i, srow_row = r\<rparr>]\<rparr>) =
     Inr (s\<lparr>st_snapshot_rows := (st_snapshot_rows s @ [\<lparr>srow_snapshot_id = k, srow_seq = i, srow_row = r\<rparr>]) @
        loop_rows k (Suc i) rs\<rparr>)"
    using Cons.prems by (subst Cons.IH) (auto simp: less_Suc_eq)
  ultimately show ?case using Cons.prems(1) by simp
qed simp

definition has_row_set :: "str \<Rightarrow> store \<Rightarrow> bool" where
  "has_row_set k s \<longleftrightarrow> snapshot_row_set k s \<noteq> None \<or> snapshot_rows_raw k s \<noteq> []"

lemma no_raw_rows: "snapshot_rows_raw k s = [] \<longleftrightarrow> (\<forall>q \<in> set (st_snapshot_rows s). srow_snapshot_id q \<noteq> k)"
proof -
  have "snapshot_rows_raw k s = [] \<longleftrightarrow> set (snapshot_rows_raw k s) = {}" by simp
  then show ?thesis unfolding snapshot_rows_raw_def set_map set_select_where by auto
qed

lemma row_set_insert_fresh:
  assumes "\<not> has_row_set (rset_snapshot_id meta) s" "rset_snapshot_id meta \<in> snap_id ` set (st_snapshots s)"
  shows "insert_snapshot_row_set_with_rows sha meta rows s =
     Inr (s\<lparr>st_snapshot_rows := st_snapshot_rows s @ loop_rows (rset_snapshot_id meta) 0 rows,
            st_row_sets := st_row_sets s @ [stored_row_set meta]\<rparr>)"
proof -
  have "insert_row_loop (rset_snapshot_id meta) 0 rows s =
      Inr (s\<lparr>st_snapshot_rows := st_snapshot_rows s @ loop_rows (rset_snapshot_id meta) 0 rows\<rparr>)"
    using assms by (intro insert_row_loop_succeeds) (auto simp: has_row_set_def no_raw_rows)
  then show ?thesis
    using assms by (simp add: insert_snapshot_row_set_with_rows_def Let_def has_row_set_def)
qed

lemma row_set_insert_known:
  assumes "has_row_set (rset_snapshot_id meta) s"
    and "insert_snapshot_row_set_with_rows sha meta rows s = Inr s'"
  shows "s' = s"
  using assms by (auto simp: insert_snapshot_row_set_with_rows_def Let_def has_row_set_def split: if_splits)

lemma row_set_insert_iff:
  "insert_snapshot_row_set_with_rows sha meta rows s = Inr s' \<longleftrightarrow>
   (if has_row_set (rset_snapshot_id meta) s
    then s' = s \<and> row_set_digest sha (snapshot_rows_raw (rset_snapshot_id meta) s) = rset_digest meta \<and>
      (\<exists>m. snapshot_row_set (rset_snapshot_id meta) s = Some m \<and>
           rset_expected_count m = rset_expected_count meta \<and> rset_digest m = rset_digest meta \<and>
           rset_parser_version m = rset_parser_version meta \<and>
           rset_schema_version m = rset_schema_version meta)
    else rset_snapshot_id meta \<in> snap_id ` set (st_snapshots s) \<and>
      s' = s\<lparr>st_snapshot_rows := st_snapshot_rows s @ loop_rows (rset_snapshot_id meta) 0 rows,
            st_row_sets := st_row_sets s @ [stored_row_set meta]\<rparr>)"
proof (cases "has_row_set (rset_snapshot_id meta) s")
  case True
  then show ?thesis
    by (auto simp: insert_snapshot_row_set_with_rows_def Let_def has_row_set_def split: option.splits)
next
  case False
  show ?thesis
  proof (cases "rset_snapshot_id meta \<in> snap_id ` set (st_snapshots s)")
    case True
    then show ?thesis using False row_set_insert_fresh [OF False True] by auto
  next
    case noref: False
    have "insert_snapshot_row_set_with_rows sha meta rows s \<noteq> Inr s'" for s'
    proof
      assume "insert_snapshot_row_set_with_rows sha meta rows s = Inr s'"
      then show False
      proof (rule row_set_cases)
        assume "s' = s"
        then show False using \<open>insert_snapshot_row_set_with_rows sha meta rows s = Inr s'\<close> False noref
          by (auto simp: insert_snapshot_row_set_with_rows_def Let_def has_row_set_def
              dest!: insert_row_loop_spec split: sum.splits if_splits)
      next
        fix t assume "insert_row_loop (rset_snapshot_id meta) 0 rows s = Inr t"
          "rset_snapshot_id meta \<in> snap_id ` set (st_snapshots t)"
        then show False using noref by (auto dest!: insert_row_loop_spec)
      qed
    qed
    then show ?thesis using False noref by simp
  qed
qed

lemma raw_rows_after_insert:
  assumes "\<not> has_row_set k s"
    and "s' = s\<lparr>st_snapshot_rows := st_snapshot_rows s @ loop_rows k 0 rows,
            st_row_sets := st_row_sets s @ [m]\<rparr>" "rset_snapshot_id m = k"
  shows "snapshot_rows_raw k s' = rows" "snapshot_row_set k s' = Some m"
    and "j \<noteq> k \<Longrightarrow> snapshot_rows_raw j s' = snapshot_rows_raw j s"
    and "j \<noteq> k \<Longrightarrow> snapshot_row_set j s' = snapshot_row_set j s"
proof -
  have "filter (\<lambda>q. srow_snapshot_id q = k) (st_snapshot_rows s) = []"
    using assms(1) by (simp add: has_row_set_def no_raw_rows filter_empty_conv)
  then show "snapshot_rows_raw k s' = rows"
    by (simp add: assms(2) snapshot_rows_raw_def select_where_def loop_rows_filter loop_rows_sorted)
  show "snapshot_row_set k s' = Some m"
    using assms(1,3) by (simp add: assms(2) snapshot_row_set_def has_row_set_def select_by_append)
  show "j \<noteq> k \<Longrightarrow> snapshot_rows_raw j s' = snapshot_rows_raw j s"
    by (simp add: assms(2) snapshot_rows_raw_def select_where_def loop_rows_filter)
  show "j \<noteq> k \<Longrightarrow> snapshot_row_set j s' = snapshot_row_set j s"
    using assms(3) by (simp add: assms(2) snapshot_row_set_def select_by_append split: option.split)
qed

section \<open>The diff: lemmas\<close>

abbreviation record_pair :: "RecordRow \<Rightarrow> str \<times> str" where
  "record_pair r \<equiv> (rr_key r, rr_canonical r)"

text \<open>The canonical texts a row set has under one key, as a multiset.\<close>

definition texts_of :: "RecordRow list \<Rightarrow> str \<Rightarrow> str multiset" where
  "texts_of rows k = mset (map rr_canonical (filter (\<lambda>r. rr_key r = k) rows))"

lemma mset_key_values [simp]: "mset (key_values rows k) = texts_of rows k"
  by (simp add: key_values_def texts_of_def)

lemma count_difference_loop:
  "count (mset (difference_loop b used a)) v = count (mset a) v - (b v - used v)"
  by (induction a arbitrary: used) auto

lemma mset_multiset_difference [simp]: "mset (multiset_difference a b) = mset a - mset b"
proof (rule multiset_eqI)
  fix v
  show "count (mset (multiset_difference a b)) v = count (mset a - mset b) v"
    unfolding multiset_difference_def count_difference_loop count_diff by (simp add: count_mset)
qed

lemma length_multiset_difference: "length (multiset_difference a b) = size (mset a - mset b)"
  by (metis mset_multiset_difference size_mset)

lemma set_row_keys [simp]: "set (row_keys rows) = rr_key ` set rows"
  by (simp add: row_keys_def)

lemma distinct_row_keys [simp]: "distinct (row_keys rows)"
  by (simp add: row_keys_def)

lemma texts_of_no_key: "k \<notin> rr_key ` set rows \<Longrightarrow> texts_of rows k = {#}"
  by (auto simp: texts_of_def filter_empty_conv)

definition changes_about :: "str \<Rightarrow> str \<Rightarrow> RecordChange list \<Rightarrow> nat" where
  "changes_about kind k changes = length (filter (\<lambda>c. chg_kind c = kind \<and> chg_row_key c = k) changes)"

lemma changes_about_Nil [simp]: "changes_about kind k [] = 0"
  by (simp add: changes_about_def)

lemma length_key_values: "length (key_values rows k) = size (texts_of rows k)"
  by (metis mset_key_values size_mset)

lemma changes_about_append [simp]:
  "changes_about kind k (xs @ ys) = changes_about kind k xs + changes_about kind k ys"
  by (simp add: changes_about_def)

lemma changes_about_replicate [simp]:
  "changes_about kind k (replicate n c) = (if chg_kind c = kind \<and> chg_row_key c = k then n else 0)"
  by (simp add: changes_about_def filter_replicate)

lemma changes_about_sort [simp]: "changes_about kind k (sort_key f xs) = changes_about kind k xs"
  by (simp add: changes_about_def filter_sort)

lemma changes_about_concat:
  assumes "distinct ks" "\<And>j. j \<noteq> k \<Longrightarrow> changes_about kind k (f j) = 0"
  shows "changes_about kind k (concat (map f ks)) = (if k \<in> set ks then changes_about kind k (f k) else 0)"
  using assms(1)
proof (induction ks)
  case (Cons j ks)
  then show ?case by (cases "j = k") (auto simp: assms(2))
qed simp

lemma kinds_distinct [simp]:
  "changed_kind \<noteq> removed_kind" "removed_kind \<noteq> changed_kind" "changed_kind \<noteq> added_kind"
  "added_kind \<noteq> changed_kind" "removed_kind \<noteq> added_kind" "added_kind \<noteq> removed_kind"
  by (simp_all add: changed_kind_def removed_kind_def added_kind_def)

lemma change_record_simps [simp]:
  "chg_kind (changed_record k) = changed_kind" "chg_row_key (changed_record k) = k"
  "chg_kind (removed_record k) = removed_kind" "chg_row_key (removed_record k) = k"
  "chg_kind (added_record k) = added_kind" "chg_row_key (added_record k) = k"
  by (simp_all add: changed_record_def removed_record_def added_record_def)

lemma changes_of_key_count:
  "changes_about kind k (changes_of_key old_rows new_rows j) =
     (let removed = size (texts_of old_rows j - texts_of new_rows j);
          added = size (texts_of new_rows j - texts_of old_rows j) in
      if j \<noteq> k then 0
      else if kind = changed_kind then min removed added
      else if kind = removed_kind then removed - added
      else if kind = added_kind then added - removed else 0)"
  by (auto simp: changes_of_key_def Let_def length_multiset_difference min_def)

lemma record_changes_count:
  "changes_about kind k (record_changes old_rows new_rows) =
     changes_about kind k (changes_of_key old_rows new_rows k)"
proof -
  have a: "changes_about kind k (concat (map (changes_of_key old_rows new_rows) (row_keys old_rows))) =
      (if k \<in> rr_key ` set old_rows then changes_about kind k (changes_of_key old_rows new_rows k) else 0)"
    by (subst changes_about_concat) (simp_all add: changes_of_key_count Let_def)
  have b: "changes_about kind k (concat (map (\<lambda>j. replicate (length (key_values new_rows j)) (added_record j))
        (filter (\<lambda>j. j \<notin> set (row_keys old_rows)) (row_keys new_rows)))) =
      (if k \<notin> rr_key ` set old_rows then changes_about kind k (changes_of_key old_rows new_rows k) else 0)"
  proof (cases "k \<in> rr_key ` set old_rows")
    case True
    then show ?thesis by (subst changes_about_concat) auto
  next
    case False
    have "changes_about kind k (changes_of_key old_rows new_rows k) =
        (if kind = added_kind then size (texts_of new_rows k) else 0)"
      using texts_of_no_key [OF False] by (simp add: changes_of_key_count Let_def)
    moreover have "k \<notin> rr_key ` set new_rows \<Longrightarrow> size (texts_of new_rows k) = 0"
      using texts_of_no_key by simp
    ultimately show ?thesis using False
      by (subst changes_about_concat) (auto simp: length_key_values)
  qed
  show ?thesis unfolding record_changes_def changes_about_sort changes_about_append a b by simp
qed

lemma texts_of_eq_iff:
  "(\<forall>k. texts_of xs k = texts_of ys k) \<longleftrightarrow> mset (map record_pair xs) = mset (map record_pair ys)"
proof -
  have "count (mset (map record_pair xs)) (k, c) = count (texts_of xs k) c" for xs k c
    by (induction xs) (auto simp: texts_of_def)
  then show ?thesis by (auto simp: multiset_eq_iff)
qed

section \<open>Properties of the diff\<close>

text \<open>
  The diff reports, for every key, exactly the surplus of the two multisets of canonical texts:
  as many changes as surplus texts pair up, and the rest as removals or additions.  Repeated rows
  count, and the order of the rows does not.
\<close>

theorem record_diff_counts:
  "let changes = sdiff_changes (record_diff sha i j src old_rows new_rows);
       removed = size (texts_of old_rows k - texts_of new_rows k);
       added = size (texts_of new_rows k - texts_of old_rows k) in
   changes_about changed_kind k changes = min removed added \<and>
   changes_about removed_kind k changes = removed - added \<and>
   changes_about added_kind k changes = added - removed"
  by (simp add: record_diff_def record_changes_count changes_of_key_count Let_def)

lemma record_changes_kinds:
  "c \<in> set (record_changes old_rows new_rows) \<Longrightarrow> chg_kind c \<in> {changed_kind, removed_kind, added_kind}"
  by (auto simp: record_changes_def changes_of_key_def Let_def)

lemma record_changes_empty_iff:
  "record_changes old_rows new_rows = [] \<longleftrightarrow> (\<forall>k. texts_of old_rows k = texts_of new_rows k)"
proof
  assume none: "record_changes old_rows new_rows = []"
  show "\<forall>k. texts_of old_rows k = texts_of new_rows k"
  proof
    fix k
    let ?r = "texts_of old_rows k - texts_of new_rows k" and ?a = "texts_of new_rows k - texts_of old_rows k"
    have z: "changes_about kind k (record_changes old_rows new_rows) = 0" for kind
      by (simp add: none changes_about_def)
    have "min (size ?r) (size ?a) = 0" "size ?r - size ?a = 0" "size ?a - size ?r = 0"
      using z [of changed_kind] z [of removed_kind] z [of added_kind]
      by (simp_all add: record_changes_count changes_of_key_count Let_def)
    then have "size ?r = 0" "size ?a = 0" by linarith+
    then show "texts_of old_rows k = texts_of new_rows k"
      by (simp add: Diff_eq_empty_iff_mset subset_mset.antisym)
  qed
next
  assume eq: "\<forall>k. texts_of old_rows k = texts_of new_rows k"
  have none: "changes_about kind k (record_changes old_rows new_rows) = 0" for kind k
    using eq by (simp add: record_changes_count changes_of_key_count Let_def)
  show "record_changes old_rows new_rows = []"
  proof (cases "record_changes old_rows new_rows")
    case (Cons c cs)
    then show ?thesis using none [of "chg_kind c" "chg_row_key c"] by (simp add: changes_about_def)
  qed
qed

text \<open>
  The diff is empty exactly when the two row sets are the same multiset of (key, canonical)
  pairs: no change goes unreported and no identical capture is reported as a change.
\<close>

lemma record_diff_empty_iff:
  "sdiff_changes (record_diff sha i j src old_rows new_rows) = [] \<longleftrightarrow>
     mset (map record_pair old_rows) = mset (map record_pair new_rows)"
  by (simp add: record_diff_def record_changes_empty_iff texts_of_eq_iff)

section \<open>Row sets under store steps\<close>

lemma snapshot_rows_cong:
  assumes "snapshot_rows_raw j s' = snapshot_rows_raw j s" "snapshot_row_set j s' = snapshot_row_set j s"
  shows "snapshot_rows sha j s' = snapshot_rows sha j s"
  unfolding snapshot_rows_def assms ..

text \<open>Methods on other tables leave the rows alone.\<close>

definition same_rows :: "store \<Rightarrow> store \<Rightarrow> bool" where
  "same_rows s t \<longleftrightarrow> st_snapshot_rows t = st_snapshot_rows s \<and> st_row_sets t = st_row_sets s"

lemma same_rows_trans: "same_rows s t \<Longrightarrow> same_rows t u \<Longrightarrow> same_rows s u"
  by (simp add: same_rows_def)

lemma same_rows_reads:
  assumes "same_rows s t"
  shows "snapshot_rows_raw j t = snapshot_rows_raw j s" "snapshot_row_set j t = snapshot_row_set j s"
    "has_row_set j t = has_row_set j s" "snapshot_rows sha j t = snapshot_rows sha j s"
proof -
  show 1: "snapshot_rows_raw j t = snapshot_rows_raw j s" "snapshot_row_set j t = snapshot_row_set j s"
    using assms by (simp_all add: same_rows_def snapshot_rows_raw_def snapshot_row_set_def)
  show "has_row_set j t = has_row_set j s" by (simp add: has_row_set_def 1)
  show "snapshot_rows sha j t = snapshot_rows sha j s" by (rule snapshot_rows_cong) (rule 1)+
qed

definition writes_row_set :: "store \<Rightarrow> store \<Rightarrow> bool" where
  "writes_row_set s s' \<longleftrightarrow> (\<exists>sha meta rows. insert_snapshot_row_set_with_rows sha meta rows s = Inr s')"

lemma store_step_rows: "store_step s s' \<Longrightarrow> writes_row_set s s' \<or> same_rows s s'"
proof (induction rule: store_step.induct)
  case (step_row_set sha meta rows s s')
  then show ?case by (auto simp: writes_row_set_def)
qed (auto simp: same_rows_def step_defs split: if_splits sum.splits)

lemma row_set_kept_step:
  assumes "store_step s s'" "has_row_set j s"
  shows "snapshot_rows_raw j s' = snapshot_rows_raw j s \<and> snapshot_row_set j s' = snapshot_row_set j s"
proof -
  consider "same_rows s s'" | sha meta rows where "insert_snapshot_row_set_with_rows sha meta rows s = Inr s'"
    using store_step_rows [OF assms(1)] by (auto simp: writes_row_set_def)
  then show ?thesis
  proof cases
    case 1
    then show ?thesis by (simp add: same_rows_reads)
  next
    case 2
    show ?thesis
    proof (cases "has_row_set (rset_snapshot_id meta) s")
      case True
      from row_set_insert_known [OF True 2] show ?thesis by simp
    next
      case False
      then have j: "j \<noteq> rset_snapshot_id meta" using assms(2) by blast
      have s': "s' = s\<lparr>st_snapshot_rows := st_snapshot_rows s @ loop_rows (rset_snapshot_id meta) 0 rows,
            st_row_sets := st_row_sets s @ [stored_row_set meta]\<rparr>"
        using False 2 by (simp add: row_set_insert_iff)
      have "rset_snapshot_id (stored_row_set meta) = rset_snapshot_id meta"
        by (simp add: stored_row_set_def)
      from raw_rows_after_insert(3,4) [OF False s' this] j show ?thesis by simp
    qed
  qed
qed

lemma row_set_kept:
  assumes "store_step\<^sup>*\<^sup>* s s'" "has_row_set j s"
  shows "snapshot_rows_raw j s' = snapshot_rows_raw j s \<and> snapshot_row_set j s' = snapshot_row_set j s"
  using assms
proof (induction rule: rtranclp_induct)
  case (step t u)
  then have "has_row_set j t" by (simp add: has_row_set_def)
  from row_set_kept_step [OF step.hyps(2) this] show ?case using step by simp
qed simp

lemma op_steps_record_snapshot: "op_steps (record_snapshot sha a prior n old_rows new_rows)"
  unfolding record_snapshot_def Let_def
  by (intro op_steps_bind op_steps_if op_steps_option op_steps_return op_steps_read op_steps_stmt
      op_steps_unit_stmt; erule store_step.intros)

lemma op_steps_record_unchanged: "op_steps (record_unchanged sha a e)"
  unfolding record_unchanged_def
  by (intro op_steps_bind op_steps_return op_steps_stmt) (erule store_step.intros)

section \<open>Recorded snapshots: lemmas\<close>

lemma same_rows_inserts:
  "insert_source_snapshot r s = Inr (b, t) \<Longrightarrow> same_rows s t"
  "insert_snapshot_revision r' s = Inr (b, t) \<Longrightarrow> same_rows s t"
  "insert_coverage_entry c s = Inr (b, t) \<Longrightarrow> same_rows s t"
  "insert_snapshot_diff d s = Inr (b, t) \<Longrightarrow> same_rows s t"
  by (auto simp: same_rows_def plain_insert_defs insert_or_ignore_def split: if_splits)

lemma prior_diff_same_rows:
  assumes "same_rows s t"
  shows "prior_diff sha prior snapshot new_rows t = prior_diff sha prior snapshot new_rows s"
  unfolding prior_diff_def same_rows_reads(4) [OF assms] ..

text \<open>What a successful recording did, up to the tables that hold no rows.\<close>

lemma record_snapshot_Inr:
  assumes "record_snapshot sha a prior n old_rows new_rows s = (Inr (snapshot, diff), s')"
  obtains t u where
    "snapshot = acquisition_snapshot sha a n (map_option snap_id prior)" "same_rows s t"
    "insert_snapshot_row_set_with_rows sha (row_set_meta sha a (snap_id snapshot) new_rows)
       (map (to_snapshot_row sha) new_rows) t = Inr u"
    "same_rows u s'" "prior_diff sha prior snapshot new_rows u = Inr diff"
proof -
  let ?n = "acquisition_snapshot sha a n (map_option snap_id prior)"
  from assms obtain b t1 b2 t u b3 u2 diff' u2' b4 u3 where
    1: "insert_source_snapshot ?n s = Inr (b, t1)"
    and 2: "(if b \<and> snap_supersedes ?n \<noteq> None
        then stmt SnapshotError.Store (insert_snapshot_revision (snapshot_revision_of sha a ?n))
        else return_op False) t1 = (Inr b2, t)"
    and 3: "insert_snapshot_row_set_with_rows sha (row_set_meta sha a (snap_id ?n) new_rows)
        (map (to_snapshot_row sha) new_rows) t = Inr u"
    and 4: "insert_coverage_entry (acquisition_coverage_entry sha a n (lit ''snapshot captured'')) u = Inr (b3, u2)"
    and 5: "prior_diff sha prior ?n new_rows u2 = Inr diff'" and e: "u2' = u2"
    and 6: "(case diff' of None \<Rightarrow> return_op False | Some d \<Rightarrow> stmt SnapshotError.Store (insert_snapshot_diff d)) u2'
        = (Inr b4, u3)"
    and 7: "s' = u3" "snapshot = ?n" "diff = diff'"
    unfolding record_snapshot_def Let_def op_Inr prod.inject by (elim exE conjE) (rule that; assumption)
  have t: "same_rows t1 t"
    using 2 by (cases "b \<and> snap_supersedes ?n \<noteq> None")
      (auto simp: op_Inr same_rows_def dest: same_rows_inserts(2) split: if_splits)
  have u3: "same_rows u2 u3"
    using 6 unfolding e by (cases diff') (auto simp: op_Inr same_rows_def dest: same_rows_inserts(4))
  have "same_rows s t" using same_rows_inserts(1) [OF 1] t by (rule same_rows_trans)
  moreover have "same_rows u s'" using same_rows_inserts(3) [OF 4] u3 7 by (simp add: same_rows_def)
  moreover have "prior_diff sha prior snapshot new_rows u = Inr diff"
    using 5 7 prior_diff_same_rows [OF same_rows_inserts(3) [OF 4]] by simp
  ultimately show thesis using that 3 7 by blast
qed

lemma stored_row_set_small:
  assumes "uint (rset_expected_count m) \<le> i64_max"
  shows "stored_row_set m = m"
proof -
  have "u64_of_i64 (i64_of_u64 (rset_expected_count m)) = rset_expected_count m"
    unfolding i64_of_u64_def min.absorb2 [OF assms] by (simp add: u64_of_i64_def)
  then show ?thesis by (simp add: stored_row_set_def)
qed

lemma of_to_snapshot_row [simp]: "of_snapshot_row (to_snapshot_row sha r) = r"
  by (simp add: of_snapshot_row_def to_snapshot_row_def)

lemma read_back_rows:
  assumes "length rows \<le> nat i64_max" "snapshot_row_set k s = Some (stored_row_set (row_set_meta sha a k rows))"
    and "snapshot_rows_raw k s = map (to_snapshot_row sha) rows"
  shows "snapshot_rows sha k s = Inr rows"
proof -
  have len: "length rows < 2 ^ 64" using assms(1) by (simp add: i64_max_def)
  then have u: "uint (of_nat (length rows) :: 64 word) = int (length rows)"
    by (simp add: unsigned_of_nat take_bit_nat_eq_self_iff)
  have m: "stored_row_set (row_set_meta sha a k rows) = row_set_meta sha a k rows"
    using assms(1) by (intro stored_row_set_small) (simp add: row_set_meta_def u i64_max_def)
  have nf: "find (\<lambda>r. row_digest r \<noteq> sha256_hex sha (as_bytes (row_canonical r)))
      (map (to_snapshot_row sha) rows) = None"
    by (auto simp: find_None_iff to_snapshot_row_def)
  have z: "(of_nat (length rows) :: 64 word) = 0 \<longleftrightarrow> rows = []"
    using u uint_0_iff [of "of_nat (length rows) :: 64 word"] by simp
  show ?thesis
    unfolding snapshot_rows_def assms(2,3) m option.case Let_def nf
    using z by (auto simp: row_set_meta_def comp_def)
qed

text \<open>The rows after recording a snapshot that had none.\<close>

lemma record_snapshot_fresh:
  assumes "record_snapshot sha a prior n old_rows new_rows s = (Inr (snapshot, diff), s')"
    and "\<not> has_row_set (snap_id snapshot) s"
  shows "snapshot_rows_raw (snap_id snapshot) s' = map (to_snapshot_row sha) new_rows"
    and "snapshot_row_set (snap_id snapshot) s' =
      Some (stored_row_set (row_set_meta sha a (snap_id snapshot) new_rows))"
    and "j \<noteq> snap_id snapshot \<Longrightarrow> has_row_set j s' = has_row_set j s"
proof -
  let ?k = "snap_id snapshot" and ?rows = "map (to_snapshot_row sha) new_rows"
  let ?m = "row_set_meta sha a ?k new_rows"
  obtain t u where t: "same_rows s t"
    and ins: "insert_snapshot_row_set_with_rows sha ?m ?rows t = Inr u" and u: "same_rows u s'"
    using assms(1) by (rule record_snapshot_Inr)
  have k: "rset_snapshot_id ?m = ?k" "rset_snapshot_id (stored_row_set ?m) = ?k"
    by (simp_all add: row_set_meta_def stored_row_set_def)
  have none: "\<not> has_row_set ?k t" using assms(2) same_rows_reads(3) [OF t] by simp
  then have eq: "u = t\<lparr>st_snapshot_rows := st_snapshot_rows t @ loop_rows ?k 0 ?rows,
      st_row_sets := st_row_sets t @ [stored_row_set ?m]\<rparr>"
    using ins by (simp add: row_set_insert_iff k)
  note after = raw_rows_after_insert [OF none eq k(2)]
  show "snapshot_rows_raw ?k s' = ?rows" "snapshot_row_set ?k s' = Some (stored_row_set ?m)"
    using after(1,2) same_rows_reads(1,2) [OF u] by simp_all
  show "j \<noteq> ?k \<Longrightarrow> has_row_set j s' = has_row_set j s"
    using after(3,4) [of j] same_rows_reads(3) [OF u, of j] same_rows_reads(3) [OF t, of j]
    by (simp add: has_row_set_def)
qed

lemma record_snapshot_read_back:
  assumes "record_snapshot sha a prior n old_rows new_rows s = (Inr (snapshot, diff), s')"
    and "\<not> has_row_set (snap_id snapshot) s" "length new_rows \<le> nat i64_max"
  shows "snapshot_rows sha (snap_id snapshot) s' = Inr new_rows"
  using record_snapshot_fresh(1,2) [OF assms(1,2)] assms(3) by (intro read_back_rows)

lemma insert_totals:
  "\<exists>b t. insert_coverage_entry c s = Inr (b, t)"
  "\<exists>b t. insert_snapshot_diff d s = Inr (b, t)"
  "\<exists>b t. insert_snapshot_revision r s = Inr (b, t) \<and> st_snapshots t = st_snapshots s"
  "\<exists>b t. insert_source_snapshot n s = Inr (b, t) \<and> snap_id n \<in> snap_id ` set (st_snapshots t)"
  by (auto simp: plain_insert_defs insert_or_ignore_def)

lemma record_snapshot_total:
  assumes "\<not> has_row_set (snap_id n) s" "n = acquisition_snapshot sha a c (map_option snap_id prior)"
    and "\<And>p. prior = Some p \<Longrightarrow> \<exists>rows. snapshot_rows sha (snap_id p) s = Inr rows"
  shows "\<exists>d s'. record_snapshot sha a prior c old_rows new_rows s = (Inr (n, d), s')"
proof -
  obtain b t1 where 1: "insert_source_snapshot n s = Inr (b, t1)" "snap_id n \<in> snap_id ` set (st_snapshots t1)"
    using insert_totals(4) by blast
  obtain b2 t where 2: "(if b \<and> snap_supersedes n \<noteq> None
        then stmt SnapshotError.Store (insert_snapshot_revision (snapshot_revision_of sha a n))
        else return_op False) t1 = (Inr b2, t)" "same_rows t1 t" "st_snapshots t = st_snapshots t1"
  proof (cases "b \<and> snap_supersedes n \<noteq> None")
    case True
    obtain b2 t where "insert_snapshot_revision (snapshot_revision_of sha a n) t1 = Inr (b2, t)"
      "st_snapshots t = st_snapshots t1" using insert_totals(3) by blast
    then show thesis using True same_rows_inserts(2) by (intro that [of b2 t]) (simp_all add: stmt_def)
  next
    case False
    then show thesis by (intro that [of False t1]) (auto simp: return_op_def same_rows_def)
  qed
  let ?m = "row_set_meta sha a (snap_id n) new_rows" and ?rows = "map (to_snapshot_row sha) new_rows"
  have st: "same_rows s t" using same_rows_inserts(1) [OF 1(1)] 2(2) by (rule same_rows_trans)
  have "\<not> has_row_set (rset_snapshot_id ?m) t" "rset_snapshot_id ?m \<in> snap_id ` set (st_snapshots t)"
    using assms(1) same_rows_reads(3) [OF st] 1(2) 2(3) by (simp_all add: row_set_meta_def)
  then obtain u where 3: "insert_snapshot_row_set_with_rows sha ?m ?rows t = Inr u"
    using row_set_insert_fresh by blast
  obtain b4 v where 4: "insert_coverage_entry (acquisition_coverage_entry sha a c (lit ''snapshot captured'')) u =
      Inr (b4, v)" using insert_totals(1) by blast
  obtain d where 5: "prior_diff sha prior n new_rows v = Inr d"
  proof (cases prior)
    case (Some p)
    obtain rows where rows: "snapshot_rows sha (snap_id p) t = Inr rows"
      using assms(3) [OF Some] same_rows_reads(4) [OF st] by auto
    then have "has_row_set (snap_id p) t"
      by (auto simp: has_row_set_def snapshot_rows_def split: option.splits)
    then have "snapshot_rows sha (snap_id p) u = Inr rows"
      using row_set_kept_step [OF step_row_set [OF 3]] rows snapshot_rows_cong by metis
    then have "snapshot_rows sha (snap_id p) v = Inr rows"
      using same_rows_reads(4) [OF same_rows_inserts(3) [OF 4]] by simp
    then have "\<exists>d. prior_diff sha prior n new_rows v = Inr d"
      by (simp add: prior_diff_def Some)
    then show thesis using that by blast
  qed (auto simp: prior_diff_def intro: that)
  obtain b6 w where 6: "(case d of None \<Rightarrow> return_op False | Some d \<Rightarrow> stmt SnapshotError.Store (insert_snapshot_diff d)) v
      = (Inr b6, w)"
  proof (cases d)
    case (Some e)
    then show thesis using insert_totals(2) [of e v] that by (auto simp: stmt_def)
  qed (auto simp: return_op_def intro: that)
  have "record_snapshot sha a prior c old_rows new_rows s = (Inr (n, d), w)"
    unfolding record_snapshot_def Let_def assms(2) [symmetric] op_Inr prod.inject
    using 1(1) 2(1) 3 4 5 6 by blast
  then show ?thesis by blast
qed

section \<open>Properties of recorded snapshots\<close>

text \<open>
  A recorded row set reads back exactly: when recording a snapshot that has no stored rows
  succeeds, the verified reader returns precisely the rows that were parsed, in order, duplicates
  and raw values included.
\<close>

theorem record_snapshot_roundtrip:
  assumes "record_snapshot sha a prior n old_rows new_rows s = (Inr (snapshot, diff), s')"
    and "\<not> has_row_set (snap_id snapshot) s" "length new_rows \<le> nat i64_max"
  shows "snapshot_rows sha (snap_id snapshot) s' = Inr new_rows"
  using assms by (rule record_snapshot_read_back)

text \<open>
  Recording a snapshot without stored rows always succeeds when its prior, if any, reads back:
  there is no first-capture or new-version situation in which valid input is refused.
\<close>

theorem record_snapshot_succeeds:
  assumes "\<not> has_row_set (snapshot_id_for sha (acq_source_id a) (acq_bytes_digest a)) s"
    and "\<And>p. prior = Some p \<Longrightarrow> \<exists>rows. snapshot_rows sha (snap_id p) s = Inr rows"
  shows "\<exists>snapshot diff s'. record_snapshot sha a prior c old_rows new_rows s = (Inr (snapshot, diff), s')"
  using record_snapshot_total [of "acquisition_snapshot sha a c (map_option snap_id prior)" s sha a c prior
      old_rows new_rows] assms by (auto simp: acquisition_snapshot_def)

text \<open>
  Recording never rewrites history, whatever it returns: every table of the store is only
  extended, and the rows of every snapshot that has some read back as before, even when the call
  fails half way.
\<close>

theorem record_snapshot_keeps_history:
  assumes "record_snapshot sha a prior n old_rows new_rows s = (r, s')"
  shows "history s s' \<and> (\<forall>j. has_row_set j s \<longrightarrow> snapshot_rows sha j s' = snapshot_rows sha j s)"
proof -
  have steps: "store_step\<^sup>*\<^sup>* s s'" using op_steps_record_snapshot assms by (rule op_stepsD)
  then show ?thesis using row_set_kept [OF steps] snapshot_rows_cong history_steps by blast
qed

text \<open>
  The diff that recording returns compares the parsed rows with the prior snapshot's own stored
  rows: whatever old rows the caller passes, the result is the record diff of what the store
  verifiably holds.
\<close>

theorem record_snapshot_diff:
  assumes "record_snapshot sha a (Some p) n old_rows new_rows s = (Inr (snapshot, diff), s')"
    and "snapshot_rows sha (snap_id p) s = Inr stored" "stored \<noteq> []"
    and "snap_persisted_digest p \<noteq> acq_bytes_digest a"
  shows "diff = Some (record_diff sha (snap_id p) (snap_id snapshot) (acq_source_id a) stored new_rows)"
proof -
  obtain t u where sn: "snapshot = acquisition_snapshot sha a n (map_option snap_id (Some p))"
    and t: "same_rows s t"
    and ins: "insert_snapshot_row_set_with_rows sha (row_set_meta sha a (snap_id snapshot) new_rows)
       (map (to_snapshot_row sha) new_rows) t = Inr u"
    and d: "prior_diff sha (Some p) snapshot new_rows u = Inr diff"
    using assms(1) by (rule record_snapshot_Inr)
  have "has_row_set (snap_id p) t"
    using assms(2) same_rows_reads(3) [OF t]
    by (auto simp: has_row_set_def snapshot_rows_def split: option.splits)
  then have "snapshot_rows sha (snap_id p) u = snapshot_rows sha (snap_id p) t"
    using row_set_kept_step [OF step_row_set [OF ins]] by (intro snapshot_rows_cong) simp_all
  then have "snapshot_rows sha (snap_id p) u = Inr stored"
    using assms(2) same_rows_reads(4) [OF t] by simp
  moreover have "snap_persisted_digest snapshot = acq_bytes_digest a" "snap_source_id snapshot = acq_source_id a"
    by (simp_all add: sn acquisition_snapshot_def)
  ultimately show ?thesis using d assms(3,4) by (simp add: prior_diff_def)
qed

text \<open>
  C6: Stored rows are tamper-evident: if the completion metadata still carries the digest of the
  rows that were recorded, then whatever was done to the stored rows since, the verified reader
  returns them only if they are the recorded multiset of (key, canonical) pairs, unless the hash
  collides on the two streams.
\<close>

theorem stored_rows_tamper_evident:
  assumes "snapshot_row_set k s = Some meta" "rset_digest meta = row_set_digest sha recorded"
    and "rset_expected_count meta \<noteq> 0"
    and "list_all small_row recorded" "list_all small_row (snapshot_rows_raw k s)"
    and "inj_on sha {row_set_stream (snapshot_rows_raw k s), row_set_stream recorded}"
    and "snapshot_rows sha k s = Inr rows"
  shows "mset (map record_pair rows) = mset (map row_pair recorded)"
proof -
  let ?raw = "snapshot_rows_raw k s"
  from assms(1,3,7) have "row_set_digest sha ?raw = rset_digest meta" "rows = map of_snapshot_row ?raw"
    by (auto simp: snapshot_rows_def Let_def split: option.splits if_splits)
  then have "mset (map row_pair ?raw) = mset (map row_pair recorded)"
    using row_set_digest_iff [OF assms(5,4,6)] assms(2) by simp
  moreover have "map record_pair rows = map row_pair ?raw"
    by (simp add: \<open>rows = _\<close> of_snapshot_row_def comp_def)
  ultimately show ?thesis by (simp only:)
qed

text \<open>Rewriting the raw values of every stored row.\<close>

definition replace_raw :: "(SnapshotRow \<Rightarrow> str) \<Rightarrow> store \<Rightarrow> store" where
  "replace_raw f s = s\<lparr>st_snapshot_rows :=
     map (\<lambda>q. q\<lparr>srow_row := (srow_row q)\<lparr>row_raw_json := f (srow_row q)\<rparr>\<rparr>) (st_snapshot_rows s)\<rparr>"

lemma replace_raw_reads:
  "snapshot_row_set k (replace_raw f s) = snapshot_row_set k s"
  "snapshot_rows_raw k (replace_raw f s) =
     map (\<lambda>r. r\<lparr>row_raw_json := f r\<rparr>) (snapshot_rows_raw k s)"
proof -
  show "snapshot_row_set k (replace_raw f s) = snapshot_row_set k s"
    by (simp add: replace_raw_def snapshot_row_set_def)
  let ?g = "\<lambda>q :: StoredRow. q\<lparr>srow_row := (srow_row q)\<lparr>row_raw_json := f (srow_row q)\<rparr>\<rparr>"
  have st: "st_snapshot_rows (replace_raw f s) = map ?g (st_snapshot_rows s)" by (simp add: replace_raw_def)
  have sr: "srow_row (?g q) = (srow_row q)\<lparr>row_raw_json := f (srow_row q)\<rparr>" for q by simp
  have "filter (\<lambda>r. srow_snapshot_id r = k) (map ?g t) = map ?g (filter (\<lambda>r. srow_snapshot_id r = k) t)" for t
    by (induction t) simp_all
  moreover have "sort_key srow_seq (map ?g t) = map ?g (sort_key srow_seq t)" for t
  proof -
    have ins: "insort_key srow_seq (?g x) (map ?g u) = map ?g (insort_key srow_seq x u)" for x u
      by (induction u) simp_all
    show ?thesis by (induction t) (simp_all add: ins)
  qed
  ultimately show "snapshot_rows_raw k (replace_raw f s) =
     map (\<lambda>r. r\<lparr>row_raw_json := f r\<rparr>) (snapshot_rows_raw k s)"
    by (simp only: snapshot_rows_raw_def select_where_def st map_map comp_def sr)
qed

text \<open>
  The raw values are not covered by that verification: replacing the raw JSON of every stored
  row, in any way, leaves the reader satisfied, and it returns the replaced values.
\<close>

theorem raw_values_not_verified:
  assumes "snapshot_rows sha k s = Inr rows"
  shows "snapshot_rows sha k (replace_raw (\<lambda>_. v) s) = Inr (map (\<lambda>r. r\<lparr>rr_raw_json := v\<rparr>) rows)"
proof -
  let ?raw = "snapshot_rows_raw k s"
  have f: "find (\<lambda>r. row_digest r \<noteq> sha256_hex sha (as_bytes (row_canonical r)))
      (map (\<lambda>r. r\<lparr>row_raw_json := v\<rparr>) t) = None" if
    "find (\<lambda>r. row_digest r \<noteq> sha256_hex sha (as_bytes (row_canonical r))) t = None" for t
    using that by (auto simp: find_None_iff)
  have d: "row_set_digest sha (map (\<lambda>r. r\<lparr>row_raw_json := v\<rparr>) ?raw) = row_set_digest sha ?raw"
    by (rule row_set_digest_cong) (simp add: comp_def)
  have m: "map of_snapshot_row (map (\<lambda>r. r\<lparr>row_raw_json := v\<rparr>) ?raw) =
      map (\<lambda>r. r\<lparr>rr_raw_json := v\<rparr>) (map of_snapshot_row ?raw)"
    by (simp add: of_snapshot_row_def)
  from assms show ?thesis
    unfolding snapshot_rows_def replace_raw_reads Let_def d m
    by (auto simp: f split: option.splits if_splits)
qed

section \<open>Concrete captures\<close>

text \<open>A capture with the bytes digest \<open>d\<close> taken at \<open>at\<close>, for the witnesses.\<close>

definition sample_acquisition :: "str \<Rightarrow> str \<Rightarrow> Acquisition" where
  "sample_acquisition d at =
     \<lparr>acq_source_id = lit ''src'', acq_source_url = lit ''https://example.gov'', acq_retrieved_at = at,
      acq_bytes_digest = d, acq_content_type = None, acq_etag = None, acq_last_modified = None,
      acq_final_url = lit ''https://example.gov'', acq_redirect_history = [],
      acq_parser_version = lit ''1'', acq_schema_version = 1,
      acq_authority = SourceAuthority.Unreviewed, acq_coverage_state = CoverageState.Partial,
      acq_observations = []\<rparr>"

definition first_capture :: "RecordRow list \<Rightarrow> (SnapshotError + SourceSnapshot \<times> SnapshotDiff option) \<times> store" where
  "first_capture rows =
     record_snapshot id_hash (sample_acquisition (lit ''d1'') (lit ''t1'')) None None [] rows empty_store"

definition sample_record_row :: "string \<Rightarrow> string \<Rightarrow> RecordRow" where
  "sample_record_row k c = \<lparr>rr_key = lit k, rr_canonical = lit c, rr_raw_json = []\<rparr>"

lemma empty_store_rows [simp]:
  "snapshot_row_set k empty_store = None" "snapshot_rows_raw k empty_store = []"
proof -
  show "snapshot_row_set k empty_store = None"
    by (simp add: snapshot_row_set_def empty_store_def select_by_def)
  show "snapshot_rows_raw k empty_store = []"
    by (simp add: snapshot_rows_raw_def empty_store_def select_where_def)
qed

lemma empty_store_has_no_rows [simp]: "\<not> has_row_set k empty_store"
  by (simp add: has_row_set_def)

definition first_snapshot :: SourceSnapshot where
  "first_snapshot = acquisition_snapshot id_hash (sample_acquisition (lit ''d1'') (lit ''t1'')) None None"

lemma first_capture_ok: "\<exists>s. first_capture rows = (Inr (first_snapshot, None), s)"
proof -
  have n: "first_snapshot = acquisition_snapshot id_hash (sample_acquisition (lit ''d1'') (lit ''t1'')) None
      (map_option snap_id None)" by (simp add: first_snapshot_def)
  obtain d s where run: "record_snapshot id_hash (sample_acquisition (lit ''d1'') (lit ''t1'')) None None [] rows
      empty_store = (Inr (first_snapshot, d), s)"
    using record_snapshot_total [OF empty_store_has_no_rows n, of "[]" rows] by blast
  then obtain u where "prior_diff id_hash None first_snapshot rows u = Inr d"
    by (rule record_snapshot_Inr)
  then have "d = None" by (simp add: prior_diff_def)
  then show ?thesis using run by (simp add: first_capture_def)
qed

definition first_store :: "RecordRow list \<Rightarrow> store" where
  "first_store rows = snd (first_capture rows)"

lemma first_capture_eq: "first_capture rows = (Inr (first_snapshot, None), first_store rows)"
  using first_capture_ok [of rows] by (auto simp: first_store_def)

lemmas first_store_rows =
  record_snapshot_fresh [OF first_capture_eq [unfolded first_capture_def] empty_store_has_no_rows]
  record_snapshot_read_back [OF first_capture_eq [unfolded first_capture_def] empty_store_has_no_rows]

abbreviation two_rows :: "RecordRow list" where
  "two_rows \<equiv> [sample_record_row ''K'' ''a'', sample_record_row ''K'' ''a'']"

theorem record_snapshot_roundtrip_witness:
  "snapshot_rows id_hash (snap_id first_snapshot) (first_store two_rows) = Inr two_rows"
  using record_snapshot_roundtrip [OF first_capture_eq [of two_rows, unfolded first_capture_def]]
  by (simp add: i64_max_def)

theorem record_snapshot_succeeds_witness:
  "\<exists>snapshot diff s'. first_capture two_rows = (Inr (snapshot, diff), s')"
  unfolding first_capture_def by (rule record_snapshot_succeeds) simp_all

theorem record_snapshot_keeps_history_witness:
  "history empty_store (first_store two_rows)"
  using record_snapshot_keeps_history [OF first_capture_eq [of two_rows, unfolded first_capture_def]]
  by simp

text \<open>A second capture, with other bytes, compared with the first.\<close>

definition second_acquisition :: Acquisition where
  "second_acquisition = sample_acquisition (lit ''d2'') (lit ''t2'')"

definition second_snapshot :: SourceSnapshot where
  "second_snapshot = acquisition_snapshot id_hash second_acquisition None (Some (snap_id first_snapshot))"

lemma second_is_fresh: "\<not> has_row_set (snap_id second_snapshot) (first_store rows)"
proof -
  have "snap_id second_snapshot \<noteq> snap_id first_snapshot"
    by (simp add: second_snapshot_def first_snapshot_def second_acquisition_def snapshot_id_for_def acquisition_snapshot_def sample_acquisition_def stable_id_def
        stable_preimage_def id_hash_def lit_def utf8_def)
  then show ?thesis using first_store_rows(3) by simp
qed

theorem record_snapshot_diff_witness:
  "\<exists>snapshot s'. record_snapshot id_hash second_acquisition (Some first_snapshot) None [] [] (first_store two_rows) =
     (Inr (snapshot, Some (record_diff id_hash (snap_id first_snapshot) (snap_id snapshot)
        (lit ''src'') two_rows [])), s')"
proof -
  have read: "snapshot_rows id_hash (snap_id first_snapshot) (first_store two_rows) = Inr two_rows"
    by (rule first_store_rows) (simp add: i64_max_def)
  have n: "second_snapshot = acquisition_snapshot id_hash second_acquisition None
      (map_option snap_id (Some first_snapshot))" by (simp add: second_snapshot_def)
  have "\<exists>rows. snapshot_rows id_hash (snap_id p) (first_store two_rows) = Inr rows"
    if "Some first_snapshot = Some p" for p using that read by auto
  from record_snapshot_total [OF second_is_fresh n this, of "[]" "[]"]
  obtain d s' where run: "record_snapshot id_hash second_acquisition (Some first_snapshot) None [] []
      (first_store two_rows) = (Inr (second_snapshot, d), s')" by blast
  have ne: "two_rows \<noteq> []" by simp
  have "snap_persisted_digest first_snapshot \<noteq> acq_bytes_digest second_acquisition"
    by (simp add: first_snapshot_def second_acquisition_def acquisition_snapshot_def sample_acquisition_def)
  from record_snapshot_diff [OF run read ne this] run
  have "record_snapshot id_hash second_acquisition (Some first_snapshot) None [] [] (first_store two_rows) =
      (Inr (second_snapshot, Some (record_diff id_hash (snap_id first_snapshot) (snap_id second_snapshot)
        (acq_source_id second_acquisition) two_rows [])), s')" by simp
  moreover have "acq_source_id second_acquisition = lit ''src''"
    by (simp add: second_acquisition_def sample_acquisition_def)
  ultimately show ?thesis by (intro exI) simp
qed

lemma two_rows_small: "list_all small_row (map (to_snapshot_row id_hash) two_rows)"
  using small_sample_row [of "CHR ''K''" "CHR ''a''"]
  by (simp add: small_row_def sample_row_def to_snapshot_row_def sample_record_row_def)

theorem stored_rows_tamper_evident_witness:
  "mset (map record_pair two_rows) = mset (map row_pair (map (to_snapshot_row id_hash) two_rows))"
proof -
  let ?rows = "map (to_snapshot_row id_hash) two_rows"
  have raw: "snapshot_rows_raw (snap_id first_snapshot) (first_store two_rows) = ?rows"
    by (rule first_store_rows(1))
  have read: "snapshot_rows id_hash (snap_id first_snapshot) (first_store two_rows) = Inr two_rows"
    by (rule first_store_rows) (simp add: i64_max_def)
  have m: "stored_row_set (row_set_meta id_hash a k two_rows) = row_set_meta id_hash a k two_rows" for a k
    by (rule stored_row_set_small) (simp add: row_set_meta_def i64_max_def)
  show ?thesis
    using stored_rows_tamper_evident [OF first_store_rows(2) [of two_rows, unfolded m], of id_hash ?rows two_rows]
      two_rows_small read by (simp add: raw row_set_meta_def)
qed

theorem raw_values_not_verified_witness:
  "snapshot_rows id_hash (snap_id first_snapshot) (replace_raw (\<lambda>_. lit ''forged'') (first_store two_rows)) =
     Inr (map (\<lambda>r. r\<lparr>rr_raw_json := lit ''forged''\<rparr>) two_rows)"
  by (rule raw_values_not_verified) (rule first_store_rows, simp add: i64_max_def)

section \<open>An unchanged source\<close>

text \<open>
  A 304 answer is recorded as complete coverage whatever the acquisition claims: the ledger entry
  of an acquisition whose own coverage is only partial says complete.
\<close>

theorem unchanged_recorded_as_complete:
  assumes "coverage_id_for sha (acq_source_id a) (acq_retrieved_at a) \<notin> cov_id ` set (st_coverage s)"
  shows "\<exists>s' c. record_unchanged sha a existing s = (Inr True, s') \<and>
     c \<in> set (coverage_entries (acq_source_id a) s') \<and> cov_retrieved_at c = acq_retrieved_at a \<and>
     cov_state c = CoverageState.Complete \<and> cov_http_status c = Some 304"
proof -
  define c where "c = unchanged_entry sha a existing"
  define s' where "s' = s\<lparr>st_coverage := st_coverage s @ [c]\<rparr>"
  have c: "cov_id c = coverage_id_for sha (acq_source_id a) (acq_retrieved_at a)"
    "cov_source_id c = acq_source_id a" "cov_retrieved_at c = acq_retrieved_at a"
    "cov_state c = CoverageState.Complete" "cov_http_status c = Some 304"
    by (simp_all add: c_def unchanged_entry_def acquisition_coverage_entry_def)
  have "insert_coverage_entry c s = Inr (True, s')"
    using assms by (simp add: insert_coverage_entry_def insert_or_ignore_def c s'_def)
  then have "record_unchanged sha a existing s = (Inr True, s')"
    by (simp add: record_unchanged_def op_defs c_def)
  moreover have "c \<in> set (coverage_entries (acq_source_id a) s')"
    by (simp add: coverage_entries_def c s'_def)
  ultimately show ?thesis using c by blast
qed

theorem unchanged_recorded_as_complete_witness:
  "acq_coverage_state second_acquisition = CoverageState.Partial \<and>
   (\<exists>s' c. record_unchanged id_hash second_acquisition first_snapshot empty_store = (Inr True, s') \<and>
     c \<in> set (coverage_entries (acq_source_id second_acquisition) s') \<and> cov_state c = CoverageState.Complete)"
proof -
  have "st_coverage empty_store = []" by (simp add: empty_store_def)
  then have "coverage_id_for id_hash (acq_source_id second_acquisition) (acq_retrieved_at second_acquisition)
      \<notin> cov_id ` set (st_coverage empty_store)" by simp
  from unchanged_recorded_as_complete [OF this, of first_snapshot]
  obtain s' c where "record_unchanged id_hash second_acquisition first_snapshot empty_store = (Inr True, s')"
    "c \<in> set (coverage_entries (acq_source_id second_acquisition) s')" "cov_state c = CoverageState.Complete"
    by blast
  moreover have "acq_coverage_state second_acquisition = CoverageState.Partial"
    by (simp add: second_acquisition_def sample_acquisition_def)
  ultimately show ?thesis by blast
qed

end
