(* ===== verification/ChangeAlerts.thy ===== *)
theory ChangeAlerts
  imports Awards Snapshots
begin

text \<open>
  Change alerts (\<open>pnull-procurement/src/changealert.rs\<close>): the rows of two snapshots of the award table are
  matched by a stable identity, and every removal, addition and modification becomes one immutable
  alert.  The JSON encoding of a row (\<open>serde_json\<close>) is an argument.
\<close>

section \<open>Row identity\<close>

definition row_normalized_fields :: "AwardRow \<Rightarrow> str list" where
  "row_normalized_fields row =
     [aw_project_name row, aw_contractor row, aw_raw_amount row, aw_start_date row, aw_notes row]"

definition digest_identity :: "hash \<Rightarrow> AwardRow \<Rightarrow> str" where
  "digest_identity sha row = sha256_hex sha (as_bytes (join [31] (row_normalized_fields row)))"

definition row_identity :: "hash \<Rightarrow> AwardRow \<Rightarrow> str" where
  "row_identity sha row =
     (if trim (aw_solicitation_id row) = [] then digest_identity sha row
      else case identifier_match_key (aw_solicitation_id row) of
             Some k \<Rightarrow> k | None \<Rightarrow> digest_identity sha row)"

definition award_record_rows :: "(AwardRow \<Rightarrow> str) \<Rightarrow> hash \<Rightarrow> AwardRow list \<Rightarrow> RecordRow list" where
  "award_record_rows to_json sha rows =
     map (\<lambda>row. \<lparr>rr_key = row_identity sha row, rr_canonical = join [31] (row_normalized_fields row),
        rr_raw_json = to_json row\<rparr>) rows"

definition award_row_from_record_row :: "(str \<Rightarrow> AwardRow option) \<Rightarrow> RecordRow \<Rightarrow> AwardRow option" where
  "award_row_from_record_row of_json row =
     (if trim (rr_raw_json row) = [] then None else of_json (rr_raw_json row))"

section \<open>Alerts\<close>

definition field_diffs :: "AwardRow \<Rightarrow> AwardRow \<Rightarrow> FieldDiff list" where
  "field_diffs old_row new_row =
     concat (map (\<lambda>(field, old_raw, new_raw).
         if old_raw \<noteq> new_raw then [\<lparr>fd_field = field, fd_old_raw = old_raw, fd_new_raw = new_raw\<rparr>] else [])
       [(lit ''project_name'', aw_project_name old_row, aw_project_name new_row),
        (lit ''contractor'', aw_contractor old_row, aw_contractor new_row),
        (lit ''raw_amount'', aw_raw_amount old_row, aw_raw_amount new_row),
        (lit ''start_date'', aw_start_date old_row, aw_start_date new_row),
        (lit ''notes'', aw_notes old_row, aw_notes new_row)])"

text \<open>The arguments that \<open>build_change_alerts\<close> hands on to every alert.\<close>

record AlertContext =
  ac_source_id :: str
  ac_surface :: str
  ac_old_snapshot_id :: str
  ac_old_snapshot_digest :: str
  ac_new_snapshot_id :: str
  ac_new_snapshot_digest :: str
  ac_retrieved_at :: str
  ac_coverage_state :: CoverageState
  ac_matter_ids :: "str list"
  ac_identifier_ids :: "str list"

definition in_old :: "AlertContext \<Rightarrow> str" where
  "in_old c = ac_old_snapshot_id c @ lit '' (digest '' @ ac_old_snapshot_digest c @ lit '')''"

definition in_new :: "AlertContext \<Rightarrow> str" where
  "in_new c = ac_new_snapshot_id c @ lit '' (digest '' @ ac_new_snapshot_digest c @ lit '')''"

fun change_summary :: "AlertContext \<Rightarrow> ProcurementChangeKind \<Rightarrow> str" where
  "change_summary c ProcurementChangeKind.RecordRemoved =
     lit ''The row observed in snapshot '' @ in_old c @ lit '' is not present in snapshot '' @ in_new c @ lit ''.''"
| "change_summary c ProcurementChangeKind.RecordModified =
     lit ''The row in snapshot '' @ in_new c @ lit '' differs from the row observed in snapshot '' @ in_old c @ lit ''.''"
| "change_summary c ProcurementChangeKind.RecordAdded =
     lit ''A row not present in snapshot '' @ in_old c @ lit '' now appears in snapshot '' @ in_new c @ lit ''.''"

definition alert_for ::
  "hash \<Rightarrow> AlertContext \<Rightarrow> ProcurementChangeKind \<Rightarrow> str \<Rightarrow> FieldDiff list \<Rightarrow> ProcurementAlert" where
  "alert_for sha c kind identity diffs =
     \<lparr>pa_id = procurement_alert_id_for sha (ac_source_id c) (ac_surface c) identity kind
        (ac_old_snapshot_id c) (ac_new_snapshot_id c),
      pa_source_id = ac_source_id c, pa_surface = ac_surface c,
      pa_old_snapshot_id = ac_old_snapshot_id c, pa_old_snapshot_digest = ac_old_snapshot_digest c,
      pa_new_snapshot_id = ac_new_snapshot_id c, pa_new_snapshot_digest = ac_new_snapshot_digest c,
      pa_changes = [\<lparr>prc_change_kind = kind, prc_row_identity = identity, prc_field_diffs = diffs,
         prc_old_snapshot_id = ac_old_snapshot_id c, prc_old_snapshot_digest = ac_old_snapshot_digest c,
         prc_new_snapshot_id = ac_new_snapshot_id c, prc_new_snapshot_digest = ac_new_snapshot_digest c,
         prc_summary = change_summary c kind\<rparr>],
      pa_retrieved_at = ac_retrieved_at c, pa_coverage_state = ac_coverage_state c,
      pa_matter_ids = ac_matter_ids c, pa_identifier_ids = ac_identifier_ids c, pa_taxonomy_matches = [],
      pa_summary = change_summary c kind\<rparr>"

text \<open>The \<open>BTreeMap\<close> of rows by identity: sorted keys, and the last row of each.\<close>

definition row_map :: "hash \<Rightarrow> AwardRow list \<Rightarrow> (str \<times> AwardRow) list" where
  "row_map sha rows =
     map (\<lambda>k. (k, last (filter (\<lambda>r. row_identity sha r = k) rows)))
       (sort (remdups (map (row_identity sha) rows)))"

definition build_change_alerts ::
  "hash \<Rightarrow> AlertContext \<Rightarrow> AwardRow list \<Rightarrow> AwardRow list \<Rightarrow> ProcurementAlert list" where
  "build_change_alerts sha c old_rows new_rows =
     (let old_map = row_map sha old_rows; new_map = row_map sha new_rows in
      sort_key pa_id
        (concat (map (\<lambda>(identity, old_row).
           case map_of new_map identity of
             None \<Rightarrow> [alert_for sha c ProcurementChangeKind.RecordRemoved identity []]
           | Some new_row \<Rightarrow>
               let diffs = field_diffs old_row new_row in
               if diffs = [] then [] else [alert_for sha c ProcurementChangeKind.RecordModified identity diffs]) old_map) @
         map (\<lambda>identity. alert_for sha c ProcurementChangeKind.RecordAdded identity [])
           (filter (\<lambda>identity. map_of old_map identity = None) (map fst new_map))))"

datatype ChangeAlertError = Store CoreError | DifferentSources str str

definition persist_change_alerts :: "ProcurementAlert list \<Rightarrow> (ChangeAlertError, nat) op" where
  "persist_change_alerts als =
     for_op (\<lambda>a inserted. bind_op (stmt Store (insert_procurement_alert a))
       (\<lambda>added. return_op (if added then inserted + 1 else inserted))) als 0"

section \<open>Lemmas\<close>

text \<open>The row an identity stands for: the last one with it.\<close>

definition row_of :: "hash \<Rightarrow> AwardRow list \<Rightarrow> str \<Rightarrow> AwardRow option" where
  "row_of sha rows k = last_option (filter (\<lambda>r. row_identity sha r = k) rows)"

lemma row_map_keys [simp]: "set (map fst (row_map sha rows)) = row_identity sha ` set rows"
  "distinct (map fst (row_map sha rows))"
  by (simp_all add: row_map_def comp_def image_image)

lemma map_of_row_map: "map_of (row_map sha rows) k = row_of sha rows k"
proof -
  have m: "map_of (map (\<lambda>k. (k, f k)) ks) k = (if k \<in> set ks then Some (f k) else None)" for f :: "str \<Rightarrow> AwardRow" and ks
    by (induction ks) auto
  have "filter (\<lambda>r. row_identity sha r = k) rows = [] \<longleftrightarrow> k \<notin> row_identity sha ` set rows"
    by (auto simp: filter_empty_conv)
  then show ?thesis by (simp add: row_map_def m row_of_def last_option_def)
qed

lemma row_map_in: "(k, r) \<in> set (row_map sha rows) \<longleftrightarrow> row_of sha rows k = Some r"
  using map_of_eq_Some_iff [OF row_map_keys(2), of sha rows k r] by (simp add: map_of_row_map)

lemma row_of_None: "row_of sha rows k = None \<longleftrightarrow> k \<notin> row_identity sha ` set rows"
  by (auto simp: row_of_def last_option_def filter_empty_conv)

text \<open>What an alert reports.\<close>

definition reported :: "ProcurementAlert \<Rightarrow> (ProcurementChangeKind \<times> str \<times> FieldDiff list) list" where
  "reported a = map (\<lambda>c. (prc_change_kind c, prc_row_identity c, prc_field_diffs c)) (pa_changes a)"

lemma reported_alert_for [simp]: "reported (alert_for sha c kind k diffs) = [(kind, k, diffs)]"
  by (simp add: reported_def alert_for_def)

definition change_set :: "hash \<Rightarrow> AwardRow list \<Rightarrow> AwardRow list \<Rightarrow> (ProcurementChangeKind \<times> str \<times> FieldDiff list) set" where
  "change_set sha old_rows new_rows =
     {(ProcurementChangeKind.RecordRemoved, k, []) | k. row_of sha old_rows k \<noteq> None \<and> row_of sha new_rows k = None} \<union>
     {(ProcurementChangeKind.RecordAdded, k, []) | k. row_of sha old_rows k = None \<and> row_of sha new_rows k \<noteq> None} \<union>
     {(ProcurementChangeKind.RecordModified, k, field_diffs r q) | k r q.
        row_of sha old_rows k = Some r \<and> row_of sha new_rows k = Some q \<and> field_diffs r q \<noteq> []}"

text \<open>The alert a row of the old snapshot causes, and the alerts before they are sorted.\<close>

definition old_alerts :: "hash \<Rightarrow> AlertContext \<Rightarrow> AwardRow list \<Rightarrow> str \<times> AwardRow \<Rightarrow> ProcurementAlert list" where
  "old_alerts sha c new_rows kr =
     (case row_of sha new_rows (fst kr) of
        None \<Rightarrow> [alert_for sha c ProcurementChangeKind.RecordRemoved (fst kr) []]
      | Some q \<Rightarrow> if field_diffs (snd kr) q = [] then []
          else [alert_for sha c ProcurementChangeKind.RecordModified (fst kr) (field_diffs (snd kr) q)])"

definition new_alerts :: "hash \<Rightarrow> AlertContext \<Rightarrow> AwardRow list \<Rightarrow> AwardRow list \<Rightarrow> ProcurementAlert list" where
  "new_alerts sha c old_rows new_rows =
     map (\<lambda>k. alert_for sha c ProcurementChangeKind.RecordAdded k [])
       (filter (\<lambda>k. row_of sha old_rows k = None) (map fst (row_map sha new_rows)))"

lemma build_change_alerts_mset:
  "mset (build_change_alerts sha c old_rows new_rows) =
     mset (concat (map (old_alerts sha c new_rows) (row_map sha old_rows)) @ new_alerts sha c old_rows new_rows)"
  unfolding build_change_alerts_def Let_def mset_sort map_of_row_map old_alerts_def new_alerts_def case_prod_beta ..

lemma reported_old_alerts:
  "concat (map reported (old_alerts sha c new_rows (k, r))) =
     (case row_of sha new_rows k of None \<Rightarrow> [(ProcurementChangeKind.RecordRemoved, k, [])]
      | Some q \<Rightarrow> if field_diffs r q = [] then [] else [(ProcurementChangeKind.RecordModified, k, field_diffs r q)])"
  by (simp add: old_alerts_def split: option.split)

lemma reported_new_alerts:
  "concat (map reported (new_alerts sha c old_rows new_rows)) =
     map (\<lambda>k. (ProcurementChangeKind.RecordAdded, k, []))
       (filter (\<lambda>k. row_of sha old_rows k = None) (map fst (row_map sha new_rows)))"
  by (simp add: new_alerts_def comp_def concat_map_singleton)

definition all_reported :: "hash \<Rightarrow> AlertContext \<Rightarrow> AwardRow list \<Rightarrow> AwardRow list \<Rightarrow>
    (ProcurementChangeKind \<times> str \<times> FieldDiff list) list" where
  "all_reported sha c old_rows new_rows = concat (map reported (build_change_alerts sha c old_rows new_rows))"

lemma all_reported_mset:
  "mset (all_reported sha c old_rows new_rows) =
     mset (concat (map (\<lambda>kr. concat (map reported (old_alerts sha c new_rows kr))) (row_map sha old_rows)) @
       concat (map reported (new_alerts sha c old_rows new_rows)))"
proof -
  have c: "mset (concat (map f xs)) = mset (concat (map f ys))" if "mset xs = mset ys"
    for f :: "ProcurementAlert \<Rightarrow> 'x list" and xs ys
    using that by (simp add: mset_concat flip: sum_mset_sum_list)
  have "concat (map reported (concat (map (old_alerts sha c new_rows) xs))) =
      concat (map (\<lambda>kr. concat (map reported (old_alerts sha c new_rows kr))) xs)" for xs
    by (induction xs) simp_all
  then show ?thesis
    unfolding all_reported_def c [OF build_change_alerts_mset] by simp
qed

lemma in_change_set:
  "(kind, k, diffs) \<in> change_set sha old_rows new_rows \<longleftrightarrow>
     (case row_of sha old_rows k of
        None \<Rightarrow> row_of sha new_rows k \<noteq> None \<and> kind = ProcurementChangeKind.RecordAdded \<and> diffs = []
      | Some r \<Rightarrow>
          (case row_of sha new_rows k of
             None \<Rightarrow> kind = ProcurementChangeKind.RecordRemoved \<and> diffs = []
           | Some q \<Rightarrow> kind = ProcurementChangeKind.RecordModified \<and> diffs = field_diffs r q \<and> diffs \<noteq> []))"
  by (cases "row_of sha old_rows k"; cases "row_of sha new_rows k") (auto simp: change_set_def)

lemma in_reported_old:
  "(\<exists>j r. row_of sha old_rows j = Some r \<and>
      (kind, k, diffs) \<in> set (concat (map reported (old_alerts sha c new_rows (j, r))))) \<longleftrightarrow>
   (case row_of sha old_rows k of
      None \<Rightarrow> False
    | Some r \<Rightarrow>
        (case row_of sha new_rows k of
           None \<Rightarrow> kind = ProcurementChangeKind.RecordRemoved \<and> diffs = []
         | Some q \<Rightarrow> kind = ProcurementChangeKind.RecordModified \<and> diffs = field_diffs r q \<and> diffs \<noteq> []))"
proof -
  have "(kind, k, diffs) \<in> set (concat (map reported (old_alerts sha c new_rows (j, r)))) \<longleftrightarrow>
      j = k \<and> (case row_of sha new_rows k of
           None \<Rightarrow> kind = ProcurementChangeKind.RecordRemoved \<and> diffs = []
         | Some q \<Rightarrow> kind = ProcurementChangeKind.RecordModified \<and> diffs = field_diffs r q \<and> diffs \<noteq> [])" for j r
    unfolding reported_old_alerts by (cases "row_of sha new_rows j") auto
  then show ?thesis by (cases "row_of sha old_rows k") auto
qed

lemma set_all_reported: "set (all_reported sha c old_rows new_rows) = change_set sha old_rows new_rows"
proof -
  have "set (all_reported sha c old_rows new_rows) =
      set (concat (map (\<lambda>kr. concat (map reported (old_alerts sha c new_rows kr))) (row_map sha old_rows)) @
        concat (map reported (new_alerts sha c old_rows new_rows)))"
    by (rule mset_eq_setD [OF all_reported_mset])
  also have "\<dots> = change_set sha old_rows new_rows"
  proof (rule set_eqI)
    fix x
    have "x \<in> set (concat (map (\<lambda>kr. concat (map reported (old_alerts sha c new_rows kr))) (row_map sha old_rows))) \<longleftrightarrow>
        (\<exists>k r. row_of sha old_rows k = Some r \<and> x \<in> set (concat (map reported (old_alerts sha c new_rows (k, r)))))"
      by (force simp: row_map_in)
    moreover have "x \<in> set (concat (map reported (new_alerts sha c old_rows new_rows))) \<longleftrightarrow>
        (\<exists>k. x = (ProcurementChangeKind.RecordAdded, k, []) \<and> row_of sha old_rows k = None \<and> row_of sha new_rows k \<noteq> None)"
      unfolding reported_new_alerts row_of_None [of sha new_rows] set_map set_filter row_map_keys(1) [unfolded set_map]
      by auto
    ultimately show "x \<in> set (concat (map (\<lambda>kr. concat (map reported (old_alerts sha c new_rows kr))) (row_map sha old_rows)) @
          concat (map reported (new_alerts sha c old_rows new_rows))) \<longleftrightarrow> x \<in> change_set sha old_rows new_rows"
      unfolding set_append Un_iff
      by (cases x; cases "row_of sha old_rows (fst (snd x))"; cases "row_of sha new_rows (fst (snd x))")
        (simp_all only: in_reported_old in_change_set fst_conv snd_conv option.case, auto)
  qed
  finally show ?thesis .
qed

lemma distinct_all_reported: "distinct (map (\<lambda>x. fst (snd x)) (all_reported sha c old_rows new_rows))"
proof -
  let ?old = "\<lambda>xs. map (\<lambda>x. fst (snd x)) (concat (map (\<lambda>kr. concat (map reported (old_alerts sha c new_rows kr))) xs))"
  have sub: "set (?old xs) \<subseteq> set (map fst xs) \<and> (distinct (map fst xs) \<longrightarrow> distinct (?old xs))" for xs
  proof (induction xs)
    case (Cons x xs)
    obtain k r where x: "x = (k, r)" by fastforce
    have "map (\<lambda>x. fst (snd x)) (concat (map reported (old_alerts sha c new_rows x))) \<in> {[], [k]}"
      unfolding x reported_old_alerts by (simp split: option.split)
    moreover have "?old (x # xs) = map (\<lambda>x. fst (snd x)) (concat (map reported (old_alerts sha c new_rows x))) @ ?old xs"
      unfolding list.map concat.simps map_append ..
    ultimately have ext: "?old (x # xs) = ?old xs \<or> ?old (x # xs) = k # ?old xs" by force
    define os where "os = ?old xs"
    have "set os \<subseteq> set (map fst xs)" "distinct (map fst xs) \<longrightarrow> distinct os"
        "?old (x # xs) = os \<or> ?old (x # xs) = k # os"
      using Cons.IH ext unfolding os_def by blast+
    then show ?case unfolding x by (elim disjE) (simp_all only: list.map fst_conv distinct.simps list.set, blast+)
  qed simp
  have new: "map (\<lambda>x. fst (snd x)) (concat (map reported (new_alerts sha c old_rows new_rows))) =
      filter (\<lambda>k. row_of sha old_rows k = None) (map fst (row_map sha new_rows))"
    unfolding reported_new_alerts by (simp add: comp_def)
  define os ns where "os = ?old (row_map sha old_rows)"
    and "ns = filter (\<lambda>k. row_of sha old_rows k = None) (map fst (row_map sha new_rows))"
  have "set os \<subseteq> row_identity sha ` set old_rows" "distinct os"
    using sub [of "row_map sha old_rows"] row_map_keys [of sha old_rows] unfolding os_def by blast+
  moreover have "k \<notin> row_identity sha ` set old_rows" if "k \<in> set ns" for k
    using that by (simp add: ns_def row_of_None)
  moreover have "distinct ns" unfolding ns_def by (intro distinct_filter row_map_keys)
  ultimately have "distinct (os @ ns)" unfolding distinct_append by blast
  then have "distinct (map (\<lambda>x. fst (snd x))
      (concat (map (\<lambda>kr. concat (map reported (old_alerts sha c new_rows kr))) (row_map sha old_rows)) @
        concat (map reported (new_alerts sha c old_rows new_rows))))"
    unfolding map_append new os_def ns_def .
  moreover have "mset (map (\<lambda>x. fst (snd x)) (all_reported sha c old_rows new_rows)) =
      mset (map (\<lambda>x. fst (snd x))
        (concat (map (\<lambda>kr. concat (map reported (old_alerts sha c new_rows kr))) (row_map sha old_rows)) @
          concat (map reported (new_alerts sha c old_rows new_rows))))"
    unfolding mset_map all_reported_mset ..
  ultimately show ?thesis by (rule mset_eq_imp_distinct_iff [THEN iffD2, rotated])
qed

lemma persist_change_alerts_run:
  "for_op (\<lambda>a inserted. bind_op (stmt Store (insert_procurement_alert a))
       (\<lambda>added. return_op (if added then inserted + 1 else inserted))) als n s = (Inr m, s') \<Longrightarrow>
     pa_id ` set (st_proc_alerts s') = pa_id ` set (st_proc_alerts s) \<union> pa_id ` set als \<and>
     m + length (st_proc_alerts s) = n + length (st_proc_alerts s') \<and>
     (pa_id ` set als \<subseteq> pa_id ` set (st_proc_alerts s) \<longrightarrow> m = n \<and> s' = s)"
proof (induction als arbitrary: n s)
  case (Cons a als)
  obtain b t where ins: "insert_procurement_alert a s = Inr (b, t)"
    and rest: "for_op (\<lambda>a inserted. bind_op (stmt Store (insert_procurement_alert a))
       (\<lambda>added. return_op (if added then inserted + 1 else inserted))) als (if b then n + 1 else n) t = (Inr m, s')"
    using Cons.prems by (auto simp: op_Inr)
  have t: "b \<longleftrightarrow> pa_id a \<notin> pa_id ` set (st_proc_alerts s)"
    "t = (if b then s\<lparr>st_proc_alerts := st_proc_alerts s @ [a]\<rparr> else s)"
    using ins by (auto simp: insert_procurement_alert_def insert_or_ignore_def split: if_splits)
  from Cons.IH [OF rest] t show ?case by (cases b) auto
qed (simp add: op_Inr)

lemma persist_change_alerts_total:
  "\<exists>m s'. for_op (\<lambda>a inserted. bind_op (stmt Store (insert_procurement_alert a))
       (\<lambda>added. return_op (if added then inserted + 1 else inserted))) als n s = (Inr m, s')"
proof (induction als arbitrary: n s)
  case (Cons a als)
  obtain b t where "insert_procurement_alert a s = Inr (b, t)"
    by (cases "insert_or_ignore pa_id a (st_proc_alerts s)") (simp add: insert_procurement_alert_def)
  then show ?case using Cons.IH by (simp add: bind_op_def stmt_def return_op_def)
qed (simp add: op_defs)

section \<open>Properties\<close>

text \<open>
  The alerts report exactly the differences between the two snapshots, row identity by row identity: a
  removal for every identity only the old snapshot has, an addition for every identity only the new one
  has, a modification with exactly the changed fields for every identity whose row differs, nothing for
  an unchanged row, and no identity twice.  The order of rows with distinct identities does not enter.
\<close>

theorem change_alerts_exact:
  "set (concat (map reported (build_change_alerts sha c old_rows new_rows))) = change_set sha old_rows new_rows \<and>
   distinct (map (\<lambda>x. fst (snd x)) (concat (map reported (build_change_alerts sha c old_rows new_rows))))"
  using set_all_reported distinct_all_reported unfolding all_reported_def by blast

text \<open>
  Storing alerts is idempotent: it always succeeds, stores every alert whose identifier is new, and
  storing the same alerts again, as re-ingesting the same pair of snapshots does, inserts nothing and
  leaves the store as it was.
\<close>

theorem persist_change_alerts_idempotent:
  "\<exists>n s'. persist_change_alerts als s = (Inr n, s') \<and> persist_change_alerts als s' = (Inr 0, s') \<and>
     n + length (st_proc_alerts s) = length (st_proc_alerts s') \<and>
     pa_id ` set (st_proc_alerts s') = pa_id ` set (st_proc_alerts s) \<union> pa_id ` set als"
proof -
  obtain n s' where run: "persist_change_alerts als s = (Inr n, s')"
    using persist_change_alerts_total unfolding persist_change_alerts_def by blast
  obtain m s'' where again: "persist_change_alerts als s' = (Inr m, s'')"
    using persist_change_alerts_total unfolding persist_change_alerts_def by blast
  note first = persist_change_alerts_run [OF run [unfolded persist_change_alerts_def]]
    and second = persist_change_alerts_run [OF again [unfolded persist_change_alerts_def]]
  have "m = 0 \<and> s'' = s'" using first second by auto
  then show ?thesis using run again first by auto
qed

text \<open>
  The order of rows that share an identity does enter: the map keeps the last row of an identity, so
  two such rows with different content, merely listed in the other order, are reported as a modification.
\<close>

theorem reordering_reported_as_modification:
  assumes "row_identity sha a = row_identity sha b" "field_diffs b a \<noteq> []"
  shows "\<exists>al. al \<in> set (build_change_alerts sha c [a, b] [b, a]) \<and>
    reported al = [(ProcurementChangeKind.RecordModified, row_identity sha a, field_diffs b a)]"
proof -
  have "row_of sha [a, b] (row_identity sha a) = Some b" "row_of sha [b, a] (row_identity sha a) = Some a"
    using assms(1) by (simp_all add: row_of_def last_option_def)
  then have "(ProcurementChangeKind.RecordModified, row_identity sha a, field_diffs b a) \<in> change_set sha [a, b] [b, a]"
    using assms(2) by (simp add: in_change_set)
  then obtain al where al: "al \<in> set (build_change_alerts sha c [a, b] [b, a])"
    "(ProcurementChangeKind.RecordModified, row_identity sha a, field_diffs b a) \<in> set (reported al)"
    unfolding set_all_reported [symmetric, where c = c] all_reported_def by auto
  have "\<exists>x. reported al = [x]"
  proof -
    have "al \<in> set (concat (map (old_alerts sha c [b, a]) (row_map sha [a, b])) @ new_alerts sha c [a, b] [b, a])"
      using al(1) mset_eq_setD [OF build_change_alerts_mset] by blast
    then show ?thesis by (auto simp: old_alerts_def new_alerts_def split: option.splits if_splits)
  qed
  with al show ?thesis by auto
qed

theorem reordering_reported_as_modification_witness:
  "\<exists>al c. al \<in> set (build_change_alerts id_hash c [plain_row [65] [66], plain_row [65] [67]]
      [plain_row [65] [67], plain_row [65] [66]]) \<and> pa_changes al \<noteq> []"
proof -
  have "row_identity id_hash (plain_row [65] [66]) = row_identity id_hash (plain_row [65] [67])"
    by (simp add: row_identity_def plain_row_def identifier_match_key_def normalize_identifier_def trim_by_def
        trim_start_by_def trim_end_by_def is_ws_def is_alnum_def is_digit_def is_upper_def)
  moreover have "field_diffs (plain_row [65] [67]) (plain_row [65] [66]) \<noteq> []"
    by (simp add: field_diffs_def plain_row_def)
  ultimately show ?thesis
    using reordering_reported_as_modification [of id_hash "plain_row [65] [66]" "plain_row [65] [67]"]
    by (fastforce simp: reported_def)
qed

end
