(* ===== verification/Solicitations.thy ===== *)
theory Solicitations
  imports Awards Snapshots Detect
begin

text \<open>
  The informational list of solicitations (\<open>pnull-procurement/src/solicitations.rs\<close>) and the finding
  about OpenBook (\<open>openbook.rs\<close>).  The HTML library is an argument: what is used of it is, per anchor
  with an \<open>href\<close>, that attribute, whether the anchor stands in a heading and its text nodes, and, per
  heading, its text nodes and the \<open>href\<close>s of its anchors.
\<close>

section \<open>The list\<close>

record page_anchor =
  an_href :: str
  an_in_heading :: bool
  an_text :: "str list"

record page_heading =
  hd_text :: "str list"
  hd_hrefs :: "str list"

record page_view =
  pg_anchors :: "page_anchor list"
  pg_headings :: "page_heading list"

type_synonym page_reader = "str \<Rightarrow> page_view"

datatype SolicitationError = ListNotFound

definition INCOMPLETENESS_WARNING :: str where
  "INCOMPLETENESS_WARNING =
     lit ''Solicitations are provided on this page for information purposes only. '' @
     lit ''RFP'' @ [39] @ lit ''s and IFB'' @ [39] @ lit ''s listed here may or may not be up to date. '' @
     lit ''BidNet (Rocky Mountain E-Purchasing System) and Bonfire Interactive Procurement Portal '' @
     lit ''remain the authoritative and valid version for procurement purposes. '' @
     lit ''Not all open RFP'' @ [39] @ lit ''s and IFB'' @ [39] @ lit ''s are listed yet.''"

definition ABSENCE_PHRASING :: str where
  "ABSENCE_PHRASING = lit ''Not observed in the checked sources.''"

definition normalize :: "str \<Rightarrow> str" where
  "normalize t = join [32] (split_whitespace t)"

definition absolutize :: "str \<Rightarrow> str" where
  "absolutize href =
     (if starts_with href (lit ''http://'') \<or> starts_with href (lit ''https://'') then href
      else lit ''https://coloradosprings.gov'' @ href)"

text \<open>\<open>str::replace\<close> of a non-empty pattern by nothing: the matches from the left, none overlapping.\<close>

function str_remove :: "str \<Rightarrow> str \<Rightarrow> str" where
  "str_remove p [] = []"
| "str_remove p (c # cs) =
     (if p \<noteq> [] \<and> starts_with (c # cs) p then str_remove p (drop (length p) (c # cs))
      else c # str_remove p cs)"
  by pat_completeness auto

termination
  by (relation "measure (length \<circ> snd)") (auto simp: Suc_le_eq neq_Nil_conv)

definition identifier_pattern :: str where
  "identifier_pattern =
     lit ''(?i)'' @ [92] @ lit ''b(rfp|rfq|ifb|r|q|b)?-?'' @ [92] @
     lit ''s?[0-9]{2}-[0-9]{3}[a-z]{0,3}'' @ [92] @ lit ''b''"

text \<open>The anchors outside any heading, then the headings with their links.\<close>

definition anchor_item :: "page_anchor \<Rightarrow> (str \<times> str list) option" where
  "anchor_item a =
     (let href = absolutize (an_href a); content = normalize (join [32] (an_text a)) in
      if href = [] \<or> an_in_heading a \<or> content = [] then None else Some (content, [href]))"

definition heading_item :: "page_heading \<Rightarrow> (str \<times> str list) option" where
  "heading_item h =
     (let content = normalize (join [32] (hd_text h)) in
      if content = [] then None
      else Some (content, filter (\<lambda>u. u \<noteq> []) (map absolutize (hd_hrefs h))))"

definition page_items :: "page_view \<Rightarrow> (str \<times> str list) list" where
  "page_items page =
     List.map_filter anchor_item (pg_anchors page) @ List.map_filter heading_item (pg_headings page)"

definition identifier_kind :: "str \<Rightarrow> IdentifierKind" where
  "identifier_kind identifier =
     (let upper = to_ascii_uppercase identifier in
      if starts_with upper (lit ''RFP'') then IdentifierKind.Rfp
      else if starts_with upper (lit ''RFQ'') then IdentifierKind.Rfq
      else if starts_with upper (lit ''IFB'') then IdentifierKind.Ifb
      else if identifier \<noteq> [] then IdentifierKind.SolicitationNumber
      else IdentifierKind.Unknown)"

definition item_identifier :: "text_lib \<Rightarrow> str \<Rightarrow> str" where
  "item_identifier L content =
     (case regex_find L identifier_pattern content of
        None \<Rightarrow> [] | Some (_, found) \<Rightarrow> normalize found)"

definition item_title :: "str \<Rightarrow> str \<Rightarrow> str" where
  "item_title identifier content =
     (if identifier = [] then content else trim (str_remove identifier content))"

definition record_of_item ::
  "text_lib \<Rightarrow> str \<Rightarrow> str \<times> str list \<Rightarrow> SolicitationRecord option" where
  "record_of_item L snapshot_digest item =
     (let (content, links) = item;
          identifier = item_identifier L content;
          title = item_title identifier content in
      if content = [] \<and> links = [] \<or> title = [] \<and> identifier = [] \<and> links = [] then None
      else Some
        \<lparr>sol_title = title, sol_identifier = identifier, sol_identifier_kind = identifier_kind identifier,
         sol_linked_documents = links, sol_authority = OfficialInformationalMirror,
         sol_coverage_state = InformationalOnly, sol_incompleteness_warning = INCOMPLETENESS_WARNING,
         sol_snapshot_digest = snapshot_digest\<rparr>)"

definition parse_solicitations ::
  "text_lib \<Rightarrow> page_reader \<Rightarrow> str \<Rightarrow> str \<Rightarrow> SolicitationError + SolicitationRecord list" where
  "parse_solicitations L parse_document html snapshot_digest =
     (let records = List.map_filter (record_of_item L snapshot_digest) (page_items (parse_document html)) in
      if records = [] then Inl ListNotFound else Inr records)"

definition solicitation_identifier :: "hash \<Rightarrow> str \<Rightarrow> SolicitationRecord \<Rightarrow> ProcurementIdentifier option" where
  "solicitation_identifier sha matter_id r =
     (if sol_identifier r = [] then None
      else Some (identifier_for sha matter_id (sol_identifier_kind r) (sol_identifier r) solicitation_source))"

definition solicitation_canonical :: "SolicitationRecord \<Rightarrow> str" where
  "solicitation_canonical r =
     sol_identifier r @ [31] @ sol_title r @ [31] @ join [31] (sol_linked_documents r)"

definition solicitation_record_rows ::
  "(SolicitationRecord \<Rightarrow> str) \<Rightarrow> hash \<Rightarrow> SolicitationRecord list \<Rightarrow> RecordRow list" where
  "solicitation_record_rows to_json sha records =
     map (\<lambda>r. \<lparr>rr_key = (if trim (sol_identifier r) = [] then sha256_hex sha (as_bytes (solicitation_canonical r))
                         else sol_identifier r),
               rr_canonical = solicitation_canonical r, rr_raw_json = to_json r\<rparr>) records"

section \<open>OpenBook\<close>

definition OPENBOOK_LANDING_URL :: str where
  "OPENBOOK_LANDING_URL = lit ''https://coloradosprings.gov/budget/page/openbook-cos''"

definition OPENBOOK_SOCRATA_URL :: str where
  "OPENBOOK_SOCRATA_URL = lit ''https://coloradosprings.budget.socrata.com/''"

definition OPENBOOK_VIEW_DATA_URL :: str where
  "OPENBOOK_VIEW_DATA_URL = lit ''https://coloradosprings.budget.socrata.com/#!/view-data''"

definition OPENBOOK_DATASETS :: "str list" where
  "OPENBOOK_DATASETS = map lit [''3mjf-cycw'', ''utpe-gz6w'', ''9x87-g8nk'', ''bxi2-uqix'']"

definition OPENBOOK_FIELDS :: "str list" where
  "OPENBOOK_FIELDS =
     map lit [''department_description'', ''fund_description'', ''account_description'', ''service'', ''budget'']"

record OpenBookFinding =
  ob_authority :: SourceAuthority
  ob_coverage_state :: CoverageState
  ob_has_vendor_level_expenditures :: bool
  ob_has_procurement_identifier :: bool
  ob_fields :: "str list"
  ob_datasets :: "str list"
  ob_note :: str

definition openbook_note :: str where
  "openbook_note =
     lit ''OpenBook COS exposes budget-level data (department, fund, account, '' @
     lit ''service, budget) only. It provides no vendor-level expenditure field and '' @
     lit ''no contract, purchase-order, or invoice identifier, so it cannot connect '' @
     lit ''expenditures to a procurement matter at the vendor level. Payment evidence '' @
     lit ''is therefore unavailable from this source in this milestone.''"

definition current :: OpenBookFinding where
  "current =
     \<lparr>ob_authority = OfficialFinancialExport, ob_coverage_state = InformationalOnly,
      ob_has_vendor_level_expenditures = False, ob_has_procurement_identifier = False,
      ob_fields = OPENBOOK_FIELDS, ob_datasets = OPENBOOK_DATASETS, ob_note = openbook_note\<rparr>"

section \<open>Lemmas\<close>

definition is_absolute :: "str \<Rightarrow> bool" where
  "is_absolute u \<longleftrightarrow> starts_with u (lit ''http://'') \<or> starts_with u (lit ''https://'')"

lemma absolutize_absolute [simp]: "is_absolute (absolutize href)"
  by (simp add: absolutize_def is_absolute_def lit_def)

lemma absolutize_ne [simp]: "absolutize href \<noteq> []"
  using absolutize_absolute [of href] by (auto simp: is_absolute_def lit_def)

text \<open>What the parser takes for the texts of the page: those of the anchors outside headings, and of the headings.\<close>

definition visible_text :: "str list \<Rightarrow> bool" where
  "visible_text nodes \<longleftrightarrow> normalize (join [32] nodes) \<noteq> []"

definition listed_anchor :: "page_anchor \<Rightarrow> bool" where
  "listed_anchor a \<longleftrightarrow> \<not> an_in_heading a \<and> visible_text (an_text a)"

lemma map_filter_guarded:
  "(\<And>x. f x = (if P x then Some (g x) else None)) \<Longrightarrow> List.map_filter f xs = map g (filter P xs)"
  by (induction xs) (simp_all add: List.map_filter_simps)

lemma page_items_eq:
  "page_items page =
     map (\<lambda>a. (normalize (join [32] (an_text a)), [absolutize (an_href a)])) (filter listed_anchor (pg_anchors page)) @
     map (\<lambda>h. (normalize (join [32] (hd_text h)), map absolutize (hd_hrefs h)))
       (filter (visible_text \<circ> hd_text) (pg_headings page))"
proof -
  have keep: "filter (\<lambda>u. u \<noteq> []) (map absolutize hs) = map absolutize hs" for hs
    by (simp add: filter_id_conv)
  have "List.map_filter anchor_item (pg_anchors page) =
      map (\<lambda>a. (normalize (join [32] (an_text a)), [absolutize (an_href a)])) (filter listed_anchor (pg_anchors page))"
    by (rule map_filter_guarded) (simp add: anchor_item_def Let_def listed_anchor_def visible_text_def)
  moreover have "List.map_filter heading_item (pg_headings page) =
      map (\<lambda>h. (normalize (join [32] (hd_text h)), map absolutize (hd_hrefs h)))
        (filter (visible_text \<circ> hd_text) (pg_headings page))"
    by (rule map_filter_guarded) (simp add: heading_item_def Let_def visible_text_def keep)
  ultimately show ?thesis by (simp add: page_items_def)
qed

lemma record_of_item_text:
  assumes "fst item \<noteq> []"
  obtains r where "record_of_item L d item = Some r" "sol_linked_documents r = snd item"
    "sol_incompleteness_warning r = INCOMPLETENESS_WARNING" "sol_authority r = OfficialInformationalMirror"
    "sol_coverage_state r = InformationalOnly" "sol_snapshot_digest r = d"
  using assms by (cases item) (auto simp: record_of_item_def Let_def item_title_def)

definition warned :: "str \<Rightarrow> SolicitationRecord \<Rightarrow> bool" where
  "warned d r \<longleftrightarrow>
     sol_incompleteness_warning r = INCOMPLETENESS_WARNING \<and> sol_authority r = OfficialInformationalMirror \<and>
     sol_coverage_state r = InformationalOnly \<and> sol_snapshot_digest r = d \<and>
     list_all is_absolute (sol_linked_documents r)"

lemma page_items_text:
  "item \<in> set (page_items page) \<Longrightarrow>
     fst item \<noteq> [] \<and> list_all is_absolute (snd item)"
  by (auto simp: page_items_eq listed_anchor_def visible_text_def list_all_iff)

lemma items_records:
  assumes "\<And>i. i \<in> set items \<Longrightarrow> fst i \<noteq> [] \<and>
      list_all is_absolute (snd i)"
  shows "map sol_linked_documents (List.map_filter (record_of_item L d) items) = map snd items \<and>
    list_all (warned d) (List.map_filter (record_of_item L d) items)"
  using assms
proof (induction items)
  case (Cons i items)
  obtain r where r: "record_of_item L d i = Some r" "sol_linked_documents r = snd i"
    "sol_incompleteness_warning r = INCOMPLETENESS_WARNING" "sol_authority r = OfficialInformationalMirror"
    "sol_coverage_state r = InformationalOnly" "sol_snapshot_digest r = d"
    by (rule record_of_item_text [of i L d]) (use Cons.prems [of i] in auto)
  then have "warned d r" using Cons.prems [of i] by (simp add: warned_def)
  then show ?case using Cons r by (simp add: List.map_filter_simps)
qed (simp add: List.map_filter_simps)

section \<open>Properties\<close>

text \<open>
  Every listed element becomes exactly one record, in page order (the anchors outside headings, then the
  headings), with the links it holds made absolute; every record carries the warning of the list, the
  mirror authority, the informational state and the digest of its snapshot.  The list is reported missing
  exactly if no element of the page has text.
\<close>

theorem every_listed_element_is_recorded:
  "parse_solicitations L parse_document html d = Inl ListNotFound \<and>
     filter listed_anchor (pg_anchors (parse_document html)) = [] \<and>
     filter (visible_text \<circ> hd_text) (pg_headings (parse_document html)) = [] \<or>
   (\<exists>records. parse_solicitations L parse_document html d = Inr records \<and> records \<noteq> [] \<and>
      map sol_linked_documents records =
        map (\<lambda>a. [absolutize (an_href a)]) (filter listed_anchor (pg_anchors (parse_document html))) @
        map (\<lambda>h. map absolutize (hd_hrefs h)) (filter (visible_text \<circ> hd_text) (pg_headings (parse_document html))) \<and>
      list_all (warned d) records)"
proof -
  let ?items = "page_items (parse_document html)"
  let ?rs = "List.map_filter (record_of_item L d) ?items"
  have docs: "map sol_linked_documents ?rs = map snd ?items" and warn: "list_all (warned d) ?rs"
    using items_records [of ?items L d] page_items_text by blast+
  have empty: "?rs = [] \<longleftrightarrow> ?items = []" using docs by (metis Nil_is_map_conv)
  have links: "map snd ?items =
      map (\<lambda>a. [absolutize (an_href a)]) (filter listed_anchor (pg_anchors (parse_document html))) @
      map (\<lambda>h. map absolutize (hd_hrefs h)) (filter (visible_text \<circ> hd_text) (pg_headings (parse_document html)))"
    by (simp add: page_items_eq comp_def)
  show ?thesis
  proof (cases "?rs = []")
    case True
    then have "?items = []" using empty by simp
    then show ?thesis using True by (simp add: parse_solicitations_def page_items_eq)
  next
    case False
    then show ?thesis using docs warn links by (simp add: parse_solicitations_def)
  qed
qed

text \<open>
  An empty link target is not skipped: it becomes the address of the site, and a mail address becomes an
  address that does not exist.
\<close>

lemma empty_href_is_kept:
  "absolutize [] = lit ''https://coloradosprings.gov'' \<and>
   absolutize (lit ''mailto:x'') = lit ''https://coloradosprings.govmailto:x''"
  by (simp add: absolutize_def lit_def)

text \<open>The identifier is removed from the title: what is left does not contain it unless the removal joins two parts.\<close>

lemma str_remove_absent: "\<not> str_contains s p \<Longrightarrow> str_remove p s = s"
  by (induction p s rule: str_remove.induct) auto

end
