(* ===== verification/Imports.thy ===== *)
theory Imports
  imports CoraLedger
begin

text \<open>
  The import of operator-supplied records (\<open>pnull-procurement/src/import.rs\<close>).  The bytes are written
  into the content files of the store (\<open>evidence/sha256/\<close>, the field \<open>st_content\<close>); what reading the
  given file answers and whether writing succeeds are arguments, as is the JSON encoding of a record.
\<close>

section \<open>The import\<close>

datatype ImportError =
  Refused str
| Oversized nat nat
| DigestMismatch str str
| Io

record SuppliedRecordDeclaration =
  decl_source_or_request_id :: str
  decl_acquisition_date :: str
  decl_document_role :: str
  decl_lawful_possession :: bool
  decl_declared_digest :: str
  decl_operator :: str

record SuppliedRecord =
  sr_id :: str
  sr_declaration :: SuppliedRecordDeclaration
  sr_observed_digest :: str
  sr_byte_count :: nat
  sr_source_url :: "str option"
  sr_human_reviewed :: bool
  sr_processing_provenance :: str

definition supplied_record_of :: "hash \<Rightarrow> SuppliedRecordDeclaration \<Rightarrow> bytes \<Rightarrow> SuppliedRecord" where
  "supplied_record_of sha declaration content =
     (let observed_digest = sha256_hex sha content in
      \<lparr>sr_id = stable_id sha (lit ''supplied-record'') [decl_source_or_request_id declaration, observed_digest],
       sr_declaration = declaration, sr_observed_digest = observed_digest, sr_byte_count = length content,
       sr_source_url = (if starts_with (decl_source_or_request_id declaration) (lit ''http'')
                        then Some (decl_source_or_request_id declaration) else None),
       sr_human_reviewed = False,
       sr_processing_provenance = lit ''imported by '' @ decl_operator declaration @ lit '' on '' @
         decl_acquisition_date declaration\<rparr>)"

text \<open>The write: a file that is already there is left as it is.\<close>

definition write_new_content :: "bool \<Rightarrow> str \<Rightarrow> bytes \<Rightarrow> (ImportError, unit) op" where
  "write_new_content writable digest content s =
     (if st_content s digest \<noteq> None then (Inr (), s)
      else if \<not> writable then (Inl Io, s)
      else (Inr (), s\<lparr>st_content := (st_content s)(digest \<mapsto> content)\<rparr>))"

definition import_supplied_record ::
  "hash \<Rightarrow> bool \<Rightarrow> bytes option \<Rightarrow> SuppliedRecordDeclaration \<Rightarrow> nat \<Rightarrow> (ImportError, SuppliedRecord) op" where
  "import_supplied_record sha writable file declaration max_bytes =
     (if \<not> decl_lawful_possession declaration
      then fail_op (Refused (lit ''operator must declare lawful possession''))
      else if trim (decl_source_or_request_id declaration) = []
      then fail_op (Refused (lit ''a declared source URL or records-request identifier is required''))
      else if trim (decl_document_role declaration) = []
      then fail_op (Refused (lit ''document role is required''))
      else
        case file of
          None \<Rightarrow> fail_op Io
        | Some content \<Rightarrow>
            if length content > max_bytes then fail_op (Oversized max_bytes (length content))
            else if sha256_hex sha content \<noteq> decl_declared_digest declaration
            then fail_op (DigestMismatch (decl_declared_digest declaration) (sha256_hex sha content))
            else bind_op (write_new_content writable (sha256_hex sha content) content)
              (\<lambda>_. return_op (supplied_record_of sha declaration content)))"

definition persist_supplied_record ::
  "(SuppliedRecord \<Rightarrow> str) \<Rightarrow> SuppliedRecord \<Rightarrow> store \<Rightarrow> (bool \<times> store) core_result" where
  "persist_supplied_record to_json r =
     insert_supplied_record_json (sr_id r) (sr_observed_digest r) (to_json r)"

section \<open>Lemmas\<close>

text \<open>The declarations and files the importer takes.\<close>

definition importable :: "hash \<Rightarrow> SuppliedRecordDeclaration \<Rightarrow> nat \<Rightarrow> bytes \<Rightarrow> bool" where
  "importable sha declaration max_bytes content \<longleftrightarrow>
     decl_lawful_possession declaration \<and> trim (decl_source_or_request_id declaration) \<noteq> [] \<and>
     trim (decl_document_role declaration) \<noteq> [] \<and> length content \<le> max_bytes \<and>
     decl_declared_digest declaration = sha256_hex sha content"

lemma import_Inr:
  "import_supplied_record sha writable file declaration max_bytes s = (Inr r, s') \<longleftrightarrow>
     (\<exists>content. file = Some content \<and> importable sha declaration max_bytes content \<and>
        (st_content s (sha256_hex sha content) \<noteq> None \<or> writable) \<and>
        r = supplied_record_of sha declaration content \<and>
        s' = s\<lparr>st_content := (st_content s)(sha256_hex sha content \<mapsto>
               case st_content s (sha256_hex sha content) of Some old \<Rightarrow> old | None \<Rightarrow> content)\<rparr>)"
proof (cases "file :: bytes option")
  case (Some content)
  show ?thesis
    by (cases "st_content s (sha256_hex sha content)")
       (auto simp: Some import_supplied_record_def importable_def op_defs write_new_content_def fun_upd_idem)
qed (simp add: import_supplied_record_def op_defs)

lemma import_failed:
  "import_supplied_record sha writable file declaration max_bytes s = (Inl e, s') \<Longrightarrow> s' = s"
  by (auto simp: import_supplied_record_def op_defs write_new_content_def split: if_splits option.splits)

text \<open>Every content file holds bytes of the digest it is named after.\<close>

definition content_addressed :: "hash \<Rightarrow> store \<Rightarrow> bool" where
  "content_addressed sha s \<longleftrightarrow> (\<forall>d content. st_content s d = Some content \<longrightarrow> sha256_hex sha content = d)"

lemma content_addressedD: "content_addressed sha s \<Longrightarrow> st_content s d = Some content \<Longrightarrow> sha256_hex sha content = d"
  by (simp add: content_addressed_def)

lemma select_by_insert:
  assumes "insert_or_ignore key r t = (b, t')"
  shows "select_by key (key r) t' \<noteq> None"
proof -
  have "r \<in> set t' \<or> key r \<in> key ` set t'" using assms by (auto simp: insert_or_ignore_def split: if_splits)
  then show ?thesis by (auto simp: select_by_def find_None_iff)
qed

section \<open>Properties\<close>

text \<open>
  The importer accepts exactly the files that are declared as lawfully held, with a source and a role, that
  fit the limit and have the declared digest; the record it returns is never marked reviewed.
\<close>

theorem import_accepts_iff:
  "(\<exists>r s'. import_supplied_record sha writable file declaration max_bytes s = (Inr r, s')) \<longleftrightarrow>
     (\<exists>content. file = Some content \<and> importable sha declaration max_bytes content \<and>
        (st_content s (sha256_hex sha content) \<noteq> None \<or> writable))"
  unfolding import_Inr by blast

text \<open>
  An import keeps the content files content-addressed, changes no file that is already there, and changes
  nothing at all when it fails.
\<close>

theorem import_keeps_content_addressed:
  assumes "content_addressed sha s" "import_supplied_record sha writable file declaration max_bytes s = (r, s')"
  shows "content_addressed sha s' \<and> st_content s \<subseteq>\<^sub>m st_content s' \<and> s' = s\<lparr>st_content := st_content s'\<rparr>"
proof (cases r)
  case (Inl e)
  then have "s' = s" using assms(2) import_failed by blast
  then show ?thesis using assms(1) by simp
next
  case (Inr r')
  then obtain content where s': "s' = s\<lparr>st_content := (st_content s)(sha256_hex sha content \<mapsto>
      case st_content s (sha256_hex sha content) of Some old \<Rightarrow> old | None \<Rightarrow> content)\<rparr>"
    using assms(2) import_Inr by blast
  show ?thesis using assms(1) by (auto simp: s' content_addressed_def map_le_def split: option.splits)
qed

text \<open>An import of three bytes into an empty store, hashed by the identity.\<close>

definition sample_declaration :: SuppliedRecordDeclaration where
  "sample_declaration =
     \<lparr>decl_source_or_request_id = [67, 49], decl_acquisition_date = [50],
      decl_document_role = [99], decl_lawful_possession = True, decl_declared_digest = [1, 2, 3],
      decl_operator = [111]\<rparr>"

definition sample_record :: SuppliedRecord where
  "sample_record = supplied_record_of (\<lambda>b. b) sample_declaration [1, 2, 3]"

definition before_import :: store where
  "before_import = drafted_store (\<lambda>b. b)"

definition after_import :: store where
  "after_import = before_import\<lparr>st_content := [[1, 2, 3] \<mapsto> [1, 2, 3]]\<rparr>"

lemma before_import_empty: "st_content before_import = Map.empty"
  by (simp add: before_import_def drafted_store_def empty_store_def)

lemma sample_import:
  "import_supplied_record (\<lambda>b. b) True (Some [1, 2, 3]) sample_declaration 10 before_import = (Inr sample_record, after_import)"
proof -
  have "trim [67, 49] \<noteq> []" "trim [99] \<noteq> []"
    by (simp_all add: trim_by_def trim_start_by_def trim_end_by_def is_ws_def)
  then show ?thesis
    by (simp add: import_Inr importable_def sample_declaration_def sha256_hex_def sample_record_def after_import_def
        before_import_empty)
qed

theorem import_keeps_content_addressed_witness:
  "content_addressed (\<lambda>b. b) after_import"
  by (rule import_keeps_content_addressed [OF _ sample_import, THEN conjunct1])
     (simp add: content_addressed_def before_import_empty)

text \<open>
  An imported record that is persisted is one a CORA response can be linked to: with a request that is not
  yet answered, the response is accepted.
\<close>

lemma persisted_import_is_found:
  assumes "persist_supplied_record to_json r s = Inr (b, s')"
  shows "supplied_record_json (sr_id r) s' \<noteq> None"
  using assms select_by_insert [where key = sup_id]
  by (fastforce simp: persist_supplied_record_def insert_supplied_record_json_def supplied_record_json_def
      split: prod.splits)

text \<open>
  An imported record can answer a request: once it is persisted, the request ledger accepts it as the
  response to any request that has none yet.
\<close>

theorem response_to_import_is_accepted:
  assumes "import_supplied_record sha writable file declaration max_bytes s = (Inr r, s1)"
    and "persist_supplied_record to_json r s1 = Inr (b, s2)"
    and "cora_request k s = Inr request" and "cr_state request \<noteq> CoraRequestState.ResponseReceived"
  shows "\<exists>request' s3. response_received sha k (sr_id r) note_text s2 = (Inr request', s3) \<and>
    cr_state request' = CoraRequestState.ResponseReceived"
proof -
  have "st_cora_requests s1 = st_cora_requests s" using assms(1) by (auto simp: import_Inr)
  moreover have "st_cora_requests s2 = st_cora_requests s1"
    using assms(2) by (auto simp: persist_supplied_record_def insert_supplied_record_json_def split: prod.splits)
  ultimately have "cora_request k s2 = Inr request" using assms(3) by (simp add: cora_request_def)
  then show ?thesis
    using assms(4) persisted_import_is_found [OF assms(2)]
    by (simp add: response_received_def transition_def op_defs Let_def)
qed

theorem response_to_import_is_accepted_witness:
  "\<exists>request' s3. response_received (\<lambda>b. b) (cr_id (sample_request_of (\<lambda>b. b))) (sr_id sample_record) None
      (snd (projr (persist_supplied_record (\<lambda>r. []) sample_record after_import))) = (Inr request', s3) \<and>
     cr_state request' = CoraRequestState.ResponseReceived"
proof (rule response_to_import_is_accepted [OF sample_import])
  show "persist_supplied_record (\<lambda>r. []) sample_record after_import =
      Inr (fst (projr (persist_supplied_record (\<lambda>r. []) sample_record after_import)),
        snd (projr (persist_supplied_record (\<lambda>r. []) sample_record after_import)))"
    by (simp add: persist_supplied_record_def insert_supplied_record_json_def split: prod.split)
  show "cora_request (cr_id (sample_request_of (\<lambda>b. b))) before_import = Inr (sample_request_of (\<lambda>b. b))"
    by (simp add: cora_request_def before_import_def drafted_store_def select_by_def read_row_def)
  show "cr_state (sample_request_of (\<lambda>b. b)) \<noteq> CoraRequestState.ResponseReceived"
    by (simp add: sample_request_of_def drafted_request_def Let_def)
qed

text \<open>
  A file that is already there under the digest is not checked: with damaged bytes in place the import
  still succeeds, and the bytes of the record are not in the store afterwards.
\<close>

lemma damaged_content_is_accepted:
  assumes "importable sha declaration max_bytes content" "st_content s (sha256_hex sha content) = Some damaged"
  shows "import_supplied_record sha writable (Some content) declaration max_bytes s =
    (Inr (supplied_record_of sha declaration content), s)"
  using assms by (simp add: import_Inr fun_upd_idem)

end
