(* ===== verification/Csv.thy ===== *)
theory Csv
  imports Prelude
begin

text \<open>
  CSV export (\<open>pnull-procurement/src/csv.rs\<close>): formula neutralisation, RFC 4180 quoting, and the
  rendered text, with an RFC 4180 reader as the specification it is checked against.
\<close>

section \<open>Rendering\<close>

datatype CsvError = NoRows

text \<open>\<open>=\<close>, \<open>+\<close>, \<open>-\<close>, \<open>@\<close>, tab and carriage return.\<close>

definition formula_trigger :: "uchar \<Rightarrow> bool" where
  "formula_trigger c \<longleftrightarrow> c \<in> {61, 43, 45, 64, 9, 13}"

definition neutralize_cell :: "str \<Rightarrow> str" where
  "neutralize_cell raw =
     (case trim_start_by is_ws raw of
        [] \<Rightarrow> raw
      | c # _ \<Rightarrow> if formula_trigger c then 39 # raw else raw)"

definition needs_quotes :: "str \<Rightarrow> bool" where
  "needs_quotes cell \<longleftrightarrow> list_ex (\<lambda>c. c \<in> {44, 34, 10, 13}) cell"

definition double_quotes :: "str \<Rightarrow> str" where
  "double_quotes cell = concat (map (\<lambda>c. if c = 34 then [34, 34] else [c]) cell)"

definition quote_cell :: "str \<Rightarrow> str" where
  "quote_cell cell = (if needs_quotes cell then [34] @ double_quotes cell @ [34] else cell)"

definition csv_line :: "str list \<Rightarrow> str" where
  "csv_line cells = join [44] (map (\<lambda>c. quote_cell (neutralize_cell c)) cells) @ [10]"

definition rows_to_csv :: "str list \<Rightarrow> str list list \<Rightarrow> CsvError + str" where
  "rows_to_csv header rows =
     (if rows = [] then Inl NoRows else Inr (csv_line header @ concat (map csv_line rows)))"

section \<open>A reader of RFC 4180\<close>

datatype csv_mode = Start | Bare | Quoted | QuoteInQuoted

text \<open>
  \<open>read_csv mode cell row text\<close>: the records of \<open>text\<close>, with the current cell and record read so far.
  Every record ends with a line feed; an unterminated rest is dropped.
\<close>

fun read_csv :: "csv_mode \<Rightarrow> str \<Rightarrow> str list \<Rightarrow> str \<Rightarrow> str list list" where
  "read_csv m cell row [] = []"
| "read_csv Quoted cell row (c # cs) =
     (if c = 34 then read_csv QuoteInQuoted cell row cs else read_csv Quoted (cell @ [c]) row cs)"
| "read_csv m cell row (c # cs) =
     (if c = 44 then read_csv Start [] (row @ [cell]) cs
      else if c = 10 then (row @ [cell]) # read_csv Start [] [] cs
      else if c = 34 \<and> m = Start then read_csv Quoted [] row cs
      else if c = 34 \<and> m = QuoteInQuoted then read_csv Quoted (cell @ [34]) row cs
      else read_csv Bare (cell @ [c]) row cs)"

section \<open>Lemmas\<close>

lemma read_bare:
  "\<not> needs_quotes s \<Longrightarrow> m = Start \<or> m = Bare \<Longrightarrow> sep = 44 \<or> sep = 10 \<Longrightarrow>
     read_csv m cell row (s @ sep # rest) =
     (if sep = 44 then read_csv Start [] (row @ [cell @ s]) rest
      else (row @ [cell @ s]) # read_csv Start [] [] rest)"
proof (induction s arbitrary: m cell)
  case Nil
  then show ?case by (cases m) auto
next
  case (Cons c s)
  then have "c \<noteq> 44" "c \<noteq> 10" "c \<noteq> 34" "\<not> needs_quotes s" by (auto simp: needs_quotes_def)
  then show ?case using Cons.IH [of Bare "cell @ [c]"] Cons.prems(2,3) by (cases m) auto
qed

lemma read_quoted:
  "sep = 44 \<or> sep = 10 \<Longrightarrow>
     read_csv Quoted cell row (double_quotes s @ 34 # sep # rest) =
     (if sep = 44 then read_csv Start [] (row @ [cell @ s]) rest
      else (row @ [cell @ s]) # read_csv Start [] [] rest)"
  by (induction s arbitrary: cell) (auto simp: double_quotes_def)

lemma read_quote_cell:
  assumes "sep = 44 \<or> sep = 10"
  shows "read_csv Start [] row (quote_cell s @ sep # rest) =
     (if sep = 44 then read_csv Start [] (row @ [s]) rest
      else (row @ [s]) # read_csv Start [] [] rest)"
proof (cases "needs_quotes s")
  case True
  then show ?thesis using read_quoted [OF assms, of "[]" row s rest] by (simp add: quote_cell_def)
next
  case False
  then show ?thesis using read_bare [OF False, of Start sep "[]" row rest] assms by (simp add: quote_cell_def)
qed

lemma read_line:
  "cells \<noteq> [] \<Longrightarrow> read_csv Start [] row (join [44] (map quote_cell cells) @ 10 # rest) =
     (row @ cells) # read_csv Start [] [] rest"
proof (induction cells arbitrary: row rule: induct_list012)
  case (3 c d cells)
  then show ?case using read_quote_cell [of 44 row c] by simp
qed (simp_all add: read_quote_cell)

lemma read_csv_line:
  "cells \<noteq> [] \<Longrightarrow> read_csv Start [] [] (csv_line cells @ rest) =
     map neutralize_cell cells # read_csv Start [] [] rest"
  using read_line [of "map neutralize_cell cells" "[]" rest]
  by (simp add: csv_line_def comp_def)

lemma read_csv_lines:
  "list_all (\<lambda>r. r \<noteq> []) rows \<Longrightarrow>
     read_csv Start [] [] (concat (map csv_line rows)) = map (map neutralize_cell) rows"
  by (induction rows) (simp_all add: read_csv_line)

lemma rows_to_csv_read:
  "rows_to_csv header rows = Inr out \<Longrightarrow> header \<noteq> [] \<Longrightarrow> list_all (\<lambda>r. r \<noteq> []) rows \<Longrightarrow>
     read_csv Start [] [] out = map neutralize_cell header # map (map neutralize_cell) rows"
  by (auto simp: rows_to_csv_def read_csv_line read_csv_lines split: if_splits)

section \<open>Properties\<close>

text \<open>
  The exported text reads back as exactly the neutralised cells: whatever commas, quotes, line
  breaks or formulas the cells hold, no cell is split, merged or moved to another record.
\<close>

theorem csv_roundtrip:
  assumes "rows_to_csv header rows = Inr out" "header \<noteq> []" "list_all (\<lambda>r. r \<noteq> []) rows"
  shows "read_csv Start [] [] out = map neutralize_cell header # map (map neutralize_cell) rows"
  using assms by (rule rows_to_csv_read)

theorem csv_roundtrip_witness:
  "\<exists>out. rows_to_csv [lit ''id''] [[lit ''a,b''], [lit ''=1'']] = Inr out \<and>
     read_csv Start [] [] out = [[lit ''id''], [lit ''a,b''], [39 # lit ''=1'']]"
proof -
  obtain out where run: "rows_to_csv [lit ''id''] [[lit ''a,b''], [lit ''=1'']] = Inr out"
    by (simp add: rows_to_csv_def)
  have "neutralize_cell (lit ''id'') = lit ''id''" "neutralize_cell (lit ''a,b'') = lit ''a,b''"
    "neutralize_cell (lit ''=1'') = 39 # lit ''=1''"
    by (simp_all add: neutralize_cell_def trim_start_by_def lit_def is_ws_def formula_trigger_def)
  then show ?thesis using csv_roundtrip [OF run] run by simp
qed

text \<open>
  No exported cell opens as a formula: after any leading white space, the first character of a
  neutralised cell is never a formula trigger, and a cell that is no formula is left as it is.
\<close>

theorem neutralized_cell_is_no_formula:
  "(case trim_start_by is_ws (neutralize_cell raw) of [] \<Rightarrow> True | c # _ \<Rightarrow> \<not> formula_trigger c) \<and>
   (neutralize_cell raw = raw \<or> neutralize_cell raw = 39 # raw)"
proof (cases "trim_start_by is_ws raw")
  case Nil
  then show ?thesis by (simp add: neutralize_cell_def)
next
  case (Cons c t)
  have "trim_start_by is_ws (39 # raw) = 39 # raw" "\<not> formula_trigger 39"
    by (simp_all add: trim_start_by_def is_ws_def formula_trigger_def)
  then show ?thesis using Cons by (simp add: neutralize_cell_def)
qed

text \<open>
  A leading tab or carriage return is not neutralised by itself: the scan skips all leading white
  space, these two included, so they never count as triggers.
\<close>

theorem leading_tab_not_neutralized:
  assumes "w = 9 \<or> w = 13" "case trim_start_by is_ws s of [] \<Rightarrow> True | c # _ \<Rightarrow> \<not> formula_trigger c"
  shows "neutralize_cell (w # s) = w # s"
proof -
  have "is_ws w" using assms(1) by (auto simp: is_ws_def)
  then have "trim_start_by is_ws (w # s) = trim_start_by is_ws s" by (simp add: trim_start_by_def)
  then show ?thesis using assms(2) by (cases "trim_start_by is_ws s") (simp_all add: neutralize_cell_def)
qed

theorem leading_tab_not_neutralized_witness: "neutralize_cell (9 # lit ''x'') = 9 # lit ''x''"
  by (rule leading_tab_not_neutralized)
    (simp_all add: trim_start_by_def lit_def is_ws_def formula_trigger_def)

end
