(* ===== verification/Utf8Lossy.thy ===== *)
theory Utf8Lossy
  imports Prelude
begin

text \<open>
  \<open>String::from_utf8_lossy\<close> of the standard library, by which every fetched or stored document becomes
  text: the ill-formed parts of the input (the maximal prefixes that could have started a character)
  are replaced by U+FFFD, everything else is decoded.
\<close>

section \<open>Decoding\<close>

definition is_cont :: "byte \<Rightarrow> bool" where
  "is_cont b \<longleftrightarrow> 128 \<le> b \<and> b < 192"

text \<open>A byte behind the end of the input reads as 0.\<close>

fun byte_at :: "bytes \<Rightarrow> nat \<Rightarrow> byte" where
  "byte_at [] n = 0"
| "byte_at (b # bs) 0 = b"
| "byte_at (b # bs) (Suc n) = byte_at bs n"

text \<open>The second bytes that may follow the first byte of a character of three or four bytes.\<close>

definition second_of_3 :: "byte \<Rightarrow> byte \<Rightarrow> bool" where
  "second_of_3 b c \<longleftrightarrow>
     (if b = 224 then 160 \<le> c \<and> c < 192 else if b = 237 then 128 \<le> c \<and> c < 160 else is_cont c)"

definition second_of_4 :: "byte \<Rightarrow> byte \<Rightarrow> bool" where
  "second_of_4 b c \<longleftrightarrow>
     (if b = 240 then 144 \<le> c \<and> c < 192 else if b = 244 then 128 \<le> c \<and> c < 144 else is_cont c)"

definition REPLACEMENT :: uchar where
  "REPLACEMENT = 65533"

text \<open>The character a non-ASCII first byte starts, and how many of the following bytes it takes.\<close>

definition decode_at :: "byte \<Rightarrow> bytes \<Rightarrow> uchar \<times> nat" where
  "decode_at b bs =
     (let c1 = byte_at bs 0; c2 = byte_at bs 1; c3 = byte_at bs 2 in
      if 194 \<le> b \<and> b < 224 then
        if is_cont c1 then ((b - 192) * 64 + (c1 - 128), 1) else (REPLACEMENT, 0)
      else if 224 \<le> b \<and> b < 240 then
        if \<not> second_of_3 b c1 then (REPLACEMENT, 0)
        else if \<not> is_cont c2 then (REPLACEMENT, 1)
        else ((b - 224) * 4096 + (c1 - 128) * 64 + (c2 - 128), 2)
      else if 240 \<le> b \<and> b < 245 then
        if \<not> second_of_4 b c1 then (REPLACEMENT, 0)
        else if \<not> is_cont c2 then (REPLACEMENT, 1)
        else if \<not> is_cont c3 then (REPLACEMENT, 2)
        else ((b - 240) * 262144 + (c1 - 128) * 4096 + (c2 - 128) * 64 + (c3 - 128), 3)
      else (REPLACEMENT, 0))"

function from_utf8_lossy :: "bytes \<Rightarrow> str" where
  "from_utf8_lossy [] = []"
| "from_utf8_lossy (b # bs) =
     (if b < 128 then b # from_utf8_lossy bs
      else fst (decode_at b bs) # from_utf8_lossy (drop (snd (decode_at b bs)) bs))"
  by pat_completeness auto

termination
  by (relation "measure length") auto

section \<open>What was encoded is decoded\<close>

definition is_scalar :: "uchar \<Rightarrow> bool" where
  "is_scalar c \<longleftrightarrow> c < 55296 \<or> 57344 \<le> c \<and> c < 1114112"

lemma cont_of_mod [simp]: "is_cont (128 + x mod 64)" "128 + x mod 64 - 128 = x mod 64"
  by (simp_all add: is_cont_def)

lemma split_2: "(c div 64) * 64 + c mod 64 = (c::nat)"
  by (rule div_mult_mod_eq)

lemma split_3: "(c div 4096) * 4096 + (c div 64 mod 64) * 64 + c mod 64 = (c::nat)"
proof -
  have "c div 4096 = c div 64 div 64" by (simp add: div_mult2_eq [symmetric])
  then have "(c div 4096) * 64 + c div 64 mod 64 = c div 64" by simp
  then show ?thesis using div_mult_mod_eq [of c 64] by linarith
qed

lemma split_4:
  "(c div 262144) * 262144 + (c div 4096 mod 64) * 4096 + (c div 64 mod 64) * 64 + c mod 64 = (c::nat)"
proof -
  have "c div 262144 = c div 4096 div 64" by (simp add: div_mult2_eq [symmetric])
  then have "(c div 262144) * 64 + c div 4096 mod 64 = c div 4096" by simp
  then show ?thesis using split_3 [of c] by linarith
qed

lemma decode_2:
  assumes "128 \<le> c" "c < 2048"
  shows "decode_at (192 + c div 64) ((128 + c mod 64) # rest) = (c, 1)"
proof -
  have "194 \<le> 192 + c div 64" "192 + c div 64 < 224" using assms by linarith+
  then show ?thesis by (simp add: decode_at_def split_2)
qed

lemma second_3:
  assumes "2048 \<le> c" "c < 65536" "is_scalar c"
  shows "second_of_3 (224 + c div 4096) (128 + c div 64 mod 64)"
proof -
  consider "c div 4096 = 0" | "c div 4096 = 13" | "c div 4096 \<noteq> 0" "c div 4096 \<noteq> 13" by blast
  then show ?thesis
  proof cases
    case 1
    then have "c div 64 mod 64 = c div 64" using assms by (intro mod_less) linarith
    moreover have "32 \<le> c div 64" using assms by linarith
    ultimately show ?thesis using 1 by (simp add: second_of_3_def)
  next
    case 2
    then have "c < 55296" using assms by (auto simp: is_scalar_def)
    then have "c div 64 < 864" by linarith
    moreover have "c div 64 div 64 = 13" using 2 by (simp add: div_mult2_eq [symmetric])
    ultimately have "c div 64 mod 64 < 32" using div_mult_mod_eq [of "c div 64" 64] by linarith
    then show ?thesis using 2 by (simp add: second_of_3_def)
  qed (simp add: second_of_3_def)
qed

lemma decode_3:
  assumes "2048 \<le> c" "c < 65536" "is_scalar c"
  shows "decode_at (224 + c div 4096) ((128 + c div 64 mod 64) # (128 + c mod 64) # rest) = (c, 2)"
proof -
  have "c div 4096 < 16" using assms by linarith
  then show ?thesis using second_3 [OF assms] by (simp add: decode_at_def numeral_2_eq_2 split_3)
qed

lemma second_4:
  assumes "65536 \<le> c" "c < 1114112"
  shows "second_of_4 (240 + c div 262144) (128 + c div 4096 mod 64)"
proof -
  consider "c div 262144 = 0" | "c div 262144 = 4" | "c div 262144 \<noteq> 0" "c div 262144 \<noteq> 4" by blast
  then show ?thesis
  proof cases
    case 1
    then have "c div 4096 mod 64 = c div 4096" by (intro mod_less) linarith
    moreover have "16 \<le> c div 4096" using assms by linarith
    ultimately show ?thesis using 1 by (simp add: second_of_4_def)
  next
    case 2
    have "c div 4096 < 272" using assms by linarith
    moreover have "c div 4096 div 64 = 4" using 2 by (simp add: div_mult2_eq [symmetric])
    ultimately have "c div 4096 mod 64 < 16" using div_mult_mod_eq [of "c div 4096" 64] by linarith
    then show ?thesis using 2 by (simp add: second_of_4_def)
  qed (simp add: second_of_4_def)
qed

lemma decode_4:
  assumes "65536 \<le> c" "c < 1114112"
  shows "decode_at (240 + c div 262144)
           ((128 + c div 4096 mod 64) # (128 + c div 64 mod 64) # (128 + c mod 64) # rest) = (c, 3)"
proof -
  have "c div 262144 < 5" using assms by linarith
  then show ?thesis using second_4 [OF assms] by (simp add: decode_at_def numeral_2_eq_2 split_4)
qed

lemma from_utf8_lossy_utf8:
  assumes "is_scalar c"
  shows "from_utf8_lossy (utf8 c @ rest) = c # from_utf8_lossy rest"
proof -
  consider "c < 128" | "128 \<le> c" "c < 2048" | "2048 \<le> c" "c < 65536" | "65536 \<le> c" "c < 1114112"
    using assms by (fastforce simp: is_scalar_def)
  then show ?thesis
  proof cases
    case 2
    then show ?thesis by (simp add: utf8_def decode_2)
  next
    case 3
    then show ?thesis using assms by (simp add: utf8_def decode_3 numeral_2_eq_2)
  next
    case 4
    then show ?thesis by (simp add: utf8_def decode_4 numeral_3_eq_3)
  qed (simp add: utf8_def)
qed

lemma from_utf8_lossy_as_bytes:
  "list_all is_scalar s \<Longrightarrow> from_utf8_lossy (as_bytes s) = s"
  by (induction s) (simp_all add: from_utf8_lossy_utf8)

end
