(* ===== verification/Ingest.thy ===== *)
theory Ingest
  imports ChangeAlerts Solicitations Imports CaseFiles Csv Utf8Lossy
begin

text \<open>
  The ingest commands (\<open>pnull-cli/src/procurement_cmd.rs\<close>): the gate for live retrieval, the ingest of
  the two mirrors, of the OpenBook finding and of supplied records, and the CSV export.  A command
  returns what it prints and the files it writes.  The libraries it uses and the file system are the
  environment.
\<close>

section \<open>Commands\<close>

text \<open>\<open>env_read\<close> is \<open>fs::read\<close>, \<open>env_write\<close> tells whether a path can be written, \<open>env_debug\<close> is the debug format of a string.\<close>

record cli_env =
  env_sha :: hash
  env_text :: text_lib
  env_table :: table_reader
  env_page :: page_reader
  env_read :: "str \<Rightarrow> bytes option"
  env_write :: "str \<Rightarrow> bool"
  env_debug :: "str \<Rightarrow> str"
  env_award_json :: "AwardRow \<Rightarrow> str"
  env_award_of_json :: "str \<Rightarrow> AwardRow option"
  env_solicitation_json :: "SolicitationRecord \<Rightarrow> str"
  env_supplied_json :: "SuppliedRecord \<Rightarrow> str"

record cmd_output =
  out_lines :: "str list"
  out_files :: "(str \<times> str) list"

datatype CliError =
  LiveRefused str
| OutOfScope str str
| Restricted str
| UnknownSource str
| ReadFixture str
| WriteFailed str
| ParseAwards AwardsError
| ParseSolicitations SolicitationError
| ExportCsv CsvError
| ImportFailed ImportError
| SnapshotFailed SnapshotError
| StoreFailed CoreError
| AlertsFailed ChangeAlertError
| FetchFailed str str
| UnmatchedNotModified str
| SnapshotsDiffer str str
| ReconcileUsage
| ChainFailed ChainError
| CaseFailed CaseFileError
| CoraFailed CoraLedgerError
| CommandFailed str

type_synonym command = "(CliError, cmd_output) op"

definition printed :: "str list \<Rightarrow> command" where
  "printed ls = return_op \<lparr>out_lines = ls, out_files = []\<rparr>"

definition DEFAULT_AWARDS_FIXTURE :: str where
  "DEFAULT_AWARDS_FIXTURE = lit ''fixtures/procurement/contract-awards.html''"

definition DEFAULT_SOLICITATIONS_FIXTURE :: str where
  "DEFAULT_SOLICITATIONS_FIXTURE = lit ''fixtures/procurement/solicitations.html''"

definition OFFLINE_RETRIEVED_AT :: str where
  "OFFLINE_RETRIEVED_AT = lit ''2026-08-17T00:00:00Z''"

definition read_fixture :: "cli_env \<Rightarrow> str \<Rightarrow> str \<Rightarrow> CliError + bytes" where
  "read_fixture env source_path default_path =
     (let path = (if trim source_path = [] then default_path else source_path) in
      case env_read env path of None \<Rightarrow> Inl (ReadFixture path) | Some content \<Rightarrow> Inr content)"

text \<open>The gate: the expiry of the last review is compared with a constant of the program.\<close>

definition require_review_for_live :: "str \<Rightarrow> (CliError, SourceReview) op" where
  "require_review_for_live source_id =
     read_op (\<lambda>s. case current_source_review source_id s of
        Some review \<Rightarrow>
          if OFFLINE_RETRIEVED_AT \<le> srv_expires_at review then Inr review else Inl (LiveRefused source_id)
      | None \<Rightarrow> Inl (LiveRefused source_id))"

definition live_gate :: "bool \<Rightarrow> str \<Rightarrow> (CliError, unit) op" where
  "live_gate live source_id =
     (if live then bind_op (require_review_for_live source_id) (\<lambda>_. return_op ()) else return_op ())"

definition live_line :: "bool \<Rightarrow> str \<Rightarrow> str list" where
  "live_line live source_id =
     (if live then [lit ''live mode: approved source review present for '' @ source_id] else [])"

section \<open>Ingest\<close>

definition fixture_acquisition :: "str \<Rightarrow> str \<Rightarrow> str \<Rightarrow> str \<Rightarrow> Acquisition" where
  "fixture_acquisition source_id url parser_version digest =
     \<lparr>acq_source_id = source_id, acq_source_url = url, acq_retrieved_at = OFFLINE_RETRIEVED_AT,
      acq_bytes_digest = digest, acq_content_type = Some (lit ''text/html''), acq_etag = None,
      acq_last_modified = None, acq_final_url = url, acq_redirect_history = [],
      acq_parser_version = parser_version, acq_schema_version = 2,
      acq_authority = OfficialInformationalMirror, acq_coverage_state = InformationalOnly,
      acq_observations = []\<rparr>"

definition AWARDS_URL :: str where
  "AWARDS_URL = lit ''https://coloradosprings.gov/procurement-services/page/contract-award-information''"

definition SOLICITATIONS_URL :: str where
  "SOLICITATIONS_URL = lit ''https://coloradosprings.gov/solicitations''"

definition awards_acquisition :: "str \<Rightarrow> Acquisition" where
  "awards_acquisition digest = fixture_acquisition award_source AWARDS_URL (lit ''awards-1.0'') digest"

definition solicitations_acquisition :: "str \<Rightarrow> Acquisition" where
  "solicitations_acquisition digest =
     fixture_acquisition solicitation_source SOLICITATIONS_URL (lit ''solicitations-1.0'') digest"

text \<open>Recording the parsed rows against the latest snapshot of the source.\<close>

definition record_parsed ::
  "cli_env \<Rightarrow> Acquisition \<Rightarrow> nat \<Rightarrow> RecordRow list \<Rightarrow> (CliError, SourceSnapshot \<times> SnapshotDiff option) op" where
  "record_parsed env a parsed rows =
     bind_op (read_op (\<lambda>s. Inr (latest_snapshot (acq_source_id a) s))) (\<lambda>prior.
       map_err SnapshotFailed (record_snapshot (env_sha env) a prior (Some (of_nat parsed)) rows rows))"

definition attached_line :: "str \<Rightarrow> str" where
  "attached_line matter_id = lit ''  -> attached to reachable matter '' @ matter_id"

definition attach_solicitations ::
  "cli_env \<Rightarrow> SolicitationRecord list \<Rightarrow> str list \<Rightarrow> (CliError, str list) op" where
  "attach_solicitations env records evidence_ids =
     for_op (\<lambda>r ls. bind_op (map_err StoreFailed (attach_solicitation_record (env_sha env) r evidence_ids))
       (\<lambda>m. return_op (case m of None \<Rightarrow> ls | Some matter_id \<Rightarrow> ls @ [attached_line matter_id]))) records []"

definition attach_awards :: "cli_env \<Rightarrow> AwardRow list \<Rightarrow> str list \<Rightarrow> (CliError, str list) op" where
  "attach_awards env rows evidence_ids =
     for_op (\<lambda>row ls. bind_op (map_err StoreFailed (attach_award_row (env_sha env) row evidence_ids))
       (\<lambda>matter_id. return_op (ls @ [attached_line matter_id]))) rows []"

definition ingest_solicitations :: "cli_env \<Rightarrow> str \<Rightarrow> bool \<Rightarrow> command" where
  "ingest_solicitations env source_path live =
     bind_op (live_gate live solicitation_source) (\<lambda>_.
     bind_op (read_op (\<lambda>_. read_fixture env source_path DEFAULT_SOLICITATIONS_FIXTURE)) (\<lambda>content.
       let digest = sha256_hex (env_sha env) content; html = from_utf8_lossy content in
       case parse_solicitations (env_text env) (env_page env) html digest of
         Inl e \<Rightarrow> fail_op (ParseSolicitations e)
       | Inr records \<Rightarrow>
           bind_op (record_parsed env (solicitations_acquisition digest) (length records)
               (solicitation_record_rows (env_solicitation_json env) (env_sha env) records)) (\<lambda>(snapshot, _).
           bind_op (attach_solicitations env records [snap_id snapshot]) (\<lambda>ls.
           printed (live_line live solicitation_source @ ls @
             [lit ''ingested '' @ show_nat (length records) @ lit '' solicitation record(s) from '' @ source_path @
                lit '' (digest '' @ digest @ lit '')'',
              lit ''note: this is an informational mirror; it does not represent every solicitation. BidNet and Bonfire remain authoritative.''])))))"

definition ingest_awards :: "cli_env \<Rightarrow> str \<Rightarrow> bool \<Rightarrow> command" where
  "ingest_awards env source_path live =
     bind_op (live_gate live award_source) (\<lambda>_.
     bind_op (read_op (\<lambda>_. read_fixture env source_path DEFAULT_AWARDS_FIXTURE)) (\<lambda>content.
       let digest = sha256_hex (env_sha env) content; html = from_utf8_lossy content in
       case parse_awards_table (env_table env) html digest of
         Inl e \<Rightarrow> fail_op (ParseAwards e)
       | Inr rows \<Rightarrow>
           bind_op (record_parsed env (awards_acquisition digest) (length rows)
               (award_record_rows (env_award_json env) (env_sha env) rows)) (\<lambda>(snapshot, _).
           bind_op (attach_awards env rows [snap_id snapshot]) (\<lambda>ls.
           printed (live_line live award_source @ ls @
             [lit ''ingested '' @ show_nat (length rows) @ lit '' award row(s) from '' @ source_path @
                lit '' (digest '' @ digest @ lit '')''])))))"

definition export_header :: "str list" where
  "export_header = map lit [''RFP/IFB Number'', ''Project Name'', ''Awarded Contractor'', ''Awarded Amount'',
     ''Contract Start Date'', ''Notes'']"

definition export_awards :: "cli_env \<Rightarrow> str \<Rightarrow> str \<Rightarrow> command" where
  "export_awards env source_path output_path =
     bind_op (read_op (\<lambda>_. read_fixture env source_path DEFAULT_AWARDS_FIXTURE)) (\<lambda>content.
       case parse_awards_table (env_table env) (from_utf8_lossy content) (sha256_hex (env_sha env) content) of
         Inl e \<Rightarrow> fail_op (ParseAwards e)
       | Inr rows \<Rightarrow>
           (case rows_to_csv export_header (map row_columns rows) of
              Inl e \<Rightarrow> fail_op (ExportCsv e)
            | Inr csv \<Rightarrow>
                if \<not> env_write env output_path then fail_op (WriteFailed output_path)
                else return_op
                  \<lparr>out_lines = [lit ''wrote '' @ show_nat (length rows) @ lit '' award row(s) to '' @ output_path,
                     lit ''note: spreadsheet-formula injection is neutralized in the export.''],
                   out_files = [(output_path, csv)]\<rparr>))"

definition openbook_source :: str where
  "openbook_source = lit ''openbook-cos''"

definition openbook_entry :: "hash \<Rightarrow> CoverageEntry" where
  "openbook_entry sha =
     \<lparr>cov_id = coverage_id_for sha openbook_source OFFLINE_RETRIEVED_AT, cov_source_id = openbook_source,
      cov_source_url = OPENBOOK_LANDING_URL, cov_authority = ob_authority current,
      cov_state = ob_coverage_state current, cov_retrieved_at = OFFLINE_RETRIEVED_AT,
      cov_persisted_digest = Some (sha256_hex sha (as_bytes (ob_note current))), cov_http_status = None,
      cov_etag = None, cov_last_modified = None, cov_final_url = Some OPENBOOK_SOCRATA_URL,
      cov_parser_version = Some (lit ''openbook-1.0''), cov_schema_version = Some 2,
      cov_claimed_date_range = None, cov_record_count = Some (of_nat (length (ob_datasets current))),
      cov_pagination_complete = Some True, cov_access_errors = [],
      cov_human_review_state = lit ''unreviewed'', cov_note = ob_note current\<rparr>"

definition ingest_openbook :: "cli_env \<Rightarrow> command" where
  "ingest_openbook env =
     bind_op (stmt StoreFailed (insert_coverage_entry (openbook_entry (env_sha env)))) (\<lambda>_.
     printed [lit ''recorded OpenBook negative capability finding:'', ob_note current])"

section \<open>Supplied records\<close>

text \<open>The command declares lawful possession on the operator's behalf.\<close>

definition cli_declaration :: "str \<Rightarrow> str \<Rightarrow> str \<Rightarrow> str \<Rightarrow> str \<Rightarrow> SuppliedRecordDeclaration" where
  "cli_declaration source_or_request_id acquisition_date document_role operator declared_digest =
     \<lparr>decl_source_or_request_id = source_or_request_id, decl_acquisition_date = acquisition_date,
      decl_document_role = document_role, decl_lawful_possession = True,
      decl_declared_digest = declared_digest, decl_operator = operator\<rparr>"

definition MAX_IMPORT_BYTES :: nat where
  "MAX_IMPORT_BYTES = 50 * 1024 * 1024"

definition import_record ::
  "cli_env \<Rightarrow> bool \<Rightarrow> str \<Rightarrow> str \<Rightarrow> str \<Rightarrow> str \<Rightarrow> str \<Rightarrow> str \<Rightarrow> command" where
  "import_record env writable file_path source_or_request_id acquisition_date role_text operator declared_digest =
     (let declaration = cli_declaration source_or_request_id acquisition_date role_text operator declared_digest in
      bind_op (map_err ImportFailed (import_supplied_record (env_sha env) writable (env_read env file_path)
          declaration MAX_IMPORT_BYTES)) (\<lambda>r.
      bind_op (stmt StoreFailed (persist_supplied_record (env_supplied_json env) r)) (\<lambda>_.
      printed
        [lit ''imported supplied record '' @ sr_id r @ lit '' ('' @ show_nat (sr_byte_count r) @ lit '' bytes, digest '' @
           sr_observed_digest r @ lit '')'',
         lit ''status: unreviewed; human review required before publication.''])))"

section \<open>Lemmas\<close>

lemma live_gate_refused:
  assumes "\<And>review. current_source_review source_id s = Some review \<Longrightarrow> \<not> OFFLINE_RETRIEVED_AT \<le> srv_expires_at review"
  shows "live_gate True source_id s = (Inl (LiveRefused source_id), s)"
  using assms by (auto simp: live_gate_def require_review_for_live_def op_defs split: option.split)

lemma live_gate_same_store: "live_gate live source_id s = (Inr u, s') \<Longrightarrow> s' = s"
  by (auto simp: live_gate_def require_review_for_live_def op_Inr split: if_splits)

text \<open>What attaching a row leaves alone, and what it only extends.\<close>

definition attach_frame :: "store \<Rightarrow> store \<Rightarrow> bool" where
  "attach_frame s t \<longleftrightarrow> same_rows s t \<and> st_snapshots t = st_snapshots s \<and>
     pm_id ` set (st_proc_matters s) \<subseteq> pm_id ` set (st_proc_matters t) \<and>
     ev_id ` set (st_proc_events s) \<subseteq> ev_id ` set (st_proc_events t)"

lemma attach_frame_refl [simp]: "attach_frame s s"
  by (simp add: attach_frame_def same_rows_def)

lemma attach_frame_trans: "attach_frame s t \<Longrightarrow> attach_frame t u \<Longrightarrow> attach_frame s u"
  unfolding attach_frame_def using same_rows_trans by fastforce

lemma insert_frames:
  "insert_procurement_matter m s = Inr (b, t) \<Longrightarrow> attach_frame s t"
  "insert_procurement_identifier i s = Inr (b, t) \<Longrightarrow> attach_frame s t"
  "insert_procurement_organization p s = Inr (b, t) \<Longrightarrow> attach_frame s t"
  "insert_procurement_event e s = Inr (b, t) \<Longrightarrow> attach_frame s t"
  by (auto simp: attach_frame_def same_rows_def insert_procurement_matter_def insert_procurement_identifier_def
      insert_procurement_organization_def insert_procurement_event_def insert_or_ignore_def split: if_splits)

lemma attach_award_row_frame:
  assumes "attach_award_row sha row evs s = (Inr m, s')"
  shows "attach_frame s s'"
proof -
  obtain b1 s1 b2 s2 b3 s3 b4 where
    1: "ensure_matter (award_matter_id row) (award_title row) s = (Inr b1, s1)"
    and 2: "stmt id (insert_procurement_identifier (identifier_for sha (award_matter_id row)
        (classify_identifier (aw_solicitation_id row)) (aw_solicitation_id row) award_source)) s1 = (Inr b2, s2)"
    and 3: "(if trim (aw_contractor row) \<noteq> []
        then insert_awarded_contractor sha (award_matter_id row) (aw_contractor row) award_source
        else return_op False) s2 = (Inr b3, s3)"
    and 4: "insert_award_event sha (award_matter_id row) (pid_id (identifier_for sha (award_matter_id row)
        (classify_identifier (aw_solicitation_id row)) (aw_solicitation_id row) award_source)) award_source
        (aw_start_date row) (award_summary row) evs s3 = (Inr b4, s')"
    using assms unfolding attach_award_row_def Let_def bind_op_Inr return_op_Inr by blast
  have "attach_frame s s1" using 1 insert_frames(1) by (auto simp: ensure_matter_def stmt_Inr)
  moreover have "attach_frame s1 s2" using 2 insert_frames(2) by (auto simp: stmt_Inr)
  moreover have "attach_frame s2 s3"
    using 3 insert_frames(3) by (auto simp: insert_awarded_contractor_def stmt_Inr return_op_Inr split: if_splits)
  moreover have "attach_frame s3 s'" using 4 insert_frames(4) by (auto simp: insert_award_event_def stmt_Inr)
  ultimately show ?thesis using attach_frame_trans by blast
qed

text \<open>A row whose matter exists and whose award is among the recorded events.\<close>

definition award_recorded :: "hash \<Rightarrow> str list \<Rightarrow> store \<Rightarrow> AwardRow \<Rightarrow> bool" where
  "award_recorded sha evs s row \<longleftrightarrow>
     award_matter_id row \<in> pm_id ` set (st_proc_matters s) \<and>
     ev_id (event_of_row sha row evs) \<in> ev_id ` set (st_proc_events s)"

lemma award_recorded_mono: "award_recorded sha evs s row \<Longrightarrow> attach_frame s t \<Longrightarrow> award_recorded sha evs t row"
  by (auto simp: award_recorded_def attach_frame_def)

lemma attach_award_row_recorded:
  assumes "attach_award_row sha row evs s = (Inr m, s')"
  shows "award_recorded sha evs s' row"
  using attach_award_row_events(1-3) [OF assms] by (auto simp: award_recorded_def split: if_splits)

lemma attach_awards_loop:
  assumes "for_op (\<lambda>row ls. bind_op (map_err StoreFailed (attach_award_row sha row evs))
       (\<lambda>matter_id. return_op (ls @ [attached_line matter_id]))) rows ls s = (Inr ls', s')"
  shows "attach_frame s s' \<and> list_all (award_recorded sha evs s') rows \<and>
    ls' = ls @ map (attached_line \<circ> award_matter_id) rows"
  using assms
proof (induction rows arbitrary: ls s)
  case (Cons row rows)
  obtain m t where t: "attach_award_row sha row evs s = (Inr m, t)"
    and rest: "for_op (\<lambda>row ls. bind_op (map_err StoreFailed (attach_award_row sha row evs))
       (\<lambda>matter_id. return_op (ls @ [attached_line matter_id]))) rows (ls @ [attached_line m]) t = (Inr ls', s')"
    using Cons.prems by (auto simp: op_Inr)
  note ih = Cons.IH [OF rest]
  have "attach_frame s s'" using attach_award_row_frame [OF t] ih attach_frame_trans by blast
  moreover have "award_recorded sha evs s' row" using attach_award_row_recorded [OF t] ih award_recorded_mono by blast
  ultimately show ?case using ih attach_award_row_events(1) [OF t] by simp
qed (simp add: return_op_Inr)

lemma attach_awards_loop_total:
  "\<exists>ls' s'. for_op (\<lambda>row ls. bind_op (map_err StoreFailed (attach_award_row sha row evs))
       (\<lambda>matter_id. return_op (ls @ [attached_line matter_id]))) rows ls s = (Inr ls', s')"
proof (induction rows arbitrary: ls s)
  case (Cons row rows)
  obtain t where "attach_award_row sha row evs s = (Inr (award_matter_id row), t)"
    by (rule attach_award_row_succeeds)
  then show ?case using Cons.IH by (simp add: bind_op_def map_err_def return_op_def)
qed (simp add: return_op_def)

lemma record_parsed_Inr:
  assumes "record_parsed env a n rows s = (Inr (snapshot, diff), s')"
  obtains prior where
    "record_snapshot (env_sha env) a prior (Some (of_nat n)) rows rows s = (Inr (snapshot, diff), s')"
    "snapshot = acquisition_snapshot (env_sha env) a (Some (of_nat n)) (map_option snap_id prior)"
proof -
  from assms have run: "record_snapshot (env_sha env) a (latest_snapshot (acq_source_id a) s) (Some (of_nat n)) rows rows s =
      (Inr (snapshot, diff), s')"
    by (auto simp: record_parsed_def op_Inr)
  moreover from run have "snapshot = acquisition_snapshot (env_sha env) a (Some (of_nat n))
      (map_option snap_id (latest_snapshot (acq_source_id a) s))"
    by (rule record_snapshot_Inr)
  ultimately show thesis by (rule that)
qed

text \<open>The parts of a successful ingest of the award table.\<close>

lemma ingest_awards_Inr:
  assumes "ingest_awards env source_path live s = (Inr out, s')"
  obtains content rows snapshot diff t ls where
    "read_fixture env source_path DEFAULT_AWARDS_FIXTURE = Inr content"
    "parse_awards_table (env_table env) (from_utf8_lossy content) (sha256_hex (env_sha env) content) = Inr rows"
    "record_parsed env (awards_acquisition (sha256_hex (env_sha env) content)) (length rows)
       (award_record_rows (env_award_json env) (env_sha env) rows) s = (Inr (snapshot, diff), t)"
    "attach_awards env rows [snap_id snapshot] t = (Inr ls, s')"
    "out_lines out = live_line live award_source @ ls @
       [lit ''ingested '' @ show_nat (length rows) @ lit '' award row(s) from '' @ source_path @
          lit '' (digest '' @ sha256_hex (env_sha env) content @ lit '')'']"
proof -
  obtain u s0 where gate: "live_gate live award_source s = (Inr u, s0)"
    and rest: "bind_op (read_op (\<lambda>_. read_fixture env source_path DEFAULT_AWARDS_FIXTURE)) (\<lambda>content.
       let digest = sha256_hex (env_sha env) content; html = from_utf8_lossy content in
       case parse_awards_table (env_table env) html digest of
         Inl e \<Rightarrow> fail_op (ParseAwards e)
       | Inr rows \<Rightarrow>
           bind_op (record_parsed env (awards_acquisition digest) (length rows)
               (award_record_rows (env_award_json env) (env_sha env) rows)) (\<lambda>(snapshot, _).
           bind_op (attach_awards env rows [snap_id snapshot]) (\<lambda>ls.
           printed (live_line live award_source @ ls @
             [lit ''ingested '' @ show_nat (length rows) @ lit '' award row(s) from '' @ source_path @
                lit '' (digest '' @ digest @ lit '')''])))) s0 = (Inr out, s')"
    using assms unfolding ingest_awards_def by (subst (asm) bind_op_Inr) blast
  have s0: "s0 = s" using live_gate_same_store [OF gate] .
  obtain content where content: "read_fixture env source_path DEFAULT_AWARDS_FIXTURE = Inr content"
    using rest by (auto simp: op_Inr)
  then obtain rows where rows:
    "parse_awards_table (env_table env) (from_utf8_lossy content) (sha256_hex (env_sha env) content) = Inr rows"
    using rest by (auto simp: op_Inr Let_def split: sum.splits)
  show thesis
    using rest content rows that s0
    by (auto simp: bind_op_Inr read_op_Inr Let_def printed_def return_op_Inr split: prod.splits)
qed

section \<open>Properties\<close>

text \<open>
  A live ingest without a review of the source that is current under the gate is refused, and nothing is
  read, recorded or attached.
\<close>

theorem live_ingest_needs_review:
  assumes "\<And>review. current_source_review award_source s = Some review \<Longrightarrow> \<not> OFFLINE_RETRIEVED_AT \<le> srv_expires_at review"
  shows "ingest_awards env source_path True s = (Inl (LiveRefused award_source), s)"
  using live_gate_refused [OF assms] by (simp add: ingest_awards_def bind_op_def)

text \<open>
  C36: Ingested awards are backed: when the award table is ingested from bytes that have no stored rows yet,
  the rows of the snapshot read back as exactly the parsed rows, every row is attached to an existing
  matter, and its award, citing that snapshot, is among the recorded events.
\<close>

theorem ingested_awards_backed:
  assumes "ingest_awards env source_path live s = (Inr out, s')"
  shows "\<exists>content rows k.
    read_fixture env source_path DEFAULT_AWARDS_FIXTURE = Inr content \<and>
    parse_awards_table (env_table env) (from_utf8_lossy content) (sha256_hex (env_sha env) content) = Inr rows \<and>
    k = snapshot_id_for (env_sha env) award_source (sha256_hex (env_sha env) content) \<and>
    list_all (award_recorded (env_sha env) [k] s') rows \<and>
    (\<not> has_row_set k s \<longrightarrow> length rows \<le> nat i64_max \<longrightarrow>
       snapshot_rows (env_sha env) k s' = Inr (award_record_rows (env_award_json env) (env_sha env) rows))"
proof -
  obtain content rows snapshot diff t ls where
    content: "read_fixture env source_path DEFAULT_AWARDS_FIXTURE = Inr content"
    and rows: "parse_awards_table (env_table env) (from_utf8_lossy content) (sha256_hex (env_sha env) content) = Inr rows"
    and recorded: "record_parsed env (awards_acquisition (sha256_hex (env_sha env) content)) (length rows)
       (award_record_rows (env_award_json env) (env_sha env) rows) s = (Inr (snapshot, diff), t)"
    and attached: "attach_awards env rows [snap_id snapshot] t = (Inr ls, s')"
    using assms by (rule ingest_awards_Inr)
  let ?k = "snapshot_id_for (env_sha env) award_source (sha256_hex (env_sha env) content)"
  obtain prior where run: "record_snapshot (env_sha env) (awards_acquisition (sha256_hex (env_sha env) content)) prior
        (Some (of_nat (length rows))) (award_record_rows (env_award_json env) (env_sha env) rows)
        (award_record_rows (env_award_json env) (env_sha env) rows) s = (Inr (snapshot, diff), t)"
    and snapshot: "snapshot = acquisition_snapshot (env_sha env) (awards_acquisition (sha256_hex (env_sha env) content))
        (Some (of_nat (length rows))) (map_option snap_id prior)"
    using recorded by (rule record_parsed_Inr)
  have k: "snap_id snapshot = ?k"
    by (simp add: snapshot acquisition_snapshot_def awards_acquisition_def fixture_acquisition_def)
  have loop: "attach_frame t s' \<and> list_all (award_recorded (env_sha env) [?k] s') rows"
    using attach_awards_loop [OF attached [unfolded attach_awards_def]] k by simp
  have "snapshot_rows (env_sha env) ?k s' = Inr (award_record_rows (env_award_json env) (env_sha env) rows)"
    if "\<not> has_row_set ?k s" "length rows \<le> nat i64_max"
  proof -
    have "snapshot_rows (env_sha env) ?k t = Inr (award_record_rows (env_award_json env) (env_sha env) rows)"
      using record_snapshot_read_back [OF run] that k by (simp add: award_record_rows_def)
    then show ?thesis using loop same_rows_reads(4) by (auto simp: attach_frame_def)
  qed
  then show ?thesis using content rows loop by blast
qed

text \<open>An environment with a table of one award.\<close>

definition sample_env :: cli_env where
  "sample_env =
     \<lparr>env_sha = id_hash, env_text = plain_lib, env_table = one_row_table,
      env_page = (\<lambda>_. \<lparr>pg_anchors = [], pg_headings = []\<rparr>), env_read = (\<lambda>_. Some []),
      env_write = (\<lambda>_. True), env_debug = (\<lambda>s. s), env_award_json = (\<lambda>_. [123]),
      env_award_of_json = (\<lambda>_. None), env_solicitation_json = (\<lambda>_. []), env_supplied_json = (\<lambda>_. [])\<rparr>"


lemma empty_store_no_rows: "\<not> has_row_set k empty_store"
  by (simp add: has_row_set_def snapshot_row_set_def snapshot_rows_raw_def select_by_def select_where_def empty_store_def)

lemma sample_ingest: "\<exists>out s'. ingest_awards sample_env [] False empty_store = (Inr out, s')"
proof -
  obtain r where r: "parse_awards_table one_row_table [] [] = Inr [r]" using one_row_table_parses by blast
  have latest: "latest_snapshot src empty_store = None" for src
    by (simp add: latest_snapshot_def source_snapshots_def select_where_def empty_store_def last_option_def)
  obtain d t where "record_snapshot id_hash (awards_acquisition []) None (Some 1)
      (award_record_rows (\<lambda>_. [123]) id_hash [r]) (award_record_rows (\<lambda>_. [123]) id_hash [r]) empty_store =
      (Inr (acquisition_snapshot id_hash (awards_acquisition []) (Some 1) None, d), t)"
    using record_snapshot_total [where prior = None, OF empty_store_no_rows refl] by fastforce
  then have "record_parsed sample_env (awards_acquisition []) 1 (award_record_rows (\<lambda>_. [123]) id_hash [r]) empty_store =
      (Inr (acquisition_snapshot id_hash (awards_acquisition []) (Some 1) None, d), t)"
    by (simp add: record_parsed_def op_defs latest sample_env_def)
  moreover obtain u where "attach_award_row id_hash r
      [snap_id (acquisition_snapshot id_hash (awards_acquisition []) (Some 1) None)] t = (Inr (award_matter_id r), u)"
    by (rule attach_award_row_succeeds)
  ultimately show ?thesis
    using r by (simp add: ingest_awards_def live_gate_def op_defs read_fixture_def sample_env_def Let_def
        sha256_hex_def id_hash_def printed_def attach_awards_def split: prod.split sum.split)
qed

theorem ingested_awards_backed_witness:
  "\<exists>out s' r. ingest_awards sample_env [] False empty_store = (Inr out, s') \<and>
     snapshot_rows id_hash (snapshot_id_for id_hash award_source []) s' =
       Inr (award_record_rows (\<lambda>_. [123]) id_hash [r]) \<and>
     award_recorded id_hash [snapshot_id_for id_hash award_source []] s' r"
proof -
  obtain out s' where run: "ingest_awards sample_env [] False empty_store = (Inr out, s')"
    using sample_ingest by blast
  obtain r where r: "parse_awards_table one_row_table [] [] = Inr [r]" using one_row_table_parses by blast
  have env: "env_sha sample_env = id_hash" "env_table sample_env = one_row_table" "env_award_json sample_env = (\<lambda>_. [123])"
    "read_fixture sample_env [] p = Inr []" for p
    by (simp_all add: sample_env_def read_fixture_def)
  have "sha256_hex id_hash [] = []" by (simp add: sha256_hex_def id_hash_def)
  with ingested_awards_backed [OF run] r run show ?thesis
    by (auto simp: env empty_store_no_rows i64_max_def)
qed

theorem live_ingest_needs_review_witness:
  "ingest_awards sample_env [] True empty_store = (Inl (LiveRefused award_source), empty_store)"
  by (rule live_ingest_needs_review)
     (simp add: current_source_review_def source_reviews_def select_where_def empty_store_def last_option_def)

text \<open>
  C40: An exported table reads back, by the rules of RFC 4180, as the header and the neutralised cells of
  the six columns of each parsed row; nothing in the store changes.
\<close>

theorem exported_awards_read_back:
  assumes "export_awards env source_path output_path s = (Inr out, s')"
  shows "s' = s \<and> (\<exists>content rows csv.
    read_fixture env source_path DEFAULT_AWARDS_FIXTURE = Inr content \<and>
    parse_awards_table (env_table env) (from_utf8_lossy content) (sha256_hex (env_sha env) content) = Inr rows \<and>
    out_files out = [(output_path, csv)] \<and>
    read_csv Start [] [] csv = map neutralize_cell export_header # map (map neutralize_cell \<circ> row_columns) rows)"
proof -
  obtain content where content: "read_fixture env source_path DEFAULT_AWARDS_FIXTURE = Inr content"
    using assms by (auto simp: export_awards_def op_Inr)
  obtain rows where rows:
    "parse_awards_table (env_table env) (from_utf8_lossy content) (sha256_hex (env_sha env) content) = Inr rows"
    using assms content by (auto simp: export_awards_def op_Inr split: sum.splits)
  obtain csv where csv: "rows_to_csv export_header (map row_columns rows) = Inr csv"
    using assms content rows by (auto simp: export_awards_def op_Inr split: sum.splits)
  have "export_header \<noteq> []" "list_all (\<lambda>r. r \<noteq> []) (map row_columns rows)"
    by (simp_all add: export_header_def row_columns_def list_all_iff)
  from rows_to_csv_read [OF csv this] show ?thesis
    using assms content rows csv by (auto simp: export_awards_def op_Inr split: if_splits)
qed

theorem exported_awards_read_back_witness:
  "\<exists>out csv r. export_awards sample_env [] [111] empty_store = (Inr out, empty_store) \<and>
    out_files out = [([111], csv)] \<and>
    read_csv Start [] [] csv = [map neutralize_cell export_header, map neutralize_cell (row_columns r)]"
proof -
  obtain r where r: "parse_awards_table one_row_table [] [] = Inr [r]" using one_row_table_parses by blast
  have run: "\<exists>out. export_awards sample_env [] [111] empty_store = (Inr out, empty_store)"
    using r by (simp add: export_awards_def op_defs read_fixture_def sample_env_def sha256_hex_def id_hash_def
        rows_to_csv_def)
  then obtain out where out: "export_awards sample_env [] [111] empty_store = (Inr out, empty_store)" ..
  have env: "env_sha sample_env = id_hash" "env_table sample_env = one_row_table"
    "read_fixture sample_env [] p = Inr []" for p
    by (simp_all add: sample_env_def read_fixture_def)
  have "sha256_hex id_hash [] = []" by (simp add: sha256_hex_def id_hash_def)
  with exported_awards_read_back [OF out] r out show ?thesis by (auto simp: env)
qed

text \<open>The importer's guard on lawful possession is never reached from the command line.\<close>

lemma import_command_declares_possession:
  "decl_lawful_possession (cli_declaration source acquisition_date role_text operator declared_digest)"
  by (simp add: cli_declaration_def)

end
