(* ===== verification/IpAddress.thy ===== *)
theory IpAddress
  imports Prelude "HOL-Library.Word"
begin

text \<open>
  Internet addresses as \<open>pnull-http/src/lib.rs\<close> uses them: \<open>std::net::IpAddr\<close> with the class tests of
  the standard library, \<open>is_public_address\<close>, and the printed form that observations record.
\<close>

section \<open>Addresses and their classes\<close>

datatype IpAddr = V4 "32 word" | V6 "128 word"

definition octet :: "nat \<Rightarrow> 32 word \<Rightarrow> nat" where
  "octet i w = unat w div 256 ^ (3 - i) mod 256"

definition segment :: "nat \<Rightarrow> 128 word \<Rightarrow> nat" where
  "segment i w = unat w div 65536 ^ (7 - i) mod 65536"

definition v4_is_private :: "32 word \<Rightarrow> bool" where
  "v4_is_private w \<longleftrightarrow>
     octet 0 w = 10 \<or> (octet 0 w = 172 \<and> 16 \<le> octet 1 w \<and> octet 1 w \<le> 31) \<or>
     (octet 0 w = 192 \<and> octet 1 w = 168)"

definition v4_is_loopback :: "32 word \<Rightarrow> bool" where
  "v4_is_loopback w \<longleftrightarrow> octet 0 w = 127"

definition v4_is_link_local :: "32 word \<Rightarrow> bool" where
  "v4_is_link_local w \<longleftrightarrow> octet 0 w = 169 \<and> octet 1 w = 254"

definition v4_is_broadcast :: "32 word \<Rightarrow> bool" where
  "v4_is_broadcast w \<longleftrightarrow> octet 0 w = 255 \<and> octet 1 w = 255 \<and> octet 2 w = 255 \<and> octet 3 w = 255"

definition v4_is_unspecified :: "32 word \<Rightarrow> bool" where
  "v4_is_unspecified w \<longleftrightarrow> w = 0"

definition v4_is_multicast :: "32 word \<Rightarrow> bool" where
  "v4_is_multicast w \<longleftrightarrow> 224 \<le> octet 0 w \<and> octet 0 w \<le> 239"

definition v4_is_documentation :: "32 word \<Rightarrow> bool" where
  "v4_is_documentation w \<longleftrightarrow>
     (octet 0 w = 192 \<and> octet 1 w = 0 \<and> octet 2 w = 2) \<or>
     (octet 0 w = 198 \<and> octet 1 w = 51 \<and> octet 2 w = 100) \<or>
     (octet 0 w = 203 \<and> octet 1 w = 0 \<and> octet 2 w = 113)"

definition v6_is_loopback :: "128 word \<Rightarrow> bool" where
  "v6_is_loopback w \<longleftrightarrow> w = 1"

definition v6_is_unspecified :: "128 word \<Rightarrow> bool" where
  "v6_is_unspecified w \<longleftrightarrow> w = 0"

definition v6_is_multicast :: "128 word \<Rightarrow> bool" where
  "v6_is_multicast w \<longleftrightarrow> segment 0 w div 256 = 255"

text \<open>The first seven and the first ten bits of the first segment.\<close>

definition v6_is_unique_local :: "128 word \<Rightarrow> bool" where
  "v6_is_unique_local w \<longleftrightarrow> segment 0 w div 512 = 126"

definition v6_is_unicast_link_local :: "128 word \<Rightarrow> bool" where
  "v6_is_unicast_link_local w \<longleftrightarrow> segment 0 w div 64 = 1018"

fun is_public_address :: "IpAddr \<Rightarrow> bool" where
  "is_public_address (V4 value) =
     (\<not> (v4_is_private value \<or> v4_is_loopback value \<or> v4_is_link_local value \<or> v4_is_broadcast value \<or>
         v4_is_unspecified value \<or> v4_is_multicast value \<or> v4_is_documentation value))"
| "is_public_address (V6 value) =
     (\<not> (v6_is_loopback value \<or> v6_is_unspecified value \<or> v6_is_multicast value \<or>
         v6_is_unique_local value \<or> v6_is_unicast_link_local value))"

section \<open>The printed form\<close>

definition hex_digit :: "nat \<Rightarrow> uchar" where
  "hex_digit n = (if n < 10 then 48 + n else 87 + n)"

fun show_hex :: "nat \<Rightarrow> str" where
  "show_hex n = (if n < 16 then [hex_digit n] else show_hex (n div 16) @ [hex_digit (n mod 16)])"

declare show_hex.simps [simp del]

definition show_v4 :: "32 word \<Rightarrow> str" where
  "show_v4 w = join [46] (map (\<lambda>i. show_nat (octet i w)) [0..<4])"

text \<open>
  The longest run of zero segments, as start and length: a later run replaces an earlier one only when
  it is longer.
\<close>

fun longest_zeroes :: "nat \<Rightarrow> nat \<times> nat \<Rightarrow> nat \<times> nat \<Rightarrow> nat list \<Rightarrow> nat \<times> nat" where
  "longest_zeroes i longest current [] = longest"
| "longest_zeroes i longest current (x # xs) =
     (if x = 0 then
        let current' = (if snd current = 0 then i else fst current, Suc (snd current)) in
        longest_zeroes (Suc i) (if snd current' > snd longest then current' else longest) current' xs
      else longest_zeroes (Suc i) longest (0, 0) xs)"

definition show_v6 :: "128 word \<Rightarrow> str" where
  "show_v6 w =
     (let segments = map (\<lambda>i. segment i w) [0..<8] in
      if take 6 segments = [0, 0, 0, 0, 0, 65535]
      then lit ''::ffff:'' @ show_v4 (of_nat (unat w mod 2 ^ 32))
      else
        let (start, len) = longest_zeroes 0 (0, 0) (0, 0) segments in
        if len > 1 then
          join [58] (map show_hex (take start segments)) @ [58, 58] @
            join [58] (map show_hex (drop (start + len) segments))
        else join [58] (map show_hex segments))"

fun show_ip :: "IpAddr \<Rightarrow> str" where
  "show_ip (V4 w) = show_v4 w"
| "show_ip (V6 w) = show_v6 w"

section \<open>Address ranges\<close>

text \<open>The blocks the test refuses, as first and last address.\<close>

definition refused_v4_blocks :: "(nat \<times> nat) list" where
  "refused_v4_blocks =
     [(0x0A000000, 0x0AFFFFFF), (0xAC100000, 0xAC1FFFFF), (0xC0A80000, 0xC0A8FFFF),
      (0x7F000000, 0x7FFFFFFF), (0xA9FE0000, 0xA9FEFFFF), (0xFFFFFFFF, 0xFFFFFFFF), (0, 0),
      (0xE0000000, 0xEFFFFFFF), (0xC0000200, 0xC00002FF), (0xC6336400, 0xC63364FF),
      (0xCB007100, 0xCB0071FF)]"

definition refused_v6_blocks :: "(nat \<times> nat) list" where
  "refused_v6_blocks =
     [(1, 1), (0, 0), (0xFF * 2 ^ 120, 2 ^ 128 - 1), (0x7E * 2 ^ 121, 0x7F * 2 ^ 121 - 1),
      (0x3FA * 2 ^ 118, 0x3FB * 2 ^ 118 - 1)]"

definition in_block :: "nat \<Rightarrow> nat \<times> nat \<Rightarrow> bool" where
  "in_block n b \<longleftrightarrow> fst b \<le> n \<and> n \<le> snd b"

lemma in_block_div:
  assumes "l = p * m" "h = p * m + (m - 1)" "0 < m"
  shows "in_block n (l, h) \<longleftrightarrow> n div m = p"
proof -
  have "n div m = p \<longleftrightarrow> p * m \<le> n \<and> n < Suc p * m"
    using assms(3) by (metis div_nat_eqI dividend_less_div_times div_times_less_eq_dividend mult.commute mult_Suc)
  with assms show ?thesis by (auto simp: in_block_def)
qed

lemma octets:
  fixes w :: "32 word"
  obtains a b c d where "octet 0 w = a" "octet 1 w = b" "octet 2 w = c" "octet 3 w = d"
    "a < 256" "b < 256" "c < 256" "d < 256"
    "unat w div 16777216 = a" "unat w div 65536 = 256 * a + b" "unat w div 256 = 256 * (256 * a + b) + c"
    "unat w = 256 * (256 * (256 * a + b) + c) + d"
proof -
  have n: "unat w < 4294967296" using unsigned_less [of w, where 'a = nat] by simp
  have split_byte: "k = 256 * (k div 256) + k mod 256" for k :: nat by simp
  have d: "unat w div 65536 div 256 = unat w div 16777216" "unat w div 256 div 256 = unat w div 65536"
    by (simp_all add: div_mult2_eq [symmetric])
  define a b c e where "a = octet 0 w" and "b = octet 1 w" and "c = octet 2 w" and "e = octet 3 w"
  have a: "unat w div 16777216 = a" using n by (simp add: a_def octet_def less_mult_imp_div_less)
  have b: "unat w div 65536 = 256 * a + b"
    using split_byte [of "unat w div 65536"] unfolding d a by (simp add: b_def octet_def)
  have c: "unat w div 256 = 256 * (256 * a + b) + c"
    using split_byte [of "unat w div 256"] unfolding d b by (simp add: c_def octet_def)
  have e: "unat w = 256 * (256 * (256 * a + b) + c) + e"
    using split_byte [of "unat w"] unfolding c by (simp add: e_def octet_def)
  have "a < 256" "b < 256" "c < 256" "e < 256" by (simp_all add: a_def b_def c_def e_def octet_def)
  from that [OF a_def [symmetric] b_def [symmetric] c_def [symmetric] e_def [symmetric] this a b c e]
  show ?thesis .
qed

lemma byte_pair: "b < 256 \<Longrightarrow> q < 256 \<Longrightarrow> 256 * a + b = 256 * p + q \<longleftrightarrow> a = p \<and> b = (q :: nat)"
  by (cases a p rule: linorder_cases) auto

lemma v4_blocks:
  "is_public_address (V4 w) \<longleftrightarrow> \<not> list_ex (in_block (unat w)) refused_v4_blocks"
proof -
  obtain a b c d where o: "octet 0 w = a" "octet 1 w = b" "octet 2 w = c" "octet 3 w = d"
    "a < 256" "b < 256" "c < 256" "d < 256" and
    n: "unat w div 16777216 = a" "unat w div 65536 = 256 * a + b" "unat w div 256 = 256 * (256 * a + b) + c"
      "unat w = 256 * (256 * (256 * a + b) + c) + d"
    by (rule octets)
  have "v4_is_private w \<longleftrightarrow> in_block (unat w) (0x0A000000, 0x0AFFFFFF) \<or>
      in_block (unat w) (0xAC100000, 0xAC1FFFFF) \<or> in_block (unat w) (0xC0A80000, 0xC0A8FFFF)"
  proof -
    have "unat w div 1048576 = (unat w div 65536) div 16" by (simp add: div_mult2_eq [symmetric])
    moreover have "(256 * a + b) div 16 = 2753 \<longleftrightarrow> a = 172 \<and> 16 \<le> b \<and> b \<le> 31"
    proof -
      have "(256 * a + b) div 16 = 16 * a + b div 16" by simp
      moreover have "16 * a + b div 16 = 2753 \<longleftrightarrow> a = 172 \<and> b div 16 = 1"
        using o(6) by (cases a "172 :: nat" rule: linorder_cases) auto
      moreover have "b div 16 = 1 \<longleftrightarrow> 16 \<le> b \<and> b \<le> 31" by auto
      ultimately show ?thesis by simp
    qed
    ultimately have "unat w div 1048576 = 2753 \<longleftrightarrow> a = 172 \<and> 16 \<le> b \<and> b \<le> 31" using n(2) by simp
    moreover have "unat w div 65536 = 49320 \<longleftrightarrow> a = 192 \<and> b = 168"
      unfolding n(2) using byte_pair [OF o(6), of 168 a 192] by simp
    ultimately show ?thesis
      using n(1) o by (simp add: v4_is_private_def in_block_div [of _ 10 16777216]
          in_block_div [of _ 2753 1048576] in_block_div [of _ 49320 65536])
  qed
  moreover have "v4_is_loopback w \<longleftrightarrow> in_block (unat w) (0x7F000000, 0x7FFFFFFF)"
    using n(1) o by (simp add: v4_is_loopback_def in_block_div [of _ 127 16777216])
  moreover have "v4_is_link_local w \<longleftrightarrow> in_block (unat w) (0xA9FE0000, 0xA9FEFFFF)"
  proof -
    have "unat w div 65536 = 43518 \<longleftrightarrow> a = 169 \<and> b = 254"
      unfolding n(2) using byte_pair [OF o(6), of 254 a 169] by simp
    then show ?thesis using o by (simp add: v4_is_link_local_def in_block_div [of _ 43518 65536])
  qed
  moreover have "v4_is_broadcast w \<longleftrightarrow> in_block (unat w) (0xFFFFFFFF, 0xFFFFFFFF)"
    using n(4) o by (auto simp: v4_is_broadcast_def in_block_def)
  moreover have "v4_is_unspecified w \<longleftrightarrow> in_block (unat w) (0, 0)"
    by (simp add: v4_is_unspecified_def in_block_def unat_eq_0)
  moreover have "v4_is_multicast w \<longleftrightarrow> in_block (unat w) (0xE0000000, 0xEFFFFFFF)"
  proof -
    have "unat w div 268435456 = (unat w div 16777216) div 16" by (simp add: div_mult2_eq [symmetric])
    then have "unat w div 268435456 = 14 \<longleftrightarrow> 224 \<le> a \<and> a \<le> 239" unfolding n(1) by auto
    then show ?thesis using o by (simp add: v4_is_multicast_def in_block_div [of _ 14 268435456])
  qed
  moreover have "v4_is_documentation w \<longleftrightarrow> in_block (unat w) (0xC0000200, 0xC00002FF) \<or>
      in_block (unat w) (0xC6336400, 0xC63364FF) \<or> in_block (unat w) (0xCB007100, 0xCB0071FF)"
  proof -
    have "unat w div 256 = 12582914 \<longleftrightarrow> a = 192 \<and> b = 0 \<and> c = 2"
      unfolding n(3) using byte_pair [OF o(7), of 2 "256 * a + b" 49152] byte_pair [OF o(6), of 0 a 192] by simp
    moreover have "unat w div 256 = 12989284 \<longleftrightarrow> a = 198 \<and> b = 51 \<and> c = 100"
      unfolding n(3) using byte_pair [OF o(7), of 100 "256 * a + b" 50739] byte_pair [OF o(6), of 51 a 198] by simp
    moreover have "unat w div 256 = 13303921 \<longleftrightarrow> a = 203 \<and> b = 0 \<and> c = 113"
      unfolding n(3) using byte_pair [OF o(7), of 113 "256 * a + b" 51968] byte_pair [OF o(6), of 0 a 203] by simp
    ultimately show ?thesis
      using o by (simp add: v4_is_documentation_def in_block_div [of _ 12582914 256]
          in_block_div [of _ 12989284 256] in_block_div [of _ 13303921 256])
  qed
  ultimately show ?thesis by (auto simp: refused_v4_blocks_def)
qed

lemma v6_blocks:
  "is_public_address (V6 w) \<longleftrightarrow> \<not> list_ex (in_block (unat w)) refused_v6_blocks"
proof -
  have n: "unat w < 2 ^ 128" using unsigned_less [of w, where 'a = nat] by simp
  have seg: "segment 0 w = unat w div 2 ^ 112"
    using n by (simp add: segment_def less_mult_imp_div_less)
  have "v6_is_multicast w \<longleftrightarrow> in_block (unat w) (0xFF * 2 ^ 120, 2 ^ 128 - 1)"
    unfolding v6_is_multicast_def seg by (subst in_block_div [of _ 255 "2 ^ 120"]) (simp_all add: div_mult2_eq [symmetric])
  moreover have "v6_is_unique_local w \<longleftrightarrow> in_block (unat w) (0x7E * 2 ^ 121, 0x7F * 2 ^ 121 - 1)"
    unfolding v6_is_unique_local_def seg by (subst in_block_div [of _ 126 "2 ^ 121"]) (simp_all add: div_mult2_eq [symmetric])
  moreover have "v6_is_unicast_link_local w \<longleftrightarrow> in_block (unat w) (0x3FA * 2 ^ 118, 0x3FB * 2 ^ 118 - 1)"
    unfolding v6_is_unicast_link_local_def seg by (subst in_block_div [of _ 1018 "2 ^ 118"]) (simp_all add: div_mult2_eq [symmetric])
  moreover have "v6_is_loopback w \<longleftrightarrow> in_block (unat w) (1, 1)"
    by (auto simp: v6_is_loopback_def in_block_def word_unat_eq_iff)
  moreover have "v6_is_unspecified w \<longleftrightarrow> in_block (unat w) (0, 0)"
    by (simp add: v6_is_unspecified_def in_block_def unat_eq_0)
  ultimately show ?thesis by (auto simp: refused_v6_blocks_def)
qed

lemma unat_of_nat_v6: "k < 2 ^ 128 \<Longrightarrow> unat (of_nat k :: 128 word) = k"
  by (simp add: unat_of_nat take_bit_nat_eq_self)

section \<open>Properties\<close>

text \<open>
  An address counts as public exactly when it lies outside the refused blocks: for IPv4 the private,
  loopback, link-local, multicast and documentation blocks, the broadcast and the unspecified address;
  for IPv6 the unspecified and the loopback address and the blocks of the prefixes \<open>ff00::/8\<close>,
  \<open>fc00::/7\<close> and \<open>fe80::/10\<close>.
\<close>

theorem public_address_ranges:
  "is_public_address a \<longleftrightarrow>
     (case a of V4 w \<Rightarrow> \<not> list_ex (in_block (unat w)) refused_v4_blocks
      | V6 w \<Rightarrow> \<not> list_ex (in_block (unat w)) refused_v6_blocks)"
  by (cases a) (simp_all only: v4_blocks v6_blocks IpAddr.case)

text \<open>
  Addresses that lead into private networks, or that are reserved for documentation, are accepted
  in their IPv6 form: every IPv4-mapped address, whatever its IPv4 part (127.0.0.1 included), and every
  address of \<open>2001:db8::/32\<close>.
\<close>

theorem mapped_and_documentation_accepted:
  "is_public_address (V6 (of_nat (0xFFFF * 2 ^ 32 + unat (w :: 32 word)))) \<and>
   is_public_address (V6 (of_nat (0x20010DB8 * 2 ^ 96 + n mod 2 ^ 96)))"
proof
  have w: "unat w < 2 ^ 32" using unsigned_less [of w, where 'a = nat] by simp
  show "is_public_address (V6 (of_nat (0xFFFF * 2 ^ 32 + unat w)))"
    unfolding v6_blocks using w
    by (subst (1) unat_of_nat_v6) (simp_all add: refused_v6_blocks_def in_block_def)
  have "is_public_address (V6 (of_nat (0x20010DB8 * 2 ^ 96 + k)))" if "k < 2 ^ 96" for k
    unfolding v6_blocks using that
    by (subst (1) unat_of_nat_v6) (simp_all add: refused_v6_blocks_def in_block_def)
  then show "is_public_address (V6 (of_nat (0x20010DB8 * 2 ^ 96 + n mod 2 ^ 96)))" by simp
qed

end
