(* ===== verification/Fetch.thy ===== *)
theory Fetch
  imports CoreTypes IpAddress
begin

text \<open>
  The provenance-aware fetch of \<open>pnull-http/src/lib.rs\<close>: every hop is checked against the reviewed
  hosts and the resolved addresses, requested once, and observed.  The crate \<open>url\<close>, the resolver and
  the transport are arguments; resolver and transport see the requests made so far, so they may answer
  differently every time.
\<close>

section \<open>Interfaces\<close>

text \<open>What is used of the crate \<open>url\<close>: a parsed address with scheme, host, printed form and \<open>join\<close>.\<close>

record 'u url_lib =
  url_parse :: "str \<Rightarrow> str + 'u"
  url_scheme :: "'u \<Rightarrow> str"
  url_host_str :: "'u \<Rightarrow> str option"
  url_to_string :: "'u \<Rightarrow> str"
  url_join :: "'u \<Rightarrow> str \<Rightarrow> str + 'u"

datatype HttpError =
  InvalidUrl str
| InsecureUrl
| Resolution str
| NonPublicAddress str
| MixedAnswers str
| UnreviewedRedirect str
| RedirectLoop
| TooManyRedirects
| Transport
| Oversized nat

definition MAX_REDIRECTS :: nat where "MAX_REDIRECTS = 5"

record 'u TransportRequest =
  treq_url :: 'u
  treq_conditional_etag :: "str option"
  treq_conditional_modified :: "str option"

record TransportResponse =
  tres_status_code :: "16 word"
  tres_headers :: "(str \<times> str) list"
  tres_body :: bytes

type_synonym 'u resolver = "'u TransportRequest list \<Rightarrow> str \<Rightarrow> HttpError + IpAddr list"
type_synonym 'u transport = "'u TransportRequest list \<Rightarrow> HttpError + TransportResponse"

record FetchConfig =
  fc_reviewed_hosts :: "str list"
  fc_max_bytes :: nat

record PriorEvidence =
  pri_evidence_id :: str
  pri_etag :: "str option"
  pri_last_modified :: "str option"

record FetchRequest =
  freq_source_id :: "str option"
  freq_requested_url :: str
  freq_retrieved_at :: str
  freq_prior :: "PriorEvidence option"

record FetchResult =
  fres_observations :: "FetchObservation list"
  fres_body :: "bytes option"
  fres_final_url :: str
  fres_unchanged :: bool

section \<open>Checks\<close>

definition validate_resolved :: "str \<Rightarrow> IpAddr list \<Rightarrow> HttpError + unit" where
  "validate_resolved host addresses =
     (if addresses = [] then Inl (Resolution host)
      else
        let public = length (filter is_public_address addresses) in
        if public = 0 then Inl (NonPublicAddress host)
        else if public \<noteq> length addresses then Inl (MixedAnswers host)
        else Inr ())"

definition allows_host :: "FetchConfig \<Rightarrow> str \<Rightarrow> bool" where
  "allows_host config host \<longleftrightarrow> list_ex (\<lambda>reviewed. eq_ignore_ascii_case reviewed host) (fc_reviewed_hosts config)"

definition ALLOWLISTED_HEADERS :: "str list" where
  "ALLOWLISTED_HEADERS = map lit
     [''content-type'', ''content-length'', ''etag'', ''last-modified'', ''location'', ''date'', ''server'',
      ''cache-control'', ''expires'', ''retry-after'', ''content-encoding'', ''content-language'',
      ''x-content-type-options'']"

definition allowlist_headers :: "(str \<times> str) list \<Rightarrow> (str \<times> str) list" where
  "allowlist_headers headers =
     map (\<lambda>(n, v). (to_ascii_lowercase n, v))
       (filter (\<lambda>(n, _). list_ex (eq_ignore_ascii_case n) ALLOWLISTED_HEADERS) headers)"

definition header_value :: "(str \<times> str) list \<Rightarrow> str \<Rightarrow> str option" where
  "header_value headers n = map_option snd (find (\<lambda>(k, _). eq_ignore_ascii_case k n) headers)"

text \<open>\<open>str::parse::<u64>\<close>: an optional plus sign, then digits, below two to the sixty-four.\<close>

definition parse_u64 :: "str \<Rightarrow> 64 word option" where
  "parse_u64 s =
     (let d = (case s of [] \<Rightarrow> s | c # t \<Rightarrow> if c = 43 then t else s);
          v = foldl (\<lambda>v c. 10 * v + (c - 48)) 0 d in
      if d = [] \<or> \<not> list_all is_digit d \<or> v \<ge> 2 ^ 64 then None else Some (of_nat v))"

definition build_observation ::
  "'u url_lib \<Rightarrow> hash \<Rightarrow> str option \<Rightarrow> 'u \<Rightarrow> str \<Rightarrow> IpAddr list \<Rightarrow> TransportResponse \<Rightarrow>
   (str \<times> str) list \<Rightarrow> FetchObservation" where
  "build_observation L sha source_id current_url retrieved_at addresses response allowlisted =
     \<lparr>obs_id = fetch_observation_id_for sha (url_to_string L current_url) retrieved_at (tres_status_code response),
      obs_source_id = source_id, obs_requested_url = url_to_string L current_url,
      obs_resolved_ips = map show_ip addresses, obs_retrieved_at = retrieved_at, obs_method = lit ''GET'',
      obs_status_code = tres_status_code response,
      obs_redirect_target = header_value allowlisted (lit ''location''),
      obs_final_url = url_to_string L current_url, obs_allowlisted_headers = allowlisted,
      obs_content_type = header_value allowlisted (lit ''content-type''),
      obs_content_length = Option.bind (header_value allowlisted (lit ''content-length'')) parse_u64,
      obs_etag = header_value allowlisted (lit ''etag''),
      obs_last_modified = header_value allowlisted (lit ''last-modified''),
      obs_body_digest = None, obs_error = None\<rparr>"

definition follow_redirect ::
  "'u url_lib \<Rightarrow> FetchConfig \<Rightarrow> 'u \<Rightarrow> str option \<Rightarrow> nat \<Rightarrow> HttpError + 'u \<times> nat" where
  "follow_redirect L config current_url redirect_target redirects =
     (case redirect_target of
        None \<Rightarrow> Inl Transport
      | Some target \<Rightarrow>
          (case url_join L current_url target of
             Inl e \<Rightarrow> Inl (InvalidUrl e)
           | Inr next \<Rightarrow>
               if url_scheme L next \<noteq> lit ''https'' then Inl InsecureUrl
               else
                 case url_host_str L next of
                   None \<Rightarrow> Inl InsecureUrl
                 | Some next_host \<Rightarrow>
                     if \<not> allows_host config next_host then Inl (UnreviewedRedirect next_host)
                     else if next = current_url then Inl RedirectLoop
                     else if redirects + 1 > MAX_REDIRECTS then Inl TooManyRedirects
                     else Inr (next, redirects + 1)))"

section \<open>The fetch\<close>

definition conditional_header :: "FetchRequest \<Rightarrow> nat \<Rightarrow> (PriorEvidence \<Rightarrow> str option) \<Rightarrow> str option" where
  "conditional_header request redirects field =
     (if redirects = 0 then Option.bind (freq_prior request) field else None)"

definition redirect_status :: "16 word \<Rightarrow> bool" where
  "redirect_status st \<longleftrightarrow> st \<in> {301, 302, 303, 307, 308}"

definition success_status :: "16 word \<Rightarrow> bool" where
  "success_status st \<longleftrightarrow> 200 \<le> st \<and> st \<le> 204"

lemma follow_redirect_counts: "follow_redirect L config u t n = Inr (next, n') \<Longrightarrow> n' = Suc n \<and> n' \<le> MAX_REDIRECTS"
  by (auto simp: follow_redirect_def split: option.splits sum.splits if_splits)

function fetch_loop ::
  "'u url_lib \<Rightarrow> hash \<Rightarrow> FetchConfig \<Rightarrow> 'u resolver \<Rightarrow> 'u transport \<Rightarrow> FetchRequest \<Rightarrow> 'u \<Rightarrow> nat \<Rightarrow>
   FetchObservation list \<Rightarrow> 'u TransportRequest list \<Rightarrow>
   (HttpError + FetchResult) \<times> 'u TransportRequest list" where
  "fetch_loop L sha config resolve transport request current_url redirects observations log =
     (case url_host_str L current_url of
        None \<Rightarrow> (Inl InsecureUrl, log)
      | Some current_host \<Rightarrow>
          if \<not> allows_host config current_host then (Inl (UnreviewedRedirect current_host), log)
          else
            case resolve log current_host of
              Inl e \<Rightarrow> (Inl e, log)
            | Inr addresses \<Rightarrow>
                (case validate_resolved current_host addresses of
                   Inl e \<Rightarrow> (Inl e, log)
                 | Inr _ \<Rightarrow>
                     let log' = log @ [\<lparr>treq_url = current_url,
                       treq_conditional_etag = conditional_header request redirects pri_etag,
                       treq_conditional_modified = conditional_header request redirects pri_last_modified\<rparr>] in
                     case transport log' of
                       Inl e \<Rightarrow> (Inl e, log')
                     | Inr response \<Rightarrow>
                         let observation = build_observation L sha (freq_source_id request) current_url
                               (freq_retrieved_at request) addresses response
                               (allowlist_headers (tres_headers response)) in
                         if success_status (tres_status_code response) then
                           if length (tres_body response) > fc_max_bytes config
                           then (Inl (Oversized (fc_max_bytes config)), log')
                           else (Inr \<lparr>fres_observations = observations @ [observation
                                   \<lparr>obs_body_digest := Some (sha256_hex sha (tres_body response))\<rparr>],
                                 fres_body = Some (tres_body response),
                                 fres_final_url = url_to_string L current_url, fres_unchanged = False\<rparr>, log')
                         else if tres_status_code response = 304 then
                           (Inr \<lparr>fres_observations = observations @ [observation], fres_body = None,
                              fres_final_url = url_to_string L current_url, fres_unchanged = True\<rparr>, log')
                         else if redirect_status (tres_status_code response) then
                           (case follow_redirect L config current_url (obs_redirect_target observation) redirects of
                              Inl e \<Rightarrow> (Inl e, log')
                            | Inr (next, new_redirects) \<Rightarrow>
                                fetch_loop L sha config resolve transport request next new_redirects
                                  (observations @ [observation]) log')
                         else (Inl Transport, log')))"
  by pat_completeness auto

text \<open>Every round that goes on counts a redirect, and there are at most \<open>MAX_REDIRECTS\<close> of them.\<close>

termination
  by (relation "measure (\<lambda>(_, _, _, _, _, _, _, redirects, _). Suc MAX_REDIRECTS - redirects)")
    (auto dest: follow_redirect_counts)

declare fetch_loop.simps [simp del]

definition provenance_fetch ::
  "'u url_lib \<Rightarrow> hash \<Rightarrow> FetchConfig \<Rightarrow> 'u resolver \<Rightarrow> 'u transport \<Rightarrow> FetchRequest \<Rightarrow>
   (HttpError + FetchResult) \<times> 'u TransportRequest list" where
  "provenance_fetch L sha config resolve transport request =
     (case url_parse L (freq_requested_url request) of
        Inl e \<Rightarrow> (Inl (InvalidUrl e), [])
      | Inr url \<Rightarrow>
          if url_scheme L url \<noteq> lit ''https'' then (Inl InsecureUrl, [])
          else
            case url_host_str L url of
              None \<Rightarrow> (Inl InsecureUrl, [])
            | Some host \<Rightarrow>
                if \<not> allows_host config host then (Inl (UnreviewedRedirect host), [])
                else fetch_loop L sha config resolve transport request url 0 [] [])"

definition missing_observation :: "FetchResult \<Rightarrow> str option \<Rightarrow> FetchObservation" where
  "missing_observation result source_id =
     \<lparr>obs_id = lit ''fetch:none'', obs_source_id = source_id, obs_requested_url = fres_final_url result,
      obs_resolved_ips = [], obs_retrieved_at = [], obs_method = lit ''GET'', obs_status_code = 0,
      obs_redirect_target = None, obs_final_url = fres_final_url result, obs_allowlisted_headers = [],
      obs_content_type = None, obs_content_length = None, obs_etag = None, obs_last_modified = None,
      obs_body_digest = None, obs_error = None\<rparr>"

definition conditional_result ::
  "FetchResult \<Rightarrow> str option \<Rightarrow> PriorEvidence option \<Rightarrow> ConditionalResult" where
  "conditional_result result source_id prior =
     \<lparr>cnd_observation =
        (if fres_observations result = [] then missing_observation result source_id
         else last (fres_observations result)),
      cnd_unchanged = fres_unchanged result,
      cnd_prior_evidence_id =
        (if fres_unchanged result then map_option pri_evidence_id prior else None),
      cnd_new_evidence_id = None\<rparr>"

definition observation_error :: "str \<Rightarrow> str \<Rightarrow> StructuredError" where
  "observation_error code message = \<lparr>err_code = code, err_message = message\<rparr>"

section \<open>One hop\<close>

definition hop_request :: "FetchRequest \<Rightarrow> 'u \<Rightarrow> nat \<Rightarrow> 'u TransportRequest" where
  "hop_request request u n = \<lparr>treq_url = u, treq_conditional_etag = conditional_header request n pri_etag,
     treq_conditional_modified = conditional_header request n pri_last_modified\<rparr>"

text \<open>A host that is reviewed and resolves, at this point, to public addresses only.\<close>

definition host_cleared :: "'u url_lib \<Rightarrow> FetchConfig \<Rightarrow> 'u resolver \<Rightarrow> 'u TransportRequest list \<Rightarrow> 'u \<Rightarrow> IpAddr list \<Rightarrow> bool" where
  "host_cleared L config resolve log u addresses \<longleftrightarrow>
     (\<exists>h. url_host_str L u = Some h \<and> allows_host config h \<and> resolve log h = Inr addresses \<and>
        addresses \<noteq> [] \<and> list_all is_public_address addresses)"

lemma validate_resolved_ok:
  "validate_resolved h addresses = Inr u \<longleftrightarrow> addresses \<noteq> [] \<and> list_all is_public_address addresses"
proof -
  have "length (filter is_public_address addresses) = length addresses \<longleftrightarrow> list_all is_public_address addresses"
    by (metis filter_True length_filter_less less_irrefl list_all_iff)
  then show ?thesis by (auto simp: validate_resolved_def Let_def)
qed

lemma fetch_loop_cases:
  assumes "fetch_loop L sha config resolve transport request u n obs log = (x, log')"
  obtains (refused) e where "x = Inl e" "log' = log"
  | (failed) e addresses where "x = Inl e" "log' = log @ [hop_request request u n]"
      "host_cleared L config resolve log u addresses"
  | (answered) addresses response ob where "host_cleared L config resolve log u addresses"
      "log' = log @ [hop_request request u n]" "transport log' = Inr response"
      "ob = build_observation L sha (freq_source_id request) u (freq_retrieved_at request) addresses response
         (allowlist_headers (tres_headers response))"
      "success_status (tres_status_code response)" "length (tres_body response) \<le> fc_max_bytes config"
      "x = Inr \<lparr>fres_observations = obs @ [ob\<lparr>obs_body_digest := Some (sha256_hex sha (tres_body response))\<rparr>],
         fres_body = Some (tres_body response), fres_final_url = url_to_string L u, fres_unchanged = False\<rparr>"
  | (unmodified) addresses response ob where "host_cleared L config resolve log u addresses"
      "log' = log @ [hop_request request u n]" "transport log' = Inr response"
      "ob = build_observation L sha (freq_source_id request) u (freq_retrieved_at request) addresses response
         (allowlist_headers (tres_headers response))"
      "tres_status_code response = 304"
      "x = Inr \<lparr>fres_observations = obs @ [ob], fres_body = None, fres_final_url = url_to_string L u,
         fres_unchanged = True\<rparr>"
  | (redirected) addresses response ob u' n' where "host_cleared L config resolve log u addresses"
      "transport (log @ [hop_request request u n]) = Inr response"
      "ob = build_observation L sha (freq_source_id request) u (freq_retrieved_at request) addresses response
         (allowlist_headers (tres_headers response))"
      "redirect_status (tres_status_code response)"
      "follow_redirect L config u (obs_redirect_target ob) n = Inr (u', n')"
      "fetch_loop L sha config resolve transport request u' n' (obs @ [ob]) (log @ [hop_request request u n]) = (x, log')"
proof (cases "\<exists>addresses. host_cleared L config resolve log u addresses")
  case False
  then have "\<exists>e. x = Inl e \<and> log' = log"
    using assms by (subst (asm) fetch_loop.simps)
      (auto simp: host_cleared_def validate_resolved_ok split: option.splits sum.splits if_splits)
  then show ?thesis using refused by blast
next
  case True
  then obtain addresses h where h: "url_host_str L u = Some h" "allows_host config h" "resolve log h = Inr addresses"
    "addresses \<noteq> []" "list_all is_public_address addresses" unfolding host_cleared_def by blast
  then have c: "host_cleared L config resolve log u addresses" by (auto simp: host_cleared_def)
  have "validate_resolved h addresses = Inr ()" using h(4,5) by (simp add: validate_resolved_ok)
  then have body: "(let log' = log @ [hop_request request u n] in
                     case transport log' of
                       Inl e \<Rightarrow> (Inl e, log')
                     | Inr response \<Rightarrow>
                         let observation = build_observation L sha (freq_source_id request) u
                               (freq_retrieved_at request) addresses response
                               (allowlist_headers (tres_headers response)) in
                         if success_status (tres_status_code response) then
                           if length (tres_body response) > fc_max_bytes config
                           then (Inl (Oversized (fc_max_bytes config)), log')
                           else (Inr \<lparr>fres_observations = obs @ [observation
                                   \<lparr>obs_body_digest := Some (sha256_hex sha (tres_body response))\<rparr>],
                                 fres_body = Some (tres_body response),
                                 fres_final_url = url_to_string L u, fres_unchanged = False\<rparr>, log')
                         else if tres_status_code response = 304 then
                           (Inr \<lparr>fres_observations = obs @ [observation], fres_body = None,
                              fres_final_url = url_to_string L u, fres_unchanged = True\<rparr>, log')
                         else if redirect_status (tres_status_code response) then
                           (case follow_redirect L config u (obs_redirect_target observation) n of
                              Inl e \<Rightarrow> (Inl e, log')
                            | Inr (next, new_redirects) \<Rightarrow>
                                fetch_loop L sha config resolve transport request next new_redirects
                                  (obs @ [observation]) log')
                         else (Inl Transport, log')) = (x, log')"
    using assms h(1-3) by (subst (asm) fetch_loop.simps) (simp add: hop_request_def)
  show ?thesis
  proof (cases "transport (log @ [hop_request request u n])")
    case (Inl e)
    then show ?thesis using body c failed by auto
  next
    case (Inr response)
    define ob where "ob = build_observation L sha (freq_source_id request) u (freq_retrieved_at request)
      addresses response (allowlist_headers (tres_headers response))"
    note body' = body [unfolded Inr Let_def sum.case, folded ob_def]
    consider (ok) "success_status (tres_status_code response)" "length (tres_body response) \<le> fc_max_bytes config"
      | (big) "success_status (tres_status_code response)" "length (tres_body response) > fc_max_bytes config"
      | (same) "\<not> success_status (tres_status_code response)" "tres_status_code response = 304"
      | (redir) "\<not> success_status (tres_status_code response)" "tres_status_code response \<noteq> 304"
          "redirect_status (tres_status_code response)"
      | (other) "\<not> success_status (tres_status_code response)" "tres_status_code response \<noteq> 304"
          "\<not> redirect_status (tres_status_code response)"
      by (cases "success_status (tres_status_code response)"; force simp: not_less)
    then show ?thesis
    proof cases
      case ok
      then show ?thesis using body' answered [OF c _ _ ob_def] Inr by simp
    next
      case big
      then show ?thesis using body' failed [OF _ _ c] by auto
    next
      case same
      then show ?thesis using body' unmodified [OF c _ _ ob_def] Inr by simp
    next
      case redir
      show ?thesis
      proof (cases "follow_redirect L config u (obs_redirect_target ob) n")
        case (Inl e)
        then show ?thesis using body' redir failed [OF _ _ c] by auto
      next
        case (Inr un)
        obtain u' n' where "un = (u', n')" by fastforce
        with Inr show ?thesis
          using body' redir redirected [OF c \<open>transport _ = Inr response\<close> ob_def] by simp
      qed
    next
      case other
      then show ?thesis using body' failed [OF _ _ c] by auto
    qed
  qed
qed

section \<open>All hops\<close>

text \<open>A request that may be sent: over https, to a cleared host, conditional only at the first hop.\<close>

definition request_cleared ::
  "'u url_lib \<Rightarrow> FetchConfig \<Rightarrow> 'u resolver \<Rightarrow> nat \<Rightarrow> 'u TransportRequest list \<Rightarrow> 'u TransportRequest \<Rightarrow> bool" where
  "request_cleared L config resolve n log r \<longleftrightarrow>
     url_scheme L (treq_url r) = lit ''https'' \<and>
     (\<exists>addresses. host_cleared L config resolve log (treq_url r) addresses) \<and>
     (n = 0 \<or> treq_conditional_etag r = None \<and> treq_conditional_modified r = None)"

lemma follow_redirect_https: "follow_redirect L config u t n = Inr (next, n') \<Longrightarrow> url_scheme L next = lit ''https''"
  by (auto simp: follow_redirect_def split: option.splits sum.splits if_splits)

lemma hop_request_cleared:
  "url_scheme L u = lit ''https'' \<Longrightarrow> host_cleared L config resolve log u addresses \<Longrightarrow>
     request_cleared L config resolve n log (hop_request request u n)"
  by (auto simp: request_cleared_def hop_request_def conditional_header_def)

fun requests_cleared ::
  "'u url_lib \<Rightarrow> FetchConfig \<Rightarrow> 'u resolver \<Rightarrow> nat \<Rightarrow> 'u TransportRequest list \<Rightarrow> 'u TransportRequest list \<Rightarrow> bool" where
  "requests_cleared L config resolve n log [] = True"
| "requests_cleared L config resolve n log (r # rs) =
     (request_cleared L config resolve n log r \<and> requests_cleared L config resolve (Suc n) (log @ [r]) rs)"

lemma fetch_loop_requests:
  assumes "fetch_loop L sha config resolve transport request u n obs log = (x, log')"
    "url_scheme L u = lit ''https''" "n \<le> MAX_REDIRECTS"
  shows "\<exists>new. log' = log @ new \<and> length new \<le> Suc MAX_REDIRECTS - n \<and>
    requests_cleared L config resolve n log new"
  using assms
proof (induction "Suc MAX_REDIRECTS - n" arbitrary: u n obs log rule: less_induct)
  case less
  note one = hop_request_cleared [OF less.prems(2), of config resolve log _ n request]
  from less.prems(1) show ?case
  proof (cases rule: fetch_loop_cases)
    case (redirected addresses response ob u' n')
    have n': "n' = Suc n" "n' \<le> MAX_REDIRECTS" using follow_redirect_counts [OF redirected(5)] by auto
    then have "Suc MAX_REDIRECTS - n' < Suc MAX_REDIRECTS - n" by simp
    then obtain new where "log' = (log @ [hop_request request u n]) @ new" "length new \<le> Suc MAX_REDIRECTS - n'"
      "requests_cleared L config resolve n' (log @ [hop_request request u n]) new"
      using less.hyps [OF _ redirected(6) follow_redirect_https [OF redirected(5)] n'(2)] by blast
    then show ?thesis
      using one [OF redirected(1)] n' by (intro exI [of _ "hop_request request u n # new"]) auto
  qed (use one less.prems(3) in \<open>auto intro!: exI [of _ "[hop_request request u n]"]\<close>)
qed

lemma requests_cleared_nth:
  "requests_cleared L config resolve n log rs \<Longrightarrow> k < length rs \<Longrightarrow>
     request_cleared L config resolve (n + k) (log @ take k rs) (rs ! k)"
proof (induction rs arbitrary: n log k)
  case (Cons r rs)
  then show ?case using Cons.IH [of "Suc n" "log @ [r]" "k - 1"] by (cases k) auto
qed simp

text \<open>What a successful fetch reports of its requests.\<close>

definition observed :: "'u url_lib \<Rightarrow> 'u TransportRequest \<Rightarrow> TransportResponse \<Rightarrow> FetchObservation \<Rightarrow> bool" where
  "observed L r response ob \<longleftrightarrow>
     obs_requested_url ob = url_to_string L (treq_url r) \<and> obs_status_code ob = tres_status_code response \<and>
     obs_allowlisted_headers ob = allowlist_headers (tres_headers response)"

fun hops_observed ::
  "'u url_lib \<Rightarrow> 'u transport \<Rightarrow> 'u TransportRequest list \<Rightarrow> 'u TransportRequest list \<Rightarrow>
   FetchObservation list \<Rightarrow> bool" where
  "hops_observed L transport log [r] [ob] =
     (\<exists>response. transport (log @ [r]) = Inr response \<and> observed L r response ob)"
| "hops_observed L transport log (r # rs) (ob # obs) =
     ((\<exists>response. transport (log @ [r]) = Inr response \<and> observed L r response ob \<and>
         redirect_status (tres_status_code response)) \<and>
      hops_observed L transport (log @ [r]) rs obs)"
| "hops_observed L transport log _ _ = False"

definition result_of_response :: "'u url_lib \<Rightarrow> hash \<Rightarrow> FetchConfig \<Rightarrow> 'u \<Rightarrow> TransportResponse \<Rightarrow> FetchResult \<Rightarrow> bool" where
  "result_of_response L sha config u response res \<longleftrightarrow>
     fres_final_url res = url_to_string L u \<and>
     (if fres_unchanged res then tres_status_code response = 304 \<and> fres_body res = None
      else success_status (tres_status_code response) \<and> fres_body res = Some (tres_body response) \<and>
        length (tres_body response) \<le> fc_max_bytes config \<and>
        obs_body_digest (last (fres_observations res)) = Some (sha256_hex sha (tres_body response)))"

lemma hops_observed_ne: "hops_observed L transport log rs obs \<Longrightarrow> rs \<noteq> [] \<and> obs \<noteq> []"
  by (cases rs; cases obs) auto

lemma observed_build:
  "observed L (hop_request request u n) response
     (build_observation L sha sid u at addresses response (allowlist_headers (tres_headers response)))"
  by (simp add: observed_def hop_request_def build_observation_def)

lemma fetch_loop_result:
  assumes "fetch_loop L sha config resolve transport request u n obs log = (Inr res, log')"
  shows "\<exists>new obs' response. log' = log @ new \<and> fres_observations res = obs @ obs' \<and>
    hops_observed L transport log new obs' \<and> transport log' = Inr response \<and>
    result_of_response L sha config (treq_url (last new)) response res"
  using assms
proof (induction "Suc MAX_REDIRECTS - n" arbitrary: u n obs log rule: less_induct)
  case less
  from less.prems show ?case
  proof (cases rule: fetch_loop_cases)
    case (answered addresses response ob)
    have "observed L (hop_request request u n) response
        (ob\<lparr>obs_body_digest := Some (sha256_hex sha (tres_body response))\<rparr>)"
      using observed_build unfolding answered(4) observed_def by simp
    then show ?thesis using answered
      by (intro exI [of _ "[hop_request request u n]"] exI [of _ response]
          exI [of _ "[ob\<lparr>obs_body_digest := Some (sha256_hex sha (tres_body response))\<rparr>]"])
        (simp add: result_of_response_def hop_request_def)
  next
    case (unmodified addresses response ob)
    then show ?thesis using observed_build [of L request u n response sha]
      by (intro exI [of _ "[hop_request request u n]"] exI [of _ "[ob]"] exI [of _ response])
        (simp add: result_of_response_def hop_request_def)
  next
    case (redirected addresses response ob u' n')
    have n': "n' = Suc n" "n' \<le> MAX_REDIRECTS" using follow_redirect_counts [OF redirected(5)] by auto
    then have "Suc MAX_REDIRECTS - n' < Suc MAX_REDIRECTS - n" by simp
    then obtain new obs' response' where rest: "log' = (log @ [hop_request request u n]) @ new"
      "fres_observations res = (obs @ [ob]) @ obs'"
      "hops_observed L transport (log @ [hop_request request u n]) new obs'" "transport log' = Inr response'"
      "result_of_response L sha config (treq_url (last new)) response' res"
      using less.hyps [OF _ redirected(6)] by blast
    note ne = hops_observed_ne [OF rest(3)]
    then have "hops_observed L transport log (hop_request request u n # new) (ob # obs')"
      using rest(3) redirected(2,4) observed_build [of L request u n response sha] redirected(3)
      by (cases new; cases obs') auto
    then show ?thesis using rest ne
      by (intro exI [of _ "hop_request request u n # new"] exI [of _ "ob # obs'"] exI [of _ response']) simp
  qed simp_all
qed

lemma provenance_fetch_loop:
  assumes "provenance_fetch L sha config resolve transport request = (x, log)"
  obtains e where "x = Inl e" "log = []"
  | u where "url_parse L (freq_requested_url request) = Inr u" "url_scheme L u = lit ''https''"
      "fetch_loop L sha config resolve transport request u 0 [] [] = (x, log)"
  using assms by (auto simp: provenance_fetch_def split: sum.splits option.splits if_splits)

section \<open>A sample run\<close>

text \<open>A library of addresses for concrete runs: an address is its own parsed form.\<close>

definition plain_url :: "str url_lib" where
  "plain_url = \<lparr>url_parse = Inr, url_scheme = \<lambda>_. lit ''https'', url_host_str = Some, url_to_string = \<lambda>u. u,
     url_join = \<lambda>_ t. Inr t\<rparr>"

text \<open>A site that sends \<open>a\<close> on to \<open>b\<close>, and answers there.\<close>

definition two_hops :: "str transport" where
  "two_hops log =
     Inr (if treq_url (last log) = [97]
       then \<lparr>tres_status_code = 301, tres_headers = [(lit ''Location'', [98]), (lit ''Set-Cookie'', [99])], tres_body = []\<rparr>
       else \<lparr>tres_status_code = 200, tres_headers = [], tres_body = [104, 105]\<rparr>)"

definition two_hosts :: FetchConfig where
  "two_hosts = \<lparr>fc_reviewed_hosts = [[97], [98]], fc_max_bytes = 10\<rparr>"

definition sample_request :: FetchRequest where
  "sample_request = \<lparr>freq_source_id = None, freq_requested_url = [97], freq_retrieved_at = [], freq_prior = None\<rparr>"

definition public_resolver :: "str resolver" where
  "public_resolver log h = Inr [V4 0x08080808]"

lemma two_hops_run:
  obtains res r where
    "provenance_fetch plain_url id_hash two_hosts public_resolver two_hops sample_request =
       (Inr res, [\<lparr>treq_url = [97], treq_conditional_etag = None, treq_conditional_modified = None\<rparr>, r])"
    "fres_body res = Some [104, 105]"
proof -
  have public: "is_public_address (V4 0x08080808)"
    unfolding v4_blocks by (simp add: refused_v4_blocks_def in_block_def)
  let ?a = "\<lparr>treq_url = [97::nat], treq_conditional_etag = None, treq_conditional_modified = None\<rparr>"
  let ?b = "\<lparr>treq_url = [98::nat], treq_conditional_etag = None, treq_conditional_modified = None\<rparr>"
  have hosts: "allows_host two_hosts [97]" "allows_host two_hosts [98]"
    by (simp_all add: allows_host_def two_hosts_def eq_ignore_ascii_case_def)
  have valid: "validate_resolved h [V4 0x08080808] = Inr ()" for h
    using public by (simp add: validate_resolved_ok)
  note hosts' = hosts [unfolded two_hosts_def]
  have b: "\<exists>res. fetch_loop plain_url id_hash two_hosts public_resolver two_hops sample_request [98] 1 obs [?a] =
      (Inr res, [?a, ?b]) \<and> fres_body res = Some [104, 105]" for obs
    by (subst fetch_loop.simps)
      (simp add: plain_url_def public_resolver_def hosts valid two_hops_def success_status_def Let_def
        conditional_header_def two_hosts_def hosts')
  have loc: "header_value (allowlist_headers [(lit ''Location'', [98]), (lit ''Set-Cookie'', [99])]) (lit ''location'') = Some [98]"
    by (simp add: header_value_def allowlist_headers_def ALLOWLISTED_HEADERS_def eq_ignore_ascii_case_def
        to_lower_def lit_def is_upper_def)
  have f: "follow_redirect plain_url two_hosts [97] (Some [98]) 0 = Inr ([98], 1)"
    by (simp add: follow_redirect_def plain_url_def hosts MAX_REDIRECTS_def)
  have "\<exists>obs. fetch_loop plain_url id_hash two_hosts public_resolver two_hops sample_request [97] 0 [] [] =
      fetch_loop plain_url id_hash two_hosts public_resolver two_hops sample_request [98] 1 obs [?a]"
    by (subst fetch_loop.simps)
      (auto simp: plain_url_def public_resolver_def hosts valid two_hops_def success_status_def Let_def
        conditional_header_def redirect_status_def build_observation_def loc f [unfolded plain_url_def] sample_request_def)
  with b obtain res where "fetch_loop plain_url id_hash two_hosts public_resolver two_hops sample_request [97] 0 [] [] =
      (Inr res, [?a, ?b])" "fres_body res = Some [104, 105]" by metis
  then show ?thesis
    using that by (simp add: provenance_fetch_def plain_url_def sample_request_def hosts)
qed

section \<open>Properties\<close>

lemma public_v4:
  "is_public_address (V4 w) \<Longrightarrow> (first, final) \<in> set refused_v4_blocks \<Longrightarrow> unat w < first \<or> final < unat w"
  unfolding v4_blocks by (force simp: list_ex_iff in_block_def)

lemma public_v6:
  "is_public_address (V6 w) \<Longrightarrow> (first, final) \<in> set refused_v6_blocks \<Longrightarrow> unat w < first \<or> final < unat w"
  unfolding v6_blocks by (force simp: list_ex_iff in_block_def)

text \<open>
  C14: A fetch sends only cleared requests: whatever it returns, it sends at most six; each goes over https to a
  reviewed host, and every address its name gave, when it was resolved just before, lies outside the blocks
  listed: for IPv4 10/8, 172.16/12, 192.168/16, 127/8, 169.254/16, 255.255.255.255, 0.0.0.0, 224/4, 192.0.2/24,
  198.51.100/24 and 203.0.113/24, for IPv6 ::1, ::, ff00::/8, fc00::/7 and fe80::/10; and only the first request is
  conditional on prior evidence.  IPv4-mapped IPv6 addresses and 2001:db8::/32 are not excluded, and a redirect may
  lead to another reviewed host.
\<close>

theorem requests_go_to_public_reviewed_hosts:
  assumes "provenance_fetch L sha config resolve transport request = (x, log)"
  shows "length log \<le> 6 \<and>
    (\<forall>k < length log. url_scheme L (treq_url (log ! k)) = lit ''https'' \<and>
       (\<exists>h addresses. url_host_str L (treq_url (log ! k)) = Some h \<and>
          (\<exists>reviewed \<in> set (fc_reviewed_hosts config). to_ascii_lowercase reviewed = to_ascii_lowercase h) \<and>
          resolve (take k log) h = Inr addresses \<and> addresses \<noteq> [] \<and>
          (\<forall>a \<in> set addresses. case a of
             V4 w \<Rightarrow> \<forall>(first, final) \<in>
               {(0x0A000000, 0x0AFFFFFF), (0xAC100000, 0xAC1FFFFF), (0xC0A80000, 0xC0A8FFFF), (0x7F000000, 0x7FFFFFFF),
                (0xA9FE0000, 0xA9FEFFFF), (0xFFFFFFFF, 0xFFFFFFFF), (0, 0), (0xE0000000, 0xEFFFFFFF),
                (0xC0000200, 0xC00002FF), (0xC6336400, 0xC63364FF), (0xCB007100, 0xCB0071FF)}.
               unat w < first \<or> final < unat w
           | V6 w \<Rightarrow> \<forall>(first, final) \<in>
               {(1, 1), (0, 0), (0xFF * 2 ^ 120, 2 ^ 128 - 1), (0x7E * 2 ^ 121, 0x7F * 2 ^ 121 - 1),
                (0x3FA * 2 ^ 118, 0x3FB * 2 ^ 118 - 1)}.
               unat w < first \<or> final < unat w)) \<and>
       (k = 0 \<or> treq_conditional_etag (log ! k) = None \<and> treq_conditional_modified (log ! k) = None))"
proof -
  have "length log \<le> 6 \<and> requests_cleared L config resolve 0 [] log"
    using assms
  proof (cases rule: provenance_fetch_loop)
    case (2 u)
    then show ?thesis
      using fetch_loop_requests [of L sha config resolve transport request u 0 "[]" "[]" x log]
      by (auto simp: MAX_REDIRECTS_def)
  qed simp
  then have cleared: "length log \<le> 6" "\<And>k. k < length log \<Longrightarrow> request_cleared L config resolve (0 + k) (take k log) (log ! k)"
    using requests_cleared_nth [of L config resolve 0 "[]" log] by auto
  show ?thesis
  proof (intro conjI allI impI)
    fix k assume k: "k < length log"
    obtain h addresses where h: "url_host_str L (treq_url (log ! k)) = Some h" "allows_host config h"
      "resolve (take k log) h = Inr addresses" "addresses \<noteq> []" "list_all is_public_address addresses"
      and rest: "url_scheme L (treq_url (log ! k)) = lit ''https''"
      "k = 0 \<or> treq_conditional_etag (log ! k) = None \<and> treq_conditional_modified (log ! k) = None"
      using cleared(2) [OF k] by (auto simp: request_cleared_def host_cleared_def)
    show "url_scheme L (treq_url (log ! k)) = lit ''https''"
      "k = 0 \<or> treq_conditional_etag (log ! k) = None \<and> treq_conditional_modified (log ! k) = None"
      using rest by simp_all
    have blocks: "case a of
        V4 w \<Rightarrow> \<forall>(first, final) \<in> set refused_v4_blocks. unat w < first \<or> final < unat w
      | V6 w \<Rightarrow> \<forall>(first, final) \<in> set refused_v6_blocks. unat w < first \<or> final < unat w" if "a \<in> set addresses" for a
    proof -
      have "is_public_address a" using h(5) that by (simp add: list_all_iff)
      then show ?thesis
        using public_v4 public_v6 by (cases a) (simp_all del: is_public_address.simps add: case_prod_beta)
    qed
    have reviewed: "\<exists>reviewed \<in> set (fc_reviewed_hosts config). to_ascii_lowercase reviewed = to_ascii_lowercase h"
      using h(2) by (auto simp: allows_host_def list_ex_iff eq_ignore_ascii_case_def)
    show "\<exists>h addresses. url_host_str L (treq_url (log ! k)) = Some h \<and>
          (\<exists>reviewed \<in> set (fc_reviewed_hosts config). to_ascii_lowercase reviewed = to_ascii_lowercase h) \<and>
          resolve (take k log) h = Inr addresses \<and> addresses \<noteq> [] \<and>
          (\<forall>a \<in> set addresses. case a of
             V4 w \<Rightarrow> \<forall>(first, final) \<in>
               {(0x0A000000, 0x0AFFFFFF), (0xAC100000, 0xAC1FFFFF), (0xC0A80000, 0xC0A8FFFF), (0x7F000000, 0x7FFFFFFF),
                (0xA9FE0000, 0xA9FEFFFF), (0xFFFFFFFF, 0xFFFFFFFF), (0, 0), (0xE0000000, 0xEFFFFFFF),
                (0xC0000200, 0xC00002FF), (0xC6336400, 0xC63364FF), (0xCB007100, 0xCB0071FF)}.
               unat w < first \<or> final < unat w
           | V6 w \<Rightarrow> \<forall>(first, final) \<in>
               {(1, 1), (0, 0), (0xFF * 2 ^ 120, 2 ^ 128 - 1), (0x7E * 2 ^ 121, 0x7F * 2 ^ 121 - 1),
                (0x3FA * 2 ^ 118, 0x3FB * 2 ^ 118 - 1)}.
               unat w < first \<or> final < unat w)"
      using h reviewed blocks unfolding refused_v4_blocks_def refused_v6_blocks_def list.set by blast
  qed (rule cleared(1))
qed

theorem requests_go_to_public_reviewed_hosts_witness:
  "\<exists>x r. provenance_fetch plain_url id_hash two_hosts public_resolver two_hops sample_request =
      (x, [\<lparr>treq_url = [97], treq_conditional_etag = None, treq_conditional_modified = None\<rparr>, r]) \<and>
    to_ascii_lowercase (treq_url r) \<in> to_ascii_lowercase ` set (fc_reviewed_hosts two_hosts)"
proof -
  obtain res r where run: "provenance_fetch plain_url id_hash two_hosts public_resolver two_hops sample_request =
      (Inr res, [\<lparr>treq_url = [97], treq_conditional_etag = None, treq_conditional_modified = None\<rparr>, r])"
    by (rule two_hops_run)
  have "\<exists>reviewed \<in> set (fc_reviewed_hosts two_hosts). to_ascii_lowercase reviewed = to_ascii_lowercase (treq_url r)"
    using requests_go_to_public_reviewed_hosts [OF run, THEN conjunct2, rule_format, of 1] by (simp add: plain_url_def)
  then have "to_ascii_lowercase (treq_url r) \<in> to_ascii_lowercase ` set (fc_reviewed_hosts two_hosts)"
    by (metis imageI)
  with run show ?thesis by blast
qed

text \<open>A redirect need not stay on its host: another reviewed one will do.\<close>

lemma redirect_to_other_host_followed:
  "follow_redirect plain_url two_hosts [97] (Some [98]) 0 = Inr ([98], 1) \<and>
   url_host_str plain_url [97] \<noteq> url_host_str plain_url [98]"
proof -
  have "allows_host two_hosts [98]" by (simp add: allows_host_def two_hosts_def eq_ignore_ascii_case_def)
  then show ?thesis by (simp add: follow_redirect_def plain_url_def MAX_REDIRECTS_def)
qed

text \<open>
  What a successful fetch reports is what happened: there is one observation per request, in order,
  with the address asked for and the status and allow-listed headers of its response; all responses but
  the last are redirects; the last is either 304, then nothing but \<open>unchanged\<close> is reported, or a
  success, whose body is returned, respects the limit and has the recorded digest.
\<close>

theorem fetch_reports_what_happened:
  assumes "provenance_fetch L sha config resolve transport request = (Inr res, log)"
  shows "hops_observed L transport [] log (fres_observations res) \<and>
    (\<exists>response. transport log = Inr response \<and>
       result_of_response L sha config (treq_url (last log)) response res)"
  using assms
proof (cases rule: provenance_fetch_loop)
  case (2 u)
  from fetch_loop_result [OF 2(3)] show ?thesis by auto
qed simp

theorem fetch_reports_what_happened_witness:
  "\<exists>res log. provenance_fetch plain_url id_hash two_hosts public_resolver two_hops sample_request = (Inr res, log) \<and>
    hops_observed plain_url two_hops [] log (fres_observations res) \<and> fres_body res = Some [104, 105]"
proof -
  obtain res r where run: "provenance_fetch plain_url id_hash two_hosts public_resolver two_hops sample_request =
      (Inr res, [\<lparr>treq_url = [97], treq_conditional_etag = None, treq_conditional_modified = None\<rparr>, r])"
    "fres_body res = Some [104, 105]"
    by (rule two_hops_run)
  from fetch_reports_what_happened [OF run(1)] run show ?thesis by blast
qed

lemma allowlisted_names: "fst ` set (allowlist_headers headers) \<subseteq> set ALLOWLISTED_HEADERS"
proof -
  have "list_all (\<lambda>a. to_ascii_lowercase a = a) ALLOWLISTED_HEADERS"
    by (simp add: ALLOWLISTED_HEADERS_def lit_def to_lower_def is_upper_def)
  then show ?thesis
    by (auto simp: allowlist_headers_def list_ex_iff list_all_iff eq_ignore_ascii_case_def)
qed

lemma hops_observed_headers:
  "hops_observed L transport log rs obs \<Longrightarrow> ob \<in> set obs \<Longrightarrow>
     \<exists>headers. obs_allowlisted_headers ob = allowlist_headers headers"
  by (induction L transport log rs obs rule: hops_observed.induct) (auto simp: observed_def)

text \<open>
  No credential reaches an observation: the header names recorded by a fetch are among the thirteen
  allow-listed ones, in lower case, whatever the server sent.
\<close>

theorem observed_headers_allowlisted:
  assumes "provenance_fetch L sha config resolve transport request = (Inr res, log)"
    "ob \<in> set (fres_observations res)"
  shows "fst ` set (obs_allowlisted_headers ob) \<subseteq> set ALLOWLISTED_HEADERS"
proof -
  have "hops_observed L transport [] log (fres_observations res)"
    using assms(1)
  proof (cases rule: provenance_fetch_loop)
    case (2 u)
    from fetch_loop_result [OF 2(3)] show ?thesis by auto
  qed simp
  from hops_observed_headers [OF this assms(2)] allowlisted_names show ?thesis by metis
qed

theorem observed_headers_allowlisted_witness:
  "\<exists>res ob log. provenance_fetch plain_url id_hash two_hosts public_resolver two_hops sample_request = (Inr res, log) \<and>
    ob \<in> set (fres_observations res) \<and> lit ''set-cookie'' \<notin> fst ` set (obs_allowlisted_headers ob)"
proof -
  obtain res r where run: "provenance_fetch plain_url id_hash two_hosts public_resolver two_hops sample_request =
      (Inr res, [\<lparr>treq_url = [97], treq_conditional_etag = None, treq_conditional_modified = None\<rparr>, r])"
    by (rule two_hops_run)
  have "fres_observations res \<noteq> []"
    using run by (cases rule: provenance_fetch_loop) (auto dest: fetch_loop_result hops_observed_ne)
  then have ob: "hd (fres_observations res) \<in> set (fres_observations res)" by simp
  have "lit ''set-cookie'' \<notin> set ALLOWLISTED_HEADERS" by (simp add: ALLOWLISTED_HEADERS_def)
  with observed_headers_allowlisted [OF run ob] run ob show ?thesis by blast
qed

end
