(* ===== verification/Refresh.thy ===== *)
theory Refresh
  imports Ingest Fetch
begin

text \<open>
  \<open>pnull procurement refresh\<close> (\<open>pnull-cli/src/refresh.rs\<close>): the dry run, the gate of the live path, and the
  refresh, which composes the fetch, the snapshot pipeline, the change alerts and the matters.  The
  transport is an argument, as in the source, and the one for HTTPS is defined over \<open>provenance_fetch\<close>.
\<close>

section \<open>The transport\<close>

record TransportFetch =
  tf_bytes :: bytes
  tf_etag :: "str option"
  tf_last_modified :: "str option"
  tf_not_modified :: bool
  tf_final_url :: str
  tf_content_type :: "str option"
  tf_observations :: "FetchObservation list"

type_synonym procurement_transport = "str \<Rightarrow> str option \<Rightarrow> str + TransportFetch"

record DryRunPlan =
  plan_source_id :: str
  plan_source_url :: str
  plan_latest_snapshot_digest :: "str option"
  plan_planned_comparison :: str

definition surface_url :: "str \<Rightarrow> (str \<times> str) option" where
  "surface_url source_id =
     (if source_id = award_source then Some (AWARDS_URL, lit ''contract-awards.html'')
      else if source_id = solicitation_source then Some (SOLICITATIONS_URL, lit ''solicitations.html'')
      else None)"

definition dry_run_plan :: "str \<Rightarrow> store \<Rightarrow> str + DryRunPlan" where
  "dry_run_plan source_id s =
     (case surface_url source_id of
        None \<Rightarrow> Inl (lit ''unknown source '' @ source_id)
      | Some (url, _) \<Rightarrow>
          let latest = last_option (source_snapshots source_id s) in
          Inr \<lparr>plan_source_id = source_id, plan_source_url = url,
            plan_latest_snapshot_digest = map_option snap_persisted_digest latest,
            plan_planned_comparison =
              (case latest of
                 Some snapshot \<Rightarrow> lit ''conditional GET '' @ url @ lit '' against stored snapshot '' @ snap_id snapshot @
                   lit '' (digest '' @ snap_persisted_digest snapshot @ lit '')''
               | None \<Rightarrow> lit ''initial GET '' @ url)\<rparr>)"

section \<open>The gate\<close>

text \<open>\<open>str::split\<close> with a non-empty string pattern.\<close>

function split_str :: "str \<Rightarrow> str \<Rightarrow> str list" where
  "split_str p [] = [[]]"
| "split_str p (c # cs) =
     (if p \<noteq> [] \<and> starts_with (c # cs) p then [] # split_str p (drop (length p) (c # cs))
      else cons_head c (split_str p cs))"
  by pat_completeness auto

termination
  by (relation "measure (length \<circ> snd)") (auto simp: Suc_le_eq neq_Nil_conv)

definition url_host :: "str \<Rightarrow> str" where
  "url_host url =
     (case split_str (lit ''://'') url of
        _ # rest # _ \<Rightarrow> hd (split_by (\<lambda>c. c = 47) rest)
      | _ \<Rightarrow> [])"

definition check_live_gate :: "str \<Rightarrow> (CliError, SourceReview) op" where
  "check_live_gate source_id =
     (case surface_url source_id of
        None \<Rightarrow> fail_op (UnknownSource source_id)
      | Some (url, _) \<Rightarrow>
          bind_op (require_review_for_live source_id) (\<lambda>review.
            let host = url_host url in
            if \<not> list_ex (\<lambda>h. eq_ignore_ascii_case h host) (srv_reviewed_hosts review)
            then fail_op (OutOfScope host source_id)
            else if srv_restrictions review \<noteq> [] then fail_op (Restricted source_id)
            else return_op review))"

section \<open>The refresh\<close>

definition fetched_retrieved_at :: str where
  "fetched_retrieved_at = lit ''2026-08-31T00:00:00Z''"

definition parser_version :: "str \<Rightarrow> str" where
  "parser_version source_id =
     (if source_id = solicitation_source then lit ''solicitations-1.0'' else lit ''awards-1.0'')"

definition refresh_acquisition :: "str \<Rightarrow> str \<Rightarrow> str \<Rightarrow> TransportFetch \<Rightarrow> Acquisition" where
  "refresh_acquisition source_id url digest fetched =
     \<lparr>acq_source_id = source_id, acq_source_url = url, acq_retrieved_at = fetched_retrieved_at,
      acq_bytes_digest = digest, acq_content_type = tf_content_type fetched, acq_etag = tf_etag fetched,
      acq_last_modified = tf_last_modified fetched, acq_final_url = tf_final_url fetched,
      acq_redirect_history = [], acq_parser_version = parser_version source_id, acq_schema_version = 2,
      acq_authority = OfficialInformationalMirror, acq_coverage_state = InformationalOnly,
      acq_observations = tf_observations fetched\<rparr>"

definition persist_observations :: "FetchObservation list \<Rightarrow> (CliError, unit) op" where
  "persist_observations obs =
     for_op (\<lambda>x _. bind_op (stmt StoreFailed (insert_fetch_observation x)) (\<lambda>_. return_op ())) obs ()"

definition refresh_unchanged ::
  "cli_env \<Rightarrow> str \<Rightarrow> str \<Rightarrow> SourceSnapshot option \<Rightarrow> TransportFetch \<Rightarrow> command" where
  "refresh_unchanged env source_id url latest fetched =
     (case latest of
        None \<Rightarrow> fail_op (UnmatchedNotModified source_id)
      | Some existing \<Rightarrow>
          bind_op (map_err SnapshotFailed (record_unchanged (env_sha env)
              (refresh_acquisition source_id url (snap_persisted_digest existing) fetched) existing)) (\<lambda>_.
          printed
            [lit ''live refresh: 304 Not Modified; no snapshot change, no alerts.'',
             lit ''  unchanged snapshot '' @ snap_id existing @ lit '' (digest '' @ snap_persisted_digest existing @ lit '')'']))"

text \<open>The rows of the prior snapshot as the store holds them, if they read back.\<close>

definition prior_stored :: "hash \<Rightarrow> SourceSnapshot option \<Rightarrow> store \<Rightarrow> RecordRow list option" where
  "prior_stored sha latest s =
     (case latest of
        None \<Rightarrow> None
      | Some p \<Rightarrow> (case snapshot_rows sha (snap_id p) s of Inl _ \<Rightarrow> None | Inr rows \<Rightarrow> Some rows))"

definition refresh_context :: "str \<Rightarrow> SourceSnapshot \<Rightarrow> SourceSnapshot \<Rightarrow> AlertContext" where
  "refresh_context source_id prior new_snapshot =
     \<lparr>ac_source_id = source_id, ac_surface = lit ''contract-award-table'',
      ac_old_snapshot_id = snap_id prior, ac_old_snapshot_digest = snap_persisted_digest prior,
      ac_new_snapshot_id = snap_id new_snapshot, ac_new_snapshot_digest = snap_persisted_digest new_snapshot,
      ac_retrieved_at = fetched_retrieved_at, ac_coverage_state = snap_coverage_state new_snapshot,
      ac_matter_ids = [], ac_identifier_ids = []\<rparr>"

text \<open>The alerts, and the prior snapshot if change detection applied.\<close>

definition refresh_alerts ::
  "cli_env \<Rightarrow> str \<Rightarrow> SourceSnapshot option \<Rightarrow> RecordRow list option \<Rightarrow> SourceSnapshot \<Rightarrow> AwardRow list \<Rightarrow>
   ProcurementAlert list \<times> SourceSnapshot option" where
  "refresh_alerts env source_id latest stored new_snapshot rows =
     (case (latest, stored) of
        (Some prior, Some prior_rows) \<Rightarrow>
          let prior_award_rows = List.map_filter (award_row_from_record_row (env_award_of_json env)) prior_rows in
          if snap_persisted_digest prior \<noteq> snap_persisted_digest new_snapshot \<and> prior_award_rows \<noteq> []
          then (build_change_alerts (env_sha env) (refresh_context source_id prior new_snapshot) prior_award_rows rows,
                Some prior)
          else ([], None)
      | _ \<Rightarrow> ([], None))"

definition alert_matter :: "ProcurementAlert \<Rightarrow> str" where
  "alert_matter a =
     (case pa_changes a of [] \<Rightarrow> [] | c # _ \<Rightarrow> matter_id_for_identifier (prc_row_identity c))"

definition resolve_matters :: "ProcurementAlert list \<Rightarrow> ProcurementAlert list" where
  "resolve_matters als = map (\<lambda>a. a\<lparr>pa_matter_ids := [alert_matter a]\<rparr>) als"

definition affected_matters :: "ProcurementAlert list \<Rightarrow> str list" where
  "affected_matters als = first_seen [] (filter (\<lambda>m. m \<noteq> []) (map alert_matter als))"

definition ensure_affected :: "str list \<Rightarrow> (CliError, unit) op" where
  "ensure_affected ms =
     for_op (\<lambda>m _. bind_op (map_err StoreFailed (ensure_matter m (m @ long_dash @ lit ''affected award record'')))
       (\<lambda>_. return_op ())) ms ()"

definition refresh_lines ::
  "SourceSnapshot \<Rightarrow> SourceSnapshot option \<Rightarrow> nat \<Rightarrow> nat \<Rightarrow> nat \<Rightarrow> str list \<Rightarrow> str list" where
  "refresh_lines new_snapshot prior parsed inserted produced affected =
     [lit ''live refresh: recorded snapshot '' @ snap_id new_snapshot @ lit '' (digest '' @
        snap_persisted_digest new_snapshot @ lit '')''] @
     (case prior of None \<Rightarrow> []
      | Some p \<Rightarrow> [lit ''  supersedes previous snapshot (digest '' @ snap_persisted_digest p @ lit '')'']) @
     [lit ''  parsed '' @ show_nat parsed @ lit '' award row(s)'',
      lit ''  change alerts: '' @ show_nat inserted @ lit '' new ('' @ show_nat produced @ lit '' total produced)'',
      if affected = [] then lit ''  affected matter(s): none''
      else lit ''  affected matter(s): '' @ join (lit '', '') affected]"

definition refresh_changed ::
  "cli_env \<Rightarrow> str \<Rightarrow> str \<Rightarrow> SourceSnapshot option \<Rightarrow> TransportFetch \<Rightarrow> command" where
  "refresh_changed env source_id url latest fetched =
     (let digest = sha256_hex (env_sha env) (tf_bytes fetched) in
      case parse_awards_table (env_table env) (from_utf8_lossy (tf_bytes fetched)) digest of
        Inl e \<Rightarrow> fail_op (ParseAwards e)
      | Inr rows \<Rightarrow>
          bind_op (read_op (\<lambda>s. Inr (prior_stored (env_sha env) latest s))) (\<lambda>stored.
          bind_op (map_err SnapshotFailed (record_snapshot (env_sha env)
              (refresh_acquisition source_id url digest fetched) latest (Some (of_nat (length rows)))
              (case stored of None \<Rightarrow> [] | Some old \<Rightarrow> old)
              (award_record_rows (env_award_json env) (env_sha env) rows))) (\<lambda>(new_snapshot, _).
          let (als, prior) = refresh_alerts env source_id latest stored new_snapshot rows;
              affected = affected_matters als in
          bind_op (map_err AlertsFailed (persist_change_alerts (resolve_matters als))) (\<lambda>inserted.
          bind_op (ensure_affected affected) (\<lambda>_.
          printed (refresh_lines new_snapshot prior (length rows) inserted (length als) affected))))))"

definition refresh_live_with :: "cli_env \<Rightarrow> procurement_transport \<Rightarrow> str \<Rightarrow> command" where
  "refresh_live_with env fetch source_id =
     bind_op (check_live_gate source_id) (\<lambda>_.
       case surface_url source_id of
         None \<Rightarrow> fail_op (UnknownSource source_id)
       | Some (url, _) \<Rightarrow>
           bind_op (read_op (\<lambda>s. Inr (latest_snapshot source_id s))) (\<lambda>latest.
             case fetch url (Option.bind latest snap_etag) of
               Inl e \<Rightarrow> fail_op (FetchFailed source_id e)
             | Inr fetched \<Rightarrow>
                 bind_op (persist_observations (tf_observations fetched)) (\<lambda>_.
                   if tf_not_modified fetched then refresh_unchanged env source_id url latest fetched
                   else refresh_changed env source_id url latest fetched)))"

definition plan_lines :: "DryRunPlan \<Rightarrow> str list" where
  "plan_lines plan =
     [lit ''dry run: source '' @ plan_source_id plan @ lit '' would fetch '' @ plan_source_url plan,
      lit ''planned comparison: '' @ plan_planned_comparison plan,
      lit ''latest snapshot digest: '' @ (case plan_latest_snapshot_digest plan of None \<Rightarrow> lit ''none'' | Some d \<Rightarrow> d),
      lit ''dry run: zero network activity.'']"

text \<open>\<open>HttpTransport::new\<close> can fail; \<open>client\<close> is what it answers.\<close>

definition refresh_procurement :: "cli_env \<Rightarrow> str + procurement_transport \<Rightarrow> str \<Rightarrow> bool \<Rightarrow> command" where
  "refresh_procurement env client source_id live =
     (if \<not> live then
        bind_op (read_op (\<lambda>s. case dry_run_plan source_id s of Inl e \<Rightarrow> Inl (CommandFailed e) | Inr p \<Rightarrow> Inr p))
          (\<lambda>plan. printed (plan_lines plan))
      else
        case client of
          Inl e \<Rightarrow> fail_op (CommandFailed e)
        | Inr fetch \<Rightarrow> refresh_live_with env fetch source_id)"

section \<open>The HTTPS transport\<close>

definition MAX_FETCH_BYTES :: nat where
  "MAX_FETCH_BYTES = 8 * 1024 * 1024"

definition etag_evidence :: "str \<Rightarrow> PriorEvidence" where
  "etag_evidence etag = \<lparr>pri_evidence_id = etag, pri_etag = Some etag, pri_last_modified = None\<rparr>"

text \<open>\<open>show_error\<close> is the display of an \<open>HttpError\<close>.\<close>

definition http_fetch ::
  "'u url_lib \<Rightarrow> hash \<Rightarrow> (HttpError \<Rightarrow> str) \<Rightarrow> 'u resolver \<Rightarrow> 'u transport \<Rightarrow> procurement_transport" where
  "http_fetch L sha show_error resolve transport url prior_etag =
     (case url_parse L url of
        Inl e \<Rightarrow> Inl e
      | Inr parsed \<Rightarrow>
          (case url_host_str L parsed of
             None \<Rightarrow> Inl (lit ''invalid url: no host'')
           | Some host \<Rightarrow>
               (case fst (provenance_fetch L sha \<lparr>fc_reviewed_hosts = [host], fc_max_bytes = MAX_FETCH_BYTES\<rparr>
                   resolve transport
                   \<lparr>freq_source_id = None, freq_requested_url = url, freq_retrieved_at = fetched_retrieved_at,
                    freq_prior = map_option etag_evidence prior_etag\<rparr>) of
                  Inl e \<Rightarrow> Inl (show_error e)
                | Inr result \<Rightarrow>
                    let lst = last_option (fres_observations result) in
                    Inr \<lparr>tf_bytes = (case fres_body result of None \<Rightarrow> [] | Some b \<Rightarrow> b),
                      tf_etag = Option.bind lst obs_etag, tf_last_modified = Option.bind lst obs_last_modified,
                      tf_not_modified = fres_unchanged result, tf_final_url = fres_final_url result,
                      tf_content_type = Option.bind lst obs_content_type,
                      tf_observations = fres_observations result\<rparr>)))"

section \<open>Lemmas\<close>

definition gate_open :: "str \<Rightarrow> store \<Rightarrow> bool" where
  "gate_open source_id s \<longleftrightarrow>
     (\<exists>url f review. surface_url source_id = Some (url, f) \<and> current_source_review source_id s = Some review \<and>
        OFFLINE_RETRIEVED_AT \<le> srv_expires_at review \<and>
        list_ex (\<lambda>h. eq_ignore_ascii_case h (url_host url)) (srv_reviewed_hosts review) \<and>
        srv_restrictions review = [])"

lemma check_live_gate_closed:
  "\<not> gate_open source_id s \<Longrightarrow> \<exists>e. check_live_gate source_id s = (Inl e, s)"
  by (auto simp: check_live_gate_def gate_open_def require_review_for_live_def op_defs Let_def
      split: option.splits prod.splits)

lemma check_live_gate_open:
  "gate_open source_id s \<Longrightarrow> \<exists>review. check_live_gate source_id s = (Inr review, s)"
  by (auto simp: check_live_gate_def gate_open_def require_review_for_live_def op_defs Let_def)

text \<open>The parts of the state that recording a snapshot does not touch.\<close>

abbreviation matter_tables ::
  "store \<Rightarrow> ProcurementAlert list \<times> ProcurementMatter list \<times> ProcurementEvent list" where
  "matter_tables s \<equiv> (st_proc_alerts s, st_proc_matters s, st_proc_events s)"

lemma row_set_insert_keeps:
  "insert_snapshot_row_set_with_rows sha meta rows s = Inr s' \<Longrightarrow> matter_tables s' = matter_tables s"
  by (erule row_set_cases) (auto dest!: insert_row_loop_spec)

lemma snapshot_inserts_keep:
  "insert_source_snapshot n s = Inr (b, s') \<Longrightarrow> matter_tables s' = matter_tables s"
  "insert_snapshot_revision r s = Inr (b, s') \<Longrightarrow> matter_tables s' = matter_tables s"
  "insert_coverage_entry c s = Inr (b, s') \<Longrightarrow> matter_tables s' = matter_tables s"
  "insert_snapshot_diff d s = Inr (b, s') \<Longrightarrow> matter_tables s' = matter_tables s"
  by (auto simp: insert_source_snapshot_def insert_snapshot_revision_def insert_coverage_entry_def
      insert_snapshot_diff_def insert_or_ignore_def split: if_splits)

lemma record_snapshot_keeps: "op_keeps matter_tables (record_snapshot sha a prior n old_rows new_rows)"
  unfolding record_snapshot_def Let_def
  by (intro op_keeps_bind op_keeps_if op_keeps_option op_keeps_base op_keeps_stmt op_keeps_unit_stmt;
      erule snapshot_inserts_keep row_set_insert_keeps)

lemma persist_observations_keeps:
  "op_keeps (\<lambda>s. (matter_tables s, st_snapshots s, st_snapshot_rows s, st_row_sets s, st_coverage s))
     (persist_observations obs)"
  unfolding persist_observations_def
  by (intro op_keeps_for_op op_keeps_bind op_keeps_base op_keeps_stmt)
     (auto simp: insert_fetch_observation_def insert_or_ignore_def split: if_splits)

text \<open>Every alert is that of one change, and every change has its alert.\<close>

lemma build_change_alerts_set:
  "set (build_change_alerts sha c old_rows new_rows) =
     (\<lambda>(kind, k, diffs). alert_for sha c kind k diffs) ` change_set sha old_rows new_rows"
proof -
  let ?as = "build_change_alerts sha c old_rows new_rows"
  have form: "\<exists>kind k diffs. a = alert_for sha c kind k diffs" if "a \<in> set ?as" for a
    using that by (auto simp: build_change_alerts_def Let_def split: option.splits if_splits)
  have changes: "change_set sha old_rows new_rows = (\<Union>a \<in> set ?as. set (reported a))"
    using set_all_reported [of sha c old_rows new_rows] by (simp add: all_reported_def)
  show ?thesis
  proof (intro equalityI subsetI)
    fix a assume a: "a \<in> set ?as"
    then obtain kind k diffs where eq: "a = alert_for sha c kind k diffs" using form by blast
    then have "(kind, k, diffs) \<in> change_set sha old_rows new_rows" unfolding changes using a by force
    then show "a \<in> (\<lambda>(kind, k, diffs). alert_for sha c kind k diffs) ` change_set sha old_rows new_rows"
      using eq by force
  next
    fix a assume "a \<in> (\<lambda>(kind, k, diffs). alert_for sha c kind k diffs) ` change_set sha old_rows new_rows"
    then obtain kind k diffs where eq: "a = alert_for sha c kind k diffs"
      and "(kind, k, diffs) \<in> change_set sha old_rows new_rows" by auto
    then obtain b where b: "b \<in> set ?as" "(kind, k, diffs) \<in> set (reported b)" unfolding changes by blast
    then have "b = alert_for sha c kind k diffs" using form [OF b(1)] by auto
    then show "a \<in> set ?as" using b(1) eq by simp
  qed
qed

lemma alert_matter_alert_for [simp]: "alert_matter (alert_for sha c kind k diffs) = matter_id_for_identifier k"
  by (simp add: alert_matter_def alert_for_def)

lemma matter_id_ne [simp]: "matter_id_for_identifier n \<noteq> []" "[] \<noteq> matter_id_for_identifier n"
  by (simp_all add: matter_id_for_identifier_def)

lemma persist_change_alerts_new:
  "for_op (\<lambda>a inserted. bind_op (stmt ChangeAlertError.Store (insert_procurement_alert a))
       (\<lambda>added. return_op (if added then inserted + 1 else inserted))) als n s = (Inr m, s') \<Longrightarrow>
     set (st_proc_alerts s) \<subseteq> set (st_proc_alerts s') \<and> set (st_proc_alerts s') \<subseteq> set (st_proc_alerts s) \<union> set als"
proof (induction als arbitrary: n s)
  case (Cons a als)
  obtain b t where ins: "insert_procurement_alert a s = Inr (b, t)"
    and rest: "for_op (\<lambda>a inserted. bind_op (stmt ChangeAlertError.Store (insert_procurement_alert a))
       (\<lambda>added. return_op (if added then inserted + 1 else inserted))) als (if b then n + 1 else n) t = (Inr m, s')"
    using Cons.prems by (auto simp: op_Inr)
  have "set (st_proc_alerts s) \<subseteq> set (st_proc_alerts t) \<and> set (st_proc_alerts t) \<subseteq> insert a (set (st_proc_alerts s))"
    using ins by (auto simp: insert_procurement_alert_def insert_or_ignore_def split: if_splits)
  then show ?case using Cons.IH [OF rest] by auto
qed (simp add: op_Inr)

lemma first_seen_set: "set (first_seen seen xs) = set xs - set seen"
  by (induction seen xs rule: first_seen.induct) auto

lemma affected_matters_set: "set (affected_matters als) = alert_matter ` set als - {[]}"
  by (auto simp: affected_matters_def first_seen_set)

lemma ensure_affected_loop:
  "for_op (\<lambda>m _. bind_op (map_err StoreFailed (ensure_matter m (m @ long_dash @ lit ''affected award record'')))
       (\<lambda>_. return_op ())) ms u s = (Inr u', s') \<Longrightarrow>
     pm_id ` set (st_proc_matters s') = pm_id ` set (st_proc_matters s) \<union> set ms \<and>
     st_proc_alerts s' = st_proc_alerts s"
proof (induction ms arbitrary: u s)
  case (Cons m ms)
  obtain b t where ins: "ensure_matter m (m @ long_dash @ lit ''affected award record'') s = (Inr b, t)"
    and rest: "for_op (\<lambda>m _. bind_op (map_err StoreFailed (ensure_matter m (m @ long_dash @ lit ''affected award record'')))
       (\<lambda>_. return_op ())) ms () t = (Inr u', s')"
    using Cons.prems by (auto simp: op_Inr)
  have "pm_id ` set (st_proc_matters t) = insert m (pm_id ` set (st_proc_matters s))"
    "st_proc_alerts t = st_proc_alerts s"
    using ins by (auto simp: ensure_matter_def stmt_Inr insert_procurement_matter_def insert_or_ignore_def split: if_splits)
  then show ?case using Cons.IH [OF rest] by auto
qed (simp add: op_Inr)

text \<open>The parts of a successful refresh with changed bytes.\<close>

lemma refresh_changed_Inr:
  assumes "refresh_changed env source_id url latest fetched s = (Inr out, s')"
  obtains rows new_snapshot diff t als prior inserted u v where
    "parse_awards_table (env_table env) (from_utf8_lossy (tf_bytes fetched)) (sha256_hex (env_sha env) (tf_bytes fetched)) = Inr rows"
    "record_snapshot (env_sha env) (refresh_acquisition source_id url (sha256_hex (env_sha env) (tf_bytes fetched)) fetched)
       latest (Some (of_nat (length rows)))
       (case prior_stored (env_sha env) latest s of None \<Rightarrow> [] | Some old \<Rightarrow> old)
       (award_record_rows (env_award_json env) (env_sha env) rows) s = (Inr (new_snapshot, diff), t)"
    "refresh_alerts env source_id latest (prior_stored (env_sha env) latest s) new_snapshot rows = (als, prior)"
    "persist_change_alerts (resolve_matters als) t = (Inr inserted, u)"
    "ensure_affected (affected_matters als) u = (Inr v, s')"
proof -
  obtain rows where rows:
    "parse_awards_table (env_table env) (from_utf8_lossy (tf_bytes fetched)) (sha256_hex (env_sha env) (tf_bytes fetched)) = Inr rows"
    using assms by (auto simp: refresh_changed_def Let_def op_Inr split: sum.splits)
  have "\<exists>new_snapshot diff t inserted u v. record_snapshot (env_sha env)
         (refresh_acquisition source_id url (sha256_hex (env_sha env) (tf_bytes fetched)) fetched)
         latest (Some (of_nat (length rows)))
         (case prior_stored (env_sha env) latest s of None \<Rightarrow> [] | Some old \<Rightarrow> old)
         (award_record_rows (env_award_json env) (env_sha env) rows) s = (Inr (new_snapshot, diff), t) \<and>
       persist_change_alerts (resolve_matters (fst (refresh_alerts env source_id latest
         (prior_stored (env_sha env) latest s) new_snapshot rows))) t = (Inr inserted, u) \<and>
       ensure_affected (affected_matters (fst (refresh_alerts env source_id latest
         (prior_stored (env_sha env) latest s) new_snapshot rows))) u = (Inr v, s')"
    using assms rows
    by (simp add: refresh_changed_def Let_def op_Inr printed_def case_prod_beta) (metis prod.collapse)
  with rows that show thesis by (metis prod.collapse)
qed

lemma prior_stored_rows:
  "snapshot_rows sha (snap_id p) s = Inr rows \<Longrightarrow> prior_stored sha (Some p) s = Some rows"
  by (simp add: prior_stored_def)

lemma resolve_matters_ids [simp]: "pa_id ` set (resolve_matters als) = pa_id ` set als"
  unfolding resolve_matters_def set_map image_image by simp

text \<open>A refresh past the gate, from the state the fetch left.\<close>

lemma refresh_live_with_Inr:
  assumes "refresh_live_with env fetch source_id s = (Inr out, s')"
  obtains url f fetched t where "surface_url source_id = Some (url, f)" "gate_open source_id s"
    "fetch url (Option.bind (latest_snapshot source_id s) snap_etag) = Inr fetched"
    "persist_observations (tf_observations fetched) s = (Inr (), t)"
    "(if tf_not_modified fetched then refresh_unchanged env source_id url (latest_snapshot source_id s) fetched
      else refresh_changed env source_id url (latest_snapshot source_id s) fetched) t = (Inr out, s')"
proof -
  have gate: "gate_open source_id s"
  proof (rule ccontr)
    assume "\<not> gate_open source_id s"
    then obtain e where "check_live_gate source_id s = (Inl e, s)" using check_live_gate_closed by blast
    then show False using assms by (simp add: refresh_live_with_def bind_op_def)
  qed
  obtain review where open_gate: "check_live_gate source_id s = (Inr review, s)"
    using check_live_gate_open [OF gate] by blast
  obtain url f where url: "surface_url source_id = Some (url, f)" using gate by (auto simp: gate_open_def)
  obtain fetched where fetched: "fetch url (Option.bind (latest_snapshot source_id s) snap_etag) = Inr fetched"
    using assms open_gate url by (auto simp: refresh_live_with_def op_Inr split: sum.splits)
  then show thesis
    using assms open_gate url gate that by (auto simp: refresh_live_with_def op_Inr)
qed

lemma persist_observations_total: "\<exists>t. persist_observations obs s = (Inr (), t)"
  unfolding persist_observations_def
proof (induction obs arbitrary: s)
  case (Cons x obs)
  obtain b t where "insert_fetch_observation x s = Inr (b, t)"
    by (cases "insert_or_ignore obs_id x (st_observations s)") (simp add: insert_fetch_observation_def)
  then show ?case using Cons.IH by (simp add: op_defs)
qed (simp add: op_defs)

lemma ensure_affected_total: "\<exists>t. ensure_affected ms s = (Inr (), t)"
  unfolding ensure_affected_def
proof (induction ms arbitrary: s)
  case (Cons m ms)
  have "\<exists>b t. ensure_matter m (m @ long_dash @ lit ''affected award record'') s = (Inr b, t)"
    by (auto simp: ensure_matter_def stmt_def insert_procurement_matter_def insert_or_ignore_def)
  then obtain b t where "ensure_matter m (m @ long_dash @ lit ''affected award record'') s = (Inr b, t)" by blast
  then show ?case using Cons.IH by (simp add: op_defs)
qed (simp add: op_defs)

text \<open>With a page that parses, bytes not yet recorded and a readable prior snapshot, the refresh goes through.\<close>

lemma refresh_changed_total:
  assumes rows: "parse_awards_table (env_table env) (from_utf8_lossy (tf_bytes fetched))
      (sha256_hex (env_sha env) (tf_bytes fetched)) = Inr rows"
    and fresh: "\<not> has_row_set (snapshot_id_for (env_sha env) source_id (sha256_hex (env_sha env) (tf_bytes fetched))) s"
    and prior: "\<And>p. latest = Some p \<Longrightarrow> \<exists>rows. snapshot_rows (env_sha env) (snap_id p) s = Inr rows"
  shows "\<exists>out s'. refresh_changed env source_id url latest fetched s = (Inr out, s')"
proof -
  let ?a = "refresh_acquisition source_id url (sha256_hex (env_sha env) (tf_bytes fetched)) fetched"
  let ?stored = "prior_stored (env_sha env) latest s"
  define n where "n = acquisition_snapshot (env_sha env) ?a (Some (of_nat (length rows))) (map_option snap_id latest)"
  have "\<not> has_row_set (snap_id n) s"
    using fresh by (simp add: n_def acquisition_snapshot_def refresh_acquisition_def)
  from record_snapshot_total [OF this n_def prior] obtain d t where
    t: "record_snapshot (env_sha env) ?a latest (Some (of_nat (length rows)))
      (case ?stored of None \<Rightarrow> [] | Some old \<Rightarrow> old) (award_record_rows (env_award_json env) (env_sha env) rows) s =
      (Inr (n, d), t)" by blast
  obtain als p where als: "refresh_alerts env source_id latest ?stored n rows = (als, p)" by fastforce
  obtain i u where u: "persist_change_alerts (resolve_matters als) t = (Inr i, u)"
    unfolding persist_change_alerts_def using persist_change_alerts_total by blast
  obtain v where v: "ensure_affected (affected_matters als) u = (Inr (), v)" using ensure_affected_total by blast
  show ?thesis
    using rows t als u v by (simp add: refresh_changed_def Let_def op_defs printed_def)
qed

lemma refresh_live_total:
  assumes "gate_open source_id s" "surface_url source_id = Some (url, f)"
    and "fetch url (Option.bind (latest_snapshot source_id s) snap_etag) = Inr fetched" "\<not> tf_not_modified fetched"
    and "parse_awards_table (env_table env) (from_utf8_lossy (tf_bytes fetched))
      (sha256_hex (env_sha env) (tf_bytes fetched)) = Inr rows"
    and "\<not> has_row_set (snapshot_id_for (env_sha env) source_id (sha256_hex (env_sha env) (tf_bytes fetched))) s"
    and "\<And>p. latest_snapshot source_id s = Some p \<Longrightarrow> \<exists>rows. snapshot_rows (env_sha env) (snap_id p) s = Inr rows"
  shows "\<exists>out s'. refresh_live_with env fetch source_id s = (Inr out, s')"
proof -
  obtain review where gate: "check_live_gate source_id s = (Inr review, s)" using check_live_gate_open [OF assms(1)] by blast
  obtain t where t: "persist_observations (tf_observations fetched) s = (Inr (), t)"
    using persist_observations_total by blast
  have kept: "same_rows s t" using op_keepsD [OF persist_observations_keeps t] by (simp add: same_rows_def)
  obtain out s' where "refresh_changed env source_id url (latest_snapshot source_id s) fetched t = (Inr out, s')"
    using refresh_changed_total [OF assms(5)] assms(6,7) same_rows_reads(3,4) [OF kept] by metis
  then show ?thesis using gate t assms(2-4) by (simp add: refresh_live_with_def op_defs)
qed

text \<open>The alerts a refresh stands for: one per change between the stored rows and the fetched ones.\<close>

definition expected_alerts ::
  "hash \<Rightarrow> AlertContext \<Rightarrow> AwardRow list \<Rightarrow> AwardRow list \<Rightarrow> ProcurementAlert set" where
  "expected_alerts sha c old_rows new_rows =
     (\<lambda>(kind, k, diffs). (alert_for sha c kind k diffs)\<lparr>pa_matter_ids := [matter_id_for_identifier k]\<rparr>) `
       change_set sha old_rows new_rows"

lemma resolve_matters_alerts:
  "set (resolve_matters (build_change_alerts sha c old_rows new_rows)) = expected_alerts sha c old_rows new_rows"
proof -
  have "alert_matter (alert_for sha c kind k diffs) = matter_id_for_identifier k" for kind k diffs by simp
  then show ?thesis
    unfolding resolve_matters_def set_map build_change_alerts_set expected_alerts_def image_image
    by (intro image_cong) (auto split: prod.split)
qed

definition refresh_snapshot :: "hash \<Rightarrow> str \<Rightarrow> str \<Rightarrow> TransportFetch \<Rightarrow> nat \<Rightarrow> SourceSnapshot \<Rightarrow> SourceSnapshot" where
  "refresh_snapshot sha source_id url fetched n prior =
     acquisition_snapshot sha (refresh_acquisition source_id url (sha256_hex sha (tf_bytes fetched)) fetched)
       (Some (of_nat n)) (Some (snap_id prior))"

lemma refresh_changed_alerts:
  assumes run: "refresh_changed env source_id url (Some prior) fetched s = (Inr out, s')"
    and stored: "snapshot_rows (env_sha env) (snap_id prior) s = Inr stored"
    and old: "old_rows = List.map_filter (award_row_from_record_row (env_award_of_json env)) stored" "old_rows \<noteq> []"
    and new: "snap_persisted_digest prior \<noteq> sha256_hex (env_sha env) (tf_bytes fetched)"
    and rows: "parse_awards_table (env_table env) (from_utf8_lossy (tf_bytes fetched))
      (sha256_hex (env_sha env) (tf_bytes fetched)) = Inr rows"
    and c: "c = refresh_context source_id prior (refresh_snapshot (env_sha env) source_id url fetched (length rows) prior)"
  shows "set (st_proc_alerts s) \<subseteq> set (st_proc_alerts s') \<and>
    set (st_proc_alerts s') \<subseteq> set (st_proc_alerts s) \<union> expected_alerts (env_sha env) c old_rows rows \<and>
    pa_id ` expected_alerts (env_sha env) c old_rows rows \<subseteq> pa_id ` set (st_proc_alerts s') \<and>
    (\<lambda>(kind, k, diffs). matter_id_for_identifier k) ` change_set (env_sha env) old_rows rows
      \<subseteq> pm_id ` set (st_proc_matters s')"
proof -
  let ?sha = "env_sha env" and ?d = "sha256_hex (env_sha env) (tf_bytes fetched)"
  obtain new_snapshot diff t als p inserted u v where
    rec: "record_snapshot ?sha (refresh_acquisition source_id url ?d fetched) (Some prior) (Some (of_nat (length rows)))
       stored (award_record_rows (env_award_json env) ?sha rows) s = (Inr (new_snapshot, diff), t)"
    and als: "refresh_alerts env source_id (Some prior) (Some stored) new_snapshot rows = (als, p)"
    and persist: "persist_change_alerts (resolve_matters als) t = (Inr inserted, u)"
    and ensure: "ensure_affected (affected_matters als) u = (Inr v, s')"
    by (rule refresh_changed_Inr [OF run]) (auto simp: rows prior_stored_rows [OF stored])
  have snapshot: "new_snapshot = refresh_snapshot ?sha source_id url fetched (length rows) prior"
    using rec by (rule record_snapshot_Inr) (simp add: refresh_snapshot_def)
  have "snap_persisted_digest new_snapshot = ?d"
    by (simp add: snapshot refresh_snapshot_def acquisition_snapshot_def refresh_acquisition_def)
  then have built: "als = build_change_alerts ?sha c old_rows rows"
    using als old new by (simp add: refresh_alerts_def Let_def c snapshot)
  have kept: "st_proc_alerts t = st_proc_alerts s" using op_keepsD [OF record_snapshot_keeps rec] by simp
  note alerts = persist_change_alerts_run [OF persist [unfolded persist_change_alerts_def]]
    persist_change_alerts_new [OF persist [unfolded persist_change_alerts_def]]
  note matters = ensure_affected_loop [OF ensure [unfolded ensure_affected_def]]
  have set_als: "set (resolve_matters als) = expected_alerts ?sha c old_rows rows"
    by (simp add: built resolve_matters_alerts)
  have "alert_matter ` set als = (\<lambda>(kind, k, diffs). matter_id_for_identifier k) ` change_set ?sha old_rows rows"
    unfolding built build_change_alerts_set image_image by (intro image_cong) auto
  moreover have "[] \<notin> \<dots>" by auto
  ultimately have "set (affected_matters als) = (\<lambda>(kind, k, diffs). matter_id_for_identifier k) ` change_set ?sha old_rows rows"
    by (simp add: affected_matters_set)
  then show ?thesis using alerts matters set_als kept by auto
qed

lemma refresh_changed_silent:
  assumes run: "refresh_changed env source_id url (Some prior) fetched s = (Inr out, s')"
    and stored: "snapshot_rows (env_sha env) (snap_id prior) s = Inr stored"
    and old: "old_rows = List.map_filter (award_row_from_record_row (env_award_of_json env)) stored"
    and same: "old_rows = [] \<or> snap_persisted_digest prior = sha256_hex (env_sha env) (tf_bytes fetched)"
  shows "st_proc_alerts s' = st_proc_alerts s"
proof -
  let ?sha = "env_sha env" and ?d = "sha256_hex (env_sha env) (tf_bytes fetched)"
  obtain rows new_snapshot diff t als p inserted u v where
    rec: "record_snapshot ?sha (refresh_acquisition source_id url ?d fetched) (Some prior) (Some (of_nat (length rows)))
       stored (award_record_rows (env_award_json env) ?sha rows) s = (Inr (new_snapshot, diff), t)"
    and als: "refresh_alerts env source_id (Some prior) (Some stored) new_snapshot rows = (als, p)"
    and persist: "persist_change_alerts (resolve_matters als) t = (Inr inserted, u)"
    and ensure: "ensure_affected (affected_matters als) u = (Inr v, s')"
    by (rule refresh_changed_Inr [OF run]) (auto simp: prior_stored_rows [OF stored])
  have "new_snapshot = refresh_snapshot ?sha source_id url fetched (length rows) prior"
    using rec by (rule record_snapshot_Inr) (simp add: refresh_snapshot_def)
  then have "als = []"
    using als old same
    by (auto simp: refresh_alerts_def Let_def refresh_snapshot_def acquisition_snapshot_def refresh_acquisition_def)
  then have "st_proc_alerts s' = st_proc_alerts t"
    using persist ensure by (simp add: resolve_matters_def persist_change_alerts_def affected_matters_def ensure_affected_def op_defs)
  then show ?thesis using op_keepsD [OF record_snapshot_keeps rec] by simp
qed

section \<open>Properties\<close>

text \<open>
  The live path is closed unless the source is a known surface whose current review covers its host, has
  not expired by the date of the program, and carries no restriction: otherwise every transport leads to
  the same refusal and the store is untouched.
\<close>

theorem refresh_needs_review:
  "gate_open source_id s \<or> (\<exists>e. \<forall>fetch. refresh_live_with env fetch source_id s = (Inl e, s))"
proof (cases "gate_open source_id s")
  case False
  then obtain e where "check_live_gate source_id s = (Inl e, s)" using check_live_gate_closed by blast
  then show ?thesis by (auto simp: refresh_live_with_def bind_op_def)
qed simp

text \<open>
  C35: A refresh with new content reports the changes against the award rows that the store gives back for the
  prior snapshot.  If there are such rows and the bytes differ, the alerts afterwards are those before and those
  of the changes, none lost, and every affected matter exists; if there are none (a prior capture of an empty
  table, or rows whose source does not read back) or the bytes are the same, the alerts are untouched, so then
  additions to an empty table go unreported.
\<close>

theorem refresh_reports_changes:
  assumes "refresh_live_with env fetch source_id s = (Inr out, s')"
    and "surface_url source_id = Some (url, f)" "latest_snapshot source_id s = Some prior"
    and "fetch url (snap_etag prior) = Inr fetched" "\<not> tf_not_modified fetched"
    and "snapshot_rows (env_sha env) (snap_id prior) s = Inr stored"
    and "old_rows = List.map_filter (award_row_from_record_row (env_award_of_json env)) stored"
  shows "\<exists>rows c. parse_awards_table (env_table env) (from_utf8_lossy (tf_bytes fetched))
        (sha256_hex (env_sha env) (tf_bytes fetched)) = Inr rows \<and>
      c = refresh_context source_id prior (refresh_snapshot (env_sha env) source_id url fetched (length rows) prior) \<and>
      (if old_rows = [] \<or> snap_persisted_digest prior = sha256_hex (env_sha env) (tf_bytes fetched)
       then st_proc_alerts s' = st_proc_alerts s
       else set (st_proc_alerts s) \<subseteq> set (st_proc_alerts s') \<and>
         set (st_proc_alerts s') \<subseteq> set (st_proc_alerts s) \<union> expected_alerts (env_sha env) c old_rows rows \<and>
         pa_id ` expected_alerts (env_sha env) c old_rows rows \<subseteq> pa_id ` set (st_proc_alerts s') \<and>
         (\<lambda>(kind, k, diffs). matter_id_for_identifier k) ` change_set (env_sha env) old_rows rows
           \<subseteq> pm_id ` set (st_proc_matters s'))"
proof -
  obtain t where t: "persist_observations (tf_observations fetched) s = (Inr (), t)"
    and run: "refresh_changed env source_id url (Some prior) fetched t = (Inr out, s')"
    by (rule refresh_live_with_Inr [OF assms(1)]) (use assms(2-5) in auto)
  have kept: "st_proc_alerts t = st_proc_alerts s" "same_rows s t"
    using op_keepsD [OF persist_observations_keeps t] by (simp_all add: same_rows_def)
  have stored: "snapshot_rows (env_sha env) (snap_id prior) t = Inr stored"
    using same_rows_reads(4) [OF kept(2)] assms(6) by simp
  obtain rows where rows: "parse_awards_table (env_table env) (from_utf8_lossy (tf_bytes fetched))
      (sha256_hex (env_sha env) (tf_bytes fetched)) = Inr rows"
    by (rule refresh_changed_Inr [OF run])
  show ?thesis
  proof (cases "old_rows = [] \<or> snap_persisted_digest prior = sha256_hex (env_sha env) (tf_bytes fetched)")
    case True
    then show ?thesis using refresh_changed_silent [OF run stored assms(7)] rows kept(1) by simp
  next
    case False
    then show ?thesis using refresh_changed_alerts [OF run stored assms(7) _ _ rows refl] rows kept(1) by simp
  qed
qed

text \<open>A store with a review and a prior snapshot of one row, and a page with another row.\<close>

definition refresh_env :: cli_env where
  "refresh_env = sample_env\<lparr>env_award_of_json := \<lambda>_. Some (plain_row [65] [66])\<rparr>"

definition refresh_review :: SourceReview where
  "refresh_review =
     \<lparr>srv_id = [114], srv_source_id = award_source, srv_source_config_digest = [],
      srv_reviewed_hosts = [url_host AWARDS_URL], srv_endpoint_patterns = [], srv_robots_url = [],
      srv_robots_snapshot_digest = [], srv_robots_provenance = None, srv_terms_urls = [],
      srv_terms_snapshot_digests = [], srv_reviewer = [], srv_note = [], srv_reviewed_at = [],
      srv_expires_at = OFFLINE_RETRIEVED_AT, srv_minimum_interval_seconds = 0, srv_restrictions = [],
      srv_supersedes = None\<rparr>"

definition prior_row :: RecordRow where
  "prior_row = \<lparr>rr_key = [65], rr_canonical = [], rr_raw_json = [123]\<rparr>"

definition refresh_prior :: SourceSnapshot where
  "refresh_prior = acquisition_snapshot id_hash (awards_acquisition [1]) (Some 1) None"

definition refresh_store :: store where
  "refresh_store = empty_store
     \<lparr>st_source_reviews := [refresh_review], st_snapshots := [refresh_prior],
      st_snapshot_rows := loop_rows (snap_id refresh_prior) 0 (map (to_snapshot_row id_hash) [prior_row]),
      st_row_sets := [stored_row_set (row_set_meta id_hash (awards_acquisition [1]) (snap_id refresh_prior) [prior_row])]\<rparr>"

definition refresh_fetch :: "bool \<Rightarrow> TransportFetch" where
  "refresh_fetch unchanged =
     \<lparr>tf_bytes = [2], tf_etag = None, tf_last_modified = None, tf_not_modified = unchanged, tf_final_url = AWARDS_URL,
      tf_content_type = None, tf_observations = []\<rparr>"

lemma refresh_store_reads:
  "gate_open award_source refresh_store" "latest_snapshot award_source refresh_store = Some refresh_prior"
  "snapshot_rows id_hash (snap_id refresh_prior) refresh_store = Inr [prior_row]"
  "\<not> has_row_set (snapshot_id_for id_hash award_source [2]) refresh_store"
  "surface_url award_source = Some (AWARDS_URL, lit ''contract-awards.html'')"
proof -
  show surface: "surface_url award_source = Some (AWARDS_URL, lit ''contract-awards.html'')" by (simp add: surface_url_def)
  show "gate_open award_source refresh_store"
    by (simp add: gate_open_def surface current_source_review_def source_reviews_def select_where_def refresh_store_def
        refresh_review_def last_option_def eq_ignore_ascii_case_def)
  show "latest_snapshot award_source refresh_store = Some refresh_prior"
    by (simp add: latest_snapshot_def source_snapshots_def select_where_def refresh_store_def refresh_prior_def
        acquisition_snapshot_def awards_acquisition_def fixture_acquisition_def last_option_def)
  have id: "rset_snapshot_id (stored_row_set (row_set_meta sha a k rows)) = k" for sha a k rows
    by (simp add: stored_row_set_def row_set_meta_def)
  show "snapshot_rows id_hash (snap_id refresh_prior) refresh_store = Inr [prior_row]"
  proof (rule read_back_rows)
    show "snapshot_row_set (snap_id refresh_prior) refresh_store =
        Some (stored_row_set (row_set_meta id_hash (awards_acquisition [1]) (snap_id refresh_prior) [prior_row]))"
      by (simp add: snapshot_row_set_def refresh_store_def select_by_def id)
    show "snapshot_rows_raw (snap_id refresh_prior) refresh_store = map (to_snapshot_row id_hash) [prior_row]"
      by (simp add: snapshot_rows_raw_def refresh_store_def select_where_def)
  qed (simp add: i64_max_def)
  have "snap_id refresh_prior \<noteq> snapshot_id_for id_hash award_source [2]"
    by (simp add: refresh_prior_def acquisition_snapshot_def awards_acquisition_def fixture_acquisition_def
        snapshot_id_for_def stable_id_def stable_preimage_def id_hash_def lit_def utf8_def award_source_def)
  then show "\<not> has_row_set (snapshot_id_for id_hash award_source [2]) refresh_store"
    by (simp add: has_row_set_def snapshot_row_set_def snapshot_rows_raw_def refresh_store_def select_by_def
        select_where_def id)
qed

lemma refresh_env_simps [simp]:
  "env_sha refresh_env = id_hash" "env_table refresh_env = one_row_table"
  "env_award_of_json refresh_env = (\<lambda>_. Some (plain_row [65] [66]))"
  by (simp_all add: refresh_env_def sample_env_def)

theorem refresh_reports_changes_witness:
  "\<exists>out s' rows c. refresh_live_with refresh_env (\<lambda>url etag. Inr (refresh_fetch False)) award_source refresh_store = (Inr out, s') \<and>
     parse_awards_table one_row_table (from_utf8_lossy [2]) [2] = Inr rows \<and>
     pa_id ` expected_alerts id_hash c [plain_row [65] [66]] rows \<subseteq> pa_id ` set (st_proc_alerts s')"
proof -
  have sha: "sha256_hex id_hash b = b" for b by (simp add: sha256_hex_def id_hash_def)
  have f: "tf_bytes (refresh_fetch b) = [2]" "tf_not_modified (refresh_fetch b) = b" for b
    by (simp_all add: refresh_fetch_def)
  obtain r where r: "parse_awards_table one_row_table (from_utf8_lossy [2]) [2] = Inr [r]"
    using one_row_table_parses by blast
  obtain out s' where run:
    "refresh_live_with refresh_env (\<lambda>url etag. Inr (refresh_fetch False)) award_source refresh_store = (Inr out, s')"
    using refresh_live_total [OF refresh_store_reads(1,5), where fetch = "\<lambda>url etag. Inr (refresh_fetch False)"
        and env = refresh_env and rows = "[r]"] refresh_store_reads r by (auto simp: f sha)
  have decoded: "List.map_filter (award_row_from_record_row (env_award_of_json refresh_env)) [prior_row] = [plain_row [65] [66]]"
    by (simp add: List.map_filter_simps award_row_from_record_row_def prior_row_def trim_by_def trim_start_by_def
        trim_end_by_def is_ws_def)
  have new: "snap_persisted_digest refresh_prior \<noteq> sha256_hex (env_sha refresh_env) (tf_bytes (refresh_fetch False))"
    by (simp add: f sha refresh_prior_def acquisition_snapshot_def awards_acquisition_def fixture_acquisition_def)
  have "snapshot_rows (env_sha refresh_env) (snap_id refresh_prior) refresh_store = Inr [prior_row]"
    using refresh_store_reads(3) by simp
  from refresh_reports_changes [OF run refresh_store_reads(5,2) refl _ this decoded [symmetric]]
  show ?thesis using run r new by (auto simp: f sha)
qed

text \<open>
  After a valid capture of an empty table, which stores its row set, a capture with rows adds no alert: all its
  rows are added records, but the code takes the empty list for a snapshot without rows.
\<close>

lemma added_to_empty: "change_set sha [] (row # rows) \<noteq> {}"
proof -
  have "row_of sha (row # rows) (row_identity sha row) \<noteq> None"
    by (simp add: row_of_def last_option_def)
  then have "(ProcurementChangeKind.RecordAdded, row_identity sha row, []) \<in> change_set sha [] (row # rows)"
    by (simp add: change_set_def row_of_def last_option_def)
  then show ?thesis by blast
qed

lemma additions_to_empty_table_unreported:
  assumes "refresh_live_with env fetch source_id s = (Inr out, s')"
    and "surface_url source_id = Some (url, f)" "latest_snapshot source_id s = Some prior"
    and "fetch url (snap_etag prior) = Inr fetched" "\<not> tf_not_modified fetched"
    and "snapshot_rows (env_sha env) (snap_id prior) s = Inr []"
    and "parse_awards_table (env_table env) (from_utf8_lossy (tf_bytes fetched))
        (sha256_hex (env_sha env) (tf_bytes fetched)) = Inr (row # rows)"
  shows "st_proc_alerts s' = st_proc_alerts s \<and> change_set (env_sha env) [] (row # rows) \<noteq> {}"
proof
  obtain t where t: "persist_observations (tf_observations fetched) s = (Inr (), t)"
    and run: "refresh_changed env source_id url (Some prior) fetched t = (Inr out, s')"
    by (rule refresh_live_with_Inr [OF assms(1)]) (use assms(2-5) in auto)
  have kept: "st_proc_alerts t = st_proc_alerts s" "same_rows s t"
    using op_keepsD [OF persist_observations_keeps t] by (simp_all add: same_rows_def)
  have "snapshot_rows (env_sha env) (snap_id prior) t = Inr []"
    using same_rows_reads(4) [OF kept(2)] assms(6) by simp
  from refresh_changed_silent [OF run this refl] show "st_proc_alerts s' = st_proc_alerts s" using kept(1)
    by (simp add: List.map_filter_simps)
  show "change_set (env_sha env) [] (row # rows) \<noteq> {}"
    by (rule added_to_empty)
qed

text \<open>
  A refresh that the server answers with 304 leaves snapshots, rows, alerts, matters and events as they
  are.
\<close>

theorem unchanged_refresh_keeps_records:
  assumes "refresh_live_with env fetch source_id s = (Inr out, s')"
    and "surface_url source_id = Some (url, f)"
    and "fetch url (Option.bind (latest_snapshot source_id s) snap_etag) = Inr fetched" "tf_not_modified fetched"
  shows "latest_snapshot source_id s \<noteq> None \<and> st_snapshots s' = st_snapshots s \<and> same_rows s s' \<and>
    matter_tables s' = matter_tables s"
proof -
  obtain t where t: "persist_observations (tf_observations fetched) s = (Inr (), t)"
    and run: "refresh_unchanged env source_id url (latest_snapshot source_id s) fetched t = (Inr out, s')"
    by (rule refresh_live_with_Inr [OF assms(1)]) (use assms(2-4) in auto)
  have kept: "st_snapshots t = st_snapshots s" "same_rows s t" "matter_tables t = matter_tables s"
    using op_keepsD [OF persist_observations_keeps t] by (simp_all add: same_rows_def)
  have "latest_snapshot source_id s \<noteq> None \<and> st_snapshots s' = st_snapshots t \<and> same_rows t s' \<and>
      matter_tables s' = matter_tables t"
    using run by (auto simp: refresh_unchanged_def record_unchanged_def op_Inr printed_def same_rows_def
        insert_coverage_entry_def insert_or_ignore_def split: option.splits if_splits)
  with kept show ?thesis using same_rows_trans by auto
qed

theorem unchanged_refresh_keeps_records_witness:
  "\<exists>out s'. refresh_live_with refresh_env (\<lambda>url etag. Inr (refresh_fetch True)) award_source refresh_store = (Inr out, s') \<and>
     st_snapshots s' = [refresh_prior]"
proof -
  obtain review where gate: "check_live_gate award_source refresh_store = (Inr review, refresh_store)"
    using check_live_gate_open [OF refresh_store_reads(1)] by blast
  have "\<exists>out s'. refresh_live_with refresh_env (\<lambda>url etag. Inr (refresh_fetch True)) award_source refresh_store = (Inr out, s')"
    using gate refresh_store_reads(2,5)
    by (auto simp: refresh_live_with_def refresh_unchanged_def record_unchanged_def persist_observations_def op_defs
        refresh_fetch_def insert_coverage_entry_def insert_or_ignore_def printed_def)
  then obtain out s' where run:
    "refresh_live_with refresh_env (\<lambda>url etag. Inr (refresh_fetch True)) award_source refresh_store = (Inr out, s')" by blast
  from unchanged_refresh_keeps_records [OF run refresh_store_reads(5) refl] run show ?thesis
    by (auto simp: refresh_fetch_def refresh_store_def)
qed

text \<open>
  The retrieval time of a live refresh is a constant, so the coverage entries of two refreshes of a source
  have the same identifier: after the first, a refresh answered with 304 records nothing.
\<close>

lemma later_refresh_not_recorded:
  assumes "coverage_id_for sha source_id fetched_retrieved_at \<in> cov_id ` set (st_coverage s)"
  shows "record_unchanged sha (refresh_acquisition source_id url d fetched) existing s = (Inr True, s)"
proof -
  have "cov_id (unchanged_entry sha (refresh_acquisition source_id url d fetched) existing) =
      coverage_id_for sha source_id fetched_retrieved_at"
    by (simp add: unchanged_entry_def acquisition_coverage_entry_def refresh_acquisition_def)
  then show ?thesis
    using assms by (simp add: record_unchanged_def op_defs insert_coverage_entry_def insert_or_ignore_def)
qed

text \<open>
  A refresh that fails to parse the page keeps the observations it has already written; the page of the
  solicitation mirror is parsed as an award table as well.
\<close>

lemma failed_refresh_keeps_observations:
  assumes "gate_open source_id s" "surface_url source_id = Some (url, f)"
    and "fetch url (Option.bind (latest_snapshot source_id s) snap_etag) = Inr fetched" "\<not> tf_not_modified fetched"
    and "persist_observations (tf_observations fetched) s = (Inr (), t)"
    and "parse_awards_table (env_table env) (from_utf8_lossy (tf_bytes fetched))
      (sha256_hex (env_sha env) (tf_bytes fetched)) = Inl e"
  shows "refresh_live_with env fetch source_id s = (Inl (ParseAwards e), t)"
proof -
  obtain review where "check_live_gate source_id s = (Inr review, s)" using check_live_gate_open [OF assms(1)] by blast
  then show ?thesis
    using assms(2-) by (simp add: refresh_live_with_def refresh_changed_def op_defs Let_def)
qed

end
