(* ===== verification/Commands.thy ===== *)
theory Commands
  imports Refresh MatterPages
begin

text \<open>
  The remaining commands of the procurement chain (\<open>pnull-cli/src/procurement_cmd.rs\<close>): what is shown of a
  matter, the reconciliation queue, coverage, case files, records requests, alerts and the publication
  checklist, and the dispatch of \<open>main.rs\<close> to all of them.
\<close>

section \<open>Reports\<close>

text \<open>A read that can fail with an error of the store.\<close>

definition core_read :: "(store \<Rightarrow> 'a core_result) \<Rightarrow> (CliError, 'a) op" where
  "core_read f = read_op (\<lambda>s. case f s of Inl e \<Rightarrow> Inl (StoreFailed e) | Inr a \<Rightarrow> Inr a)"

text \<open>The derived \<open>Debug\<close> of an optional string and of a list of pairs of strings.\<close>

definition debug_option :: "cli_env \<Rightarrow> str option \<Rightarrow> str" where
  "debug_option env x = (case x of None \<Rightarrow> lit ''None'' | Some v \<Rightarrow> lit ''Some('' @ env_debug env v @ lit '')'')"

definition debug_pairs :: "cli_env \<Rightarrow> (str \<times> str) list \<Rightarrow> str" where
  "debug_pairs env xs =
     lit ''['' @ join (lit '', '') (map (\<lambda>(a, b). lit ''('' @ env_debug env a @ lit '', '' @ env_debug env b @ lit '')'') xs) @
     lit '']''"

definition show_matter :: "cli_env \<Rightarrow> str \<Rightarrow> command" where
  "show_matter env matter_id =
     bind_op (core_read (procurement_matter matter_id)) (\<lambda>m.
     bind_op (read_op (\<lambda>s. Inr (procurement_identifiers matter_id s, procurement_organizations matter_id s,
         procurement_events matter_id s))) (\<lambda>(ids, orgs, evs).
     printed
       ([lit ''matter '' @ pm_id m @ lit '' ('' @ pm_title m @ lit '')'',
         lit ''  jurisdiction: '' @ pm_jurisdiction m,
         lit ''  review: '' @ pm_review_state m @ lit '' publication: '' @ pm_publication_state m] @
        map (\<lambda>i. lit ''  identifier '' @ pid_raw i @ lit '' ['' @ identifier_kind_label (pid_kind i) @ lit ''] source '' @
          pid_source_id i @ lit '' normalized '' @ debug_option env (pid_normalized i)) ids @
        map (\<lambda>p. lit ''  organization '' @ org_raw_name p @ lit '' ['' @ role_label (org_role p) @ lit ''] source '' @
          org_source_id p) orgs @
        map (\<lambda>e. lit ''  event '' @ (case ev_date e of None \<Rightarrow> lit ''date unknown'' | Some d \<Rightarrow> d) @ lit '' ['' @
          event_kind_label (ev_kind e) @ lit ''] '' @ ev_summary e) evs)))"

definition queue_of :: "str \<Rightarrow> store \<Rightarrow> ReconciliationItem list" where
  "queue_of matter_id s = filter (\<lambda>i. ri_matter_id i = matter_id) (all_reconciliation_items s)"

definition decision_text :: "store \<Rightarrow> ReconciliationItem \<Rightarrow> str" where
  "decision_text s i =
     (case current_reconciliation_decision (ri_id i) s of None \<Rightarrow> lit ''none'' | Some d \<Rightarrow> dec_decision d)"

definition queue_lines :: "str \<Rightarrow> (store \<Rightarrow> ReconciliationItem \<Rightarrow> str) \<Rightarrow> store \<Rightarrow> str list" where
  "queue_lines matter_id item_line s =
     [lit ''reconciliation-review queue for '' @ matter_id @ lit '':''] @
     (if queue_of matter_id s = [] then [lit ''  no pending reconciliation items''] else []) @
     map (item_line s) (queue_of matter_id s)"

definition gap_item_line :: "store \<Rightarrow> ReconciliationItem \<Rightarrow> str" where
  "gap_item_line s i =
     lit ''  ['' @ reconciliation_label (ri_kind i) @ lit ''] '' @ ri_summary i @ lit '' | '' @ ri_state i @
     lit '' | decided: '' @ decision_text s i"

definition gaps :: "str \<Rightarrow> command" where
  "gaps matter_id =
     bind_op (core_read (procurement_matter matter_id)) (\<lambda>_.
     bind_op (read_op (\<lambda>s. Inr (queue_lines matter_id gap_item_line s))) (\<lambda>ls.
     printed (ls @ [lit ''Gap phrasing: Not observed in the checked sources.''])))"

definition chain :: "cli_env \<Rightarrow> str \<Rightarrow> command" where
  "chain env matter_id =
     bind_op (read_op (\<lambda>s. case build_chain (env_sha env) s matter_id of
         Inl e \<Rightarrow> Inl (ChainFailed e) | Inr v \<Rightarrow> Inr v)) (\<lambda>view.
     printed [render_chain view])"

section \<open>The reconciliation queue\<close>

definition reconcile_item_line :: "store \<Rightarrow> ReconciliationItem \<Rightarrow> str" where
  "reconcile_item_line s i =
     lit ''  '' @ ri_id i @ lit '' | '' @ ri_summary i @ lit '' | state '' @ ri_state i @ lit '' | decision '' @
     decision_text s i"

definition reconcile_matter ::
  "cli_env \<Rightarrow> str \<Rightarrow> str option \<Rightarrow> str option \<Rightarrow> str option \<Rightarrow> str option \<Rightarrow> str \<Rightarrow> command" where
  "reconcile_matter env matter_id item_id decision operator note_text decided_at =
     bind_op (core_read (procurement_matter matter_id)) (\<lambda>_.
       case (item_id, decision, operator, note_text) of
         (Some item, Some d, Some op, Some n) \<Rightarrow>
           bind_op (map_err StoreFailed (record_decision (env_sha env) item d op n decided_at)) (\<lambda>_.
           printed [lit ''recorded decision '' @ [39] @ d @ [39] @ lit '' on '' @ item @ lit '' (operator '' @ op @ lit '')''])
       | (None, None, None, None) \<Rightarrow>
           bind_op (read_op (\<lambda>s. Inr (queue_lines matter_id reconcile_item_line s))) printed
       | _ \<Rightarrow> fail_op ReconcileUsage)"

section \<open>Coverage\<close>

definition coverage_text :: "str \<times> CoverageEntry list \<Rightarrow> str" where
  "coverage_text x =
     (let summary = summarize (snd x) in
      fst x @ lit '' | state '' @ coverage_label (csum_latest_state summary) @ lit '' | entries '' @
      show_nat (csum_entry_count summary) @ lit '' | latest '' @ or_none (csum_latest_retrieved_at summary) @
      lit '' | digest '' @ or_none (csum_latest_digest summary))"

definition coverage_show :: "command" where
  "coverage_show =
     bind_op (read_op (\<lambda>s. Inr (map coverage_text (grouped_by cov_source_id (all_coverage_entries s))))) printed"

text \<open>\<open>show_error\<close> is the display of a snapshot error.\<close>

definition coverage_diff :: "cli_env \<Rightarrow> (SnapshotError \<Rightarrow> str) \<Rightarrow> str \<Rightarrow> str \<Rightarrow> command" where
  "coverage_diff env show_error old_snapshot new_snapshot =
     bind_op (core_read (source_snapshot old_snapshot)) (\<lambda>old.
     bind_op (core_read (source_snapshot new_snapshot)) (\<lambda>new.
       if snap_source_id old \<noteq> snap_source_id new
       then fail_op (SnapshotsDiffer (snap_source_id old) (snap_source_id new))
       else
         bind_op (read_op (\<lambda>s. Inr (snapshot_rows (env_sha env) old_snapshot s,
             snapshot_rows (env_sha env) new_snapshot s))) (\<lambda>(old_read, new_read).
         case old_read of
           Inl e \<Rightarrow> printed [lit ''old snapshot has no preserved row evidence: '' @ show_error e]
         | Inr old_rows \<Rightarrow>
             (case new_read of
                Inl e \<Rightarrow> printed [lit ''new snapshot has no preserved row evidence: '' @ show_error e]
              | Inr new_rows \<Rightarrow>
                  let diff = record_diff (env_sha env) old_snapshot new_snapshot (snap_source_id old) old_rows new_rows in
                  printed
                    (if sdiff_changes diff = []
                     then [lit ''no record-level changes between '' @ old_snapshot @ lit '' and '' @ new_snapshot]
                     else map (\<lambda>c. chg_kind c @ lit '': '' @ chg_summary c) (sdiff_changes diff))))))"

section \<open>Case files\<close>

text \<open>\<open>Path::join\<close> of a relative name.\<close>

definition path_join :: "str \<Rightarrow> str \<Rightarrow> str" where
  "path_join dir name =
     (if dir = [] \<or> last dir = 47 then dir @ name else dir @ [47] @ name)"

text \<open>\<open>to_json\<close> is the pretty JSON of the content; the directory is created when the files are written.\<close>

definition case_build :: "cli_env \<Rightarrow> (CaseFileContent \<Rightarrow> str) \<Rightarrow> str \<Rightarrow> str \<Rightarrow> command" where
  "case_build env to_json matter_id output_dir =
     bind_op (map_err CaseFailed (generate (env_sha env) to_json matter_id OFFLINE_RETRIEVED_AT)) (\<lambda>case_file.
     bind_op (map_err CaseFailed (read_op (build_content matter_id))) (\<lambda>content.
       let json_path = path_join output_dir (lit ''case-file.json'');
           md_path = path_join output_dir (lit ''case-file.md'') in
       if \<not> env_write env json_path then fail_op (WriteFailed json_path)
       else if \<not> env_write env md_path then fail_op (WriteFailed md_path)
       else return_op
         \<lparr>out_lines =
            [lit ''built case file '' @ cf_id case_file @ lit '' (state '' @ case_file_label (cf_state case_file) @ lit '')'',
             lit ''  json: '' @ json_path, lit ''  markdown: '' @ md_path,
             lit ''  manifest: '' @ debug_pairs env (cf_sha256_manifest case_file),
             lit ''note: remains a draft until citation review and publication allowlists pass.''],
          out_files = [(json_path, to_json content), (md_path, render_case_file content)]\<rparr>))"

section \<open>Records requests\<close>

definition MISSING_RECORD_TYPES :: "str list" where
  "MISSING_RECORD_TYPES = map lit [''executed contract'', ''award notice'', ''vendor-level expenditure evidence'']"

definition SOURCES_CHECKED :: "str list" where
  "SOURCES_CHECKED = [award_source, solicitation_source, openbook_source]"

definition DRAFT_DATE_RANGE :: date_range where
  "DRAFT_DATE_RANGE = Some (Some (lit ''2026-01-01''), Some (lit ''2026-08-17''))"

definition cora_draft :: "cli_env \<Rightarrow> str \<Rightarrow> command" where
  "cora_draft env matter_id =
     bind_op (core_read (procurement_matter matter_id)) (\<lambda>m.
     bind_op (read_op (\<lambda>s. Inr (procurement_identifiers matter_id s))) (\<lambda>ids.
       let draft = build_draft (env_sha env) m ids MISSING_RECORD_TYPES DRAFT_DATE_RANGE (Some (pm_title m)) SOURCES_CHECKED in
       bind_op (stmt StoreFailed (insert_cora_draft draft)) (\<lambda>_.
       bind_op (map_err CoraFailed (register_draft (env_sha env) matter_id CITY_DEPARTMENT (map pid_raw ids)
           MISSING_RECORD_TYPES DRAFT_DATE_RANGE (Some (pm_title m)) SOURCES_CHECKED (cd_markdown draft)
           OFFLINE_CREATED_AT)) (\<lambda>registered.
       printed
         [cd_markdown draft,
          lit ''STATUS: '' @ (if registered then lit ''registered (drafted)'' else lit ''already registered'') @
            lit '' in the local request ledger.'',
          lit ''STATUS: local draft only; not submitted. Operator/legal review required.'']))))"

definition request_line :: "CoraRequest \<Rightarrow> str" where
  "request_line r =
     cr_id r @ lit '' | matter '' @ cr_matter_id r @ lit '' | state '' @ cora_label (cr_state r) @ lit '' | events '' @
     show_nat (length (cr_events r)) @ lit '' | created '' @ cr_created_at r"

definition cora_list :: "str option \<Rightarrow> command" where
  "cora_list matter_id =
     bind_op (read_op (\<lambda>s. Inr (list_requests matter_id s))) (\<lambda>requests.
     printed (if requests = [] then [lit ''no CORA requests in the ledger''] else map request_line requests))"

definition cora_show :: "str \<Rightarrow> command" where
  "cora_show request_id =
     bind_op (map_err CoraFailed (read_op (show_request request_id))) (\<lambda>r.
     printed
       ([lit ''request '' @ cr_id r @ lit '' (matter '' @ cr_matter_id r @ lit '')'',
         lit ''  state: '' @ cora_label (cr_state r), lit ''  created: '' @ cr_created_at r,
         lit ''  institution: '' @ cr_institution r, lit ''  identifiers: '' @ join (lit '', '') (cr_identifiers r),
         lit ''  missing record types: '' @ join (lit '', '') (cr_missing_record_types r),
         lit ''  draft digest: '' @ cr_draft_digest r, lit ''  events:''] @
        map (\<lambda>e. lit ''    ['' @ cora_label (ce_state e) @ lit ''] '' @ ce_id e @ lit '' by '' @ ce_operator e @
          lit '' at '' @ ce_timestamp e @ long_dash @ ce_note e) (cr_events r)))"

definition cora_submit :: "cli_env \<Rightarrow> str \<Rightarrow> str \<Rightarrow> str \<Rightarrow> str \<Rightarrow> str option \<Rightarrow> command" where
  "cora_submit env request_id operator date tracking recipient_note =
     bind_op (map_err CoraFailed (submit (env_sha env) request_id operator date tracking recipient_note)) (\<lambda>r.
     printed
       [lit ''request '' @ cr_id r @ lit '' marked '' @ cora_label (cr_state r) @ lit '' (operator '' @ operator @ lit '')'',
        lit ''note: the tool stores the operator'' @ [39] @ lit ''s facts; it does not perform the submission.''])"

definition cora_response :: "cli_env \<Rightarrow> str \<Rightarrow> str \<Rightarrow> str option \<Rightarrow> command" where
  "cora_response env request_id evidence_ref note_text =
     bind_op (map_err CoraFailed (response_received (env_sha env) request_id evidence_ref note_text)) (\<lambda>r.
     printed
       [lit ''request '' @ cr_id r @ lit '' marked '' @ cora_label (cr_state r) @ lit '' linked to evidence '' @ evidence_ref,
        lit ''note: evidence must already be imported through the hostile-file import path.''])"

section \<open>Alerts and the publication checklist\<close>

definition quoted_text :: "str \<Rightarrow> str" where
  "quoted_text x = [39] @ x @ [39]"

definition change_lines :: "ProcurementRecordChange \<Rightarrow> str list" where
  "change_lines c =
     (lit ''  ['' @ change_label (prc_change_kind c) @ lit ''] row '' @ prc_row_identity c @ long_dash @ prc_summary c) #
     map (\<lambda>d. lit ''      field '' @ fd_field d @ lit '': '' @ quoted_text (fd_old_raw d) @ lit '' -> '' @
       quoted_text (fd_new_raw d)) (prc_field_diffs c)"

definition alert_lines :: "ProcurementAlert \<Rightarrow> str list" where
  "alert_lines a =
     [lit ''alert '' @ pa_id a,
      lit ''  source '' @ pa_source_id a @ lit '' surface '' @ pa_surface a,
      lit ''  snapshot '' @ pa_old_snapshot_id a @ lit '' (digest '' @ pa_old_snapshot_digest a @ lit '') -> '' @
        pa_new_snapshot_id a @ lit '' (digest '' @ pa_new_snapshot_digest a @ lit '')'',
      lit ''  retrieved '' @ pa_retrieved_at a @ lit '' coverage '' @ coverage_label (pa_coverage_state a),
      lit ''  matter(s): '' @ join (lit '', '') (pa_matter_ids a)] @
     concat (map change_lines (pa_changes a))"

definition procurement_alerts_list :: "command" where
  "procurement_alerts_list =
     bind_op (read_op (\<lambda>s. Inr (all_procurement_alerts s))) (\<lambda>found.
     printed (if found = [] then [lit ''no procurement change alerts recorded''] else concat (map alert_lines found)))"

definition result_line :: "PublicationGateReport \<Rightarrow> str" where
  "result_line gate =
     (if pgr_withheld gate
      then lit ''  RESULT: WITHHELD ('' @ show_nat (length (pgr_withholds_for gate)) @ lit '' reason(s))''
      else lit ''  RESULT: READY TO PUBLISH'')"

definition bool_text :: "bool \<Rightarrow> str" where
  "bool_text b = (if b then lit ''true'' else lit ''false'')"

definition checklist :: "str \<Rightarrow> PublicationGateReport \<Rightarrow> (Citation \<times> str) list \<Rightarrow> str list" where
  "checklist matter_id gate outcomes =
     [lit ''publish-ready report for '' @ matter_id @ lit '':'', result_line gate,
      lit ''  allowlist '' @ PROCUREMENT_CASEFILE_CATEGORY @ lit '' present: '' @ bool_text (pgr_allowlist_present gate),
      lit ''  citations reviewed: '' @ show_nat (length (filter (\<lambda>(_, o1). o1 = lit ''approved'') outcomes)) @ lit ''/'' @
        show_nat (length outcomes)] @
     map (\<lambda>(c, o1). lit ''    pending/rejected: '' @ o1 @ long_dash @ cit_quote c)
       (filter (\<lambda>(_, o1). o1 \<noteq> lit ''approved'') outcomes) @
     [lit ''  privacy backstop issues: '' @ show_nat (length (pgr_privacy_issues gate))] @
     map (\<lambda>issue. lit ''    '' @ issue) (pgr_privacy_issues gate) @
     map (\<lambda>reason. lit ''  withheld: '' @ reason) (pgr_withholds_for gate)"

definition publish_ready :: "cli_env \<Rightarrow> upper_table \<Rightarrow> str \<Rightarrow> command" where
  "publish_ready env upper matter_id =
     bind_op (map_err CaseFailed (read_op (build_content matter_id))) (\<lambda>content.
     bind_op (read_op (\<lambda>s. Inr (evaluate_gate (env_sha env) upper s content, citation_outcomes (env_sha env) s content)))
       (\<lambda>(gate, outcomes). printed (checklist matter_id gate outcomes)))"

section \<open>Dispatch\<close>

datatype ProcurementIngestCommand =
  Solicitations str bool
| Awards str bool
| Openbook

datatype ProcurementCommand =
  Ingest ProcurementIngestCommand
| ExportAwards str str
| Import str str str str str str
| Reconcile str "str option" "str option" "str option" "str option"
| Show str
| Gaps str
| Chain str
| Alerts
| PublishReady str
| Refresh str bool

datatype CoverageCommand = ShowCoverage | Diff str str

datatype CaseCommand = Build str str

datatype CoraCommand =
  Draft str
| ListRequests "str option"
| ShowRequest str
| Submit str str str str "str option"
| Response str str "str option"

text \<open>What the commands take from outside besides \<open>cli_env\<close>.\<close>

record command_lib =
  lib_env :: cli_env
  lib_upper :: upper_table
  lib_client :: "str + procurement_transport"
  lib_blob_writable :: bool
  lib_snapshot_error :: "SnapshotError \<Rightarrow> str"
  lib_case_json :: "CaseFileContent \<Rightarrow> str"

definition DECIDED_AT :: str where
  "DECIDED_AT = lit ''2026-08-17T00:00:00Z''"

fun procurement_command :: "command_lib \<Rightarrow> ProcurementCommand \<Rightarrow> command" where
  "procurement_command L (Ingest (Solicitations source live)) = ingest_solicitations (lib_env L) source live"
| "procurement_command L (Ingest (Awards source live)) = ingest_awards (lib_env L) source live"
| "procurement_command L (Ingest Openbook) = ingest_openbook (lib_env L)"
| "procurement_command L (ExportAwards source target) = export_awards (lib_env L) source target"
| "procurement_command L (Import path source_or_request_id acquisition_date role_text operator declared) =
     import_record (lib_env L) (lib_blob_writable L) path source_or_request_id acquisition_date role_text operator declared"
| "procurement_command L (Reconcile matter_id item decision operator note_text) =
     reconcile_matter (lib_env L) matter_id item decision operator note_text DECIDED_AT"
| "procurement_command L (Show matter_id) = show_matter (lib_env L) matter_id"
| "procurement_command L (Gaps matter_id) = gaps matter_id"
| "procurement_command L (Chain matter_id) = chain (lib_env L) matter_id"
| "procurement_command L Alerts = procurement_alerts_list"
| "procurement_command L (PublishReady matter_id) = publish_ready (lib_env L) (lib_upper L) matter_id"
| "procurement_command L (Refresh source_id live) = refresh_procurement (lib_env L) (lib_client L) source_id live"

fun coverage_command :: "command_lib \<Rightarrow> CoverageCommand \<Rightarrow> command" where
  "coverage_command L ShowCoverage = coverage_show"
| "coverage_command L (Diff old_snapshot new_snapshot) =
     coverage_diff (lib_env L) (lib_snapshot_error L) old_snapshot new_snapshot"

fun case_command :: "command_lib \<Rightarrow> CaseCommand \<Rightarrow> command" where
  "case_command L (Build matter_id target) = case_build (lib_env L) (lib_case_json L) matter_id target"

fun cora_command :: "command_lib \<Rightarrow> CoraCommand \<Rightarrow> command" where
  "cora_command L (Draft matter_id) = cora_draft (lib_env L) matter_id"
| "cora_command L (ListRequests matter_id) = cora_list matter_id"
| "cora_command L (ShowRequest request_id) = cora_show request_id"
| "cora_command L (Submit request_id operator date tracking recipient_note) =
     cora_submit (lib_env L) request_id operator date tracking recipient_note"
| "cora_command L (Response request_id evidence_ref note_text) =
     cora_response (lib_env L) request_id evidence_ref note_text"

section \<open>Lemmas\<close>

lemma op_keeps_core_read [intro]: "op_keeps f (core_read g)"
  unfolding core_read_def by (rule op_keeps_base)

lemma op_keeps_printed [intro]: "op_keeps f (printed ls)"
  unfolding printed_def by (rule op_keeps_base)

lemma op_keeps_return [intro]: "op_keeps f (return_op a)"
  by (rule op_keeps_base)

lemmas report_intros = op_keeps_core_read op_keeps_printed op_keeps_base op_keeps_bind op_keeps_map_err op_keeps_if
  op_keeps_option

lemma op_keeps_sum: "(\<And>e. op_keeps f (g e)) \<Longrightarrow> (\<And>a. op_keeps f (h a)) \<Longrightarrow> op_keeps f (case x of Inl e \<Rightarrow> g e | Inr a \<Rightarrow> h a)"
  by (cases x) simp_all

lemma op_keeps_prod: "(\<And>a b. op_keeps f (g a b)) \<Longrightarrow> op_keeps f (case x of (a, b) \<Rightarrow> g a b)"
  by (cases x) simp

lemma reports_keep:
  "op_keeps f (show_matter env k)" "op_keeps f (gaps k)" "op_keeps f (chain env k)"
  "op_keeps f procurement_alerts_list" "op_keeps f (publish_ready env upper k)"
  "op_keeps f coverage_show" "op_keeps f (coverage_diff env show_error k l)"
  "op_keeps f (cora_list matter_id)" "op_keeps f (cora_show k)"
  "op_keeps f (export_awards env k l)" "op_keeps f (reconcile_matter env k None None None None at)"
  "op_keeps f (refresh_procurement env client k False)"
  unfolding show_matter_def gaps_def chain_def procurement_alerts_list_def publish_ready_def coverage_show_def
    coverage_diff_def cora_list_def cora_show_def export_awards_def reconcile_matter_def refresh_procurement_def Let_def
    if_True if_False not_False_eq_True option.case prod.case
  by (intro report_intros op_keeps_sum op_keeps_prod)+

text \<open>The content of a case file does not depend on the case files recorded.\<close>

lemma case_files_not_read [simp]:
  "source_snapshot k (s\<lparr>st_case_files := t\<rparr>) = source_snapshot k s"
  "snapshot_diff k l (s\<lparr>st_case_files := t\<rparr>) = snapshot_diff k l s"
  "source_snapshots k (s\<lparr>st_case_files := t\<rparr>) = source_snapshots k s"
  "supplied_record_digest k (s\<lparr>st_case_files := t\<rparr>) = supplied_record_digest k s"
  "procurement_matter k (s\<lparr>st_case_files := t\<rparr>) = procurement_matter k s"
  "procurement_events k (s\<lparr>st_case_files := t\<rparr>) = procurement_events k s"
  "procurement_identifiers k (s\<lparr>st_case_files := t\<rparr>) = procurement_identifiers k s"
  "procurement_organizations k (s\<lparr>st_case_files := t\<rparr>) = procurement_organizations k s"
  "all_coverage_entries (s\<lparr>st_case_files := t\<rparr>) = all_coverage_entries s"
  "cora_requests k (s\<lparr>st_case_files := t\<rparr>) = cora_requests k s"
  "all_official_relationships (s\<lparr>st_case_files := t\<rparr>) = all_official_relationships s"
  "all_reconciliation_items (s\<lparr>st_case_files := t\<rparr>) = all_reconciliation_items s"
  by (simp_all add: source_snapshot_def read_row_def snapshot_diff_def source_snapshots_def supplied_record_digest_def
      procurement_matter_def procurement_events_def procurement_identifiers_def procurement_organizations_def
      all_coverage_entries_def cora_requests_def all_official_relationships_def all_reconciliation_items_def)

lemma build_content_ignores_case_files: "build_content k (s\<lparr>st_case_files := t\<rparr>) = build_content k s"
proof -
  let ?s = "s\<lparr>st_case_files := t\<rparr>"
  have digests: "request_response_digest ?s = request_response_digest s" "first_evidence ?s = first_evidence s"
      "supersession_line ?s = supersession_line s" "event_sources ?s = event_sources s"
    by (intro ext; simp add: request_response_digest_def first_evidence_def supersession_line_def event_sources_def
        cong: option.case_cong sum.case_cong list.case_cong)+
  have "gap_line ?s = gap_line s" "build_citations ?s = build_citations s" "build_what_changed ?s = build_what_changed s"
      "\<And>p. item_summaries p k ?s = item_summaries p k s"
    by (intro ext; simp add: gap_line_def build_citations_def build_what_changed_def digests)+
      (simp add: item_summaries_def)
  then show ?thesis by (simp add: build_content_def digests cong: sum.case_cong)
qed

lemma generate_Inr:
  assumes "generate sha to_json k at s = (Inr r, s')"
  obtains c t where "build_content k s = Inr c" "r = case_file_of sha to_json k at c" "s' = s\<lparr>st_case_files := t\<rparr>"
  using assms that by (auto simp: generate_def op_Inr stmt_Inr insert_case_file_def case_prod_beta)

section \<open>Properties\<close>

theorem reports_change_nothing:
  "list_all (\<lambda>m. snd (m s) = s)
     [procurement_command L (Show k), procurement_command L (Gaps k), procurement_command L (Chain k),
      procurement_command L Alerts, procurement_command L (PublishReady k), procurement_command L (ExportAwards p q),
      procurement_command L (Reconcile k None None None None), procurement_command L (Refresh k False),
      coverage_command L ShowCoverage, coverage_command L (Diff p q),
      cora_command L (ListRequests x), cora_command L (ShowRequest k)]"
  using reports_keep [where f = "\<lambda>s. s"] by (simp add: op_keeps_def)

text \<open>
  A built case file is what its manifest says: the two files written are the two renderings of the content
  that the store holds on the matter, and the manifest that is printed gives their names and digests.
\<close>

theorem case_build_writes_its_manifest:
  assumes "case_build env to_json k dir s = (Inr out, s')"
  shows "\<exists>c json_text md_text. build_content k s = Inr c \<and> json_text = to_json c \<and> md_text = render_case_file c \<and>
    out_files out = [(path_join dir (lit ''case-file.json''), json_text), (path_join dir (lit ''case-file.md''), md_text)] \<and>
    lit ''  manifest: '' @ debug_pairs env
      [(lit ''case-file.json'', sha256_hex (env_sha env) (as_bytes json_text)),
       (lit ''case-file.md'', sha256_hex (env_sha env) (as_bytes md_text))] \<in> set (out_lines out) \<and>
    (\<exists>t. s' = s\<lparr>st_case_files := t\<rparr>)"
proof -
  obtain r s1 content where g: "generate (env_sha env) to_json k OFFLINE_RETRIEVED_AT s = (Inr r, s1)"
    and content: "build_content k s1 = Inr content" "s' = s1"
    and out: "out_files out = [(path_join dir (lit ''case-file.json''), to_json content),
        (path_join dir (lit ''case-file.md''), render_case_file content)]"
      "lit ''  manifest: '' @ debug_pairs env (cf_sha256_manifest r) \<in> set (out_lines out)"
    using assms by (auto simp: case_build_def op_Inr Let_def split: if_splits)
  from g obtain c t where c: "build_content k s = Inr c" "r = case_file_of (env_sha env) to_json k OFFLINE_RETRIEVED_AT c"
    "s1 = s\<lparr>st_case_files := t\<rparr>"
    by (rule generate_Inr)
  have same: "content = c" using content(1) c(1,3) by (simp add: build_content_ignores_case_files)
  have manifest: "cf_sha256_manifest r = [(lit ''case-file.json'', sha256_hex (env_sha env) (as_bytes (to_json c))),
     (lit ''case-file.md'', sha256_hex (env_sha env) (as_bytes (render_case_file c)))]"
    by (simp add: c(2) case_file_of_def Let_def sha256_manifest_def lit_def less_eq_prod_def less_prod_def)
  show ?thesis
    using c(1,3) content(2) out unfolding same manifest by blast
qed

text \<open>
  The checklist says what publication does: without changing the store, it reports a matter as ready exactly
  if every citation is approved for its present content, the category is allowed and no field is sensitive,
  and it names each citation that is not approved.
\<close>

theorem publish_ready_reports_the_gate:
  assumes "publish_ready env upper k s = (Inr out, s')"
  shows "s' = s \<and> (\<exists>c. build_content k s = Inr c \<and>
    (out_lines out ! 1 = lit ''  RESULT: READY TO PUBLISH'' \<longleftrightarrow>
       assert_citations_approved (env_sha env) s (cfc_citations c) = Inr () \<and>
       publication_allowlist_allows s PROCUREMENT_CASEFILE_CATEGORY \<and> privacy_issues upper s c = []) \<and>
    list_all (\<lambda>q. citation_outcome (env_sha env) s q = lit ''approved'' \<or>
       lit ''    pending/rejected: '' @ citation_outcome (env_sha env) s q @ long_dash @ cit_quote q \<in> set (out_lines out))
      (cfc_citations c))"
proof -
  obtain c where c: "build_content k s = Inr c" "s' = s"
    and out: "out_lines out = checklist k (evaluate_gate (env_sha env) upper s c) (citation_outcomes (env_sha env) s c)"
    using assms by (auto simp: publish_ready_def printed_def op_Inr)
  have "lit ''  RESULT: WITHHELD ('' @ x \<noteq> lit ''  RESULT: READY TO PUBLISH''" for x
    by (simp add: lit_def)
  then have "out_lines out ! 1 = lit ''  RESULT: READY TO PUBLISH'' \<longleftrightarrow>
      \<not> pgr_withheld (evaluate_gate (env_sha env) upper s c)"
    by (simp add: out checklist_def result_line_def)
  then show ?thesis
    using c gate_passes_iff [of "env_sha env" upper s c]
    by (auto simp: out checklist_def citation_outcomes_def list_all_iff image_iff split: if_splits)
qed

text \<open>
  A decision is taken once: the time of a decision is a constant of the program, so a second decision on an
  item has the identifier of the first and is ignored, while the command reports it as recorded.
\<close>

lemma second_decision_is_dropped:
  assumes "procurement_command L (Reconcile k (Some item) (Some d1) (Some op1) (Some n1)) s = (Inr out1, s1)"
    and "procurement_command L (Reconcile k (Some item) (Some d2) (Some op2) (Some n2)) s1 = (Inr out2, s2)"
  shows "s2 = s1 \<and> out_lines out2 =
    [lit ''recorded decision '' @ [39] @ d2 @ [39] @ lit '' on '' @ item @ lit '' (operator '' @ op2 @ lit '')'']"
  using assms
  by (auto simp: reconcile_matter_def core_read_def record_decision_def Let_def op_Inr stmt_Inr printed_def
      insert_reconciliation_decision_def insert_or_ignore_def split: if_splits sum.splits)

section \<open>Witnesses\<close>

lemma sample_case_content:
  obtains c where "build_content [109] case_store = Inr c"
  using case_store_content by blast

theorem case_build_writes_its_manifest_witness:
  "\<exists>out s' j m. case_build sample_env (\<lambda>_. [1]) [109] [100] case_store = (Inr out, s') \<and>
     out_files out = [([100, 47] @ lit ''case-file.json'', j), ([100, 47] @ lit ''case-file.md'', m)]"
proof -
  obtain c where c: "build_content [109] case_store = Inr c" by (rule sample_case_content)
  then obtain out s' where run: "case_build sample_env (\<lambda>_. [1]) [109] [100] case_store = (Inr out, s')"
    by (auto simp: case_build_def generate_def op_defs Let_def sample_env_def insert_case_file_def case_prod_beta
        build_content_ignores_case_files)
  with case_build_writes_its_manifest [OF run] show ?thesis by (auto simp: path_join_def)
qed

theorem publish_ready_reports_the_gate_witness:
  "\<exists>out. publish_ready sample_env ascii_table [109] case_store = (Inr out, case_store) \<and>
     out_lines out ! 1 \<noteq> lit ''  RESULT: READY TO PUBLISH''"
proof -
  obtain c where c: "build_content [109] case_store = Inr c" by (rule sample_case_content)
  then obtain out where run: "publish_ready sample_env ascii_table [109] case_store = (Inr out, case_store)"
    by (auto simp: publish_ready_def printed_def op_defs)
  have "\<not> publication_allowlist_allows case_store PROCUREMENT_CASEFILE_CATEGORY"
    by (simp add: publication_allowlist_allows_def publication_allowlists_def case_store_def
        sample_chain_store_def empty_store_def)
  with publish_ready_reports_the_gate [OF run] run show ?thesis by auto
qed

end
