(* ===== verification/NormText.thy ===== *)
theory NormText
  imports Lines
begin

text \<open>
  The normalisation of extracted text (\<open>normalize_text\<close> of \<open>pnull-ingest/src/lib.rs\<close>): one kind of line
  end, single spaces, no blank line at either end and no two in a row.  It keeps the words of the text, and
  normalising twice changes nothing.
\<close>

section \<open>Definitions\<close>

text \<open>\<open>replace("\r\n", "\n")\<close> and then \<open>replace('\r', "\n")\<close>.\<close>

fun replace_crlf :: "str \<Rightarrow> str" where
  "replace_crlf [] = []"
| "replace_crlf [c] = [c]"
| "replace_crlf (c # d # s) = (if c = 13 \<and> d = 10 then 10 # replace_crlf s else c # replace_crlf (d # s))"

definition normalized_newlines :: "str \<Rightarrow> str" where
  "normalized_newlines s = map (\<lambda>c. if c = 13 then 10 else c) (replace_crlf s)"

definition collapsed :: "str \<Rightarrow> str" where
  "collapsed line = join [32] (split_whitespace line)"

text \<open>The loop over the lines, with \<open>previous_blank\<close>.\<close>

fun kept_lines :: "bool \<Rightarrow> str list \<Rightarrow> str list" where
  "kept_lines previous_blank [] = []"
| "kept_lines previous_blank (l # ls) =
     (let c = collapsed l; blank = (c = []) in
      if \<not> blank \<or> \<not> previous_blank then c # kept_lines blank ls else kept_lines blank ls)"

definition drop_blank_end :: "str list \<Rightarrow> str list" where
  "drop_blank_end ls = rev (dropWhile (\<lambda>l. l = []) (rev ls))"

definition normalize_text :: "str \<Rightarrow> str" where
  "normalize_text input = join [10] (drop_blank_end (kept_lines True (lines (normalized_newlines input))))"

section \<open>Words\<close>

lemma split_by_word_sep:
  "list_all (\<lambda>c. \<not> p c) w \<Longrightarrow> p d \<Longrightarrow> split_by p (w @ d # s) = w # split_by p s"
  by (induction w) auto

lemma split_by_cons_head:
  "split_by p (a @ d # s) = split_by p a @ split_by p s" if "p d"
  using that
proof (induction a)
  case (Cons c a)
  then show ?case by (cases "split_by p a") auto
qed simp

lemma split_whitespace_sep: "is_ws d \<Longrightarrow> split_whitespace (a @ d # s) = split_whitespace a @ split_whitespace s"
  by (simp add: split_whitespace_def split_by_cons_head)

lemma split_whitespace_ws: "is_ws d \<Longrightarrow> split_whitespace (d # s) = split_whitespace s"
  using split_whitespace_sep [of d "[]"] by (simp add: split_whitespace_def)

lemma split_whitespace_Nil [simp]: "split_whitespace [] = []"
  by (simp add: split_whitespace_def)

lemma set_cons_head: "set (cons_head c ws) = (case ws of [] \<Rightarrow> {[c]} | w # v \<Rightarrow> insert (c # w) (set v))"
  by (cases ws) auto

lemma split_by_no_separator: "v \<in> set (split_by p t) \<Longrightarrow> list_all (\<lambda>c. \<not> p c) v"
  by (induction t arbitrary: v) (auto simp: set_cons_head split: if_splits list.splits)

lemma words_have_no_ws: "w \<in> set (split_whitespace s) \<Longrightarrow> w \<noteq> [] \<and> list_all (\<lambda>c. \<not> is_ws c) w"
  by (auto simp: split_whitespace_def dest: split_by_no_separator)

text \<open>A word in front of a separator.\<close>

definition word :: "str \<Rightarrow> bool" where
  "word w \<longleftrightarrow> w \<noteq> [] \<and> list_all (\<lambda>c. \<not> is_ws c) w"

lemma split_whitespace_one: "word w \<Longrightarrow> split_whitespace w = [w]"
  by (simp add: split_whitespace_def word_def split_by_no_sep)

lemma split_whitespace_join: "list_all word ws \<Longrightarrow> is_ws d \<Longrightarrow> split_whitespace (join [d] ws) = ws"
proof (induction "[d]" ws rule: join.induct)
  case (3 w v ws)
  then show ?case using split_whitespace_sep [of d w] by (simp add: split_whitespace_one)
qed (simp_all add: split_whitespace_one)

lemma all_words: "list_all word (split_whitespace s)"
  by (auto simp: list_all_iff word_def dest: words_have_no_ws)

lemma is_ws_simps [simp]: "is_ws 32" "is_ws 10" "is_ws 13"
  by (simp_all add: is_ws_def)

lemma words_collapsed [simp]: "split_whitespace (collapsed l) = split_whitespace l"
  by (simp add: collapsed_def split_whitespace_join all_words)

lemma collapsed_idem [simp]: "collapsed (collapsed l) = collapsed l"
  by (simp only: collapsed_def [of "collapsed l"] words_collapsed) (simp add: collapsed_def)

lemma collapsed_chars: "c \<in> set (collapsed l) \<Longrightarrow> c = 32 \<or> \<not> is_ws c"
proof -
  have "list_all word ws \<Longrightarrow> c \<in> set (join [32] ws) \<Longrightarrow> c = 32 \<or> \<not> is_ws c" for ws
    by (induction "[32 :: nat]" ws rule: join.induct) (auto simp: word_def list_all_iff)
  from this [OF all_words] show "c \<in> set (collapsed l) \<Longrightarrow> c = 32 \<or> \<not> is_ws c" by (simp add: collapsed_def)
qed

lemma collapsed_one_line: "10 \<notin> set (collapsed l)" "13 \<notin> set (collapsed l)"
  using collapsed_chars by fastforce+

lemma collapsed_Nil_iff: "collapsed l = [] \<longleftrightarrow> split_whitespace l = []"
proof
  show "collapsed l = [] \<Longrightarrow> split_whitespace l = []" by (metis words_collapsed split_whitespace_Nil)
qed (simp add: collapsed_def)

section \<open>Words of lines\<close>

lemma lines_first:
  "10 \<notin> set p \<Longrightarrow> lines (p @ 10 # s) = (if p \<noteq> [] \<and> last p = 13 then butlast p else p) # lines s"
proof (induction p)
  case (Cons c p)
  then show ?case by (cases p) auto
qed simp

lemma words_without_end: "p \<noteq> [] \<Longrightarrow> is_ws (last p) \<Longrightarrow> split_whitespace (butlast p) = split_whitespace p"
  using split_whitespace_sep [of "last p" "butlast p" "[]"] by simp

lemma words_of_lines: "concat (map split_whitespace (lines s)) = split_whitespace s"
proof (induction s rule: length_induct)
  case (1 s)
  show ?case
  proof (cases "10 \<in> set s")
    case True
    then obtain p t where s: "s = p @ 10 # t" "10 \<notin> set p" by (meson split_list_first)
    then have "concat (map split_whitespace (lines t)) = split_whitespace t" using 1 by simp
    then show ?thesis
      using s(2) words_without_end [of p] by (simp add: s(1) lines_first split_whitespace_sep)
  next
    case False
    then show ?thesis by (cases "s = []") (simp_all add: lines_single)
  qed
qed

text \<open>Replacing line ends keeps the words.\<close>

lemma words_replace_crlf: "split_whitespace (a @ replace_crlf s) = split_whitespace (a @ s)"
proof (induction s arbitrary: a rule: replace_crlf.induct)
  case (3 c d s)
  show ?case
  proof (cases "c = 13 \<and> d = 10")
    case True
    then have "split_whitespace (a @ replace_crlf (c # d # s)) = split_whitespace a @ split_whitespace (replace_crlf s)"
      by (simp add: split_whitespace_sep)
    also have "\<dots> = split_whitespace (a @ c # d # s)"
      using True 3(1) [of "[]"] by (simp add: split_whitespace_sep split_whitespace_ws)
    finally show ?thesis .
  next
    case False
    then have "replace_crlf (c # d # s) = c # replace_crlf (d # s)" by (simp only: replace_crlf.simps) simp
    then show ?thesis using 3(2) [OF False, of "a @ [c]"] by simp
  qed
qed simp_all

lemma words_map_ws:
  assumes "\<And>c. f c = c \<or> is_ws c \<and> is_ws (f c)"
  shows "split_whitespace (a @ map f s) = split_whitespace (a @ s)"
proof (induction s arbitrary: a)
  case (Cons c s)
  from assms [of c] show ?case
  proof
    assume "f c = c"
    then show ?thesis using Cons.IH [of "a @ [c]"] by simp
  next
    assume "is_ws c \<and> is_ws (f c)"
    then show ?thesis using Cons.IH [of "[]"] by (simp add: split_whitespace_sep)
  qed
qed simp

lemma words_normalized_newlines: "split_whitespace (normalized_newlines s) = split_whitespace s"
  using words_map_ws [where a = "[]" and f = "\<lambda>c. if c = 13 then 10 else c" and s = "replace_crlf s"]
    words_replace_crlf [of "[]" s]
  by (simp add: normalized_newlines_def)

section \<open>The kept lines\<close>

lemma words_kept_lines: "concat (map split_whitespace (kept_lines b ls)) = concat (map split_whitespace ls)"
  by (induction b ls rule: kept_lines.induct) (auto simp: Let_def collapsed_Nil_iff)

lemma kept_collapsed: "l \<in> set (kept_lines b ls) \<Longrightarrow> collapsed l = l"
  by (induction b ls rule: kept_lines.induct) (auto simp: Let_def split: if_splits)

text \<open>No two blank lines in a row, and none first.\<close>

fun sparse :: "bool \<Rightarrow> str list \<Rightarrow> bool" where
  "sparse b [] = True"
| "sparse b (l # ls) = ((l \<noteq> [] \<or> \<not> b) \<and> sparse (l = []) ls)"

lemma kept_sparse: "sparse b (kept_lines b ls)"
  by (induction b ls rule: kept_lines.induct) (auto simp: Let_def)

lemma sparse_kept: "sparse b ls \<Longrightarrow> list_all (\<lambda>l. collapsed l = l) ls \<Longrightarrow> kept_lines b ls = ls"
  by (induction b ls rule: sparse.induct) (auto simp: Let_def)

lemma sparse_prefix: "sparse b (ls @ ms) \<Longrightarrow> sparse b ls"
  by (induction b ls rule: sparse.induct) auto

lemma drop_blank_end_prefix: "\<exists>ms. ls = drop_blank_end ls @ ms \<and> list_all (\<lambda>l. l = []) ms"
proof -
  have "ls = drop_blank_end ls @ rev (takeWhile (\<lambda>l. l = []) (rev ls))"
    by (metis drop_blank_end_def rev_append rev_rev_ident takeWhile_dropWhile_id)
  moreover have "list_all (\<lambda>l. l = []) (rev (takeWhile (\<lambda>l. l = []) (rev ls)))"
    by (auto simp: list_all_iff dest: set_takeWhileD)
  ultimately show ?thesis by blast
qed

lemma drop_blank_end_last:
  assumes "drop_blank_end ls \<noteq> []"
  shows "last (drop_blank_end ls) \<noteq> []"
proof -
  have "dropWhile (\<lambda>l. l = []) (rev ls) \<noteq> []" using assms by (simp add: drop_blank_end_def)
  from hd_dropWhile [OF this] show ?thesis
    unfolding drop_blank_end_def by (simp only: last_rev not_False_eq_True)
qed

lemma drop_blank_end_id: "ls = [] \<or> last ls \<noteq> [] \<Longrightarrow> drop_blank_end ls = ls"
  by (cases ls rule: rev_cases) (auto simp: drop_blank_end_def)

text \<open>The lines of a normalised text.\<close>

definition normal_lines :: "str list \<Rightarrow> bool" where
  "normal_lines ls \<longleftrightarrow>
     list_all (\<lambda>l. collapsed l = l) ls \<and> sparse True ls \<and> (ls = [] \<or> last ls \<noteq> [])"

lemma normal_lines_of: "normal_lines (drop_blank_end (kept_lines True ls))"
proof -
  let ?ls = "kept_lines True ls"
  obtain ms where ms: "?ls = drop_blank_end ?ls @ ms" using drop_blank_end_prefix by blast
  have "sparse True (drop_blank_end ?ls)" using kept_sparse ms sparse_prefix by metis
  moreover have "set (drop_blank_end ?ls) \<subseteq> set ?ls" using ms by (metis set_append sup_ge1)
  ultimately show ?thesis
    using kept_collapsed drop_blank_end_last by (fastforce simp: normal_lines_def list_all_iff)
qed

lemma lines_join: "list_all (\<lambda>l. collapsed l = l) ls \<Longrightarrow> ls = [] \<or> last ls \<noteq> [] \<Longrightarrow> lines (join [10] ls) = ls"
proof (induction "[10 :: nat]" ls rule: join.induct)
  case (2 w)
  then show ?case using collapsed_one_line(1) [of w] lines_single [of w] by auto
next
  case (3 w v ws)
  then have "10 \<notin> set w" "13 \<notin> set w" using collapsed_one_line [of w] by auto
  then show ?case using 3 lines_first [of w] by (auto dest: last_in_set)
qed simp

lemma join_no_cr: "list_all (\<lambda>l. collapsed l = l) ls \<Longrightarrow> 13 \<notin> set (join [10] ls)"
proof (induction "[10 :: nat]" ls rule: join.induct)
  case (2 w)
  then show ?case using collapsed_one_line(2) [of w] by auto
next
  case (3 w v ws)
  then show ?case using collapsed_one_line(2) [of w] by auto
qed simp

lemma normalized_newlines_id: "13 \<notin> set s \<Longrightarrow> normalized_newlines s = s"
proof -
  assume s: "13 \<notin> set s"
  then have "replace_crlf s = s" by (induction s rule: replace_crlf.induct) auto
  then show ?thesis using s by (auto simp: normalized_newlines_def intro!: map_idI)
qed

lemma normalize_normal: "normal_lines ls \<Longrightarrow> normalize_text (join [10] ls) = join [10] ls"
  by (simp add: normalize_text_def normal_lines_def join_no_cr normalized_newlines_id lines_join sparse_kept drop_blank_end_id)

lemma normalize_text_twice: "normalize_text (normalize_text s) = normalize_text s"
  using normalize_normal [OF normal_lines_of] by (simp add: normalize_text_def [of s])

lemma words_join_lines: "split_whitespace (join [10] ls) = concat (map split_whitespace ls)"
  by (induction "[10 :: nat]" ls rule: join.induct) (simp_all add: split_whitespace_sep)

section \<open>Properties\<close>

text \<open>
  C34: Normalising keeps the words of a text in order, leaves its lines with single spaces, no blank line at
  either end and no two in a row, and changes nothing the second time.
\<close>

theorem normalized_text:
  "split_whitespace (normalize_text s) = split_whitespace s \<and>
   normal_lines (lines (normalize_text s)) \<and>
   normalize_text (normalize_text s) = normalize_text s"
proof -
  let ?ls = "drop_blank_end (kept_lines True (lines (normalized_newlines s)))"
  have normal: "normal_lines ?ls" by (rule normal_lines_of)
  obtain ms where ms: "kept_lines True (lines (normalized_newlines s)) = ?ls @ ms" "list_all (\<lambda>l. l = []) ms"
    using drop_blank_end_prefix by blast
  have blank: "concat (map split_whitespace ms) = []" using ms(2) by (auto simp: list_all_iff)
  have "split_whitespace (normalize_text s) = concat (map split_whitespace ?ls)"
    by (simp add: normalize_text_def words_join_lines)
  also have "\<dots> = concat (map split_whitespace (?ls @ ms))" using blank by simp
  also have "\<dots> = concat (map split_whitespace (lines (normalized_newlines s)))"
    by (simp only: ms(1) [symmetric] words_kept_lines)
  also have "\<dots> = split_whitespace s" by (simp add: words_of_lines words_normalized_newlines)
  finally have words: "split_whitespace (normalize_text s) = split_whitespace s" .
  have "lines (normalize_text s) = ?ls"
    using normal by (simp add: normalize_text_def normal_lines_def lines_join)
  then show ?thesis using words normal normalize_normal [OF normal] by (simp add: normalize_text_def)
qed

end
