(* ===== verification/Geometry.thy ===== *)
theory Geometry
  imports CoreTypes NormText Utf8Lossy
begin

text \<open>
  Page geometry (\<open>pnull-geometry/src/lib.rs\<close>): the text maps built from the layout of \<open>pdftotext\<close> and the
  table of \<open>tesseract\<close>, the search for a quotation in the words of a page, and the page citation with its
  checked rectangles.  An \<open>f64\<close> is its bit pattern: comparisons are defined on it, arithmetic, parsing and
  printing are arguments, as is the XML reader.
\<close>

section \<open>Floating point numbers\<close>

definition f64_magnitude :: "f64 \<Rightarrow> nat" where
  "f64_magnitude x = unat x mod 2 ^ 63"

definition f64_negative :: "f64 \<Rightarrow> bool" where
  "f64_negative x \<longleftrightarrow> unat x \<ge> 2 ^ 63"

definition f64_infinity :: nat where
  "f64_infinity = 0x7FF0000000000000"

definition is_nan :: "f64 \<Rightarrow> bool" where
  "is_nan x \<longleftrightarrow> f64_magnitude x > f64_infinity"

definition is_finite :: "f64 \<Rightarrow> bool" where
  "is_finite x \<longleftrightarrow> f64_magnitude x < f64_infinity"

text \<open>The order of the numbers is that of the signed magnitudes; both zeros have key 0.\<close>

definition f64_key :: "f64 \<Rightarrow> int" where
  "f64_key x = (if f64_negative x then - int (f64_magnitude x) else int (f64_magnitude x))"

definition f64_less :: "f64 \<Rightarrow> f64 \<Rightarrow> bool" where
  "f64_less x y \<longleftrightarrow> \<not> is_nan x \<and> \<not> is_nan y \<and> f64_key x < f64_key y"

definition f64_le :: "f64 \<Rightarrow> f64 \<Rightarrow> bool" where
  "f64_le x y \<longleftrightarrow> \<not> is_nan x \<and> \<not> is_nan y \<and> f64_key x \<le> f64_key y"

definition f64_max :: "f64 \<Rightarrow> f64 \<Rightarrow> f64" where
  "f64_max x y = (if is_nan x then y else if is_nan y then x else if f64_key x < f64_key y then y else x)"

definition f64_min :: "f64 \<Rightarrow> f64 \<Rightarrow> f64" where
  "f64_min x y = (if is_nan x then y else if is_nan y then x else if f64_key y < f64_key x then y else x)"

text \<open>Parsing, \<open>{:.6}\<close> and arithmetic.\<close>

record float_lib =
  fl_parse :: "str \<Rightarrow> f64 option"
  fl_show6 :: "f64 \<Rightarrow> str"
  fl_of_u32 :: "32 word \<Rightarrow> f64"
  fl_add :: "f64 \<Rightarrow> f64 \<Rightarrow> f64"
  fl_sub :: "f64 \<Rightarrow> f64 \<Rightarrow> f64"
  fl_mul :: "f64 \<Rightarrow> f64 \<Rightarrow> f64"
  fl_div :: "f64 \<Rightarrow> f64 \<Rightarrow> f64"

section \<open>Text maps\<close>

datatype GeometryError =
  Invalid str
| QuoteNotFound "32 word" str
| QuoteMismatch "32 word"
| Malformed str
| Io
| Render str
| MissingPage "32 word"

definition COORDINATE_SYSTEM :: str where
  "COORDINATE_SYSTEM = lit ''pdf_user_space_points_bottom_left_y_up''"

record PageSpec =
  ps_evidence_id :: str
  ps_page_number :: "32 word"
  ps_page_width :: f64
  ps_page_height :: f64
  ps_page_rotation :: int
  ps_extractor_version :: str
  ps_source_digest :: str

definition rect_digest :: "float_lib \<Rightarrow> hash \<Rightarrow> BoundingRect \<Rightarrow> str" where
  "rect_digest F sha r =
     sha256_hex sha (as_bytes (join (lit '','')
       [fl_show6 F (rect_x_min r), fl_show6 F (rect_y_min r), fl_show6 F (rect_x_max r), fl_show6 F (rect_y_max r)]))"

definition compute_digest :: "float_lib \<Rightarrow> hash \<Rightarrow> TextMap \<Rightarrow> str" where
  "compute_digest F sha m =
     sha256_hex sha (concat (map (\<lambda>w. as_bytes (mw_text w) @ [0] @ as_bytes (rect_digest F sha (mw_rect w)) @ [0]) (tm_words m)))"

text \<open>The map with its digest; \<open>id_for\<close> is applied by the callers that set the identifier.\<close>

definition digested_map :: "float_lib \<Rightarrow> hash \<Rightarrow> PageSpec \<Rightarrow> str \<Rightarrow> MapWord list \<Rightarrow> TextMap" where
  "digested_map F sha spec extractor words =
     (let m = \<lparr>tm_id = [], tm_evidence_id = ps_evidence_id spec, tm_page_number = ps_page_number spec,
        tm_page_width = ps_page_width spec, tm_page_height = ps_page_height spec,
        tm_page_rotation = ps_page_rotation spec, tm_coordinate_system = COORDINATE_SYSTEM, tm_words = words,
        tm_extractor = extractor, tm_extractor_version = ps_extractor_version spec, tm_digest = [],
        tm_source_digest = ps_source_digest spec\<rparr> in
      m\<lparr>tm_digest := compute_digest F sha m\<rparr>)"

definition identified_map :: "float_lib \<Rightarrow> hash \<Rightarrow> PageSpec \<Rightarrow> str \<Rightarrow> MapWord list \<Rightarrow> TextMap" where
  "identified_map F sha spec extractor words =
     (let m = digested_map F sha spec extractor words in
      m\<lparr>tm_id := text_map_id_for sha (ps_evidence_id spec) (ps_page_number spec) (tm_digest m)\<rparr>)"

definition validate_rect :: "BoundingRect \<Rightarrow> f64 \<Rightarrow> f64 \<Rightarrow> GeometryError + unit" where
  "validate_rect r page_width page_height =
     (if \<not> is_finite (rect_x_min r) \<or> \<not> is_finite (rect_y_min r) \<or> \<not> is_finite (rect_x_max r) \<or> \<not> is_finite (rect_y_max r)
      then Inl (Invalid (lit ''non-finite coordinate''))
      else if f64_less (rect_x_min r) 0 \<or> f64_less (rect_y_min r) 0 \<or> f64_less (rect_x_max r) 0 \<or> f64_less (rect_y_max r) 0
      then Inl (Invalid (lit ''negative coordinate''))
      else if f64_le (rect_x_max r) (rect_x_min r) \<or> f64_le (rect_y_max r) (rect_y_min r)
      then Inl (Invalid (lit ''inverted or empty rectangle''))
      else if f64_less page_width (rect_x_max r) \<or> f64_less page_height (rect_y_max r)
      then Inl (Invalid (lit ''rectangle outside page''))
      else Inr ())"

fun validate_rects :: "BoundingRect list \<Rightarrow> f64 \<Rightarrow> f64 \<Rightarrow> GeometryError + unit" where
  "validate_rects [] width height = Inr ()"
| "validate_rects (r # rs) width height =
     (case validate_rect r width height of Inl e \<Rightarrow> Inl e | Inr _ \<Rightarrow> validate_rects rs width height)"

definition validate_text_map :: "TextMap \<Rightarrow> GeometryError + unit" where
  "validate_text_map m = validate_rects (map mw_rect (tm_words m)) (tm_page_width m) (tm_page_height m)"

section \<open>The layout of pdftotext\<close>

text \<open>
  The events of the crate \<open>quick_xml\<close>, the end of the list being the end of the document: names and
  attributes as bytes (malformed attributes are dropped by \<open>flatten\<close>), a text with the result of
  \<open>decode\<close> and of \<open>unescape\<close>.
\<close>

datatype xml_event =
  XStart bytes "(bytes \<times> bytes) list"
| XEnd bytes
| XText "str + str" "str + str"
| XError str
| XOther

definition named :: "bytes \<Rightarrow> string \<Rightarrow> bool" where
  "named n s \<longleftrightarrow> n = lit s"

text \<open>The text of a word element and the events after it.\<close>

fun parse_word_element :: "xml_event list \<Rightarrow> str \<Rightarrow> GeometryError + str \<times> xml_event list" where
  "parse_word_element [] content = Inr (trim content, [])"
| "parse_word_element (XText decoded unescaped # es) content =
     (case decoded of Inl e \<Rightarrow> Inl (Malformed e)
      | Inr _ \<Rightarrow> (case unescaped of Inl e \<Rightarrow> Inl (Malformed e) | Inr t \<Rightarrow> parse_word_element es (content @ t)))"
| "parse_word_element (XEnd n # es) content =
     (if named n ''word'' then Inr (trim content, es) else parse_word_element es content)"
| "parse_word_element (XError e # es) content = Inl (Malformed e)"
| "parse_word_element (XStart n attrs # es) content = parse_word_element es content"
| "parse_word_element (XOther # es) content = parse_word_element es content"

definition zero_rect :: BoundingRect where
  "zero_rect = \<lparr>rect_x_min = 0, rect_y_min = 0, rect_x_max = 0, rect_y_max = 0\<rparr>"

fun word_rect :: "float_lib \<Rightarrow> (bytes \<times> bytes) list \<Rightarrow> BoundingRect \<Rightarrow> GeometryError + BoundingRect" where
  "word_rect F [] r = Inr r"
| "word_rect F ((key, v) # attrs) r =
     (let value = fl_parse F (from_utf8_lossy v) in
      if named key ''xMin'' then (case value of None \<Rightarrow> Inl (Malformed (lit ''xMin'')) | Some x \<Rightarrow> word_rect F attrs (r\<lparr>rect_x_min := x\<rparr>))
      else if named key ''yMin'' then (case value of None \<Rightarrow> Inl (Malformed (lit ''yMin'')) | Some x \<Rightarrow> word_rect F attrs (r\<lparr>rect_y_min := x\<rparr>))
      else if named key ''xMax'' then (case value of None \<Rightarrow> Inl (Malformed (lit ''xMax'')) | Some x \<Rightarrow> word_rect F attrs (r\<lparr>rect_x_max := x\<rparr>))
      else if named key ''yMax'' then (case value of None \<Rightarrow> Inl (Malformed (lit ''yMax'')) | Some x \<Rightarrow> word_rect F attrs (r\<lparr>rect_y_max := x\<rparr>))
      else word_rect F attrs r)"

lemma parse_word_element_shorter: "parse_word_element es content = Inr (t, rest) \<Longrightarrow> length rest \<le> length es"
  by (induction es content rule: parse_word_element.induct) (auto split: sum.splits if_splits intro: le_SucI)

function layout_words :: "float_lib \<Rightarrow> xml_event list \<Rightarrow> bool \<Rightarrow> GeometryError + MapWord list" where
  "layout_words F [] in_page = Inr []"
| "layout_words F (XStart n attrs # es) in_page =
     (if named n ''page'' then layout_words F es True
      else if in_page \<and> named n ''word'' then
        (case word_rect F attrs zero_rect of Inl e \<Rightarrow> Inl e
         | Inr r \<Rightarrow> (case parse_word_element es [] of Inl e \<Rightarrow> Inl e
            | Inr (t, rest) \<Rightarrow> (case layout_words F rest in_page of Inl e \<Rightarrow> Inl e
               | Inr ws \<Rightarrow> Inr (\<lparr>mw_text = t, mw_rect = r\<rparr> # ws))))
      else layout_words F es in_page)"
| "layout_words F (XEnd n # es) in_page = (if named n ''page'' \<and> in_page then Inr [] else layout_words F es in_page)"
| "layout_words F (XError e # es) in_page = Inl (Malformed e)"
| "layout_words F (XText d u # es) in_page = layout_words F es in_page"
| "layout_words F (XOther # es) in_page = layout_words F es in_page"
  by pat_completeness auto
termination
  by (relation "measure (\<lambda>(_, es, _). length es)") (auto dest: parse_word_element_shorter)

definition POPPLER :: str where
  "POPPLER = lit ''poppler_pdftotext_bbox''"

definition parse_bbox_layout :: "float_lib \<Rightarrow> hash \<Rightarrow> (str \<Rightarrow> xml_event list) \<Rightarrow> str \<Rightarrow> PageSpec \<Rightarrow> GeometryError + TextMap" where
  "parse_bbox_layout F sha read_events xml spec =
     (case layout_words F (read_events xml) False of Inl e \<Rightarrow> Inl e
      | Inr ws \<Rightarrow> Inr (identified_map F sha spec POPPLER ws))"

section \<open>The table of tesseract\<close>

text \<open>\<open>str::parse\<close> for signed integers of a range.\<close>

definition parse_int :: "int \<Rightarrow> int \<Rightarrow> str \<Rightarrow> int option" where
  "parse_int low high s =
     (let negative = (s \<noteq> [] \<and> hd s = 45); signed = (s \<noteq> [] \<and> hd s \<in> {43, 45});
          d = (if signed then tl s else s);
          v = foldl (\<lambda>v c. 10 * v + (int c - 48)) 0 d; n = (if negative then - v else v) in
      if d = [] \<or> \<not> list_all is_digit d \<or> n < low \<or> n > high then None else Some n)"

definition parse_i64 :: "str \<Rightarrow> int option" where "parse_i64 = parse_int (- (2 ^ 63)) (2 ^ 63 - 1)"
definition parse_i32 :: "str \<Rightarrow> int option" where "parse_i32 = parse_int (- (2 ^ 31)) (2 ^ 31 - 1)"

record tsv_columns =
  tc_left :: nat
  tc_top :: nat
  tc_width :: nat
  tc_height :: nat
  tc_text :: nat
  tc_level :: nat
  tc_page :: nat

definition column :: "str list \<Rightarrow> string \<Rightarrow> GeometryError + nat" where
  "column columns n =
     (case position (\<lambda>c. c = lit n) columns of
        None \<Rightarrow> Inl (Malformed (lit ''missing column '' @ lit n)) | Some i \<Rightarrow> Inr i)"

definition bind_result :: "'e + 'a \<Rightarrow> ('a \<Rightarrow> 'e + 'b) \<Rightarrow> 'e + 'b" where
  "bind_result m f = (case m of Inl e \<Rightarrow> Inl e | Inr a \<Rightarrow> f a)"

definition tsv_header :: "str list \<Rightarrow> GeometryError + tsv_columns" where
  "tsv_header columns =
     bind_result (column columns ''left'') (\<lambda>left.
     bind_result (column columns ''top'') (\<lambda>up.
     bind_result (column columns ''width'') (\<lambda>width.
     bind_result (column columns ''height'') (\<lambda>height.
     bind_result (column columns ''conf'') (\<lambda>_.
     bind_result (column columns ''text'') (\<lambda>t.
     bind_result (column columns ''level'') (\<lambda>level.
     bind_result (column columns ''page_num'') (\<lambda>page.
       Inr \<lparr>tc_left = left, tc_top = up, tc_width = width, tc_height = height, tc_text = t,
         tc_level = level, tc_page = page\<rparr>))))))))"

text \<open>A row panics when a column read lies behind its end, is skipped, or is a word.\<close>

datatype row_result = RowPanic | RowSkip | RowWord MapWord

definition field_at :: "str list \<Rightarrow> nat \<Rightarrow> str option" where
  "field_at xs i = (if i < length xs then Some (xs ! i) else None)"

definition or_value :: "'a \<Rightarrow> 'a option \<Rightarrow> 'a" where
  "or_value d x = (case x of None \<Rightarrow> d | Some a \<Rightarrow> a)"

definition ocr_rect :: "float_lib \<Rightarrow> PageSpec \<Rightarrow> 32 word \<Rightarrow> 32 word \<Rightarrow> f64 \<Rightarrow> f64 \<Rightarrow> f64 \<Rightarrow> f64 \<Rightarrow> BoundingRect" where
  "ocr_rect F spec image_width image_height left up width height =
     (let scale_x = fl_div F (ps_page_width spec) (fl_of_u32 F image_width);
          scale_y = fl_div F (ps_page_height spec) (fl_of_u32 F image_height);
          h = fl_of_u32 F image_height in
      \<lparr>rect_x_min = fl_mul F left scale_x,
       rect_y_min = fl_mul F (fl_sub F h (fl_add F up height)) scale_y,
       rect_x_max = fl_mul F (fl_add F left width) scale_x,
       rect_y_max = fl_mul F (fl_sub F h up) scale_y\<rparr>)"

definition tsv_row :: "float_lib \<Rightarrow> PageSpec \<Rightarrow> 32 word \<Rightarrow> 32 word \<Rightarrow> tsv_columns \<Rightarrow> str \<Rightarrow> row_result" where
  "tsv_row F spec image_width image_height c line =
     (let fields = split_by (\<lambda>x. x = 9) line in
      if trim line = [] \<or> length fields \<le> tc_text c then RowSkip
      else case field_at fields (tc_level c) of None \<Rightarrow> RowPanic | Some level \<Rightarrow>
        if or_value 0 (parse_i64 level) \<noteq> 5 then RowSkip
        else case field_at fields (tc_page c) of None \<Rightarrow> RowPanic | Some page_num \<Rightarrow>
          if or_value 1 (parse_i64 page_num) \<noteq> uint (ps_page_number spec) then RowSkip
          else
            let t = trim (fields ! tc_text c) in
            if t = [] then RowSkip
            else case (field_at fields (tc_left c), field_at fields (tc_top c), field_at fields (tc_width c),
                field_at fields (tc_height c)) of
              (Some l, Some tp, Some w, Some h) \<Rightarrow>
                RowWord \<lparr>mw_text = t, mw_rect = ocr_rect F spec image_width image_height (or_value 0 (fl_parse F l))
                  (or_value 0 (fl_parse F tp)) (or_value 0 (fl_parse F w)) (or_value 0 (fl_parse F h))\<rparr>
            | _ \<Rightarrow> RowPanic)"

fun tsv_words :: "float_lib \<Rightarrow> PageSpec \<Rightarrow> 32 word \<Rightarrow> 32 word \<Rightarrow> tsv_columns \<Rightarrow> str list \<Rightarrow> MapWord list option" where
  "tsv_words F spec image_width image_height c [] = Some []"
| "tsv_words F spec image_width image_height c (l # ls) =
     (case tsv_row F spec image_width image_height c l of
        RowPanic \<Rightarrow> None
      | RowSkip \<Rightarrow> tsv_words F spec image_width image_height c ls
      | RowWord w \<Rightarrow> map_option ((#) w) (tsv_words F spec image_width image_height c ls))"

text \<open>\<open>None\<close> is a panic.\<close>

definition parse_ocr_tsv ::
  "float_lib \<Rightarrow> hash \<Rightarrow> str \<Rightarrow> PageSpec \<Rightarrow> 32 word \<Rightarrow> 32 word \<Rightarrow> (GeometryError + TextMap) option" where
  "parse_ocr_tsv F sha tsv spec image_width image_height =
     (case lines tsv of
        [] \<Rightarrow> Some (Inl (Malformed (lit ''empty TSV'')))
      | header # rows \<Rightarrow>
          (case tsv_header (split_by (\<lambda>x. x = 9) header) of
             Inl e \<Rightarrow> Some (Inl e)
           | Inr c \<Rightarrow> map_option (\<lambda>ws. Inr (identified_map F sha spec (lit ''tesseract_tsv'') ws))
               (tsv_words F spec image_width image_height c rows)))"

section \<open>Quotations\<close>

definition normalized :: "str \<Rightarrow> str" where
  "normalized content = join [32] (split_whitespace content)"

text \<open>The joined words: a word after one that ends with a hyphen continues it.\<close>

definition continue_word :: "MapWord \<Rightarrow> MapWord \<Rightarrow> MapWord" where
  "continue_word prev w =
     \<lparr>mw_text = butlast (mw_text prev) @ trim (mw_text w),
      mw_rect = (mw_rect prev)\<lparr>rect_x_max := f64_max (rect_x_max (mw_rect prev)) (rect_x_max (mw_rect w)),
        rect_y_max := f64_max (rect_y_max (mw_rect prev)) (rect_y_max (mw_rect w)),
        rect_y_min := f64_min (rect_y_min (mw_rect prev)) (rect_y_min (mw_rect w))\<rparr>\<rparr>"

definition ends_with_hyphen :: "str \<Rightarrow> bool" where
  "ends_with_hyphen s \<longleftrightarrow> s \<noteq> [] \<and> last s = 45"

fun join_words :: "MapWord list \<Rightarrow> MapWord list \<Rightarrow> MapWord list" where
  "join_words joined [] = joined"
| "join_words joined (w # ws) =
     (if trim (mw_text w) = [] then join_words joined ws
      else if joined \<noteq> [] \<and> ends_with_hyphen (mw_text (last joined))
      then join_words (butlast joined @ [continue_word (last joined) w]) ws
      else join_words (joined @ [w\<lparr>mw_text := trim (mw_text w)\<rparr>]) ws)"

definition matches_at :: "str list \<Rightarrow> str list \<Rightarrow> nat \<Rightarrow> bool" where
  "matches_at stream target start \<longleftrightarrow>
     list_all2 eq_ignore_ascii_case (take (length target) (drop start stream)) target"

definition find_occurrences :: "TextMap \<Rightarrow> str \<Rightarrow> BoundingRect list list" where
  "find_occurrences m quote =
     (let target = split_whitespace (normalized quote); joined = join_words [] (tm_words m) in
      if normalized quote = [] \<or> target = [] then []
      else map (\<lambda>start. map mw_rect (take (length target) (drop start joined)))
        (filter (matches_at (map mw_text joined) target) [0..<Suc (length joined) - length target]))"

definition build_page_citation ::
  "hash \<Rightarrow> TextMap \<Rightarrow> str \<Rightarrow> nat \<Rightarrow> 32 word \<times> 32 word \<Rightarrow> f64 option \<Rightarrow> str \<Rightarrow> GeometryError + PageCitation" where
  "build_page_citation sha m quote occurrence_index range_of ocr_confidence evidence_digest =
     (case validate_text_map m of Inl e \<Rightarrow> Inl e
      | Inr _ \<Rightarrow>
          if length (find_occurrences m quote) \<le> occurrence_index then Inl (QuoteNotFound (tm_page_number m) quote)
          else
            let rects = find_occurrences m quote ! occurrence_index; quote_digest = sha256_hex sha (as_bytes quote) in
            if rects = [] then Inl (QuoteMismatch (tm_page_number m))
            else (case validate_rects rects (tm_page_width m) (tm_page_height m) of Inl e \<Rightarrow> Inl e
              | Inr _ \<Rightarrow> Inr
                  \<lparr>pc_id = page_citation_id_for sha (tm_evidence_id m) quote_digest (tm_page_number m),
                   pc_evidence_id = tm_evidence_id m, pc_quote = quote, pc_quote_digest = quote_digest,
                   pc_page_number = tm_page_number m, pc_rects = rects,
                   pc_normalized_range = \<lparr>lr_start = fst range_of, lr_end = snd range_of\<rparr>,
                   pc_text_map_digest = tm_digest m, pc_evidence_digest = evidence_digest,
                   pc_ocr_confidence = ocr_confidence\<rparr>))"

text \<open>\<open>str::find\<close> gives a byte offset.\<close>

fun str_find :: "str \<Rightarrow> str \<Rightarrow> nat option" where
  "str_find [] p = (if p = [] then Some 0 else None)"
| "str_find (c # cs) p = (if starts_with (c # cs) p then Some 0 else map_option ((+) (length (utf8 c))) (str_find cs p))"

definition u32_of :: "nat \<Rightarrow> 32 word" where
  "u32_of n = (if n < 2 ^ 32 then of_nat n else - 1)"

definition normalized_range :: "TextMap \<Rightarrow> str \<Rightarrow> (32 word \<times> 32 word) option" where
  "normalized_range m quote =
     (case str_find (normalized (join [32] (map mw_text (tm_words m)))) (normalized quote) of
        None \<Rightarrow> None
      | Some start \<Rightarrow> Some (u32_of start, u32_of (start + length (normalized quote))))"

section \<open>pdfinfo\<close>

definition after_prefix :: "string \<Rightarrow> str \<Rightarrow> str option" where
  "after_prefix p line = (if starts_with line (lit p) then Some (drop (length p) line) else None)"

definition page_size_word :: "float_lib \<Rightarrow> nat \<Rightarrow> str \<Rightarrow> f64 option" where
  "page_size_word F i line =
     (case after_prefix ''Page size:'' line of None \<Rightarrow> None
      | Some v \<Rightarrow> Option.bind (field_at (split_whitespace v) i) (fl_parse F))"

definition parse_page_dimensions :: "float_lib \<Rightarrow> str \<Rightarrow> (f64 \<times> f64) option" where
  "parse_page_dimensions F info =
     (case first_some (page_size_word F 0) (lines info) of None \<Rightarrow> None
      | Some width \<Rightarrow> map_option (\<lambda>height. (width, height)) (first_some (page_size_word F 1) (lines info)))"

definition parse_page_rotation :: "str \<Rightarrow> int option" where
  "parse_page_rotation info =
     first_some (\<lambda>line. Option.bind (after_prefix ''Page rot:'' line) (\<lambda>v. parse_i32 (trim v))) (lines info)"

section \<open>Valid rectangles\<close>

text \<open>A rectangle inside the page, as numbers.\<close>

definition inside_page :: "f64 \<Rightarrow> f64 \<Rightarrow> BoundingRect \<Rightarrow> bool" where
  "inside_page width height r \<longleftrightarrow>
     list_all is_finite [rect_x_min r, rect_y_min r, rect_x_max r, rect_y_max r] \<and>
     0 \<le> f64_key (rect_x_min r) \<and> f64_key (rect_x_min r) < f64_key (rect_x_max r) \<and>
     0 \<le> f64_key (rect_y_min r) \<and> f64_key (rect_y_min r) < f64_key (rect_y_max r) \<and>
     \<not> f64_less width (rect_x_max r) \<and> \<not> f64_less height (rect_y_max r)"

lemma finite_not_nan: "is_finite x \<Longrightarrow> \<not> is_nan x"
  by (simp add: is_finite_def is_nan_def)

lemma zero_key: "\<not> is_nan 0" "f64_key 0 = 0"
  by (simp_all add: is_nan_def f64_key_def f64_magnitude_def f64_negative_def f64_infinity_def)

lemma validate_rect_iff: "validate_rect r width height = Inr () \<longleftrightarrow> inside_page width height r"
  by (auto simp: validate_rect_def inside_page_def f64_less_def f64_le_def finite_not_nan zero_key)

lemma validate_rects_iff: "validate_rects rs width height = Inr () \<longleftrightarrow> list_all (inside_page width height) rs"
  by (induction rs) (auto split: sum.split simp: validate_rect_iff, (metis validate_rect_iff sum.distinct(1) sum.sel)+)

section \<open>Occurrences\<close>

text \<open>The element at a position of a filtered range has that many matches before it.\<close>

lemma nth_filter_upt:
  assumes "k < length (filter P [0..<n])"
  shows "filter P [0..<n] ! k < n \<and> P (filter P [0..<n] ! k) \<and> card {i. i < filter P [0..<n] ! k \<and> P i} = k"
  using assms
proof (induction n)
  case (Suc n)
  show ?case
  proof (cases "k < length (filter P [0..<n])")
    case True
    then show ?thesis using Suc by (auto simp: nth_append less_SucI)
  next
    case False
    then have here: "P n" "k = length (filter P [0..<n])" using Suc.prems by (auto split: if_splits)
    have "card {i. i < n \<and> P i} = length (filter P [0..<n])"
      by (simp add: distinct_card [symmetric] conj_commute)
    then show ?thesis using here by (simp add: nth_append)
  qed
qed simp

lemma words_normalized [simp]: "split_whitespace (normalized s) = split_whitespace s"
  by (simp add: normalized_def split_whitespace_join all_words)

lemma normalized_Nil_iff: "normalized s = [] \<longleftrightarrow> split_whitespace s = []"
  using collapsed_Nil_iff [of s] by (simp add: normalized_def collapsed_def)

text \<open>The words of a page as the search sees them.\<close>

definition page_words :: "TextMap \<Rightarrow> MapWord list" where
  "page_words m = join_words [] (tm_words m)"

lemma matches_at_bound: "matches_at stream target start \<Longrightarrow> target \<noteq> [] \<Longrightarrow> start + length target \<le> length stream"
proof -
  assume m: "matches_at stream target start" "target \<noteq> []"
  have "length (take (length target) (drop start stream)) = length target"
    using m(1) list_all2_lengthD by (fastforce simp: matches_at_def simp del: length_take)
  then have "length target \<le> length stream - start" "0 < length target" using m(2) by auto
  then show ?thesis by linarith
qed

lemma find_occurrences_nth:
  assumes "k < length (find_occurrences m quote)"
  obtains start where "matches_at (map mw_text (page_words m)) (split_whitespace quote) start" "split_whitespace quote \<noteq> []"
    "card {i. i < start \<and> matches_at (map mw_text (page_words m)) (split_whitespace quote) i} = k"
    "find_occurrences m quote ! k = map mw_rect (take (length (split_whitespace quote)) (drop start (page_words m)))"
proof -
  let ?P = "matches_at (map mw_text (page_words m)) (split_whitespace quote)"
  let ?n = "Suc (length (page_words m)) - length (split_whitespace quote)"
  have quote: "split_whitespace quote \<noteq> []"
    using assms by (auto simp: find_occurrences_def Let_def normalized_Nil_iff split: if_splits)
  then have occ: "find_occurrences m quote =
      map (\<lambda>start. map mw_rect (take (length (split_whitespace quote)) (drop start (page_words m)))) (filter ?P [0..<?n])"
    by (simp add: find_occurrences_def Let_def normalized_Nil_iff page_words_def)
  then have k: "k < length (filter ?P [0..<?n])" using assms by simp
  show thesis by (rule that [of "filter ?P [0..<?n] ! k"]) (use nth_filter_upt [OF k] quote occ k in auto)
qed

text \<open>Without hyphens at the end the words of a page are its words.\<close>

lemma join_words_plain:
  "list_all (\<lambda>w. \<not> ends_with_hyphen (trim (mw_text w))) ws \<Longrightarrow> joined = [] \<or> \<not> ends_with_hyphen (mw_text (last joined)) \<Longrightarrow>
   join_words joined ws = joined @ map (\<lambda>w. w\<lparr>mw_text := trim (mw_text w)\<rparr>) (filter (\<lambda>w. trim (mw_text w) \<noteq> []) ws)"
  by (induction joined ws rule: join_words.induct) auto

section \<open>Properties\<close>

text \<open>
  C25: A page citation shows its quotation: its rectangles are those of consecutive words of the page that read
  like the words of the quotation, at the position with as many earlier ones as was asked for, and all
  of them lie inside the page.
\<close>

theorem page_citation_shows_quote:
  assumes "build_page_citation sha m quote k range_of conf evidence_digest = Inr c"
  shows "\<exists>start. card {i. i < start \<and> matches_at (map mw_text (page_words m)) (split_whitespace quote) i} = k \<and>
    list_all2 (\<lambda>w q. eq_ignore_ascii_case (mw_text w) q)
      (take (length (split_whitespace quote)) (drop start (page_words m))) (split_whitespace quote) \<and>
    pc_rects c = map mw_rect (take (length (split_whitespace quote)) (drop start (page_words m))) \<and> pc_rects c \<noteq> [] \<and>
    list_all (inside_page (tm_page_width m) (tm_page_height m)) (pc_rects c) \<and>
    pc_quote c = quote \<and> pc_quote_digest c = sha256_hex sha (as_bytes quote) \<and>
    pc_evidence_id c = tm_evidence_id m \<and> pc_page_number c = tm_page_number m"
proof -
  have k: "k < length (find_occurrences m quote)"
    and c: "pc_rects c = find_occurrences m quote ! k" "pc_rects c \<noteq> []"
      "validate_rects (pc_rects c) (tm_page_width m) (tm_page_height m) = Inr ()"
      "pc_quote c = quote" "pc_quote_digest c = sha256_hex sha (as_bytes quote)"
      "pc_evidence_id c = tm_evidence_id m" "pc_page_number c = tm_page_number m"
    using assms by (auto simp: build_page_citation_def Let_def split: sum.splits if_splits)
  obtain start where start: "matches_at (map mw_text (page_words m)) (split_whitespace quote) start"
    "card {i. i < start \<and> matches_at (map mw_text (page_words m)) (split_whitespace quote) i} = k"
    "find_occurrences m quote ! k = map mw_rect (take (length (split_whitespace quote)) (drop start (page_words m)))"
    using find_occurrences_nth [OF k] by metis
  have "list_all2 (\<lambda>w q. eq_ignore_ascii_case (mw_text w) q)
      (take (length (split_whitespace quote)) (drop start (page_words m))) (split_whitespace quote)"
    using start(1) by (simp add: matches_at_def drop_map take_map list_all2_map1)
  then show ?thesis using start(2,3) c by (auto simp: validate_rects_iff)
qed

section \<open>Where citations are not exact\<close>

text \<open>Two occurrences on one page are cited under one identifier, so the store keeps only the first.\<close>

lemma occurrences_share_an_id:
  assumes "build_page_citation sha m quote k r1 conf1 d1 = Inr c" "build_page_citation sha m quote l r2 conf2 d2 = Inr d"
  shows "pc_id c = pc_id d"
  using assms by (auto simp: build_page_citation_def Let_def split: sum.splits if_splits)

text \<open>The range starts at a byte and ends a number of characters later.\<close>

definition accented_map :: TextMap where
  "accented_map = \<lparr>tm_id = [], tm_evidence_id = [], tm_page_number = 1, tm_page_width = 0, tm_page_height = 0,
     tm_page_rotation = 0, tm_coordinate_system = [],
     tm_words = [\<lparr>mw_text = [233], mw_rect = zero_rect\<rparr>, \<lparr>mw_text = [97, 233], mw_rect = zero_rect\<rparr>],
     tm_extractor = [], tm_extractor_version = [], tm_digest = [], tm_source_digest = []\<rparr>"

lemma range_mixes_bytes_and_characters: "normalized_range accented_map [97, 233] = Some (3, 5)"
  by (simp add: normalized_range_def accented_map_def normalized_def split_whitespace_def is_ws_def utf8_def u32_of_def)

text \<open>A row of the table of another page number is left out, also on the only page of a single image.\<close>

lemma rows_of_other_pages_are_skipped:
  assumes "field_at (split_by (\<lambda>x. x = 9) line) (tc_page c) = Some page_num"
    and "or_value 1 (parse_i64 page_num) \<noteq> uint (ps_page_number spec)"
  shows "tsv_row F spec image_width image_height c line \<in> {RowSkip, RowPanic}"
  using assms by (auto simp: tsv_row_def Let_def split: option.split)

section \<open>Witnesses\<close>

definition unit_rect :: BoundingRect where
  "unit_rect = \<lparr>rect_x_min = 0, rect_y_min = 0, rect_x_max = 1, rect_y_max = 1\<rparr>"

definition sample_map :: TextMap where
  "sample_map = \<lparr>tm_id = [], tm_evidence_id = [], tm_page_number = 1, tm_page_width = 2, tm_page_height = 2,
     tm_page_rotation = 0, tm_coordinate_system = COORDINATE_SYSTEM,
     tm_words = [\<lparr>mw_text = [97], mw_rect = unit_rect\<rparr>, \<lparr>mw_text = [65], mw_rect = unit_rect\<rparr>],
     tm_extractor = [], tm_extractor_version = [], tm_digest = [], tm_source_digest = []\<rparr>"

lemma unit_rect_inside: "inside_page 2 2 unit_rect"
  by (simp add: inside_page_def unit_rect_def is_finite_def f64_key_def f64_negative_def f64_magnitude_def
      f64_infinity_def f64_less_def)

theorem page_citation_shows_quote_witness:
  "\<exists>c start. build_page_citation (\<lambda>b. b) sample_map [97] 1 (0, 0) None [] = Inr c \<and>
     card {i. i < start \<and> matches_at (map mw_text (page_words sample_map)) (split_whitespace [97]) i} = 1 \<and>
     list_all (inside_page 2 2) (pc_rects c)"
proof -
  have words: "page_words sample_map = [\<lparr>mw_text = [97], mw_rect = unit_rect\<rparr>, \<lparr>mw_text = [65], mw_rect = unit_rect\<rparr>]"
    by (simp add: page_words_def sample_map_def trim_by_def trim_start_by_def trim_end_by_def is_ws_def ends_with_hyphen_def)
  have quote: "split_whitespace [97] = [[97]]" by (simp add: split_whitespace_def is_ws_def)
  have occ: "find_occurrences sample_map [97] = [[unit_rect], [unit_rect]]"
    by (simp add: find_occurrences_def Let_def normalized_Nil_iff quote words [unfolded page_words_def] matches_at_def
        eq_ignore_ascii_case_def to_lower_def is_upper_def upt_rec)
  have "validate_text_map sample_map = Inr ()"
    unfolding validate_text_map_def validate_rects_iff by (simp add: sample_map_def unit_rect_inside)
  moreover have "validate_rects [unit_rect] (tm_page_width sample_map) (tm_page_height sample_map) = Inr ()"
    unfolding validate_rects_iff by (simp add: sample_map_def unit_rect_inside)
  ultimately obtain c where c: "build_page_citation (\<lambda>b. b) sample_map [97] 1 (0, 0) None [] = Inr c"
    using occ by (auto simp: build_page_citation_def Let_def)
  have "tm_page_width sample_map = 2" "tm_page_height sample_map = 2" by (simp_all add: sample_map_def)
  with page_citation_shows_quote [OF c] c show ?thesis by auto
qed

end
