(* ===== verification/Legistar.thy ===== *)
theory Legistar
  imports Ops Budget Fetch Geometry
begin

text \<open>
  The Legistar interface of \<open>pnull-ingest/src/lib.rs\<close>: the text extracted from its JSON, the matters and
  atts found in an event, and the bounded pagination over event pages.  The JSON parser and the
  crate \<open>url\<close> are arguments.
\<close>

section \<open>JSON values\<close>

text \<open>
  \<open>serde_json::Value\<close>.  Of a number only \<open>as_u64\<close> is read; the keys of an object are unique.
\<close>

datatype json =
  JNull
| JBool bool
| JNumber "64 word option"
| JString str
| JArray "json list"
| JObject "(str \<times> json) list"

type_synonym json_parser = "bytes \<Rightarrow> str + json"

fun json_get :: "json \<Rightarrow> str \<Rightarrow> json option" where
  "json_get (JObject members) key = map_of members key"
| "json_get v key = None"

fun as_str :: "json \<Rightarrow> str option" where
  "as_str (JString s) = Some s"
| "as_str v = None"

fun as_u64 :: "json \<Rightarrow> 64 word option" where
  "as_u64 (JNumber n) = n"
| "as_u64 v = None"

fun as_array :: "json \<Rightarrow> json list option" where
  "as_array (JArray vs) = Some vs"
| "as_array v = None"

definition get_str :: "json \<Rightarrow> str \<Rightarrow> str option" where
  "get_str v key = Option.bind (json_get v key) as_str"

definition get_array :: "json \<Rightarrow> str \<Rightarrow> json list option" where
  "get_array v key = Option.bind (json_get v key) as_array"

definition str_or_default :: "str option \<Rightarrow> str" where
  "str_or_default x = (case x of None \<Rightarrow> [] | Some s \<Rightarrow> s)"

section \<open>Errors\<close>

text \<open>An extraction fails with a code and a message.\<close>

type_synonym extract_error = "str \<times> str"

datatype IngestError =
  Metadata str
| Oversized nat nat
| Network
| InsecureUrl
| SandboxUnavailable
| Budget BudgetError
| Core CoreError
| Io
| Geometry GeometryError
| Http HttpError

definition lift_op :: "'e + 'a \<Rightarrow> ('e, 'a) op" where
  "lift_op x = read_op (\<lambda>_. x)"

section \<open>The text of Legistar records\<close>

text \<open>\<open>str::replace\<close>: leftmost occurrences, not overlapping; the patterns here are not empty.\<close>

function replace_str :: "str \<Rightarrow> str \<Rightarrow> str \<Rightarrow> str" where
  "replace_str pattern replacement [] = []"
| "replace_str pattern replacement (c # s) =
     (if pattern \<noteq> [] \<and> starts_with (c # s) pattern
      then replacement @ replace_str pattern replacement (drop (length pattern) (c # s))
      else c # replace_str pattern replacement s)"
  by pat_completeness auto
termination by (relation "measure (\<lambda>(_, _, s). length s)") auto

text \<open>\<open>regex_replace\<close> is \<open>Regex::replace_all\<close> on a pattern, a text and a replacement.\<close>

type_synonym regex_replace = "str \<Rightarrow> str \<Rightarrow> str \<Rightarrow> str"

definition strip_rtf :: "regex_replace \<Rightarrow> str \<Rightarrow> str" where
  "strip_rtf replace_all s =
     (let escaped = replace_str ([92] @ lit ''&'') (lit ''&'')
            (replace_str ([92] @ lit ''rquote'') [39] (replace_str ([92] @ lit ''par'') [10] s));
          without_hex = replace_all ([92, 92, 39] @ lit ''[0-9a-fA-F]{2}'') escaped [32] in
      map (\<lambda>c. if c = 123 \<or> c = 125 then 32 else c)
        (replace_all ([92, 92] @ lit ''[a-zA-Z]+-?'' @ [92] @ lit ''d* ?'') without_hex [32]))"

definition json_field :: "json \<Rightarrow> string \<Rightarrow> string \<Rightarrow> str list" where
  "json_field v key label =
     (case get_str v (lit key) of None \<Rightarrow> [] | Some content \<Rightarrow> [lit label @ lit '': '' @ content])"

definition extract_matter :: "json \<Rightarrow> str list" where
  "extract_matter v =
     json_field v ''MatterFile'' ''Matter file'' @ json_field v ''MatterTitle'' ''Title'' @
     json_field v ''MatterTypeName'' ''Matter type'' @ json_field v ''MatterStatusName'' ''Status'' @
     json_field v ''MatterIntroDate'' ''Introduced'' @ json_field v ''MatterPassedDate'' ''Passed'' @
     json_field v ''MatterEnactmentNumber'' ''Enactment number'' @
     json_field v ''MatterEnactmentDate'' ''Enactment date'' @ json_field v ''MatterRequester'' ''Requester''"

definition event_item_lines :: "regex_replace \<Rightarrow> json \<Rightarrow> str list" where
  "event_item_lines replace_all item =
     json_field item ''EventItemMatterFile'' ''Matter file'' @ json_field item ''EventItemTitle'' ''Title'' @
     json_field item ''EventItemActionName'' ''Action'' @ json_field item ''EventItemActionText'' ''Vote record'' @
     (case get_str item (lit ''EventItemMinutesNote'') of
        None \<Rightarrow> [] | Some notes \<Rightarrow> [lit ''Minutes: '' @ strip_rtf replace_all notes])"

definition extract_event :: "regex_replace \<Rightarrow> json \<Rightarrow> extract_error + str list" where
  "extract_event replace_all event =
     (case get_array event (lit ''EventItems'') of
        None \<Rightarrow> Inl (lit ''unsupported_json_shape'', lit ''a Legistar event did not include expanded EventItems'')
      | Some items \<Rightarrow>
          Inr (json_field event ''EventDate'' ''Meeting date'' @
            json_field event ''EventAgendaStatusName'' ''Agenda status'' @
            concat (map (event_item_lines replace_all) items)))"

fun extract_events :: "regex_replace \<Rightarrow> json list \<Rightarrow> extract_error + str list" where
  "extract_events replace_all [] = Inr []"
| "extract_events replace_all (e # es) =
     (case extract_event replace_all e of
        Inl err \<Rightarrow> Inl err
      | Inr ls \<Rightarrow> (case extract_events replace_all es of Inl err \<Rightarrow> Inl err | Inr ms \<Rightarrow> Inr (ls @ ms)))"

definition json_lines :: "regex_replace \<Rightarrow> json \<Rightarrow> extract_error + str list" where
  "json_lines replace_all v =
     (case v of
        JArray events \<Rightarrow> extract_events replace_all events
      | JObject _ \<Rightarrow>
          if json_get v (lit ''MatterId'') \<noteq> None then Inr (extract_matter v) else extract_event replace_all v
      | _ \<Rightarrow> Inl (lit ''unsupported_json_shape'',
               lit ''expected a Legistar event collection, event, or matter-text response''))"

text \<open>The text and the name of the method.\<close>

definition extract_legistar_json :: "json_parser \<Rightarrow> regex_replace \<Rightarrow> bytes \<Rightarrow> extract_error + str \<times> str" where
  "extract_legistar_json parse replace_all content =
     (case parse content of
        Inl _ \<Rightarrow> Inl (lit ''malformed_json'', lit ''source JSON could not be parsed'')
      | Inr v \<Rightarrow>
          (case get_str v (lit ''MatterTextPlain'') of
             Some plain \<Rightarrow> Inr (normalize_text plain, lit ''legistar_matter_text_json'')
           | None \<Rightarrow>
               (case json_lines replace_all v of
                  Inl e \<Rightarrow> Inl e
                | Inr ls \<Rightarrow> Inr (normalize_text (join [10] ls), lit ''legistar_matter_json''))))"

section \<open>Matters and attachments of an event\<close>

definition item_matter_file :: "json \<Rightarrow> str" where
  "item_matter_file item = str_or_default (get_str item (lit ''EventItemMatterFile''))"

definition matter_of_item :: "str \<Rightarrow> str \<Rightarrow> json \<Rightarrow> Matter" where
  "matter_of_item source_id base_url item =
     \<lparr>mat_id = source_id @ lit '':'' @ item_matter_file item, mat_source_id = source_id,
      mat_official_matter_id = item_matter_file item,
      mat_title = str_or_default (get_str item (lit ''EventItemTitle'')),
      mat_status = str_or_default (get_str item (lit ''EventItemActionName'')),
      mat_url = base_url @ lit ''/Matters/'' @ item_matter_file item,
      mat_document_role = DocumentRole.Agenda\<rparr>"

text \<open>Identifiers of attachments are read as strings only, unlike those of events.\<close>

definition attachment_id_of :: "json \<Rightarrow> str" where
  "attachment_id_of f =
     str_or_default (case get_str f (lit ''MatterAttachmentId'') of
        Some i \<Rightarrow> Some i | None \<Rightarrow> get_str f (lit ''EventItemAttachmentId''))"

definition attachment_of_file :: "'u url_lib \<Rightarrow> str \<Rightarrow> json \<Rightarrow> MatterAttachment option" where
  "attachment_of_file L matter_id f =
     (case url_parse L (str_or_default (get_str f (lit ''Hyperlink''))) of
        Inl _ \<Rightarrow> None
      | Inr url \<Rightarrow>
          if url_scheme L url = lit ''https''
          then Some \<lparr>att_id = matter_id @ lit '':'' @ attachment_id_of f, att_matter_id = matter_id,
                 att_official_id = attachment_id_of f,
                 att_name = str_or_default (get_str f (lit ''MatterAttachmentName'')),
                 att_url = url_to_string L url, att_evidence_id = None\<rparr>
          else None)"

definition attachments_of_item :: "'u url_lib \<Rightarrow> str \<Rightarrow> json \<Rightarrow> MatterAttachment list" where
  "attachments_of_item L matter_id item =
     (case get_array item (lit ''EventItemAttachments'') of
        None \<Rightarrow> [] | Some files \<Rightarrow> List.map_filter (attachment_of_file L matter_id) files)"

definition named_items :: "json \<Rightarrow> json list" where
  "named_items event =
     (case get_array event (lit ''EventItems'') of
        None \<Rightarrow> [] | Some items \<Rightarrow> filter (\<lambda>item. trim (item_matter_file item) \<noteq> []) items)"

definition discover_matters_from_event ::
  "'u url_lib \<Rightarrow> json \<Rightarrow> str \<Rightarrow> str \<Rightarrow> Matter list \<times> MatterAttachment list" where
  "discover_matters_from_event L event source_id base_url =
     (map (matter_of_item source_id base_url) (named_items event),
      concat (map (\<lambda>item. attachments_of_item L (source_id @ lit '':'' @ item_matter_file item) item) (named_items event)))"

section \<open>Pagination\<close>

record LegistarPagination =
  lp_page_size :: "32 word"
  lp_max_pages :: "32 word"
  lp_max_events :: "32 word"
  lp_max_matters :: "32 word"
  lp_max_attachments_per_matter :: "32 word"

definition default_pagination :: LegistarPagination where
  "default_pagination = \<lparr>lp_page_size = 100, lp_max_pages = 50, lp_max_events = 2000, lp_max_matters = 500,
     lp_max_attachments_per_matter = 50\<rparr>"

record PaginateEventOutcome =
  pag_events :: "json list"
  pag_matters :: "Matter list"
  pag_attachments :: "MatterAttachment list"
  pag_pages_fetched :: nat
  pag_stopped_reason :: str

definition event_id :: "json \<Rightarrow> str option" where
  "event_id event =
     (case Option.bind (json_get event (lit ''EventId'')) as_u64 of
        Some n \<Rightarrow> Some (show_nat (unat n))
      | None \<Rightarrow> get_str event (lit ''EventId''))"

text \<open>What has been collected, with the two sets of identifiers seen.\<close>

record collected =
  col_events :: "json list"
  col_matters :: "Matter list"
  col_attachments :: "MatterAttachment list"
  col_seen_events :: "str list"
  col_seen_matters :: "str list"

definition nothing_collected :: collected where
  "nothing_collected = \<lparr>col_events = [], col_matters = [], col_attachments = [], col_seen_events = [], col_seen_matters = []\<rparr>"

fun add_matters :: "Matter list \<Rightarrow> collected \<Rightarrow> collected" where
  "add_matters [] c = c"
| "add_matters (m # ms) c =
     add_matters ms
       (if mat_official_matter_id m \<in> set (col_seen_matters c) then c
        else c\<lparr>col_matters := col_matters c @ [m], col_seen_matters := mat_official_matter_id m # col_seen_matters c\<rparr>)"

definition collect_event ::
  "'u url_lib \<Rightarrow> LegistarPagination \<Rightarrow> str \<Rightarrow> str \<Rightarrow> str \<Rightarrow> json \<Rightarrow> collected \<Rightarrow> collected" where
  "collect_event L p source_id base_url i event c =
     (let (ms, atts) = discover_matters_from_event L event source_id base_url;
          c' = add_matters ms (c\<lparr>col_events := col_events c @ [event], col_seen_events := i # col_seen_events c\<rparr>) in
      c'\<lparr>col_attachments := col_attachments c' @ take (unat (lp_max_attachments_per_matter p)) atts\<rparr>)"

text \<open>How the loop over the events of a page ends: at a limit, or with the identifiers and the number of new events.\<close>

datatype page_end = Limit str collected | PageDone "str list" nat collected

fun page_loop ::
  "'u url_lib \<Rightarrow> LegistarPagination \<Rightarrow> str \<Rightarrow> str \<Rightarrow> json list \<Rightarrow> str list \<Rightarrow> nat \<Rightarrow> collected \<Rightarrow> IngestError + page_end" where
  "page_loop L p source_id base_url [] ids fresh c = Inr (PageDone ids fresh c)"
| "page_loop L p source_id base_url (event # events) ids fresh c =
     (case event_id event of
        None \<Rightarrow> Inl (Metadata (lit ''event missing a valid official EventId''))
      | Some i \<Rightarrow>
          if i \<in> set (col_seen_events c) then page_loop L p source_id base_url events (ids @ [i]) fresh c
          else
            let c' = collect_event L p source_id base_url i event c in
            if length (col_events c') \<ge> unat (lp_max_events p) then Inr (Limit (lit ''max events'') c')
            else if length (col_matters c') \<ge> unat (lp_max_matters p) then Inr (Limit (lit ''max matters'') c')
            else page_loop L p source_id base_url events (ids @ [i]) (Suc fresh) c')"

definition outcome_of :: "collected \<Rightarrow> nat \<Rightarrow> str \<Rightarrow> PaginateEventOutcome" where
  "outcome_of c pages reason =
     \<lparr>pag_events = col_events c, pag_matters = col_matters c, pag_attachments = col_attachments c,
      pag_pages_fetched = pages, pag_stopped_reason = reason\<rparr>"

definition charge_op :: "(BudgetError + unit) \<times> JobBudgetTracker \<Rightarrow> (IngestError, JobBudgetTracker) op" where
  "charge_op x = lift_op (case x of (Inl e, _) \<Rightarrow> Inl (Budget e) | (Inr _, t) \<Rightarrow> Inr t)"

definition page_events :: "json_parser \<Rightarrow> bytes \<Rightarrow> IngestError + json list" where
  "page_events parse body =
     (case parse body of
        Inl e \<Rightarrow> Inl (Metadata (lit ''page is not valid Legistar JSON: '' @ e))
      | Inr v \<Rightarrow> (case as_array v of
            None \<Rightarrow> Inl (Metadata (lit ''Legistar page must be a JSON array'')) | Some events \<Rightarrow> Inr events))"

text \<open>
  The loop over the pages; \<open>n\<close> counts the rounds left of \<open>0..max_pages\<close>.  The number of pages stays below
  two to the thirty-two with it.  \<open>fetch_page\<close> may read and write the store.
\<close>

fun pages_loop ::
  "'u url_lib \<Rightarrow> json_parser \<Rightarrow> LegistarPagination \<Rightarrow> (32 word \<Rightarrow> (IngestError, bytes) op) \<Rightarrow> str \<Rightarrow> str \<Rightarrow>
   nat \<Rightarrow> 32 word \<Rightarrow> str list \<Rightarrow> nat \<Rightarrow> collected \<Rightarrow> JobBudgetTracker \<Rightarrow> (IngestError, PaginateEventOutcome \<times> JobBudgetTracker) op" where
  "pages_loop L parse p fetch_page source_id base_url 0 offset previous_ids pages c t =
     return_op (outcome_of c pages (lit ''max pages''), t)"
| "pages_loop L parse p fetch_page source_id base_url (Suc n) offset previous_ids pages c t =
     bind_op (fetch_page offset) (\<lambda>body.
     bind_op (charge_op (add_downloaded_bytes (of_nat (length body)) t)) (\<lambda>t'.
     bind_op (lift_op (page_events parse body)) (\<lambda>events.
     bind_op (lift_op (page_loop L p source_id base_url events [] 0 c)) (\<lambda>e.
       case e of
         Limit reason c' \<Rightarrow> return_op (outcome_of c' (Suc pages) reason, t')
       | PageDone ids fresh c' \<Rightarrow>
           if fresh = 0 then return_op (outcome_of c' (Suc pages) (lit ''non-progressing page''), t')
           else if ids = previous_ids then return_op (outcome_of c' (Suc pages) (lit ''repeated page''), t')
           else pages_loop L parse p fetch_page source_id base_url n (saturating_add offset (lp_page_size p)) ids
                  (Suc pages) c' t'))))"

definition paginate_events ::
  "'u url_lib \<Rightarrow> json_parser \<Rightarrow> LegistarPagination \<Rightarrow> JobBudgetTracker \<Rightarrow> (32 word \<Rightarrow> (IngestError, bytes) op) \<Rightarrow>
   str \<Rightarrow> str \<Rightarrow> (IngestError, PaginateEventOutcome \<times> JobBudgetTracker) op" where
  "paginate_events L parse p budgets fetch_page source_id base_url =
     (if lp_page_size p = 0 \<or> lp_max_pages p = 0
      then fail_op (Metadata (lit ''page size and maximum pages must be positive''))
      else pages_loop L parse p fetch_page source_id base_url (unat (lp_max_pages p)) 0 [] 0 nothing_collected budgets)"

section \<open>What has been collected\<close>

text \<open>
  The events are told apart by their identifiers, the matters by theirs; the matters are those of the
  events, and every attachment belongs to one of them.
\<close>

definition matter_files :: "json list \<Rightarrow> str set" where
  "matter_files events = (\<Union>e \<in> set events. item_matter_file ` set (named_items e))"

definition well_collected :: "str \<Rightarrow> str \<Rightarrow> collected \<Rightarrow> bool" where
  "well_collected source_id base_url c \<longleftrightarrow>
     map event_id (col_events c) = map Some (rev (col_seen_events c)) \<and> distinct (col_seen_events c) \<and>
     map mat_official_matter_id (col_matters c) = rev (col_seen_matters c) \<and> distinct (col_seen_matters c) \<and>
     set (col_seen_matters c) = matter_files (col_events c) \<and>
     (\<forall>m \<in> set (col_matters c). \<exists>e \<in> set (col_events c). \<exists>item \<in> set (named_items e).
        m = matter_of_item source_id base_url item) \<and>
     (\<forall>a \<in> set (col_attachments c). att_matter_id a \<in> mat_id ` set (col_matters c))"

lemma nothing_well_collected: "well_collected source_id base_url nothing_collected"
  by (simp add: well_collected_def nothing_collected_def matter_files_def)

lemma add_matters_keeps:
  "col_events (add_matters ms c) = col_events c" "col_seen_events (add_matters ms c) = col_seen_events c"
  "col_attachments (add_matters ms c) = col_attachments c"
  by (induction ms arbitrary: c) simp_all

lemma add_matters_seen: "set (col_seen_matters (add_matters ms c)) = set (col_seen_matters c) \<union> mat_official_matter_id ` set ms"
  by (induction ms arbitrary: c) auto

lemma add_matters_list:
  "map mat_official_matter_id (col_matters c) = rev (col_seen_matters c) \<Longrightarrow> distinct (col_seen_matters c) \<Longrightarrow>
   map mat_official_matter_id (col_matters (add_matters ms c)) = rev (col_seen_matters (add_matters ms c)) \<and>
   distinct (col_seen_matters (add_matters ms c))"
  by (induction ms arbitrary: c) simp_all

lemma add_matters_set:
  "set (col_matters c) \<subseteq> set (col_matters (add_matters ms c)) \<and>
   set (col_matters (add_matters ms c)) \<subseteq> set (col_matters c) \<union> set ms"
proof (induction ms c rule: add_matters.induct)
  case (2 m ms c)
  then show ?case by (cases "mat_official_matter_id m \<in> set (col_seen_matters c)") auto
qed simp

lemma attachment_matter_id:
  assumes "a \<in> set (attachments_of_item L matter_id item)"
  shows "att_matter_id a = matter_id"
proof -
  have "attachment_of_file L matter_id f = Some a \<Longrightarrow> att_matter_id a = matter_id" for f
    by (auto simp: attachment_of_file_def split: sum.splits if_splits)
  then show ?thesis
    using assms by (auto simp: attachments_of_item_def set_map_filter split: option.splits)
qed

lemma discovered:
  assumes "discover_matters_from_event L event source_id base_url = (ms, atts)"
  shows "ms = map (matter_of_item source_id base_url) (named_items event)"
    "a \<in> set atts \<Longrightarrow> \<exists>item \<in> set (named_items event). att_matter_id a = source_id @ lit '':'' @ item_matter_file item"
  using assms by (auto simp: discover_matters_from_event_def dest!: attachment_matter_id)

lemma same_file_same_id:
  "m = matter_of_item source_id base_url item \<Longrightarrow>
     mat_id m = source_id @ lit '':'' @ item_matter_file item \<and> mat_official_matter_id m = item_matter_file item"
  by (simp add: matter_of_item_def)

lemma collect_event_parts:
  assumes "collect_event L p source_id base_url i event c = c'"
  obtains ms atts c1 where "discover_matters_from_event L event source_id base_url = (ms, atts)"
    "c1 = add_matters ms (c\<lparr>col_events := col_events c @ [event], col_seen_events := i # col_seen_events c\<rparr>)"
    "c' = c1\<lparr>col_attachments := col_attachments c @ take (unat (lp_max_attachments_per_matter p)) atts\<rparr>"
  using assms by (auto simp: collect_event_def Let_def add_matters_keeps split: prod.splits)

lemma collect_event_well:
  assumes inv: "well_collected source_id base_url c" and i: "event_id event = Some i" "i \<notin> set (col_seen_events c)"
  shows "well_collected source_id base_url (collect_event L p source_id base_url i event c)"
proof -
  obtain ms atts c1 where d: "discover_matters_from_event L event source_id base_url = (ms, atts)"
    and c1: "c1 = add_matters ms (c\<lparr>col_events := col_events c @ [event], col_seen_events := i # col_seen_events c\<rparr>)"
    and c': "collect_event L p source_id base_url i event c =
      c1\<lparr>col_attachments := col_attachments c @ take (unat (lp_max_attachments_per_matter p)) atts\<rparr>"
    by (rule collect_event_parts [OF refl])
  let ?c0 = "c\<lparr>col_events := col_events c @ [event], col_seen_events := i # col_seen_events c\<rparr>"
  have ms: "ms = map (matter_of_item source_id base_url) (named_items event)" by (rule discovered(1) [OF d])
  have seen: "set (col_seen_matters c1) = matter_files (col_events c1)"
    using inv by (auto simp: c1 add_matters_seen add_matters_keeps well_collected_def matter_files_def ms image_iff
        matter_of_item_def)
  have listed: "map mat_official_matter_id (col_matters c1) = rev (col_seen_matters c1) \<and> distinct (col_seen_matters c1)"
    using add_matters_list [of ?c0 ms] inv by (simp add: c1 well_collected_def)
  have origin: "\<exists>e \<in> set (col_events c1). \<exists>item \<in> set (named_items e). m = matter_of_item source_id base_url item"
    if "m \<in> set (col_matters c1)" for m
    using that add_matters_set [of ?c0 ms] inv by (auto simp: c1 add_matters_keeps well_collected_def ms)
  have owner: "att_matter_id a \<in> mat_id ` set (col_matters c1)"
    if a: "a \<in> set (col_attachments c) \<union> set atts" for a
  proof (cases "a \<in> set (col_attachments c)")
    case True
    then have "att_matter_id a \<in> mat_id ` set (col_matters c)" using inv by (simp add: well_collected_def)
    moreover have "set (col_matters c) \<subseteq> set (col_matters c1)" using add_matters_set [of ?c0 ms] by (simp add: c1)
    ultimately show ?thesis by blast
  next
    case False
    then obtain item where item: "item \<in> set (named_items event)" "att_matter_id a = source_id @ lit '':'' @ item_matter_file item"
      using a discovered(2) [OF d] by blast
    have "item_matter_file item \<in> set (col_seen_matters c1)"
      using item(1) unfolding seen by (auto simp: matter_files_def c1 add_matters_keeps)
    then obtain m where m: "m \<in> set (col_matters c1)" "mat_official_matter_id m = item_matter_file item"
      using listed by (metis (no_types, opaque_lifting) image_iff list.set_map set_rev)
    then have "mat_id m = att_matter_id a" using origin [OF m(1)] item(2) by (auto simp: matter_of_item_def)
    then show ?thesis using m(1) by force
  qed
  show ?thesis
    using inv i seen listed origin owner set_take_subset [of "unat (lp_max_attachments_per_matter p)" atts]
    by (auto simp: c' well_collected_def) (auto simp: c1 add_matters_keeps)
qed

section \<open>Pages\<close>

text \<open>The events of a page with an identifier not seen before, first occurrences only.\<close>

fun new_events :: "str list \<Rightarrow> json list \<Rightarrow> json list" where
  "new_events seen [] = []"
| "new_events seen (e # es) =
     (case event_id e of
        None \<Rightarrow> new_events seen es
      | Some i \<Rightarrow> if i \<in> set seen then new_events seen es else e # new_events (i # seen) es)"

fun page_result :: "page_end \<Rightarrow> collected" where
  "page_result (Limit reason c) = c"
| "page_result (PageDone ids fresh c) = c"

lemma collect_event_events:
  "col_events (collect_event L p source_id base_url i event c) = col_events c @ [event]"
  "col_seen_events (collect_event L p source_id base_url i event c) = i # col_seen_events c"
  by (auto simp: collect_event_def Let_def add_matters_keeps split: prod.split)

lemma page_loop_well:
  assumes "page_loop L p source_id base_url events ids fresh c = Inr e" "well_collected source_id base_url c"
  shows "well_collected source_id base_url (page_result e)"
  using assms
proof (induction L p source_id base_url events ids fresh c rule: page_loop.induct)
  case (2 L p source_id base_url event events ids fresh c)
  obtain i where i: "event_id event = Some i" using 2(3) by (auto split: option.splits)
  show ?case
  proof (cases "i \<in> set (col_seen_events c)")
    case True
    then show ?thesis using 2(1) [OF i] 2(3,4) i by simp
  next
    case False
    have "well_collected source_id base_url (collect_event L p source_id base_url i event c)"
      using collect_event_well [OF 2(4) i False] .
    then show ?thesis using 2(2) [OF i False refl] 2(3) i False by (auto simp: Let_def split: if_splits)
  qed
qed auto

text \<open>A page that reaches no limit adds its new events, in order, and counts them.\<close>

lemma page_loop_done:
  assumes "page_loop L p source_id base_url events ids fresh c = Inr (PageDone ids' fresh' c')"
  shows "ids' = ids @ map (the \<circ> event_id) events \<and> (\<forall>e \<in> set events. event_id e \<noteq> None) \<and>
    col_events c' = col_events c @ new_events (col_seen_events c) events \<and>
    fresh' = fresh + length (new_events (col_seen_events c) events) \<and>
    set (col_seen_events c') = set (col_seen_events c) \<union> (the \<circ> event_id) ` set events"
  using assms
proof (induction L p source_id base_url events ids fresh c rule: page_loop.induct)
  case (2 L p source_id base_url event events ids fresh c)
  obtain i where i: "event_id event = Some i" using 2(3) by (auto split: option.splits)
  show ?case
  proof (cases "i \<in> set (col_seen_events c)")
    case True
    then show ?thesis using 2(1) [OF i] 2(3) i by auto
  next
    case False
    then show ?thesis
      using 2(2) [OF i False refl] 2(3) i by (auto simp: Let_def collect_event_events split: if_splits)
  qed
qed auto

text \<open>The limit on the events.\<close>

lemma page_loop_bound:
  assumes "page_loop L p source_id base_url events ids fresh c = Inr e"
    and "length (col_events c) < max 1 (unat (lp_max_events p))"
  shows "length (col_events (page_result e)) \<le> max 1 (unat (lp_max_events p)) \<and>
    (\<forall>ids fresh c'. e = PageDone ids fresh c' \<longrightarrow> length (col_events c') < max 1 (unat (lp_max_events p)))"
  using assms
proof (induction L p source_id base_url events ids fresh c rule: page_loop.induct)
  case (2 L p source_id base_url event events ids fresh c)
  obtain i where i: "event_id event = Some i" using 2(3) by (auto split: option.splits)
  show ?case
  proof (cases "i \<in> set (col_seen_events c)")
    case True
    then show ?thesis using 2(1) [OF i] 2(3,4) i by simp
  next
    case False
    then show ?thesis
      using 2(2) [OF i False refl] 2(3,4) i by (auto simp: Let_def collect_event_events split: if_splits)
  qed
qed auto

lemma no_new_events: "(\<forall>e \<in> set es. \<exists>i \<in> set seen. event_id e = Some i) \<Longrightarrow> new_events seen es = []"
  by (induction seen es rule: new_events.induct) auto

section \<open>Pagination\<close>

text \<open>The parts of a round that does not fail.\<close>

lemma charge_op_Inr: "charge_op x s = (Inr t, s') \<longleftrightarrow> s' = s \<and> (\<exists>u. x = (Inr u, t))"
  by (auto simp: charge_op_def lift_op_def read_op_def split: prod.splits sum.splits)

lemma lift_op_Inr: "lift_op x s = (Inr a, s') \<longleftrightarrow> s' = s \<and> x = Inr a"
  by (auto simp: lift_op_def read_op_def)

lemma pages_loop_round:
  assumes "pages_loop L parse p fetch_page source_id base_url (Suc n) offset previous_ids pages c t s = (Inr (out, t2), s2)"
  obtains body s1 t1 events e where "fetch_page offset s = (Inr body, s1)" "page_events parse body = Inr events"
    "page_loop L p source_id base_url events [] 0 c = Inr e"
    "(\<exists>reason c'. e = Limit reason c' \<and> out = outcome_of c' (Suc pages) reason) \<or>
     (\<exists>ids fresh c'. e = PageDone ids fresh c' \<and>
        (fresh = 0 \<and> out = outcome_of c' (Suc pages) (lit ''non-progressing page'') \<or>
         fresh \<noteq> 0 \<and> ids = previous_ids \<and> out = outcome_of c' (Suc pages) (lit ''repeated page'') \<or>
         fresh \<noteq> 0 \<and> ids \<noteq> previous_ids \<and>
           pages_loop L parse p fetch_page source_id base_url n (saturating_add offset (lp_page_size p)) ids (Suc pages) c' t1 s1
             = (Inr (out, t2), s2)))"
proof -
  from assms obtain body s1 t1 events e where parts: "fetch_page offset s = (Inr body, s1)"
    "page_events parse body = Inr events" "page_loop L p source_id base_url events [] 0 c = Inr e"
    and rest: "(case e of
         Limit reason c' \<Rightarrow> return_op (outcome_of c' (Suc pages) reason, t1)
       | PageDone ids fresh c' \<Rightarrow>
           if fresh = 0 then return_op (outcome_of c' (Suc pages) (lit ''non-progressing page''), t1)
           else if ids = previous_ids then return_op (outcome_of c' (Suc pages) (lit ''repeated page''), t1)
           else pages_loop L parse p fetch_page source_id base_url n (saturating_add offset (lp_page_size p)) ids
                  (Suc pages) c' t1) s1 = (Inr (out, t2), s2)"
    by (simp only: pages_loop.simps bind_op_Inr charge_op_Inr lift_op_Inr) blast
  from rest show thesis
    by (cases e; intro that [OF parts]) (auto simp: return_op_Inr split: if_splits)
qed

text \<open>
  What every outcome satisfies: the number of pages, distinct events, the limit on events, and matters and
  attachments that fit the events.
\<close>

definition outcome_ok :: "str \<Rightarrow> str \<Rightarrow> LegistarPagination \<Rightarrow> PaginateEventOutcome \<Rightarrow> bool" where
  "outcome_ok source_id base_url p out \<longleftrightarrow>
     (\<exists>c. out = outcome_of c (pag_pages_fetched out) (pag_stopped_reason out) \<and> well_collected source_id base_url c) \<and>
     length (pag_events out) \<le> max 1 (unat (lp_max_events p)) \<and>
     pag_pages_fetched out \<le> unat (lp_max_pages p)"

lemma pages_loop_ok:
  assumes "pages_loop L parse p fetch_page source_id base_url n offset previous_ids pages c t s = (Inr (out, t'), s')"
    and "well_collected source_id base_url c" "length (col_events c) < max 1 (unat (lp_max_events p))"
    and "pages + n \<le> unat (lp_max_pages p)"
  shows "outcome_ok source_id base_url p out"
  using assms
proof (induction n arbitrary: offset previous_ids pages c t s)
  case 0
  then show ?case by (auto simp: return_op_Inr outcome_ok_def outcome_of_def)
next
  case (Suc n)
  from Suc.prems(1) obtain body s1 t1 events e where
    e: "page_loop L p source_id base_url events [] 0 c = Inr e"
    and next_round: "(\<exists>reason c'. e = Limit reason c' \<and> out = outcome_of c' (Suc pages) reason) \<or>
     (\<exists>ids fresh c'. e = PageDone ids fresh c' \<and>
        (fresh = 0 \<and> out = outcome_of c' (Suc pages) (lit ''non-progressing page'') \<or>
         fresh \<noteq> 0 \<and> ids = previous_ids \<and> out = outcome_of c' (Suc pages) (lit ''repeated page'') \<or>
         fresh \<noteq> 0 \<and> ids \<noteq> previous_ids \<and>
           pages_loop L parse p fetch_page source_id base_url n (saturating_add offset (lp_page_size p)) ids (Suc pages) c' t1 s1
             = (Inr (out, t'), s')))"
    by (rule pages_loop_round)
  have well: "well_collected source_id base_url (page_result e)" using page_loop_well [OF e Suc.prems(2)] .
  note bound = page_loop_bound [OF e Suc.prems(3)]
  have here: "outcome_ok source_id base_url p (outcome_of (page_result e) (Suc pages) reason)" for reason
    using well bound Suc.prems(4) by (auto simp: outcome_ok_def outcome_of_def)
  from next_round show ?case
  proof (elim disjE exE conjE)
    fix ids fresh c'
    assume "e = PageDone ids fresh c'"
      "pages_loop L parse p fetch_page source_id base_url n (saturating_add offset (lp_page_size p)) ids (Suc pages) c' t1 s1
         = (Inr (out, t'), s')"
    then show ?thesis using Suc.IH [of "saturating_add offset (lp_page_size p)" ids "Suc pages" c' t1 s1] well bound Suc.prems(4)
      by simp
  qed (use here in force)+
qed

text \<open>Every event of a page already seen leaves nothing new: the check for a repeated page is never reached.\<close>

definition stop_reasons :: "str set" where
  "stop_reasons = {lit ''max pages'', lit ''max events'', lit ''max matters'', lit ''non-progressing page''}"

lemma page_loop_limit_reason:
  "page_loop L p source_id base_url events ids fresh c = Inr (Limit reason c') \<Longrightarrow>
   reason \<in> {lit ''max events'', lit ''max matters''}"
  by (induction L p source_id base_url events ids fresh c rule: page_loop.induct)
    (auto simp: Let_def split: option.splits if_splits)

lemma page_loop_limit: "page_loop L p source_id base_url events ids fresh c = Inr (Limit reason c') \<Longrightarrow> reason \<in> stop_reasons"
  by (induction L p source_id base_url events ids fresh c rule: page_loop.induct)
    (auto simp: Let_def stop_reasons_def split: option.splits if_splits)

lemma repeated_page_is_not_new:
  assumes "page_loop L p source_id base_url events [] 0 c = Inr (PageDone ids fresh c')" "set ids \<subseteq> set (col_seen_events c)"
  shows "fresh = 0"
proof -
  note fin = page_loop_done [OF assms(1)]
  have "\<forall>e \<in> set events. \<exists>i \<in> set (col_seen_events c). event_id e = Some i"
  proof
    fix e assume e: "e \<in> set events"
    then obtain i where i: "event_id e = Some i" using fin by blast
    then have "i \<in> set ids" using fin e by force
    then show "\<exists>i \<in> set (col_seen_events c). event_id e = Some i" using i assms(2) by blast
  qed
  then show ?thesis using fin no_new_events by simp
qed

lemma pages_loop_reason:
  assumes "pages_loop L parse p fetch_page source_id base_url n offset previous_ids pages c t s = (Inr (out, t'), s')"
    and "set previous_ids \<subseteq> set (col_seen_events c)"
  shows "pag_stopped_reason out \<in> stop_reasons \<and> (n > 0 \<longrightarrow> pag_pages_fetched out > pages)"
  using assms
proof (induction n arbitrary: offset previous_ids pages c t s)
  case 0
  then show ?case by (auto simp: return_op_Inr outcome_of_def stop_reasons_def)
next
  case (Suc n)
  from Suc.prems(1) obtain body s1 t1 events e where
    e: "page_loop L p source_id base_url events [] 0 c = Inr e"
    and next_round: "(\<exists>reason c'. e = Limit reason c' \<and> out = outcome_of c' (Suc pages) reason) \<or>
     (\<exists>ids fresh c'. e = PageDone ids fresh c' \<and>
        (fresh = 0 \<and> out = outcome_of c' (Suc pages) (lit ''non-progressing page'') \<or>
         fresh \<noteq> 0 \<and> ids = previous_ids \<and> out = outcome_of c' (Suc pages) (lit ''repeated page'') \<or>
         fresh \<noteq> 0 \<and> ids \<noteq> previous_ids \<and>
           pages_loop L parse p fetch_page source_id base_url n (saturating_add offset (lp_page_size p)) ids (Suc pages) c' t1 s1
             = (Inr (out, t'), s')))"
    by (rule pages_loop_round)
  from next_round show ?case
  proof (elim disjE exE conjE)
    fix reason c'
    assume "e = Limit reason c'" "out = outcome_of c' (Suc pages) reason"
    then show ?thesis using page_loop_limit e by (auto simp: outcome_of_def)
  next
    fix ids fresh c'
    assume "e = PageDone ids fresh c'" "out = outcome_of c' (Suc pages) (lit ''non-progressing page'')"
    then show ?thesis by (simp add: outcome_of_def stop_reasons_def)
  next
    fix ids fresh c'
    assume "e = PageDone ids fresh c'" "fresh \<noteq> 0" "ids = previous_ids"
    then show ?thesis using repeated_page_is_not_new [of L p source_id base_url events c ids fresh c'] e Suc.prems(2) by simp
  next
    fix ids fresh c'
    assume more: "e = PageDone ids fresh c'"
      "pages_loop L parse p fetch_page source_id base_url n (saturating_add offset (lp_page_size p)) ids (Suc pages) c' t1 s1
         = (Inr (out, t'), s')"
    have "ids = map (the \<circ> event_id) events"
      "set (col_seen_events c') = set (col_seen_events c) \<union> (the \<circ> event_id) ` set events"
      using page_loop_done [OF e [unfolded more(1)]] by simp_all
    then have "set ids \<subseteq> set (col_seen_events c')" by auto
    from Suc.IH [OF more(2) this] show ?thesis using more(2) by (cases n) (auto simp: return_op_Inr outcome_of_def)
  qed
qed

text \<open>Without a limit the events are the new ones of all pages fetched.\<close>

lemma new_events_append:
  "\<forall>e \<in> set xs. event_id e \<noteq> None \<Longrightarrow>
   new_events seen (xs @ ys) = new_events seen xs @ new_events (rev (map (the \<circ> event_id) xs) @ seen) ys"
  if cong: "\<And>s t. set s = set t \<Longrightarrow> new_events s ys = new_events t ys" for ys
proof (induction xs arbitrary: seen)
  case (Cons x xs)
  then obtain i where i: "event_id x = Some i" by auto
  show ?case
  proof (cases "i \<in> set seen")
    case True
    have "set (rev (map (the \<circ> event_id) xs) @ seen) = set (rev (map (the \<circ> event_id) (x # xs)) @ seen)"
      using i True by auto
    from cong [OF this] show ?thesis using Cons i True unfolding comp_def by simp
  next
    case False
    then show ?thesis using Cons i by simp
  qed
qed simp

lemma new_events_cong: "set s = set t \<Longrightarrow> new_events s ys = new_events t ys"
proof (induction s ys arbitrary: t rule: new_events.induct)
  case (2 seen e es)
  then show ?case by (cases "event_id e") auto
qed simp

fun page_offset :: "32 word \<Rightarrow> nat \<Rightarrow> 32 word" where
  "page_offset step 0 = 0"
| "page_offset step (Suc k) = saturating_add (page_offset step k) step"

lemma pages_loop_events:
  assumes "pages_loop L parse p (\<lambda>k s. (Inr (body k), s)) source_id base_url n offset previous_ids pages c t s = (Inr (out, t'), s')"
    and "\<And>k. page_events parse (body k) = Inr (page k)"
    and "pag_stopped_reason out \<in> {lit ''max pages'', lit ''non-progressing page''}"
    and "offset = page_offset (lp_page_size p) pages" "set previous_ids \<subseteq> set (col_seen_events c)"
    and "col_events c = new_events [] (concat (map (\<lambda>k. page (page_offset (lp_page_size p) k)) [0..<pages]))"
    and "set (col_seen_events c) = (the \<circ> event_id) ` (\<Union>k<pages. set (page (page_offset (lp_page_size p) k)))"
    and "\<forall>k<pages. \<forall>e \<in> set (page (page_offset (lp_page_size p) k)). event_id e \<noteq> None"
  shows "pag_events out = new_events [] (concat (map (\<lambda>k. page (page_offset (lp_page_size p) k)) [0..<pag_pages_fetched out])) \<and>
    (pag_stopped_reason out = lit ''max pages'' \<longrightarrow> pag_pages_fetched out = pages + n)"
  using assms(1,3-)
proof (induction n arbitrary: offset previous_ids pages c t s)
  case 0
  then show ?case by (auto simp: return_op_Inr outcome_of_def)
next
  case (Suc n)
  let ?all = "\<lambda>k. concat (map (\<lambda>k. page (page_offset (lp_page_size p) k)) [0..<k])"
  from Suc.prems(1) obtain body' s1 t1 events e where
    fetched: "(Inr (body offset), s) = (Inr body', s1)" "page_events parse body' = Inr events"
    and e: "page_loop L p source_id base_url events [] 0 c = Inr e"
    and next_round: "(\<exists>reason c'. e = Limit reason c' \<and> out = outcome_of c' (Suc pages) reason) \<or>
     (\<exists>ids fresh c'. e = PageDone ids fresh c' \<and>
        (fresh = 0 \<and> out = outcome_of c' (Suc pages) (lit ''non-progressing page'') \<or>
         fresh \<noteq> 0 \<and> ids = previous_ids \<and> out = outcome_of c' (Suc pages) (lit ''repeated page'') \<or>
         fresh \<noteq> 0 \<and> ids \<noteq> previous_ids \<and>
           pages_loop L parse p (\<lambda>k s. (Inr (body k), s)) source_id base_url n (saturating_add offset (lp_page_size p)) ids
             (Suc pages) c' t1 s1 = (Inr (out, t'), s')))"
    by (rule pages_loop_round) blast
  have events: "events = page (page_offset (lp_page_size p) pages)" using fetched assms(2) [of offset] Suc.prems(3) by auto
  have fin: "col_events c' = new_events [] (?all (Suc pages))"
      "set (col_seen_events c') = (the \<circ> event_id) ` (\<Union>k<Suc pages. set (page (page_offset (lp_page_size p) k)))"
      "set ids \<subseteq> set (col_seen_events c')"
      "\<forall>k<Suc pages. \<forall>e \<in> set (page (page_offset (lp_page_size p) k)). event_id e \<noteq> None"
    if "e = PageDone ids fresh c'" for ids fresh c'
  proof -
    note d = page_loop_done [OF e [unfolded that]]
    have ids_ok: "\<forall>k<Suc pages. \<forall>e \<in> set (page (page_offset (lp_page_size p) k)). event_id e \<noteq> None"
      using d Suc.prems(7) by (auto simp: events less_Suc_eq)
    have "set (rev (map (the \<circ> event_id) (?all pages)) @ []) = set (col_seen_events c)"
      by (simp add: Suc.prems(6) atLeast0LessThan image_UN)
    from new_events_cong [OF this] have "new_events [] (?all (Suc pages)) = col_events c @ new_events (col_seen_events c) events"
      using new_events_append [OF new_events_cong, of "?all pages" "[]" events] Suc.prems(5,7) by (auto simp: events)
    then show "col_events c' = new_events [] (?all (Suc pages))" using d by (simp add: events)
    show "set (col_seen_events c') = (the \<circ> event_id) ` (\<Union>k<Suc pages. set (page (page_offset (lp_page_size p) k)))"
      using d by (simp add: events Suc.prems(6) lessThan_Suc image_Un Un_commute)
    show "set ids \<subseteq> set (col_seen_events c')" using d by auto
    show "\<forall>k<Suc pages. \<forall>e \<in> set (page (page_offset (lp_page_size p) k)). event_id e \<noteq> None" by (rule ids_ok)
  qed
  from next_round show ?case
  proof (elim disjE exE conjE)
    fix reason c'
    assume "e = Limit reason c'" "out = outcome_of c' (Suc pages) reason"
    moreover from this have "reason \<in> {lit ''max events'', lit ''max matters''}"
      using e by (auto dest: page_loop_limit_reason)
    ultimately show ?thesis using Suc.prems(2) by (auto simp: outcome_of_def)
  next
    fix ids fresh c'
    assume "e = PageDone ids fresh c'" "out = outcome_of c' (Suc pages) (lit ''non-progressing page'')"
    then show ?thesis using fin by (simp add: outcome_of_def)
  next
    fix ids fresh c'
    assume "out = outcome_of c' (Suc pages) (lit ''repeated page'')"
    then show ?thesis using Suc.prems(2) by (simp add: outcome_of_def)
  next
    fix ids fresh c'
    assume more: "e = PageDone ids fresh c'"
      "pages_loop L parse p (\<lambda>k s. (Inr (body k), s)) source_id base_url n (saturating_add offset (lp_page_size p)) ids
         (Suc pages) c' t1 s1 = (Inr (out, t'), s')"
    note known = fin [OF more(1)]
    have "pag_events out = new_events [] (?all (pag_pages_fetched out)) \<and>
        (pag_stopped_reason out = lit ''max pages'' \<longrightarrow> pag_pages_fetched out = Suc pages + n)"
      by (rule Suc.IH [OF more(2) Suc.prems(2) _ known(3,1,2,4)]) (simp add: Suc.prems(3))
    then show ?thesis by simp
  qed
qed

section \<open>Properties\<close>

text \<open>
  C16: A pagination that succeeds has fetched at least one and at most \<open>max_pages\<close> pages, whatever the server
  answers; its events have distinct official identifiers and are no more than \<open>max_events\<close>, or one if that limit is
  zero, since it is looked at only after an event is taken; its matters are exactly those named by its events,
  each once; every attachment belongs to one of them; and it names the limit or the page without progress that
  ended it.
\<close>

theorem pagination_is_bounded:
  assumes "paginate_events L parse p budgets fetch_page source_id base_url s = (Inr (out, t'), s')"
  shows "1 \<le> pag_pages_fetched out \<and> pag_pages_fetched out \<le> unat (lp_max_pages p) \<and>
    length (pag_events out) \<le> (if lp_max_events p = 0 then 1 else unat (lp_max_events p)) \<and>
    distinct (map event_id (pag_events out)) \<and> None \<notin> event_id ` set (pag_events out) \<and>
    distinct (map mat_official_matter_id (pag_matters out)) \<and>
    mat_official_matter_id ` set (pag_matters out) = matter_files (pag_events out) \<and>
    att_matter_id ` set (pag_attachments out) \<subseteq> mat_id ` set (pag_matters out) \<and>
    pag_stopped_reason out \<in> stop_reasons"
proof -
  have p: "lp_max_pages p \<noteq> 0"
    and run: "pages_loop L parse p fetch_page source_id base_url (unat (lp_max_pages p)) 0 [] 0 nothing_collected budgets s =
      (Inr (out, t'), s')"
    using assms by (auto simp: paginate_events_def fail_op_Inr split: if_splits)
  have "outcome_ok source_id base_url p out"
    using pages_loop_ok [OF run nothing_well_collected] by (simp add: nothing_collected_def)
  moreover have "pag_stopped_reason out \<in> stop_reasons \<and> pag_pages_fetched out > 0"
    using pages_loop_reason [OF run] p by (simp add: unat_gt_0)
  ultimately obtain c where ok: "out = outcome_of c (pag_pages_fetched out) (pag_stopped_reason out)"
      "well_collected source_id base_url c" "length (pag_events out) \<le> max 1 (unat (lp_max_events p))"
      "pag_pages_fetched out \<le> unat (lp_max_pages p)"
      "pag_stopped_reason out \<in> stop_reasons" "pag_pages_fetched out > 0"
    by (auto simp: outcome_ok_def)
  have parts: "pag_events out = col_events c" "pag_matters out = col_matters c" "pag_attachments out = col_attachments c"
    by (subst ok(1), simp add: outcome_of_def)+
  have events: "map event_id (col_events c) = map Some (rev (col_seen_events c))" "distinct (col_seen_events c)"
    and matters: "map mat_official_matter_id (col_matters c) = rev (col_seen_matters c)" "distinct (col_seen_matters c)"
      "set (col_seen_matters c) = matter_files (col_events c)"
    and owners: "\<forall>a \<in> set (col_attachments c). att_matter_id a \<in> mat_id ` set (col_matters c)"
    using ok(2) by (simp_all add: well_collected_def)
  have "distinct (map event_id (col_events c))" "None \<notin> event_id ` set (col_events c)"
    using events by (simp_all add: distinct_map) (metis (no_types, opaque_lifting) image_iff list.set_map option.distinct(1))
  moreover have "distinct (map mat_official_matter_id (col_matters c))"
    "mat_official_matter_id ` set (col_matters c) = matter_files (col_events c)"
    using matters by (simp_all flip: list.set_map)
  moreover have "max 1 (unat (lp_max_events p)) = (if lp_max_events p = 0 then 1 else unat (lp_max_events p))"
    by (simp add: max_def unat_eq_0 Suc_le_eq unat_gt_0)
  ultimately show ?thesis using ok(3-6) owners parts by auto
qed

text \<open>
  C17: Nothing is lost without a limit: when the pages answered are the same whenever they are asked for, and the
  pagination ends by running out of pages or of progress, its events are the events of all fetched pages,
  in order, each identifier once.
\<close>

theorem pagination_is_complete:
  assumes "paginate_events L parse p budgets (\<lambda>k s. (Inr (body k), s)) source_id base_url s = (Inr (out, t'), s')"
    and "\<And>k. page_events parse (body k) = Inr (page k)"
    and "pag_stopped_reason out \<in> {lit ''max pages'', lit ''non-progressing page''}"
  shows "pag_events out =
      new_events [] (concat (map (\<lambda>k. page (page_offset (lp_page_size p) k)) [0..<pag_pages_fetched out])) \<and>
    (pag_stopped_reason out = lit ''max pages'' \<longrightarrow> pag_pages_fetched out = unat (lp_max_pages p))"
proof -
  have run: "pages_loop L parse p (\<lambda>k s. (Inr (body k), s)) source_id base_url (unat (lp_max_pages p)) 0 [] 0
      nothing_collected budgets s = (Inr (out, t'), s')"
    using assms(1) by (auto simp: paginate_events_def fail_op_Inr split: if_splits)
  from pages_loop_events [OF run assms(2,3)] show ?thesis by (simp add: nothing_collected_def)
qed

lemma fetches_loop:
  assumes "pages_loop L parse p fetch_page source_id base_url n offset previous_ids pages c t s = (r, s')"
    and "\<And>k offset s a s'. I k s \<Longrightarrow> fetch_page offset s = (a, s') \<Longrightarrow> I (Suc k) s'" "I k s"
  shows "\<exists>m \<le> k + n. I m s'"
  using assms(1,3)
proof (induction n arbitrary: offset previous_ids pages c t s k)
  case 0
  then show ?case by (auto simp: return_op_def)
next
  case (Suc n)
  obtain x s1 where x: "fetch_page offset s = (x, s1)" by fastforce
  then have here: "I (Suc k) s1" using assms(2) Suc.prems(2) by blast
  show ?case
  proof (cases "s' = s1")
    case True
    then show ?thesis using here by (intro exI [of _ "Suc k"]) simp
  next
    case False
    then obtain offset' ids pages' c' t' where
      "pages_loop L parse p fetch_page source_id base_url n offset' ids pages' c' t' s1 = (r, s')"
      using Suc.prems(1) x
      by (auto simp: bind_op_def charge_op_def lift_op_def read_op_def return_op_def
          split: sum.splits prod.splits if_splits page_end.splits)
    from Suc.IH [OF this here] show ?thesis by simp
  qed
qed

text \<open>
  C15: A pagination ends whatever the server answers, and whether it succeeds or fails: with whatever is counted
  along its requests (here a relation of a number and a store that every request moves by one), it makes
  at most as many requests as its limit of pages.
\<close>

theorem requests_are_bounded:
  assumes "paginate_events L parse p budgets fetch_page source_id base_url s = (r, s')"
    and "\<And>k offset s a s'. I k s \<Longrightarrow> fetch_page offset s = (a, s') \<Longrightarrow> I (Suc k) s'" "I 0 s"
  shows "\<exists>m \<le> unat (lp_max_pages p). I m s'"
proof (cases "lp_page_size p = 0 \<or> lp_max_pages p = 0")
  case True
  then show ?thesis using assms(1,3) by (auto simp: paginate_events_def fail_op_def)
next
  case False
  with assms(1) have run: "pages_loop L parse p fetch_page source_id base_url (unat (lp_max_pages p)) 0 [] 0
      nothing_collected budgets s = (r, s')"
    by (simp add: paginate_events_def)
  have "\<exists>m \<le> 0 + unat (lp_max_pages p). I m s'"
    by (rule fetches_loop [where I = I, OF run]) (auto intro: assms(2,3))
  then show ?thesis by simp
qed

section \<open>Where the limits do not limit\<close>

text \<open>
  The limit on attachments per matter is applied to all attachments of an event: with two matters in one
  event the later loses its attachments, and a matter in several events can get more than the limit.
\<close>

lemma attachment_limit_is_per_event:
  assumes "discover_matters_from_event L event source_id base_url = (ms, atts)"
  shows "col_attachments (collect_event L p source_id base_url i event c) =
    col_attachments c @ take (unat (lp_max_attachments_per_matter p)) atts"
  using assms by (simp add: collect_event_def Let_def add_matters_keeps)

text \<open>The limit on matters is looked at between events only, so one event can exceed it by any number.\<close>

lemma matter_limit_is_between_events:
  assumes "page_loop L p source_id base_url [event] [] 0 nothing_collected = Inr (Limit (lit ''max matters'') c)"
  shows "mat_official_matter_id ` set (col_matters c) = item_matter_file ` set (named_items event)"
proof -
  have "page_result (Limit (lit ''max matters'') c) = c" by simp
  then have "well_collected source_id base_url c"
    using page_loop_well [OF assms nothing_well_collected] by simp
  moreover have "col_events c = [event]"
    using assms by (auto simp: Let_def collect_event_events nothing_collected_def split: option.splits if_splits)
  ultimately have "set (map mat_official_matter_id (col_matters c)) = set (rev (col_seen_matters c))"
      "set (col_seen_matters c) = item_matter_file ` set (named_items event)"
    by (simp_all add: well_collected_def matter_files_def)
  then show ?thesis by simp
qed

text \<open>
  Attachment identifiers are numbers in the Legistar interface, and a number is not read: all attachments
  of a matter get one and the same identifier.
\<close>

lemma numeric_attachment_id_is_lost:
  assumes "json_get f (lit ''MatterAttachmentId'') = Some (JNumber n)" "json_get f (lit ''EventItemAttachmentId'') = None"
    and "attachment_of_file L matter_id f = Some a"
  shows "att_id a = matter_id @ lit '':''"
  using assms by (auto simp: attachment_of_file_def attachment_id_of_def get_str_def str_or_default_def split: sum.splits if_splits)

text \<open>Any https address is taken, whatever its host.\<close>

lemma attachment_of_any_host:
  assumes "url_parse L (str_or_default (get_str f (lit ''Hyperlink''))) = Inr url" "url_scheme L url = lit ''https''"
  shows "\<exists>a. attachment_of_file L matter_id f = Some a \<and> att_url a = url_to_string L url"
  using assms by (simp add: attachment_of_file_def)

text \<open>A limit of no events lets the first one through.\<close>

lemma limit_zero_takes_an_event:
  assumes "event_id event = Some i" "lp_max_events p = 0"
  shows "\<exists>c. page_loop L p source_id base_url (event # events) [] 0 nothing_collected = Inr (Limit (lit ''max events'') c) \<and>
    col_events c = [event]"
  using assms by (simp add: nothing_collected_def collect_event_def Let_def add_matters_keeps split: prod.split)

section \<open>Witnesses\<close>

definition sample_event :: json where
  "sample_event = JObject [(lit ''EventId'', JNumber (Some 7)), (lit ''EventItems'',
     JArray [JObject [(lit ''EventItemMatterFile'', JString [65])]])]"

definition sample_body :: "32 word \<Rightarrow> bytes" where
  "sample_body k = (if k = 0 then [1] else [])"

definition sample_page :: "32 word \<Rightarrow> json list" where
  "sample_page k = (if k = 0 then [sample_event] else [])"

definition sample_parser :: json_parser where
  "sample_parser b = Inr (JArray (if b = [1] then [sample_event] else []))"

definition no_urls :: "unit url_lib" where
  "no_urls = \<lparr>url_parse = (\<lambda>_. Inl []), url_scheme = (\<lambda>_. []), url_host_str = (\<lambda>_. None), url_to_string = (\<lambda>_. []),
     url_join = (\<lambda>_ _. Inl [])\<rparr>"

lemma sample_page_events: "page_events sample_parser (sample_body k) = Inr (sample_page k)"
  by (simp add: page_events_def sample_parser_def sample_body_def sample_page_def)

lemma sample_event_id: "event_id sample_event = Some [55]"
  by (simp add: event_id_def sample_event_def show_nat.simps)

lemma sample_run:
  "\<exists>out t'. paginate_events no_urls sample_parser default_pagination (new_tracker default_budgets)
      (\<lambda>k s. (Inr (sample_body k), s)) [115] [] empty_store = (Inr (out, t'), empty_store) \<and>
    pag_stopped_reason out = lit ''non-progressing page'' \<and> pag_pages_fetched out = 2"
proof -
  have n: "unat (lp_max_pages default_pagination) = Suc (Suc 48)" by (simp add: default_pagination_def)
  have charge: "add_downloaded_bytes (of_nat (length (sample_body 0))) (new_tracker default_budgets) =
      (Inr (), (new_tracker default_budgets)\<lparr>jt_downloaded_bytes := 1\<rparr>)"
    by (simp add: add_downloaded_bytes_def new_tracker_def default_budgets_def saturating_add_def sample_body_def)
  have offset: "saturating_add 0 (lp_page_size default_pagination) \<noteq> 0"
    by (simp add: saturating_add_def default_pagination_def)
  have charge2: "add_downloaded_bytes (of_nat (length (sample_body (saturating_add 0 (lp_page_size default_pagination)))))
      ((new_tracker default_budgets)\<lparr>jt_downloaded_bytes := 1\<rparr>) =
      (Inr (), (new_tracker default_budgets)\<lparr>jt_downloaded_bytes := 1\<rparr>)"
    using offset by (simp add: add_downloaded_bytes_def new_tracker_def default_budgets_def saturating_add_def sample_body_def)
  have "discover_matters_from_event no_urls sample_event [115] [] = ([matter_of_item [115] [] (JObject [(lit ''EventItemMatterFile'', JString [65])])], [])"
    by (simp add: discover_matters_from_event_def named_items_def get_array_def sample_event_def item_matter_file_def
        get_str_def str_or_default_def attachments_of_item_def trim_by_def trim_start_by_def trim_end_by_def is_ws_def)
  then obtain c where page: "page_loop no_urls default_pagination [115] [] [sample_event] [] 0 nothing_collected =
      Inr (PageDone [[55]] 1 c)" "col_events c = [sample_event]"
    by (simp add: Let_def sample_event_id nothing_collected_def collect_event_def default_pagination_def)
  have pages: "sample_page 0 = [sample_event]" "sample_page (saturating_add 0 (lp_page_size default_pagination)) = []"
    using offset by (simp_all add: sample_page_def)
  show ?thesis
    using page unfolding paginate_events_def n pages_loop.simps
    by (simp add: bind_op_def charge_op_def lift_op_def read_op_def charge charge2 sample_page_events pages return_op_def
        outcome_of_def, simp add: default_pagination_def)
qed

text \<open>A server that answers one event for ever; every request leaves a row in the store.\<close>

definition counted_fetch :: "32 word \<Rightarrow> (IngestError, bytes) op" where
  "counted_fetch k s =
     (Inr [1], s\<lparr>st_approvals := \<lparr>app_alert_id = [], app_draft_digest = [], app_approved_at = []\<rparr> # st_approvals s\<rparr>)"

theorem requests_are_bounded_witness:
  "\<exists>r s'. paginate_events no_urls sample_parser default_pagination (new_tracker default_budgets) counted_fetch [115] []
      empty_store = (r, s') \<and> length (st_approvals s') \<le> 50"
proof -
  obtain r s' where run: "paginate_events no_urls sample_parser default_pagination (new_tracker default_budgets) counted_fetch
      [115] [] empty_store = (r, s')" by fastforce
  have "\<exists>m \<le> unat (lp_max_pages default_pagination). length (st_approvals s') = m"
    by (rule requests_are_bounded [OF run, where I = "\<lambda>k s. length (st_approvals s) = k"])
      (auto simp: counted_fetch_def empty_store_def)
  then show ?thesis using run by (auto simp: default_pagination_def)
qed

theorem pagination_is_bounded_witness:
  "\<exists>out t'. paginate_events no_urls sample_parser default_pagination (new_tracker default_budgets)
      (\<lambda>k s. (Inr (sample_body k), s)) [115] [] empty_store = (Inr (out, t'), empty_store) \<and>
    pag_pages_fetched out \<le> 50"
proof -
  obtain out t' where run: "paginate_events no_urls sample_parser default_pagination (new_tracker default_budgets)
      (\<lambda>k s. (Inr (sample_body k), s)) [115] [] empty_store = (Inr (out, t'), empty_store)"
    using sample_run by blast
  have "unat (lp_max_pages default_pagination) = 50" by (simp add: default_pagination_def)
  with pagination_is_bounded [OF run] run show ?thesis by auto
qed

theorem pagination_is_complete_witness:
  "\<exists>out t'. paginate_events no_urls sample_parser default_pagination (new_tracker default_budgets)
      (\<lambda>k s. (Inr (sample_body k), s)) [115] [] empty_store = (Inr (out, t'), empty_store) \<and>
    pag_events out = [sample_event]"
proof -
  obtain out t' where run: "paginate_events no_urls sample_parser default_pagination (new_tracker default_budgets)
      (\<lambda>k s. (Inr (sample_body k), s)) [115] [] empty_store = (Inr (out, t'), empty_store)"
    and reason: "pag_stopped_reason out = lit ''non-progressing page''" "pag_pages_fetched out = 2"
    using sample_run by blast
  have "saturating_add 0 (lp_page_size default_pagination) \<noteq> 0" by (simp add: saturating_add_def default_pagination_def)
  then have "concat (map (\<lambda>k. sample_page (page_offset (lp_page_size default_pagination) k)) [0..<2]) = [sample_event]"
    by (simp add: numeral_2_eq_2 sample_page_def)
  with pagination_is_complete [OF run sample_page_events] reason
  have "pag_events out = [sample_event]" by (simp add: sample_event_id)
  with run show ?thesis by blast
qed

end
