(* ===== verification/Sandbox.thy ===== *)
theory Sandbox
  imports CoreTypes Money Utf8Lossy
begin

text \<open>
  The extraction sandbox (\<open>pnull-ingest/src/sandbox.rs\<close>): an external tool is found on the search path,
  its inputs are staged, and it is run under \<open>prlimit\<close> and \<open>bwrap\<close> with a command line that is built here.
  What the processes do is an argument; the working directory is modelled by the files it holds, and it is
  kept from one run to the next.  Failures of the file system other than a missing file are not modelled.
\<close>

section \<open>Paths and files\<close>

text \<open>
  \<open>Path::components\<close>: whether a path is absolute, and its parts without empty ones and without \<open>.\<close>, except
  for a leading one of a relative path.  Equality of paths and \<open>strip_prefix\<close> go by components.
\<close>

definition path_parts :: "str \<Rightarrow> bool \<times> str list" where
  "path_parts s =
     (let parts = filter (\<lambda>p. p \<noteq> []) (split_by (\<lambda>c. c = 47) s);
          proper = (\<lambda>p. p \<noteq> [46]) in
      if starts_with s [47] then (True, filter proper parts)
      else (False, case parts of [] \<Rightarrow> [] | p # ps \<Rightarrow> p # filter proper ps))"

definition path_file_name :: "str \<Rightarrow> str option" where
  "path_file_name s =
     (let parts = snd (path_parts s) in
      if parts = [] \<or> last parts = lit ''..'' \<or> last parts = [46] then None else Some (last parts))"

text \<open>\<open>Path::strip_prefix\<close>, the rest printed with single separators.\<close>

fun drop_prefix :: "'a list \<Rightarrow> 'a list \<Rightarrow> 'a list option" where
  "drop_prefix [] ys = Some ys"
| "drop_prefix (x # xs) [] = None"
| "drop_prefix (x # xs) (y # ys) = (if x = y then drop_prefix xs ys else None)"

definition strip_path :: "str \<Rightarrow> str \<Rightarrow> str option" where
  "strip_path base s =
     (if fst (path_parts base) = fst (path_parts s)
      then map_option (join [47]) (drop_prefix (snd (path_parts base)) (snd (path_parts s))) else None)"

definition dir_join :: "str \<Rightarrow> str \<Rightarrow> str" where
  "dir_join base part =
     (if starts_with part [47] then part
      else if base = [] \<or> last base = 47 then base @ part
      else base @ [47] @ part)"

type_synonym files = "(str \<times> bytes) list"

definition put_file :: "str \<Rightarrow> bytes \<Rightarrow> files \<Rightarrow> files" where
  "put_file path content files = (path, content) # filter (\<lambda>(p, _). p \<noteq> path) files"

section \<open>Errors\<close>

datatype FailureLayer = Prlimit | Bubblewrap | Extractor

record ExtractorFailure =
  xf_extractor :: str
  xf_layer :: FailureLayer
  xf_exit_code :: "int option"
  xf_signal :: "int option"
  xf_stderr :: str

datatype SandboxError =
  Unavailable str
| ExtractorUnavailable str
| Failed ExtractorFailure
| Timeout str
| Io str

fun layer_name :: "FailureLayer \<Rightarrow> str" where
  "layer_name Prlimit = lit ''prlimit''"
| "layer_name Bubblewrap = lit ''bubblewrap''"
| "layer_name Extractor = lit ''extractor''"

definition show_failure :: "ExtractorFailure \<Rightarrow> str" where
  "show_failure f =
     xf_extractor f @ lit '' (layer '' @ layer_name (xf_layer f) @ lit '', '' @
     (case (xf_exit_code f, xf_signal f) of
        (Some code, _) \<Rightarrow> lit ''exit '' @ show_int code
      | (None, Some sig) \<Rightarrow> lit ''signal '' @ show_int sig
      | (None, None) \<Rightarrow> lit ''no exit status'') @ lit '')'' @
     (if xf_stderr f = [] then [] else long_dash @ lit ''stderr: '' @ xf_stderr f)"

fun show_sandbox_error :: "SandboxError \<Rightarrow> str" where
  "show_sandbox_error (Unavailable e) = lit ''sandbox backend unavailable: '' @ e"
| "show_sandbox_error (ExtractorUnavailable e) = lit ''allowlisted extractor is unavailable: '' @ e"
| "show_sandbox_error (Failed f) = lit ''sandboxed extractor failed: '' @ show_failure f"
| "show_sandbox_error (Timeout e) = lit ''sandboxed extractor exceeded its time limit: '' @ e"
| "show_sandbox_error (Io e) = lit ''sandbox I/O failure: '' @ e"

record SandboxConfig =
  sbc_max_address_bytes :: "64 word"
  sbc_max_cpu_seconds :: "64 word"
  sbc_max_file_size_bytes :: "64 word"
  sbc_max_output_bytes :: "64 word"

definition default_sandbox :: SandboxConfig where
  "default_sandbox =
     \<lparr>sbc_max_address_bytes = 536870912, sbc_max_cpu_seconds = 12, sbc_max_file_size_bytes = 52428800,
      sbc_max_output_bytes = 5 * 1024 * 1024\<rparr>"

record SandboxOutput =
  so_stdout :: bytes
  so_stderr :: bytes
  so_success :: bool

section \<open>Diagnostics\<close>

text \<open>\<open>char::is_control\<close>.\<close>

definition is_control :: "uchar \<Rightarrow> bool" where
  "is_control c \<longleftrightarrow> c < 32 \<or> (127 \<le> c \<and> c < 160)"

definition printable :: "uchar \<Rightarrow> bool" where
  "printable c \<longleftrightarrow> c = 10 \<or> c = 9 \<or> \<not> is_control c"

fun sanitize_loop :: "nat \<Rightarrow> str \<Rightarrow> str \<Rightarrow> str" where
  "sanitize_loop limit cleaned [] = cleaned"
| "sanitize_loop limit cleaned (c # cs) =
     (let cleaned' = (if printable c then cleaned @ [c] else cleaned) in
      if limit \<le> length cleaned' then cleaned' else sanitize_loop limit cleaned' cs)"

definition sanitize_stderr :: "bytes \<Rightarrow> 64 word \<Rightarrow> str" where
  "sanitize_stderr stderr max_bytes = trim (sanitize_loop (unat max_bytes) [] (from_utf8_lossy stderr))"

definition classify_layer :: "str \<Rightarrow> FailureLayer" where
  "classify_layer stderr =
     (let says = str_contains (to_ascii_lowercase stderr) \<circ> lit in
      if says ''prlimit:'' \<or> says ''prlimit '' \<or> says ''failed to set resource limits'' then Prlimit
      else if says ''bwrap:'' \<or> says ''creating new namespace'' \<or> says ''unshare'' \<or> says ''mount'' \<or>
        says ''operation not permitted'' then Bubblewrap
      else Extractor)"

text \<open>A captured stream: nothing at all when it is longer than the limit.\<close>

definition read_limited :: "str \<Rightarrow> str \<Rightarrow> 64 word \<Rightarrow> files \<Rightarrow> SandboxError + bytes" where
  "read_limited missing path max_bytes files =
     (case map_of files path of
        None \<Rightarrow> Inl (Io missing)
      | Some b \<Rightarrow> Inr (if length b > unat max_bytes then [] else b))"

section \<open>The run\<close>

text \<open>
  What a run needs of the host: the directories of the search path, which paths are files or exist, the
  text of the error for a missing file, and the process itself, which gets its command line and time limit and
  changes the files of the working directory.
\<close>

datatype run_end = NotSpawned str | WaitFailed str | StillRunning | Exited "int option" "int option"

record host =
  ho_path :: "str list"
  ho_is_file :: "str \<Rightarrow> bool"
  ho_exists :: "str \<Rightarrow> bool"
  ho_missing :: str
  ho_spawn :: "str list \<Rightarrow> nat \<Rightarrow> files \<Rightarrow> run_end \<times> files"

definition resolve_executable :: "host \<Rightarrow> str \<Rightarrow> str option" where
  "resolve_executable H n = find (ho_is_file H) (map (\<lambda>d. dir_join d n) (ho_path H))"

definition bind_readonly_runtime :: "host \<Rightarrow> str list" where
  "bind_readonly_runtime H =
     concat (map (\<lambda>d. if ho_exists H d then [lit ''--ro-bind'', d, d] else [])
       (map lit [''/usr'', ''/bin'', ''/sbin'', ''/lib'', ''/lib64'', ''/etc'', ''/nix'']))"

text \<open>\<open>unwrap_or\<close> with the name \<open>input\<close>.\<close>

definition or_else_input :: "str option \<Rightarrow> str" where
  "or_else_input n = (case n of None \<Rightarrow> lit ''input'' | Some x \<Rightarrow> x)"

type_synonym staging = "((bool \<times> str list) \<times> str) list"

definition rewrite_arg :: "str \<Rightarrow> staging \<Rightarrow> str \<Rightarrow> str" where
  "rewrite_arg workdir staging arg =
     (case map_of staging (path_parts arg) of
        Some staged \<Rightarrow> lit ''/work-ro/'' @ or_else_input (path_file_name staged)
      | None \<Rightarrow>
          (case strip_path workdir arg of
             Some relative \<Rightarrow> lit ''/work/'' @ relative
           | None \<Rightarrow> arg))"

definition rewrite_args :: "str list \<Rightarrow> str \<Rightarrow> staging \<Rightarrow> str list" where
  "rewrite_args args workdir staging = map (rewrite_arg workdir staging) args"

text \<open>Each input is copied below \<open>inputs\<close> under its position and name; a later rewrite of a path wins.\<close>

fun stage_inputs :: "str \<Rightarrow> str \<Rightarrow> nat \<Rightarrow> str list \<Rightarrow> staging \<Rightarrow> files \<Rightarrow> (SandboxError + staging) \<times> files" where
  "stage_inputs missing ro_dir index [] staging files = (Inr staging, files)"
| "stage_inputs missing ro_dir index (input # inputs) staging files =
     (case map_of files input of
        None \<Rightarrow> (Inl (Io missing), files)
      | Some b \<Rightarrow>
          let staged = dir_join ro_dir (show_nat index @ [45] @ or_else_input (path_file_name input)) in
          stage_inputs missing ro_dir (Suc index) inputs ((path_parts input, staged) # staging)
            (put_file staged b files))"

definition show_u64 :: "64 word \<Rightarrow> str" where
  "show_u64 w = show_nat (unat w)"

definition sandbox_command ::
  "host \<Rightarrow> SandboxConfig \<Rightarrow> str \<Rightarrow> str \<Rightarrow> str \<Rightarrow> str \<Rightarrow> str list \<Rightarrow> str list" where
  "sandbox_command H config workdir prlimit bwrap executable args =
     [prlimit, lit ''--as='' @ show_u64 (sbc_max_address_bytes config),
      lit ''--cpu='' @ show_u64 (sbc_max_cpu_seconds config),
      lit ''--fsize='' @ show_u64 (sbc_max_file_size_bytes config), lit ''--'', bwrap] @
     bind_readonly_runtime H @
     [lit ''--bind'', workdir, lit ''/work'', lit ''--ro-bind'', dir_join workdir (lit ''inputs''), lit ''/work-ro''] @
     map lit [''--dev'', ''/dev'', ''--proc'', ''/proc'', ''--tmpfs'', ''/tmp'', ''--unshare-net'', ''--unshare-pid'',
       ''--unshare-ipc'', ''--unshare-uts'', ''--new-session'', ''--clearenv'', ''--setenv'', ''LANG'', ''C.UTF-8'',
       ''--setenv'', ''LC_ALL'', ''C.UTF-8'', ''--setenv'', ''OMP_THREAD_LIMIT'', ''1'', ''--''] @
     executable # args"

definition finish_run ::
  "host \<Rightarrow> SandboxConfig \<Rightarrow> str \<Rightarrow> str \<Rightarrow> run_end \<Rightarrow> files \<Rightarrow> SandboxError + SandboxOutput" where
  "finish_run H config workdir program finish files =
     (case finish of
        NotSpawned e \<Rightarrow> Inl (Io e)
      | WaitFailed e \<Rightarrow> Inl (Io e)
      | StillRunning \<Rightarrow> Inl (Timeout program)
      | Exited code sig \<Rightarrow>
          (case read_limited (ho_missing H) (dir_join workdir (lit ''stdout.bin'')) (sbc_max_output_bytes config) files of
             Inl e \<Rightarrow> Inl e
           | Inr stdout \<Rightarrow>
               (case read_limited (ho_missing H) (dir_join workdir (lit ''stderr.bin'')) (sbc_max_output_bytes config) files of
                  Inl e \<Rightarrow> Inl e
                | Inr stderr \<Rightarrow>
                    if code \<noteq> Some 0 then
                      let stderr_text = sanitize_stderr stderr (sbc_max_output_bytes config) in
                      Inl (Failed \<lparr>xf_extractor = program, xf_layer = classify_layer stderr_text, xf_exit_code = code,
                        xf_signal = sig, xf_stderr = stderr_text\<rparr>)
                    else Inr \<lparr>so_stdout = stdout, so_stderr = stderr, so_success = True\<rparr>)))"

text \<open>\<open>BubblewrapSandbox::run\<close>.\<close>

definition sandbox_run ::
  "host \<Rightarrow> SandboxConfig \<Rightarrow> str \<Rightarrow> str \<Rightarrow> str list \<Rightarrow> str list \<Rightarrow> nat \<Rightarrow> files \<Rightarrow>
   (SandboxError + SandboxOutput) \<times> files" where
  "sandbox_run H config workdir program args inputs timeout files =
     (case resolve_executable H (lit ''bwrap'') of
        None \<Rightarrow> (Inl (Unavailable (lit ''bwrap'')), files)
      | Some bwrap \<Rightarrow>
          (case resolve_executable H program of
             None \<Rightarrow> (Inl (ExtractorUnavailable program), files)
           | Some executable \<Rightarrow>
               (case resolve_executable H (lit ''prlimit'') of
                  None \<Rightarrow> (Inl (Unavailable (lit ''prlimit'')), files)
                | Some prlimit \<Rightarrow>
                    (case stage_inputs (ho_missing H) (dir_join workdir (lit ''inputs'')) 0 inputs [] files of
                       (Inl e, files') \<Rightarrow> (Inl e, files')
                     | (Inr staging, files') \<Rightarrow>
                         (case ho_spawn H
                             (sandbox_command H config workdir prlimit bwrap executable (rewrite_args args workdir staging))
                             timeout
                             (put_file (dir_join workdir (lit ''stderr.bin'')) []
                               (put_file (dir_join workdir (lit ''stdout.bin'')) [] files')) of
                            (finish, files'') \<Rightarrow> (finish_run H config workdir program finish files'', files''))))))"

text \<open>\<open>BubblewrapSandbox::new\<close>.\<close>

definition new_sandbox :: "host \<Rightarrow> SandboxConfig \<Rightarrow> SandboxError + SandboxConfig" where
  "new_sandbox H config =
     (if resolve_executable H (lit ''bwrap'') = None
      then Inl (Unavailable (lit ''bubblewrap (bwrap) is required for live extraction'')) else Inr config)"

text \<open>
  The test double \<open>FakeSandbox::run\<close>: the tool itself, with no sandbox, no staged inputs and no limit on what
  is read; its environment is cleared and set to the same three variables.
\<close>

definition read_whole :: "str \<Rightarrow> str \<Rightarrow> files \<Rightarrow> SandboxError + bytes" where
  "read_whole missing path files = (case map_of files path of None \<Rightarrow> Inl (Io missing) | Some b \<Rightarrow> Inr b)"

definition finish_fake ::
  "host \<Rightarrow> SandboxConfig \<Rightarrow> str \<Rightarrow> str \<Rightarrow> run_end \<Rightarrow> files \<Rightarrow> SandboxError + SandboxOutput" where
  "finish_fake H config workdir program finish files =
     (case finish of
        NotSpawned e \<Rightarrow> Inl (Io e)
      | WaitFailed e \<Rightarrow> Inl (Io e)
      | StillRunning \<Rightarrow> Inl (Timeout program)
      | Exited code sig \<Rightarrow>
          (case read_whole (ho_missing H) (dir_join workdir (lit ''stdout.bin'')) files of
             Inl e \<Rightarrow> Inl e
           | Inr stdout \<Rightarrow>
               (case read_whole (ho_missing H) (dir_join workdir (lit ''stderr.bin'')) files of
                  Inl e \<Rightarrow> Inl e
                | Inr stderr \<Rightarrow>
                    if code \<noteq> Some 0 then
                      let stderr_text = sanitize_stderr stderr (sbc_max_output_bytes config) in
                      Inl (Failed \<lparr>xf_extractor = program, xf_layer = classify_layer stderr_text, xf_exit_code = code,
                        xf_signal = sig, xf_stderr = stderr_text\<rparr>)
                    else Inr \<lparr>so_stdout = stdout, so_stderr = stderr, so_success = True\<rparr>)))"

definition fake_run ::
  "host \<Rightarrow> SandboxConfig \<Rightarrow> str \<Rightarrow> str \<Rightarrow> str list \<Rightarrow> nat \<Rightarrow> files \<Rightarrow> (SandboxError + SandboxOutput) \<times> files" where
  "fake_run H config workdir program args timeout files =
     (case resolve_executable H program of
        None \<Rightarrow> (Inl (ExtractorUnavailable program), files)
      | Some executable \<Rightarrow>
          (case ho_spawn H (executable # args) timeout
              (put_file (dir_join workdir (lit ''stderr.bin'')) [] (put_file (dir_join workdir (lit ''stdout.bin'')) [] files)) of
             (finish, files') \<Rightarrow> (finish_fake H config workdir program finish files', files')))"

text \<open>The double agrees with the sandbox on the end of a process as long as its output is within the limit.\<close>

lemma double_agrees_within_limit:
  assumes "\<And>path b. map_of files path = Some b \<Longrightarrow> length b \<le> unat (sbc_max_output_bytes config)"
  shows "finish_fake H config workdir program finish files = finish_run H config workdir program finish files"
proof -
  have "read_whole missing path files = read_limited missing path (sbc_max_output_bytes config) files" for missing path
    using assms by (fastforce simp: read_whole_def read_limited_def split: option.split)
  then show ?thesis unfolding finish_fake_def finish_run_def by (simp cong: run_end.case_cong sum.case_cong)
qed

section \<open>What is shown of a diagnostic\<close>

lemma sanitize_loop_printable:
  "list_all printable cleaned \<Longrightarrow> list_all printable (sanitize_loop limit cleaned s)"
  by (induction limit cleaned s rule: sanitize_loop.induct) (auto simp: Let_def)

lemma length_sanitize_loop:
  "length cleaned < max 1 limit \<Longrightarrow> length (sanitize_loop limit cleaned s) \<le> max 1 limit"
  by (induction limit cleaned s rule: sanitize_loop.induct) (auto simp: Let_def)

lemma trim_by_parts: "set (trim_by p s) \<subseteq> set s" "length (trim_by p s) \<le> length s"
proof -
  have "set (dropWhile p xs) \<subseteq> set xs" for xs by (auto dest: set_dropWhileD)
  then show "set (trim_by p s) \<subseteq> set s"
    unfolding trim_by_def trim_end_by_def trim_start_by_def by (metis set_rev subset_trans)
  show "length (trim_by p s) \<le> length s"
    unfolding trim_by_def trim_end_by_def trim_start_by_def
    by (metis length_dropWhile_le length_rev order_trans)
qed

text \<open>
  Whatever a tool writes to its error stream, the diagnostic kept of it has no control characters but line
  feeds and tabs, and no more characters than the configured limit (one, when the limit is zero).
\<close>

theorem diagnostics_are_printable:
  "list_all printable (sanitize_stderr stderr max_bytes) \<and>
   length (sanitize_stderr stderr max_bytes) \<le> max 1 (unat max_bytes)"
proof -
  define raw where "raw = sanitize_loop (unat max_bytes) [] (from_utf8_lossy stderr)"
  have "list_all printable raw" unfolding raw_def by (rule sanitize_loop_printable) simp
  moreover have "length raw \<le> max 1 (unat max_bytes)" unfolding raw_def by (rule length_sanitize_loop) simp
  ultimately show ?thesis
    using trim_by_parts [of is_ws raw] by (auto simp: sanitize_stderr_def raw_def [symmetric] list_all_iff)
qed

section \<open>What the sandbox sees\<close>

lemma mount_parts:
  "path_parts (lit ''/work/'' @ r) = (True, lit ''work'' # filter (\<lambda>p. p \<noteq> [46]) (filter (\<lambda>p. p \<noteq> []) (split_by (\<lambda>c. c = 47) r)))"
  "path_parts (lit ''/work-ro/'' @ r) = (True, lit ''work-ro'' # filter (\<lambda>p. p \<noteq> [46]) (filter (\<lambda>p. p \<noteq> []) (split_by (\<lambda>c. c = 47) r)))"
  by (simp_all add: path_parts_def lit_def Let_def)

lemma drop_prefix_Some: "drop_prefix xs ys = Some zs \<longleftrightarrow> ys = xs @ zs"
  by (induction xs ys rule: drop_prefix.induct) auto

lemma strip_path_elsewhere:
  assumes "fst (path_parts workdir)" "snd (path_parts workdir) = d # ds" "path_parts a = (True, e # es)" "d \<noteq> e"
  shows "strip_path workdir a = None"
  using assms by (simp add: strip_path_def)

text \<open>
  When the working directory is an absolute path outside the two mounts, no argument of the sandboxed tool
  names it or a path below it: such arguments are rewritten to the mounts.
\<close>

theorem host_paths_are_hidden:
  assumes "fst (path_parts workdir)" "snd (path_parts workdir) = d # ds" "d \<noteq> lit ''work''" "d \<noteq> lit ''work-ro''"
  shows "list_all (\<lambda>a. strip_path workdir a = None) (rewrite_args args workdir staging)"
proof -
  have "strip_path workdir (rewrite_arg workdir staging a) = None" for a
    using strip_path_elsewhere [OF assms(1,2) mount_parts(1) assms(3)]
      strip_path_elsewhere [OF assms(1,2) mount_parts(2) assms(4)]
    by (auto simp: rewrite_arg_def split: option.splits)
  then show ?thesis by (simp add: rewrite_args_def list_all_iff)
qed

theorem host_paths_are_hidden_witness:
  "list_all (\<lambda>a. strip_path (lit ''/tmp/x'') a = None) (rewrite_args [lit ''/tmp/x/input.pdf'', lit ''/tmp/x/bbox.xml''] (lit ''/tmp/x'')
     [(path_parts (lit ''/tmp/x/input.pdf''), lit ''/tmp/x/inputs/0-input.pdf'')])"
  by (rule host_paths_are_hidden [where d = "lit ''tmp''" and ds = "[lit ''x'']"]) (simp_all add: path_parts_def lit_def)

text \<open>
  A run fails closed: a result is the output of a process that ended with success, run by \<open>prlimit\<close> and
  \<open>bwrap\<close> as found on the search path, with the command line of the sandbox and rewritten arguments,
  and neither stream is longer than the limit.
\<close>

theorem sandbox_fails_closed:
  assumes "sandbox_run H config workdir program args inputs timeout files = (Inr out, files')"
  shows "\<exists>prlimit bwrap executable staging files1 sig.
    resolve_executable H (lit ''prlimit'') = Some prlimit \<and> resolve_executable H (lit ''bwrap'') = Some bwrap \<and>
    resolve_executable H program = Some executable \<and>
    ho_spawn H (sandbox_command H config workdir prlimit bwrap executable (rewrite_args args workdir staging)) timeout files1 =
      (Exited (Some 0) sig, files') \<and>
    so_success out \<and> length (so_stdout out) \<le> unat (sbc_max_output_bytes config) \<and>
    length (so_stderr out) \<le> unat (sbc_max_output_bytes config)"
  using assms
  by (auto simp: sandbox_run_def finish_run_def read_limited_def Let_def
      split: option.splits sum.splits prod.splits run_end.splits if_splits)

end
