(* ===== verification/TextExtraction.thy ===== *)
theory TextExtraction
  imports Legistar Sandbox
begin

text \<open>
  Extraction of text from a document (\<open>pnull-ingest/src/lib.rs\<close>): plain text, HTML, Legistar JSON and PDF, the
  last by external tools in the sandbox, with optional OCR.  The libraries for HTML, XML, JSON, regular
  expressions, images and floating point are arguments.
\<close>

section \<open>Results\<close>

record Extraction =
  ex_text :: str
  ex_method :: str
  ex_status :: ExtractionStatus
  ex_error :: "StructuredError option"
  ex_text_maps :: "TextMap list"

type_synonym extracted = "str \<times> str \<times> ExtractionStatus \<times> TextMap list"

record PageDims =
  pd_width :: f64
  pd_height :: f64
  pd_rotation :: int

definition MAX_PDF_PAGES :: "32 word" where "MAX_PDF_PAGES = 100"
definition MAX_OCR_PAGES :: "32 word" where "MAX_OCR_PAGES = 5"
definition MAX_EXTRACTED_BYTES :: nat where "MAX_EXTRACTED_BYTES = 5 * 1024 * 1024"

section \<open>What is used from outside\<close>

text \<open>
  The text nodes that are joined for an HTML document, the events of an XML reader, the size of an image, the
  whole seconds a tool took, and the host and settings of the sandbox.
\<close>

record extractor_env =
  xe_sha :: hash
  xe_parse_json :: json_parser
  xe_replace_all :: regex_replace
  xe_html_text :: "str \<Rightarrow> str list"
  xe_read_events :: "str \<Rightarrow> xml_event list"
  xe_floats :: float_lib
  xe_image_dimensions :: "bytes option \<Rightarrow> str + 32 word \<times> 32 word"
  xe_seconds :: "str \<Rightarrow> str list \<Rightarrow> files \<Rightarrow> nat"
  xe_host :: host
  xe_config :: SandboxConfig
  xe_workdir :: str

section \<open>Steps of a job\<close>

text \<open>
  A step charges the budgets and changes the files of the working directory as it goes, and fails with a code
  and a message, or panics (\<open>None\<close>): then the caller gets no result, and what was done so far stays done.
\<close>

record job_state =
  js_tracker :: JobBudgetTracker
  js_files :: files

type_synonym 'a job = "job_state \<Rightarrow> (extract_error + 'a) option \<times> job_state"

definition return_job :: "'a \<Rightarrow> 'a job" where "return_job a t = (Some (Inr a), t)"
definition fail_job :: "string \<Rightarrow> str \<Rightarrow> 'a job" where "fail_job code message t = (Some (Inl (lit code, message)), t)"
definition panic_job :: "'a job" where "panic_job t = (None, t)"

definition bind_job :: "'a job \<Rightarrow> ('a \<Rightarrow> 'b job) \<Rightarrow> 'b job" where
  "bind_job m f t =
     (case m t of
        (None, t') \<Rightarrow> (None, t')
      | (Some (Inl e), t') \<Rightarrow> (Some (Inl e), t')
      | (Some (Inr a), t') \<Rightarrow> f a t')"

definition lift_job :: "string \<Rightarrow> str + 'a \<Rightarrow> 'a job" where
  "lift_job code x = (case x of Inl e \<Rightarrow> fail_job code e | Inr a \<Rightarrow> return_job a)"

definition result_job :: "extract_error + 'a \<Rightarrow> 'a job" where
  "result_job x t = (Some x, t)"

fun show_budget_error :: "BudgetError \<Rightarrow> str" where
  "show_budget_error (DownloadedBytes limit seen) =
     lit ''aggregate downloaded-bytes budget exceeded (limit '' @ show_u64 limit @ lit '', observed '' @ show_u64 seen @ lit '')''"
| "show_budget_error (BudgetError.Attachments limit) =
     lit ''aggregate attachment budget exceeded (limit '' @ show_nat (unat limit) @ lit '')''"
| "show_budget_error (PdfPages limit) =
     lit ''aggregate PDF-page budget exceeded (limit '' @ show_nat (unat limit) @ lit '')''"
| "show_budget_error (OcrPages limit) =
     lit ''aggregate OCR-page budget exceeded (limit '' @ show_nat (unat limit) @ lit '')''"
| "show_budget_error (ExtractedBytes limit seen) =
     lit ''aggregate extracted-bytes budget exceeded (limit '' @ show_u64 limit @ lit '', observed '' @ show_u64 seen @ lit '')''"
| "show_budget_error (ChildProcesses limit) =
     lit ''aggregate child-process budget exceeded (limit '' @ show_nat (unat limit) @ lit '')''"
| "show_budget_error (CpuSeconds limit) =
     lit ''aggregate CPU-seconds budget exceeded (limit '' @ show_u64 limit @ lit '')''"
| "show_budget_error (WallSeconds limit) =
     lit ''aggregate wall-seconds budget exceeded (limit '' @ show_u64 limit @ lit '')''"

text \<open>The errors \<open>parse_ocr_tsv\<close> can return carry no failure of input or output.\<close>

fun show_geometry_error :: "GeometryError \<Rightarrow> str" where
  "show_geometry_error (GeometryError.Invalid e) = lit ''invalid geometry: '' @ e"
| "show_geometry_error (QuoteNotFound page quote) =
     lit ''quote not found on page '' @ show_nat (unat page) @ lit '': '' @ quote"
| "show_geometry_error (QuoteMismatch page) = lit ''quote-to-text-map mismatch on page '' @ show_nat (unat page)"
| "show_geometry_error (Malformed e) = lit ''malformed extractor output: '' @ e"
| "show_geometry_error GeometryError.Io = lit ''renderer I/O failure: ''"
| "show_geometry_error (Render e) = lit ''rendered page image failure: '' @ e"
| "show_geometry_error (MissingPage page) = lit ''missing page '' @ show_nat (unat page) @ lit '' in text map''"

text \<open>A charge, its error turned into the code \<open>aggregate_budget\<close>.\<close>

definition charge_job :: "(JobBudgetTracker \<Rightarrow> charged) \<Rightarrow> unit job" where
  "charge_job charge t =
     (case charge (js_tracker t) of
        (Inl e, k) \<Rightarrow> (Some (Inl (lit ''aggregate_budget'', show_budget_error e)), t\<lparr>js_tracker := k\<rparr>)
      | (Inr u, k) \<Rightarrow> (Some (Inr u), t\<lparr>js_tracker := k\<rparr>))"

definition write_job :: "str \<Rightarrow> bytes \<Rightarrow> unit job" where
  "write_job path content t = (Some (Inr ()), t\<lparr>js_files := put_file path content (js_files t)\<rparr>)"

text \<open>\<open>EXTRACT_TIMEOUT\<close> in seconds.\<close>

definition EXTRACT_TIMEOUT :: nat where "EXTRACT_TIMEOUT = 15"

definition run_sandboxed :: "extractor_env \<Rightarrow> str \<Rightarrow> str list \<Rightarrow> str list \<Rightarrow> str job" where
  "run_sandboxed X program args inputs t =
     (case sandbox_run (xe_host X) (xe_config X) (xe_workdir X) program args inputs EXTRACT_TIMEOUT (js_files t) of
        (Inl e, files) \<Rightarrow> (Some (Inl (lit ''extractor'', show_sandbox_error e)), t\<lparr>js_files := files\<rparr>)
      | (Inr r, files) \<Rightarrow>
          bind_job (charge_job (add_wall_seconds (of_nat (max (xe_seconds X program args (js_files t)) 1))))
            (\<lambda>_. return_job (from_utf8_lossy (so_stdout r))) (t\<lparr>js_files := files\<rparr>))"

definition at_workdir :: "extractor_env \<Rightarrow> string \<Rightarrow> str" where
  "at_workdir X name = dir_join (xe_workdir X) (lit name)"

section \<open>Text, HTML and JSON\<close>

text \<open>\<open>std::str::from_utf8\<close>: the text, if the bytes are its encoding.\<close>

definition from_utf8 :: "bytes \<Rightarrow> str option" where
  "from_utf8 b = (if as_bytes (from_utf8_lossy b) = b then Some (from_utf8_lossy b) else None)"

text \<open>\<open>fs::read_to_string\<close>.\<close>

definition read_text :: "extractor_env \<Rightarrow> str \<Rightarrow> str job" where
  "read_text X path t =
     (case map_of (js_files t) path of
        None \<Rightarrow> fail_job ''extractor_io'' (ho_missing (xe_host X)) t
      | Some b \<Rightarrow> lift_job ''extractor_io''
          (case from_utf8 b of None \<Rightarrow> Inl (lit ''stream did not contain valid UTF-8'') | Some s \<Rightarrow> Inr s) t)"

definition extract_plain :: "bytes \<Rightarrow> extract_error + extracted" where
  "extract_plain content =
     (case from_utf8 content of
        None \<Rightarrow> Inl (lit ''invalid_utf8'', lit ''plain text is not valid UTF-8'')
      | Some t \<Rightarrow> Inr (normalize_text t, lit ''utf8_plain_text'', ExtractionStatus.Complete, []))"

definition blocked_pattern :: str where
  "blocked_pattern =
     lit ''(?is)<(?:script|style|template|noscript)(?:'' @ [92] @
     lit ''s[^>]*)?>.*?</(?:script|style|template|noscript)'' @ [92] @ lit ''s*>''"

definition extract_html :: "extractor_env \<Rightarrow> bytes \<Rightarrow> extract_error + extracted" where
  "extract_html X content =
     (case from_utf8 content of
        None \<Rightarrow> Inl (lit ''invalid_utf8'', lit ''HTML is not valid UTF-8'')
      | Some html \<Rightarrow>
          Inr (normalize_text (join [10] (xe_html_text X (xe_replace_all X blocked_pattern html [32]))),
            lit ''static_html_text'', ExtractionStatus.Complete, []))"

definition extract_json :: "extractor_env \<Rightarrow> bytes \<Rightarrow> extract_error + extracted" where
  "extract_json X content =
     (case extract_legistar_json (xe_parse_json X) (xe_replace_all X) content of
        Inl e \<Rightarrow> Inl e | Inr (t, method) \<Rightarrow> Inr (t, method, ExtractionStatus.Complete, []))"

section \<open>PDF\<close>

definition attribute_f64 :: "float_lib \<Rightarrow> (bytes \<times> bytes) list \<Rightarrow> string \<Rightarrow> f64 option" where
  "attribute_f64 F attrs key =
     Option.bind (map_option snd (find (\<lambda>(k, _). named k key) attrs)) (\<lambda>v. Option.bind (from_utf8 v) (fl_parse F))"

text \<open>The text of a word; a text that does not decode is left out, and references are not resolved.\<close>

fun word_text :: "xml_event list \<Rightarrow> str \<Rightarrow> extract_error + str \<times> xml_event list" where
  "word_text [] content = Inr (trim content, [])"
| "word_text (XText decoded unescaped # es) content =
     word_text es (case decoded of Inl _ \<Rightarrow> content | Inr t \<Rightarrow> content @ t)"
| "word_text (XEnd n # es) content = (if named n ''word'' then Inr (trim content, es) else word_text es content)"
| "word_text (XError e # es) content = Inl (lit ''pdf_bbox'', e)"
| "word_text (XStart n attrs # es) content = word_text es content"
| "word_text (XOther # es) content = word_text es content"

record page_scan =
  sc_maps :: "TextMap list"
  sc_lines :: "str list"
  sc_page_number :: "32 word"
  sc_words :: "MapWord list"
  sc_line_words :: "str list"
  sc_width :: f64
  sc_height :: f64
  sc_in_page :: bool
  sc_in_line :: bool

definition initial_scan :: "PageDims \<Rightarrow> page_scan" where
  "initial_scan d = \<lparr>sc_maps = [], sc_lines = [], sc_page_number = 1, sc_words = [], sc_line_words = [],
     sc_width = pd_width d, sc_height = pd_height d, sc_in_page = False, sc_in_line = False\<rparr>"

definition start_page :: "float_lib \<Rightarrow> PageDims \<Rightarrow> (bytes \<times> bytes) list \<Rightarrow> page_scan \<Rightarrow> page_scan" where
  "start_page F d attrs p =
     p\<lparr>sc_in_page := True, sc_width := or_value (pd_width d) (attribute_f64 F attrs ''width''),
       sc_height := or_value (pd_height d) (attribute_f64 F attrs ''height''), sc_words := [], sc_line_words := []\<rparr>"

definition add_word :: "float_lib \<Rightarrow> (bytes \<times> bytes) list \<Rightarrow> str \<Rightarrow> page_scan \<Rightarrow> page_scan" where
  "add_word F attrs t p =
     p\<lparr>sc_words := sc_words p @ [\<lparr>mw_text = t, mw_rect =
         \<lparr>rect_x_min = or_value 0 (attribute_f64 F attrs ''xMin''), rect_y_min = or_value 0 (attribute_f64 F attrs ''yMin''),
          rect_x_max = or_value 0 (attribute_f64 F attrs ''xMax''), rect_y_max = or_value 0 (attribute_f64 F attrs ''yMax'')\<rparr>\<rparr>],
       sc_line_words := sc_line_words p @ [t]\<rparr>"

definition end_line :: "page_scan \<Rightarrow> page_scan" where
  "end_line p = p\<lparr>sc_lines := sc_lines p @ [join [32] (sc_line_words p)], sc_in_line := False, sc_line_words := []\<rparr>"

definition end_page :: "float_lib \<Rightarrow> hash \<Rightarrow> PageDims \<Rightarrow> page_scan \<Rightarrow> page_scan" where
  "end_page F sha d p =
     p\<lparr>sc_maps := sc_maps p @ [digested_map F sha
         \<lparr>ps_evidence_id = [], ps_page_number = sc_page_number p, ps_page_width = sc_width p, ps_page_height = sc_height p,
          ps_page_rotation = pd_rotation d, ps_extractor_version = [], ps_source_digest = []\<rparr> POPPLER (sc_words p)],
       sc_words := [], sc_lines := sc_lines p @ [[]], sc_page_number := sc_page_number p + 1,
       sc_in_page := False, sc_in_line := False\<rparr>"

lemma word_text_shorter: "word_text es content = Inr (t, rest) \<Longrightarrow> length rest \<le> length es"
  by (induction es content rule: word_text.induct) (auto split: if_splits intro: le_SucI)

function scan_pages :: "float_lib \<Rightarrow> hash \<Rightarrow> PageDims \<Rightarrow> xml_event list \<Rightarrow> page_scan \<Rightarrow> extract_error + page_scan" where
  "scan_pages F sha d [] p = Inr p"
| "scan_pages F sha d (XStart n attrs # es) p =
     (if named n ''page'' then scan_pages F sha d es (start_page F d attrs p)
      else if sc_in_page p \<and> named n ''line'' then scan_pages F sha d es (p\<lparr>sc_in_line := True, sc_line_words := []\<rparr>)
      else if sc_in_page p \<and> sc_in_line p \<and> named n ''word'' then
        (case word_text es [] of Inl e \<Rightarrow> Inl e
         | Inr (t, rest) \<Rightarrow> scan_pages F sha d rest (add_word F attrs t p))
      else scan_pages F sha d es p)"
| "scan_pages F sha d (XEnd n # es) p =
     (if named n ''line'' \<and> sc_in_page p \<and> sc_in_line p then scan_pages F sha d es (end_line p)
      else if named n ''page'' \<and> sc_in_page p then scan_pages F sha d es (end_page F sha d p)
      else scan_pages F sha d es p)"
| "scan_pages F sha d (XError e # es) p = Inl (lit ''pdf_bbox'', e)"
| "scan_pages F sha d (XText a b # es) p = scan_pages F sha d es p"
| "scan_pages F sha d (XOther # es) p = scan_pages F sha d es p"
  by pat_completeness auto
termination
  by (relation "measure (\<lambda>(_, _, _, es, _). length es)") (auto dest: word_text_shorter)

definition parse_all_pages ::
  "float_lib \<Rightarrow> hash \<Rightarrow> (str \<Rightarrow> xml_event list) \<Rightarrow> str \<Rightarrow> PageDims \<Rightarrow> extract_error + TextMap list \<times> str list" where
  "parse_all_pages F sha read_events xml d =
     (case scan_pages F sha d (read_events xml) (initial_scan d) of
        Inl e \<Rightarrow> Inl e | Inr p \<Rightarrow> Inr (sc_maps p, sc_lines p))"

text \<open>\<open>str::parse::<u32>\<close>.\<close>

definition parse_u32 :: "str \<Rightarrow> 32 word option" where
  "parse_u32 s =
     (if s \<noteq> [] \<and> hd s = 45 then None else map_option of_int (parse_int 0 (2 ^ 32 - 1) s))"

definition parse_page_count :: "str \<Rightarrow> 32 word option" where
  "parse_page_count output =
     first_some (\<lambda>line. Option.bind (after_prefix ''Pages:'' line) (\<lambda>v. parse_u32 (trim v))) (lines output)"

text \<open>The first line with the size; of its words the first is dropped, the second and third are read.\<close>

definition page_size :: "float_lib \<Rightarrow> str \<Rightarrow> (f64 \<times> f64) option" where
  "page_size F output =
     Option.bind (find (\<lambda>line. starts_with line (lit ''Page size:'')) (lines output)) (\<lambda>line.
       let ws = split_whitespace line in
       Option.bind (Option.bind (field_at ws 1) (fl_parse F)) (\<lambda>width.
         map_option (\<lambda>height. (width, height)) (Option.bind (field_at ws 2) (fl_parse F))))"

definition image_dimensions :: "extractor_env \<Rightarrow> str \<Rightarrow> (32 word \<times> 32 word) job" where
  "image_dimensions X path t = lift_job ''ocr_image'' (xe_image_dimensions X (map_of (js_files t) path)) t"

text \<open>The files of the directory \<open>ocr\<close> whose extension is \<open>png\<close>, sorted.\<close>

definition png_name :: "str \<Rightarrow> bool" where
  "png_name n \<longleftrightarrow> 47 \<notin> set n \<and> length n > 4 \<and> drop (length n - 4) n = lit ''.png''"

definition page_images :: "extractor_env \<Rightarrow> files \<Rightarrow> str list" where
  "page_images X files =
     sort (filter (\<lambda>p. case strip_prefix (at_workdir X ''ocr'' @ [47]) p of None \<Rightarrow> False | Some n \<Rightarrow> png_name n)
       (map fst files))"

definition ocr_page :: "extractor_env \<Rightarrow> PageDims \<Rightarrow> str \<Rightarrow> nat \<Rightarrow> str \<Rightarrow> TextMap job" where
  "ocr_page X d language index picture =
     (let tsv_base = at_workdir X ''ocr'' @ lit ''/page-'' @ show_nat index in
      bind_job (charge_job add_child_process) (\<lambda>_.
      bind_job (run_sandboxed X (lit ''tesseract'') [picture, tsv_base, lit ''-l'', language, lit ''tsv''] [picture]) (\<lambda>_.
      bind_job (read_text X (tsv_base @ lit ''.tsv'')) (\<lambda>tsv.
      bind_job (image_dimensions X picture) (\<lambda>(width, height).
        case parse_ocr_tsv (xe_floats X) (xe_sha X) tsv
            \<lparr>ps_evidence_id = [], ps_page_number = u32_of (Suc index), ps_page_width = pd_width d,
             ps_page_height = pd_height d, ps_page_rotation = pd_rotation d, ps_extractor_version = [],
             ps_source_digest = []\<rparr> width height of
          None \<Rightarrow> panic_job
        | Some (Inl e) \<Rightarrow> fail_job ''ocr_geometry'' (show_geometry_error e)
        | Some (Inr m) \<Rightarrow> return_job m)))))"

fun ocr_pages :: "extractor_env \<Rightarrow> PageDims \<Rightarrow> str \<Rightarrow> nat \<Rightarrow> str list \<Rightarrow> TextMap list job" where
  "ocr_pages X d language index [] = return_job []"
| "ocr_pages X d language index (picture # pictures) =
     bind_job (ocr_page X d language index picture) (\<lambda>m.
     bind_job (ocr_pages X d language (Suc index) pictures) (\<lambda>ms. return_job (m # ms)))"

definition ocr_text :: "TextMap list \<Rightarrow> str" where
  "ocr_text ms = concat (map (\<lambda>m. text_line (join [32] (map mw_text (tm_words m)))) ms)"

definition rendered_pages :: "extractor_env \<Rightarrow> str list job" where
  "rendered_pages X t = (Some (Inr (page_images X (js_files t))), t)"

definition ocr_pdf :: "extractor_env \<Rightarrow> 32 word \<Rightarrow> PageDims \<Rightarrow> str \<Rightarrow> extracted job" where
  "ocr_pdf X pages d language =
     (if pages > MAX_OCR_PAGES then fail_job ''ocr_page_limit'' (lit ''OCR is limited to 5 pages'')
      else
        bind_job (charge_job (add_ocr_pages pages)) (\<lambda>_.
        bind_job (charge_job add_child_process) (\<lambda>_.
        bind_job (run_sandboxed X (lit ''pdftoppm'')
            (map lit [''-png'', ''-r'', ''200'', ''-f'', ''1'', ''-l''] @ [show_nat (unat pages)] @
             map lit [''-scale-to'', ''4000''] @ [at_workdir X ''input.pdf'', at_workdir X ''ocr/page''])
            [at_workdir X ''input.pdf'']) (\<lambda>_.
        bind_job (rendered_pages X) (\<lambda>pictures.
        bind_job (ocr_pages X d language 0 pictures) (\<lambda>ms.
          if trim (ocr_text ms) = [] then fail_job ''ocr_empty'' (lit ''OCR produced no text'')
          else return_job (normalize_text (ocr_text ms), lit ''poppler_tesseract_ocr'', ExtractionStatus.CompleteWithOcr, ms)))))))"

definition text_or_ocr :: "extractor_env \<Rightarrow> 32 word \<Rightarrow> PageDims \<Rightarrow> bool \<Rightarrow> str \<Rightarrow> TextMap list \<times> str list \<Rightarrow> extracted job" where
  "text_or_ocr X pages d enable_ocr language parsed =
     (case parsed of (maps, page_lines) \<Rightarrow>
        if trim (join [10] page_lines) \<noteq> []
        then return_job (normalize_text (join [10] page_lines), POPPLER, ExtractionStatus.Complete, maps)
        else if \<not> enable_ocr
        then fail_job ''scanned_pdf_ocr_disabled'' (lit ''PDF contains no extractable text; optional OCR was not enabled'')
        else ocr_pdf X pages d language)"

definition pdf_pages :: "extractor_env \<Rightarrow> str \<Rightarrow> bool \<Rightarrow> str \<Rightarrow> 32 word \<Rightarrow> extracted job" where
  "pdf_pages X info enable_ocr language pages =
     (let (width, height) = or_value (0x4083200000000000, 0x4088C00000000000) (page_size (xe_floats X) info);
          d = \<lparr>pd_width = width, pd_height = height, pd_rotation = or_value 0 (parse_page_rotation info)\<rparr> in
      bind_job (charge_job (add_pdf_pages pages)) (\<lambda>_.
      bind_job (charge_job add_child_process) (\<lambda>_.
      bind_job (run_sandboxed X (lit ''pdftotext'') [lit ''-bbox-layout'', at_workdir X ''input.pdf'', at_workdir X ''bbox.xml'']
          [at_workdir X ''input.pdf'']) (\<lambda>_.
      bind_job (read_text X (at_workdir X ''bbox.xml'')) (\<lambda>xml.
      bind_job (result_job (parse_all_pages (xe_floats X) (xe_sha X) (xe_read_events X) xml d))
        (text_or_ocr X pages d enable_ocr language))))))"

definition extract_pdf :: "extractor_env \<Rightarrow> bytes \<Rightarrow> bool \<Rightarrow> str \<Rightarrow> extracted job" where
  "extract_pdf X document enable_ocr language =
     (if \<not> starts_with document (lit ''%PDF-'') then fail_job ''malformed_pdf'' (lit ''PDF signature is missing'')
      else
        bind_job (write_job (at_workdir X ''input.pdf'') document) (\<lambda>_.
        bind_job (charge_job add_child_process) (\<lambda>_.
        bind_job (run_sandboxed X (lit ''pdfinfo'') [at_workdir X ''input.pdf''] [at_workdir X ''input.pdf'']) (\<lambda>info.
          case parse_page_count info of
            None \<Rightarrow> fail_job ''pdf_metadata'' (lit ''pdfinfo did not return a valid page count'')
          | Some pages \<Rightarrow>
              if pages > MAX_PDF_PAGES
              then fail_job ''pdf_page_limit'' (lit ''PDF has '' @ show_nat (unat pages) @ lit '' pages; limit is 100'')
              else pdf_pages X info enable_ocr language pages))))"

section \<open>Dispatch by media type\<close>

text \<open>\<open>mime_type.split(';').next()\<close>, trimmed.\<close>

definition media_type :: "str \<Rightarrow> str" where
  "media_type mime = trim (hd (split_by (\<lambda>c. c = 59) mime))"

definition extract_by_type :: "extractor_env \<Rightarrow> bytes \<Rightarrow> str \<Rightarrow> bool \<Rightarrow> str \<Rightarrow> extracted job" where
  "extract_by_type X content mime enable_ocr language =
     (let kind = media_type mime in
      if kind = lit ''text/plain'' then result_job (extract_plain content)
      else if kind = lit ''text/html'' \<or> kind = lit ''application/xhtml+xml'' then result_job (extract_html X content)
      else if kind = lit ''application/json'' then result_job (extract_json X content)
      else if kind = lit ''application/pdf'' then extract_pdf X content enable_ocr language
      else fail_job ''unsupported_mime'' (lit ''unsupported MIME type: '' @ kind))"

definition within_text_limit :: "extracted \<Rightarrow> extract_error + extracted" where
  "within_text_limit r =
     (if byte_len (fst r) > MAX_EXTRACTED_BYTES
      then Inl (lit ''extracted_text_limit'',
        lit ''extracted text is '' @ show_nat (byte_len (fst r)) @ lit '' bytes; limit is '' @ show_nat MAX_EXTRACTED_BYTES)
      else Inr r)"

definition extraction_of :: "extract_error + extracted \<Rightarrow> Extraction" where
  "extraction_of r =
     (case r of
        Inr (t, method, status, maps) \<Rightarrow>
          \<lparr>ex_text = t, ex_method = method, ex_status = status, ex_error = None, ex_text_maps = maps\<rparr>
      | Inl (code, message) \<Rightarrow>
          \<lparr>ex_text = [], ex_method = lit ''none'', ex_status = ExtractionStatus.Failed,
           ex_error = Some \<lparr>err_code = code, err_message = message\<rparr>, ex_text_maps = []\<rparr>)"

definition extract_content ::
  "extractor_env \<Rightarrow> bytes \<Rightarrow> str \<Rightarrow> bool \<Rightarrow> str \<Rightarrow> job_state \<Rightarrow> Extraction option \<times> job_state" where
  "extract_content X content mime enable_ocr language t =
     (let (r, t') = bind_job (extract_by_type X content mime enable_ocr language)
        (\<lambda>r. result_job (within_text_limit r)) t in (map_option extraction_of r, t'))"

section \<open>Pages of a layout\<close>

text \<open>The maps so far are numbered from one, the counter is the next number, and each digest is that of its words.\<close>

definition numbered :: "TextMap list \<Rightarrow> bool" where
  "numbered maps \<longleftrightarrow> map tm_page_number maps = map (\<lambda>i. of_nat (Suc i)) [0..<length maps]"

definition poppler_map :: "float_lib \<Rightarrow> hash \<Rightarrow> int \<Rightarrow> TextMap \<Rightarrow> bool" where
  "poppler_map F sha rotation m \<longleftrightarrow>
     tm_digest m = compute_digest F sha m \<and> tm_extractor m = POPPLER \<and>
     tm_coordinate_system m = COORDINATE_SYSTEM \<and> tm_page_rotation m = rotation"

definition scan_ok :: "float_lib \<Rightarrow> hash \<Rightarrow> PageDims \<Rightarrow> page_scan \<Rightarrow> bool" where
  "scan_ok F sha d p \<longleftrightarrow>
     numbered (sc_maps p) \<and> sc_page_number p = of_nat (Suc (length (sc_maps p))) \<and>
     list_all (poppler_map F sha (pd_rotation d)) (sc_maps p)"

lemma scan_ok_updates:
  "scan_ok F sha d (start_page F d attrs p) = scan_ok F sha d p"
  "scan_ok F sha d (p\<lparr>sc_in_line := b, sc_line_words := ws\<rparr>) = scan_ok F sha d p"
  "scan_ok F sha d (add_word F attrs t p) = scan_ok F sha d p"
  "scan_ok F sha d (end_line p) = scan_ok F sha d p"
  by (simp_all add: scan_ok_def start_page_def add_word_def end_line_def)

lemma compute_digest_words: "tm_words m = tm_words m' \<Longrightarrow> compute_digest F sha m = compute_digest F sha m'"
  by (simp add: compute_digest_def)

lemma scan_ok_end_page: "scan_ok F sha d p \<Longrightarrow> scan_ok F sha d (end_page F sha d p)"
  by (auto simp: scan_ok_def end_page_def numbered_def poppler_map_def digested_map_def Let_def
      intro!: compute_digest_words)

lemma scan_pages_ok: "scan_pages F sha d es p = Inr p' \<Longrightarrow> scan_ok F sha d p \<Longrightarrow> scan_ok F sha d p'"
  by (induction F sha d es p rule: scan_pages.induct)
    (auto simp: scan_ok_updates scan_ok_end_page split: if_splits sum.splits prod.splits)

text \<open>
  The maps of a PDF come in the order of its pages: the page numbers are one, two and so on, and every map
  carries the digest of its own words.
\<close>

theorem pages_are_numbered:
  assumes "parse_all_pages F sha read_events xml d = Inr (maps, page_lines)"
  shows "map tm_page_number maps = map (\<lambda>i. of_nat (Suc i)) [0..<length maps] \<and>
    list_all (\<lambda>m. tm_digest m = compute_digest F sha m \<and> tm_page_rotation m = pd_rotation d) maps"
proof -
  obtain p where p: "scan_pages F sha d (read_events xml) (initial_scan d) = Inr p" "maps = sc_maps p"
    using assms by (auto simp: parse_all_pages_def split: sum.splits)
  have "scan_ok F sha d (initial_scan d)" by (simp add: scan_ok_def initial_scan_def numbered_def)
  then have "scan_ok F sha d p" using p(1) by (rule scan_pages_ok [rotated])
  then show ?thesis by (auto simp: p(2) scan_ok_def numbered_def poppler_map_def list_all_iff)
qed

theorem pages_are_numbered_witness:
  "\<exists>maps page_lines.
     parse_all_pages F sha (\<lambda>_. [XStart (lit ''page'') [], XEnd (lit ''page''), XStart (lit ''page'') [], XEnd (lit ''page'')])
       [] \<lparr>pd_width = 0, pd_height = 0, pd_rotation = 90\<rparr> = Inr (maps, page_lines) \<and>
     map tm_page_number maps = [1, 2]"
proof -
  let ?d = "\<lparr>pd_width = 0, pd_height = 0, pd_rotation = 90\<rparr>"
  let ?read = "\<lambda>_. [XStart (lit ''page'') [], XEnd (lit ''page''), XStart (lit ''page'') [], XEnd (lit ''page'')]"
  obtain maps page_lines where r: "parse_all_pages F sha ?read [] ?d = Inr (maps, page_lines)" "length maps = 2"
    by (simp add: parse_all_pages_def named_def initial_scan_def start_page_def end_page_def)
  from r(1) have "map tm_page_number maps = map (\<lambda>i. of_nat (Suc i)) [0..<length maps]"
    by (rule pages_are_numbered [THEN conjunct1])
  with r show ?thesis by (auto simp: upt_rec)
qed

section \<open>What extraction returns\<close>

definition normal_extracted :: "extracted \<Rightarrow> bool" where
  "normal_extracted r \<longleftrightarrow> normalize_text (fst r) = fst r"

lemma normal_extractors:
  "extract_plain content = Inr r \<Longrightarrow> normal_extracted r"
  "extract_html X content = Inr r \<Longrightarrow> normal_extracted r"
  "extract_json X content = Inr r \<Longrightarrow> normal_extracted r"
  by (auto simp: extract_plain_def extract_html_def extract_json_def extract_legistar_json_def normal_extracted_def
      normalize_text_twice split: option.splits sum.splits)

lemma bind_job_Inr: "bind_job m f t = (Some (Inr b), t') \<longleftrightarrow> (\<exists>a u. m t = (Some (Inr a), u) \<and> f a u = (Some (Inr b), t'))"
  by (auto simp: bind_job_def split: prod.splits sum.splits option.splits)

lemma fail_job_Inr [simp]: "fail_job code e t \<noteq> (Some (Inr b), t')"
  by (simp add: fail_job_def)

lemma return_job_Inr: "return_job a t = (Some (Inr b), t') \<longleftrightarrow> a = b \<and> t = t'"
  by (auto simp: return_job_def)

lemma result_job_Inr: "result_job x t = (Some (Inr b), t') \<longleftrightarrow> x = Inr b \<and> t = t'"
  by (auto simp: result_job_def)

lemmas job_Inr = bind_job_Inr return_job_Inr result_job_Inr

lemma normal_ocr: "ocr_pdf X pages d language t = (Some (Inr r), t') \<Longrightarrow> normal_extracted r"
  by (auto simp: ocr_pdf_def job_Inr normal_extracted_def normalize_text_twice split: if_splits)

lemma normal_text_or_ocr: "text_or_ocr X pages d enable_ocr language parsed t = (Some (Inr r), t') \<Longrightarrow> normal_extracted r"
  by (auto simp: text_or_ocr_def job_Inr normal_extracted_def normalize_text_twice
      split: if_splits prod.splits dest: normal_ocr)

lemma normal_pdf_pages: "pdf_pages X info enable_ocr language pages t = (Some (Inr r), t') \<Longrightarrow> normal_extracted r"
  by (cases "or_value (0x4083200000000000, 0x4088C00000000000) (page_size (xe_floats X) info)")
    (auto simp: pdf_pages_def job_Inr Let_def dest: normal_text_or_ocr)

lemma normal_pdf:
  assumes "extract_pdf X document enable_ocr language t = (Some (Inr r), t')"
  shows "normal_extracted r"
proof -
  obtain info u where "(case parse_page_count info of
        None \<Rightarrow> fail_job ''pdf_metadata'' (lit ''pdfinfo did not return a valid page count'')
      | Some pages \<Rightarrow>
          if pages > MAX_PDF_PAGES
          then fail_job ''pdf_page_limit'' (lit ''PDF has '' @ show_nat (unat pages) @ lit '' pages; limit is 100'')
          else pdf_pages X info enable_ocr language pages) u = (Some (Inr r), t')"
    using assms by (auto simp: extract_pdf_def bind_job_Inr split: if_splits)
  then show ?thesis by (auto split: option.splits if_splits dest: normal_pdf_pages)
qed

lemma normal_by_type: "extract_by_type X content mime enable_ocr language t = (Some (Inr r), t') \<Longrightarrow> normal_extracted r"
  by (auto simp: extract_by_type_def result_job_Inr Let_def split: if_splits dest: normal_extractors normal_pdf)

text \<open>
  A table panics only if its text column stands before another one: a row that is long enough for the text can
  then be too short for the other.
\<close>

definition text_column_first :: "str \<Rightarrow> bool" where
  "text_column_first tsv \<longleftrightarrow>
     (\<exists>header rows c. lines tsv = header # rows \<and> tsv_header (split_by (\<lambda>x. x = 9) header) = Inr c \<and>
        (\<exists>i \<in> {tc_level c, tc_page c, tc_left c, tc_top c, tc_width c, tc_height c}. tc_text c < i))"

lemma tsv_words_panic:
  "tsv_words F spec w h c rows = None \<Longrightarrow>
     \<exists>i \<in> {tc_level c, tc_page c, tc_left c, tc_top c, tc_width c, tc_height c}. tc_text c < i"
proof (induction rows)
  case (Cons l ls)
  show ?case
  proof (cases "tsv_row F spec w h c l")
    case RowPanic
    then show ?thesis
      by (simp add: tsv_row_def Let_def field_at_def split: if_splits option.splits)
  qed (use Cons in auto)
qed simp

lemma tsv_panic: "parse_ocr_tsv F sha tsv spec w h = None \<Longrightarrow> text_column_first tsv"
  by (auto simp: parse_ocr_tsv_def text_column_first_def split: list.splits sum.splits dest: tsv_words_panic)

definition bad_table :: "job_state \<Rightarrow> bool" where
  "bad_table t \<longleftrightarrow>
     (\<exists>path b tsv. map_of (js_files t) path = Some b \<and> from_utf8 b = Some tsv \<and> text_column_first tsv)"

lemma bad_tableI:
  "parse_ocr_tsv F sha tsv spec w h = None \<Longrightarrow> map_of (js_files t) path = Some b \<Longrightarrow> from_utf8 b = Some tsv \<Longrightarrow> bad_table t"
  unfolding bad_table_def by (blast dest: tsv_panic)

lemma bind_job_None:
  "bind_job m f t = (None, t') \<longleftrightarrow> m t = (None, t') \<or> (\<exists>a u. m t = (Some (Inr a), u) \<and> f a u = (None, t'))"
  by (auto simp: bind_job_def split: prod.splits sum.splits option.splits)

lemma no_panic [simp]:
  "return_job a t \<noteq> (None, t')" "fail_job code e t \<noteq> (None, t')" "result_job x t \<noteq> (None, t')"
  "lift_job code y t \<noteq> (None, t')" "charge_job charge t \<noteq> (None, t')" "write_job path content t \<noteq> (None, t')"
  "read_text X path t \<noteq> (None, t')" "image_dimensions X path t \<noteq> (None, t')" "rendered_pages X t \<noteq> (None, t')"
  by (auto simp: return_job_def fail_job_def result_job_def lift_job_def charge_job_def write_job_def read_text_def
      image_dimensions_def rendered_pages_def split: sum.splits option.splits prod.splits)

lemma run_sandboxed_no_panic [simp]: "run_sandboxed X program args inputs t \<noteq> (None, t')"
  by (auto simp: run_sandboxed_def bind_job_None split: sum.splits prod.splits)

lemma read_text_Inr:
  "read_text X path t = (Some (Inr s), t') \<Longrightarrow> t' = t \<and> (\<exists>b. map_of (js_files t) path = Some b \<and> from_utf8 b = Some s)"
  by (auto simp: read_text_def lift_job_def return_job_Inr split: option.splits sum.splits)

lemma image_dimensions_Inr: "image_dimensions X path t = (Some (Inr d), t') \<Longrightarrow> t' = t"
  by (auto simp: image_dimensions_def lift_job_def return_job_Inr split: sum.splits)

lemma ocr_page_panic: "ocr_page X d language i picture t = (None, t') \<Longrightarrow> bad_table t'"
  unfolding ocr_page_def Let_def bind_job_None
  by (elim disjE exE conjE; (simp add: bind_job_None)?)
    (auto simp: bind_job_None panic_job_def intro: bad_tableI split: option.split_asm sum.split_asm
      dest!: read_text_Inr image_dimensions_Inr)

lemma ocr_pages_panic: "ocr_pages X d language i pictures t = (None, t') \<Longrightarrow> bad_table t'"
  by (induction pictures arbitrary: i t) (auto simp: bind_job_None dest: ocr_page_panic)

lemma ocr_pdf_panic: "ocr_pdf X pages d language t = (None, t') \<Longrightarrow> bad_table t'"
  by (auto simp: ocr_pdf_def bind_job_None split: if_splits dest: ocr_pages_panic)

lemma text_or_ocr_panic:
  "text_or_ocr X pages d enable_ocr language parsed t = (None, t') \<Longrightarrow> enable_ocr \<and> bad_table t'"
  by (auto simp: text_or_ocr_def split: prod.splits if_splits dest: ocr_pdf_panic)

lemma pdf_pages_panic: "pdf_pages X info enable_ocr language pages t = (None, t') \<Longrightarrow> enable_ocr \<and> bad_table t'"
  by (auto simp: pdf_pages_def Let_def bind_job_None split: prod.splits dest: text_or_ocr_panic)

lemma extract_pdf_panic: "extract_pdf X document enable_ocr language t = (None, t') \<Longrightarrow> enable_ocr \<and> bad_table t'"
  by (auto simp: extract_pdf_def bind_job_None split: if_splits option.splits dest: pdf_pages_panic)

lemma by_type_panic:
  "extract_by_type X content mime enable_ocr language t = (None, t') \<Longrightarrow>
     media_type mime = lit ''application/pdf'' \<and> enable_ocr \<and> bad_table t'"
  by (auto simp: extract_by_type_def Let_def split: if_splits dest: extract_pdf_panic)

text \<open>
  C20: Whatever the media type and whatever the tools and libraries answer, an extraction that returns is either a
  text in normal form within the limit, without an error, or a structured error with no text and no maps.  It
  returns unless it panics, and it panics only in the OCR of a PDF, on a table that the OCR tool left in the working
  directory with the text column before another column that is read.
\<close>

theorem extraction_is_normal_or_failed:
  "case extract_content X content mime enable_ocr language t of
     (Some x, t') \<Rightarrow>
       normalize_text (ex_text x) = ex_text x \<and> byte_len (ex_text x) \<le> MAX_EXTRACTED_BYTES \<and>
       (ex_error x = None \<or> ex_text x = [] \<and> ex_text_maps x = [] \<and> ex_status x = ExtractionStatus.Failed)
   | (None, t') \<Rightarrow>
       media_type mime = lit ''application/pdf'' \<and> enable_ocr \<and>
       (\<exists>path b tsv. map_of (js_files t') path = Some b \<and> from_utf8 b = Some tsv \<and> text_column_first tsv)"
proof -
  obtain r u where run: "bind_job (extract_by_type X content mime enable_ocr language)
      (\<lambda>r. result_job (within_text_limit r)) t = (r, u)" by fastforce
  have x: "extract_content X content mime enable_ocr language t = (map_option extraction_of r, u)"
    by (simp add: extract_content_def run)
  consider "r = None" | e where "r = Some (Inl e)" | q where "r = Some (Inr q)" by (metis option.exhaust sum.exhaust)
  then show ?thesis
  proof cases
    case 1
    then have "extract_by_type X content mime enable_ocr language t = (None, u)" using run by (simp add: bind_job_None)
    then show ?thesis using by_type_panic 1 by (fastforce simp: x bad_table_def)
  next
    case (2 e)
    have "normalize_text [] = []" by (simp add: normalize_text_def normalized_newlines_def drop_blank_end_id)
    then show ?thesis using 2 by (cases e) (simp add: x extraction_of_def byte_len_def)
  next
    case (3 q)
    then have "normal_extracted q" "byte_len (fst q) \<le> MAX_EXTRACTED_BYTES"
      using run by (auto simp: job_Inr within_text_limit_def split: if_splits dest: normal_by_type)
    then show ?thesis using 3 by (cases q) (simp add: x extraction_of_def normal_extracted_def)
  qed
qed

section \<open>What the code shows\<close>

text \<open>
  The second word of a line that starts with \<open>Page size:\<close> starts with \<open>size:\<close>, which is not a number, so the
  size of the page is never read and the default is used.
\<close>

lemma page_size_is_never_read:
  assumes "fl_parse F (lit ''size:'') = None"
  shows "page_size F (lit ''Page size:      595.28 x 841.89 pts'') = None"
  using assms by (simp add: page_size_def lit_def split_whitespace_def split_by.simps field_at_def is_ws_def)

text \<open>A tool that fails or runs into its time limit is charged no time.\<close>

lemma failed_run_is_not_charged:
  assumes "sandbox_run (xe_host X) (xe_config X) (xe_workdir X) program args inputs EXTRACT_TIMEOUT (js_files t) = (Inl e, files)"
  shows "js_tracker (snd (run_sandboxed X program args inputs t)) = js_tracker t"
  using assms by (simp add: run_sandboxed_def)

text \<open>A page image that an earlier document left in the working directory is taken for a page of this one.\<close>

lemma starts_with_common: "starts_with (a @ b) (a @ c) = starts_with b c"
  by (induction a) auto

lemma images_of_an_earlier_document:
  assumes "at_workdir X ''ocr'' @ lit ''/page-2.png'' \<in> fst ` set files"
  shows "at_workdir X ''ocr'' @ lit ''/page-2.png'' \<in> set (page_images X files)"
  using assms by (simp add: page_images_def strip_prefix_def png_name_def lit_def starts_with_common)

text \<open>A table whose text column comes first, with a row of one field, makes the extractor panic.\<close>

lemma short_row_panics:
  assumes "tc_text c < length (split_by (\<lambda>x. x = 9) row)" "length (split_by (\<lambda>x. x = 9) row) \<le> tc_level c" "trim row \<noteq> []"
  shows "tsv_words F spec w h c (row # rows) = None"
  using assms by (simp add: tsv_row_def Let_def field_at_def)

end
