(* ===== verification/Documents.thy ===== *)
theory Documents
  imports TextExtraction
begin

text \<open>
  The ingestion of a document (\<open>pnull-ingest/src/lib.rs\<close>): validation of the request, budgets, preservation
  of the bytes under their digest, extraction, and the records of evidence, text maps and processing run;
  retrieval of a source with its observations; citation of a quote from stored text maps.  Failures of the
  file system are not modelled.
\<close>

section \<open>Requests and results\<close>

record IngestRequest =
  irq_jurisdiction :: str
  irq_source_url :: str
  irq_source_type :: SourceType
  irq_document_title :: str
  irq_publication_date :: "str option"
  irq_retrieval_timestamp :: str
  irq_mime_type :: str
  irq_original_filename :: str
  irq_supersedes :: "str option"
  irq_enable_ocr :: bool
  irq_ocr_language :: str
  irq_max_bytes :: nat

record IngestOutcome =
  io_record :: EvidenceRecord
  io_inserted :: bool
  io_extracted_text :: str
  io_text_maps :: "TextMap list"
  io_page_citations :: "PageCitation list"
  io_processing_run :: "ProcessingRun option"

record BuildMetadata =
  bm_pnull_version :: str
  bm_source_revision :: str
  bm_rules_digest :: str
  bm_state_config_digest :: str

text \<open>Besides the extractor: the crate \<open>url\<close>, the standard output of \<open>name --version\<close>, the printed duration.\<close>

record 'u ingest_env =
  ie_url :: "'u url_lib"
  ie_extractor :: extractor_env
  ie_tool_output :: "str \<Rightarrow> bytes option"
  ie_elapsed :: str

section \<open>Validation\<close>

definition language_char :: "uchar \<Rightarrow> bool" where
  "language_char c \<longleftrightarrow> is_alnum c \<or> c = 95 \<or> c = 43 \<or> c = 45"

definition validate_request :: "'u url_lib \<Rightarrow> IngestRequest \<Rightarrow> IngestError + unit" where
  "validate_request L r =
     (if trim (irq_jurisdiction r) = [] \<or> trim (irq_document_title r) = []
      then Inl (Metadata (lit ''jurisdiction and document title must not be empty''))
      else
        case url_parse L (irq_source_url r) of
          Inl e \<Rightarrow> Inl (Metadata (lit ''source URL: '' @ e))
        | Inr url \<Rightarrow>
            if url_scheme L url \<noteq> lit ''https'' then Inl IngestError.InsecureUrl
            else if irq_original_filename r = [] \<or>
              path_file_name (irq_original_filename r) \<noteq> Some (irq_original_filename r)
            then Inl (Metadata (lit ''original filename must be a single safe path component''))
            else if irq_enable_ocr r \<and> (irq_ocr_language r = [] \<or> \<not> list_all language_char (irq_ocr_language r))
            then Inl (Metadata (lit ''OCR language must contain only safe language-code characters''))
            else if irq_max_bytes r = 0 then Inl (Metadata (lit ''maximum input size must be positive''))
            else Inr ())"

section \<open>Records\<close>

text \<open>\<open>JobBudgetTracker::snapshot\<close> as text, keys in the order \<open>serde_json\<close> keeps them.\<close>

definition snapshot_field :: "string \<Rightarrow> nat \<Rightarrow> str" where
  "snapshot_field key n = [34] @ lit key @ [34, 58] @ show_nat n"

definition tracker_snapshot :: "JobBudgetTracker \<Rightarrow> str" where
  "tracker_snapshot t =
     [123] @ join [44]
       [snapshot_field ''attachments'' (unat (jt_attachments t)),
        snapshot_field ''child_processes'' (unat (jt_child_processes t)),
        snapshot_field ''cpu_seconds'' (unat (jt_cpu_seconds t)),
        snapshot_field ''downloaded_bytes'' (unat (jt_downloaded_bytes t)),
        snapshot_field ''extracted_bytes'' (unat (jt_extracted_bytes t)),
        snapshot_field ''ocr_pages'' (unat (jt_ocr_pages t)),
        snapshot_field ''pdf_pages'' (unat (jt_pdf_pages t)),
        snapshot_field ''wall_seconds'' (unat (jt_wall_seconds t))] @ [125]"

definition native_tool_version :: "(str \<Rightarrow> bytes option) \<Rightarrow> str \<Rightarrow> str option" where
  "native_tool_version tool_output n =
     (case tool_output n of
        None \<Rightarrow> None
      | Some stdout \<Rightarrow>
          let line = (case lines (from_utf8_lossy stdout) of [] \<Rightarrow> [] | l # _ \<Rightarrow> l) in
          if trim line = [] then None else Some (trim line))"

definition native_tool_versions :: "(str \<Rightarrow> bytes option) \<Rightarrow> NativeTool list" where
  "native_tool_versions tool_output =
     List.map_filter (\<lambda>n. map_option (\<lambda>v. \<lparr>nt_name = n, nt_version = v\<rparr>) (native_tool_version tool_output n))
       (map lit [''pdftotext'', ''pdfinfo'', ''pdftoppm'', ''tesseract'', ''bwrap'', ''prlimit''])"

definition build_processing_run ::
  "'u ingest_env \<Rightarrow> BuildMetadata \<Rightarrow> IngestRequest \<Rightarrow> JobBudgetTracker \<Rightarrow> EvidenceRecord \<Rightarrow> TextMap list \<Rightarrow>
   str \<Rightarrow> StructuredError list \<Rightarrow> ProcessingRun" where
  "build_processing_run E build request tracker r maps outcome errors =
     \<lparr>run_id = stable_id (xe_sha (ie_extractor E)) (lit ''run'') [evr_id r, irq_retrieval_timestamp request, outcome],
      run_schema_version = 4, run_pnull_version = bm_pnull_version build, run_source_revision = bm_source_revision build,
      run_rules_digest = bm_rules_digest build, run_state_config_digest = bm_state_config_digest build,
      run_input_evidence_ids = [evr_id r], run_native_tools = native_tool_versions (ie_tool_output E),
      run_sandbox_backend = lit ''bubblewrap'',
      run_sandbox_version = or_value (lit ''unknown'') (native_tool_version (ie_tool_output E) (lit ''bwrap'')),
      run_resource_budgets = tracker_snapshot tracker, run_resource_consumption = tracker_snapshot tracker,
      run_started_at = irq_retrieval_timestamp request, run_completed_at = ie_elapsed E, run_outcome = outcome,
      run_errors = errors,
      run_output_artifacts = map (\<lambda>m. \<lparr>oa_kind = lit ''text_map'', oa_id = tm_id m, oa_digest = tm_digest m\<rparr>) maps\<rparr>"

definition line_locators :: "str \<Rightarrow> Locator list" where
  "line_locators t =
     (let n = length (lines t) in
      if n = 0 then []
      else [\<lparr>loc_kind = lit ''line'', loc_start = 1, loc_end = u32_of n, loc_label = lit ''lines 1-'' @ show_nat n\<rparr>])"

definition document_record :: "hash \<Rightarrow> BuildMetadata \<Rightarrow> IngestRequest \<Rightarrow> str \<Rightarrow> Extraction \<Rightarrow> EvidenceRecord" where
  "document_record sha build request digest x =
     \<lparr>evr_id = evidence_id sha (irq_jurisdiction request) (irq_source_url request) digest,
      evr_jurisdiction = irq_jurisdiction request, evr_source_url = irq_source_url request,
      evr_source_type = irq_source_type request, evr_document_title = irq_document_title request,
      evr_publication_date = irq_publication_date request,
      evr_retrieval_timestamp = irq_retrieval_timestamp request, evr_mime_type = irq_mime_type request,
      evr_sha256 = digest, evr_original_filename = irq_original_filename request,
      evr_extraction_method = ex_method x, evr_extraction_status = ex_status x, evr_extraction_error = ex_error x,
      evr_locators = line_locators (ex_text x), evr_matched_rule_ids = [], evr_quoted_source_spans = [],
      evr_supersedes = irq_supersedes request, evr_processing_version = bm_pnull_version build\<rparr>"

text \<open>A map bound to the preserved evidence.\<close>

definition bind_map :: "hash \<Rightarrow> EvidenceRecord \<Rightarrow> TextMap \<Rightarrow> TextMap" where
  "bind_map sha r m =
     m\<lparr>tm_evidence_id := evr_id r, tm_source_digest := evr_sha256 r,
       tm_id := text_map_id_for sha (evr_id r) (tm_page_number m) (tm_digest m)\<rparr>"

definition persist_content :: "hash \<Rightarrow> str \<Rightarrow> bytes \<Rightarrow> (IngestError, unit) op" where
  "persist_content sha digest content s =
     (case content_path digest of
        Inl _ \<Rightarrow> (Inl IngestError.Io, s)
      | Inr path \<Rightarrow>
          (case st_content s path of
             None \<Rightarrow> (Inr (), s\<lparr>st_content := (st_content s)(path \<mapsto> content)\<rparr>)
           | Some existing \<Rightarrow>
               if sha256_hex sha existing \<noteq> digest then (Inl IngestError.Io, s) else (Inr (), s)))"

text \<open>The records of an extraction: evidence and text, then each map, then the run.\<close>

definition keep_document ::
  "'u ingest_env \<Rightarrow> BuildMetadata \<Rightarrow> IngestRequest \<Rightarrow> JobBudgetTracker \<Rightarrow> str \<Rightarrow> Extraction \<Rightarrow>
   (IngestError, IngestOutcome) op" where
  "keep_document E build request tracker digest x =
     (let sha = xe_sha (ie_extractor E);
          r = document_record sha build request digest x;
          maps = map (bind_map sha r) (ex_text_maps x);
          run = build_processing_run E build request tracker r maps (lit ''complete'') [] in
      bind_op (stmt Core (insert_evidence r (ex_text x))) (\<lambda>inserted.
      bind_op (for_op (\<lambda>m _. bind_op (stmt Core (insert_text_map m)) (\<lambda>_. return_op ())) maps ()) (\<lambda>_.
      bind_op (stmt Core (insert_processing_run run)) (\<lambda>_.
      return_op \<lparr>io_record = r, io_inserted = inserted, io_extracted_text = ex_text x, io_text_maps = maps,
        io_page_citations = [], io_processing_run = Some run\<rparr>))))"

section \<open>Ingestion\<close>

text \<open>Steps on the store and the state of the job; \<open>None\<close> is a panic of the extraction.\<close>

type_synonym 'a ingest = "store \<times> job_state \<Rightarrow> (IngestError + 'a) option \<times> store \<times> job_state"

definition bind_ingest :: "'a ingest \<Rightarrow> ('a \<Rightarrow> 'b ingest) \<Rightarrow> 'b ingest" where
  "bind_ingest m f st =
     (case m st of
        (None, st') \<Rightarrow> (None, st')
      | (Some (Inl e), st') \<Rightarrow> (Some (Inl e), st')
      | (Some (Inr a), st') \<Rightarrow> f a st')"

definition on_store :: "(IngestError, 'a) op \<Rightarrow> 'a ingest" where
  "on_store m st = (case m (fst st) of (r, s') \<Rightarrow> (Some r, s', snd st))"

definition charge_ingest :: "(JobBudgetTracker \<Rightarrow> charged) \<Rightarrow> unit ingest" where
  "charge_ingest charge st =
     (case charge (js_tracker (snd st)) of
        (Inl e, k) \<Rightarrow> (Some (Inl (Budget e)), fst st, (snd st)\<lparr>js_tracker := k\<rparr>)
      | (Inr u, k) \<Rightarrow> (Some (Inr u), fst st, (snd st)\<lparr>js_tracker := k\<rparr>))"

definition extraction_step :: "extractor_env \<Rightarrow> IngestRequest \<Rightarrow> bytes \<Rightarrow> Extraction ingest" where
  "extraction_step X request content st =
     (case extract_content X content (irq_mime_type request) (irq_enable_ocr request) (irq_ocr_language request) (snd st) of
        (x, t') \<Rightarrow> (map_option Inr x, fst st, t'))"

definition keep_step ::
  "'u ingest_env \<Rightarrow> BuildMetadata \<Rightarrow> IngestRequest \<Rightarrow> str \<Rightarrow> Extraction \<Rightarrow> IngestOutcome ingest" where
  "keep_step E build request digest x st =
     on_store (keep_document E build request (js_tracker (snd st)) digest x) st"

definition admit :: "'u url_lib \<Rightarrow> IngestRequest \<Rightarrow> bytes \<Rightarrow> IngestError + unit" where
  "admit L request content =
     (case validate_request L request of
        Inl e \<Rightarrow> Inl e
      | Inr _ \<Rightarrow>
          if length content > irq_max_bytes request then Inl (IngestError.Oversized (irq_max_bytes request) (length content))
          else Inr ())"

definition ingest_bytes ::
  "'u ingest_env \<Rightarrow> BuildMetadata \<Rightarrow> IngestRequest \<Rightarrow> bytes \<Rightarrow> IngestOutcome ingest" where
  "ingest_bytes E build request content =
     (let sha = xe_sha (ie_extractor E); digest = sha256_hex sha content in
      bind_ingest (on_store (lift_op (admit (ie_url E) request content))) (\<lambda>_.
      bind_ingest (charge_ingest (add_downloaded_bytes (of_nat (length content)))) (\<lambda>_.
      bind_ingest (charge_ingest add_attachment) (\<lambda>_.
      bind_ingest (on_store (persist_content sha digest content)) (\<lambda>_.
      bind_ingest (extraction_step (ie_extractor E) request content) (\<lambda>x.
      bind_ingest (charge_ingest (add_extracted_bytes (of_nat (byte_len (ex_text x))))) (\<lambda>_.
      keep_step E build request digest x)))))))"

section \<open>Retrieval and citation\<close>

definition fetch_source ::
  "'u url_lib \<Rightarrow> hash \<Rightarrow> 'u resolver \<Rightarrow> 'u transport \<Rightarrow> str option \<Rightarrow> str list \<Rightarrow> str \<Rightarrow> str \<Rightarrow> nat \<Rightarrow>
   PriorEvidence option \<Rightarrow> (IngestError, bytes \<times> FetchObservation list) op" where
  "fetch_source L sha resolve transport source_id reviewed_hosts url retrieved_at max_bytes prior =
     bind_op (lift_op (case fst (provenance_fetch L sha
           \<lparr>fc_reviewed_hosts = reviewed_hosts, fc_max_bytes = max_bytes\<rparr> resolve transport
           \<lparr>freq_source_id = source_id, freq_requested_url = url, freq_retrieved_at = retrieved_at, freq_prior = prior\<rparr>) of
         Inl e \<Rightarrow> Inl (Http e) | Inr result \<Rightarrow> Inr result)) (\<lambda>result.
     bind_op (for_op (\<lambda>x _. bind_op (stmt Core (insert_fetch_observation x)) (\<lambda>_. return_op ()))
         (fres_observations result) ()) (\<lambda>_.
     case fres_body result of
       None \<Rightarrow> fail_op (Metadata (lit ''304: no new content observed''))
     | Some body \<Rightarrow> return_op (body, fres_observations result)))"

fun cite_in_maps :: "hash \<Rightarrow> str \<Rightarrow> nat \<Rightarrow> EvidenceRecord \<Rightarrow> TextMap list \<Rightarrow> IngestError + PageCitation" where
  "cite_in_maps sha quote i r [] =
     Inl (Metadata (lit ''quote not found in any text map for '' @ evr_id r))"
| "cite_in_maps sha quote i r (m # ms) =
     (case validate_text_map m of
        Inl e \<Rightarrow> Inl (Geometry e)
      | Inr _ \<Rightarrow>
          if i < length (find_occurrences m quote) then
            (case build_page_citation sha m quote i (or_value (0, 0) (normalized_range m quote)) None (evr_sha256 r) of
               Inl e \<Rightarrow> Inl (Geometry e) | Inr c \<Rightarrow> Inr c)
          else cite_in_maps sha quote i r ms)"

text \<open>The stored record of an identifier has that identifier.\<close>

definition cite_quote :: "hash \<Rightarrow> str \<Rightarrow> str \<Rightarrow> nat \<Rightarrow> store \<Rightarrow> IngestError + PageCitation" where
  "cite_quote sha eid quote i s =
     (case evidence eid s of
        Inl e \<Rightarrow> Inl (Core e)
      | Inr (r, _) \<Rightarrow> cite_in_maps sha quote i r (text_maps eid s))"

section \<open>The steps of an ingestion\<close>

lemma bind_ingest_Inr:
  "bind_ingest m f st = (Some (Inr b), st') \<longleftrightarrow> (\<exists>a u. m st = (Some (Inr a), u) \<and> f a u = (Some (Inr b), st'))"
  by (auto simp: bind_ingest_def split: prod.splits sum.splits option.splits)

lemma on_store_Inr: "on_store m (s, t) = (Some (Inr a), s', t') \<longleftrightarrow> m s = (Inr a, s') \<and> t' = t"
  by (auto simp: on_store_def split: prod.splits)

lemma charge_ingest_store: "charge_ingest c (s, t) = (Some (Inr a), s', t') \<Longrightarrow> s' = s"
  by (auto simp: charge_ingest_def split: prod.splits sum.splits)

lemma extraction_step_store: "extraction_step X request content (s, t) = (Some (Inr x), s', t') \<Longrightarrow> s' = s"
  by (auto simp: extraction_step_def split: prod.splits)

lemma keep_step_Inr:
  "keep_step E build request digest x (s, t) = (Some (Inr out), s', t') \<longleftrightarrow>
     keep_document E build request (js_tracker t) digest x s = (Inr out, s') \<and> t' = t"
  by (simp add: keep_step_def on_store_Inr)

lemma ingest_parts:
  assumes "ingest_bytes E build request content (s, t) = (Some (Inr out), s', t')"
  obtains s1 x k where
    "persist_content (xe_sha (ie_extractor E)) (sha256_hex (xe_sha (ie_extractor E)) content) content s = (Inr (), s1)"
    "keep_document E build request k (sha256_hex (xe_sha (ie_extractor E)) content) x s1 = (Inr out, s')"
  using assms
  by (auto simp: ingest_bytes_def bind_ingest_Inr on_store_Inr lift_op_Inr keep_step_Inr Let_def
      dest!: charge_ingest_store extraction_step_store)

lemma persist_content_kept:
  assumes "persist_content sha digest content s = (Inr (), s')" "digest = sha256_hex sha content"
  shows "(\<exists>b. st_content s' digest = Some b \<and> sha256_hex sha b = digest) \<and> st_evidence s' = st_evidence s \<and>
    st_record_files s' = st_record_files s \<and>
    (\<forall>b. st_content s digest = Some b \<longrightarrow> st_content s' = st_content s)"
  using assms
  by (auto simp: persist_content_def content_path_def split: sum.splits option.splits if_splits)

text \<open>The loop over the maps keeps the evidence and leaves every identifier in the table.\<close>

definition insert_maps :: "TextMap list \<Rightarrow> (IngestError, unit) op" where
  "insert_maps maps = for_op (\<lambda>m _. bind_op (stmt Core (insert_text_map m)) (\<lambda>_. return_op ())) maps ()"

lemma insert_text_map_frame:
  assumes "insert_text_map m s = Inr (b, s')"
  shows "st_evidence s' = st_evidence s" "st_record_files s' = st_record_files s" "st_content s' = st_content s"
    "tm_id ` set (st_text_maps s) \<subseteq> tm_id ` set (st_text_maps s')"
  using assms text_maps_table.never_forgets [OF assms]
  by (auto simp: insert_text_map_def split: if_splits prod.splits)

lemma insert_maps_parts:
  "insert_maps maps s = (Inr (), s') \<Longrightarrow>
     st_evidence s' = st_evidence s \<and> st_record_files s' = st_record_files s \<and> st_content s' = st_content s \<and>
     tm_id ` set (st_text_maps s) \<union> tm_id ` set maps \<subseteq> tm_id ` set (st_text_maps s')"
proof (induction maps arbitrary: s)
  case (Cons m ms)
  then obtain b s1 where step: "insert_text_map m s = Inr (b, s1)" "insert_maps ms s1 = (Inr (), s')"
    by (auto simp: insert_maps_def op_Inr)
  show ?case using Cons.IH [OF step(2)] insert_text_map_frame [OF step(1)] text_maps_table.key_present [OF step(1)]
    by auto
qed (simp add: insert_maps_def op_Inr)

lemma insert_run_frame:
  assumes "insert_processing_run r s = Inr (b, s')"
  shows "st_evidence s' = st_evidence s" "st_record_files s' = st_record_files s" "st_content s' = st_content s"
    "st_text_maps s' = st_text_maps s"
  using assms by (auto simp: insert_processing_run_def split: prod.splits)

lemma insert_evidence_frame:
  assumes "insert_evidence r t s = Inr (b, s')"
  shows "b \<longleftrightarrow> evr_id r \<notin> (evr_id \<circ> fst) ` set (st_evidence s)" "st_content s' = st_content s"
    "evr_id r \<in> (evr_id \<circ> fst) ` set (st_evidence s')" "\<not> b \<Longrightarrow> s' = s"
    "b \<Longrightarrow> evidence (evr_id r) s' = Inr (r, t)"
proof -
  show "b \<longleftrightarrow> evr_id r \<notin> (evr_id \<circ> fst) ` set (st_evidence s)" "st_content s' = st_content s"
    "evr_id r \<in> (evr_id \<circ> fst) ` set (st_evidence s')" "\<not> b \<Longrightarrow> s' = s"
    using assms by (auto simp: insert_evidence_def split: if_splits sum.splits)
  assume b
  then have new: "select_by (evr_id \<circ> fst) (evr_id r) (st_evidence s) = None" "st_evidence s' = st_evidence s @ [(r, t)]"
    using assms by (auto simp: insert_evidence_def select_by_None_iff split: if_splits sum.splits)
  then show "evidence (evr_id r) s' = Inr (r, t)" by (simp add: evidence_def select_by_append)
qed

lemma keep_document_parts:
  assumes "keep_document E build request k digest x s = (Inr out, s')"
  obtains s1 s2 b where
    "io_record out = document_record (xe_sha (ie_extractor E)) build request digest x"
    "io_extracted_text out = ex_text x"
    "io_text_maps out = map (bind_map (xe_sha (ie_extractor E)) (io_record out)) (ex_text_maps x)"
    "insert_evidence (io_record out) (io_extracted_text out) s = Inr (io_inserted out, s1)"
    "insert_maps (io_text_maps out) s1 = (Inr (), s2)"
    "insert_processing_run (build_processing_run E build request k (io_record out) (io_text_maps out) (lit ''complete'') []) s2 = Inr (b, s')"
    "io_processing_run out = Some (build_processing_run E build request k (io_record out) (io_text_maps out) (lit ''complete'') [])"
  using assms by (auto simp: keep_document_def Let_def op_Inr insert_maps_def)

section \<open>Properties\<close>

text \<open>
  C10: A successful ingestion keeps the document: the record names the digest of the bytes and the identifier derived
  from them, the store holds bytes of that digest and a record of that identifier (this one, with the
  extracted text, when it was inserted), every text map is bound to the record and stored, and so is the run.
\<close>

theorem ingested_document_is_kept:
  assumes "ingest_bytes E build request content (s, t) = (Some (Inr out), s', t')"
  shows "evr_sha256 (io_record out) = sha256_hex (xe_sha (ie_extractor E)) content \<and>
    evr_id (io_record out) = evidence_id (xe_sha (ie_extractor E)) (irq_jurisdiction request) (irq_source_url request)
      (evr_sha256 (io_record out)) \<and>
    (\<exists>b. st_content s' (evr_sha256 (io_record out)) = Some b \<and>
      sha256_hex (xe_sha (ie_extractor E)) b = evr_sha256 (io_record out)) \<and>
    evr_id (io_record out) \<in> (evr_id \<circ> fst) ` set (st_evidence s') \<and>
    (io_inserted out \<longrightarrow> evidence (evr_id (io_record out)) s' = Inr (io_record out, io_extracted_text out)) \<and>
    (\<forall>m \<in> set (io_text_maps out). tm_evidence_id m = evr_id (io_record out) \<and>
      tm_source_digest m = evr_sha256 (io_record out) \<and> tm_id m \<in> tm_id ` set (st_text_maps s')) \<and>
    (\<exists>run. io_processing_run out = Some run \<and> run_id run \<in> run_id ` set (st_runs s'))"
proof -
  let ?sha = "xe_sha (ie_extractor E)"
  let ?digest = "sha256_hex ?sha content"
  obtain s1 x k where persist: "persist_content ?sha ?digest content s = (Inr (), s1)"
    and keep: "keep_document E build request k ?digest x s1 = (Inr out, s')"
    using assms by (rule ingest_parts)
  note parts = keep_document_parts [OF keep]
  obtain s2 s3 b where r: "io_record out = document_record ?sha build request ?digest x"
    and maps: "io_text_maps out = map (bind_map ?sha (io_record out)) (ex_text_maps x)"
    and ins: "insert_evidence (io_record out) (io_extracted_text out) s1 = Inr (io_inserted out, s2)"
    and loop: "insert_maps (io_text_maps out) s2 = (Inr (), s3)"
    and last: "insert_processing_run (build_processing_run E build request k (io_record out) (io_text_maps out) (lit ''complete'') []) s3 = Inr (b, s')"
    and run: "io_processing_run out = Some (build_processing_run E build request k (io_record out) (io_text_maps out) (lit ''complete'') [])"
    by (rule parts)
  have digest: "evr_sha256 (io_record out) = ?digest" and eid: "evr_id (io_record out) = evidence_id ?sha (irq_jurisdiction request) (irq_source_url request) ?digest"
    using r by (simp_all add: document_record_def)
  have ev: "st_evidence s' = st_evidence s2" and content: "st_content s' = st_content s1"
    using insert_run_frame [OF last] insert_maps_parts [OF loop] insert_evidence_frame(2) [OF ins] by simp_all
  have "io_inserted out \<longrightarrow> evidence (evr_id (io_record out)) s' = Inr (io_record out, io_extracted_text out)"
    using insert_evidence_frame(5) [OF ins] ev by (simp add: evidence_def)
  moreover have "\<forall>m \<in> set (io_text_maps out). tm_id m \<in> tm_id ` set (st_text_maps s')"
    using insert_maps_parts [OF loop] insert_run_frame(4) [OF last] by auto
  moreover have "\<forall>m \<in> set (io_text_maps out). tm_evidence_id m = evr_id (io_record out) \<and> tm_source_digest m = evr_sha256 (io_record out)"
    using maps by (auto simp: bind_map_def)
  ultimately show ?thesis
    using digest eid ev content persist_content_kept [OF persist refl] insert_evidence_frame(3) [OF ins] run
      runs_table.key_present [OF last] by auto
qed

text \<open>What a second ingestion adds to the tables of maps and runs.\<close>

lemma insert_maps_adds:
  "insert_maps maps s = (Inr (), s') \<Longrightarrow>
     \<exists>ms. set ms \<subseteq> set maps \<and> tm_id ` set ms \<inter> tm_id ` set (st_text_maps s) = {} \<and>
       s' = s\<lparr>st_text_maps := st_text_maps s @ ms\<rparr>"
proof (induction maps arbitrary: s)
  case (Cons m maps)
  then obtain b s1 where step: "insert_text_map m s = Inr (b, s1)" "insert_maps maps s1 = (Inr (), s')"
    by (auto simp: insert_maps_def op_Inr)
  obtain ms where ms: "set ms \<subseteq> set maps" "tm_id ` set ms \<inter> tm_id ` set (st_text_maps s1) = {}"
    "s' = s1\<lparr>st_text_maps := st_text_maps s1 @ ms\<rparr>" using Cons.IH [OF step(2)] by blast
  show ?case
  proof (cases "tm_id m \<in> tm_id ` set (st_text_maps s)")
    case True
    then have "s1 = s" using step(1) by (simp add: insert_text_map_def insert_or_ignore_def)
    then show ?thesis using ms by (intro exI [of _ ms]) auto
  next
    case False
    then have "s1 = s\<lparr>st_text_maps := st_text_maps s @ [m]\<rparr>"
      using step(1) by (auto simp: insert_text_map_def insert_or_ignore_def split: if_splits)
    then show ?thesis using ms False by (intro exI [of _ "m # ms"]) auto
  qed
qed (simp add: insert_maps_def op_Inr)

lemma insert_run_adds:
  "insert_processing_run r s = Inr (b, s') \<Longrightarrow> \<exists>rs. set rs \<subseteq> {r} \<and> s' = s\<lparr>st_runs := st_runs s @ rs\<rparr>"
  by (cases "run_id r \<in> run_id ` set (st_runs s)")
    (auto simp: insert_processing_run_def insert_or_ignore_def intro: exI [of _ "[]"] exI [of _ "[r]"])

lemma persist_again:
  assumes "persist_content sha digest content s = (Inr (), s')" "digest = sha256_hex sha content"
    "persist_content sha digest content s1 = (Inr (), s1')" "st_content s1 = st_content s'"
  shows "s1' = s1"
  using assms persist_content_kept [OF assms(1,2)]
  by (auto simp: persist_content_def content_path_def split: sum.splits option.splits if_splits)

text \<open>
  C27: Ingesting the same bytes for the same jurisdiction and source address again, with any other request, build and
  tools of the same hash, inserts no evidence: record, text, kept bytes and every other table stay as they
  were, whatever the second extraction answers.  Only text maps of new identifiers and a run of a new identifier are
  added, as they are in the outcome.
\<close>

theorem ingestion_is_idempotent:
  assumes "ingest_bytes E build request content (s, t) = (Some (Inr out), s', t')"
    and "ingest_bytes E2 build2 request2 content (s', u) = (Some (Inr out2), s'', u')"
    and "xe_sha (ie_extractor E2) = xe_sha (ie_extractor E)"
    and "irq_jurisdiction request2 = irq_jurisdiction request" "irq_source_url request2 = irq_source_url request"
  shows "\<not> io_inserted out2 \<and> evr_id (io_record out2) = evr_id (io_record out) \<and>
    (\<exists>maps runs. s'' = s'\<lparr>st_text_maps := st_text_maps s' @ maps, st_runs := st_runs s' @ runs\<rparr> \<and>
       set maps \<subseteq> set (io_text_maps out2) \<and> tm_id ` set maps \<inter> tm_id ` set (st_text_maps s') = {} \<and>
       set runs \<subseteq> set_option (io_processing_run out2))"
proof -
  let ?sha = "xe_sha (ie_extractor E)"
  let ?digest = "sha256_hex ?sha content"
  obtain s1 x k where first: "persist_content ?sha ?digest content s = (Inr (), s1)"
    "keep_document E build request k ?digest x s1 = (Inr out, s')"
    using assms(1) by (rule ingest_parts)
  obtain s2 s3 b where r: "io_record out = document_record ?sha build request ?digest x"
    and ins: "insert_evidence (io_record out) (io_extracted_text out) s1 = Inr (io_inserted out, s2)"
    and loop: "insert_maps (io_text_maps out) s2 = (Inr (), s3)"
    and last: "insert_processing_run (build_processing_run E build request k (io_record out) (io_text_maps out) (lit ''complete'') []) s3 = Inr (b, s')"
    by (rule keep_document_parts [OF first(2)])
  obtain s4 x2 k2 where second: "persist_content ?sha ?digest content s' = (Inr (), s4)"
    "keep_document E2 build2 request2 k2 ?digest x2 s4 = (Inr out2, s'')"
    using assms(2) unfolding assms(3) [symmetric] by (rule ingest_parts)
  let ?run = "build_processing_run E2 build2 request2 k2 (io_record out2) (io_text_maps out2) (lit ''complete'') []"
  obtain s5 s6 b2 where r2: "io_record out2 = document_record ?sha build2 request2 ?digest x2"
    and ins2: "insert_evidence (io_record out2) (io_extracted_text out2) s4 = Inr (io_inserted out2, s5)"
    and loop2: "insert_maps (io_text_maps out2) s5 = (Inr (), s6)"
    and last2: "insert_processing_run ?run s6 = Inr (b2, s'')" and run2: "io_processing_run out2 = Some ?run"
    by (rule keep_document_parts [OF second(2), unfolded assms(3)])
  have eid: "evr_id (io_record out2) = evr_id (io_record out)" using r r2 assms(4,5) by (simp add: document_record_def)
  have content: "st_content s' = st_content s1" and ev: "st_evidence s' = st_evidence s2"
    using insert_run_frame [OF last] insert_maps_parts [OF loop] insert_evidence_frame(2) [OF ins] by simp_all
  have same: "s4 = s'" using persist_again [OF first(1) refl second(1) content] .
  have old: "\<not> io_inserted out2"
    using insert_evidence_frame(1) [OF ins2] insert_evidence_frame(3) [OF ins] ev same eid by simp
  then have s5: "s5 = s'" using insert_evidence_frame(4) [OF ins2] same by blast
  obtain maps where maps: "set maps \<subseteq> set (io_text_maps out2)" "tm_id ` set maps \<inter> tm_id ` set (st_text_maps s') = {}"
    "s6 = s'\<lparr>st_text_maps := st_text_maps s' @ maps\<rparr>" using insert_maps_adds [OF loop2] unfolding s5 by blast
  obtain runs where "set runs \<subseteq> {?run}" "s'' = s6\<lparr>st_runs := st_runs s6 @ runs\<rparr>"
    using insert_run_adds [OF last2] by blast
  then have runs: "set runs \<subseteq> set_option (io_processing_run out2)"
    "s'' = s'\<lparr>st_text_maps := st_text_maps s' @ maps, st_runs := st_runs s' @ runs\<rparr>"
    unfolding run2 maps(3) by simp_all
  show ?thesis
    by (intro conjI exI [of _ maps] exI [of _ runs]) (rule old eid runs maps)+
qed

text \<open>
  So the evidence keeps the text of the first extraction, while maps of later ones are added to it: here the maps
  whose identifier is new.
\<close>

lemma later_maps_are_added:
  assumes "insert_maps [m] s = (Inr (), s')" "tm_id m \<notin> tm_id ` set (st_text_maps s)"
  shows "st_text_maps s' = st_text_maps s @ [m] \<and> st_evidence s' = st_evidence s"
  using assms by (auto simp: insert_maps_def op_Inr insert_text_map_def insert_or_ignore_def split: if_splits)

section \<open>A sample ingestion\<close>

text \<open>A plain text of two characters, with a constant digest and a host without tools.\<close>

definition zero_hash :: hash where "zero_hash b = replicate 64 48"

definition idle_host :: host where
  "idle_host = \<lparr>ho_path = [], ho_is_file = (\<lambda>_. False), ho_exists = (\<lambda>_. False), ho_missing = [],
     ho_spawn = (\<lambda>_ _ files. (StillRunning, files))\<rparr>"

definition sample_env :: "str ingest_env" where
  "sample_env = \<lparr>ie_url = plain_url,
     ie_extractor = \<lparr>xe_sha = zero_hash, xe_parse_json = (\<lambda>_. Inl []), xe_replace_all = (\<lambda>_ s _. s),
       xe_html_text = (\<lambda>s. [s]), xe_read_events = (\<lambda>_. []),
       xe_floats = \<lparr>fl_parse = (\<lambda>_. None), fl_show6 = (\<lambda>_. []), fl_of_u32 = (\<lambda>_. 0), fl_add = (\<lambda>_ _. 0),
         fl_sub = (\<lambda>_ _. 0), fl_mul = (\<lambda>_ _. 0), fl_div = (\<lambda>_ _. 0)\<rparr>,
       xe_image_dimensions = (\<lambda>_. Inl []), xe_seconds = (\<lambda>_ _ _. 0), xe_host = idle_host,
       xe_config = default_sandbox, xe_workdir = lit ''/tmp/x''\<rparr>,
     ie_tool_output = (\<lambda>_. None), ie_elapsed = []\<rparr>"

definition sample_build :: BuildMetadata where
  "sample_build = \<lparr>bm_pnull_version = [], bm_source_revision = [], bm_rules_digest = [], bm_state_config_digest = []\<rparr>"

definition sample_document :: IngestRequest where
  "sample_document = \<lparr>irq_jurisdiction = [67], irq_source_url = [97], irq_source_type = PlainText,
     irq_document_title = [84], irq_publication_date = None, irq_retrieval_timestamp = [], 
     irq_mime_type = lit ''text/plain'', irq_original_filename = [97], irq_supersedes = None, irq_enable_ocr = False,
     irq_ocr_language = [], irq_max_bytes = 10\<rparr>"

definition sample_job :: job_state where
  "sample_job = \<lparr>js_tracker = new_tracker default_budgets, js_files = []\<rparr>"


lemma sample_admitted: "admit plain_url sample_document [104, 105] = Inr ()"
  by (simp add: admit_def validate_request_def sample_document_def plain_url_def path_file_name_def path_parts_def
      trim_by_def trim_start_by_def trim_end_by_def is_ws_def lit_def)

lemma sample_utf8: "from_utf8 [104, 105] = Some [104, 105]"
  by (simp add: from_utf8_def as_bytes_def utf8_def)

lemma sample_normal: "normalize_text [104, 105] = [104, 105]"
  by (simp add: normalize_text_def normalized_newlines_def collapsed_def split_whitespace_def is_ws_def Let_def
      drop_blank_end_def)

lemma plain_media_type: "media_type (lit ''text/plain'') = lit ''text/plain''"
  by (simp add: media_type_def lit_def trim_by_def trim_start_by_def trim_end_by_def is_ws_def)

lemma zero_digest: "is_hex64 (replicate 64 48)" by code_simp

lemma plain_extraction: "extract_content X [104, 105] (lit ''text/plain'') enable_ocr language t =
   (Some \<lparr>ex_text = [104,105], ex_method = lit ''utf8_plain_text'', ex_status = ExtractionStatus.Complete, ex_error = None, ex_text_maps = []\<rparr>, t)"
  by (simp add: extract_content_def extract_by_type_def plain_media_type extract_plain_def sample_utf8 sample_normal bind_job_def result_job_def
      within_text_limit_def MAX_EXTRACTED_BYTES_def extraction_of_def byte_len_def as_bytes_def utf8_def)

lemma sample_record_path: "record_path (evidence_id zero_hash j u d) = Inr (evidence_id zero_hash j u d)"
proof -
  have "evidence_id zero_hash j u d = lit ''evidence:'' @ replicate 64 48"
    by (simp add: evidence_id_def stable_id_def zero_hash_def lit_def)
  then show ?thesis using zero_digest by (simp add: record_path_def strip_prefix_def starts_with_iff)
qed

lemma insert_always:
  "\<exists>b s'. insert_evidence (document_record zero_hash build request d x) t s = Inr (b, s')"
  "\<exists>b s'. insert_processing_run r s = Inr (b, s')"
  by (auto simp: insert_evidence_def document_record_def sample_record_path insert_processing_run_def split: prod.split)

lemma keep_always:
  assumes "ex_text_maps x = []" "xe_sha (ie_extractor E) = zero_hash"
  shows "\<exists>out s'. keep_document E build request k d x s = (Inr out, s')"
proof -
  obtain b s1 where 1: "insert_evidence (document_record zero_hash build request d x) (ex_text x) s = Inr (b, s1)"
    using insert_always(1) by blast
  obtain c s2 where 2: "insert_processing_run (build_processing_run E build request k (document_record zero_hash build request d x) [] (lit ''complete'') []) s1 = Inr (c, s2)"
    using insert_always(2) by blast
  from 1 2 assms show ?thesis by (simp add: keep_document_def Let_def bind_op_def stmt_def return_op_def)
qed

lemma persist_always: "\<exists>s'. persist_content zero_hash (sha256_hex zero_hash c) c s = (Inr (), s')"
  using zero_digest by (simp add: persist_content_def content_path_def sha256_hex_def zero_hash_def split: option.split)

lemma sample_charges:
  "\<exists>k. add_downloaded_bytes 2 (new_tracker default_budgets) = (Inr (), k) \<and> (\<exists>k'. add_attachment k = (Inr (), k') \<and> (\<exists>k''. add_extracted_bytes 2 k' = (Inr (), k'')))"
  by (simp add: add_downloaded_bytes_def add_attachment_def add_extracted_bytes_def new_tracker_def default_budgets_def saturating_add_def)

lemma sample_ingestion:
  "\<exists>out s' t'. ingest_bytes sample_env sample_build sample_document [104, 105] (s, sample_job) = (Some (Inr out), s', t')"
proof -
  obtain k1 k2 k3 where k: "add_downloaded_bytes 2 (new_tracker default_budgets) = (Inr (), k1)"
    "add_attachment k1 = (Inr (), k2)" "add_extracted_bytes 2 k2 = (Inr (), k3)" using sample_charges by blast
  have sha: "xe_sha (ie_extractor sample_env) = zero_hash" "ie_url sample_env = plain_url" by (simp_all add: sample_env_def)
  obtain s1 where s1: "persist_content zero_hash (sha256_hex zero_hash [104, 105]) [104, 105] s = (Inr (), s1)"
    using persist_always by blast
  let ?x = "\<lparr>ex_text = [104,105], ex_method = lit ''utf8_plain_text'', ex_status = ExtractionStatus.Complete, ex_error = None, ex_text_maps = []\<rparr>"
  obtain out s2 where s2: "keep_document sample_env sample_build sample_document k3 (sha256_hex zero_hash [104, 105]) ?x s1 = (Inr out, s2)"
    using keep_always [of ?x sample_env] sha by fastforce
  have mime: "irq_mime_type sample_document = lit ''text/plain''" by (simp add: sample_document_def)
  show ?thesis
    using k s1 s2
    by (simp add: ingest_bytes_def Let_def bind_ingest_def on_store_def lift_op_def read_op_def sha sample_admitted charge_ingest_def
        sample_job_def extraction_step_def mime plain_extraction byte_len_def as_bytes_def utf8_def keep_step_def)
qed

theorem ingested_document_is_kept_witness:
  "\<exists>out s' t'. ingest_bytes sample_env sample_build sample_document [104, 105] (empty_store, sample_job) = (Some (Inr out), s', t') \<and>
     evr_sha256 (io_record out) = replicate 64 48 \<and> st_content s' (replicate 64 48) \<noteq> None"
proof -
  obtain out s' t' where run: "ingest_bytes sample_env sample_build sample_document [104, 105] (empty_store, sample_job) = (Some (Inr out), s', t')"
    using sample_ingestion by blast
  note kept = ingested_document_is_kept [OF run]
  have "xe_sha (ie_extractor sample_env) = zero_hash" by (simp add: sample_env_def)
  then have digest: "evr_sha256 (io_record out) = replicate 64 48"
    using kept [THEN conjunct1] by (simp only: sha256_hex_def zero_hash_def)
  have "st_content s' (evr_sha256 (io_record out)) \<noteq> None" using kept by blast
  then have "st_content s' (replicate 64 48) \<noteq> None" by (simp only: digest not_False_eq_True)
  with run digest show ?thesis by (intro exI conjI)
qed

theorem ingestion_is_idempotent_witness:
  "\<exists>out s' t' out2 s'' u'.
     ingest_bytes sample_env sample_build sample_document [104, 105] (empty_store, sample_job) = (Some (Inr out), s', t') \<and>
     ingest_bytes sample_env sample_build sample_document [104, 105] (s', sample_job) = (Some (Inr out2), s'', u') \<and>
     \<not> io_inserted out2 \<and> st_evidence s'' = st_evidence s' \<and> st_content s'' = st_content s'"
proof -
  obtain out s' t' where run: "ingest_bytes sample_env sample_build sample_document [104, 105] (empty_store, sample_job) = (Some (Inr out), s', t')"
    using sample_ingestion by blast
  obtain out2 s'' u' where run2: "ingest_bytes sample_env sample_build sample_document [104, 105] (s', sample_job) = (Some (Inr out2), s'', u')"
    using sample_ingestion by blast
  have "\<not> io_inserted out2" "st_evidence s'' = st_evidence s'" "st_content s'' = st_content s'"
    using ingestion_is_idempotent [OF run run2 refl refl refl] by auto
  then show ?thesis using run run2 by (intro exI conjI) assumption+
qed

section \<open>What the code shows\<close>

text \<open>The budgets of a run are recorded as what was consumed, not as the limits.\<close>

lemma run_records_no_limits:
  "run_resource_budgets (build_processing_run E build request k r maps outcome errors) =
     run_resource_consumption (build_processing_run E build request k r maps outcome errors) \<and>
   tracker_snapshot (k\<lparr>jt_budgets := b\<rparr>) = tracker_snapshot k"
  by (simp add: build_processing_run_def tracker_snapshot_def)

text \<open>A document whose extraction failed still gets a run that is complete and has no errors.\<close>

lemma failed_extraction_is_a_complete_run:
  assumes "keep_document E build request k digest x s = (Inr out, s')" "ex_status x = ExtractionStatus.Failed"
  shows "\<exists>run. io_processing_run out = Some run \<and> run_outcome run = lit ''complete'' \<and> run_errors run = []"
  by (rule keep_document_parts [OF assms(1)]) (simp add: build_processing_run_def)

section \<open>Requests\<close>

lemma path_parts_pieces: "set (snd (path_parts s)) \<subseteq> {p \<in> set (split_by (\<lambda>c. c = 47) s). p \<noteq> []}"
proof -
  define parts where "parts = filter (\<lambda>p. p \<noteq> []) (split_by (\<lambda>c. c = 47) s)"
  have "set (snd (path_parts s)) \<subseteq> set parts"
    by (auto simp: path_parts_def Let_def parts_def [symmetric] split: list.splits)
  then show ?thesis by (simp add: parts_def)
qed

lemma proper_part: "p \<in> set (snd (path_parts s)) \<Longrightarrow> p \<noteq> [] \<and> 47 \<notin> set p"
  using path_parts_pieces [of s] split_by_no_separator [of p "\<lambda>c. c = 47" s] by (auto simp: list_all_iff)

text \<open>
  A request that is accepted names a single file, neither a directory nor its parent, comes from an HTTPS
  address, and hands no other characters to the OCR tool than those of language codes.
\<close>

theorem accepted_requests_are_safe:
  assumes "admit L request content = Inr ()"
  shows "47 \<notin> set (irq_original_filename request) \<and> irq_original_filename request \<notin> {[], [46], [46, 46]} \<and>
    (\<exists>url. url_parse L (irq_source_url request) = Inr url \<and> url_scheme L url = lit ''https'') \<and>
    (irq_enable_ocr request \<longrightarrow> irq_ocr_language request \<noteq> [] \<and> list_all language_char (irq_ocr_language request)) \<and>
    length content \<le> irq_max_bytes request"
proof -
  have name: "path_file_name (irq_original_filename request) = Some (irq_original_filename request)"
    and rest: "\<exists>url. url_parse L (irq_source_url request) = Inr url \<and> url_scheme L url = lit ''https''"
      "irq_enable_ocr request \<longrightarrow> irq_ocr_language request \<noteq> [] \<and> list_all language_char (irq_ocr_language request)"
      "length content \<le> irq_max_bytes request"
    using assms by (auto simp: admit_def validate_request_def split: if_splits sum.splits)
  from name have "irq_original_filename request \<in> set (snd (path_parts (irq_original_filename request)))"
    "irq_original_filename request \<noteq> [46]" "irq_original_filename request \<noteq> lit ''..''"
    by (auto simp: path_file_name_def Let_def split: if_splits) (metis last_in_set)
  then show ?thesis using rest proper_part by (auto simp: lit_def)
qed

theorem accepted_requests_are_safe_witness: "47 \<notin> set (irq_original_filename sample_document) \<and> irq_original_filename sample_document \<noteq> []"
  using accepted_requests_are_safe [OF sample_admitted] by blast

end
