(* ===== verification/LiveIngest.thy ===== *)
theory LiveIngest
  imports Documents
begin

text \<open>
  Reviews of sources and the live ingestion of \<open>pnull-cli/src/main.rs\<close>: what a person records of a source,
  the checks made before anything is fetched, the paginated fetch with its conditional requests, and what is
  kept of it.  The clock, the resolver, the transport and the query part of the crate \<open>url\<close> are arguments.
\<close>

section \<open>Configuration\<close>

record SourceConfig =
  src_id :: str
  src_name :: str
  src_url :: str
  src_source_type :: str
  src_documented_at :: str
  src_official_discovery_url :: str
  src_minimum_interval_seconds :: "64 word"
  src_maximum_bytes :: nat
  src_robots_status :: str
  src_terms_note :: str

record StateConfig =
  stc_state_code :: str
  stc_state_name :: str
  stc_jurisdiction :: str
  stc_canonical_base_url :: str
  stc_x_feed_label :: str
  stc_default_dry_run :: bool
  stc_sources :: "SourceConfig list"

record IngestArgs =
  iga_source_id :: str
  iga_robots_reviewed :: bool
  iga_page_size :: "32 word"
  iga_max_pages :: "32 word"

datatype SourceReviewCommand =
  Capture str
| Record str str str str
| Show str
| Verify str

text \<open>
  What the commands need: the digest, the crate \<open>url\<close> with its query functions, the JSON parser, two readings
  of the clock (at the check of the review and afterwards, the second also in seconds), the network, and
  whether the sandbox can be set up.  The transport may answer differently for every requested address.
\<close>

record 'u live_env =
  lv_sha :: hash
  lv_url :: "'u url_lib"
  lv_query_pairs :: "'u \<Rightarrow> (str \<times> str) list"
  lv_set_query :: "'u \<Rightarrow> str \<Rightarrow> 'u"
  lv_serialize :: "str \<Rightarrow> str"
  lv_invalid_url :: 'u
  lv_parse_json :: json_parser
  lv_gate_now :: str
  lv_now :: str
  lv_now_unix :: int
  lv_resolve :: "'u resolver"
  lv_transport :: "str \<Rightarrow> 'u transport"
  lv_sandbox :: "SandboxError + unit"

text \<open>Errors: a message of the command itself or the failure it passes on.\<close>

datatype LiveError = Message str | Ingesting IngestError | Stored CoreError

type_synonym live_op = "(LiveError, str list) op"

definition refused :: "string \<Rightarrow> str \<Rightarrow> LiveError" where
  "refused s rest = Message (lit s @ rest)"

section \<open>Sources\<close>

definition source_lines :: "SourceConfig \<Rightarrow> str list" where
  "source_lines c =
     [src_id c, lit ''  '' @ src_name c, lit ''  API: '' @ src_url c, lit ''  source type: '' @ src_source_type c,
      lit ''  documentation: '' @ src_documented_at c,
      lit ''  official discovery: '' @ src_official_discovery_url c,
      lit ''  minimum interval: '' @ show_u64 (src_minimum_interval_seconds c) @ lit '' seconds'',
      lit ''  robots: '' @ src_robots_status c, lit ''  terms: '' @ src_terms_note c]"

definition source_list :: "StateConfig \<Rightarrow> str list" where
  "source_list config =
     (stc_state_name config @ lit '' ('' @ stc_state_code config @ lit '')'' @ long_dash @ stc_jurisdiction config @
        lit '' | feed: '' @ stc_x_feed_label config @ lit '' | dry-run default: '' @
        (if stc_default_dry_run config then lit ''true'' else lit ''false'')) #
     concat (map source_lines (stc_sources config))"

definition source_config_digest :: "hash \<Rightarrow> SourceConfig \<Rightarrow> str" where
  "source_config_digest sha c =
     sha256_hex sha (as_bytes (join [0]
       [src_id c, src_url c, src_name c, show_u64 (src_minimum_interval_seconds c), show_nat (src_maximum_bytes c)]))"

definition reviewed_host :: "'u url_lib \<Rightarrow> SourceConfig \<Rightarrow> str" where
  "reviewed_host L c =
     or_value (lit ''coloradosprings.legistar.com'')
       (case url_parse L (src_url c) of Inl _ \<Rightarrow> None | Inr url \<Rightarrow> url_host_str L url)"

definition find_source :: "StateConfig \<Rightarrow> str \<Rightarrow> LiveError + SourceConfig" where
  "find_source config source_id =
     (case find (\<lambda>c. src_id c = source_id) (stc_sources config) of
        None \<Rightarrow> Inl (refused ''unknown source: '' source_id) | Some c \<Rightarrow> Inr c)"

section \<open>Reviews of sources\<close>

definition recorded_review :: "'u live_env \<Rightarrow> SourceConfig \<Rightarrow> str \<Rightarrow> str \<Rightarrow> str \<Rightarrow> str \<Rightarrow> SourceReview" where
  "recorded_review M c source_id reviewer note_text expires =
     (let host = reviewed_host (lv_url M) c in
      \<lparr>srv_id = source_review_id_for (lv_sha M) source_id (lv_now M), srv_source_id = source_id,
       srv_source_config_digest = source_config_digest (lv_sha M) c, srv_reviewed_hosts = [host],
       srv_endpoint_patterns = [lit ''/api/v2/Events'', lit ''/Events''],
       srv_robots_url = lit ''https://'' @ host @ lit ''/robots.txt'', srv_robots_snapshot_digest = [],
       srv_robots_provenance = None, srv_terms_urls = [], srv_terms_snapshot_digests = [],
       srv_reviewer = reviewer, srv_note = note_text, srv_reviewed_at = lv_now M, srv_expires_at = expires,
       srv_minimum_interval_seconds = src_minimum_interval_seconds c, srv_restrictions = [],
       srv_supersedes = None\<rparr>)"

definition verify_source_review :: "'u live_env \<Rightarrow> StateConfig \<Rightarrow> str \<Rightarrow> (LiveError, SourceReview) op" where
  "verify_source_review M config source_id =
     bind_op (lift_op (find_source config source_id)) (\<lambda>c.
     read_op (\<lambda>s.
       case current_source_review source_id s of
         None \<Rightarrow> Inl (refused ''live retrieval refused: no source review exists for '' source_id)
       | Some review \<Rightarrow>
           if srv_expires_at review < lv_gate_now M
           then Inl (refused ''live retrieval refused: source review for '' (source_id @ lit '' expired '' @ srv_expires_at review))
           else if srv_source_config_digest review \<noteq> source_config_digest (lv_sha M) c
           then Inl (refused ''live retrieval refused: source configuration changed since review for '' source_id)
           else if \<not> list_ex (\<lambda>h. h = reviewed_host (lv_url M) c) (srv_reviewed_hosts review)
           then Inl (refused ''live retrieval refused: host ''
             (reviewed_host (lv_url M) c @ lit '' is not within the reviewed scope for '' @ source_id))
           else if srv_restrictions review \<noteq> []
           then Inl (refused ''live retrieval refused: a prior response announced restrictions for '' source_id)
           else Inr review))"

definition capture_review :: "'u live_env \<Rightarrow> StateConfig \<Rightarrow> str \<Rightarrow> live_op" where
  "capture_review M config source_id =
     bind_op (lift_op (find_source config source_id)) (\<lambda>c.
     let host = reviewed_host (lv_url M) c; robots_url = lit ''https://'' @ host @ lit ''/robots.txt'' in
     bind_op (map_err Ingesting (fetch_source (lv_url M) (lv_sha M) (lv_resolve M) (lv_transport M robots_url)
         (Some source_id) [host] robots_url (lv_now M) (src_maximum_bytes c) None)) (\<lambda>(body, observations).
     bind_op (lift_op (case content_path (sha256_hex (lv_sha M) body) of
         Inl e \<Rightarrow> Inl (Stored e) | Inr path \<Rightarrow> Inr path)) (\<lambda>path.
     bind_op (unit_stmt Stored (\<lambda>s. Inr (s\<lparr>st_content := (st_content s)(path \<mapsto> body)\<rparr>))) (\<lambda>_.
     return_op
       [lit ''captured robots snapshot from '' @ robots_url @ lit '' ('' @ sha256_hex (lv_sha M) body @ lit '', '' @
          show_nat (length observations) @ lit '' observations, '' @ show_nat (length body) @ lit '' bytes)'',
        lit ''snapshot preserved locally; run `source review record` to record the human review'']))))"

definition review_lines :: "SourceReview \<Rightarrow> str list" where
  "review_lines r =
     [lit ''source review '' @ srv_id r, lit ''  reviewer: '' @ srv_reviewer r, lit ''  note: '' @ srv_note r,
      lit ''  reviewed: '' @ srv_reviewed_at r @ lit '' expires: '' @ srv_expires_at r,
      lit ''  config digest: '' @ srv_source_config_digest r,
      lit ''  hosts: '' @ join (lit '', '') (srv_reviewed_hosts r),
      lit ''  endpoints: '' @ join (lit '', '') (srv_endpoint_patterns r),
      lit ''  min interval: '' @ show_u64 (srv_minimum_interval_seconds r) @ lit ''s'',
      lit ''  restrictions: '' @ join (lit '', '') (srv_restrictions r)]"

fun source_review_command :: "'u live_env \<Rightarrow> StateConfig \<Rightarrow> SourceReviewCommand \<Rightarrow> live_op" where
  "source_review_command M config (Capture source_id) = capture_review M config source_id"
| "source_review_command M config (Record source_id reviewer note_text expires) =
     bind_op (lift_op (find_source config source_id)) (\<lambda>c.
     let review = recorded_review M c source_id reviewer note_text expires in
     bind_op (stmt Stored (insert_source_review review)) (\<lambda>inserted.
     return_op [(if inserted then lit ''recorded'' else lit ''duplicate'') @ lit '' source review '' @ srv_id review @
       lit '' for '' @ source_id @ lit '' (expires '' @ expires @ lit '')'']))"
| "source_review_command M config (Show source_id) =
     read_op (\<lambda>s. case current_source_review source_id s of
         None \<Rightarrow> Inl (refused ''no source review recorded for '' source_id) | Some r \<Rightarrow> Inr (review_lines r))"
| "source_review_command M config (Verify source_id) =
     bind_op (verify_source_review M config source_id) (\<lambda>_.
     return_op [lit ''source '' @ source_id @ lit '' is reviewable and in scope''])"

section \<open>Live ingestion\<close>

text \<open>The query of a page: that of the source without \<open>$top\<close> and \<open>$skip\<close>, then the two of the page.\<close>

definition page_pairs :: "(str \<times> str) list \<Rightarrow> 32 word \<Rightarrow> 32 word \<Rightarrow> (str \<times> str) list" where
  "page_pairs pairs limit offset =
     filter (\<lambda>(k, _). k \<noteq> lit ''$top'' \<and> k \<noteq> lit ''$skip'') pairs @
     [(lit ''$top'', show_nat (unat limit)), (lit ''$skip'', show_nat (unat offset))]"

definition append_pagination :: "'u live_env \<Rightarrow> str \<Rightarrow> 32 word \<Rightarrow> 32 word \<Rightarrow> str" where
  "append_pagination M base limit offset =
     (let url = (case url_parse (lv_url M) base of Inl _ \<Rightarrow> lv_invalid_url M | Inr u \<Rightarrow> u);
          query = map (\<lambda>(k, v). lv_serialize M k @ [61] @ lv_serialize M v)
            (page_pairs (lv_query_pairs M url) limit offset) in
      url_to_string (lv_url M) (lv_set_query M url (join [38] query)))"

definition latest_prior :: "str \<Rightarrow> store \<Rightarrow> PriorEvidence option" where
  "latest_prior source_id s =
     map_option (\<lambda>x. \<lparr>pri_evidence_id = or_value [] (obs_body_digest x), pri_etag = obs_etag x,
         pri_last_modified = obs_last_modified x\<rparr>)
       (find (\<lambda>x. obs_body_digest x \<noteq> None) (rev (fetch_observations source_id s)))"

definition fetch_page ::
  "'u live_env \<Rightarrow> SourceConfig \<Rightarrow> SourceReview \<Rightarrow> 32 word \<Rightarrow> 32 word \<Rightarrow> (IngestError, bytes) op" where
  "fetch_page M c review limit offset =
     (let page_url = append_pagination M (src_url c) limit offset in
      bind_op (read_op (\<lambda>s. Inr (latest_prior (src_id c) s))) (\<lambda>prior.
      bind_op (fetch_source (lv_url M) (lv_sha M) (lv_resolve M) (lv_transport M page_url) (Some (src_id c))
          (srv_reviewed_hosts review) page_url (lv_now M) (src_maximum_bytes c) prior) (\<lambda>r.
      return_op (fst r))))"

definition page_settings :: "IngestArgs \<Rightarrow> LegistarPagination" where
  "page_settings args = default_pagination\<lparr>lp_page_size := iga_page_size args, lp_max_pages := iga_max_pages args\<rparr>"

definition insert_each :: "('r \<Rightarrow> store \<Rightarrow> (bool \<times> store) core_result) \<Rightarrow> 'r list \<Rightarrow> (LiveError, unit) op" where
  "insert_each ins rs = for_op (\<lambda>r _. bind_op (stmt Stored (ins r)) (\<lambda>_. return_op ())) rs ()"

text \<open>What is kept of a pass, after the time of the fetch has been recorded.\<close>

definition keep_pass :: "'u live_env \<Rightarrow> SourceConfig \<Rightarrow> PaginateEventOutcome \<Rightarrow> (LiveError, unit) op" where
  "keep_pass M c outcome =
     bind_op (unit_stmt Stored (\<lambda>s. Inr (record_source_fetch (src_id c) (lv_now_unix M) s))) (\<lambda>_.
     bind_op (insert_each insert_matter (pag_matters outcome)) (\<lambda>_.
     insert_each insert_attachment (pag_attachments outcome)))"

definition pass_lines :: "PaginateEventOutcome \<Rightarrow> str list" where
  "pass_lines outcome =
     [lit ''paginated '' @ show_nat (length (pag_events outcome)) @ lit '' events across '' @
        show_nat (pag_pages_fetched outcome) @ lit '' pages (stopped: '' @ pag_stopped_reason outcome @ lit '')'',
      lit ''  matters: '' @ show_nat (length (pag_matters outcome)),
      lit ''  attachments: '' @ show_nat (length (pag_attachments outcome))]"

definition rate_gate :: "'u live_env \<Rightarrow> SourceConfig \<Rightarrow> (LiveError, unit) op" where
  "rate_gate M c =
     read_op (\<lambda>s. if source_fetch_allowed (src_id c) (src_minimum_interval_seconds c) (lv_now_unix M) s then Inr ()
       else Inl (refused ''rate limit: source '' (src_id c @ lit '' was fetched within the configured '' @
         show_u64 (src_minimum_interval_seconds c) @ lit ''-second interval'')))"

text \<open>The lines printed for each page while it is fetched are left out.\<close>

definition live_fetch :: "'u live_env \<Rightarrow> IngestArgs \<Rightarrow> SourceConfig \<Rightarrow> SourceReview \<Rightarrow> live_op" where
  "live_fetch M args c review =
     bind_op (map_err Ingesting (paginate_events (lv_url M) (lv_parse_json M) (page_settings args)
         (new_tracker default_budgets) (fetch_page M c review (iga_page_size args)) (src_id c) (src_url c))) (\<lambda>r.
     bind_op (keep_pass M c (fst r)) (\<lambda>_.
     return_op
       ((if iga_robots_reviewed args then []
         else [lit ''note: --robots-reviewed is deprecated; persistent source review is required'']) @
        pass_lines (fst r))))"

definition sandbox_ready :: "'u live_env \<Rightarrow> LiveError + unit" where
  "sandbox_ready M = (case lv_sandbox M of Inl e \<Rightarrow> Inl (Message (show_sandbox_error e)) | Inr _ \<Rightarrow> Inr ())"

definition live_ingest :: "'u live_env \<Rightarrow> StateConfig \<Rightarrow> IngestArgs \<Rightarrow> live_op" where
  "live_ingest M config args =
     bind_op (lift_op (find_source config (iga_source_id args))) (\<lambda>c.
     bind_op (verify_source_review M config (iga_source_id args)) (\<lambda>review.
     bind_op (rate_gate M c) (\<lambda>_.
     bind_op (lift_op (sandbox_ready M)) (\<lambda>_.
     live_fetch M args c review))))"

section \<open>The gates\<close>

definition source_cleared :: "'u live_env \<Rightarrow> StateConfig \<Rightarrow> str \<Rightarrow> SourceConfig \<Rightarrow> SourceReview \<Rightarrow> store \<Rightarrow> bool" where
  "source_cleared M config source_id c review s \<longleftrightarrow>
     find_source config source_id = Inr c \<and> current_source_review source_id s = Some review \<and>
     lv_gate_now M \<le> srv_expires_at review \<and>
     srv_source_config_digest review = source_config_digest (lv_sha M) c \<and>
     reviewed_host (lv_url M) c \<in> set (srv_reviewed_hosts review) \<and> srv_restrictions review = []"

lemma bind_lift_op: "bind_op (lift_op x) f s = (case x of Inl e \<Rightarrow> (Inl e, s) | Inr a \<Rightarrow> f a s)"
  by (simp add: bind_op_def lift_op_def read_op_def split: sum.split)

lemma bind_read_op: "bind_op (read_op g) f s = (case g s of Inl e \<Rightarrow> (Inl e, s) | Inr a \<Rightarrow> f a s)"
  by (simp add: bind_op_def read_op_def split: sum.split)

lemma verify_keeps_store: "snd (verify_source_review M config source_id s) = s"
  by (simp add: verify_source_review_def bind_lift_op split: sum.split) (simp add: read_op_def)

lemma verify_Inr:
  "verify_source_review M config source_id s = (Inr review, s') \<longleftrightarrow>
     s' = s \<and> (\<exists>c. source_cleared M config source_id c review s)"
  by (auto simp: verify_source_review_def bind_lift_op read_op_def source_cleared_def list_ex_iff not_less
      split: sum.splits option.splits if_splits)

lemma bind_verify:
  "bind_op (verify_source_review M config source_id) f s =
     (case fst (verify_source_review M config source_id s) of Inl e \<Rightarrow> (Inl e, s) | Inr review \<Rightarrow> f review s)"
  using verify_keeps_store [of M config source_id s]
  by (cases "verify_source_review M config source_id s") (auto simp: bind_op_def split: sum.split)

lemma live_ingest_steps:
  "live_ingest M config args s =
     (case find_source config (iga_source_id args) of
        Inl e \<Rightarrow> (Inl e, s)
      | Inr c \<Rightarrow>
          (case fst (verify_source_review M config (iga_source_id args) s) of
             Inl e \<Rightarrow> (Inl e, s)
           | Inr review \<Rightarrow>
               (case fst (rate_gate M c s) of
                  Inl e \<Rightarrow> (Inl e, s)
                | Inr _ \<Rightarrow> (case sandbox_ready M of Inl e \<Rightarrow> (Inl e, s) | Inr _ \<Rightarrow> live_fetch M args c review s))))"
  by (simp add: live_ingest_def bind_lift_op bind_verify rate_gate_def bind_read_op read_op_def
      cong: sum.case_cong split: sum.split)

lemma rate_gate_Inr:
  "fst (rate_gate M c s) = Inr u \<longleftrightarrow>
     source_fetch_allowed (src_id c) (src_minimum_interval_seconds c) (lv_now_unix M) s"
  by (simp add: rate_gate_def read_op_def)

lemma live_ingest_unfold:
  assumes "live_ingest M config args s = (r, s')" "s' \<noteq> s \<or> (\<exists>ls. r = Inr ls)"
  obtains c review where "source_cleared M config (iga_source_id args) c review s"
    "source_fetch_allowed (src_id c) (src_minimum_interval_seconds c) (lv_now_unix M) s"
    "live_fetch M args c review s = (r, s')"
proof -
  obtain c review where c: "find_source config (iga_source_id args) = Inr c"
    and review: "fst (verify_source_review M config (iga_source_id args) s) = Inr review"
    and gate: "fst (rate_gate M c s) = Inr ()" and fetch: "live_fetch M args c review s = (r, s')"
    using assms by (auto simp: live_ingest_steps split: sum.splits)
  have "verify_source_review M config (iga_source_id args) s = (Inr review, s)"
    using review verify_keeps_store [of M config "iga_source_id args" s] by (metis prod.collapse)
  then have "source_cleared M config (iga_source_id args) c review s"
    using c by (auto simp: verify_Inr source_cleared_def)
  then show ?thesis using that gate fetch by (simp add: rate_gate_Inr)
qed

text \<open>
  C11: A live ingestion changes the store or succeeds only with a current review of the source that has not
  expired, was made for the present configuration, covers the host and carries no restriction, and when
  the interval since the last fetch has passed, whatever the network would answer.
\<close>

theorem live_documents_need_review:
  assumes "live_ingest M config args s = (r, s')" "s' \<noteq> s \<or> (\<exists>ls. r = Inr ls)"
  shows "\<exists>c review. source_cleared M config (iga_source_id args) c review s \<and>
    source_fetch_allowed (src_id c) (src_minimum_interval_seconds c) (lv_now_unix M) s"
  by (rule live_ingest_unfold [OF assms]) blast

section \<open>What a pass keeps\<close>

lemma insert_each_Nil: "insert_each ins [] s = (Inr (), s)"
  by (simp add: insert_each_def return_op_def)

lemma insert_each_Cons:
  "insert_each ins (r # rs) s = (Inr (), s') \<longleftrightarrow>
     (\<exists>b t. ins r s = Inr (b, t) \<and> insert_each ins rs t = (Inr (), s'))"
  by (auto simp: insert_each_def op_Inr)

lemma insert_each_keeps:
  assumes "insert_each ins rs s = (Inr (), s')"
    and "\<And>r s b t. ins r s = Inr (b, t) \<Longrightarrow> f t = f s"
  shows "f s' = f s"
  using assms(1)
proof (induction rs arbitrary: s)
  case (Cons r rs)
  then obtain b t where "ins r s = Inr (b, t)" "insert_each ins rs t = (Inr (), s')"
    by (auto simp: insert_each_Cons)
  with Cons.IH assms(2) show ?case by metis
qed (simp add: insert_each_Nil)

lemma insert_each_present:
  assumes "insert_each ins rs s = (Inr (), s')"
    and "\<And>r s b t. ins r s = Inr (b, t) \<Longrightarrow> key r \<in> key ` set (tbl t) \<and> key ` set (tbl s) \<subseteq> key ` set (tbl t)"
  shows "key ` set rs \<union> key ` set (tbl s) \<subseteq> key ` set (tbl s')"
  using assms(1)
proof (induction rs arbitrary: s)
  case (Cons r rs)
  then obtain b t where step: "ins r s = Inr (b, t)" "insert_each ins rs t = (Inr (), s')"
    by (auto simp: insert_each_Cons)
  have later: "key ` set (tbl t) \<subseteq> key ` set (tbl s')" using Cons.IH [OF step(2)] by blast
  with assms(2) [OF step(1)] have "key r \<in> key ` set (tbl s')" "key ` set (tbl s) \<subseteq> key ` set (tbl s')" by blast+
  with Cons.IH [OF step(2)] show ?case by simp
qed (simp add: insert_each_Nil)

lemma matter_insert:
  assumes "insert_matter r s = Inr (b, t)"
  shows "mat_id r \<in> mat_id ` set (st_matters t) \<and> mat_id ` set (st_matters s) \<subseteq> mat_id ` set (st_matters t)"
    "st_source_fetches t = st_source_fetches s"
  using matters_table.key_present [OF assms] matters_table.never_forgets [OF assms] assms
  by (auto simp: insert_matter_def split: if_splits prod.splits)

lemma attachment_insert:
  assumes "insert_attachment r s = Inr (b, t)"
  shows "att_id r \<in> att_id ` set (st_attachments t) \<and> att_id ` set (st_attachments s) \<subseteq> att_id ` set (st_attachments t)"
    "st_source_fetches t = st_source_fetches s" "st_matters t = st_matters s"
  using attachments_table.key_present [OF assms] attachments_table.never_forgets [OF assms] assms
  by (auto simp: insert_attachment_def split: if_splits prod.splits)

lemma recorded_fetch: "select_by fst k (st_source_fetches (record_source_fetch k now s)) = Some (k, now)"
proof -
  have present: "find (\<lambda>x. fst x = k) (update_by fst (k, now) xs) = Some (k, now)" if "k \<in> fst ` set xs" for xs
    using that by (induction xs) (auto simp: update_by_def)
  have absent: "find (\<lambda>x. fst x = k) (xs @ [(k, now)]) = Some (k, now)" if "k \<notin> fst ` set xs" for xs
    using that by (induction xs) auto
  show ?thesis using present absent by (simp add: record_source_fetch_def select_by_def)
qed

lemma keep_pass_parts:
  assumes "keep_pass M c outcome s = (Inr (), s')"
  shows "select_by fst (src_id c) (st_source_fetches s') = Some (src_id c, lv_now_unix M) \<and>
    mat_id ` set (pag_matters outcome) \<subseteq> mat_id ` set (st_matters s') \<and>
    att_id ` set (pag_attachments outcome) \<subseteq> att_id ` set (st_attachments s')"
proof -
  define s1 where "s1 = record_source_fetch (src_id c) (lv_now_unix M) s"
  obtain s2 where m: "insert_each insert_matter (pag_matters outcome) s1 = (Inr (), s2)"
    and a: "insert_each insert_attachment (pag_attachments outcome) s2 = (Inr (), s')"
    using assms by (auto simp: keep_pass_def op_Inr s1_def)
  have fetches: "st_source_fetches s' = st_source_fetches s1"
    using insert_each_keeps [OF m, of st_source_fetches] insert_each_keeps [OF a, of st_source_fetches]
    by (simp add: matter_insert(2) attachment_insert(2))
  have "mat_id ` set (pag_matters outcome) \<subseteq> mat_id ` set (st_matters s2)"
    using insert_each_present [OF m, of mat_id st_matters] matter_insert(1) by blast
  moreover have "st_matters s' = st_matters s2"
    using insert_each_keeps [OF a, of st_matters] attachment_insert(3) by blast
  moreover have "att_id ` set (pag_attachments outcome) \<subseteq> att_id ` set (st_attachments s')"
    using insert_each_present [OF a, of att_id st_attachments] attachment_insert(1) by blast
  ultimately show ?thesis using fetches recorded_fetch [of "src_id c" "lv_now_unix M" s] by (simp add: s1_def)
qed

lemma live_fetch_parts:
  assumes "live_fetch M args c review s = (Inr ls, s')"
  obtains outcome t s1 where
    "paginate_events (lv_url M) (lv_parse_json M) (page_settings args) (new_tracker default_budgets)
       (fetch_page M c review (iga_page_size args)) (src_id c) (src_url c) s = (Inr (outcome, t), s1)"
    "keep_pass M c outcome s1 = (Inr (), s')"
  using assms by (auto simp: live_fetch_def op_Inr)

text \<open>
  After a live ingestion every matter and attachment the pagination found is in the store, and any further
  live ingestion of the source within its interval is refused and changes nothing.
\<close>

theorem live_ingest_keeps_its_pass:
  assumes "live_ingest M config args s = (Inr ls, s')"
  shows "\<exists>c review outcome t s1. find_source config (iga_source_id args) = Inr c \<and>
    paginate_events (lv_url M) (lv_parse_json M) (page_settings args) (new_tracker default_budgets)
      (fetch_page M c review (iga_page_size args)) (src_id c) (src_url c) s = (Inr (outcome, t), s1) \<and>
    mat_id ` set (pag_matters outcome) \<subseteq> mat_id ` set (st_matters s') \<and>
    att_id ` set (pag_attachments outcome) \<subseteq> att_id ` set (st_attachments s') \<and>
    (\<forall>M' args'. find_source config (iga_source_id args') = Inr c \<longrightarrow>
      i64_saturating_sub (lv_now_unix M') (lv_now_unix M) < i64_of_u64 (src_minimum_interval_seconds c) \<longrightarrow>
      (\<exists>e. live_ingest (M' :: 'v live_env) config args' s' = (Inl e, s')))"
proof -
  obtain c review where cleared: "source_cleared M config (iga_source_id args) c review s"
    and fetch: "live_fetch M args c review s = (Inr ls, s')"
    using assms by (rule live_ingest_unfold) blast+
  obtain outcome t s1 where run: "paginate_events (lv_url M) (lv_parse_json M) (page_settings args) (new_tracker default_budgets)
       (fetch_page M c review (iga_page_size args)) (src_id c) (src_url c) s = (Inr (outcome, t), s1)"
    and keep: "keep_pass M c outcome s1 = (Inr (), s')"
    using fetch by (rule live_fetch_parts)
  note kept = keep_pass_parts [OF keep]
  have "\<exists>e. live_ingest M' config args' s' = (Inl e, s')"
    if later: "find_source config (iga_source_id args') = Inr c"
      "i64_saturating_sub (lv_now_unix M') (lv_now_unix M) < i64_of_u64 (src_minimum_interval_seconds c)"
    for M' :: "'v live_env" and args'
  proof -
    have "\<not> source_fetch_allowed (src_id c) (src_minimum_interval_seconds c) (lv_now_unix M') s'"
      using kept later(2) by (simp add: source_fetch_allowed_def)
    then have "\<exists>e. fst (rate_gate M' c s') = Inl e" by (simp add: rate_gate_def read_op_def)
    then show ?thesis using later(1) by (auto simp: live_ingest_steps split: sum.split)
  qed
  then show ?thesis using cleared run kept by (auto simp: source_cleared_def)
qed

section \<open>A sample pass\<close>

definition sample_source :: SourceConfig where
  "sample_source = \<lparr>src_id = [115], src_name = [], src_url = [97], src_source_type = [], src_documented_at = [],
     src_official_discovery_url = [], src_minimum_interval_seconds = 10, src_maximum_bytes = 10,
     src_robots_status = [], src_terms_note = []\<rparr>"

definition sample_config :: StateConfig where
  "sample_config = \<lparr>stc_state_code = [], stc_state_name = [], stc_jurisdiction = [], stc_canonical_base_url = [],
     stc_x_feed_label = [], stc_default_dry_run = True, stc_sources = [sample_source]\<rparr>"

definition empty_answer :: "str transport" where
  "empty_answer log = Inr \<lparr>tres_status_code = 200, tres_headers = [], tres_body = []\<rparr>"

definition sample_live :: "int \<Rightarrow> str live_env" where
  "sample_live now = \<lparr>lv_sha = id_hash, lv_url = plain_url, lv_query_pairs = (\<lambda>_. []), lv_set_query = (\<lambda>u _. u),
     lv_serialize = (\<lambda>k. k), lv_invalid_url = [], lv_parse_json = sample_parser, lv_gate_now = [49], lv_now = [49],
     lv_now_unix = now, lv_resolve = public_resolver, lv_transport = (\<lambda>_. empty_answer), lv_sandbox = Inr ()\<rparr>"

definition sample_args :: IngestArgs where
  "sample_args = \<lparr>iga_source_id = [115], iga_robots_reviewed = True, iga_page_size = 100, iga_max_pages = 5\<rparr>"

definition reviewed_store :: store where
  "reviewed_store =
     empty_store\<lparr>st_source_reviews := [recorded_review (sample_live 0) sample_source [115] [] [] [57]]\<rparr>"

lemma public_validated: "validate_resolved h [V4 0x08080808] = Inr ()"
proof -
  have "is_public_address (V4 0x08080808)" unfolding v4_blocks by (simp add: refused_v4_blocks_def in_block_def)
  then show ?thesis by (simp add: validate_resolved_ok)
qed

lemma sample_fetch:
  "\<exists>obs s1. fetch_source plain_url id_hash public_resolver empty_answer (Some i) [[97]] [97] n 10 prior s = (Inr ([], obs), s1)"
proof -
  let ?config = "\<lparr>fc_reviewed_hosts = [[97]], fc_max_bytes = 10\<rparr>"
  let ?request = "\<lparr>freq_source_id = Some i, freq_requested_url = [97], freq_retrieved_at = n, freq_prior = prior\<rparr>"
  have host: "allows_host ?config [97]" by (simp add: allows_host_def eq_ignore_ascii_case_def)
  have "\<exists>x. fst (fetch_loop plain_url id_hash ?config public_resolver empty_answer ?request [97] 0 [] []) =
      Inr \<lparr>fres_observations = [x], fres_body = Some [], fres_final_url = [97], fres_unchanged = False\<rparr>"
    by (subst fetch_loop.simps)
      (simp add: plain_url_def public_resolver_def host public_validated empty_answer_def success_status_def Let_def)
  then obtain x where x: "fst (provenance_fetch plain_url id_hash ?config public_resolver empty_answer ?request) =
      Inr \<lparr>fres_observations = [x], fres_body = Some [], fres_final_url = [97], fres_unchanged = False\<rparr>"
    using host by (auto simp: provenance_fetch_def plain_url_def)
  obtain b s1 where "insert_fetch_observation x s = Inr (b, s1)"
    by (cases "insert_or_ignore obs_id x (st_observations s)") (simp add: insert_fetch_observation_def)
  then show ?thesis
    unfolding fetch_source_def x by (simp add: bind_op_def lift_op_def read_op_def stmt_def return_op_def)
qed

lemma sample_live_run:
  "\<exists>ls s'. live_ingest (sample_live now) sample_config sample_args reviewed_store = (Inr ls, s')"
proof -
  let ?M = "sample_live now"
  let ?review = "recorded_review (sample_live 0) sample_source [115] [] [] [57]"
  have find: "find_source sample_config (iga_source_id sample_args) = Inr sample_source"
    by (simp add: find_source_def sample_config_def sample_args_def sample_source_def)
  have host: "reviewed_host plain_url sample_source = [97]"
    by (simp add: reviewed_host_def plain_url_def sample_source_def or_value_def)
  have current: "current_source_review [115] reviewed_store = Some ?review"
    by (simp add: current_source_review_def source_reviews_def select_where_def last_option_def reviewed_store_def
        recorded_review_def Let_def)
  have "source_cleared ?M sample_config (iga_source_id sample_args) sample_source ?review reviewed_store"
    using find current host
    by (simp add: source_cleared_def sample_args_def recorded_review_def sample_live_def Let_def)
  then have verify: "fst (verify_source_review ?M sample_config (iga_source_id sample_args) reviewed_store) = Inr ?review"
    using verify_Inr [of ?M sample_config "iga_source_id sample_args" reviewed_store ?review reviewed_store] by auto
  have gate: "fst (rate_gate ?M sample_source reviewed_store) = Inr ()"
    by (simp add: rate_gate_Inr source_fetch_allowed_def reviewed_store_def empty_store_def select_by_def)
  obtain obs s1 where fetched: "fetch_source plain_url id_hash public_resolver empty_answer (Some [115]) [[97]] [97] [49] 10
      (latest_prior [115] reviewed_store) reviewed_store = (Inr ([], obs), s1)"
    using sample_fetch by blast
  have page: "fetch_page ?M sample_source ?review 100 0 reviewed_store = (Inr [], s1)"
    using fetched host
    by (simp add: fetch_page_def append_pagination_def bind_op_def read_op_def return_op_def Let_def sample_live_def
        sample_source_def plain_url_def recorded_review_def)
  obtain k where charge: "add_downloaded_bytes 0 (new_tracker default_budgets) = (Inr (), k)"
    by (simp add: add_downloaded_bytes_def new_tracker_def default_budgets_def saturating_add_def)
  have settings: "iga_page_size sample_args = 100" "lp_page_size (page_settings sample_args) \<noteq> 0"
    "lp_max_pages (page_settings sample_args) \<noteq> 0"
    by (simp_all add: page_settings_def sample_args_def)
  have rounds: "unat (lp_max_pages (page_settings sample_args)) = Suc 4"
    by (simp add: page_settings_def sample_args_def)
  have parts: "lv_url ?M = plain_url" "lv_parse_json ?M = sample_parser" by (simp_all add: sample_live_def)
  have empty: "page_events sample_parser [] = Inr []" by (simp add: page_events_def sample_parser_def)
  have "paginate_events (lv_url ?M) (lv_parse_json ?M) (page_settings sample_args) (new_tracker default_budgets)
      (fetch_page ?M sample_source ?review (iga_page_size sample_args)) (src_id sample_source) (src_url sample_source)
      reviewed_store = (Inr (outcome_of nothing_collected 1 (lit ''non-progressing page''), k), s1)"
    using page charge empty unfolding paginate_events_def rounds pages_loop.simps parts
    by (simp add: settings bind_op_def charge_op_def lift_op_def read_op_def return_op_def)
  moreover have "\<exists>s2. keep_pass ?M sample_source (outcome_of nothing_collected 1 (lit ''non-progressing page'')) s1 = (Inr (), s2)"
    by (simp add: keep_pass_def bind_op_def unit_stmt_def insert_each_Nil outcome_of_def nothing_collected_def)
  ultimately have "\<exists>ls s2. live_fetch ?M sample_args sample_source ?review reviewed_store = (Inr ls, s2)"
    by (auto simp: live_fetch_def bind_op_def map_err_def return_op_def)
  moreover have "sandbox_ready ?M = Inr ()" by (simp add: sandbox_ready_def sample_live_def)
  ultimately show ?thesis by (simp add: live_ingest_steps find verify gate)
qed

theorem live_documents_need_review_witness:
  "\<exists>c review. source_cleared (sample_live 0) sample_config [115] c review reviewed_store"
proof -
  obtain ls s' where "live_ingest (sample_live 0) sample_config sample_args reviewed_store = (Inr ls, s')"
    using sample_live_run by blast
  from live_documents_need_review [OF this] show ?thesis by (auto simp: sample_args_def)
qed

theorem live_ingest_keeps_its_pass_witness:
  "\<exists>ls s' e. live_ingest (sample_live 0) sample_config sample_args reviewed_store = (Inr ls, s') \<and>
     live_ingest (sample_live 9) sample_config sample_args s' = (Inl e, s')"
proof -
  obtain ls s' where run: "live_ingest (sample_live 0) sample_config sample_args reviewed_store = (Inr ls, s')"
    using sample_live_run by blast
  obtain c where c: "find_source sample_config (iga_source_id sample_args) = Inr c"
    "\<forall>M' args'. find_source sample_config (iga_source_id args') = Inr c \<longrightarrow>
      i64_saturating_sub (lv_now_unix M') (lv_now_unix (sample_live 0)) < i64_of_u64 (src_minimum_interval_seconds c) \<longrightarrow>
      (\<exists>e. live_ingest (M' :: str live_env) sample_config args' s' = (Inl e, s'))"
    using live_ingest_keeps_its_pass [OF run] by blast
  have "c = sample_source"
    using c(1) by (simp add: find_source_def sample_config_def sample_args_def sample_source_def)
  then have "i64_saturating_sub (lv_now_unix (sample_live 9)) (lv_now_unix (sample_live 0)) <
      i64_of_u64 (src_minimum_interval_seconds c)"
    by (simp add: i64_saturating_sub_def i64_of_u64_def i64_max_def sample_live_def sample_source_def)
  with c run show ?thesis by blast
qed

section \<open>What the code shows\<close>

text \<open>The review a person records never names the robots snapshot that was captured for it.\<close>

lemma review_has_no_snapshot: "srv_robots_snapshot_digest (recorded_review M c source_id reviewer note_text expires) = []"
  by (simp add: recorded_review_def Let_def)

text \<open>The expiry of a review is any text: one that starts with a letter never passes.\<close>

lemma expiry_is_any_text: "\<not> lit ''never'' < lit ''2099-12-31T00:00:00Z''"
  by (simp add: lit_def)

text \<open>An answer without new content is an error, and ends the whole pass.\<close>

lemma not_modified_is_an_error:
  assumes "fst (provenance_fetch L sha \<lparr>fc_reviewed_hosts = hosts, fc_max_bytes = n\<rparr> resolve transport
      \<lparr>freq_source_id = i, freq_requested_url = url, freq_retrieved_at = now, freq_prior = prior\<rparr>) = Inr result"
    and "fres_body result = None"
  shows "fst (fetch_source L sha resolve transport i hosts url now n prior s) \<noteq> Inr r"
proof
  assume "fst (fetch_source L sha resolve transport i hosts url now n prior s) = Inr r"
  then obtain s' where "fetch_source L sha resolve transport i hosts url now n prior s = (Inr r, s')"
    by (metis prod.collapse)
  then show False using assms by (auto simp: fetch_source_def op_Inr lift_op_Inr)
qed

end
