(* ===== verification/Operator.thy ===== *)
theory Operator
  imports Commands Site LiveIngest Threads Compare
begin

text \<open>
  The remaining commands of \<open>pnull-cli/src/main.rs\<close>: scanning the evidence, comparing two versions, building
  the site, listing alerts and matters, showing and rendering citations, reviewing them, drafting, approving
  and posting, and the dispatch of all commands but the demonstration.  The lines a failing command has
  printed before it failed are left out.
\<close>

section \<open>Environment and errors\<close>





text \<open>
  Besides the environments of the other commands: the rules file and its YAML library, the case table, the
  printing of floating point numbers, the style sheet, the display of a case-file error, which paths can be
  written, what the file system answers when a site is replaced, the rendering of a page with its highlights, and
  the X transport with its credentials.
\<close>

record 'u main_env =
  mn_lib :: command_lib
  mn_live :: "'u live_env"
  mn_rules_file :: "bytes option"
  mn_rules_of_yaml :: "bytes \<Rightarrow> RuleSet option"
  mn_rules_to_yaml :: "RuleSet \<Rightarrow> str option"
  mn_upper :: upper_table
  mn_show_f64 :: "f64 \<Rightarrow> str"
  mn_show_2 :: "f64 \<Rightarrow> str"
  mn_debug_confidence :: "f64 option \<Rightarrow> str"
  mn_style_css :: str
  mn_case_error :: "CaseFileError \<Rightarrow> str"
  mn_writable :: "str \<Rightarrow> bool"
  mn_replace :: replace_io
  mn_render :: "bytes \<Rightarrow> 32 word \<Rightarrow> BoundingRect list \<Rightarrow> f64 \<Rightarrow> f64 \<Rightarrow> str + str"
  mn_x_transport :: "XError + Posting.transport"

datatype MainError =
  Said str
| Failed LiveError
| CommandFailed CliError
| Unstored CoreError
| RulesFailed DetectError
| Refused string PublishError
| PostingFailed XError

type_synonym main_op = "(MainError, cmd_output) op"

definition said :: "string \<Rightarrow> str \<Rightarrow> MainError" where
  "said s rest = Said (lit s @ rest)"

definition shown :: "str list \<Rightarrow> (MainError, cmd_output) op" where
  "shown ls = return_op \<lparr>out_lines = ls, out_files = []\<rparr>"



definition main_sha :: "'u main_env \<Rightarrow> hash" where
  "main_sha M = env_sha (lib_env (mn_lib M))"

definition main_text :: "'u main_env \<Rightarrow> text_lib" where
  "main_text M = env_text (lib_env (mn_lib M))"

definition configured_rules :: "'u main_env \<Rightarrow> (MainError, RuleSet) op" where
  "configured_rules M =
     lift_op (case load_rules (mn_rules_of_yaml M) (mn_rules_file M) of
       Inl e \<Rightarrow> Inl (RulesFailed e) | Inr rules \<Rightarrow> Inr rules)"

section \<open>Scanning and comparing\<close>

definition annotated :: "EvidenceRecord \<Rightarrow> Finding \<Rightarrow> EvidenceRecord" where
  "annotated r f = r\<lparr>evr_matched_rule_ids := fnd_matched_rule_ids f, evr_quoted_source_spans := fnd_citations f\<rparr>"

definition finding_line :: "Finding \<Rightarrow> str" where
  "finding_line f =
     fnd_id f @ long_dash @ finding_state_label (fnd_state f) @ long_dash @ fnd_classification_reason f"

text \<open>The round for one document; the accumulator is the number of new findings and the lines.\<close>

definition scan_one :: "'u main_env \<Rightarrow> RuleSet \<Rightarrow> EvidenceRecord \<times> str \<Rightarrow> nat \<times> str list \<Rightarrow> (MainError, nat \<times> str list) op" where
  "scan_one M rules row acc =
     (case row of (r, content) \<Rightarrow>
        (case scan (main_text M) (main_sha M) (mn_rules_to_yaml M) r content rules of
           None \<Rightarrow> return_op acc
         | Some f \<Rightarrow>
             bind_op (unit_stmt Unstored (update_evidence_annotations (annotated r f) content)) (\<lambda>_.
             bind_op (stmt Unstored (insert_finding f)) (\<lambda>added.
             bind_op (case build_alert (main_sha M) (annotated r f) f None of
                 None \<Rightarrow> return_op False | Some a \<Rightarrow> stmt Unstored (insert_alert a)) (\<lambda>_.
             return_op (fst acc + (if added then 1 else 0), snd acc @ [finding_line f]))))))"

definition scan_all :: "'u main_env \<Rightarrow> main_op" where
  "scan_all M =
     bind_op (configured_rules M) (\<lambda>rules.
     bind_op (read_op (\<lambda>s. Inr (all_evidence s))) (\<lambda>rows.
     bind_op (for_op (scan_one M rules) rows (0, [])) (\<lambda>(count, ls).
     shown (ls @ [show_nat count @ lit '' new deterministic finding(s)'']))))"




section \<open>Alerts and matters\<close>









section \<open>Citations\<close>



text \<open>The page of the image: that of the text map, if the citation leads to one, or letter size.\<close>

definition render_page :: "PageCitation \<Rightarrow> store \<Rightarrow> f64 \<times> f64" where
  "render_page c s =
     (case text_map (pc_text_map_digest c) s of
        Inl _ \<Rightarrow> (0x4083200000000000, 0x4088C00000000000)
      | Inr m \<Rightarrow> (tm_page_width m, tm_page_height m))"



section \<open>Reviews\<close>

definition find_line_citation :: "hash \<Rightarrow> str \<Rightarrow> store \<Rightarrow> Citation option" where
  "find_line_citation sha cid s = find (\<lambda>c. citation_id sha c = cid) (concat (map alt_citations (alerts s)))"

definition page_review_binding :: "PageCitation \<Rightarrow> ReviewBinding" where
  "page_review_binding c =
     \<lparr>rb_evidence_id = pc_evidence_id c, rb_source_digest = pc_evidence_digest c,
      rb_locator_or_geometry = lit ''page '' @ show_nat (unat (pc_page_number c)), rb_quote = pc_quote c,
      rb_quote_digest = pc_quote_digest c, rb_rule_digest = [], rb_processing_artifact_digest = pc_text_map_digest c,
      rb_proposed_public_fields = lit ''quote,locator,geometry''\<rparr>"

definition review_binding :: "hash \<Rightarrow> str \<Rightarrow> store \<Rightarrow> MainError + ReviewBinding" where
  "review_binding sha cid s =
     (case find_line_citation sha cid s of
        Some c \<Rightarrow> Inr (citation_review_binding sha c)
      | None \<Rightarrow>
          (case page_citation cid s of
             Inr c \<Rightarrow> Inr (page_review_binding c)
           | Inl _ \<Rightarrow> Inl (said ''citation '' (cid @ lit '' not found among line or page citations''))))"

definition decision_of :: "hash \<Rightarrow> str \<Rightarrow> str \<Rightarrow> ReviewState \<Rightarrow> str \<Rightarrow> str \<Rightarrow> ReviewBinding \<Rightarrow> ReviewDecision" where
  "decision_of sha decided_at cid state reviewer note_text binding =
     \<lparr>rev_id = review_id_for sha cid decided_at, rev_citation_id = cid, rev_state = state, rev_reviewer = reviewer,
      rev_note = note_text, rev_bound_digest = binding_digest sha binding,
      rev_decision_digest = sha256_hex sha (as_bytes (join [0] [cid, review_state_label state, decided_at])),
      rev_decided_at = decided_at, rev_supersedes = None\<rparr>"

definition record_review :: "'u main_env \<Rightarrow> str \<Rightarrow> ReviewState \<Rightarrow> str \<Rightarrow> str \<Rightarrow> main_op" where
  "record_review M cid state reviewer note_text =
     bind_op (read_op (review_binding (main_sha M) cid)) (\<lambda>binding.
     let decision = decision_of (main_sha M) (lv_now (mn_live M)) cid state reviewer note_text binding in
     bind_op (stmt Unstored (insert_review decision)) (\<lambda>inserted.
     shown [(if inserted then lit ''recorded'' else lit ''duplicate'') @ lit '' review '' @ rev_id decision @
       lit '' for citation '' @ cid @ lit '' ('' @ review_state_label state @ lit '')'']))"




definition superseding :: "hash \<Rightarrow> str \<Rightarrow> str \<Rightarrow> str \<Rightarrow> ReviewDecision \<Rightarrow> ReviewDecision" where
  "superseding sha decided_at reviewer reason d =
     \<lparr>rev_id = review_id_for sha (rev_citation_id d) decided_at, rev_citation_id = rev_citation_id d,
      rev_state = ReviewState.Superseded, rev_reviewer = reviewer, rev_note = reason,
      rev_bound_digest = rev_bound_digest d, rev_decision_digest = rev_decision_digest d,
      rev_decided_at = decided_at, rev_supersedes = Some (rev_id d)\<rparr>"


section \<open>Posting\<close>








section \<open>Verification, the site and the dispatch\<close>












section \<open>Calls to X\<close>





section \<open>Files written\<close>


































section \<open>What a scan records\<close>

definition scanned :: "'u main_env \<Rightarrow> RuleSet \<Rightarrow> EvidenceRecord \<times> str \<Rightarrow> store \<Rightarrow> bool" where
  "scanned M rules row s \<longleftrightarrow>
     (case scan (main_text M) (main_sha M) (mn_rules_to_yaml M) (fst row) (snd row) rules of
        None \<Rightarrow> row \<in> set (st_evidence s)
      | Some f \<Rightarrow>
          (annotated (fst row) f, snd row) \<in> set (st_evidence s) \<and> fnd_id f \<in> fnd_id ` set (st_findings s) \<and>
          (case build_alert (main_sha M) (annotated (fst row) f) f None of
             None \<Rightarrow> True | Some a \<Rightarrow> alt_id a \<in> alt_id ` set (st_alerts s)))"

text \<open>What a later round may change: nothing of the documents of other identifiers, and no row is lost.\<close>

definition scan_frame :: "str set \<Rightarrow> store \<Rightarrow> store \<Rightarrow> bool" where
  "scan_frame touched s t \<longleftrightarrow>
     (\<forall>q \<in> set (st_evidence s). evr_id (fst q) \<notin> touched \<longrightarrow> q \<in> set (st_evidence t)) \<and>
     map (evr_id \<circ> fst) (st_evidence t) = map (evr_id \<circ> fst) (st_evidence s) \<and>
     fnd_id ` set (st_findings s) \<subseteq> fnd_id ` set (st_findings t) \<and>
     alt_id ` set (st_alerts s) \<subseteq> alt_id ` set (st_alerts t)"

lemma scan_frame_refl: "scan_frame touched s s"
  by (simp add: scan_frame_def)

lemma scan_frame_trans: "scan_frame a s t \<Longrightarrow> scan_frame b t u \<Longrightarrow> scan_frame (a \<union> b) s u"
  unfolding scan_frame_def by (metis Un_iff subset_trans)

lemma annotated_id [simp]: "evr_id (annotated r f) = evr_id r"
  by (simp add: annotated_def)

lemma update_by_member:
  assumes "q \<in> set xs" "k q = k x"
  shows "x \<in> set (update_by k x xs)"
  using assms by (induction xs) (auto simp: update_by_def)

lemma annotate_frame:
  assumes "update_evidence_annotations r content s = Inr t"
  shows "scan_frame {evr_id r} s t" "(r, content) \<in> set (st_evidence t)"
proof -
  have t: "st_evidence t = update_by (evr_id \<circ> fst) (r, content) (st_evidence s)" "st_findings t = st_findings s"
    "st_alerts t = st_alerts s" and present: "\<exists>row. evidence (evr_id r) s = Inr row"
    using assms by (auto simp: update_evidence_annotations_def split: sum.splits)
  then show "scan_frame {evr_id r} s t"
    by (auto simp: scan_frame_def intro!: update_by_other)
  from present obtain q where "q \<in> set (st_evidence s)" "evr_id (fst q) = evr_id r"
    by (auto simp: evidence_def dest!: select_by_SomeD split: option.splits)
  then show "(r, content) \<in> set (st_evidence t)" unfolding t(1) by (auto intro: update_by_member)
qed

lemma finding_frame:
  assumes "insert_finding f s = Inr (b, t)"
  shows "scan_frame {} s t" "fnd_id f \<in> fnd_id ` set (st_findings t)" "st_evidence t = st_evidence s"
  using findings_table.key_present [OF assms] findings_table.never_forgets [OF assms] assms
  by (auto simp: scan_frame_def insert_finding_def split: if_splits prod.splits)

lemma alert_frame:
  assumes "insert_alert a s = Inr (b, t)"
  shows "scan_frame {} s t" "alt_id a \<in> alt_id ` set (st_alerts t)" "st_evidence t = st_evidence s"
    "st_findings t = st_findings s"
  using alerts_table.key_present [OF assms] alerts_table.never_forgets [OF assms] assms
  by (auto simp: scan_frame_def insert_alert_def split: if_splits prod.splits)

lemma scan_one_parts:
  assumes "scan_one M rules row acc s = (Inr acc', t)" "row \<in> set (st_evidence s)"
  shows "scanned M rules row t" "scan_frame {evr_id (fst row)} s t"
proof -
  obtain r content where row: "row = (r, content)" by fastforce
  have "scanned M rules row t \<and> scan_frame {evr_id (fst row)} s t"
  proof (cases "scan (main_text M) (main_sha M) (mn_rules_to_yaml M) r content rules")
    case None
    then show ?thesis using assms by (simp add: scan_one_def row return_op_Inr scanned_def scan_frame_refl)
  next
    case (Some f)
    then obtain s1 b s2 b2 where steps: "update_evidence_annotations (annotated r f) content s = Inr s1"
        "insert_finding f s1 = Inr (b, s2)"
        "(case build_alert (main_sha M) (annotated r f) f None of
            None \<Rightarrow> return_op False | Some a \<Rightarrow> stmt Unstored (insert_alert a)) s2 = (Inr b2, t)"
      using assms(1) by (auto simp: scan_one_def row op_Inr)
    note one = annotate_frame [OF steps(1)] and two = finding_frame [OF steps(2)]
    have three: "scan_frame {} s2 t \<and> st_evidence t = st_evidence s2 \<and> fnd_id ` set (st_findings s2) \<subseteq> fnd_id ` set (st_findings t) \<and>
        (case build_alert (main_sha M) (annotated r f) f None of
           None \<Rightarrow> True | Some a \<Rightarrow> alt_id a \<in> alt_id ` set (st_alerts t))"
      using steps(3) by (auto simp: op_Inr scan_frame_refl split: option.splits dest: alert_frame)
    have "scan_frame {evr_id r} s t"
      using scan_frame_trans [OF scan_frame_trans [OF one(1) two(1)] three [THEN conjunct1]] by simp
    then show ?thesis using Some one(2) two(2,3) three by (auto simp: row scanned_def)
  qed
  then show "scanned M rules row t" "scan_frame {evr_id (fst row)} s t" by simp_all
qed

lemma scanned_frame:
  assumes "scanned M rules row t" "scan_frame touched t u" "evr_id (fst row) \<notin> touched"
  shows "scanned M rules row u"
  using assms by (auto simp: scanned_def scan_frame_def split: option.splits)

lemma scan_loop:
  assumes "for_op (scan_one M rules) rows acc s = (Inr acc', s')" "distinct (map (evr_id \<circ> fst) rows)"
    "set rows \<subseteq> set (st_evidence s)"
  shows "(\<forall>row \<in> set rows. scanned M rules row s') \<and> scan_frame ((evr_id \<circ> fst) ` set rows) s s'"
  using assms
proof (induction rows arbitrary: acc s)
  case (Cons row rows)
  obtain a t where step: "scan_one M rules row acc s = (Inr a, t)" "for_op (scan_one M rules) rows a t = (Inr acc', s')"
    using Cons.prems(1) by (auto simp: bind_op_Inr)
  have member: "row \<in> set (st_evidence s)" using Cons.prems(3) by simp
  note one = scan_one_parts [OF step(1) member]
  have rest: "set rows \<subseteq> set (st_evidence t)"
  proof
    fix q assume q: "q \<in> set rows"
    then have "evr_id (fst q) \<noteq> evr_id (fst row)" using Cons.prems(2) by (auto simp: image_iff)
    then show "q \<in> set (st_evidence t)" using one(2) q Cons.prems(3) by (auto simp: scan_frame_def)
  qed
  have ih: "(\<forall>q \<in> set rows. scanned M rules q s') \<and> scan_frame ((evr_id \<circ> fst) ` set rows) t s'"
    using Cons.IH [OF step(2) _ rest] Cons.prems(2) by simp
  have "evr_id (fst row) \<notin> (evr_id \<circ> fst) ` set rows" using Cons.prems(2) by auto
  then have "scanned M rules row s'" using scanned_frame [OF one(1)] ih by blast
  then show ?case using ih scan_frame_trans [OF one(2)] by auto
qed (simp add: return_op_Inr scan_frame_refl)

lemma sort_key_keys: "distinct (map f (sort_key k xs)) = distinct (map f xs)"
  by (metis mset_map mset_sort mset_eq_imp_distinct_iff)

text \<open>
  C18: A scan records every match: the finding of each document that matches the configured rules is stored, with
  the alert it gives rise to, and the document is annotated with the rules and quotes; every document is
  still there with its text, the others unchanged.
\<close>

theorem scan_records_every_match:
  assumes "scan_all M s = (Inr out, s')" "distinct (map (evr_id \<circ> fst) (st_evidence s))"
  shows "\<exists>rules. load_rules (mn_rules_of_yaml M) (mn_rules_file M) = Inr rules \<and>
    (\<forall>row \<in> set (st_evidence s). scanned M rules row s') \<and>
    map (evr_id \<circ> fst) (st_evidence s') = map (evr_id \<circ> fst) (st_evidence s)"
proof -
  obtain rules acc where rules: "load_rules (mn_rules_of_yaml M) (mn_rules_file M) = Inr rules"
    and run: "for_op (scan_one M rules) (all_evidence s) (0, []) s = (Inr acc, s')"
    using assms(1) by (auto simp: scan_all_def op_Inr configured_rules_def lift_op_Inr shown_def split: sum.splits prod.splits)
  have "distinct (map (evr_id \<circ> fst) (all_evidence s))" "set (all_evidence s) = set (st_evidence s)"
    using assms(2) by (simp_all add: all_evidence_def sort_key_keys)
  with scan_loop [OF run] rules show ?thesis by (auto simp: scan_frame_def)
qed

section \<open>What a review decides\<close>

lemma record_review_Inr:
  assumes "record_review M cid state reviewer note_text s = (Inr out, s')"
  obtains binding b where "review_binding (main_sha M) cid s = Inr binding"
    "insert_review (decision_of (main_sha M) (lv_now (mn_live M)) cid state reviewer note_text binding) s = Inr (b, s')"
  using assms by (auto simp: record_review_def Let_def op_Inr shown_def)

lemma found_citation: "find_line_citation sha cid s = Some c \<Longrightarrow> citation_id sha c = cid"
  by (auto simp: find_line_citation_def find_Some_iff)

text \<open>
  C13: The first review of a citation decides: after it the citation passes the gate of publication and posting
  exactly when the reviewer approved it, as long as the identifier of the decision is new.
\<close>

theorem first_review_decides:
  assumes "record_review M cid state reviewer note_text s = (Inr out, s')"
    and "find_line_citation (main_sha M) cid s = Some c" "reviews_for_citation cid s = []"
    and "review_id_for (main_sha M) cid (lv_now (mn_live M)) \<notin> rev_id ` set (st_reviews s)"
  shows "assert_citations_approved (main_sha M) s' [c] = Inr () \<longleftrightarrow> state = ReviewState.Approved"
proof -
  obtain binding b where binding: "review_binding (main_sha M) cid s = Inr binding"
    and ins: "insert_review (decision_of (main_sha M) (lv_now (mn_live M)) cid state reviewer note_text binding) s = Inr (b, s')"
    using assms(1) by (rule record_review_Inr)
  let ?d = "decision_of (main_sha M) (lv_now (mn_live M)) cid state reviewer note_text binding"
  have b: "binding = citation_review_binding (main_sha M) c" using binding assms(2) by (simp add: review_binding_def)
  have none: "rev_citation_id q \<noteq> cid" if "q \<in> set (st_reviews s)" for q
    using assms(3) that set_select_where [of "\<lambda>r. rev_citation_id r = cid" rev_id "st_reviews s"]
    by (auto simp: reviews_for_citation_def)
  have reviews: "st_reviews s' = st_reviews s @ [?d]"
    using ins assms(4) by (auto simp: insert_review_def insert_or_ignore_def decision_of_def split: if_splits)
  have "current_review cid s' = Some ?d"
    by (rule current_review_has_greatest_id) (auto simp: reviews decision_of_def dest: none)
  then show ?thesis
    using found_citation [OF assms(2)] unfolding assert_citations_approved_iff
    by (auto simp: decision_of_def b)
qed

section \<open>An alert that is cleared and posted\<close>

definition cited_alert :: Alert where
  "cited_alert = sample_alert\<lparr>alt_citations := [sample_citation]\<rparr>"








definition sample_main :: "hash \<Rightarrow> str main_env" where
  "sample_main sha =
     \<lparr>mn_lib = \<lparr>lib_env = Ingest.sample_env\<lparr>env_sha := sha\<rparr>, lib_upper = ascii_table, lib_client = Inl [], lib_blob_writable = True,
        lib_snapshot_error = (\<lambda>_. []), lib_case_json = (\<lambda>_. [])\<rparr>,
      mn_live = sample_live 0, mn_rules_file = Some [], mn_rules_of_yaml = (\<lambda>_. Some sample_rules),
      mn_rules_to_yaml = (\<lambda>_. None), mn_upper = ascii_table, mn_show_f64 = (\<lambda>_. []), mn_show_2 = (\<lambda>_. []),
      mn_debug_confidence = (\<lambda>_. []), mn_style_css = [], mn_case_error = (\<lambda>_. []), mn_writable = (\<lambda>_. True),
      mn_replace = \<lparr>rio_prepared = True, rio_removal = Removed, rio_renamed = True\<rparr>,
      mn_render = (\<lambda>_ _ _ _ _. Inl []), mn_x_transport = Inr echo\<rparr>"




text \<open>A round returns, when the document is stored under an identifier that makes a path.\<close>

lemma scan_one_succeeds:
  assumes "row \<in> set (st_evidence s)" "record_path (evr_id (fst row)) = Inr p"
  shows "\<exists>acc' t. scan_one M rules row acc s = (Inr acc', t)"
proof -
  obtain r content where row: "row = (r, content)" by fastforce
  show ?thesis
  proof (cases "scan (main_text M) (main_sha M) (mn_rules_to_yaml M) r content rules")
    case None
    then show ?thesis by (simp add: scan_one_def row op_defs)
  next
    case (Some f)
    then have fid: "fnd_evidence_id f = evr_id r" by (auto simp: scan_def Let_def split: if_splits prod.splits)
    have "\<exists>q. evidence (evr_id r) s = Inr q"
      using assms(1) row select_by_None_iff [of "evr_id \<circ> fst" "evr_id r" "st_evidence s"]
      by (cases "select_by (evr_id \<circ> fst) (evr_id r) (st_evidence s)") (force simp: evidence_def)+
    then obtain s1 where s1: "update_evidence_annotations (annotated r f) content s = Inr s1"
      using assms(2) row by (auto simp: update_evidence_annotations_def)
    have member: "evr_id r \<in> (evr_id \<circ> fst) ` set (st_evidence s1)"
      using annotate_frame(2) [OF s1] by (force simp: image_iff)
    then obtain b s2 where s2: "insert_finding f s1 = Inr (b, s2)" "st_evidence s2 = st_evidence s1"
      by (cases "insert_or_ignore fnd_id f (st_findings s1)") (auto simp: insert_finding_def fid)
    have "\<exists>b2 t. insert_alert a s2 = Inr (b2, t)" if "build_alert (main_sha M) (annotated r f) f None = Some a" for a
    proof -
      have "alt_evidence_id a = evr_id r" using that by (auto simp: build_alert_def Let_def split: if_splits)
      then show ?thesis using member s2(2)
        by (cases "insert_or_ignore alt_id a (st_alerts s2)") (auto simp: insert_alert_def)
    qed
    then show ?thesis
      using Some s1 s2(1)
      by (cases "build_alert (main_sha M) (annotated r f) f None") (fastforce simp: scan_one_def row op_defs)+
  qed
qed

definition stored_record :: EvidenceRecord where
  "stored_record = Detect.sample_record\<lparr>evr_id := evidence_id zero_hash [] [] []\<rparr>"

theorem scan_records_every_match_witness:
  "\<exists>out s'. scan_all (sample_main id_hash) (empty_store\<lparr>st_evidence := [(stored_record, sample_text)]\<rparr>) = (Inr out, s') \<and>
     scanned (sample_main id_hash) sample_rules (stored_record, sample_text) s' \<and> st_findings s' \<noteq> []"
proof -
  let ?M = "sample_main id_hash" and ?row = "(stored_record, sample_text)"
  let ?s = "empty_store\<lparr>st_evidence := [?row]\<rparr>"
  have env: "main_text ?M = plain_lib"
    by (simp add: main_text_def main_sha_def sample_main_def Ingest.sample_env_def)
  have rules: "load_rules (mn_rules_of_yaml ?M) (mn_rules_file ?M) = Inr sample_rules"
    by (simp add: load_rules_def sample_main_def) (code_simp)
  have "record_path (evr_id (fst ?row)) = Inr (evidence_id zero_hash [] [] [])"
    by (simp add: stored_record_def sample_record_path)
  then obtain acc s' where one: "scan_one ?M sample_rules ?row (0, []) ?s = (Inr acc, s')"
    using scan_one_succeeds [of ?row ?s] by fastforce
  then have run: "scan_all ?M ?s = (Inr \<lparr>out_lines = snd acc @ [show_nat (fst acc) @ lit '' new deterministic finding(s)''],
      out_files = []\<rparr>, s')"
    by (simp add: scan_all_def configured_rules_def rules op_Inr lift_op_Inr all_evidence_def shown_def)
      (cases acc, simp add: op_defs)
  have scanned: "scanned ?M sample_rules ?row s'"
    using scan_records_every_match [OF run] rules by auto
  obtain f where "scan plain_lib (main_sha ?M) (mn_rules_to_yaml ?M) stored_record sample_text sample_rules = Some f"
    by (cases "classify_near plain_lib stored_record sample_text [citation stored_record sample_text 1]")
      (simp add: scan_def sample_hits Let_def)
  then have "st_findings s' \<noteq> []" using scanned by (auto simp: scanned_def env)
  with run scanned show ?thesis by blast
qed

theorem first_review_decides_witness:
  "\<exists>out s'. record_review (sample_main id_hash) (citation_id id_hash sample_citation) ReviewState.Rejected [] []
      (empty_store\<lparr>st_alerts := [cited_alert]\<rparr>) = (Inr out, s') \<and>
     assert_citations_approved id_hash s' [sample_citation] \<noteq> Inr ()"
proof -
  let ?M = "sample_main id_hash" and ?cid = "citation_id id_hash sample_citation" and ?s = "empty_store\<lparr>st_alerts := [cited_alert]\<rparr>"
  have sha: "main_sha ?M = id_hash" by (simp add: main_sha_def sample_main_def)
  have found: "find_line_citation (main_sha ?M) ?cid ?s = Some sample_citation"
    by (simp add: find_line_citation_def alerts_def cited_alert_def sha)
  have empty: "st_reviews ?s = []" by (simp add: empty_store_def)
  obtain out s' where run: "record_review ?M ?cid ReviewState.Rejected [] [] ?s = (Inr out, s')"
    using found by (auto simp: record_review_def review_binding_def op_defs Let_def insert_review_def insert_or_ignore_def
        empty shown_def)
  from first_review_decides [OF run found] show ?thesis
    using run by (auto simp: reviews_for_citation_def select_where_def empty sha)
qed

section \<open>What the code shows\<close>

text \<open>
  The citation names the digest of its text map, but maps are found by identifier, and those have a prefix:
  the image is always drawn as if the page were of letter size.
\<close>

lemma render_page_is_letter_size:
  assumes "\<forall>m \<in> set (st_text_maps s). \<exists>u. tm_id m = lit ''textmap:'' @ u"
    and "\<not> starts_with (pc_text_map_digest c) (lit ''textmap:'')"
  shows "render_page c s = (0x4083200000000000, 0x4088C00000000000)"
proof -
  have "select_by tm_id (pc_text_map_digest c) (st_text_maps s) = None"
    using assms by (auto simp: select_by_None_iff starts_with_iff)
  then show ?thesis by (simp add: render_page_def text_map_def read_row_def)
qed

text \<open>A follow-up decision counts only when its identifier, a hash, sorts after those there are.\<close>

lemma superseding_with_smaller_id_is_ignored:
  assumes "d \<in> set (st_reviews s)"
    and "\<And>q. q \<in> set (st_reviews s) \<Longrightarrow> rev_citation_id q = rev_citation_id d \<Longrightarrow> q \<noteq> d \<Longrightarrow> rev_id q < rev_id d"
    and "insert_review (superseding sha now reviewer reason d) s = Inr (b, s')"
    and "rev_id (superseding sha now reviewer reason d) < rev_id d"
  shows "current_review (rev_citation_id d) s' = Some d"
proof (rule current_review_has_greatest_id)
  show "d \<in> set (st_reviews s')" "rev_citation_id d = rev_citation_id d"
    using assms(1,3) by (auto simp: insert_review_def insert_or_ignore_def split: if_splits)
  fix q assume "q \<in> set (st_reviews s')" "rev_citation_id q = rev_citation_id d" "q \<noteq> d"
  then show "rev_id q < rev_id d"
    using assms(2-4) by (auto simp: insert_review_def insert_or_ignore_def split: if_splits)
qed

end
