(* ===== verification/Schema.thy ===== *)
theory Schema
  imports Store
begin

text \<open>
  The schema of the database and its migrations (\<open>pnull-core/src/migrate.rs\<close> and \<open>Store::open\<close> of \<open>lib.rs\<close>).
  A database has tables with their columns and rows, indexes and a user version; the rows are of any type.
  Of SQLite the two statements of the source are modelled, with \<open>IF NOT EXISTS\<close> and the errors they can
  raise; names are compared exactly, as all of them are in lower case.
\<close>

section \<open>Databases and statements\<close>

record table_column =
  col_name :: string
  col_type :: string
  col_not_null :: bool
  col_references :: "(string \<times> string) option"

record table_def =
  td_columns :: "table_column list"
  td_primary_key :: "string list"

record 'r database =
  db_tables :: "string \<rightharpoonup> table_def \<times> 'r list"
  db_indexes :: "string \<rightharpoonup> string \<times> string list"
  db_user_version :: int

datatype statement =
  CreateTable string "table_column list" "string list"
| CreateIndex string string "string list"

datatype SchemaError = NoSuchTable string | NoSuchColumn string | NameInUse string

definition plain_column :: "string \<Rightarrow> table_column" where
  "plain_column n = \<lparr>col_name = n, col_type = ''TEXT'', col_not_null = False, col_references = None\<rparr>"

definition text_column :: "string \<Rightarrow> table_column" where
  "text_column n = \<lparr>col_name = n, col_type = ''TEXT'', col_not_null = True, col_references = None\<rparr>"

definition integer_column :: "string \<Rightarrow> table_column" where
  "integer_column n = \<lparr>col_name = n, col_type = ''INTEGER'', col_not_null = True, col_references = None\<rparr>"

definition refers_to :: "string \<Rightarrow> string \<Rightarrow> string \<Rightarrow> table_column" where
  "refers_to n t c = \<lparr>col_name = n, col_type = ''TEXT'', col_not_null = True, col_references = Some (t, c)\<rparr>"

definition plain_reference :: "string \<Rightarrow> string \<Rightarrow> string \<Rightarrow> table_column" where
  "plain_reference n t c = \<lparr>col_name = n, col_type = ''TEXT'', col_not_null = False, col_references = Some (t, c)\<rparr>"

text \<open>
  \<open>CREATE TABLE IF NOT EXISTS\<close> does nothing to a table of that name, whatever its columns, and fails for the
  name of an index; \<open>CREATE INDEX IF NOT EXISTS\<close> looks for the table first, then for the name, then for the columns.
\<close>

fun execute :: "statement \<Rightarrow> 'r database \<Rightarrow> SchemaError + 'r database" where
  "execute (CreateTable name columns key) db =
     (if db_tables db name \<noteq> None then Inr db
      else if db_indexes db name \<noteq> None then Inl (NameInUse name)
      else Inr (db\<lparr>db_tables := (db_tables db)(name \<mapsto> (\<lparr>td_columns = columns, td_primary_key = key\<rparr>, []))\<rparr>))"
| "execute (CreateIndex name table columns) db =
     (case db_tables db table of
        None \<Rightarrow> Inl (NoSuchTable table)
      | Some (d, _) \<Rightarrow>
          if db_tables db name \<noteq> None then Inl (NameInUse name)
          else if db_indexes db name \<noteq> None then Inr db
          else
            case find (\<lambda>c. c \<notin> col_name ` set (td_columns d)) columns of
              Some c \<Rightarrow> Inl (NoSuchColumn c)
            | None \<Rightarrow> Inr (db\<lparr>db_indexes := (db_indexes db)(name \<mapsto> (table, columns))\<rparr>))"

text \<open>A batch stops at the first error; what it did before is done.\<close>

fun execute_batch :: "statement list \<Rightarrow> 'r database \<Rightarrow> (SchemaError + unit) \<times> 'r database" where
  "execute_batch [] db = (Inr (), db)"
| "execute_batch (q # qs) db =
     (case execute q db of Inl e \<Rightarrow> (Inl e, db) | Inr db' \<Rightarrow> execute_batch qs db')"

section \<open>The tables of each version\<close>

definition BASE_STATEMENTS :: "statement list" where
  "BASE_STATEMENTS =
    [CreateTable ''evidence''
       [plain_column ''id'',
        text_column ''sha256'',
        text_column ''source_url'',
        text_column ''record_json'',
        text_column ''extracted_text''] [''id''],
     CreateTable ''findings''
       [plain_column ''id'',
        refers_to ''evidence_id'' ''evidence'' ''id'',
        text_column ''finding_json''] [''id''],
     CreateTable ''alerts''
       [plain_column ''id'',
        refers_to ''evidence_id'' ''evidence'' ''id'',
        text_column ''alert_json''] [''id''],
     CreateTable ''approvals''
       [plain_reference ''alert_id'' ''alerts'' ''id'',
        text_column ''draft_digest'',
        text_column ''approved_at''] [''alert_id''],
     CreateTable ''posts''
       [plain_reference ''alert_id'' ''alerts'' ''id'',
        text_column ''remote_ids_json'',
        text_column ''posted_at''] [''alert_id''],
     CreateTable ''source_fetches''
       [plain_column ''source_id'',
        integer_column ''fetched_at_unix''] [''source_id''],
     CreateTable ''post_segments''
       [refers_to ''alert_id'' ''posts'' ''alert_id'',
        integer_column ''segment_index'',
        text_column ''remote_id''] [''alert_id'', ''segment_index'']]"

definition V1_STATEMENTS :: "statement list" where
  "V1_STATEMENTS =
    [CreateTable ''matters''
       [plain_column ''id'',
        text_column ''source_id'',
        text_column ''official_matter_id'',
        text_column ''matter_json''] [''id''],
     CreateTable ''matter_attachments''
       [plain_column ''id'',
        refers_to ''matter_id'' ''matters'' ''id'',
        text_column ''attachment_json''] [''id''],
     CreateTable ''subjects''
       [plain_column ''id'',
        text_column ''matter_id'',
        text_column ''subject_json''] [''id''],
     CreateTable ''actions''
       [plain_column ''id'',
        text_column ''matter_id'',
        text_column ''subject_id'',
        text_column ''action_json''] [''id''],
     CreateTable ''text_maps''
       [plain_column ''id'',
        refers_to ''evidence_id'' ''evidence'' ''id'',
        text_column ''text_map_json''] [''id''],
     CreateTable ''page_citations''
       [plain_column ''id'',
        refers_to ''evidence_id'' ''evidence'' ''id'',
        text_column ''page_citation_json''] [''id''],
     CreateTable ''review_decisions''
       [plain_column ''id'',
        text_column ''citation_id'',
        text_column ''decision_json''] [''id''],
     CreateTable ''processing_runs'' [plain_column ''id'', text_column ''run_json''] [''id''],
     CreateTable ''source_reviews''
       [plain_column ''id'',
        text_column ''source_id'',
        text_column ''review_json''] [''id''],
     CreateTable ''fetch_observations''
       [plain_column ''id'',
        plain_column ''source_id'',
        text_column ''observation_json''] [''id''],
     CreateTable ''x_attempts''
       [plain_column ''id'',
        refers_to ''alert_id'' ''alerts'' ''id'',
        text_column ''attempt_json''] [''id''],
     CreateTable ''x_reconciliations''
       [plain_column ''id'',
        refers_to ''attempt_id'' ''x_attempts'' ''id'',
        text_column ''reconciliation_json''] [''id''],
     CreateTable ''publication_allowlists'' [plain_column ''id'', text_column ''allowlist_json''] [''id''],
     CreateIndex ''idx_matters_source'' ''matters'' [''source_id''],
     CreateIndex ''idx_actions_matter'' ''actions'' [''matter_id''],
     CreateIndex ''idx_reviews_citation'' ''review_decisions'' [''citation_id''],
     CreateIndex ''idx_sr_source'' ''source_reviews'' [''source_id''],
     CreateIndex ''idx_fo_source'' ''fetch_observations'' [''source_id''],
     CreateIndex ''idx_xa_alert'' ''x_attempts'' [''alert_id'']]"

definition V2_STATEMENTS :: "statement list" where
  "V2_STATEMENTS =
    [CreateTable ''procurement_matters''
       [plain_column ''id'',
        text_column ''official_title'',
        text_column ''matter_json''] [''id''],
     CreateTable ''procurement_events''
       [plain_column ''id'',
        text_column ''matter_id'',
        text_column ''event_json''] [''id''],
     CreateTable ''procurement_identifiers''
       [plain_column ''id'',
        text_column ''matter_id'',
        text_column ''identifier_json''] [''id''],
     CreateTable ''procurement_organizations''
       [plain_column ''id'',
        text_column ''matter_id'',
        text_column ''organization_json''] [''id''],
     CreateTable ''coverage_ledger''
       [plain_column ''id'',
        text_column ''source_id'',
        text_column ''entry_json''] [''id''],
     CreateTable ''source_snapshots''
       [plain_column ''id'',
        text_column ''source_id'',
        text_column ''snapshot_json''] [''id''],
     CreateTable ''snapshot_revisions''
       [plain_column ''id'',
        text_column ''snapshot_id'',
        text_column ''revision_json''] [''id''],
     CreateTable ''snapshot_diffs''
       [plain_column ''id'',
        text_column ''old_snapshot_id'',
        text_column ''new_snapshot_id'',
        text_column ''diff_json''] [''id''],
     CreateTable ''reconciliation_items''
       [plain_column ''id'',
        text_column ''matter_id'',
        text_column ''item_json''] [''id''],
     CreateTable ''reconciliation_decisions''
       [plain_column ''id'',
        text_column ''item_id'',
        text_column ''decision_json''] [''id''],
     CreateTable ''case_files''
       [plain_column ''id'',
        text_column ''matter_id'',
        text_column ''case_file_json''] [''id''],
     CreateTable ''cora_drafts''
       [plain_column ''id'',
        text_column ''matter_id'',
        text_column ''draft_json''] [''id''],
     CreateIndex ''idx_pe_matter'' ''procurement_events'' [''matter_id''],
     CreateIndex ''idx_pid_matter'' ''procurement_identifiers'' [''matter_id''],
     CreateIndex ''idx_porg_matter'' ''procurement_organizations'' [''matter_id''],
     CreateIndex ''idx_cl_source'' ''coverage_ledger'' [''source_id''],
     CreateIndex ''idx_ss_source'' ''source_snapshots'' [''source_id''],
     CreateIndex ''idx_sr_snapshot'' ''snapshot_revisions'' [''snapshot_id''],
     CreateIndex ''idx_sd_old'' ''snapshot_diffs'' [''old_snapshot_id''],
     CreateIndex ''idx_sd_new'' ''snapshot_diffs'' [''new_snapshot_id''],
     CreateIndex ''idx_ri_matter'' ''reconciliation_items'' [''matter_id''],
     CreateIndex ''idx_rd_item'' ''reconciliation_decisions'' [''item_id''],
     CreateIndex ''idx_cf_matter'' ''case_files'' [''matter_id''],
     CreateIndex ''idx_cora_matter'' ''cora_drafts'' [''matter_id'']]"

definition V3_STATEMENTS :: "statement list" where
  "V3_STATEMENTS =
    [CreateTable ''procurement_alerts''
       [plain_column ''id'',
        text_column ''source_id'',
        text_column ''alert_json''] [''id''],
     CreateTable ''cora_requests''
       [plain_column ''id'',
        text_column ''matter_id'',
        text_column ''request_json''] [''id''],
     CreateTable ''official_relationships''
       [plain_column ''id'',
        text_column ''source_record_id'',
        text_column ''relationship_json''] [''id''],
     CreateTable ''supplied_records''
       [plain_column ''id'',
        text_column ''observed_digest'',
        text_column ''record_json''] [''id''],
     CreateIndex ''idx_pa_source'' ''procurement_alerts'' [''source_id''],
     CreateIndex ''idx_cr_matter'' ''cora_requests'' [''matter_id''],
     CreateIndex ''idx_or_source'' ''official_relationships'' [''source_record_id''],
     CreateIndex ''idx_sr_digest'' ''supplied_records'' [''observed_digest'']]"

definition V4_STATEMENTS :: "statement list" where
  "V4_STATEMENTS =
    [CreateTable ''snapshot_rows''
       [refers_to ''snapshot_id'' ''source_snapshots'' ''id'',
        integer_column ''seq'',
        text_column ''row_key'',
        text_column ''canonical'',
        text_column ''row_digest'',
        text_column ''raw_json''] [''snapshot_id'', ''seq''],
     CreateIndex ''idx_srows_snapshot'' ''snapshot_rows'' [''snapshot_id''],
     CreateIndex ''idx_srows_snapshot_key'' ''snapshot_rows'' [''snapshot_id'', ''row_key''],
     CreateTable ''snapshot_row_sets''
       [plain_reference ''snapshot_id'' ''source_snapshots'' ''id'',
        integer_column ''expected_count'',
        text_column ''row_set_digest'',
        text_column ''parser_version'',
        integer_column ''schema_version''] [''snapshot_id'']]"

section \<open>Migration\<close>

datatype MigrateError = MigrateSqlite SchemaError | UnsupportedSchema "32 word"

definition SCHEMA_VERSION :: "32 word" where "SCHEMA_VERSION = 4"
definition MAX_SUPPORTED_SCHEMA_VERSION :: "32 word" where "MAX_SUPPORTED_SCHEMA_VERSION = 4"

definition current_version :: "'r database \<Rightarrow> 32 word" where
  "current_version db =
     (if 0 \<le> db_user_version db \<and> db_user_version db < 2 ^ 32 then of_int (db_user_version db) else - 1)"

definition apply_v1 :: "'r database \<Rightarrow> (SchemaError + unit) \<times> 'r database" where
  "apply_v1 = execute_batch V1_STATEMENTS"

definition apply_v2 :: "'r database \<Rightarrow> (SchemaError + unit) \<times> 'r database" where
  "apply_v2 = execute_batch V2_STATEMENTS"

definition apply_v3 :: "'r database \<Rightarrow> (SchemaError + unit) \<times> 'r database" where
  "apply_v3 = execute_batch V3_STATEMENTS"

definition apply_v4 :: "'r database \<Rightarrow> (SchemaError + unit) \<times> 'r database" where
  "apply_v4 = execute_batch V4_STATEMENTS"

text \<open>A step of the transaction that is taken when the version is below its own.\<close>

definition when_below ::
  "32 word \<Rightarrow> 32 word \<Rightarrow> ('r database \<Rightarrow> (SchemaError + unit) \<times> 'r database) \<Rightarrow> SchemaError + 'r database \<Rightarrow> SchemaError + 'r database" where
  "when_below version target step acc =
     (case acc of
        Inl e \<Rightarrow> Inl e
      | Inr db \<Rightarrow>
          if version < target then (case step db of (Inl e, _) \<Rightarrow> Inl e | (Inr _, db') \<Rightarrow> Inr db') else Inr db)"

text \<open>The transaction is dropped, and with it everything it did, at the first error.\<close>

definition migrate :: "'r database \<Rightarrow> (MigrateError + unit) \<times> 'r database" where
  "migrate db =
     (let version = current_version db in
      if version = SCHEMA_VERSION then (Inr (), db)
      else if version > MAX_SUPPORTED_SCHEMA_VERSION then (Inl (UnsupportedSchema version), db)
      else
        case when_below version 4 apply_v4 (when_below version 3 apply_v3
            (when_below version 2 apply_v2 (when_below version 1 apply_v1 (Inr db)))) of
          Inl e \<Rightarrow> (Inl (MigrateSqlite e), db)
        | Inr db' \<Rightarrow> (Inr (), db'\<lparr>db_user_version := uint SCHEMA_VERSION\<rparr>))"

datatype OpenError = OpenSqlite SchemaError | OpenMigration MigrateError

text \<open>\<open>Store::open\<close>, without the directories and their permissions.\<close>

definition open_store :: "'r database \<Rightarrow> (OpenError + unit) \<times> 'r database" where
  "open_store db =
     (case execute_batch BASE_STATEMENTS db of
        (Inl e, db') \<Rightarrow> (Inl (OpenSqlite e), db')
      | (Inr _, db') \<Rightarrow>
          (case migrate db' of (Inl e, db'') \<Rightarrow> (Inl (OpenMigration e), db'') | (Inr _, db'') \<Rightarrow> (Inr (), db'')))"

section \<open>Nothing is lost\<close>

text \<open>A later database has every table with its rows and every index; what it has more is empty.\<close>

definition grown :: "'r database \<Rightarrow> 'r database \<Rightarrow> bool" where
  "grown db db' \<longleftrightarrow>
     db_tables db \<subseteq>\<^sub>m db_tables db' \<and> db_indexes db \<subseteq>\<^sub>m db_indexes db' \<and>
     (\<forall>t \<in> dom (db_tables db') - dom (db_tables db). \<exists>d. db_tables db' t = Some (d, []))"

lemma grown_refl [simp]: "grown db db"
  by (simp add: grown_def)

lemma grown_trans: "grown a b \<Longrightarrow> grown b c \<Longrightarrow> grown a c"
  unfolding grown_def by (metis DiffI Diff_iff domIff map_le_def map_le_trans)

lemma grown_version [simp]: "grown a (b\<lparr>db_user_version := v\<rparr>) = grown a b"
  by (simp add: grown_def)

lemma execute_grown: "execute q db = Inr db' \<Longrightarrow> grown db db' \<and> db_user_version db' = db_user_version db"
  by (cases q) (auto simp: grown_def map_le_def split: if_splits option.splits)

lemma execute_batch_grown:
  "execute_batch qs db = (r, db') \<Longrightarrow> grown db db' \<and> db_user_version db' = db_user_version db"
proof (induction qs arbitrary: db)
  case (Cons q qs)
  then show ?case
    by (auto split: sum.splits dest!: execute_grown intro: grown_trans)
qed simp

lemma when_below_grown:
  assumes "when_below v k (execute_batch qs) acc = Inr db'"
  obtains db where "acc = Inr db" "grown db db'" "db_user_version db' = db_user_version db"
  using assms by (auto simp: when_below_def split: sum.splits if_splits prod.splits dest: execute_batch_grown)

lemma migrate_grown: "migrate db = (r, db') \<Longrightarrow> grown db db'"
  unfolding migrate_def apply_v1_def apply_v2_def apply_v3_def apply_v4_def
  by (auto simp: Let_def split: if_splits sum.splits elim!: when_below_grown) (blast intro: grown_trans)

lemma migrate_version:
  assumes "migrate db = (r, db')"
  shows "case r of Inl _ \<Rightarrow> db' = db | Inr _ \<Rightarrow> db_user_version db' = 4"
proof (cases "current_version db = SCHEMA_VERSION")
  case True
  then have range: "0 \<le> db_user_version db" "db_user_version db < 2 ^ 32"
    by (auto simp: current_version_def SCHEMA_VERSION_def split: if_splits)
  have "uint (current_version db) = 4" by (simp add: True SCHEMA_VERSION_def)
  then have "db_user_version db = 4"
    using range by (simp add: current_version_def unsigned_of_int take_bit_int_eq_self)
  then show ?thesis using assms True by (auto simp: migrate_def)
next
  case False
  then show ?thesis using assms
    by (auto simp: migrate_def Let_def SCHEMA_VERSION_def split: if_splits sum.splits)
qed

section \<open>The schema is reached\<close>

definition ALL_STATEMENTS :: "statement list" where
  "ALL_STATEMENTS = BASE_STATEMENTS @ V1_STATEMENTS @ V2_STATEMENTS @ V3_STATEMENTS @ V4_STATEMENTS"

fun name_of :: "statement \<Rightarrow> string" where
  "name_of (CreateTable t _ _) = t"
| "name_of (CreateIndex i _ _) = i"

fun present :: "'r database \<Rightarrow> statement \<Rightarrow> bool" where
  "present db (CreateTable t columns key) =
     (case db_tables db t of None \<Rightarrow> False | Some (d, _) \<Rightarrow> d = \<lparr>td_columns = columns, td_primary_key = key\<rparr>)"
| "present db (CreateIndex i _ _) = (db_indexes db i \<noteq> None)"

text \<open>No name of the schema is used for something else.\<close>

fun fits :: "'r database \<Rightarrow> statement \<Rightarrow> bool" where
  "fits db (CreateTable t columns key) =
     (db_indexes db t = None \<and> (db_tables db t = None \<or> present db (CreateTable t columns key)))"
| "fits db (CreateIndex i _ _) = (db_tables db i = None)"

definition conforms :: "'r database \<Rightarrow> bool" where
  "conforms db = list_all (fits db) ALL_STATEMENTS"

definition has_all :: "statement list \<Rightarrow> 'r database \<Rightarrow> bool" where
  "has_all qs db = list_all (present db) qs"

text \<open>What the migrations up to a version make.\<close>

definition reached :: "int \<Rightarrow> 'r database \<Rightarrow> bool" where
  "reached v db \<longleftrightarrow>
     (1 \<le> v \<longrightarrow> has_all V1_STATEMENTS db) \<and> (2 \<le> v \<longrightarrow> has_all V2_STATEMENTS db) \<and>
     (3 \<le> v \<longrightarrow> has_all V3_STATEMENTS db) \<and> (4 \<le> v \<longrightarrow> has_all V4_STATEMENTS db)"

text \<open>In a batch an index is made on columns of a table that was made before it.\<close>

fun in_order :: "(string \<times> string list) list \<Rightarrow> statement list \<Rightarrow> bool" where
  "in_order ts [] = True"
| "in_order ts (CreateTable t columns key # qs) = in_order ((t, map col_name columns) # ts) qs"
| "in_order ts (CreateIndex i t columns # qs) =
     (list_ex (\<lambda>(t', names). t' = t \<and> set columns \<subseteq> set names) ts \<and> in_order ts qs)"

definition has_columns :: "'r database \<Rightarrow> string \<times> string list \<Rightarrow> bool" where
  "has_columns db = (\<lambda>(t, names). \<exists>d rows. db_tables db t = Some (d, rows) \<and> map col_name (td_columns d) = names)"

text \<open>What is checked of the fixed schema, once.\<close>

lemmas column_defs = plain_column_def text_column_def integer_column_def refers_to_def plain_reference_def

lemma schema_names: "distinct (map name_of ALL_STATEMENTS)"
  by (simp add: ALL_STATEMENTS_def BASE_STATEMENTS_def V1_STATEMENTS_def V2_STATEMENTS_def V3_STATEMENTS_def V4_STATEMENTS_def)

lemma schema_order:
  "in_order [] BASE_STATEMENTS" "in_order [] V1_STATEMENTS" "in_order [] V2_STATEMENTS"
  "in_order [] V3_STATEMENTS" "in_order [] V4_STATEMENTS"
  by (simp_all add: BASE_STATEMENTS_def V1_STATEMENTS_def V2_STATEMENTS_def V3_STATEMENTS_def V4_STATEMENTS_def column_defs)

lemma same_name: "q \<in> set ALL_STATEMENTS \<Longrightarrow> q' \<in> set ALL_STATEMENTS \<Longrightarrow> name_of q = name_of q' \<Longrightarrow> q = q'"
  using schema_names by (auto simp: distinct_map inj_on_def)

lemma conforms_fits: "conforms db \<Longrightarrow> q \<in> set ALL_STATEMENTS \<Longrightarrow> fits db q"
  by (simp add: conforms_def list_all_iff)

lemma present_grown: "present db q \<Longrightarrow> grown db db' \<Longrightarrow> present db' q"
  by (cases q) (fastforce simp: grown_def map_le_def dom_def split: option.splits)+

lemma has_all_grown: "has_all qs db \<Longrightarrow> grown db db' \<Longrightarrow> has_all qs db'"
  by (auto simp: has_all_def list_all_iff intro: present_grown)

lemma has_columns_grown: "has_columns db x \<Longrightarrow> grown db db' \<Longrightarrow> has_columns db' x"
  by (cases x) (fastforce simp: has_columns_def grown_def map_le_def dom_def)

lemma has_all_append [simp]: "has_all (qs @ rs) db \<longleftrightarrow> has_all qs db \<and> has_all rs db"
  by (simp add: has_all_def)

lemma has_all_version [simp]: "has_all qs (db\<lparr>db_user_version := v\<rparr>) = has_all qs db"
proof -
  have "present (db\<lparr>db_user_version := v\<rparr>) q = present db q" for q by (cases q) simp_all
  then show ?thesis by (simp add: has_all_def list_all_iff)
qed

lemma execute_table:
  assumes "conforms db" "CreateTable t columns key \<in> set ALL_STATEMENTS"
  shows "\<exists>db'. execute (CreateTable t columns key) db = Inr db' \<and> conforms db' \<and> present db' (CreateTable t columns key)"
proof (cases "db_tables db t")
  case None
  let ?q = "CreateTable t columns key"
  let ?db = "db\<lparr>db_tables := (db_tables db)(t \<mapsto> (\<lparr>td_columns = columns, td_primary_key = key\<rparr>, []))\<rparr>"
  have "fits ?db q" if "q \<in> set ALL_STATEMENTS" for q
    using conforms_fits [OF assms(1) that] same_name [OF that assms(2)] by (cases q) auto
  then have "conforms ?db" by (simp add: conforms_def list_all_iff)
  then show ?thesis using None conforms_fits [OF assms] by simp
next
  case (Some x)
  then show ?thesis using conforms_fits [OF assms] assms(1) by auto
qed

lemma execute_index:
  assumes "conforms db" "CreateIndex i t columns \<in> set ALL_STATEMENTS"
    and "has_columns db (t, names)" "set columns \<subseteq> set names"
  shows "\<exists>db'. execute (CreateIndex i t columns) db = Inr db' \<and> conforms db' \<and> present db' (CreateIndex i t columns)"
proof (cases "db_indexes db i")
  case None
  let ?db = "db\<lparr>db_indexes := (db_indexes db)(i \<mapsto> (t, columns))\<rparr>"
  obtain d rows where d: "db_tables db t = Some (d, rows)" "names = map col_name (td_columns d)"
    using assms(3) by (auto simp: has_columns_def)
  have "find (\<lambda>c. c \<notin> col_name ` set (td_columns d)) columns = None"
    using assms(4) d(2) by (auto simp: find_None_iff)
  then have "execute (CreateIndex i t columns) db = Inr ?db"
    using None d(1) conforms_fits [OF assms(1,2)] by simp
  moreover have "fits ?db q" if "q \<in> set ALL_STATEMENTS" for q
    using conforms_fits [OF assms(1) that] same_name [OF that assms(2)] by (cases q) auto
  ultimately show ?thesis by (simp add: conforms_def list_all_iff)
next
  case (Some x)
  obtain d rows where "db_tables db t = Some (d, rows)" using assms(3) by (auto simp: has_columns_def)
  then show ?thesis using Some conforms_fits [OF assms(1,2)] assms(1) by auto
qed

lemma batch_succeeds:
  assumes "conforms db" "set qs \<subseteq> set ALL_STATEMENTS" "in_order ts qs" "list_all (has_columns db) ts"
  shows "\<exists>db'. execute_batch qs db = (Inr (), db') \<and> conforms db' \<and> has_all qs db'"
  using assms
proof (induction qs arbitrary: db ts)
  case (Cons q qs)
  have q: "q \<in> set ALL_STATEMENTS" "set qs \<subseteq> set ALL_STATEMENTS" using Cons.prems(2) by auto
  have "\<exists>db' ts'. execute q db = Inr db' \<and> conforms db' \<and> present db' q \<and> in_order ts' qs \<and> list_all (has_columns db') ts'"
  proof (cases q)
    case (CreateTable t columns key)
    then obtain db' where db': "execute q db = Inr db'" "conforms db'" "present db' q"
      using execute_table [OF Cons.prems(1)] q(1) by blast
    have "list_all (has_columns db') ((t, map col_name columns) # ts)"
      using Cons.prems(4) db'(3) execute_grown [OF db'(1)] CreateTable
      by (auto simp: list_all_iff intro: has_columns_grown) (auto simp: has_columns_def split: option.splits)
    moreover have "in_order ((t, map col_name columns) # ts) qs" using Cons.prems(3) CreateTable by simp
    ultimately show ?thesis using db' by blast
  next
    case (CreateIndex i t columns)
    then obtain names where names: "(t, names) \<in> set ts" "set columns \<subseteq> set names" "in_order ts qs"
      using Cons.prems(3) by (auto simp: list_ex_iff)
    have "has_columns db (t, names)" using names(1) Cons.prems(4) by (auto simp: list_all_iff)
    then obtain db' where db': "execute q db = Inr db'" "conforms db'" "present db' q"
      using execute_index [OF Cons.prems(1) _ _ names(2)] q(1) CreateIndex by blast
    moreover have "list_all (has_columns db') ts"
      using Cons.prems(4) execute_grown [OF db'(1)] by (auto simp: list_all_iff intro: has_columns_grown)
    ultimately show ?thesis using names(3) by blast
  qed
  then obtain db' ts' where step: "execute q db = Inr db'" "present db' q"
      and next_prems: "conforms db'" "in_order ts' qs" "list_all (has_columns db') ts'" by blast
  obtain db'' where rest: "execute_batch qs db' = (Inr (), db'')" "conforms db''" "has_all qs db''"
    using Cons.IH [OF next_prems(1) q(2) next_prems(2,3)] by blast
  have "present db'' q" using present_grown [OF step(2)] execute_batch_grown [OF rest(1)] by blast
  then show ?case using step(1) rest by (simp add: has_all_def)
qed (simp add: has_all_def)

lemma step_succeeds:
  assumes "conforms db" "set qs \<subseteq> set ALL_STATEMENTS" "in_order [] qs"
    and "\<not> v < k \<Longrightarrow> has_all qs db"
  obtains db' where "when_below v k (execute_batch qs) (Inr db) = Inr db'" "conforms db'" "has_all qs db'" "grown db db'"
proof (cases "v < k")
  case True
  obtain db' where "execute_batch qs db = (Inr (), db')" "conforms db'" "has_all qs db'"
    using batch_succeeds [OF assms(1-3)] by auto
  then show ?thesis using that True execute_batch_grown by (fastforce simp: when_below_def)
next
  case False
  then show ?thesis using that [of db] assms by (simp add: when_below_def)
qed

lemma present_table: "present db (CreateTable t columns key) \<Longrightarrow> execute (CreateTable t columns key) db = Inr db"
  by (auto split: option.splits)

lemma present_batch: "has_all BASE_STATEMENTS db \<Longrightarrow> execute_batch BASE_STATEMENTS db = (Inr (), db)"
  by (simp add: BASE_STATEMENTS_def has_all_def present_table del: execute.simps present.simps)

lemma small_version:
  assumes "0 \<le> db_user_version db" "db_user_version db \<le> 4"
  shows "uint (current_version db) = db_user_version db"
  using assms by (simp add: current_version_def unsigned_of_int take_bit_int_eq_self)

lemma migrate_succeeds:
  assumes "conforms db" "0 \<le> db_user_version db" "db_user_version db \<le> 4" "reached (db_user_version db) db"
    and "has_all BASE_STATEMENTS db"
  shows "\<exists>db'. migrate db = (Inr (), db') \<and> conforms db' \<and> has_all ALL_STATEMENTS db'"
proof (cases "current_version db = SCHEMA_VERSION")
  case True
  then have "db_user_version db = 4" using small_version [OF assms(2,3)] by (simp add: SCHEMA_VERSION_def)
  then show ?thesis using True assms by (simp add: migrate_def reached_def ALL_STATEMENTS_def)
next
  case False
  let ?v = "current_version db"
  have v: "uint ?v = db_user_version db" by (rule small_version [OF assms(2,3)])
  have le: "\<not> ?v > MAX_SUPPORTED_SCHEMA_VERSION" "\<And>k. \<not> ?v < k \<Longrightarrow> uint k \<le> db_user_version db"
    using v assms(3) by (simp_all add: MAX_SUPPORTED_SCHEMA_VERSION_def word_less_def not_less)
  have subs: "set V1_STATEMENTS \<subseteq> set ALL_STATEMENTS" "set V2_STATEMENTS \<subseteq> set ALL_STATEMENTS"
    "set V3_STATEMENTS \<subseteq> set ALL_STATEMENTS" "set V4_STATEMENTS \<subseteq> set ALL_STATEMENTS"
    by (auto simp: ALL_STATEMENTS_def)
  have r1: "has_all V1_STATEMENTS db" if "\<not> ?v < 1"
    using le(2) [OF that] assms(4) unfolding reached_def by simp
  obtain d1 where d1: "when_below ?v 1 apply_v1 (Inr db) = Inr d1" "conforms d1" "has_all V1_STATEMENTS d1" "grown db d1"
    using step_succeeds [OF assms(1) subs(1) schema_order(2) r1] unfolding apply_v1_def by blast
  have r2: "has_all V2_STATEMENTS d1" if "\<not> ?v < 2"
    using le(2) [OF that] assms(4) unfolding reached_def by (auto intro: has_all_grown [OF _ d1(4)])
  obtain d2 where d2: "when_below ?v 2 apply_v2 (Inr d1) = Inr d2" "conforms d2" "has_all V2_STATEMENTS d2" "grown d1 d2"
    using step_succeeds [OF d1(2) subs(2) schema_order(3) r2] unfolding apply_v2_def by blast
  have r3: "has_all V3_STATEMENTS d2" if "\<not> ?v < 3"
    using le(2) [OF that] assms(4) unfolding reached_def by (auto intro: has_all_grown [OF _ grown_trans [OF d1(4) d2(4)]])
  obtain d3 where d3: "when_below ?v 3 apply_v3 (Inr d2) = Inr d3" "conforms d3" "has_all V3_STATEMENTS d3" "grown d2 d3"
    using step_succeeds [OF d2(2) subs(3) schema_order(4) r3] unfolding apply_v3_def by blast
  have r4: "has_all V4_STATEMENTS d3" if "\<not> ?v < 4"
    using le(2) [OF that] assms(4) unfolding reached_def by (auto intro: has_all_grown [OF _ grown_trans [OF grown_trans [OF d1(4) d2(4)] d3(4)]])
  obtain d4 where d4: "when_below ?v 4 apply_v4 (Inr d3) = Inr d4" "conforms d4" "has_all V4_STATEMENTS d4" "grown d3 d4"
    using step_succeeds [OF d3(2) subs(4) schema_order(5) r4] unfolding apply_v4_def by blast
  let ?db = "d4\<lparr>db_user_version := uint SCHEMA_VERSION\<rparr>"
  have all: "has_all ALL_STATEMENTS d4"
    using d1 d2 d3 d4 assms(5) unfolding ALL_STATEMENTS_def
    by (auto intro: has_all_grown grown_trans)
  have "fits ?db q = fits d4 q" for q by (cases q) simp_all
  then have "conforms ?db" using d4(2) by (simp add: conforms_def list_all_iff)
  then show ?thesis
    using False le(1) d1(1) d2(1) d3(1) d4(1) all by (simp add: migrate_def)
qed

section \<open>Properties\<close>

text \<open>
  C7: Opening a database, whatever is in it and whether it succeeds or not, keeps every table with its columns
  and rows and every index, and makes only empty tables; when it fails the version is as before, when it
  succeeds the version is four.
\<close>

theorem opening_keeps_the_data:
  assumes "open_store db = (r, db')"
  shows "db_tables db \<subseteq>\<^sub>m db_tables db' \<and> db_indexes db \<subseteq>\<^sub>m db_indexes db' \<and>
    (\<forall>t \<in> dom (db_tables db') - dom (db_tables db). \<exists>d. db_tables db' t = Some (d, [])) \<and>
    db_user_version db' = (case r of Inl _ \<Rightarrow> db_user_version db | Inr _ \<Rightarrow> 4)"
proof -
  obtain r1 d1 where base: "execute_batch BASE_STATEMENTS db = (r1, d1)" by fastforce
  obtain r2 d2 where mig: "migrate d1 = (r2, d2)" by fastforce
  note b = execute_batch_grown [OF base] and m = migrate_grown [OF mig] migrate_version [OF mig]
  have "grown db db' \<and> db_user_version db' = (case r of Inl _ \<Rightarrow> db_user_version db | Inr _ \<Rightarrow> 4)"
    using assms base mig b m grown_trans by (fastforce simp: open_store_def split: sum.splits)
  then show ?thesis by (simp add: grown_def)
qed

text \<open>
  C19: Every database of an earlier version is brought to the present schema: when no name of the schema is used
  otherwise and the tables of its version are there, opening succeeds, makes all tables and indexes, and
  opening it again changes nothing.
\<close>

theorem every_version_is_migrated:
  assumes "conforms db" "0 \<le> db_user_version db" "db_user_version db \<le> 4" "reached (db_user_version db) db"
  shows "\<exists>db'. open_store db = (Inr (), db') \<and> has_all ALL_STATEMENTS db' \<and> open_store db' = (Inr (), db')"
proof -
  have "set BASE_STATEMENTS \<subseteq> set ALL_STATEMENTS" by (auto simp: ALL_STATEMENTS_def)
  then obtain d1 where d1: "execute_batch BASE_STATEMENTS db = (Inr (), d1)" "conforms d1" "has_all BASE_STATEMENTS d1"
    using batch_succeeds [OF assms(1) _ schema_order(1)] by auto
  note g = execute_batch_grown [OF d1(1)]
  then have "reached (db_user_version d1) d1" using assms(4) by (auto simp: reached_def intro: has_all_grown)
  then obtain d2 where d2: "migrate d1 = (Inr (), d2)" "conforms d2" "has_all ALL_STATEMENTS d2"
    using migrate_succeeds [OF d1(2)] assms(2,3) g d1(3) by auto
  have "db_user_version d2 = 4" using migrate_version [OF d2(1)] by simp
  then have "migrate d2 = (Inr (), d2)" by (simp add: migrate_def current_version_def SCHEMA_VERSION_def)
  moreover have "execute_batch BASE_STATEMENTS d2 = (Inr (), d2)"
    using present_batch [of d2] d2(3) by (simp add: ALL_STATEMENTS_def)
  ultimately show ?thesis using d1(1) d2 by (simp add: open_store_def)
qed

section \<open>Witnesses\<close>

text \<open>A database of the first version, with one row of evidence.\<close>

definition first_database :: "nat database" where
  "first_database =
     \<lparr>db_tables = [''evidence'' \<mapsto> (\<lparr>td_columns = [plain_column ''id'', text_column ''sha256'', text_column ''source_url'',
          text_column ''record_json'', text_column ''extracted_text''], td_primary_key = [''id'']\<rparr>, [7])],
      db_indexes = Map.empty, db_user_version = 0\<rparr>"

lemma first_conforms: "conforms first_database"
  by (simp add: conforms_def first_database_def ALL_STATEMENTS_def BASE_STATEMENTS_def V1_STATEMENTS_def V2_STATEMENTS_def
      V3_STATEMENTS_def V4_STATEMENTS_def)

lemma first_reached: "reached (db_user_version first_database) first_database"
  by (simp add: reached_def first_database_def)

theorem every_version_is_migrated_witness:
  "\<exists>db'. open_store first_database = (Inr (), db') \<and> has_all ALL_STATEMENTS db' \<and> open_store db' = (Inr (), db')"
  using every_version_is_migrated [OF first_conforms _ _ first_reached] by (simp add: first_database_def)

lemma first_opened: "\<exists>db'. open_store first_database = (Inr (), db')"
proof -
  have "set BASE_STATEMENTS \<subseteq> set ALL_STATEMENTS" by (auto simp: ALL_STATEMENTS_def)
  then obtain d1 where d1: "execute_batch BASE_STATEMENTS first_database = (Inr (), d1)" "conforms d1" "has_all BASE_STATEMENTS d1"
    using batch_succeeds [OF first_conforms _ schema_order(1)] by auto
  then have "db_user_version d1 = 0" using execute_batch_grown [OF d1(1)] by (simp add: first_database_def)
  then have "\<exists>d2. migrate d1 = (Inr (), d2)" using migrate_succeeds [OF d1(2)] d1(3) by (auto simp: reached_def)
  then show ?thesis using d1(1) by (auto simp: open_store_def)
qed

theorem opening_keeps_the_data_witness:
  "\<exists>db'. open_store first_database = (Inr (), db') \<and> db_user_version db' = 4 \<and>
     (\<exists>d. db_tables db' ''evidence'' = Some (d, [7]))"
proof -
  obtain db' where run: "open_store first_database = (Inr (), db')" using first_opened by blast
  from opening_keeps_the_data [OF run] have "db_tables first_database \<subseteq>\<^sub>m db_tables db'" "db_user_version db' = 4" by auto
  moreover from this have "db_tables db' ''evidence'' = db_tables first_database ''evidence''"
    by (auto simp: map_le_def dom_def first_database_def)
  ultimately show ?thesis using run by (auto simp: first_database_def)
qed

section \<open>What the code shows\<close>

text \<open>A fresh database is not at the present schema: all migrations run on it.\<close>

lemma fresh_database_is_migrated:
  assumes "db_user_version db = 0"
  shows "migrate db \<noteq> (Inr (), db)"
  using migrate_version [of db "Inr ()" db] assms by auto

text \<open>A database of a later build is refused only after the first tables have been made in it.\<close>

lemma newer_database_is_touched:
  assumes "conforms db" "4 < db_user_version db" "db_user_version db < 2 ^ 32"
  shows "\<exists>db'. open_store db = (Inl (OpenMigration (UnsupportedSchema (of_int (db_user_version db)))), db') \<and>
    has_all BASE_STATEMENTS db'"
proof -
  have "set BASE_STATEMENTS \<subseteq> set ALL_STATEMENTS" by (auto simp: ALL_STATEMENTS_def)
  then obtain d1 where d1: "execute_batch BASE_STATEMENTS db = (Inr (), d1)" "has_all BASE_STATEMENTS d1"
    using batch_succeeds [OF assms(1) _ schema_order(1)] by auto
  have v: "db_user_version d1 = db_user_version db" using execute_batch_grown [OF d1(1)] by simp
  then have cur: "current_version d1 = of_int (db_user_version db)" using assms by (simp add: current_version_def)
  have "uint (current_version d1) = db_user_version db"
    using assms by (simp add: cur unsigned_of_int take_bit_int_eq_self)
  then have "current_version d1 \<noteq> SCHEMA_VERSION" "current_version d1 > MAX_SUPPORTED_SCHEMA_VERSION"
    using assms(2) by (auto simp: SCHEMA_VERSION_def MAX_SUPPORTED_SCHEMA_VERSION_def word_less_def)
  then show ?thesis using d1 cur by (simp add: open_store_def migrate_def)
qed

end
