(* ===== verification/ReviewImage.thy ===== *)
theory ReviewImage
  imports Geometry
begin

text \<open>
  The image a reviewer sees (\<open>render_review_image\<close>, \<open>draw_highlight\<close> and \<open>clamp_pixel\<close> of
  \<open>pnull-geometry/src/lib.rs\<close>): the rendered page with the rectangles of a citation drawn over it.  An
  operation that may panic returns an option.  \<open>pdftoppm\<close>, the decoder and the encoder of images, rounding
  and the conversion to \<open>i64\<close> are arguments.
\<close>

section \<open>Images\<close>

record pixel =
  px_red :: "8 word"
  px_green :: "8 word"
  px_blue :: "8 word"
  px_alpha :: "8 word"

record rgba_image =
  img_width :: "32 word"
  img_height :: "32 word"
  img_pixel :: "nat \<times> nat \<Rightarrow> pixel"

record pixel_lib = float_lib +
  fl_round :: "f64 \<Rightarrow> f64"
  fl_to_i64 :: "f64 \<Rightarrow> int"

text \<open>\<open>f64::clamp\<close>, which keeps a NaN.\<close>

definition f64_clamp :: "f64 \<Rightarrow> f64 \<Rightarrow> f64 \<Rightarrow> f64" where
  "f64_clamp v lo hi = (if f64_less v lo then lo else if f64_less hi v then hi else v)"

text \<open>The pixel of a coordinate; none when the image has no pixel, where the subtraction overflows.\<close>

definition clamp_pixel :: "('z pixel_lib_scheme) \<Rightarrow> f64 \<Rightarrow> 32 word \<Rightarrow> nat option" where
  "clamp_pixel F v dimension =
     (if dimension = 0 then None
      else
        let clamped = fl_to_i64 F (f64_clamp (fl_round F v) 0 (fl_of_u32 F (dimension - 1))) in
        Some (if 0 \<le> clamped \<and> clamped < 2 ^ 32 then nat clamped else 0))"

text \<open>The channels move towards yellow, computed in 32 bits and cut to eight.\<close>

definition lighter :: "8 word \<Rightarrow> 8 word" where
  "lighter c = of_nat (min (unat c + (255 - unat c) * 3 div 4) 255)"

definition highlighted :: "pixel \<Rightarrow> pixel" where
  "highlighted p =
     \<lparr>px_red = lighter (px_red p), px_green = lighter (px_green p),
      px_blue = of_nat (unat (px_blue p) - unat (px_blue p) div 2), px_alpha = 255\<rparr>"

definition highlight_pixel :: "nat \<times> nat \<Rightarrow> rgba_image \<Rightarrow> rgba_image option" where
  "highlight_pixel q im =
     (if fst q < unat (img_width im) \<and> snd q < unat (img_height im)
      then Some (im\<lparr>img_pixel := (img_pixel im)(q := highlighted (img_pixel im q))\<rparr>) else None)"

fun highlight_each :: "(nat \<times> nat) list \<Rightarrow> rgba_image \<Rightarrow> rgba_image option" where
  "highlight_each [] im = Some im"
| "highlight_each (q # qs) im = Option.bind (highlight_pixel q im) (highlight_each qs)"

text \<open>The corners of the rectangle on the image: left, right, top, bottom.\<close>

definition corners ::
  "('z pixel_lib_scheme) \<Rightarrow> rgba_image \<Rightarrow> BoundingRect \<Rightarrow> f64 \<Rightarrow> f64 \<Rightarrow> f64 \<Rightarrow> (nat \<times> nat \<times> nat \<times> nat) option" where
  "corners F im r page_height scale_x scale_y =
     (case (clamp_pixel F (fl_round F (fl_mul F (rect_x_min r) scale_x)) (img_width im),
            clamp_pixel F (fl_round F (fl_mul F (rect_x_max r) scale_x)) (img_width im),
            clamp_pixel F (fl_round F (fl_mul F (fl_sub F page_height (rect_y_max r)) scale_y)) (img_height im),
            clamp_pixel F (fl_round F (fl_mul F (fl_sub F page_height (rect_y_min r)) scale_y)) (img_height im)) of
        (Some x0, Some x1, Some y0, Some y1) \<Rightarrow> Some (x0, x1, y0, y1)
      | _ \<Rightarrow> None)"

definition rectangle_pixels :: "nat \<times> nat \<times> nat \<times> nat \<Rightarrow> (nat \<times> nat) list" where
  "rectangle_pixels = (\<lambda>(x0, x1, y0, y1). map prod.swap (List.product [y0..<Suc y1] [x0..<Suc x1]))"

definition draw_highlight ::
  "('z pixel_lib_scheme) \<Rightarrow> BoundingRect \<Rightarrow> f64 \<Rightarrow> f64 \<Rightarrow> f64 \<Rightarrow> rgba_image \<Rightarrow> rgba_image option" where
  "draw_highlight F r page_height scale_x scale_y im =
     Option.bind (corners F im r page_height scale_x scale_y) (\<lambda>c. highlight_each (rectangle_pixels c) im)"

fun draw_all ::
  "('z pixel_lib_scheme) \<Rightarrow> BoundingRect list \<Rightarrow> f64 \<Rightarrow> f64 \<Rightarrow> f64 \<Rightarrow> rgba_image \<Rightarrow> rgba_image option" where
  "draw_all F [] page_height scale_x scale_y im = Some im"
| "draw_all F (r # rs) page_height scale_x scale_y im =
     Option.bind (draw_highlight F r page_height scale_x scale_y im) (draw_all F rs page_height scale_x scale_y)"

section \<open>Rendering\<close>

text \<open>
  What is outside the program: \<open>pdftoppm\<close> on the file and its options (its status and the files it leaves, in the
  order the directory lists them), and the image formats.
\<close>

record render_host =
  rh_pdftoppm :: "str list \<Rightarrow> bytes \<Rightarrow> str + bool \<times> (str \<times> bytes) list"
  rh_decode :: "bytes \<Rightarrow> str + rgba_image"
  rh_encode :: "rgba_image \<Rightarrow> str + str"

text \<open>\<open>Path::extension\<close> is \<open>png\<close>: the name ends with it, after at least one other character.\<close>

definition is_png :: "str \<Rightarrow> bool" where
  "is_png name \<longleftrightarrow> length name > 4 \<and> drop (length name - 4) name = lit ''.png''"

definition render_options :: "32 word \<Rightarrow> 32 word \<Rightarrow> str list" where
  "render_options page_number dpi =
     [lit ''-png'', lit ''-r'', show_nat (unat dpi), lit ''-f'', show_nat (unat page_number), lit ''-l'',
      show_nat (unat page_number)]"

definition rendered_page :: "render_host \<Rightarrow> bytes \<Rightarrow> 32 word \<Rightarrow> 32 word \<Rightarrow> GeometryError + rgba_image" where
  "rendered_page H pdf page_number dpi =
     (case rh_pdftoppm H (render_options page_number dpi) pdf of
        Inl e \<Rightarrow> Inl (Render e)
      | Inr (success, files) \<Rightarrow>
          if \<not> success then Inl (Render (lit ''pdftoppm failed''))
          else
            case find (is_png \<circ> fst) files of
              None \<Rightarrow> Inl (Render (lit ''no rendered page''))
            | Some (_, png) \<Rightarrow> (case rh_decode H png of Inl e \<Rightarrow> Inl (Render e) | Inr im \<Rightarrow> Inr im))"

definition render_review_image ::
  "('z pixel_lib_scheme) \<Rightarrow> render_host \<Rightarrow> bytes \<Rightarrow> 32 word \<Rightarrow> BoundingRect list \<Rightarrow> f64 \<Rightarrow> f64 \<Rightarrow> 32 word \<Rightarrow>
   (GeometryError + str) option" where
  "render_review_image F H pdf page_number rects page_width page_height dpi =
     (case rendered_page H pdf page_number dpi of
        Inl e \<Rightarrow> Some (Inl e)
      | Inr im \<Rightarrow>
          (case draw_all F rects page_height (fl_div F (fl_of_u32 F (img_width im)) page_width)
              (fl_div F (fl_of_u32 F (img_height im)) page_height) im of
             None \<Rightarrow> None
           | Some marked \<Rightarrow> Some (case rh_encode H marked of Inl e \<Rightarrow> Inl (Render e) | Inr out \<Rightarrow> Inr out)))"

section \<open>Where the highlight is\<close>

text \<open>
  What the conversions guarantee: a number between zero and the number of a pixel is converted to a pixel
  between the first and that one.
\<close>

definition pixel_conversion :: "('z pixel_lib_scheme) \<Rightarrow> 32 word \<Rightarrow> bool" where
  "pixel_conversion F n \<longleftrightarrow>
     \<not> is_nan (fl_of_u32 F n) \<and> 0 \<le> f64_key (fl_of_u32 F n) \<and>
     (\<forall>v. is_nan v \<longrightarrow> fl_to_i64 F v = 0) \<and>
     (\<forall>v. f64_le 0 v \<longrightarrow> f64_le v (fl_of_u32 F n) \<longrightarrow> 0 \<le> fl_to_i64 F v \<and> fl_to_i64 F v \<le> uint n)"

lemma zero_is_zero: "\<not> is_nan 0" "f64_key 0 = 0"
  by (simp_all add: is_nan_def f64_key_def f64_magnitude_def f64_negative_def f64_infinity_def)

lemma f64_clamp_range:
  assumes "\<not> is_nan hi" "0 \<le> f64_key hi"
  shows "is_nan (f64_clamp v 0 hi) \<or> f64_le 0 (f64_clamp v 0 hi) \<and> f64_le (f64_clamp v 0 hi) hi"
  using assms by (auto simp: f64_clamp_def f64_less_def f64_le_def zero_is_zero)

lemma clamp_pixel_inside:
  assumes "dimension \<noteq> 0" "pixel_conversion F (dimension - 1)"
  shows "\<exists>k. clamp_pixel F v dimension = Some k \<and> k < unat dimension"
proof -
  let ?i = "fl_to_i64 F (f64_clamp (fl_round F v) 0 (fl_of_u32 F (dimension - 1)))"
  have "0 \<le> ?i \<and> ?i \<le> uint (dimension - 1)"
    using f64_clamp_range [of "fl_of_u32 F (dimension - 1)" "fl_round F v"] assms(2)
    unfolding pixel_conversion_def by auto
  moreover have "uint (dimension - 1) = uint dimension - 1"
    using assms(1) uint_sub_if' [of dimension 1] by (simp add: word_neq_0_conv word_less_def)
  ultimately have i: "0 \<le> ?i" "?i < uint dimension" by simp_all
  moreover have "uint dimension < 2 ^ 32" using uint_lt2p [of dimension] by simp
  ultimately have "clamp_pixel F v dimension = Some (nat ?i)" using assms(1) by (simp add: clamp_pixel_def)
  moreover have "nat ?i < unat dimension" using i unfolding unat_eq_nat_uint by linarith
  ultimately show ?thesis by blast
qed

lemma highlight_each_marks:
  assumes "distinct qs" "\<forall>q \<in> set qs. fst q < unat (img_width im) \<and> snd q < unat (img_height im)"
  shows "highlight_each qs im =
    Some (im\<lparr>img_pixel := \<lambda>q. if q \<in> set qs then highlighted (img_pixel im q) else img_pixel im q\<rparr>)"
  using assms
proof (induction qs arbitrary: im)
  case (Cons q qs)
  then have "highlight_pixel q im = Some (im\<lparr>img_pixel := (img_pixel im)(q := highlighted (img_pixel im q))\<rparr>)"
    by (simp add: highlight_pixel_def)
  then show ?case using Cons by (auto intro!: rgba_image.equality)
qed simp

lemma rectangle_pixels_set: "set (rectangle_pixels (x0, x1, y0, y1)) = {x0..x1} \<times> {y0..y1}"
  by (auto simp: rectangle_pixels_def image_iff)

lemma rectangle_pixels_distinct: "distinct (rectangle_pixels c)"
  by (cases c) (simp add: rectangle_pixels_def distinct_map distinct_product)

text \<open>
  A highlight never leaves the image and never panics: it changes exactly the pixels of the rectangle, each
  once, and the image keeps its size.
\<close>

theorem highlight_stays_inside:
  assumes "img_width im \<noteq> 0" "img_height im \<noteq> 0"
    and "pixel_conversion F (img_width im - 1)" "pixel_conversion F (img_height im - 1)"
  shows "\<exists>x0 x1 y0 y1. corners F im r page_height scale_x scale_y = Some (x0, x1, y0, y1) \<and>
    x1 < unat (img_width im) \<and> y1 < unat (img_height im) \<and>
    draw_highlight F r page_height scale_x scale_y im =
      Some (im\<lparr>img_pixel := \<lambda>q. if q \<in> {x0..x1} \<times> {y0..y1} then highlighted (img_pixel im q) else img_pixel im q\<rparr>)"
proof -
  obtain x0 x1 y0 y1 where c: "corners F im r page_height scale_x scale_y = Some (x0, x1, y0, y1)"
    "x1 < unat (img_width im)" "y1 < unat (img_height im)"
    using clamp_pixel_inside [OF assms(1,3)] clamp_pixel_inside [OF assms(2,4)]
    unfolding corners_def by (smt (verit) option.simps(5) prod.simps(2))
  then have "highlight_each (rectangle_pixels (x0, x1, y0, y1)) im =
      Some (im\<lparr>img_pixel := \<lambda>q. if q \<in> {x0..x1} \<times> {y0..y1} then highlighted (img_pixel im q) else img_pixel im q\<rparr>)"
    using highlight_each_marks [OF rectangle_pixels_distinct, of "(x0, x1, y0, y1)" im]
    by (auto simp: rectangle_pixels_set)
  then show ?thesis using c by (simp add: draw_highlight_def)
qed

text \<open>The blend does not overflow, never darkens red or green and halves blue.\<close>

lemma byte_of_nat: "k < 256 \<Longrightarrow> unat (of_nat k :: 8 word) = k"
  by (simp add: unsigned_of_nat take_bit_nat_eq_self)

lemma byte_bound: "unat (c :: 8 word) < 256"
proof -
  have "unat c < 2 ^ LENGTH(8)" by (rule unsigned_less)
  then show ?thesis by simp
qed

lemma lighter_value: "unat (lighter c) = unat c + (255 - unat c) * 3 div 4 \<and> unat c \<le> unat (lighter c)"
proof -
  have le: "unat c + (255 - unat c) * 3 div 4 \<le> 255" using byte_bound [of c] by linarith
  then have "unat (lighter c) = min (unat c + (255 - unat c) * 3 div 4) 255"
    unfolding lighter_def by (intro byte_of_nat) linarith
  then show ?thesis using le by linarith
qed

lemma highlighted_blue: "unat (px_blue (highlighted p)) = unat (px_blue p) - unat (px_blue p) div 2"
  using byte_bound [of "px_blue p"] unfolding highlighted_def pixel.simps by (intro byte_of_nat) linarith

section \<open>Witnesses\<close>

text \<open>An image of one pixel, with conversions that know the number zero only.\<close>

definition small_lib :: pixel_lib where
  "small_lib = \<lparr>fl_parse = (\<lambda>_. None), fl_show6 = (\<lambda>_. []), fl_of_u32 = (\<lambda>_. 0), fl_add = (\<lambda>_ _. 0),
     fl_sub = (\<lambda>_ _. 0), fl_mul = (\<lambda>_ _. 0), fl_div = (\<lambda>_ _. 0), fl_round = (\<lambda>v. v), fl_to_i64 = (\<lambda>_. 0)\<rparr>"

definition one_pixel :: rgba_image where
  "one_pixel = \<lparr>img_width = 1, img_height = 1,
     img_pixel = (\<lambda>_. \<lparr>px_red = 55, px_green = 255, px_blue = 101, px_alpha = 0\<rparr>)\<rparr>"

theorem highlight_stays_inside_witness:
  "\<exists>im. draw_highlight small_lib \<lparr>rect_x_min = 0, rect_y_min = 0, rect_x_max = 0, rect_y_max = 0\<rparr> 0 0 0 one_pixel = Some im \<and>
     img_pixel im (0, 0) = \<lparr>px_red = 205, px_green = 255, px_blue = 51, px_alpha = 255\<rparr>"
proof -
  let ?r = "\<lparr>rect_x_min = 0, rect_y_min = 0, rect_x_max = 0, rect_y_max = 0\<rparr>"
  have "pixel_conversion small_lib 0" by (simp add: pixel_conversion_def small_lib_def zero_is_zero)
  then obtain x0 x1 y0 y1 where c: "corners small_lib one_pixel ?r 0 0 0 = Some (x0, x1, y0, y1)"
    and d: "draw_highlight small_lib ?r 0 0 0 one_pixel = Some (one_pixel\<lparr>img_pixel := \<lambda>q.
      if q \<in> {x0..x1} \<times> {y0..y1} then highlighted (img_pixel one_pixel q) else img_pixel one_pixel q\<rparr>)"
    using highlight_stays_inside [of one_pixel small_lib ?r 0 0 0] by (auto simp: one_pixel_def)
  have "x0 = 0" "y0 = 0" using c by (auto simp: corners_def clamp_pixel_def small_lib_def one_pixel_def)
  moreover have "highlighted (img_pixel one_pixel q) = \<lparr>px_red = 205, px_green = 255, px_blue = 51, px_alpha = 255\<rparr>" for q
    by (simp add: one_pixel_def highlighted_def lighter_def)
  ultimately show ?thesis using d by simp
qed

end
