(* ===== verification/XClient.thy ===== *)
theory XClient
  imports Posting Legistar
begin

text \<open>
  The credentials and the client of \<open>pnull-x/src/lib.rs\<close>: where the token comes from, and the request of
  one post.  The environment, the file system and the network are arguments; the network answers a request
  in the light of the requests before it.
\<close>

section \<open>Credentials\<close>

text \<open>
  A variable of the environment is absent for \<open>std::env::var\<close> when it is not valid Unicode; for a path the
  mode and the text of the file, if they can be had.
\<close>

record runtime =
  rt_token :: "str option"
  rt_secret_file :: "str option"
  rt_mode :: "str \<Rightarrow> 32 word option"
  rt_read :: "str \<Rightarrow> str option"

text \<open>The low nine bits of the mode.\<close>

definition permission_bits :: "32 word \<Rightarrow> nat" where
  "permission_bits mode = unat mode mod 512"

definition from_protected_file :: "runtime \<Rightarrow> str \<Rightarrow> XError + str" where
  "from_protected_file R path =
     (case rt_mode R path of
        None \<Rightarrow> Inl SecretRead
      | Some mode \<Rightarrow>
          if permission_bits mode \<noteq> 384 then Inl SecretPermissions
          else
            case rt_read R path of
              None \<Rightarrow> Inl SecretRead
            | Some value \<Rightarrow> if trim value = [] then Inl CredentialsMissing else Inr (trim value))"

definition from_runtime :: "runtime \<Rightarrow> XError + str" where
  "from_runtime R =
     (case rt_token R of
        Some value \<Rightarrow>
          if trim value \<noteq> [] then Inr value
          else (case rt_secret_file R of None \<Rightarrow> Inl CredentialsMissing | Some path \<Rightarrow> from_protected_file R path)
      | None \<Rightarrow>
          (case rt_secret_file R of None \<Rightarrow> Inl CredentialsMissing | Some path \<Rightarrow> from_protected_file R path))"

definition show_credentials :: "str \<Rightarrow> str" where
  "show_credentials token = lit ''Credentials([REDACTED])''"

section \<open>The client\<close>

record x_request =
  xq_url :: str
  xq_bearer :: str
  xq_body :: json

record x_response =
  xr_status :: nat
  xr_body :: bytes

text \<open>
  The client is built or not; it answers with a response or fails; the body is decoded to the identifier
  in its \<open>data\<close> by \<open>serde\<close>.
\<close>

record x_network =
  xn_client :: bool
  xn_send :: "x_request list \<Rightarrow> x_response option"
  xn_decode :: "bytes \<Rightarrow> str option"

definition tweet_request :: "str \<Rightarrow> str option \<Rightarrow> json" where
  "tweet_request text reply_to =
     JObject ((lit ''text'', JString text) #
       (case reply_to of None \<Rightarrow> []
        | Some i \<Rightarrow> [(lit ''reply'', JObject [(lit ''in_reply_to_tweet_id'', JString i)])]))"

definition x_request_of :: "str \<Rightarrow> call \<Rightarrow> x_request" where
  "x_request_of token c =
     \<lparr>xq_url = lit ''https://api.x.com/2/tweets'', xq_bearer = token, xq_body = tweet_request (fst c) (snd c)\<rparr>"

text \<open>A call that is too long is refused before a request is made; the requests are those of the other calls.\<close>

definition sendable :: "call \<Rightarrow> bool" where
  "sendable c \<longleftrightarrow> length (fst c) \<le> X_CHARACTER_LIMIT"

definition x_submit :: "x_network \<Rightarrow> str \<Rightarrow> Posting.transport" where
  "x_submit N token log =
     (if \<not> sendable (last log) then Inl CharacterLimit
      else
        case xn_send N (map (x_request_of token) (filter sendable log)) of
          None \<Rightarrow> Inl XError.Transport
        | Some response \<Rightarrow>
            if 400 \<le> xr_status response \<and> xr_status response < 600 then Inl XError.Transport
            else (case xn_decode N (xr_body response) of None \<Rightarrow> Inl XError.Transport | Some i \<Rightarrow> Inr i))"

definition runtime_transport :: "runtime \<Rightarrow> x_network \<Rightarrow> XError + Posting.transport" where
  "runtime_transport R N =
     (case from_runtime R of
        Inl e \<Rightarrow> Inl e
      | Inr token \<Rightarrow> if xn_client N then Inr (x_submit N token) else Inl XError.Transport)"

section \<open>What the token is and where it goes\<close>

text \<open>A token from a file comes from one that only its owner can read or write.\<close>

lemma token_from_protected_file:
  assumes "from_protected_file R path = Inr token"
  shows "\<exists>mode value. rt_mode R path = Some mode \<and> permission_bits mode = 384 \<and> rt_read R path = Some value \<and>
    token = trim value \<and> token \<noteq> []"
  using assms by (auto simp: from_protected_file_def split: option.splits if_splits)

text \<open>
  The token is in no body and no address: two runtimes with different tokens send the same requests but for
  the header.
\<close>

lemma token_is_only_in_the_header:
  "x_request_of token c = (x_request_of token' c)\<lparr>xq_bearer := token\<rparr> \<and> show_credentials token = show_credentials token'"
  by (simp add: x_request_of_def show_credentials_def)

text \<open>A token of the environment keeps its white space, one of a file does not.\<close>

lemma environment_token_is_not_trimmed:
  assumes "rt_token R = Some (value @ [10])" "trim (value @ [10]) \<noteq> []"
  shows "from_runtime R = Inr (value @ [10])"
  using assms by (simp add: from_runtime_def)

text \<open>A post that X accepted is reported as failed when its answer cannot be decoded.\<close>

lemma accepted_post_can_fail:
  assumes "sendable (last log)" "xn_send N (map (x_request_of token) (filter sendable log)) = Some response"
    and "xr_status response = 201" "xn_decode N (xr_body response) = None"
  shows "x_submit N token log = Inl XError.Transport"
  using assms by (simp add: x_submit_def)

end
