(* ===== verification/HttpClient.thy ===== *)
theory HttpClient
  imports Fetch
begin

text \<open>
  The resolver and the client behind a fetch (\<open>SystemResolver\<close> and \<open>ReqwestTransport\<close> of
  \<open>pnull-http/src/lib.rs\<close>).  The operating system's resolver and the network are arguments; the network sees
  the requests so far, the present one last, and never follows a redirect.
\<close>

text \<open>The addresses of a host at port 443, or the failure of the look-up.\<close>

definition system_resolver :: "('u TransportRequest list \<Rightarrow> str \<Rightarrow> IpAddr list option) \<Rightarrow> 'u resolver" where
  "system_resolver lookup log host =
     (case lookup log host of
        None \<Rightarrow> Inl (Resolution host)
      | Some addresses \<Rightarrow> if addresses = [] then Inl (Resolution host) else Inr addresses)"

record 'u http_get =
  hg_url :: 'u
  hg_headers :: "(str \<times> str) list"

record raw_response =
  rr_status :: "16 word"
  rr_headers :: "(str \<times> bytes) list"
  rr_content :: "bytes option"

text \<open>\<open>HeaderValue::to_str\<close>: visible ASCII, spaces and tabs.\<close>

definition header_text :: "bytes \<Rightarrow> str option" where
  "header_text value = (if list_all (\<lambda>b. 32 \<le> b \<and> b < 127 \<or> b = 9) value then Some value else None)"

definition readable_headers :: "(str \<times> bytes) list \<Rightarrow> (str \<times> str) list" where
  "readable_headers = List.map_filter (\<lambda>(n, value). map_option (Pair n) (header_text value))"

definition http_get_of :: "'u TransportRequest \<Rightarrow> 'u http_get" where
  "http_get_of request =
     \<lparr>hg_url = treq_url request,
      hg_headers =
        (case treq_conditional_etag request of None \<Rightarrow> [] | Some e \<Rightarrow> [(lit ''if-none-match'', e)]) @
        (case treq_conditional_modified request of None \<Rightarrow> [] | Some d \<Rightarrow> [(lit ''if-modified-since'', d)])\<rparr>"

definition reqwest_transport :: "('u http_get list \<Rightarrow> raw_response option) \<Rightarrow> 'u transport" where
  "reqwest_transport network log =
     (case network (map http_get_of log) of
        None \<Rightarrow> Inl Transport
      | Some response \<Rightarrow>
          (case rr_content response of
             None \<Rightarrow> Inl Transport
           | Some body \<Rightarrow>
               Inr \<lparr>tres_status_code = rr_status response, tres_headers = readable_headers (rr_headers response),
                 tres_body = body\<rparr>))"

text \<open>The client is built with the limit of the body and does not use it.\<close>

definition new_transport :: "bool \<Rightarrow> ('u http_get list \<Rightarrow> raw_response option) \<Rightarrow> nat \<Rightarrow> HttpError + 'u transport" where
  "new_transport built network max_bytes = (if built then Inr (reqwest_transport network) else Inl Transport)"

section \<open>What the code shows\<close>

lemma limit_is_not_used: "new_transport built network n = new_transport built network m"
  by (simp add: new_transport_def)

lemma set_map_filter_readable:
  "(n, v) \<in> set (readable_headers hs) \<longleftrightarrow> (\<exists>value. (n, value) \<in> set hs \<and> header_text value = Some v)"
  by (force simp: readable_headers_def set_map_filter)

text \<open>Every header that is read is one of the answer, with the same bytes; none is invented.\<close>

lemma readable_headers_sound: "(n, v) \<in> set (readable_headers hs) \<Longrightarrow> (n, v) \<in> set hs"
  by (auto simp: set_map_filter_readable header_text_def split: if_splits)

end
