(* ===== verification/Spec2Isabelle.thy ===== *)
theory Spec2Isabelle
  imports Money Threads Budget Relationships Subjects Compare Site Commands Documents Operator Schema ReviewImage XClient HttpClient
begin

text \<open>
  A verification development for \<open>panopticon-null\<close>, a Rust workspace (\<open>src/crates/\<close>) that captures
  official procurement records, keeps them with their evidence in an append-only SQLite store, has
  every citation approved by a human reviewer, and publishes a static site, CSV exports and posts on X.

  \<^bold>\<open>The parts of the program and how they interact.\<close>  \<open>pnull-core\<close> holds the record types, the
  content-addressed identifiers and the store.  \<open>pnull-procurement\<close> records acquisitions as snapshots
  with their parsed rows, diffs successive snapshots, reconciles identifiers, links the events of a
  matter into a chain and exports CSV, each through the store's methods.  \<open>pnull-publish\<close> guards
  publication: it reads reviews from the store, checks citations, references and the published text, and
  writes the pages.  \<open>pnull-cli\<close> composes these: its commands fetch or read, parse, record, attach and print.
  \<open>pnull-x\<close> drafts posts (through the same privacy gate), and posts them under a protocol that reserves
  an alert in the store before the transport is called.  \<open>pnull-ingest\<close> extracts the text of captured documents,
  with external tools in a sandbox under the budgets of the job, and keeps it with the maps of its words that
  \<open>pnull-geometry\<close> reads and cites from; it also walks the pages of the Legistar event list.

  \<^bold>\<open>Conventions.\<close> Strings are lists of Unicode scalar values (\<open>uchar\<close>, natural
  numbers), UTF-8 is written out (\<open>as_bytes\<close>, \<open>byte_len\<close>). Errors are values of a sum,
  one constructor per error of the source; a panic is the outcome \<open>None\<close>, as in the extraction of
  text. A method of \<open>Store\<close> is a function on the state \<open>store\<close>, one field per table; a
  longer operation is an \<open>op\<close>, which returns its result and the state it leaves, also on failure.
  The hash function (crate \<open>sha2\<close>), the transports, DNS, the URL and HTML libraries and the Unicode
  upper-case table are arguments.
  Statements about the hash assume it injective on the exact preimages they name, never in general.

  \<^bold>\<open>The theories.\<close>
    \<^item> \<open>Prelude\<close>: strings, trimming, splitting, UTF-8, shared lemmas.
    \<^item> \<open>Digest\<close> (\<open>pnull-core/src/lib.rs\<close>): \<open>sha256_hex\<close>, \<open>stable_id\<close>, \<open>evidence_id\<close>; identifiers are
      injective on their parts.
    \<^item> \<open>CoreTypes\<close>, \<open>ProcTypes\<close> (\<open>types.rs\<close>, \<open>procurement.rs\<close>): records, labels, identifiers; the review
      binding digest and the row-set digest identify multisets.
    \<^item> \<open>Money\<close> (\<open>procurement.rs\<close>): \<open>parse_money\<close> and \<open>MoneyValue::display\<close>, with the 64-bit overflow
      checks written out; the round trip of every amount the parser reads, with the amounts whose sign is lost.
    \<^item> \<open>Tables\<close>, \<open>Store\<close>, \<open>StoreSteps\<close> (\<open>pnull-core/src/lib.rs\<close>): the locale \<open>keyed_table\<close> of tables
      written by \<open>INSERT OR IGNORE\<close>, interpreted for every such table; the methods of \<open>Store\<close>; the
      step relation of all writing methods with the schema invariant and append-only history.
    \<^item> \<open>Schema\<close> (\<open>migrate.rs\<close>, \<open>Store::open\<close>): the tables and indexes of every version, the migrations as
      batches of statements in a transaction; they keep all data and reach the present schema.
    \<^item> \<open>Ops\<close>: sequencing of store operations with early return.
    \<^item> \<open>Snapshots\<close> (\<open>snapshot.rs\<close>): recording, diffing and the verified reader.
    \<^item> \<open>PublishGate\<close> (\<open>pnull-publish/src/lib.rs\<close>): the citation, reference and privacy gates.
    \<^item> \<open>Posting\<close>, \<open>Threads\<close>, \<open>XClient\<close> (\<open>pnull-x/src/lib.rs\<close>): drafts, threads, the posting protocol and its
      reconciliation; the credentials and the requests of the client.
    \<^item> \<open>Csv\<close> (\<open>csv.rs\<close>), \<open>Identifiers\<close> (\<open>procurement.rs\<close>, \<open>reconcile.rs\<close>, \<open>coverage.rs\<close>), \<open>Chain\<close>
      (\<open>chain.rs\<close>).
    \<^item> \<open>Awards\<close> (\<open>awards.rs\<close>, \<open>matters.rs\<close>): the award table and its attachment to matters;
      \<open>ChangeAlerts\<close> (\<open>changealert.rs\<close>): row identity, field diffs and alerts; \<open>Relationships\<close>
      (\<open>relationships.rs\<close>): links between records that cite each other's identifiers.
    \<^item> \<open>CoraLedger\<close> (\<open>cora.rs\<close>, \<open>cora_ledger.rs\<close>): the draft text and the ledger of requests, with its
      step relation, its invariant and the refinement of the abstract machine of one request.
    \<^item> \<open>CaseFiles\<close> (\<open>casefile.rs\<close>): everything the store holds on a matter, gathered with its citations,
      rendered and recorded as a draft; the case file finds the response that the ledger linked.
    \<^item> \<open>Lines\<close>: \<open>str::lines\<close>, byte offsets and lines, removing repetitions.  \<open>Detect\<close>, \<open>Subjects\<close>, \<open>Compare\<close>
      (\<open>pnull-detect/src/lib.rs\<close>): rule files, the scan and the state classifier; roles, subjects and
      actions; the comparison of two versions and the alert built from a finding.
    \<^item> \<open>Solicitations\<close> (\<open>solicitations.rs\<close>, \<open>openbook.rs\<close>): the solicitation page, record by record;
      \<open>Imports\<close> (\<open>import.rs\<close>): supplied records, kept content-addressed and accepted by the request ledger.
    \<^item> \<open>Html\<close>, \<open>MatterPages\<close>, \<open>Site\<close> (\<open>pnull-publish/src/lib.rs\<close>, \<open>procurement.rs\<close>): escaping, the page of a
      matter with its gate, the index and feeds, all pages of the site and its replacement, whose steps on the
      file system (\<open>replace_io\<close>) can fail.
    \<^item> \<open>Utf8Lossy\<close>: \<open>String::from_utf8_lossy\<close>.  \<open>Ingest\<close>, \<open>Refresh\<close>, \<open>Commands\<close> (\<open>pnull-cli/src/procurement_cmd.rs\<close>,
      \<open>refresh.rs\<close>, the dispatch of \<open>main.rs\<close>): every procurement command as an operation on the store
      that returns the lines it prints and the files it writes; what an ingest leaves behind, what a
      refresh reports, which commands change nothing.
    \<^item> \<open>IpAddress\<close>, \<open>Fetch\<close>, \<open>HttpClient\<close> (\<open>pnull-http/src/lib.rs\<close>): the address policy on 32- and 128-bit
      words, the fetch loop with redirects and conditional requests, the resolver and the client behind it.
    \<^item> \<open>Budget\<close> (\<open>pnull-ingest/src/budget.rs\<close>): the counters at their widths, with saturation; the locale
      \<open>budget_counter\<close> is interpreted for all eight.
    \<^item> \<open>NormText\<close>, \<open>TextExtraction\<close>, \<open>Documents\<close> (\<open>pnull-ingest/src/lib.rs\<close>): the normal form of a text;
      extraction by media type, with the text layer or OCR of a PDF; the request, the record, its maps and its
      run.  \<open>Sandbox\<close> (\<open>sandbox.rs\<close>): staging, the Bubblewrap command line, limits and the cleaning of
      diagnostics.  \<open>Geometry\<close> (\<open>pnull-geometry/src/lib.rs\<close>): text maps, their validation, occurrences of a
      quotation and page citations; \<open>ReviewImage\<close>: the image with the highlighted quotation, which never
      leaves the page.  \<open>Legistar\<close> (\<open>pnull-ingest/src/lib.rs\<close>): pagination of the event list, with
      its limits, and the matters and attachments of an event.
    \<^item> \<open>LiveIngest\<close>, \<open>Operator\<close> (\<open>pnull-cli/src/main.rs\<close>): source reviews and the live ingestion behind
      their gate; the remaining commands and the dispatch \<open>run_command\<close> on a \<open>world\<close> of the store, the files
      outside it (those a command writes are applied, a site build replaces its directory) and the calls made to X.

  \<^bold>\<open>Termination and fuel.\<close>  Every recursion is structural or has a proved measure; no fuel is used.  The loop
  over Legistar pages is bounded by the page limit of the source itself.

  \<^bold>\<open>Not modelled.\<close>  Argument parsing and the demonstration (\<open>run_demo\<close> and \<open>demo.rs\<close>: fixed sample data run
  through the modelled operations, with a store and a site of its own below its output directory; statements about
  all commands are about all the others), the temporary directory of a site build, files a command had written
  when a later write of it failed, child processes (an argument of the sandbox and of the reviewer image) and
  the network.  Floating point numbers are
  64-bit patterns whose arithmetic and printing are arguments.  Output is modelled for commands that succeed:
  what was printed before an error is not.  Of SQLite only what the statements of the source ask of it is
  modelled: keys, order of results, transactions.
\<close>

end
